(* ===== verification/Prelude.thy ===== *)
theory Prelude
  imports Main "HOL-Library.AList" "HOL-Library.List_Lexorder" "HOL-Library.Char_ord"
    "HOL-Library.Product_Lexorder"
begin

text \<open>
  What every component shares: Python dictionaries as association lists in insertion order,
  results that are a value or a raised exception, the string operations of the sources
  (strip, split, join, splitlines, casefold, f-strings of integers) and first-minimum
  selection. Strings are ASCII: on them Isabelle's \<open>char list\<close> with its lexicographic order
  is Python's \<open>str\<close> with its order by code point.
\<close>

named_theorems dict_simps \<open>lookups in dictionaries built by updates\<close>
named_theorems frame \<open>fields that an operation leaves alone\<close>

subsection \<open>Exceptions\<close>

text \<open>The last constructor holds the class of an exception that the program tells apart by name, and its text.\<close>

datatype py_error =
    KeyError string
  | ValueError string
  | TypeError string
  | AttributeError string
  | RuntimeError string
  | ValidationError string
  | NotFound string
  | StateConflict string
  | ApiFailure nat string bool
  | Raised string string

type_synonym 'a result = "py_error + 'a"

definition bind_r :: "'a result \<Rightarrow> ('a \<Rightarrow> 'b result) \<Rightarrow> 'b result" where
  "bind_r r f = (case r of Inl e \<Rightarrow> Inl e | Inr v \<Rightarrow> f v)"

lemma bind_r_simps [simp]: "bind_r (Inl e) f = Inl e" "bind_r (Inr v) f = f v"
  by (simp_all add: bind_r_def)

lemma bind_r_eq_Inr [simp]: "bind_r r f = Inr b \<longleftrightarrow> (\<exists>v. r = Inr v \<and> f v = Inr b)"
  by (cases r) auto

lemma bind_r_eq_Inl: "bind_r r f = Inl e \<longleftrightarrow> r = Inl e \<or> (\<exists>v. r = Inr v \<and> f v = Inl e)"
  by (cases r) auto

text \<open>A comprehension whose body may raise stops at the first exception.\<close>

fun map_r :: "('a \<Rightarrow> 'b result) \<Rightarrow> 'a list \<Rightarrow> 'b list result" where
  "map_r f [] = Inr []"
| "map_r f (x # xs) = bind_r (f x) (\<lambda>y. bind_r (map_r f xs) (\<lambda>ys. Inr (y # ys)))"

lemma map_r_Inr: "map_r f xs = Inr ys \<longleftrightarrow> list_all2 (\<lambda>x y. f x = Inr y) xs ys"
  by (induction xs arbitrary: ys) (auto simp: list_all2_Cons1)

lemma map_r_all_Inr: "(\<And>x. x \<in> set xs \<Longrightarrow> f x = Inr (g x)) \<Longrightarrow> map_r f xs = Inr (map g xs)"
  by (induction xs) auto

lemma bind_r_cong [fundef_cong]:
  "\<lbrakk>r = r'; \<And>v. r' = Inr v \<Longrightarrow> f v = f' v\<rbrakk> \<Longrightarrow> bind_r r f = bind_r r' f'"
  by (cases r') auto

text \<open>A loop that updates local variables and may raise.\<close>

fun fold_r :: "('a \<Rightarrow> 's \<Rightarrow> 's result) \<Rightarrow> 'a list \<Rightarrow> 's \<Rightarrow> 's result" where
  "fold_r f [] s = Inr s"
| "fold_r f (x # xs) s = bind_r (f x s) (fold_r f xs)"

lemma fold_r_pure: "(\<And>x s. x \<in> set xs \<Longrightarrow> f x s = Inr (g x s)) \<Longrightarrow> fold_r f xs s = Inr (fold g xs s)"
  by (induction xs arbitrary: s) auto

lemma fold_r_append: "fold_r f (xs @ ys) s = bind_r (fold_r f xs s) (fold_r f ys)"
  by (induction xs arbitrary: s) (auto simp: bind_r_def split: sum.splits)

subsection \<open>Operations on a state\<close>

text \<open>
  A method reads and changes the state of its object and returns or raises; what it changed
  before raising stays changed.
\<close>

type_synonym ('s, 'a) op = "'s \<Rightarrow> 'a result \<times> 's"

definition ret_op :: "'a \<Rightarrow> ('s, 'a) op" where
  "ret_op v s = (Inr v, s)"

definition raise_op :: "py_error \<Rightarrow> ('s, 'a) op" where
  "raise_op e s = (Inl e, s)"

definition bind_op :: "('s, 'a) op \<Rightarrow> ('a \<Rightarrow> ('s, 'b) op) \<Rightarrow> ('s, 'b) op" where
  "bind_op m f s = (case m s of (Inl e, s') \<Rightarrow> (Inl e, s') | (Inr v, s') \<Rightarrow> f v s')"

definition read_op :: "('s \<Rightarrow> 'a result) \<Rightarrow> ('s, 'a) op" where
  "read_op f s = (f s, s)"

fun for_op :: "('a \<Rightarrow> ('s, unit) op) \<Rightarrow> 'a list \<Rightarrow> ('s, unit) op" where
  "for_op f [] s = (Inr (), s)"
| "for_op f (x # xs) s = bind_op (f x) (\<lambda>_. for_op f xs) s"

lemma op_simps [simp]:
  "ret_op v s = (Inr v, s)" "raise_op e s = (Inl e, s)" "read_op f s = (f s, s)"
  by (simp_all add: ret_op_def raise_op_def read_op_def)

lemma bind_op_run:
  "m s = (Inl e, s') \<Longrightarrow> bind_op m f s = (Inl e, s')"
  "m s = (Inr v, s') \<Longrightarrow> bind_op m f s = f v s'"
  by (simp_all add: bind_op_def)

lemma bind_op_Inr:
  "bind_op m f s = (Inr v, t) \<longleftrightarrow> (\<exists>u s'. m s = (Inr u, s') \<and> f u s' = (Inr v, t))"
  by (auto simp: bind_op_def split: prod.splits sum.splits)

lemma bind_op_Inl:
  "bind_op m f s = (Inl e, t) \<longleftrightarrow>
     m s = (Inl e, t) \<or> (\<exists>u s'. m s = (Inr u, s') \<and> f u s' = (Inl e, t))"
  by (auto simp: bind_op_def split: prod.splits sum.splits)

lemma bind_op_cong [fundef_cong]:
  "\<lbrakk>s = s'; m s' = m' s'; \<And>v t. m' s' = (Inr v, t) \<Longrightarrow> f v t = f' v t\<rbrakk>
   \<Longrightarrow> bind_op m f s = bind_op m' f' s'"
  by (auto simp: bind_op_def split: prod.splits sum.splits)

text \<open>A property kept by every pass of a loop is kept by the loop.\<close>

lemma for_op_inv:
  assumes "for_op f xs s = (r, t)" and "I s"
    and "\<And>x s r t. x \<in> set xs \<Longrightarrow> I s \<Longrightarrow> f x s = (r, t) \<Longrightarrow> I t"
  shows "I t"
  using assms
proof (induction xs arbitrary: s)
  case Nil
  then show ?case by simp
next
  case (Cons x xs)
  obtain r' s' where step: "f x s = (r', s')" by (cases "f x s") auto
  have "I s'" using Cons.prems step by (metis list.set_intros(1))
  show ?case
  proof (cases r')
    case (Inl e)
    with step Cons.prems(1) \<open>I s'\<close> show ?thesis by (simp add: bind_op_def)
  next
    case (Inr v)
    with step Cons.prems(1) have "for_op f xs s' = (r, t)" by (simp add: bind_op_def)
    then show ?thesis
      by (rule Cons.IH [OF _ \<open>I s'\<close>]) (use Cons.prems(3) in \<open>meson list.set_intros(2)\<close>)
  qed
qed

subsection \<open>Dictionaries\<close>

text \<open>
  A Python dict is an association list in insertion order with distinct keys. Assignment to
  a present key keeps its position, as \<open>AList.update\<close> does.
\<close>

type_synonym 'v dict = "(string \<times> 'v) list"

abbreviation dict_get :: "'v dict \<Rightarrow> string \<Rightarrow> 'v option" where
  "dict_get d k \<equiv> map_of d k"

abbreviation dict_set :: "string \<Rightarrow> 'v \<Rightarrow> 'v dict \<Rightarrow> 'v dict" where
  "dict_set k v d \<equiv> AList.update k v d"

abbreviation wf_dict :: "'v dict \<Rightarrow> bool" where
  "wf_dict d \<equiv> distinct (map fst d)"

text \<open>\<open>d.update(e)\<close> and the dict of a sequence of pairs.\<close>

fun dict_update :: "'v dict \<Rightarrow> 'v dict \<Rightarrow> 'v dict" where
  "dict_update d [] = d"
| "dict_update d ((k, v) # e) = dict_update (dict_set k v d) e"

definition dict_of :: "'v dict \<Rightarrow> 'v dict" where
  "dict_of e = dict_update [] e"

lemma dict_get_set [dict_simps]:
  "dict_get (dict_set k v d) k' = (if k' = k then Some v else dict_get d k')"
  by (simp add: update_conv)

lemma dict_get_update [dict_simps]:
  "dict_get (dict_update d e) k = (case dict_get (rev e) k of Some v \<Rightarrow> Some v | None \<Rightarrow> dict_get d k)"
  by (induction d e rule: dict_update.induct)
     (auto simp: update_conv map_add_def split: option.splits)

lemma wf_dict_set [simp, intro]: "wf_dict d \<Longrightarrow> wf_dict (dict_set k v d)"
  by (rule distinct_update)

lemma wf_dict_update: "wf_dict d \<Longrightarrow> wf_dict (dict_update d e)"
  by (induction d e rule: dict_update.induct) (auto intro: distinct_update)

lemma wf_dict_of: "wf_dict (dict_of e)"
  by (simp add: dict_of_def wf_dict_update)

lemma keys_dict_set [simp]: "fst ` set (dict_set k v d) = insert k (fst ` set d)"
  by (simp add: dom_update)

lemma keys_dict_update: "fst ` set (dict_update d e) = fst ` set d \<union> fst ` set e"
  by (induction d e rule: dict_update.induct) auto

lemma map_of_rev_distinct: "wf_dict d \<Longrightarrow> map_of (rev d) = map_of d"
  by (rule map_of_inject_set [THEN iffD2]) (auto simp: rev_map [symmetric])

lemma dict_get_None: "dict_get d k = None \<longleftrightarrow> k \<notin> fst ` set d"
  by (rule map_of_eq_None_iff)

lemma dict_get_of [dict_simps]: "dict_get (dict_of e) k = dict_get (rev e) k"
  by (simp add: dict_of_def dict_get_update split: option.splits)

lemma dict_get_set_mem: "wf_dict d \<Longrightarrow> dict_get d k = Some v \<longleftrightarrow> (k, v) \<in> set d"
  by simp

text \<open>\<open>setdefault(k, []).append(v)\<close>, and \<open>setdefault(k, v)\<close>.\<close>

definition dict_append :: "string \<Rightarrow> 'v \<Rightarrow> 'v list dict \<Rightarrow> 'v list dict" where
  "dict_append k v d = dict_set k ((case dict_get d k of None \<Rightarrow> [] | Some vs \<Rightarrow> vs) @ [v]) d"

definition dict_setdefault :: "string \<Rightarrow> 'v \<Rightarrow> 'v dict \<Rightarrow> 'v dict" where
  "dict_setdefault k v d = (case dict_get d k of None \<Rightarrow> dict_set k v d | Some _ \<Rightarrow> d)"

subsection \<open>Selection\<close>

text \<open>\<open>next((x for x in xs if p(x)), None)\<close> is the library's \<open>List.find\<close>; its index:\<close>

fun find_index :: "('a \<Rightarrow> bool) \<Rightarrow> 'a list \<Rightarrow> nat option" where
  "find_index p [] = None"
| "find_index p (x # xs) = (if p x then Some 0 else map_option Suc (find_index p xs))"

lemma find_index_SomeD:
  "find_index p xs = Some i \<Longrightarrow> i < length xs \<and> p (xs ! i) \<and> (\<forall>j<i. \<not> p (xs ! j))"
proof (induction xs arbitrary: i)
  case Nil
  then show ?case by simp
next
  case (Cons x xs)
  then show ?case
    by (cases i) (auto split: if_splits simp: less_Suc_eq_0_disj)
qed

lemma find_index_None: "find_index p xs = None \<longleftrightarrow> (\<forall>x\<in>set xs. \<not> p x)"
  by (induction xs) auto

lemma find_find_index:
  "List.find p xs = map_option (\<lambda>i. xs ! i) (find_index p xs)"
  by (induction xs) (auto simp: option.map_comp comp_def)

lemma find_SomeD: "List.find p xs = Some x \<Longrightarrow> x \<in> set xs \<and> p x"
  by (auto simp: find_Some_iff)

text \<open>\<open>min(xs, key=f)\<close> returns the first of the minimal elements.\<close>

fun min_by :: "('a \<Rightarrow> 'k::linorder) \<Rightarrow> 'a list \<Rightarrow> 'a option" where
  "min_by f [] = None"
| "min_by f (x # xs) =
     (case min_by f xs of None \<Rightarrow> Some x | Some m \<Rightarrow> Some (if f x \<le> f m then x else m))"

lemma min_by_None [simp]: "min_by f xs = None \<longleftrightarrow> xs = []"
  by (cases xs) (auto split: option.splits)

lemma min_by_SomeD: "min_by f xs = Some m \<Longrightarrow> m \<in> set xs \<and> (\<forall>x\<in>set xs. f m \<le> f x)"
  by (induction xs arbitrary: m) (fastforce split: option.splits if_splits)+

end
