(* ===== verification/Domain.thy ===== *)
theory Domain
  imports Complex_Main Py_Strings
begin

text \<open>
  The data model of \<^verbatim>\<open>backend/writai/domain.py\<close>: the enumerations with their wire values, the
  JSON-like values that attributes hold with Python's equality, and one record per pydantic
  class. Scopes are finite sets of strings, datetimes are microsecond counts tagged naive or
  aware, and floats are rationals.
\<close>

subsection \<open>Enumerations\<close>

datatype artifact_kind =
    Decision | Specification | Ticket | Task | AgentPlanKind | PullRequest | CodeChange
  | Evidence | AgentRunKind

fun artifact_kind_value :: "artifact_kind \<Rightarrow> string" where
  "artifact_kind_value Decision = ''Decision''"
| "artifact_kind_value Specification = ''Specification''"
| "artifact_kind_value Ticket = ''Ticket''"
| "artifact_kind_value Task = ''Task''"
| "artifact_kind_value AgentPlanKind = ''AgentPlan''"
| "artifact_kind_value PullRequest = ''PullRequest''"
| "artifact_kind_value CodeChange = ''CodeChange''"
| "artifact_kind_value Evidence = ''Evidence''"
| "artifact_kind_value AgentRunKind = ''AgentRun''"

datatype edge_kind =
    SUPERSEDES | AMENDS | CONTRADICTS | BASIS_FOR | CREATES | DECOMPOSES_TO
  | CURRENTLY_DRIVES | IMPLEMENTS | SUPPORTED_BY

fun edge_kind_value :: "edge_kind \<Rightarrow> string" where
  "edge_kind_value SUPERSEDES = ''SUPERSEDES''"
| "edge_kind_value AMENDS = ''AMENDS''"
| "edge_kind_value CONTRADICTS = ''CONTRADICTS''"
| "edge_kind_value BASIS_FOR = ''BASIS_FOR''"
| "edge_kind_value CREATES = ''CREATES''"
| "edge_kind_value DECOMPOSES_TO = ''DECOMPOSES_TO''"
| "edge_kind_value CURRENTLY_DRIVES = ''CURRENTLY_DRIVES''"
| "edge_kind_value IMPLEMENTS = ''IMPLEMENTS''"
| "edge_kind_value SUPPORTED_BY = ''SUPPORTED_BY''"

text \<open>A \<open>StrEnum\<close> is ordered as the string it is.\<close>

lemma edge_kind_value_inj: "edge_kind_value a = edge_kind_value b \<longleftrightarrow> a = b"
  by (cases a; cases b) simp_all

instantiation edge_kind :: linorder
begin
definition less_eq_edge_kind :: "edge_kind \<Rightarrow> edge_kind \<Rightarrow> bool" where
  "less_eq_edge_kind a b = (edge_kind_value a \<le> edge_kind_value b)"
definition less_edge_kind :: "edge_kind \<Rightarrow> edge_kind \<Rightarrow> bool" where
  "less_edge_kind a b = (edge_kind_value a < edge_kind_value b)"
instance
  by standard
    (auto simp: less_eq_edge_kind_def less_edge_kind_def edge_kind_value_inj less_le_not_le
      intro: order_antisym)
end

datatype approval_status = Proposal | Approved | Rejected

fun approval_status_value :: "approval_status \<Rightarrow> string" where
  "approval_status_value Proposal = ''proposal''"
| "approval_status_value Approved = ''approved''"
| "approval_status_value Rejected = ''rejected''"

datatype validity_status = Valid | Needs_Review | Invalidated

fun validity_value :: "validity_status \<Rightarrow> string" where
  "validity_value Valid = ''VALID''"
| "validity_value Needs_Review = ''NEEDS_REVIEW''"
| "validity_value Invalidated = ''INVALIDATED''"

datatype verdict = ALLOW | REPLAN | BLOCK | HUMAN_REVIEW

fun verdict_value :: "verdict \<Rightarrow> string" where
  "verdict_value ALLOW = ''ALLOW''"
| "verdict_value REPLAN = ''REPLAN''"
| "verdict_value BLOCK = ''BLOCK''"
| "verdict_value HUMAN_REVIEW = ''HUMAN_REVIEW''"

datatype verification_code =
    VC_VALID | INVALID_TOKEN | NON_ALLOW_VERDICT | EXPIRED | BINDING_MISMATCH
  | PLAN_HASH_MISMATCH | STALE_SNAPSHOT | CURRENT_PLAN_REJECTED

fun verification_code_value :: "verification_code \<Rightarrow> string" where
  "verification_code_value VC_VALID = ''VALID''"
| "verification_code_value INVALID_TOKEN = ''INVALID_TOKEN''"
| "verification_code_value NON_ALLOW_VERDICT = ''NON_ALLOW_VERDICT''"
| "verification_code_value EXPIRED = ''EXPIRED''"
| "verification_code_value BINDING_MISMATCH = ''BINDING_MISMATCH''"
| "verification_code_value PLAN_HASH_MISMATCH = ''PLAN_HASH_MISMATCH''"
| "verification_code_value STALE_SNAPSHOT = ''STALE_SNAPSHOT''"
| "verification_code_value CURRENT_PLAN_REJECTED = ''CURRENT_PLAN_REJECTED''"

datatype loop_state =
    L_PLAN | L_VERIFY | L_ACT | L_REPLAN | L_BLOCKED | L_HUMAN_REVIEW | L_COMPLETE

subsection \<open>Attribute values\<close>

datatype pyval =
    PNone
  | PBool bool
  | PInt int
  | PFloat rat
  | PStr string
  | PList "pyval list"
  | PSet "pyval list"
  | PDict "(string \<times> pyval) list"

text \<open>\<open>True == 1 == 1.0\<close> in Python: the numeric value of a boolean, an int or a float.\<close>

fun py_number :: "pyval \<Rightarrow> rat option" where
  "py_number (PBool b) = Some (if b then 1 else 0)"
| "py_number (PInt i) = Some (of_int i)"
| "py_number (PFloat r) = Some r"
| "py_number _ = None"

text \<open>Python's \<open>==\<close> on these values: dictionaries and sets compare without order.\<close>

fun py_eq :: "pyval \<Rightarrow> pyval \<Rightarrow> bool"
  and py_eq_list :: "pyval list \<Rightarrow> pyval list \<Rightarrow> bool"
  and py_subset :: "pyval list \<Rightarrow> pyval list \<Rightarrow> bool"
  and py_sub_dict :: "(string \<times> pyval) list \<Rightarrow> (string \<times> pyval) list \<Rightarrow> bool"
where
  "py_eq PNone v = (v = PNone)"
| "py_eq (PStr s) v = (v = PStr s)"
| "py_eq (PList xs) v = (case v of PList ys \<Rightarrow> py_eq_list xs ys | _ \<Rightarrow> False)"
| "py_eq (PSet xs) v =
     (case v of PSet ys \<Rightarrow> length xs = length ys \<and> py_subset xs ys | _ \<Rightarrow> False)"
| "py_eq (PDict d) v =
     (case v of PDict e \<Rightarrow> length d = length e \<and> py_sub_dict d e | _ \<Rightarrow> False)"
| "py_eq (PBool b) v = (py_number v = Some (if b then 1 else 0))"
| "py_eq (PInt i) v = (py_number v = Some (of_int i))"
| "py_eq (PFloat r) v = (py_number v = Some r)"
| "py_eq_list [] ys = (ys = [])"
| "py_eq_list (x # xs) ys =
     (case ys of [] \<Rightarrow> False | y # ys' \<Rightarrow> py_eq x y \<and> py_eq_list xs ys')"
| "py_subset [] ys = True"
| "py_subset (x # xs) ys = (list_ex (py_eq x) ys \<and> py_subset xs ys)"
| "py_sub_dict [] e = True"
| "py_sub_dict ((k, v) # d) e =
     ((case dict_get e k of None \<Rightarrow> False | Some w \<Rightarrow> py_eq v w) \<and> py_sub_dict d e)"

lemma py_sub_dict_iff:
  "py_sub_dict d e \<longleftrightarrow> (\<forall>(k, v)\<in>set d. \<exists>w. dict_get e k = Some w \<and> py_eq v w)"
  by (induction d) (auto split: option.splits)

text \<open>Every dictionary inside a value has distinct keys: what Python guarantees of a dict.\<close>

fun wf_pyval :: "pyval \<Rightarrow> bool" where
  "wf_pyval (PList xs) = (\<forall>x\<in>set xs. wf_pyval x)"
| "wf_pyval (PSet xs) = (\<forall>x\<in>set xs. wf_pyval x)"
| "wf_pyval (PDict d) = (wf_dict d \<and> (\<forall>p\<in>set d. wf_pyval (snd p)))"
| "wf_pyval _ = True"

lemma py_eq_list_refl: "(\<And>x. x \<in> set xs \<Longrightarrow> py_eq x x) \<Longrightarrow> py_eq_list xs xs"
  by (induction xs) auto

lemma py_subset_iff: "py_subset xs ys \<longleftrightarrow> (\<forall>x\<in>set xs. \<exists>y\<in>set ys. py_eq x y)"
  by (induction xs) (auto simp: list_ex_iff)

lemma py_eq_refl: "wf_pyval v \<Longrightarrow> py_eq v v"
proof (induction v)
  case (PList xs)
  then show ?case by (auto intro: py_eq_list_refl)
next
  case (PSet xs)
  then show ?case by (auto simp: py_subset_iff)
next
  case (PDict d)
  have "py_eq v v" if "(k, v) \<in> set d" for k v
  proof (rule PDict.IH [OF that])
    show "v \<in> Basic_BNFs.snds (k, v)" by simp
    show "wf_pyval v" using PDict.prems that by auto
  qed
  with PDict.prems show ?case by (fastforce simp: py_sub_dict_iff)
qed simp_all

subsection \<open>Datetimes\<close>

text \<open>
  Pydantic accepts datetimes with and without an offset. Two aware ones compare by instant
  and two naive ones by wall time; ordering a naive with an aware one raises TypeError.
\<close>

datatype datetime = Naive int | Aware int

fun dt_aware :: "datetime \<Rightarrow> bool" where
  "dt_aware (Aware _) = True"
| "dt_aware (Naive _) = False"

fun dt_micros :: "datetime \<Rightarrow> int" where
  "dt_micros (Aware t) = t"
| "dt_micros (Naive t) = t"

text \<open>\<open>datetime.min\<close> with the UTC offset, in microseconds from the epoch.\<close>

definition dt_min :: datetime where
  "dt_min = Aware (- 62135596800000000)"

subsection \<open>Records\<close>

type_synonym scopes = "string set"
type_synonym attributes = "pyval dict"

record artifact =
  art_id :: string
  art_kind :: artifact_kind
  art_title :: string
  art_text :: string
  art_scopes :: scopes
  art_validity :: validity_status
  art_invalidated :: scopes
  art_approval :: "approval_status option"
  art_role :: "string option"
  art_confidence :: rat
  art_effective :: "datetime option"
  art_source :: "string option"
  art_attrs :: attributes

record edge =
  edge_source :: string
  edge_target :: string
  edge_kind :: edge_kind
  edge_scopes :: scopes
  edge_evidence :: "string option"

record plan_action =
  act_id :: string
  act_description :: string
  act_scopes :: scopes
  act_attrs :: attributes

record agent_plan =
  plan_id :: string
  plan_ticket :: string
  plan_objective :: string
  plan_actions :: "plan_action list"

definition plan_scopes :: "agent_plan \<Rightarrow> scopes" where
  "plan_scopes p = (\<Union>a\<in>set (plan_actions p). act_scopes a)"

record agent_run =
  run_id :: string
  run_ticket :: string
  run_plan :: agent_plan
  run_state :: loop_state
  run_tests_passed :: bool
  run_snapshot :: "string option"
  run_grant :: "string option"
  run_history :: "string list"

record decision_mutation =
  mut_decision :: artifact
  mut_supersedes :: string
  mut_scopes :: scopes

record invalidation_path =
  path_artifact :: string
  path_nodes :: "string list"

record invalidation_report =
  rep_version :: string
  rep_changed :: string
  rep_superseded :: string
  rep_scopes :: scopes
  rep_affected :: "string list"
  rep_upstream :: "string list"
  rep_preserved_tasks :: "string list"
  rep_invalidated_tasks :: "string list"
  rep_needs_review :: "string list"
  rep_stopped_work :: "string list"
  rep_mentioned :: "string list"
  rep_preserved :: "string list"
  rep_paths :: "invalidation_path list"
  rep_evidence :: "string list"

record mutation_result =
  mres_applied :: bool
  mres_reason :: string
  mres_version :: string
  mres_verdict :: "verdict option"
  mres_report :: "invalidation_report option"

record grant_payload =
  gp_auth_id :: string
  gp_run :: string
  gp_task :: string
  gp_snapshot :: string
  gp_plan_hash :: string
  gp_verdict :: verdict
  gp_issued :: int
  gp_expires :: int

record signed_grant =
  sg_payload :: grant_payload
  sg_token :: string

record plan_mismatch =
  mm_action :: string
  mm_scope :: string
  mm_expected :: attributes
  mm_actual :: attributes

record authorization_result =
  ar_verdict :: verdict
  ar_reason :: string
  ar_version :: string
  ar_task :: string
  ar_scopes :: scopes
  ar_mismatches :: "plan_mismatch list"
  ar_requirements :: "attributes dict"
  ar_path :: "string list"
  ar_invalidated :: "string list"
  ar_preserved :: "string list"
  ar_evidence :: "string list"
  ar_grant :: "signed_grant option"

record verification_result =
  vr_valid :: bool
  vr_code :: verification_code
  vr_reason :: string
  vr_payload :: "grant_payload option"

subsection \<open>Equality of plans\<close>

text \<open>Pydantic models compare field by field with \<open>==\<close>, so attributes compare as dicts.\<close>

definition attrs_eq :: "attributes \<Rightarrow> attributes \<Rightarrow> bool" where
  "attrs_eq d e = py_eq (PDict d) (PDict e)"

definition action_eq :: "plan_action \<Rightarrow> plan_action \<Rightarrow> bool" where
  "action_eq a b \<longleftrightarrow> act_id a = act_id b \<and> act_description a = act_description b
     \<and> act_scopes a = act_scopes b \<and> attrs_eq (act_attrs a) (act_attrs b)"

definition plan_eq :: "agent_plan \<Rightarrow> agent_plan \<Rightarrow> bool" where
  "plan_eq p q \<longleftrightarrow> plan_id p = plan_id q \<and> plan_ticket p = plan_ticket q
     \<and> plan_objective p = plan_objective q
     \<and> list_all2 action_eq (plan_actions p) (plan_actions q)"

lemma attrs_eq_refl: "wf_pyval (PDict d) \<Longrightarrow> attrs_eq d d"
  by (simp only: attrs_eq_def py_eq_refl)

lemma plan_eq_refl:
  "(\<And>a. a \<in> set (plan_actions p) \<Longrightarrow> wf_pyval (PDict (act_attrs a))) \<Longrightarrow> plan_eq p p"
  by (auto simp: plan_eq_def action_eq_def attrs_eq_refl intro!: list.rel_refl_strong)

end
