(* ===== verification/Hashing.thy ===== *)
theory Hashing
  imports Domain "HOL-Library.Multiset"
begin

text \<open>
  \<^verbatim>\<open>backend/writai/hashing.py\<close>: the canonical JSON text of a value and the hash over it.
  Functions of the platform that are not written in the repository (SHA-256, HMAC, the
  rendering of floats and datetimes, the pydantic codec of a grant payload, the iteration
  order of a set of strings) are the fields of a record that the model's definitions take as
  an argument. The main results: the canonical text decides a value up to the order of its
  dictionary keys and set elements, and nothing else.
\<close>

subsection \<open>The platform\<close>

record platform =
  float_repr :: "rat \<Rightarrow> string"
  iso_format :: "datetime \<Rightarrow> string"
  sha256_hex :: "string \<Rightarrow> string"
  hmac_sha256 :: "string \<Rightarrow> string \<Rightarrow> string"
  payload_json :: "grant_payload \<Rightarrow> string"
  payload_parse :: "string \<Rightarrow> grant_payload result"
  set_order :: "string set \<Rightarrow> string list"

text \<open>
  A float renders with digits, a sign, a point and an exponent, never as an int does, and
  \<open>float.__repr__\<close> round-trips, so it is injective.
\<close>

definition num_char :: "char \<Rightarrow> bool" where
  "num_char c \<longleftrightarrow> is_digit c \<or> c \<in> set ''+-.e''"

definition float_repr_ok :: "platform \<Rightarrow> bool" where
  "float_repr_ok P \<longleftrightarrow> inj (float_repr P)
     \<and> (\<forall>r. float_repr P r \<noteq> [] \<and> (\<forall>c\<in>set (float_repr P r). num_char c)
          \<and> (\<forall>i. float_repr P r \<noteq> show_int i)
          \<and> (is_digit (hd (float_repr P r)) \<or> hd (float_repr P r) = CHR ''-''))"

text \<open>Iterating over a set yields each element once, in an order Python leaves open.\<close>

definition set_order_ok :: "platform \<Rightarrow> bool" where
  "set_order_ok P \<longleftrightarrow> (\<forall>s. finite s \<longrightarrow> set (set_order P s) = s \<and> distinct (set_order P s))"

subsection \<open>\<open>json.dumps(value, sort_keys=True, separators=(",", ":"))\<close>\<close>

definition hexd :: "nat \<Rightarrow> char" where
  "hexd k = (if k < 10 then char_of (48 + k) else char_of (87 + k))"

definition json_escape :: "char \<Rightarrow> string" where
  "json_escape c = (let n = of_char c :: nat in
     if n = 34 then [CHR 0x5C, CHR 0x22]
     else if n = 92 then [CHR 0x5C, CHR 0x5C]
     else if n = 8 then [CHR 0x5C, CHR ''b'']
     else if n = 12 then [CHR 0x5C, CHR ''f'']
     else if n = 10 then [CHR 0x5C, CHR ''n'']
     else if n = 13 then [CHR 0x5C, CHR ''r'']
     else if n = 9 then [CHR 0x5C, CHR ''t'']
     else if 32 \<le> n \<and> n \<le> 126 then [c]
     else [CHR 0x5C, CHR ''u'', CHR ''0'', CHR ''0'', hexd (n div 16), hexd (n mod 16)])"

definition json_string :: "string \<Rightarrow> string" where
  "json_string s = [CHR 0x22] @ concat (map json_escape s) @ [CHR 0x22]"

fun sort_keys :: "pyval \<Rightarrow> pyval" where
  "sort_keys (PList xs) = PList (map sort_keys xs)"
| "sort_keys (PSet xs) = PSet (map sort_keys xs)"
| "sort_keys (PDict d) = PDict (sort_key fst (map (\<lambda>(k, v). (k, sort_keys v)) d))"
| "sort_keys v = v"

fun json_text :: "platform \<Rightarrow> pyval \<Rightarrow> string"
  and json_items :: "platform \<Rightarrow> pyval list \<Rightarrow> string"
  and json_pairs :: "platform \<Rightarrow> pyval dict \<Rightarrow> string"
where
  "json_text P PNone = ''null''"
| "json_text P (PBool b) = (if b then ''true'' else ''false'')"
| "json_text P (PInt i) = show_int i"
| "json_text P (PFloat r) = float_repr P r"
| "json_text P (PStr s) = json_string s"
| "json_text P (PList xs) = ''['' @ json_items P xs @ '']''"
| "json_text P (PSet xs) = ''['' @ json_items P xs @ '']''"
| "json_text P (PDict d) = ''{'' @ json_pairs P d @ ''}''"
| "json_items P [] = []"
| "json_items P (x # xs) =
     json_text P x @ (case xs of [] \<Rightarrow> [] | _ \<Rightarrow> '','' @ json_items P xs)"
| "json_pairs P [] = []"
| "json_pairs P ((k, v) # d) =
     json_string k @ '':'' @ json_text P v @ (case d of [] \<Rightarrow> [] | _ \<Rightarrow> '','' @ json_pairs P d)"

definition json_dumps :: "platform \<Rightarrow> pyval \<Rightarrow> string" where
  "json_dumps P v = json_text P (sort_keys v)"

subsection \<open>Canonical values and the hash\<close>

fun canonical_json_value :: "platform \<Rightarrow> pyval \<Rightarrow> pyval" where
  "canonical_json_value P (PDict d) = PDict (map (\<lambda>(k, v). (k, canonical_json_value P v)) d)"
| "canonical_json_value P (PSet xs) =
     PList (sort_key (json_dumps P) (map (canonical_json_value P) xs))"
| "canonical_json_value P (PList xs) = PList (map (canonical_json_value P) xs)"
| "canonical_json_value P v = v"

definition canonical_json :: "platform \<Rightarrow> pyval \<Rightarrow> string" where
  "canonical_json P v = json_dumps P (canonical_json_value P v)"

definition stable_hash :: "platform \<Rightarrow> pyval \<Rightarrow> string" where
  "stable_hash P v = ''sha256:'' @ sha256_hex P (canonical_json P v)"

subsection \<open>Dumps of the models that are hashed\<close>

text \<open>\<open>model_dump(mode="python")\<close>: fields in declaration order, sets kept as sets.\<close>

definition opt_str :: "string option \<Rightarrow> pyval" where
  "opt_str s = (case s of None \<Rightarrow> PNone | Some t \<Rightarrow> PStr t)"

definition scopes_dump :: "scopes \<Rightarrow> pyval" where
  "scopes_dump s = PSet (map PStr (sorted_list_of_set s))"

definition action_dump :: "plan_action \<Rightarrow> pyval" where
  "action_dump a = PDict
     [(''id'', PStr (act_id a)), (''description'', PStr (act_description a)),
      (''scopes'', scopes_dump (act_scopes a)), (''attributes'', PDict (act_attrs a))]"

definition plan_dump :: "agent_plan \<Rightarrow> pyval" where
  "plan_dump p = PDict
     [(''id'', PStr (plan_id p)), (''ticket_id'', PStr (plan_ticket p)),
      (''objective'', PStr (plan_objective p)),
      (''actions'', PList (map action_dump (plan_actions p)))]"

definition artifact_dump :: "platform \<Rightarrow> artifact \<Rightarrow> pyval" where
  "artifact_dump P a = PDict
     [(''id'', PStr (art_id a)), (''kind'', PStr (artifact_kind_value (art_kind a))),
      (''title'', PStr (art_title a)), (''text'', PStr (art_text a)),
      (''scopes'', scopes_dump (art_scopes a)),
      (''validity'', PStr (validity_value (art_validity a))),
      (''invalidated_scopes'', scopes_dump (art_invalidated a)),
      (''approval_status'', opt_str (map_option approval_status_value (art_approval a))),
      (''authority_role'', opt_str (art_role a)),
      (''confidence'', PFloat (art_confidence a)),
      (''effective_at'', opt_str (map_option (iso_format P) (art_effective a))),
      (''source_ref'', opt_str (art_source a)),
      (''attributes'', PDict (art_attrs a))]"

definition mutation_dump :: "platform \<Rightarrow> decision_mutation \<Rightarrow> pyval" where
  "mutation_dump P m = PDict
     [(''decision'', artifact_dump P (mut_decision m)),
      (''supersedes_id'', PStr (mut_supersedes m)),
      (''affected_scopes'', scopes_dump (mut_scopes m))]"

subsection \<open>Reading a JSON string back\<close>

definition hexval :: "char \<Rightarrow> nat" where
  "hexval c = (let n = of_char c in if n < 58 then n - 48 else n - 87)"

definition unescape :: "char \<Rightarrow> char" where
  "unescape c = (if c = CHR ''b'' then CHR 0x08 else if c = CHR ''f'' then CHR 0x0C
     else if c = CHR ''n'' then CHR 0x0A else if c = CHR ''r'' then CHR 0x0D
     else if c = CHR ''t'' then CHR 0x09 else c)"

fun read_string :: "string \<Rightarrow> (string \<times> string) option" where
  "read_string [] = None"
| "read_string (c # cs) =
     (if c = CHR 0x22 then Some ([], cs)
      else if c = CHR 0x5C then
        (case cs of
           [] \<Rightarrow> None
         | e # es \<Rightarrow>
             if e = CHR ''u'' then
               (case es of
                  z1 # z2 # a # b # rest \<Rightarrow>
                    map_option (apfst ((#) (char_of (16 * hexval a + hexval b)))) (read_string rest)
                | _ \<Rightarrow> None)
             else map_option (apfst ((#) (unescape e))) (read_string es))
      else map_option (apfst ((#) c)) (read_string cs))"

lemma hexval_hexd: "k < 16 \<Longrightarrow> hexval (hexd k) = k"
  by (auto simp: hexval_def hexd_def of_char_of)

lemma char_of_literals:
  "char_of (34::nat) = CHR 0x22" "char_of (92::nat) = CHR 0x5C" "char_of (8::nat) = CHR 0x08"
  "char_of (12::nat) = CHR 0x0C" "char_of (10::nat) = CHR 0x0A" "char_of (13::nat) = CHR 0x0D"
  "char_of (9::nat) = CHR 0x09"
  by (simp_all add: char_of_def bit_Suc_0_iff)

lemma read_string_escape:
  "read_string (json_escape c @ s) = map_option (apfst ((#) c)) (read_string s)"
proof -
  define n :: nat where "n = of_char c"
  have c: "c = char_of n" and n: "n < 256"
    by (simp_all add: n_def)
  have split: "16 * (n div 16) + n mod 16 = n" by simp
  have small: "n div 16 < 16" "n mod 16 < 16" using n by auto
  show ?thesis
  proof (cases "n \<in> {34, 92, 8, 12, 10, 13, 9}")
    case True
    then have "c = char_of (34::nat) \<or> c = char_of (92::nat) \<or> c = char_of (8::nat)
        \<or> c = char_of (12::nat) \<or> c = char_of (10::nat) \<or> c = char_of (13::nat)
        \<or> c = char_of (9::nat)"
      by (subst c)+ auto
    then show ?thesis
      by (elim disjE) (simp_all add: json_escape_def unescape_def char_of_literals)
  next
    case False
    have "c \<noteq> CHR 0x22" "c \<noteq> CHR 0x5C"
      using False by (auto simp: n_def)
    with False show ?thesis
      by (auto simp: json_escape_def n_def [symmetric] Let_def hexval_hexd small split c [symmetric])
  qed
qed

lemma read_string_json_string:
  "read_string (concat (map json_escape s) @ CHR 0x22 # r) = Some (s, r)"
  by (induction s) (simp_all add: read_string_escape)

lemma json_string_prefix:
  "json_string s @ r = json_string t @ q \<longleftrightarrow> s = t \<and> r = q"
proof
  assume "json_string s @ r = json_string t @ q"
  then have "concat (map json_escape s) @ CHR 0x22 # r = concat (map json_escape t) @ CHR 0x22 # q"
    by (simp add: json_string_def)
  then have "Some (s, r) = Some (t, q)"
    by (metis read_string_json_string)
  then show "s = t \<and> r = q" by simp
qed auto

lemma json_string_hd: "json_string s = CHR 0x22 # tl (json_string s)"
  by (simp add: json_string_def)

subsection \<open>The canonical text decides the value\<close>

definition stop :: "string \<Rightarrow> bool" where
  "stop r \<longleftrightarrow> r = [] \<or> \<not> num_char (hd r)"

definition num_lead :: "char \<Rightarrow> bool" where
  "num_lead c \<longleftrightarrow> is_digit c \<or> c = CHR ''-''"

lemma stop_simps [simp]: "stop []" "stop (CHR '']'' # r)" "stop (CHR ''}'' # r)" "stop (CHR '','' # r)"
  by (simp_all add: stop_def num_char_def is_digit_def)

lemma number_prefix:
  assumes "\<forall>c\<in>set a. num_char c" and "\<forall>c\<in>set b. num_char c"
    and "stop r" and "stop q" and eq: "a @ r = b @ q"
  shows "a = b \<and> r = q"
proof -
  have "takeWhile num_char (x @ t) = x" if "\<forall>c\<in>set x. num_char c" "stop t" for x t
    using that by (cases t) (auto simp: stop_def takeWhile_append2)
  then have "a = b" using assms by metis
  with eq show ?thesis by simp
qed

lemma is_digit_digit: "d < 10 \<Longrightarrow> is_digit (digit d)"
  by (simp add: is_digit_def of_char_digit)

lemma show_int_set: "c \<in> set (show_int i) \<Longrightarrow> is_digit c \<or> c = CHR ''-''"
  using show_nat_digits is_digit_digit by (fastforce simp: show_int_def split: if_splits)

lemma show_int_chars:
  "c \<in> set (show_int i) \<Longrightarrow> num_char c" "show_int i \<noteq> []" "num_lead (hd (show_int i))"
proof -
  have d: "is_digit c" if "c \<in> set (show_nat n)" for c n
    using show_nat_digits [OF that] is_digit_digit by auto
  show "num_char c" if "c \<in> set (show_int i)"
    using that d by (auto simp: show_int_def num_char_def split: if_splits)
  show "show_int i \<noteq> []" by (simp add: show_int_def)
  show "num_lead (hd (show_int i))"
    using d [OF list.set_sel(1) [OF show_nat_nonempty(1)]] by (auto simp: show_int_def num_lead_def)
qed

text \<open>The first character of a value's text tells its constructor, numbers apart.\<close>

lemma not_num_lead [simp]:
  "\<not> num_lead CHR ''n''" "\<not> num_lead CHR ''t''" "\<not> num_lead CHR ''f''" "\<not> num_lead CHR 0x22"
  "\<not> num_lead CHR ''[''" "\<not> num_lead CHR ''{''" "\<not> num_lead CHR '']''" "\<not> num_lead CHR ''}''"
  "\<not> num_lead CHR '',''"
  by (simp_all add: num_lead_def is_digit_def)

lemma number_text:
  assumes "float_repr_ok P" and "py_number v \<noteq> None" and "\<forall>b. v \<noteq> PBool b"
  obtains c t where "json_text P v = c # t" and "num_lead c" and "\<forall>d\<in>set (c # t). num_char d"
proof -
  have "json_text P v \<noteq> [] \<and> num_lead (hd (json_text P v)) \<and> (\<forall>d\<in>set (json_text P v). num_char d)"
    using assms show_int_chars
    by (cases v) (auto simp: float_repr_ok_def num_lead_def)
  then show ?thesis using that by (metis list.collapse)
qed

fun no_sets :: "pyval \<Rightarrow> bool" where
  "no_sets (PSet xs) = False"
| "no_sets (PList xs) = (\<forall>x\<in>set xs. no_sets x)"
| "no_sets (PDict d) = (\<forall>p\<in>set d. no_sets (snd p))"
| "no_sets v = True"

lemma json_text_hd:
  assumes "float_repr_ok P" and "no_sets v"
  obtains c t where "json_text P v = c # t" and "c \<noteq> CHR '']''"
proof (cases "py_number v \<noteq> None \<and> (\<forall>b. v \<noteq> PBool b)")
  case True
  then obtain c t where "json_text P v = c # t" and "num_lead c"
    using number_text [OF assms(1), of v] by metis
  then show ?thesis using that by fastforce
next
  case False
  then have "\<exists>c t. json_text P v = c # t \<and> c \<noteq> CHR '']''"
    using assms by (cases v) (auto simp: json_string_def)
  then show ?thesis using that by blast
qed

lemma json_number_prefix:
  assumes ok: "float_repr_ok P"
    and v: "v = PInt i \<or> v = PFloat x" and w: "no_sets w"
    and eq: "json_text P v @ r = json_text P w @ q" and st: "stop r" "stop q"
  shows "v = w \<and> r = q"
proof -
  have nv: "py_number v \<noteq> None" "\<forall>b. v \<noteq> PBool b" using v by auto
  obtain c t where ct: "json_text P v = c # t" "num_lead c" "\<forall>d\<in>set (c # t). num_char d"
    using number_text [OF ok nv] by metis
  have "(\<exists>j. w = PInt j) \<or> (\<exists>y. w = PFloat y)"
    using eq ct w by (cases w) (auto simp: json_string_def split: if_splits)
  then have nw: "py_number w \<noteq> None" "\<forall>b. w \<noteq> PBool b" by auto
  obtain d u where du: "json_text P w = d # u" "\<forall>e\<in>set (d # u). num_char e"
    using number_text [OF ok nw] by metis
  have "json_text P v = json_text P w \<and> r = q"
    by (rule number_prefix) (use ct du st eq in auto)
  moreover have "v = w" if "json_text P v = json_text P w"
    using that v \<open>(\<exists>j. w = PInt j) \<or> (\<exists>y. w = PFloat y)\<close> ok
    by (auto simp: float_repr_ok_def inj_def) metis
  ultimately show ?thesis by blast
qed

lemma num_text_appD:
  "d # u = show_int i @ q \<Longrightarrow> num_lead d" "show_int i @ q = d # u \<Longrightarrow> num_lead d"
  "float_repr_ok P \<Longrightarrow> d # u = float_repr P x @ q \<Longrightarrow> num_lead d"
  "float_repr_ok P \<Longrightarrow> float_repr P x @ q = d # u \<Longrightarrow> num_lead d"
proof -
  have i: "num_lead (hd (show_int i @ q))"
    using show_int_chars(2,3) by simp
  show "d # u = show_int i @ q \<Longrightarrow> num_lead d" "show_int i @ q = d # u \<Longrightarrow> num_lead d"
    using i by (metis list.sel(1))+
  have f: "num_lead (hd (float_repr P x @ q))" if "float_repr_ok P"
    using that by (auto simp: float_repr_ok_def num_lead_def)
  show "float_repr_ok P \<Longrightarrow> d # u = float_repr P x @ q \<Longrightarrow> num_lead d"
    "float_repr_ok P \<Longrightarrow> float_repr P x @ q = d # u \<Longrightarrow> num_lead d"
    using f by (metis list.sel(1))+
qed

lemma json_text_prefix:
  "\<lbrakk>float_repr_ok P; no_sets v; no_sets w; json_text P v @ r = json_text P w @ q; stop r; stop q\<rbrakk>
     \<Longrightarrow> v = w \<and> r = q"
  "\<lbrakk>float_repr_ok P; \<forall>x\<in>set xs. no_sets x; \<forall>y\<in>set ys. no_sets y;
     json_items P xs @ CHR '']'' # r = json_items P ys @ CHR '']'' # q\<rbrakk> \<Longrightarrow> xs = ys \<and> r = q"
  "\<lbrakk>float_repr_ok P; \<forall>p\<in>set d. no_sets (snd p); \<forall>p\<in>set e. no_sets (snd p);
     json_pairs P d @ CHR ''}'' # r = json_pairs P e @ CHR ''}'' # q\<rbrakk> \<Longrightarrow> d = e \<and> r = q"
proof (induction P v and P xs and P d arbitrary: w r q and ys r q and e r q
    rule: json_text_json_items_json_pairs.induct)
  case (3 P i)
  then show ?case by (intro json_number_prefix) auto
next
  case (4 P x)
  then show ?case by (intro json_number_prefix) auto
next
  case (10 P x xs)
  obtain c t where "json_text P x = c # t" and "c \<noteq> CHR '']''"
    using json_text_hd [OF "10.prems"(1), of x] "10.prems"(2) by auto
  then obtain y ys' where ys: "ys = y # ys'"
    using "10.prems"(4) by (cases ys) auto
  have tails: "json_text P x @ (case xs of [] \<Rightarrow> [] | _ \<Rightarrow> '','' @ json_items P xs) @ CHR '']'' # r =
      json_text P y @ (case ys' of [] \<Rightarrow> [] | _ \<Rightarrow> '','' @ json_items P ys') @ CHR '']'' # q"
    using "10.prems" ys by simp
  have st: "stop ((case zs of [] \<Rightarrow> [] | _ \<Rightarrow> '','' @ json_items P zs) @ CHR '']'' # s)" for zs s
    by (cases zs) simp_all
  have xy: "x = y \<and> (case xs of [] \<Rightarrow> [] | _ \<Rightarrow> '','' @ json_items P xs) @ CHR '']'' # r =
      (case ys' of [] \<Rightarrow> [] | _ \<Rightarrow> '','' @ json_items P ys') @ CHR '']'' # q"
    by (rule "10.IH"(1) [OF "10.prems"(1) _ _ tails]) (use "10.prems" ys st in auto)
  show ?case
  proof (cases xs)
    case Nil
    with xy ys show ?thesis by (cases ys') auto
  next
    case (Cons x' xs')
    with xy obtain y' ys'' where "ys' = y' # ys''" by (cases ys') auto
    with xy ys Cons "10.prems" "10.IH"(2) [of x' xs' ys' r q] show ?thesis by simp
  qed
next
  case (12 P k v d)
  obtain j w e' where e: "e = (j, w) # e'"
    using "12.prems" by (cases e) (auto simp: json_string_def)
  have head: "json_string k @ '':'' @ json_text P v @ (case d of [] \<Rightarrow> [] | _ \<Rightarrow> '','' @ json_pairs P d) @ CHR ''}'' # r =
      json_string j @ '':'' @ json_text P w @ (case e' of [] \<Rightarrow> [] | _ \<Rightarrow> '','' @ json_pairs P e') @ CHR ''}'' # q"
    using "12.prems" e by simp
  then have kj: "k = j" and tails: "json_text P v @ (case d of [] \<Rightarrow> [] | _ \<Rightarrow> '','' @ json_pairs P d) @ CHR ''}'' # r =
      json_text P w @ (case e' of [] \<Rightarrow> [] | _ \<Rightarrow> '','' @ json_pairs P e') @ CHR ''}'' # q"
    unfolding json_string_prefix by simp_all
  have st: "stop ((case zs of [] \<Rightarrow> [] | _ \<Rightarrow> '','' @ json_pairs P zs) @ CHR ''}'' # s)" for zs s
    by (cases zs) simp_all
  have vw: "v = w \<and> (case d of [] \<Rightarrow> [] | _ \<Rightarrow> '','' @ json_pairs P d) @ CHR ''}'' # r =
      (case e' of [] \<Rightarrow> [] | _ \<Rightarrow> '','' @ json_pairs P e') @ CHR ''}'' # q"
    by (rule "12.IH"(1) [OF "12.prems"(1) _ _ tails]) (use "12.prems" e st in auto)
  show ?case
  proof (cases d)
    case Nil
    with vw kj e show ?thesis by (cases e') auto
  next
    case (Cons p d')
    with vw obtain p' e'' where "e' = p' # e''" by (cases e') auto
    with vw kj e Cons "12.prems" "12.IH"(2) [of p d' e' r q] show ?thesis by simp
  qed
next
  case (1 P)
  then show ?case by (cases w) (auto simp: json_string_def split: if_splits dest: num_text_appD)
next
  case (2 P b)
  then show ?case
    by (cases w) (auto simp: json_string_def split: if_splits dest: num_text_appD)
next
  case (5 P s)
  show ?case
  proof (cases w)
    case (PStr t)
    with 5 show ?thesis by (simp add: json_string_prefix)
  qed (insert 5, auto simp: json_string_def split: if_splits dest: num_text_appD)
next
  case (6 P xs)
  show ?case
  proof (cases w)
    case (PList zs)
    with "6.prems" "6.IH" [of zs r q] show ?thesis by simp
  qed (insert "6.prems", auto simp: json_string_def split: if_splits dest: num_text_appD)
next
  case (7 P xs)
  then show ?case by simp
next
  case (8 P d)
  show ?case
  proof (cases w)
    case (PDict zs)
    with "8.prems" "8.IH" [of zs r q] show ?thesis by simp
  qed (insert "8.prems", auto simp: json_string_def split: if_splits dest: num_text_appD)
next
  case (9 P)
  show ?case
  proof (cases ys)
    case Nil
    with 9 show ?thesis by simp
  next
    case (Cons y ys')
    then obtain c t where "json_text P y = c # t" and "c \<noteq> CHR '']''"
      using json_text_hd [OF "9.prems"(1), of y] "9.prems"(3) by auto
    with 9 Cons show ?thesis by simp
  qed
next
  case (11 P)
  then show ?case
    by (cases e) (auto simp: json_string_def)
qed

subsection \<open>Normal forms\<close>

definition normal_form :: "platform \<Rightarrow> pyval \<Rightarrow> pyval" where
  "normal_form P v = sort_keys (canonical_json_value P v)"

lemma no_sets_canonical: "no_sets (canonical_json_value P v)"
  by (induction P v rule: canonical_json_value.induct) auto

lemma no_sets_sort_keys: "no_sets v \<Longrightarrow> no_sets (sort_keys v)"
  by (induction v rule: sort_keys.induct) fastforce+

lemma canonical_json_value_id: "no_sets v \<Longrightarrow> canonical_json_value P v = v"
proof (induction P v rule: canonical_json_value.induct)
  case (1 P d)
  then have "map (\<lambda>(k, v). (k, canonical_json_value P v)) d = d"
    by (intro map_idI) fastforce
  then show ?case by simp
qed (auto intro: map_idI)

theorem canonical_json_eq_iff:
  assumes "float_repr_ok P"
  shows "canonical_json P v = canonical_json P w \<longleftrightarrow> normal_form P v = normal_form P w"
proof
  assume "canonical_json P v = canonical_json P w"
  then have "json_text P (normal_form P v) @ [] = json_text P (normal_form P w) @ []"
    by (simp add: canonical_json_def json_dumps_def normal_form_def)
  then show "normal_form P v = normal_form P w"
    using json_text_prefix(1) [OF assms, of "normal_form P v" "normal_form P w" "[]" "[]"]
    by (simp add: normal_form_def no_sets_sort_keys no_sets_canonical)
qed (simp add: canonical_json_def json_dumps_def normal_form_def)

text \<open>The order of a dictionary's keys is not seen.\<close>

lemma sort_key_perm:
  assumes "mset xs = mset ys" and "distinct (map f xs)"
  shows "sort_key f xs = sort_key f ys"
proof (rule properties_for_sort_key)
  show "mset (sort_key f ys) = mset xs" using assms by simp
  show "sorted (map f (sort_key f ys))" by simp
  fix k assume "k \<in> set (sort_key f ys)"
  have "distinct (map f ys)"
    using assms by (metis distinct_map mset_eq_imp_distinct_iff mset_eq_setD)
  have one: "filter (\<lambda>x. f k = f x) zs = [k]" if "k \<in> set zs" "distinct (map f zs)" for zs
    using that
  proof (induction zs)
    case Nil
    then show ?case by simp
  next
    case (Cons a zs)
    show ?case
    proof (cases "k = a")
      case True
      with Cons.prems have "filter (\<lambda>x. f k = f x) zs = []" by (auto simp: filter_empty_conv)
      with True show ?thesis by simp
    next
      case False
      with Cons.prems have "k \<in> set zs" "f a \<notin> f ` set zs" by auto
      then have "f k \<noteq> f a" by (metis imageI)
      with Cons \<open>k \<in> set zs\<close> show ?thesis by simp
    qed
  qed
  have "k \<in> set xs" "k \<in> set ys"
    using \<open>k \<in> set (sort_key f ys)\<close> assms(1) by (auto dest: mset_eq_setD)
  moreover have "distinct (map f (sort_key f ys))"
    using \<open>distinct (map f ys)\<close> by (metis distinct_map distinct_sort set_sort)
  ultimately show "filter (\<lambda>x. f k = f x) (sort_key f ys) = filter (\<lambda>x. f k = f x) xs"
    using one [of xs] one [of "sort_key f ys"] assms(2) by simp
qed

lemma normal_form_PDict_perm:
  assumes "mset d = mset e" and "wf_dict d"
  shows "normal_form P (PDict d) = normal_form P (PDict e)"
proof -
  let ?f = "\<lambda>(k, v). (k, sort_keys v)" and ?c = "\<lambda>(k, v). (k, canonical_json_value P v)"
  have "map fst (map (?f \<circ> ?c) d) = map fst d" by auto
  then have "sort_key fst (map (?f \<circ> ?c) d) = sort_key fst (map (?f \<circ> ?c) e)"
    using assms by (intro sort_key_perm) (simp_all only: mset_map)
  then show ?thesis by (simp add: normal_form_def)
qed

text \<open>On set-free values with distinct keys, equal normal forms are equal in Python's sense.\<close>

lemma sort_keys_eq_PList: "sort_keys w = PList ys \<Longrightarrow> \<exists>zs. w = PList zs \<and> map sort_keys zs = ys"
  by (cases w) auto

lemma sort_keys_eq_PDict:
  "sort_keys w = PDict d \<Longrightarrow> \<exists>e. w = PDict e \<and> sort_key fst (map (\<lambda>(k, v). (k, sort_keys v)) e) = d"
  by (cases w) auto

lemma sort_keys_py_eq:
  "\<lbrakk>wf_pyval v; wf_pyval w; no_sets v; no_sets w; sort_keys v = sort_keys w\<rbrakk> \<Longrightarrow> py_eq v w"
proof (induction v arbitrary: w rule: sort_keys.induct)
  case (1 xs)
  from "1.prems"(5) have "sort_keys w = PList (map sort_keys xs)" by simp
  from sort_keys_eq_PList [OF this]
  obtain ys where w: "w = PList ys" and eq: "map sort_keys ys = map sort_keys xs" by blast
  have "py_eq_list us vs" if "set us \<subseteq> set xs" "set vs \<subseteq> set ys" "map sort_keys vs = map sort_keys us" for us vs
    using that
  proof (induction us arbitrary: vs)
    case Nil
    then show ?case by simp
  next
    case (Cons u us)
    then obtain v' vs' where vs: "vs = v' # vs'" "sort_keys v' = sort_keys u" "map sort_keys vs' = map sort_keys us"
      by (cases vs) auto
    moreover have "py_eq u v'"
      using "1.prems" w Cons.prems vs by (intro "1.IH") auto
    ultimately show ?case using Cons by simp
  qed
  with w eq show ?case by simp
next
  case (3 d)
  let ?m = "map (\<lambda>(k, v). (k, sort_keys v))"
  from "3.prems"(5) have "sort_keys w = PDict (sort_key fst (?m d))" by simp
  from sort_keys_eq_PDict [OF this]
  obtain e where w: "w = PDict e" and eq: "sort_key fst (?m e) = sort_key fst (?m d)" by blast
  have len: "length d = length e" using arg_cong [OF eq, of length] by simp
  have sets: "set (?m e) = set (?m d)" using arg_cong [OF eq, of set] by simp
  have "\<exists>u. dict_get e k = Some u \<and> py_eq v u" if kv: "(k, v) \<in> set d" for k v
  proof -
    have "(k, sort_keys v) \<in> set (?m e)" unfolding sets using kv by force
    then obtain u where u: "(k, u) \<in> set e" "sort_keys u = sort_keys v" by auto
    have "py_eq v u"
      using "3.prems" w kv u by (intro "3.IH" [OF kv refl]) auto
    moreover have "dict_get e k = Some u" using u(1) "3.prems"(2) w by simp
    ultimately show ?thesis by blast
  qed
  with w len show ?case by (auto simp: py_sub_dict_iff)
next
  case "4_1"
  then show ?case by (cases w) auto
next
  case "4_2"
  then show ?case by (cases w) auto
next
  case "4_3"
  then show ?case by (cases w) auto
next
  case "4_4"
  then show ?case by (cases w) auto
next
  case "4_5"
  then show ?case by (cases w) auto
qed simp

subsection \<open>What the hash of a plan says\<close>

definition wf_plan :: "agent_plan \<Rightarrow> bool" where
  "wf_plan p \<longleftrightarrow> (\<forall>a\<in>set (plan_actions p). finite (act_scopes a)
     \<and> wf_pyval (PDict (act_attrs a)) \<and> no_sets (PDict (act_attrs a)))"

lemma normal_form_simps [simp]:
  "normal_form P (PStr s) = PStr s"
  "normal_form P (PList xs) = PList (map (normal_form P) xs)"
  "normal_form P (PDict d) = PDict (sort_key fst (map (\<lambda>(k, v). (k, normal_form P v)) d))"
  by (simp_all add: normal_form_def comp_def split_def)

lemma normal_form_scopes:
  assumes "finite s" and "finite t" and "normal_form P (scopes_dump s) = normal_form P (scopes_dump t)"
  shows "s = t"
proof -
  have nf: "set xs = (\<lambda>x. PStr x) ` r" if "finite r" "normal_form P (scopes_dump r) = PList xs" for r xs
    using that by (auto simp: normal_form_def scopes_dump_def image_image)
  obtain xs where "normal_form P (scopes_dump s) = PList xs"
    by (simp add: normal_form_def scopes_dump_def)
  with assms nf have "(\<lambda>x. PStr x) ` s = (\<lambda>x. PStr x) ` t" by metis
  then show ?thesis by (metis inj_image_eq_iff injI pyval.inject(4))
qed

lemma normal_form_fixed_keys:
  "sorted (map fst d) \<Longrightarrow> normal_form P (PDict d) = PDict (map (\<lambda>(k, v). (k, normal_form P v)) d)"
  by (simp add: sort_key_id_if_sorted comp_def split_def)

lemma action_dump_normal_form:
  "normal_form P (action_dump a) = PDict
     [(''attributes'', normal_form P (PDict (act_attrs a))),
      (''description'', PStr (act_description a)), (''id'', PStr (act_id a)),
      (''scopes'', normal_form P (scopes_dump (act_scopes a)))]"
  by (simp add: action_dump_def)

lemma plan_dump_normal_form:
  "normal_form P (plan_dump p) = PDict
     [(''actions'', PList (map (\<lambda>a. normal_form P (action_dump a)) (plan_actions p))),
      (''id'', PStr (plan_id p)), (''objective'', PStr (plan_objective p)),
      (''ticket_id'', PStr (plan_ticket p))]"
  by (simp add: plan_dump_def comp_def)

lemma normal_form_attrs_eq:
  assumes "wf_pyval (PDict d)" "wf_pyval (PDict e)" "no_sets (PDict d)" "no_sets (PDict e)"
    and "normal_form P (PDict d) = normal_form P (PDict e)"
  shows "attrs_eq d e"
proof -
  have "sort_keys (PDict d) = sort_keys (PDict e)"
    using assms(3-5) canonical_json_value_id unfolding normal_form_def by metis
  with assms show ?thesis unfolding attrs_eq_def by (intro sort_keys_py_eq)
qed

lemma canonical_json_plan_eq:
  assumes "float_repr_ok P" and "wf_plan p" and "wf_plan q"
    and eq: "canonical_json P (plan_dump p) = canonical_json P (plan_dump q)"
  shows "plan_eq p q"
proof -
  have nf: "normal_form P (plan_dump p) = normal_form P (plan_dump q)"
    using eq canonical_json_eq_iff [OF assms(1)] by blast
  then have fields: "plan_id p = plan_id q" "plan_ticket p = plan_ticket q"
      "plan_objective p = plan_objective q"
    and acts: "map (\<lambda>a. normal_form P (action_dump a)) (plan_actions p) =
      map (\<lambda>a. normal_form P (action_dump a)) (plan_actions q)"
    by (simp_all add: plan_dump_normal_form)
  have "list_all2 action_eq (plan_actions p) (plan_actions q)"
  proof (rule list_all2_all_nthI)
    show "length (plan_actions p) = length (plan_actions q)"
      using arg_cong [OF acts, of length] by simp
    fix n assume n: "n < length (plan_actions p)"
    let ?a = "plan_actions p ! n" and ?b = "plan_actions q ! n"
    have n': "n < length (plan_actions q)" using n arg_cong [OF acts, of length] by simp
    have "normal_form P (action_dump ?a) = normal_form P (action_dump ?b)"
      using arg_cong [OF acts, of "\<lambda>l. l ! n"] n n' by simp
    moreover have "?a \<in> set (plan_actions p)" "?b \<in> set (plan_actions q)" using n n' by auto
    ultimately show "action_eq ?a ?b"
      using assms(2,3) normal_form_scopes [of "act_scopes ?a" "act_scopes ?b" P]
        normal_form_attrs_eq [of "act_attrs ?a" "act_attrs ?b" P]
      unfolding wf_plan_def action_eq_def action_dump_normal_form by blast
  qed
  with fields show ?thesis by (simp add: plan_eq_def)
qed

text \<open>SHA-256 finds no collision between two texts.\<close>

definition no_collision :: "platform \<Rightarrow> string \<Rightarrow> string \<Rightarrow> bool" where
  "no_collision P s t \<longleftrightarrow> (sha256_hex P s = sha256_hex P t \<longrightarrow> s = t)"

lemma stable_hash_plan_eq:
  assumes "float_repr_ok P" and "wf_plan p" and "wf_plan q"
    and "no_collision P (canonical_json P (plan_dump p)) (canonical_json P (plan_dump q))"
    and "stable_hash P (plan_dump p) = stable_hash P (plan_dump q)"
  shows "plan_eq p q"
  using assms by (intro canonical_json_plan_eq) (auto simp: stable_hash_def no_collision_def)

lemma canonical_json_normal_form: "canonical_json P v = json_text P (normal_form P v)"
  by (simp add: canonical_json_def json_dumps_def normal_form_def)

lemma stable_hash_attr_order:
  assumes "mset d = mset e" and "wf_dict d"
  shows "stable_hash P (PDict d) = stable_hash P (PDict e)"
  using normal_form_PDict_perm [OF assms, of P]
  by (simp add: stable_hash_def canonical_json_normal_form del: normal_form_simps)

text \<open>
  A platform to evaluate the model on: floats render as a fraction over \<open>e\<close>, hashes are the
  text itself, a set is iterated in order and a payload is its authorization identifier.
\<close>

definition sample_platform :: platform where
  "sample_platform = \<lparr>
     float_repr = (\<lambda>r. show_int (fst (quotient_of r)) @ ''e'' @ show_int (snd (quotient_of r))),
     iso_format = (\<lambda>d. (if dt_aware d then ''Z'' else ''N'') @ show_int (dt_micros d)),
     sha256_hex = (\<lambda>s. s),
     hmac_sha256 = (\<lambda>k m. k @ m),
     payload_json = gp_auth_id,
     payload_parse = (\<lambda>s. Inl (ValueError ''no payload'')),
     set_order = sorted_list_of_set\<rparr>"

lemma show_int_e: "CHR ''e'' \<notin> set (show_int i)"
  using show_int_set [of "CHR ''e''" i] by (auto simp: is_digit_def)

lemma sample_platform_ok [simp]: "float_repr_ok sample_platform" "set_order_ok sample_platform"
proof -
  have e: "CHR ''e'' \<notin> set (show_int i)" for i
    using show_int_e by blast
  have tw: "takeWhile (\<lambda>c. c \<noteq> CHR ''e'') (show_int i @ ''e'' @ t) = show_int i" for i t
    using e [of i] by (subst takeWhile_append2) auto
  have inj: "inj (float_repr sample_platform)"
  proof (rule injI)
    fix x y :: rat
    assume "float_repr sample_platform x = float_repr sample_platform y"
    then have eq: "show_int (fst (quotient_of x)) @ ''e'' @ show_int (snd (quotient_of x)) =
        show_int (fst (quotient_of y)) @ ''e'' @ show_int (snd (quotient_of y))"
      by (simp add: sample_platform_def)
    then have "fst (quotient_of x) = fst (quotient_of y)" by (metis tw show_int_inj)
    with eq have "quotient_of x = quotient_of y" by (simp add: prod_eq_iff)
    then show "x = y" by (rule quotient_of_inject)
  qed
  have hd: "is_digit (hd (show_int i)) \<or> hd (show_int i) = CHR ''-''" for i
    using show_int_chars(3) [of i] by (simp add: num_lead_def)
  have neq: "show_int i @ CHR ''e'' # t \<noteq> show_int j" for i j t
    using e [of j] by (metis in_set_conv_decomp)
  show "float_repr_ok sample_platform"
    unfolding float_repr_ok_def
    using inj hd neq show_int_chars(2) by (auto simp: sample_platform_def num_char_def dest: show_int_set)
  show "set_order_ok sample_platform"
    by (simp add: set_order_ok_def sample_platform_def)
qed

end
