(* ===== verification/Grants.thy ===== *)
theory Grants
  imports Hashing
begin

text \<open>
  \<^verbatim>\<open>backend/writai/grants.py\<close>: signed grant tokens. A token is the unpadded url-safe base64
  text of the payload's JSON bytes, a dot, and the unpadded base64 text of the HMAC of that
  text. Base64 is written out, encoder and CPython's lenient decoder, with their round trip.
  Bytes are characters.
\<close>

subsection \<open>Url-safe base64\<close>

definition b64_char :: "nat \<Rightarrow> char" where
  "b64_char n = (if n < 26 then char_of (65 + n) else if n < 52 then char_of (71 + n)
     else if n < 62 then char_of (n - 4) else if n = 62 then CHR ''-'' else CHR ''_'')"

fun b64_groups :: "nat list \<Rightarrow> string" where
  "b64_groups [] = []"
| "b64_groups [a] = [b64_char (a div 4), b64_char (a mod 4 * 16), CHR ''='', CHR ''='']"
| "b64_groups [a, b] =
     [b64_char (a div 4), b64_char (a mod 4 * 16 + b div 16), b64_char (b mod 16 * 4), CHR ''='']"
| "b64_groups (a # b # c # r) =
     [b64_char (a div 4), b64_char (a mod 4 * 16 + b div 16), b64_char (b mod 16 * 4 + c div 64),
      b64_char (c mod 64)] @ b64_groups r"

definition urlsafe_b64encode :: "string \<Rightarrow> string" where
  "urlsafe_b64encode data = b64_groups (map of_char data)"

definition rstrip_char :: "char \<Rightarrow> string \<Rightarrow> string" where
  "rstrip_char c s = rev (dropWhile (\<lambda>d. d = c) (rev s))"

definition b64 :: "string \<Rightarrow> string" where
  "b64 data = rstrip_char (CHR ''='') (urlsafe_b64encode data)"

text \<open>
  The value of a base64 character: the url-safe alphabet is translated to the standard one
  first, so both are read; any other character is skipped.
\<close>

definition b64_val :: "char \<Rightarrow> nat option" where
  "b64_val c = (let n = of_char c :: nat in
     if 65 \<le> n \<and> n \<le> 90 then Some (n - 65)
     else if 97 \<le> n \<and> n \<le> 122 then Some (n - 71)
     else if 48 \<le> n \<and> n \<le> 57 then Some (n + 4)
     else if n = 45 \<or> n = 43 then Some 62
     else if n = 95 \<or> n = 47 then Some 63
     else None)"

text \<open>
  \<open>binascii.a2b_base64\<close> in its lenient mode: position in the quad, bits left over, pads seen.
\<close>

fun a2b :: "nat \<Rightarrow> nat \<Rightarrow> nat \<Rightarrow> string \<Rightarrow> nat list option" where
  "a2b q l p [] = (if q = 0 then Some [] else None)"
| "a2b q l p (c # cs) =
     (if c = CHR ''='' then
        if 2 \<le> q then (if 4 \<le> q + Suc p then Some [] else a2b q l (Suc p) cs)
        else a2b q l p cs
      else (case b64_val c of
         None \<Rightarrow> a2b q l p cs
       | Some v \<Rightarrow>
           if q = 0 then a2b 1 v 0 cs
           else if q = 1 then map_option ((#) (l * 4 + v div 16)) (a2b 2 (v mod 16) 0 cs)
           else if q = 2 then map_option ((#) (l * 16 + v div 4)) (a2b 3 (v mod 4) 0 cs)
           else map_option ((#) (l * 64 + v)) (a2b 0 0 0 cs)))"

declare a2b.simps [simp del]

lemma a2b_simps [simp]:
  "a2b q l p [] = (if q = 0 then Some [] else None)"
  "a2b q l p (CHR ''='' # cs) =
     (if 2 \<le> q then (if 4 \<le> q + Suc p then Some [] else a2b q l (Suc p) cs) else a2b q l p cs)"
  by (simp_all add: a2b.simps)

definition urlsafe_b64decode :: "string \<Rightarrow> string option" where
  "urlsafe_b64decode s = map_option (map char_of) (a2b 0 0 0 s)"

definition unb64 :: "string \<Rightarrow> string result" where
  "unb64 data = (case urlsafe_b64decode (data @ replicate (nat (- int (length data) mod 4)) (CHR ''='')) of
     None \<Rightarrow> Inl (ValueError ''Incorrect padding'') | Some s \<Rightarrow> Inr s)"

subsection \<open>The signer\<close>

record signer =
  sig_secret :: string
  sig_ttl :: int

definition make_signer :: "string \<Rightarrow> int \<Rightarrow> signer result" where
  "make_signer secret ttl =
     (if secret = [] then Inl (ValueError ''Grant secret must not be empty'')
      else Inr \<lparr>sig_secret = secret, sig_ttl = ttl\<rparr>)"

definition mac :: "platform \<Rightarrow> signer \<Rightarrow> string \<Rightarrow> string" where
  "mac P s body = b64 (hmac_sha256 P (sig_secret s) body)"

text \<open>The clock and the random hexadecimal digits of the call are arguments.\<close>

definition issue ::
  "platform \<Rightarrow> signer \<Rightarrow> int \<Rightarrow> string \<Rightarrow> string \<Rightarrow> string \<Rightarrow> string \<Rightarrow> string \<Rightarrow> verdict \<Rightarrow> signed_grant"
where
  "issue P s now uid run task snap phash v =
     (let payload = \<lparr>gp_auth_id = ''AUTH-'' @ upper (take 8 uid), gp_run = run, gp_task = task,
            gp_snapshot = snap, gp_plan_hash = phash, gp_verdict = v, gp_issued = now,
            gp_expires = now + sig_ttl s * 1000000\<rparr>;
          body = b64 (payload_json P payload)
      in \<lparr>sg_payload = payload, sg_token = body @ ''.'' @ mac P s body\<rparr>)"

definition is_ascii :: "string \<Rightarrow> bool" where
  "is_ascii s \<longleftrightarrow> (\<forall>c\<in>set s. of_char c < (128::nat))"

text \<open>\<open>token.split(".", 1)\<close> unpacked into two names.\<close>

definition split_dot :: "string \<Rightarrow> (string \<times> string) option" where
  "split_dot t = (case dropWhile (\<lambda>c. c \<noteq> CHR ''.'') t of
     [] \<Rightarrow> None | _ # rest \<Rightarrow> Some (takeWhile (\<lambda>c. c \<noteq> CHR ''.'') t, rest))"

definition decode :: "platform \<Rightarrow> signer \<Rightarrow> string \<Rightarrow> grant_payload result" where
  "decode P s token = (case split_dot token of
     None \<Rightarrow> Inl (ValueError ''Malformed grant token'')
   | Some (body, signature) \<Rightarrow>
       if \<not> is_ascii body then Inl (ValueError ''ordinal not in range(128)'')
       else if \<not> is_ascii signature then
         Inl (TypeError ''comparing strings with non-ASCII characters is not supported'')
       else if signature \<noteq> mac P s body then Inl (ValueError ''Invalid grant signature'')
       else bind_r (unb64 body) (payload_parse P))"

subsection \<open>Base64 round trip\<close>

lemma of_char_b64_char:
  "n < 64 \<Longrightarrow> of_char (b64_char n) = (if n < 26 then 65 + n else if n < 52 then 71 + n
     else if n < 62 then n - 4 else if n = 62 then 45 else 95)"
  by (simp add: b64_char_def of_char_of)

lemma char_neq_of_char: "of_char c \<noteq> (of_char d :: nat) \<Longrightarrow> c \<noteq> d"
  by auto

lemma b64_val_char: "n < 64 \<Longrightarrow> b64_val (b64_char n) = Some n \<and> b64_char n \<noteq> CHR ''=''
    \<and> b64_char n \<noteq> CHR ''.'' \<and> of_char (b64_char n) < (128::nat)"
  by (intro conjI char_neq_of_char) (auto simp: b64_val_def of_char_b64_char Let_def)

text \<open>Encoded without the padding: what \<open>rstrip("=")\<close> leaves.\<close>

fun sextets :: "nat list \<Rightarrow> nat list" where
  "sextets [] = []"
| "sextets [a] = [a div 4, a mod 4 * 16]"
| "sextets [a, b] = [a div 4, a mod 4 * 16 + b div 16, b mod 16 * 4]"
| "sextets (a # b # c # r) =
     [a div 4, a mod 4 * 16 + b div 16, b mod 16 * 4 + c div 64, c mod 64] @ sextets r"

lemma sextet_bounds:
  "(a::nat) < 256 \<Longrightarrow> a div 4 < 64" "(a::nat) mod 4 * 16 < 64"
  "(b::nat) < 256 \<Longrightarrow> (a::nat) mod 4 * 16 + b div 16 < 64" "(b::nat) mod 16 * 4 < 64"
  "(c::nat) < 256 \<Longrightarrow> (b::nat) mod 16 * 4 + c div 64 < 64" "(c::nat) mod 64 < 64"
proof -
  have m: "a mod 4 < 4" "b mod 16 < 16" by simp_all
  show "a mod 4 * 16 < 64" "b mod 16 * 4 < 64" using m by linarith+
  show "a mod 4 * 16 + b div 16 < 64" if "b < 256"
  proof -
    have "b div 16 < 16" using that by simp
    with m show ?thesis by linarith
  qed
  show "b mod 16 * 4 + c div 64 < 64" if "c < 256"
  proof -
    have "c div 64 < 4" using that by simp
    with m show ?thesis by linarith
  qed
qed simp_all

lemma sextets_lt: "\<forall>x\<in>set xs. x < 256 \<Longrightarrow> \<forall>v\<in>set (sextets xs). v < 64"
  by (induction xs rule: sextets.induct) (simp_all add: sextet_bounds)

lemma b64_groups_sextets:
  "\<exists>k. b64_groups xs = map b64_char (sextets xs) @ replicate k (CHR ''='')"
proof (induction xs rule: sextets.induct)
  case 1
  then show ?case by simp
next
  case (2 a)
  show ?case by (rule exI [of _ 2]) (simp add: numeral_2_eq_2)
next
  case (3 a b)
  show ?case by (rule exI [of _ 1]) simp
next
  case (4 a b c r)
  then obtain k where "b64_groups r = map b64_char (sextets r) @ replicate k (CHR ''='')" by blast
  then show ?case by (intro exI [of _ k]) simp
qed

lemma b64_sextets: "b64 s = map b64_char (sextets (map of_char s))"
proof -
  let ?xs = "map of_char s :: nat list"
  obtain k where k: "b64_groups ?xs = map b64_char (sextets ?xs) @ replicate k (CHR ''='')"
    using b64_groups_sextets by blast
  have "\<forall>v\<in>set (sextets ?xs). v < 64" by (rule sextets_lt) simp
  then have ne: "\<forall>c\<in>set (map b64_char (sextets ?xs)). c \<noteq> CHR ''=''"
    using b64_val_char by simp
  have "dropWhile (\<lambda>d. d = CHR ''='') (replicate k (CHR ''='') @ rev (map b64_char (sextets ?xs))) =
      rev (map b64_char (sextets ?xs))"
  proof (subst dropWhile_append2)
    show "dropWhile (\<lambda>d. d = CHR ''='') (rev (map b64_char (sextets ?xs))) = rev (map b64_char (sextets ?xs))"
      using ne by (intro dropWhile_eq_self_iff [THEN iffD2] disjCI) (metis hd_in_set set_rev)
  qed simp
  then show ?thesis
    by (simp add: b64_def rstrip_char_def urlsafe_b64encode_def k)
qed

lemma sextet_regroup:
  "(b::nat) < 256 \<Longrightarrow> ((a::nat) mod 4 * 16 + b div 16) div 16 = a mod 4"
  "(b::nat) < 256 \<Longrightarrow> ((a::nat) mod 4 * 16 + b div 16) mod 16 = b div 16"
  "(c::nat) < 256 \<Longrightarrow> ((b::nat) mod 16 * 4 + c div 64) div 4 = b mod 16"
  "(c::nat) < 256 \<Longrightarrow> ((b::nat) mod 16 * 4 + c div 64) mod 4 = c div 64"
proof -
  show "(a mod 4 * 16 + b div 16) div 16 = a mod 4" "(a mod 4 * 16 + b div 16) mod 16 = b div 16"
    if "b < 256"
  proof -
    have "b div 16 < 16" using that by simp
    then show "(a mod 4 * 16 + b div 16) div 16 = a mod 4" "(a mod 4 * 16 + b div 16) mod 16 = b div 16"
      by (simp_all add: mod_mult_self3 div_mult_self3)
  qed
  show "(b mod 16 * 4 + c div 64) div 4 = b mod 16" "(b mod 16 * 4 + c div 64) mod 4 = c div 64"
    if "c < 256"
  proof -
    have "c div 64 < 4" using that by simp
    then show "(b mod 16 * 4 + c div 64) div 4 = b mod 16" "(b mod 16 * 4 + c div 64) mod 4 = c div 64"
      by simp_all
  qed
qed

definition padding :: "nat \<Rightarrow> nat" where
  "padding n = nat (- int n mod 4)"

lemma padding_simps [simp]:
  "padding 0 = 0" "padding 2 = 2" "padding (Suc (Suc 0)) = 2" "padding 3 = 1"
  "padding (Suc (Suc (Suc 0))) = 1"
  "padding (4 + n) = padding n"
proof -
  show "padding (4 + n) = padding n"
    unfolding padding_def by (rule arg_cong [where f = nat]) presburger
qed (simp_all add: padding_def)

lemma a2b_step:
  assumes "v < 64"
  shows "a2b q l p (b64_char v # cs) =
     (if q = 0 then a2b 1 v 0 cs
      else if q = 1 then map_option ((#) (l * 4 + v div 16)) (a2b 2 (v mod 16) 0 cs)
      else if q = 2 then map_option ((#) (l * 16 + v div 4)) (a2b 3 (v mod 4) 0 cs)
      else map_option ((#) (l * 64 + v)) (a2b 0 0 0 cs))"
  using b64_val_char [OF assms] by (simp add: a2b.simps)

lemma byte_div_16:
  "(b::nat) < 256 \<Longrightarrow> b div 16 mod 16 = b div 16" "(b::nat) < 256 \<Longrightarrow> b div 16 div 16 = 0"
  "(b::nat) div 16 * 16 + b mod 16 = b"
  "(c::nat) < 256 \<Longrightarrow> c div 64 mod 4 * 64 + c mod 64 = c" "(c::nat) < 256 \<Longrightarrow> c div 64 div 4 = 0"
  by simp_all

lemma padding_add4: "padding (Suc (Suc (Suc (Suc n)))) = padding n"
  using padding_simps(6) [of n] by (simp add: eval_nat_numeral)

lemma replicate_two: "replicate 2 x = [x, x]"
  by (simp add: numeral_2_eq_2)

lemma a2b_sextets:
  "\<forall>x\<in>set xs. x < 256 \<Longrightarrow>
   a2b 0 0 0 (map b64_char (sextets xs) @ replicate (padding (length (sextets xs))) (CHR ''='')) = Some xs"
proof (induction xs rule: sextets.induct)
  case 1
  then show ?case by simp
next
  case (2 a)
  then show ?case by (simp add: a2b_step sextet_bounds replicate_two)
next
  case (3 a b)
  then show ?case by (simp add: a2b_step sextet_bounds sextet_regroup byte_div_16)
next
  case (4 a b c r)
  then show ?case by (simp add: a2b_step sextet_bounds sextet_regroup byte_div_16 padding_add4)
qed

theorem unb64_b64: "unb64 (b64 s) = Inr s"
proof -
  let ?xs = "map of_char s :: nat list"
  have "a2b 0 0 0 (b64 s @ replicate (padding (length (b64 s))) (CHR ''='')) = Some ?xs"
    using a2b_sextets [of ?xs] by (simp add: b64_sextets)
  then show ?thesis
    by (simp add: unb64_def urlsafe_b64decode_def padding_def comp_def)
qed

lemma b64_inj: "b64 s = b64 t \<longleftrightarrow> s = t"
  by (metis unb64_b64 sum.inject(2))

lemma b64_chars: "\<forall>c\<in>set (b64 s). c \<noteq> CHR ''.'' \<and> of_char c < (128::nat)"
proof -
  have "\<forall>v\<in>set (sextets (map of_char s)). v < 64" by (rule sextets_lt) simp
  then show ?thesis using b64_val_char by (auto simp: b64_sextets)
qed

lemma is_ascii_b64 [simp]: "is_ascii (b64 s)"
  using b64_chars by (auto simp: is_ascii_def)

lemma is_ascii_mac [simp]: "is_ascii (mac P s body)"
  by (simp add: mac_def)

subsection \<open>Tokens\<close>

lemma split_dot_token [simp]: "split_dot (b64 b @ CHR ''.'' # r) = Some (b64 b, r)"
  using b64_chars [of b] by (simp add: split_dot_def takeWhile_append2 dropWhile_append2)

text \<open>Decoding an issued token gives back its payload when the payload codec round-trips.\<close>

lemma decode_issue:
  assumes "g = issue P s now uid run task snap phash v"
    and "payload_parse P (payload_json P (sg_payload g)) = Inr (sg_payload g)"
  shows "decode P s (sg_token g) = Inr (sg_payload g)"
  using assms by (simp add: issue_def decode_def Let_def unb64_b64)

text \<open>A token that decodes carries this signer's MAC of its own body.\<close>

lemma decode_InrD:
  assumes "decode P s token = Inr p"
  obtains body where "token = body @ ''.'' @ mac P s body" and "bind_r (unb64 body) (payload_parse P) = Inr p"
proof -
  from assms obtain body sg where sp: "split_dot token = Some (body, sg)"
    by (auto simp: decode_def split: option.splits)
  then obtain c where drop: "dropWhile (\<lambda>c. c \<noteq> CHR ''.'') token = c # sg"
    and body: "body = takeWhile (\<lambda>c. c \<noteq> CHR ''.'') token"
    by (auto simp: split_dot_def split: list.splits)
  have "c = CHR ''.''"
    using hd_dropWhile [of "\<lambda>c. c \<noteq> CHR ''.''" token] drop by simp
  with drop body have "token = body @ ''.'' @ sg"
    using takeWhile_dropWhile_id [of "\<lambda>c. c \<noteq> CHR ''.''" token] by simp
  moreover from assms sp have "sg = mac P s body" "bind_r (unb64 body) (payload_parse P) = Inr p"
    by (simp_all add: decode_def split: if_splits)
  ultimately show ?thesis using that by blast
qed

lemma decode_other_secret:
  assumes "hmac_sha256 P (sig_secret s') (b64 (payload_json P (sg_payload g)))
      \<noteq> hmac_sha256 P (sig_secret s) (b64 (payload_json P (sg_payload g)))"
    and "g = issue P s now uid run task snap phash v"
  shows "decode P s' (sg_token g) = Inl (ValueError ''Invalid grant signature'')"
  using assms by (auto simp: issue_def decode_def Let_def mac_def b64_inj)

text \<open>What \<open>decode\<close> raises is a ValueError or a TypeError, given such a parser.\<close>

fun value_or_type_error :: "py_error \<Rightarrow> bool" where
  "value_or_type_error (ValueError _) = True"
| "value_or_type_error (TypeError _) = True"
| "value_or_type_error (ValidationError _) = True"
| "value_or_type_error _ = False"

lemma decode_errors:
  assumes "\<And>t e. payload_parse P t = Inl e \<Longrightarrow> value_or_type_error e"
    and "decode P s token = Inl e"
  shows "value_or_type_error e"
  using assms
  by (auto simp: decode_def unb64_def bind_r_eq_Inl split: option.splits if_splits)

end
