(* ===== verification/Graph.thy ===== *)
theory Graph
  imports Grants
begin

text \<open>
  The artifact graph: \<^verbatim>\<open>graph/base.py\<close> (the GraphStore protocol, here a locale),
  \<^verbatim>\<open>graph/memory.py\<close> (the store in memory, which interprets it) and \<^verbatim>\<open>provenance.py\<close> (the edges
  that carry authority, their traversal order, the choice of the primary path). Artifacts are
  values here, so the deep copies of the source are the identity.
\<close>

subsection \<open>The store\<close>

record graph =
  g_version :: int
  g_artifacts :: "artifact dict"
  g_edges :: "edge list"
  g_in_txn :: bool

definition empty_graph :: graph where
  "empty_graph = \<lparr>g_version = 0, g_artifacts = [], g_edges = [], g_in_txn = False\<rparr>"

definition reset :: "int \<Rightarrow> artifact list \<Rightarrow> edge list \<Rightarrow> graph \<Rightarrow> graph" where
  "reset version artifacts edges g =
     g\<lparr>g_version := version, g_artifacts := dict_of (map (\<lambda>a. (art_id a, a)) artifacts),
       g_edges := edges\<rparr>"

definition version_label :: "graph \<Rightarrow> string" where
  "version_label g = ''graph-v'' @ show_int (g_version g)"

definition increment_version :: "(graph, string) op" where
  "increment_version g = (let g' = g\<lparr>g_version := g_version g + 1\<rparr> in (Inr (version_label g'), g'))"

text \<open>
  The context manager around a body. A nested block joins the outer one; only the outermost
  takes a snapshot, and only it restores when the body raises.
\<close>

definition transaction :: "(graph, 'a) op \<Rightarrow> (graph, 'a) op" where
  "transaction body g =
     (if g_in_txn g then body g
      else (case body (g\<lparr>g_in_txn := True\<rparr>) of
        (Inr v, g') \<Rightarrow> (Inr v, g'\<lparr>g_in_txn := False\<rparr>)
      | (Inl e, g') \<Rightarrow>
          (Inl e, g'\<lparr>g_version := g_version g, g_artifacts := g_artifacts g, g_edges := g_edges g,
                     g_in_txn := False\<rparr>)))"

definition add_artifact :: "artifact \<Rightarrow> (graph, unit) op" where
  "add_artifact a g =
     (if dict_get (g_artifacts g) (art_id a) \<noteq> None
      then (Inl (ValueError (''Artifact already exists: '' @ art_id a)), g)
      else (Inr (), g\<lparr>g_artifacts := dict_set (art_id a) a (g_artifacts g)\<rparr>))"

definition update_artifact :: "artifact \<Rightarrow> (graph, unit) op" where
  "update_artifact a g =
     (if dict_get (g_artifacts g) (art_id a) = None
      then (Inl (KeyError (''Unknown artifact: '' @ art_id a)), g)
      else (Inr (), g\<lparr>g_artifacts := dict_set (art_id a) a (g_artifacts g)\<rparr>))"

definition get_artifact :: "graph \<Rightarrow> string \<Rightarrow> artifact result" where
  "get_artifact g i = (case dict_get (g_artifacts g) i of
     None \<Rightarrow> Inl (KeyError (''Unknown artifact: '' @ i)) | Some a \<Rightarrow> Inr a)"

definition list_artifacts :: "graph \<Rightarrow> artifact list" where
  "list_artifacts g = sort_key art_id (map snd (g_artifacts g))"

definition add_edge :: "edge \<Rightarrow> (graph, unit) op" where
  "add_edge e g =
     (if dict_get (g_artifacts g) (edge_source e) = None
         \<or> dict_get (g_artifacts g) (edge_target e) = None
      then (Inl (KeyError (''Both edge endpoints must exist: '' @ edge_source e @ '' -> ''
              @ edge_target e)), g)
      else (Inr (), g\<lparr>g_edges := g_edges g @ [e]\<rparr>))"

definition outgoing_edges :: "graph \<Rightarrow> string \<Rightarrow> edge_kind set option \<Rightarrow> edge list" where
  "outgoing_edges g i kinds =
     sort_key (\<lambda>e. (edge_target e, edge_kind e))
       (filter (\<lambda>e. edge_source e = i \<and> (case kinds of None \<Rightarrow> True | Some K \<Rightarrow> edge_kind e \<in> K))
          (g_edges g))"

subsection \<open>The downstream subgraph\<close>

record subgraph =
  sub_artifacts :: "artifact dict"
  sub_edges :: "edge list"
  sub_queue :: "string list"
  sub_visited :: "string set"

text \<open>One pass of the \<open>for edge in self._edges\<close> loop, for the source just popped.\<close>

fun scan_edges :: "graph \<Rightarrow> edge_kind set \<Rightarrow> string \<Rightarrow> edge list \<Rightarrow> subgraph \<Rightarrow> subgraph result" where
  "scan_edges g K src [] s = Inr s"
| "scan_edges g K src (e # es) s =
     (if edge_source e \<noteq> src \<or> edge_kind e \<notin> K then scan_edges g K src es s
      else bind_r (get_artifact g (edge_target e)) (\<lambda>child.
        let s' = s\<lparr>sub_edges := sub_edges s @ [e],
                   sub_artifacts := dict_set (art_id child) child (sub_artifacts s)\<rparr>
        in scan_edges g K src es
             (if art_id child \<in> sub_visited s then s'
              else s'\<lparr>sub_visited := insert (art_id child) (sub_visited s),
                     sub_queue := sub_queue s @ [art_id child]\<rparr>)))"

abbreviation stored_ids :: "graph \<Rightarrow> string set" where
  "stored_ids g \<equiv> art_id ` snd ` set (g_artifacts g)"

definition unvisited :: "graph \<Rightarrow> subgraph \<Rightarrow> nat" where
  "unvisited g s = card (stored_ids g - sub_visited s)"

lemma get_artifact_InrD: "get_artifact g i = Inr a \<Longrightarrow> art_id a \<in> stored_ids g"
  by (auto simp: get_artifact_def split: option.splits dest!: map_of_SomeD intro!: imageI rev_image_eqI)

lemma card_visit:
  assumes "finite D" and "x \<in> D" and "x \<notin> V"
  shows "Suc (card (D - insert x V)) = card (D - V)"
proof -
  have "D - V = insert x (D - insert x V)" using assms by auto
  then show ?thesis using assms by (metis Diff_iff card_insert_disjoint finite_Diff insertI1)
qed

lemma scan_edges_measure:
  "scan_edges g K src es s = Inr s' \<Longrightarrow>
   unvisited g s' + length (sub_queue s') = unvisited g s + length (sub_queue s)"
proof (induction g K src es s rule: scan_edges.induct)
  case (1 g K src s)
  then show ?case by simp
next
  case (2 g K src e es s)
  show ?case
  proof (cases "edge_source e \<noteq> src \<or> edge_kind e \<notin> K")
    case True
    with 2 show ?thesis by simp
  next
    case False
    with "2.prems" obtain c where c: "get_artifact g (edge_target e) = Inr c" by auto
    have "Suc (card (stored_ids g - insert (art_id c) (sub_visited s))) =
        card (stored_ids g - sub_visited s)" if "art_id c \<notin> sub_visited s"
      using that get_artifact_InrD [OF c] by (intro card_visit) auto
    with False c "2.IH" (2) [OF False c refl] "2.prems" show ?thesis
      by (auto simp: Let_def unvisited_def split: if_splits)
  qed
qed

function search_downstream :: "graph \<Rightarrow> edge_kind set \<Rightarrow> subgraph \<Rightarrow> subgraph result" where
  "search_downstream g K s = (case sub_queue s of
     [] \<Rightarrow> Inr s
   | src # rest \<Rightarrow>
       bind_r (scan_edges g K src (g_edges g) (s\<lparr>sub_queue := rest\<rparr>)) (search_downstream g K))"
  by pat_completeness auto
termination
proof (relation "measure (\<lambda>(g, K, s). unvisited g s + length (sub_queue s))")
  fix g K and s :: subgraph and src rest s'
  assume q: "sub_queue s = src # rest"
    and "scan_edges g K src (g_edges g) (s\<lparr>sub_queue := rest\<rparr>) = Inr s'"
  from scan_edges_measure [OF this(2)] q
  show "((g, K, s'), (g, K, s)) \<in> measure (\<lambda>(g, K, s). unvisited g s + length (sub_queue s))"
    by (simp add: unvisited_def)
qed simp

declare search_downstream.simps [simp del]

definition edge_order :: "edge \<Rightarrow> string \<times> edge_kind \<times> string" where
  "edge_order e = (edge_source e, edge_kind e, edge_target e)"

definition downstream_subgraph ::
  "graph \<Rightarrow> string \<Rightarrow> edge_kind set \<Rightarrow> (artifact list \<times> edge list) result"
where
  "downstream_subgraph g root_id K =
     bind_r (get_artifact g root_id) (\<lambda>root.
     bind_r (search_downstream g K
         \<lparr>sub_artifacts = [(art_id root, root)], sub_edges = [], sub_queue = [art_id root],
          sub_visited = {art_id root}\<rparr>) (\<lambda>s.
     Inr (sort_key art_id (map snd (sub_artifacts s)), sort_key edge_order (sub_edges s))))"

subsection \<open>\<open>provenance.py\<close>\<close>

definition downstream_kinds :: "edge_kind set" where
  "downstream_kinds = {BASIS_FOR, CREATES, DECOMPOSES_TO, CURRENTLY_DRIVES, IMPLEMENTS}"

definition authority_edge_sort_key :: "edge \<Rightarrow> string \<times> string \<times> string list \<times> string" where
  "authority_edge_sort_key e =
     (edge_target e, edge_kind_value (edge_kind e), sorted_list_of_set (edge_scopes e),
      (case edge_evidence e of None \<Rightarrow> [] | Some r \<Rightarrow> r))"

definition path_key :: "invalidation_path \<Rightarrow> int \<times> string list \<times> string" where
  "path_key p = (- int (length (path_nodes p)), path_nodes p, path_artifact p)"

definition select_primary_invalidation_path ::
  "invalidation_path list \<Rightarrow> string option \<Rightarrow> invalidation_path option"
where
  "select_primary_invalidation_path paths preferred =
     (let chosen = (case preferred of
        None \<Rightarrow> paths
      | Some i \<Rightarrow> (let ps = filter (\<lambda>p. path_artifact p = i) paths in if ps \<noteq> [] then ps else paths))
      in min_by path_key chosen)"

subsection \<open>Well-formed stores\<close>

text \<open>Keys are distinct, name the artifact they hold, and every edge joins stored artifacts.\<close>

definition wf_graph :: "graph \<Rightarrow> bool" where
  "wf_graph g \<longleftrightarrow> wf_dict (g_artifacts g) \<and> (\<forall>(i, a)\<in>set (g_artifacts g). art_id a = i)
     \<and> (\<forall>e\<in>set (g_edges g). edge_source e \<in> fst ` set (g_artifacts g)
          \<and> edge_target e \<in> fst ` set (g_artifacts g))"

definition in_graph :: "graph \<Rightarrow> string \<Rightarrow> bool" where
  "in_graph g i \<longleftrightarrow> dict_get (g_artifacts g) i \<noteq> None"

lemma in_graph_iff: "in_graph g i \<longleftrightarrow> i \<in> fst ` set (g_artifacts g)"
  by (metis in_graph_def dict_get_None)

lemma in_graph_get: "in_graph g i \<longleftrightarrow> (\<exists>a. get_artifact g i = Inr a)"
  by (auto simp: in_graph_def get_artifact_def split: option.splits)

lemma get_artifact_Inr: "get_artifact g i = Inr a \<longleftrightarrow> dict_get (g_artifacts g) i = Some a"
  by (auto simp: get_artifact_def split: option.splits)

lemma wf_graph_id: "wf_graph g \<Longrightarrow> get_artifact g i = Inr a \<Longrightarrow> art_id a = i"
  by (auto simp: wf_graph_def get_artifact_Inr dest!: map_of_SomeD)

lemma wf_graph_edge:
  "wf_graph g \<Longrightarrow> e \<in> set (g_edges g) \<Longrightarrow> in_graph g (edge_source e) \<and> in_graph g (edge_target e)"
  by (auto simp: wf_graph_def in_graph_iff)

lemma set_dict_set: "wf_dict d \<Longrightarrow> set (dict_set k v d) = {p \<in> set d. fst p \<noteq> k} \<union> {(k, v)}"
  by (induction d) (auto simp: rev_image_eqI)

lemma wf_graph_store:
  assumes "wf_graph g" and "art_id a = i"
  shows "wf_graph (g\<lparr>g_artifacts := dict_set i a (g_artifacts g)\<rparr>)"
proof -
  have "wf_dict (dict_set i a (g_artifacts g))" using assms by (simp add: wf_graph_def distinct_update)
  moreover have "\<forall>(j, b)\<in>set (dict_set i a (g_artifacts g)). art_id b = j"
    using assms by (auto simp: wf_graph_def set_dict_set)
  ultimately show ?thesis using assms by (simp add: wf_graph_def)
qed

lemma wf_graph_simps [simp]:
  "wf_graph (g\<lparr>g_version := v\<rparr>) = wf_graph g" "wf_graph (g\<lparr>g_in_txn := b\<rparr>) = wf_graph g"
  by (simp_all add: wf_graph_def)

lemma wf_graph_add_artifact: "wf_graph g \<Longrightarrow> wf_graph (snd (add_artifact a g))"
  by (simp add: add_artifact_def wf_graph_store)

lemma wf_graph_update_artifact: "wf_graph g \<Longrightarrow> wf_graph (snd (update_artifact a g))"
  by (simp add: update_artifact_def wf_graph_store)

lemma wf_graph_add_edge: "wf_graph g \<Longrightarrow> wf_graph (snd (add_edge e g))"
  by (auto simp: add_edge_def wf_graph_def dict_get_None)

lemma wf_graph_increment_version: "wf_graph g \<Longrightarrow> wf_graph (snd (increment_version g))"
  by (simp add: increment_version_def Let_def)

lemma wf_graph_reset:
  assumes "\<forall>e\<in>set es. edge_source e \<in> art_id ` set as \<and> edge_target e \<in> art_id ` set as"
  shows "wf_graph (reset v as es g)"
proof -
  have "art_id a = i" if "(i, a) \<in> set (dict_of (map (\<lambda>a. (art_id a, a)) as))" for i a
  proof -
    have "dict_get (dict_of (map (\<lambda>a. (art_id a, a)) as)) i = Some a"
      using that by (simp only: dict_get_set_mem [OF wf_dict_of])
    then have "dict_get (rev (map (\<lambda>a. (art_id a, a)) as)) i = Some a"
      by (simp add: dict_get_of)
    then show ?thesis by (auto dest!: map_of_SomeD)
  qed
  moreover have "fst ` set (dict_of (map (\<lambda>a. (art_id a, a)) as)) = art_id ` set as"
    by (simp add: dict_of_def keys_dict_update image_image)
  ultimately show ?thesis
    using assms by (auto simp: wf_graph_def reset_def wf_dict_of)
qed

lemma get_reset:
  assumes "distinct (map art_id as)" and "a \<in> set as"
  shows "get_artifact (reset v as es g) (art_id a) = Inr a"
proof -
  have "dict_get (rev (map (\<lambda>a. (art_id a, a)) as)) (art_id a) = Some a"
    using assms by (subst map_of_rev_distinct) (auto simp: comp_def)
  then show ?thesis by (simp add: get_artifact_Inr reset_def dict_get_of)
qed

text \<open>A listing holds each stored artifact once, ordered by id.\<close>

lemma set_list_artifacts: "set (list_artifacts g) = snd ` set (g_artifacts g)"
  by (simp add: list_artifacts_def)

lemma list_artifacts_get:
  assumes "wf_graph g"
  shows "a \<in> set (list_artifacts g) \<longleftrightarrow> get_artifact g (art_id a) = Inr a"
proof -
  have d: "wf_dict (g_artifacts g)" using assms by (simp add: wf_graph_def)
  have "a \<in> snd ` set (g_artifacts g) \<longleftrightarrow> (art_id a, a) \<in> set (g_artifacts g)"
    using assms by (auto simp: wf_graph_def intro: rev_image_eqI)
  then show ?thesis by (simp add: set_list_artifacts get_artifact_Inr dict_get_set_mem [OF d])
qed

lemma list_artifacts_ids: "wf_graph g \<Longrightarrow> sorted (map art_id (list_artifacts g)) \<and> distinct (map art_id (list_artifacts g))"
proof -
  assume wf: "wf_graph g"
  have "map art_id (map snd (g_artifacts g)) = map fst (g_artifacts g)"
    using wf by (auto simp: wf_graph_def)
  with wf have "distinct (map art_id (map snd (g_artifacts g)))"
    by (metis wf_graph_def)
  then show ?thesis
    by (metis distinct_map distinct_sort list_artifacts_def set_sort sorted_sort_key)
qed

subsection \<open>The GraphStore protocol\<close>

text \<open>
  What the authority relies on: an artifact reads back as it was last written, writes to one
  artifact leave the others, the version and the edges alone, and the version grows by one.
\<close>

locale graph_store =
  fixes ok :: "'g \<Rightarrow> bool"
    and get :: "'g \<Rightarrow> string \<Rightarrow> artifact result"
    and update :: "artifact \<Rightarrow> ('g, unit) op"
    and bump :: "('g, string) op"
    and ver :: "'g \<Rightarrow> int"
    and edges :: "'g \<Rightarrow> edge list"
  assumes get_id: "ok g \<Longrightarrow> get g i = Inr a \<Longrightarrow> art_id a = i"
    and update_known: "ok g \<Longrightarrow> get g (art_id a) = Inr b \<Longrightarrow> \<exists>g'. update a g = (Inr (), g')"
    and update_unknown: "ok g \<Longrightarrow> get g (art_id a) = Inl e \<Longrightarrow> \<exists>e. update a g = (Inl e, g)"
    and get_update: "ok g \<Longrightarrow> update a g = (Inr (), g') \<Longrightarrow>
      get g' i = (if i = art_id a then Inr a else get g i)"
    and update_frame: "ok g \<Longrightarrow> update a g = (r, g') \<Longrightarrow>
      ok g' \<and> ver g' = ver g \<and> edges g' = edges g"
    and bump_frame: "ok g \<Longrightarrow> bump g = (l, g') \<Longrightarrow>
      ok g' \<and> ver g' = ver g + 1 \<and> edges g' = edges g \<and> get g' = get g"
begin

text \<open>
  Artifacts in \<open>M\<close> have been rewritten by \<open>f\<close>, the others are as in \<open>g\<^sub>0\<close>: rewriting one more
  stored artifact by an idempotent \<open>f\<close> adds it to \<open>M\<close>.
\<close>

lemma rewrite_one:
  assumes ok: "ok g0" "ok g"
    and marked: "\<And>i. get g i = map_sum id (if i \<in> M then f else id) (get g0 i)"
    and c: "get g0 i = Inr c" and f: "\<And>a. f (f a) = f a" "\<And>a. art_id (f a) = art_id a"
    and d: "d = c \<or> d = f c"
  shows "\<exists>g'. update (f d) g = (Inr (), g') \<and> ok g' \<and> ver g' = ver g \<and> edges g' = edges g
    \<and> (\<forall>j. get g' j = map_sum id (if j \<in> insert i M then f else id) (get g0 j))"
proof -
  have i: "art_id (f d) = i" and fd: "f d = f c" using get_id [OF ok(1) c] f d by auto
  have "get g i = Inr (if i \<in> M then f c else c)" using marked c by simp
  then obtain g' where g': "update (f d) g = (Inr (), g')"
    using update_known [OF ok(2)] i by metis
  have "get g' j = map_sum id (if j \<in> insert i M then f else id) (get g0 j)" for j
    using get_update [OF ok(2) g', of j] marked [of j] c i fd by auto
  with g' update_frame [OF ok(2) g'] show ?thesis by blast
qed

lemma updates_frame:
  assumes "ok g" and "for_op update as g = (r, g')"
  shows "ok g' \<and> ver g' = ver g \<and> edges g' = edges g"
  using for_op_inv [OF assms(2), of "\<lambda>h. ok h \<and> ver h = ver g \<and> edges h = edges g"]
    assms(1) update_frame by fastforce

end

interpretation mem: graph_store wf_graph get_artifact update_artifact increment_version g_version g_edges
proof unfold_locales
  fix g a r g'
  assume "wf_graph g" "update_artifact a g = (r, g')"
  then show "wf_graph g' \<and> g_version g' = g_version g \<and> g_edges g' = g_edges g"
    using wf_graph_update_artifact [of g a] by (auto simp: update_artifact_def split: if_splits)
next
  fix g r g'
  assume "wf_graph g" "increment_version g = (r, g')"
  then show "wf_graph g' \<and> g_version g' = g_version g + 1 \<and> g_edges g' = g_edges g
      \<and> get_artifact g' = get_artifact g"
    by (auto simp: increment_version_def Let_def get_artifact_def fun_eq_iff)
next
  fix g a g' i
  assume "update_artifact a g = (Inr (), g')"
  then show "get_artifact g' i = (if i = art_id a then Inr a else get_artifact g i)"
    by (auto simp: update_artifact_def get_artifact_def dict_simps split: if_splits)
next
  fix g b and a :: artifact
  assume "get_artifact g (art_id a) = Inr b"
  then show "\<exists>g'. update_artifact a g = (Inr (), g')"
    by (simp add: update_artifact_def get_artifact_Inr)
next
  fix g e and a :: artifact
  assume "get_artifact g (art_id a) = Inl e"
  then show "\<exists>e. update_artifact a g = (Inl e, g)"
    by (simp add: update_artifact_def get_artifact_def split: option.splits)
qed (rule wf_graph_id)

subsection \<open>What the downstream search finds\<close>

definition flows :: "graph \<Rightarrow> edge_kind set \<Rightarrow> string \<Rightarrow> string \<Rightarrow> bool" where
  "flows g K x y \<longleftrightarrow> (\<exists>e\<in>set (g_edges g). edge_source e = x \<and> edge_kind e \<in> K \<and> edge_target e = y)"

definition entries_ok :: "graph \<Rightarrow> subgraph \<Rightarrow> bool" where
  "entries_ok g s \<longleftrightarrow> wf_dict (sub_artifacts s) \<and> fst ` set (sub_artifacts s) = sub_visited s
     \<and> (\<forall>(i, a)\<in>set (sub_artifacts s). get_artifact g i = Inr a)"

lemma scan_edges_result:
  assumes "wf_graph g"
  shows "set es \<subseteq> set (g_edges g) \<Longrightarrow> entries_ok g s \<Longrightarrow>
    \<exists>s' new. scan_edges g K src es s = Inr s' \<and> entries_ok g s'
      \<and> sub_edges s' = sub_edges s @ filter (\<lambda>e. edge_source e = src \<and> edge_kind e \<in> K) es
      \<and> sub_visited s' = sub_visited s \<union> edge_target ` {e\<in>set es. edge_source e = src \<and> edge_kind e \<in> K}
      \<and> sub_queue s' = sub_queue s @ new \<and> set new = sub_visited s' - sub_visited s"
proof (induction es arbitrary: s)
  case Nil
  then show ?case by auto
next
  case (Cons e es)
  show ?case
  proof (cases "edge_source e \<noteq> src \<or> edge_kind e \<notin> K")
    case True
    then have F: "{e' \<in> set (e # es). edge_source e' = src \<and> edge_kind e' \<in> K} =
      {e' \<in> set es. edge_source e' = src \<and> edge_kind e' \<in> K}" by auto
    show ?thesis using True Cons.prems Cons.IH [of s] by (simp only: F) auto
  next
    case False
    then have F: "{e' \<in> set (e # es). edge_source e' = src \<and> edge_kind e' \<in> K} =
      insert e {e' \<in> set es. edge_source e' = src \<and> edge_kind e' \<in> K}" by auto
    obtain c where c: "get_artifact g (edge_target e) = Inr c"
      using wf_graph_edge [OF assms, of e] Cons.prems by (auto simp: in_graph_get)
    have id: "art_id c = edge_target e" using wf_graph_id [OF assms c] .
    let ?s0 = "s\<lparr>sub_edges := sub_edges s @ [e],
                 sub_artifacts := dict_set (edge_target e) c (sub_artifacts s)\<rparr>"
    let ?s1 = "if edge_target e \<in> sub_visited s then ?s0
      else ?s0\<lparr>sub_visited := insert (edge_target e) (sub_visited s),
               sub_queue := sub_queue s @ [edge_target e]\<rparr>"
    have "entries_ok g ?s1"
      using Cons.prems(2) c by (auto simp: entries_ok_def set_dict_set dom_update intro: distinct_update)
    then obtain s' new where s': "scan_edges g K src es ?s1 = Inr s'" "entries_ok g s'"
        "sub_edges s' = sub_edges ?s1 @ filter (\<lambda>e. edge_source e = src \<and> edge_kind e \<in> K) es"
        "sub_visited s' = sub_visited ?s1 \<union> edge_target ` {e\<in>set es. edge_source e = src \<and> edge_kind e \<in> K}"
        "sub_queue s' = sub_queue ?s1 @ new" "set new = sub_visited s' - sub_visited ?s1"
      using Cons.IH [of ?s1] Cons.prems(1) by auto
    have "scan_edges g K src (e # es) s = Inr s'"
      using s'(1) False c id by (cases "edge_target e \<in> sub_visited s") (simp_all add: Let_def)
    moreover have "sub_visited ?s1 = insert (edge_target e) (sub_visited s)" by auto
    ultimately show ?thesis
      using s'(2-) False F
      by (intro exI [of _ s'] exI [of _ "(if edge_target e \<in> sub_visited s then [] else [edge_target e]) @ new"]) auto
  qed
qed

definition search_inv :: "graph \<Rightarrow> edge_kind set \<Rightarrow> string \<Rightarrow> subgraph \<Rightarrow> bool" where
  "search_inv g K r s \<longleftrightarrow> entries_ok g s \<and> r \<in> sub_visited s \<and> set (sub_queue s) \<subseteq> sub_visited s
     \<and> (\<forall>x\<in>sub_visited s. (flows g K)\<^sup>*\<^sup>* r x)
     \<and> (\<forall>e\<in>set (sub_edges s). e \<in> set (g_edges g) \<and> edge_kind e \<in> K \<and> edge_source e \<in> sub_visited s)
     \<and> (\<forall>e\<in>set (g_edges g). edge_kind e \<in> K \<and> edge_source e \<in> sub_visited s - set (sub_queue s)
          \<longrightarrow> e \<in> set (sub_edges s) \<and> edge_target e \<in> sub_visited s)"

lemma search_invD:
  assumes "search_inv g K r s"
  shows "entries_ok g s" "r \<in> sub_visited s" "set (sub_queue s) \<subseteq> sub_visited s"
    "\<And>x. x \<in> sub_visited s \<Longrightarrow> (flows g K)\<^sup>*\<^sup>* r x"
    "\<And>e. e \<in> set (sub_edges s) \<Longrightarrow> e \<in> set (g_edges g) \<and> edge_kind e \<in> K \<and> edge_source e \<in> sub_visited s"
    "\<And>e. e \<in> set (g_edges g) \<Longrightarrow> edge_kind e \<in> K \<Longrightarrow> edge_source e \<in> sub_visited s - set (sub_queue s)
       \<Longrightarrow> e \<in> set (sub_edges s) \<and> edge_target e \<in> sub_visited s"
  using assms unfolding search_inv_def by blast+

lemma search_inv_step:
  assumes wf: "wf_graph g" and inv: "search_inv g K r s" and q: "sub_queue s = src # rest"
  shows "\<exists>s'. scan_edges g K src (g_edges g) (s\<lparr>sub_queue := rest\<rparr>) = Inr s' \<and> search_inv g K r s'"
proof -
  let ?s = "s\<lparr>sub_queue := rest\<rparr>"
  let ?F = "{e\<in>set (g_edges g). edge_source e = src \<and> edge_kind e \<in> K}"
  note I = search_invD [OF inv]
  have "entries_ok g ?s" using I(1) by (simp add: entries_ok_def)
  from scan_edges_result [OF wf subset_refl this, of K src]
  obtain s' new where *: "scan_edges g K src (g_edges g) ?s = Inr s'" "entries_ok g s'"
      "sub_edges s' = sub_edges ?s @ filter (\<lambda>e. edge_source e = src \<and> edge_kind e \<in> K) (g_edges g)"
      "sub_visited s' = sub_visited ?s \<union> edge_target ` ?F"
      "sub_queue s' = sub_queue ?s @ new" "set new = sub_visited s' - sub_visited ?s"
    by blast
  have "set (sub_edges s') = set (sub_edges s) \<union> ?F" "sub_visited s' = sub_visited s \<union> edge_target ` ?F"
      "sub_queue s' = rest @ new" "set new = sub_visited s' - sub_visited s"
    using *(3-6) by simp_all
  note s' = *(1,2) this
  have src: "src \<in> sub_visited s" "(flows g K)\<^sup>*\<^sup>* r src"
    using I q by auto
  have "(flows g K)\<^sup>*\<^sup>* r x" if x: "x \<in> sub_visited s'" for x
  proof (cases "x \<in> sub_visited s")
    case True
    then show ?thesis by (rule I(4))
  next
    case False
    with x s'(4) have "flows g K src x" by (auto simp: flows_def)
    with src(2) show ?thesis by (rule rtranclp.rtrancl_into_rtrancl)
  qed
  moreover have "r \<in> sub_visited s'" "set (sub_queue s') \<subseteq> sub_visited s'"
    using I(2,3) q s'(4-6) by auto
  moreover have "\<forall>e\<in>set (sub_edges s'). e \<in> set (g_edges g) \<and> edge_kind e \<in> K \<and> edge_source e \<in> sub_visited s'"
    using I(5) s'(3,4) src by blast
  moreover have "e \<in> set (sub_edges s') \<and> edge_target e \<in> sub_visited s'"
    if e: "e \<in> set (g_edges g)" "edge_kind e \<in> K" "edge_source e \<in> sub_visited s' - set (sub_queue s')" for e
  proof (cases "edge_source e = src")
    case True
    with e s'(3,4) show ?thesis by auto
  next
    case False
    with e s'(4-6) have "edge_source e \<in> sub_visited s - set (sub_queue s)" using q by auto
    with e I(6) [OF e(1,2)] s'(3,4) show ?thesis by blast
  qed
  ultimately have "search_inv g K r s'" using s'(2) unfolding search_inv_def by blast
  with s'(1) show ?thesis by blast
qed

lemma search_downstream_inv:
  "wf_graph g \<Longrightarrow> search_inv g K r s \<Longrightarrow>
   \<exists>s'. search_downstream g K s = Inr s' \<and> search_inv g K r s' \<and> sub_queue s' = []"
proof (induction g K s rule: search_downstream.induct)
  case (1 g K s)
  show ?case
  proof (cases "sub_queue s")
    case Nil
    then have "search_downstream g K s = Inr s" by (subst search_downstream.simps) simp
    with Nil "1.prems" show ?thesis by blast
  next
    case (Cons src rest)
    from search_inv_step [OF "1.prems"(1,2) Cons] obtain s1
      where s1: "scan_edges g K src (g_edges g) (s\<lparr>sub_queue := rest\<rparr>) = Inr s1" "search_inv g K r s1"
      by blast
    then have "search_downstream g K s = search_downstream g K s1"
      using Cons by (subst search_downstream.simps) simp
    then show ?thesis using "1.IH" [OF Cons s1(1) "1.prems"(1) s1(2)] by (simp only:)
  qed
qed

text \<open>The closure of the search: visited is what the root reaches along edges of the kinds.\<close>

lemma search_inv_done:
  assumes "search_inv g K r s" and "sub_queue s = []"
  shows "sub_visited s = {x. (flows g K)\<^sup>*\<^sup>* r x}"
    and "set (sub_edges s) = {e\<in>set (g_edges g). edge_kind e \<in> K \<and> (flows g K)\<^sup>*\<^sup>* r (edge_source e)}"
proof -
  have closed: "e \<in> set (sub_edges s) \<and> edge_target e \<in> sub_visited s"
    if "e \<in> set (g_edges g)" "edge_kind e \<in> K" "edge_source e \<in> sub_visited s" for e
    using search_invD(6) [OF assms(1)] assms(2) that by simp
  have sound: "\<forall>x\<in>sub_visited s. (flows g K)\<^sup>*\<^sup>* r x"
      "\<forall>e\<in>set (sub_edges s). e \<in> set (g_edges g) \<and> edge_kind e \<in> K \<and> edge_source e \<in> sub_visited s"
    using search_invD(4,5) [OF assms(1)] by blast+
  have complete: "x \<in> sub_visited s" if "(flows g K)\<^sup>*\<^sup>* r x" for x
    using that
  proof induction
    case base
    then show ?case using search_invD(2) [OF assms(1)] .
  next
    case (step y z)
    then obtain e where "e \<in> set (g_edges g)" "edge_kind e \<in> K" "edge_source e \<in> sub_visited s"
        "edge_target e = z" by (auto simp: flows_def)
    then show ?case using closed by blast
  qed
  with sound(1) show "sub_visited s = {x. (flows g K)\<^sup>*\<^sup>* r x}" by blast
  show "set (sub_edges s) =
      {e\<in>set (g_edges g). edge_kind e \<in> K \<and> (flows g K)\<^sup>*\<^sup>* r (edge_source e)}"
    using sound closed complete by blast
qed

lemma downstream_subgraph_spec:
  assumes wf: "wf_graph g" and r: "in_graph g r"
  shows "\<exists>as es. downstream_subgraph g r K = Inr (as, es)
    \<and> set as = {a. \<exists>x. (flows g K)\<^sup>*\<^sup>* r x \<and> get_artifact g x = Inr a}
    \<and> sorted (map art_id as) \<and> distinct (map art_id as)
    \<and> set es = {e\<in>set (g_edges g). edge_kind e \<in> K \<and> (flows g K)\<^sup>*\<^sup>* r (edge_source e)}
    \<and> sorted (map edge_order es)"
proof -
  obtain a where a: "get_artifact g r = Inr a" using r by (auto simp: in_graph_get)
  have id: "art_id a = r" using wf_graph_id [OF wf a] .
  let ?s = "\<lparr>sub_artifacts = [(r, a)], sub_edges = [], sub_queue = [r], sub_visited = {r}\<rparr>"
  have "search_inv g K r ?s" using a by (simp add: search_inv_def entries_ok_def)
  from search_downstream_inv [OF wf this] obtain s
    where s: "search_downstream g K ?s = Inr s" "search_inv g K r s" "sub_queue s = []" by blast
  have ents: "wf_dict (sub_artifacts s)" "fst ` set (sub_artifacts s) = sub_visited s"
      "\<forall>(i, a)\<in>set (sub_artifacts s). get_artifact g i = Inr a"
    using s(2) by (auto simp: search_inv_def entries_ok_def)
  have ids: "map art_id (map snd (sub_artifacts s)) = map fst (sub_artifacts s)"
    using ents(3) wf_graph_id [OF wf] by auto
  have "set (map snd (sub_artifacts s)) = {b. \<exists>x. x \<in> sub_visited s \<and> get_artifact g x = Inr b}"
  proof -
    have "b \<in> snd ` set (sub_artifacts s)" if x: "x \<in> sub_visited s" "get_artifact g x = Inr b" for x b
    proof -
      from x(1) ents(2) obtain c where "(x, c) \<in> set (sub_artifacts s)" by force
      with ents(3) x(2) have "(x, b) \<in> set (sub_artifacts s)" by auto
      then show ?thesis by force
    qed
    moreover have "\<exists>x. x \<in> sub_visited s \<and> get_artifact g x = Inr b" if "b \<in> snd ` set (sub_artifacts s)" for b
      using that ents(2,3) by force
    ultimately show ?thesis unfolding set_map by blast
  qed
  moreover have "distinct (map art_id (sort_key art_id (map snd (sub_artifacts s))))"
    using ids ents(1) by (metis distinct_map distinct_sort set_sort)
  moreover have "downstream_subgraph g r K =
      Inr (sort_key art_id (map snd (sub_artifacts s)), sort_key edge_order (sub_edges s))"
    using a id s(1) by (simp add: downstream_subgraph_def)
  ultimately show ?thesis
    using search_inv_done [OF s(2,3)] by simp
qed

lemma downstream_subgraph_unknown:
  "\<not> in_graph g r \<Longrightarrow> downstream_subgraph g r K = Inl (KeyError (''Unknown artifact: '' @ r))"
  by (simp add: downstream_subgraph_def in_graph_def get_artifact_def)

subsection \<open>Transactions\<close>

lemma transaction_Inl:
  "g_in_txn g = False \<Longrightarrow> transaction body g = (Inl e, g') \<Longrightarrow> g' = g"
  by (auto simp: transaction_def split: prod.splits sum.splits)

lemma transaction_Inr:
  "g_in_txn g = False \<Longrightarrow> transaction body g = (Inr v, g') \<longleftrightarrow>
    (\<exists>h. body (g\<lparr>g_in_txn := True\<rparr>) = (Inr v, h) \<and> g' = h\<lparr>g_in_txn := False\<rparr>)"
  by (auto simp: transaction_def split: prod.splits sum.splits)

lemma transaction_nested: "g_in_txn g \<Longrightarrow> transaction body g = body g"
  by (simp add: transaction_def)

subsection \<open>The primary path\<close>

lemma primary_path_longest:
  assumes "select_primary_invalidation_path paths None = Some p"
  shows "p \<in> set paths \<and> (\<forall>q\<in>set paths. length (path_nodes q) \<le> length (path_nodes p))"
proof -
  have "min_by path_key paths = Some p" using assms by (simp add: select_primary_invalidation_path_def)
  then have "p \<in> set paths \<and> (\<forall>q\<in>set paths. path_key p \<le> path_key q)" by (rule min_by_SomeD)
  then show ?thesis by (force simp: path_key_def less_eq_prod_def)
qed

lemma primary_path_preferred:
  assumes "\<exists>q\<in>set paths. path_artifact q = i"
    and "select_primary_invalidation_path paths (Some i) = Some p"
  shows "path_artifact p = i"
proof -
  have "filter (\<lambda>q. path_artifact q = i) paths \<noteq> []" using assms(1) by (auto simp: filter_empty_conv)
  with assms(2) have "min_by path_key (filter (\<lambda>q. path_artifact q = i) paths) = Some p"
    by (simp add: select_primary_invalidation_path_def Let_def)
  then show ?thesis using min_by_SomeD by fastforce
qed

lemma primary_path_None: "select_primary_invalidation_path paths p = None \<longleftrightarrow> paths = []"
  by (auto simp: select_primary_invalidation_path_def Let_def split: option.splits)

end
