(* ===== verification/Invalidation.thy ===== *)
theory Invalidation
  imports Authority
begin

text \<open>
  What \<open>propagate_invalidation\<close> does to the graph. An artifact is affected when the superseded
  decision reaches it along authority edges through artifacts that share a changed scope, and
  it shares one itself. The loop marks exactly those, lists each once with a provenance path,
  and lists the neighbours it stopped at as preserved.
\<close>

subsection \<open>Affected artifacts\<close>

definition overlap :: "graph \<Rightarrow> scopes \<Rightarrow> string \<Rightarrow> bool" where
  "overlap g A i \<longleftrightarrow> (\<exists>a. get_artifact g i = Inr a \<and> art_scopes a \<inter> A \<noteq> {})"

definition spread :: "graph \<Rightarrow> scopes \<Rightarrow> string \<Rightarrow> string \<Rightarrow> bool" where
  "spread g A x y \<longleftrightarrow> flows g downstream_kinds x y \<and> overlap g A y"

definition affected_by :: "graph \<Rightarrow> scopes \<Rightarrow> string \<Rightarrow> string \<Rightarrow> bool" where
  "affected_by g A r i \<longleftrightarrow> (spread g A)\<^sup>*\<^sup>* r i \<and> overlap g A i"

text \<open>The neighbours where propagation stops.\<close>

definition spared_by :: "graph \<Rightarrow> scopes \<Rightarrow> string \<Rightarrow> string \<Rightarrow> bool" where
  "spared_by g A r i \<longleftrightarrow> \<not> overlap g A i \<and> (\<exists>x. (spread g A)\<^sup>*\<^sup>* r x \<and> flows g downstream_kinds x i)"

text \<open>A provenance path from the changed decision through the superseded one.\<close>

inductive trace :: "graph \<Rightarrow> scopes \<Rightarrow> string \<Rightarrow> string \<Rightarrow> string list \<Rightarrow> string \<Rightarrow> bool"
  for g A c r where
  start: "trace g A c r [c, r] r"
| extend: "trace g A c r ns x \<Longrightarrow> spread g A x y \<Longrightarrow> trace g A c r (ns @ [y]) y"

lemma trace_reaches: "trace g A c r ns x \<Longrightarrow> (spread g A)\<^sup>*\<^sup>* r x"
  by (induction rule: trace.induct) (auto intro: rtranclp.rtrancl_into_rtrancl)

lemma trace_ends: "trace g A c r ns x \<Longrightarrow> hd ns = c \<and> ns \<noteq> [] \<and> last ns = x"
  by (induction rule: trace.induct) (auto simp: hd_append)

lemma trace_nodes: "trace g A c r ns x \<Longrightarrow> y \<in> set ns \<Longrightarrow> y = c \<or> (spread g A)\<^sup>*\<^sup>* r y"
  by (induction rule: trace.induct) (auto dest: trace_reaches intro: rtranclp.rtrancl_into_rtrancl)

subsection \<open>Marking\<close>

lemma marked_idem [simp]: "marked A (marked A a) = marked A a"
  by (simp add: marked_def Let_def Un_assoc)

lemma marked_fields [simp]:
  "art_id (marked A a) = art_id a" "art_kind (marked A a) = art_kind a"
  "art_scopes (marked A a) = art_scopes a" "art_source (marked A a) = art_source a"
  "art_attrs (marked A a) = art_attrs a" "art_approval (marked A a) = art_approval a"
  "art_effective (marked A a) = art_effective a"
  by (simp_all add: marked_def Let_def)

lemma marked_validity:
  "art_validity (marked A a) \<noteq> Valid"
  "art_scopes a \<noteq> {} \<Longrightarrow> art_scopes a \<subseteq> A \<Longrightarrow> art_validity (marked A a) = Invalidated"
  by (auto simp: marked_def Let_def)

lemma flows_reach: "(spread g A)\<^sup>*\<^sup>* r x \<Longrightarrow> (flows g downstream_kinds)\<^sup>*\<^sup>* r x"
  by (induction rule: rtranclp_induct) (auto simp: spread_def intro: rtranclp.rtrancl_into_rtrancl)

lemma edges_of_set:
  "set (edges_of (edges_by_source es) x) = {e \<in> set es. edge_source e = x}"
proof -
  have "dict_get (fold (\<lambda>e d. dict_append (edge_source e) e d) es d) x =
      (let new = filter (\<lambda>e. edge_source e = x) es in
       if new = [] then dict_get d x
       else Some ((case dict_get d x of None \<Rightarrow> [] | Some vs \<Rightarrow> vs) @ new))" for d
    by (induction es arbitrary: d) (auto simp: Let_def dict_append_def dict_simps split: option.splits)
  then show ?thesis
    by (auto simp: edges_of_def edges_by_source_def Let_def filter_empty_conv split: option.splits)
qed

subsection \<open>The invariant of the loop\<close>

definition core_inv ::
  "graph \<Rightarrow> scopes \<Rightarrow> string \<Rightarrow> string \<Rightarrow> propagation \<Rightarrow> bool"
where
  "core_inv g A c r p \<longleftrightarrow>
     wf_graph (pr_graph p) \<and> g_version (pr_graph p) = g_version g \<and> g_edges (pr_graph p) = g_edges g
   \<and> (\<forall>i. get_artifact (pr_graph p) i =
          map_sum id (if i \<in> set (pr_affected p) then marked A else id) (get_artifact g i))
   \<and> (\<forall>i d. dict_get (pr_by_id p) i = Some d \<longrightarrow> (\<exists>a. get_artifact g i = Inr a
          \<and> d = (if i \<in> set (pr_affected p) then marked A a else a)))
   \<and> (\<forall>i. (flows g downstream_kinds)\<^sup>*\<^sup>* r i \<longrightarrow> dict_get (pr_by_id p) i \<noteq> None)
   \<and> r \<in> pr_visited p \<and> fst ` set (pr_queue p) \<subseteq> pr_visited p
   \<and> (\<forall>x\<in>pr_visited p. (spread g A)\<^sup>*\<^sup>* r x)
   \<and> set (pr_affected p) = {x \<in> pr_visited p. overlap g A x} \<and> distinct (pr_affected p)
   \<and> (\<forall>y\<in>set (pr_preserved p). \<not> overlap g A y \<and> (\<exists>x\<in>pr_visited p. flows g downstream_kinds x y))
   \<and> distinct (pr_preserved p)
   \<and> map path_artifact (pr_paths p) = pr_affected p
   \<and> (\<forall>q\<in>set (pr_paths p). trace g A c r (path_nodes q) (path_artifact q))
   \<and> (\<forall>(i, ns)\<in>set (pr_queue p). trace g A c r ns i)"

definition handled :: "graph \<Rightarrow> scopes \<Rightarrow> string \<Rightarrow> propagation \<Rightarrow> bool" where
  "handled g A y p \<longleftrightarrow> (if overlap g A y then y \<in> pr_visited p else y \<in> set (pr_preserved p))"

definition grows :: "propagation \<Rightarrow> propagation \<Rightarrow> bool" where
  "grows p p' \<longleftrightarrow> pr_visited p \<subseteq> pr_visited p' \<and> set (pr_preserved p) \<subseteq> set (pr_preserved p')
     \<and> fst ` set (pr_queue p') = fst ` set (pr_queue p) \<union> (pr_visited p' - pr_visited p)"

lemma handled_grows: "handled g A y p \<Longrightarrow> grows p p' \<Longrightarrow> handled g A y p'"
  by (auto simp: handled_def grows_def split: if_splits)

lemma grows_trans: "grows p q \<Longrightarrow> grows q s \<Longrightarrow> grows p s"
  by (auto simp: grows_def)

lemma grows_refl [simp]: "grows p p"
  by (simp add: grows_def)

lemma append_new_set [simp]: "set (append_new x xs) = insert x (set xs)"
  by (auto simp: append_new_def)

lemma append_new_distinct [simp]: "distinct (append_new x xs) = distinct xs"
  by (auto simp: append_new_def)

lemma core_inv_preserved:
  assumes "pr_graph p' = pr_graph p" "pr_by_id p' = pr_by_id p" "pr_affected p' = pr_affected p"
    "pr_visited p' = pr_visited p" "pr_paths p' = pr_paths p" and q: "set (pr_queue p') \<subseteq> set (pr_queue p)"
    and "\<forall>y\<in>set (pr_preserved p'). \<not> overlap g A y \<and> (\<exists>x\<in>pr_visited p. flows g downstream_kinds x y)"
    and "distinct (pr_preserved p')" and inv: "core_inv g A c r p"
  shows "core_inv g A c r p'"
proof -
  have "fst ` set (pr_queue p') \<subseteq> pr_visited p" "\<forall>(i, ns)\<in>set (pr_queue p'). trace g A c r ns i"
    using inv q unfolding core_inv_def by blast+
  then show ?thesis
    using assms(7-) unfolding core_inv_def assms(1-5) by - (elim conjE, intro conjI; assumption)
qed

lemma visit_edge_step:
  assumes g: "wf_graph g" and inv: "core_inv g A c r p"
    and e: "flows g downstream_kinds x (edge_target e)" and x: "x \<in> pr_visited p"
    and path: "trace g A c r path x"
  shows "\<exists>p'. visit_edge A path e p = (Inr (), p') \<and> core_inv g A c r p' \<and> grows p p'
    \<and> handled g A (edge_target e) p'"
proof -
  let ?t = "edge_target e"
  note I = inv [unfolded core_inv_def]
  have reach: "(flows g downstream_kinds)\<^sup>*\<^sup>* r ?t"
    using trace_reaches [OF path] flows_reach e rtranclp.rtrancl_into_rtrancl by metis
  then obtain d where d: "dict_get (pr_by_id p) ?t = Some d" using I by blast
  then obtain a where a: "get_artifact g ?t = Inr a"
      "d = (if ?t \<in> set (pr_affected p) then marked A a else a)" using I by blast
  have id: "art_id d = ?t" and sc: "art_scopes d = art_scopes a" using wf_graph_id [OF g a(1)] a(2) by auto
  show ?thesis
  proof (cases "art_scopes a \<inter> A = {}")
    case True
    then have no: "\<not> overlap g A ?t" using a(1) by (simp add: overlap_def)
    let ?p = "p\<lparr>pr_evidence := record_evidence (art_source d) (record_evidence (edge_evidence e) (pr_evidence p)),
                pr_preserved := append_new ?t (pr_preserved p)\<rparr>"
    have "visit_edge A path e p = (Inr (), ?p)"
      using d id sc True by (simp add: visit_edge_def Let_def)
    moreover have "core_inv g A c r ?p"
      by (rule core_inv_preserved [OF _ _ _ _ _ _ _ _ inv]) (use I no e x in auto)
    moreover have "grows p ?p" "handled g A ?t ?p" using no by (auto simp: grows_def handled_def)
    ultimately show ?thesis by blast
  next
    case False
    then have yes: "overlap g A ?t" using a(1) by (simp add: overlap_def)
    have iff: "?t \<in> set (pr_affected p) \<longleftrightarrow> ?t \<in> pr_visited p" using I yes by blast
    have sp: "spread g A x ?t" using e yes by (simp add: spread_def)
    then have rt: "(spread g A)\<^sup>*\<^sup>* r ?t" using trace_reaches [OF path] rtranclp.rtrancl_into_rtrancl by metis
    have tr: "trace g A c r (path @ [?t]) ?t" using path sp by (rule trace.extend)
    have wfp: "wf_graph (pr_graph p)" using I by blast
    have marks: "\<And>i. get_artifact (pr_graph p) i =
        map_sum id (if i \<in> set (pr_affected p) then marked A else id) (get_artifact g i)" using I by blast
    have by_id_p: "\<exists>a. get_artifact g i = Inr a \<and> b = (if i \<in> set (pr_affected p) then marked A a else a)"
      if "dict_get (pr_by_id p) i = Some b" for i b
      using I that by blast
    have "d = a \<or> d = marked A a" using a(2) by simp
    from mem.rewrite_one [OF g wfp marks a(1) marked_idem marked_fields(1) this]
    obtain g' where g': "update_artifact (marked A d) (pr_graph p) = (Inr (), g')" "wf_graph g'"
        "g_version g' = g_version (pr_graph p)" "g_edges g' = g_edges (pr_graph p)"
        "\<forall>j. get_artifact g' j = map_sum id (if j \<in> insert ?t (set (pr_affected p)) then marked A else id)
           (get_artifact g j)"
      by blast
    have mark: "mark_artifact d A (pr_graph p) = (Inr (marked A d, art_scopes d \<inter> A), g')"
      using g'(1) False sc by (simp add: mark_artifact_def bind_op_run)
    let ?p = "p\<lparr>pr_evidence := record_evidence (art_source d) (record_evidence (edge_evidence e) (pr_evidence p)),
                pr_graph := g', pr_by_id := dict_set ?t (marked A d) (pr_by_id p)\<rparr>"
    let ?q = "if ?t \<in> pr_visited p then ?p
      else ?p\<lparr>pr_affected := pr_affected p @ [?t],
             pr_paths := pr_paths p @ [\<lparr>path_artifact = ?t, path_nodes = path @ [?t]\<rparr>],
             pr_visited := insert ?t (pr_visited p),
             pr_queue := pr_queue p @ [(?t, path @ [?t])]\<rparr>"
    have run: "visit_edge A path e p = (Inr (), ?q)"
      using d id sc False mark iff by (cases "?t \<in> pr_visited p") (simp_all add: visit_edge_def Let_def)
    have md: "marked A d = marked A a" using a(2) by simp
    have by_id: "dict_get (pr_by_id ?q) i = (if i = ?t then Some (marked A a) else dict_get (pr_by_id p) i)" for i
      by (simp add: dict_simps md)
    have aff: "set (pr_affected ?q) = insert ?t (set (pr_affected p))" using iff by auto
    have vis: "pr_visited ?q = insert ?t (pr_visited p)" by auto
    have "core_inv g A c r ?q"
      unfolding core_inv_def
    proof (intro conjI)
      show "wf_graph (pr_graph ?q)" "g_version (pr_graph ?q) = g_version g" "g_edges (pr_graph ?q) = g_edges g"
        using g' I by simp_all
      show "\<forall>i. get_artifact (pr_graph ?q) i =
          map_sum id (if i \<in> set (pr_affected ?q) then marked A else id) (get_artifact g i)"
        unfolding aff using g'(5) by simp
      show "\<forall>i d. dict_get (pr_by_id ?q) i = Some d \<longrightarrow> (\<exists>a. get_artifact g i = Inr a
          \<and> d = (if i \<in> set (pr_affected ?q) then marked A a else a))"
        unfolding aff by_id
      proof (intro allI impI)
        fix i b
        assume b: "(if i = ?t then Some (marked A a) else dict_get (pr_by_id p) i) = Some b"
        show "\<exists>a. get_artifact g i = Inr a \<and> b = (if i \<in> insert ?t (set (pr_affected p)) then marked A a else a)"
          using b a(1) by_id_p [of i b] by (cases "i = ?t") simp_all
      qed
      show "\<forall>i. (flows g downstream_kinds)\<^sup>*\<^sup>* r i \<longrightarrow> dict_get (pr_by_id ?q) i \<noteq> None"
        unfolding by_id using I by simp
      show "r \<in> pr_visited ?q" "\<forall>x\<in>pr_visited ?q. (spread g A)\<^sup>*\<^sup>* r x"
        unfolding vis using I rt by blast+
      show "fst ` set (pr_queue ?q) \<subseteq> pr_visited ?q" using I by auto
      show "set (pr_affected ?q) = {x \<in> pr_visited ?q. overlap g A x}"
        unfolding aff vis using I yes by blast
      show "distinct (pr_affected ?q)" using I iff by simp
      show "\<forall>y\<in>set (pr_preserved ?q). \<not> overlap g A y \<and> (\<exists>x\<in>pr_visited ?q. flows g downstream_kinds x y)"
        unfolding vis using I by simp
      show "distinct (pr_preserved ?q)" "map path_artifact (pr_paths ?q) = pr_affected ?q"
        using I by simp_all
      show "\<forall>q\<in>set (pr_paths ?q). trace g A c r (path_nodes q) (path_artifact q)"
        "\<forall>(i, ns)\<in>set (pr_queue ?q). trace g A c r ns i"
        using I tr by auto
    qed
    moreover have "grows p ?q" "handled g A ?t ?q" using yes by (auto simp: grows_def handled_def)
    ultimately show ?thesis using run by blast
  qed
qed

lemma visit_edges:
  assumes g: "wf_graph g" and path: "trace g A c r path x"
  shows "\<lbrakk>core_inv g A c r p; x \<in> pr_visited p; \<forall>e\<in>set es. flows g downstream_kinds x (edge_target e)\<rbrakk>
    \<Longrightarrow> \<exists>p'. for_op (visit_edge A path) es p = (Inr (), p') \<and> core_inv g A c r p' \<and> grows p p'
          \<and> (\<forall>e\<in>set es. handled g A (edge_target e) p')"
proof (induction es arbitrary: p)
  case Nil
  then show ?case by simp
next
  case (Cons e es)
  then obtain p1 where p1: "visit_edge A path e p = (Inr (), p1)" "core_inv g A c r p1" "grows p p1"
      "handled g A (edge_target e) p1"
    using visit_edge_step [OF g _ _ _ path, of p e] by auto
  have "x \<in> pr_visited p1" using p1(3) Cons.prems(2) by (auto simp: grows_def)
  with Cons.IH [OF p1(2)] Cons.prems(3) obtain p2 where p2: "for_op (visit_edge A path) es p1 = (Inr (), p2)"
      "core_inv g A c r p2" "grows p1 p2" "\<forall>e\<in>set es. handled g A (edge_target e) p2"
    by auto
  have "for_op (visit_edge A path) (e # es) p = (Inr (), p2)" using p1(1) p2(1) by (simp add: bind_op_run)
  moreover have "\<forall>e'\<in>set (e # es). handled g A (edge_target e') p2"
    using p2(4) handled_grows [OF p1(4) p2(3)] by simp
  ultimately show ?case using p2(2) grows_trans [OF p1(3) p2(3)] by blast
qed

definition loop_inv :: "graph \<Rightarrow> scopes \<Rightarrow> string \<Rightarrow> string \<Rightarrow> propagation \<Rightarrow> bool" where
  "loop_inv g A c r p \<longleftrightarrow> core_inv g A c r p
     \<and> (\<forall>x\<in>pr_visited p - fst ` set (pr_queue p). \<forall>y. flows g downstream_kinds x y \<longrightarrow> handled g A y p)"

lemma core_inv_pop:
  assumes "core_inv g A c r p" and "pr_queue p = q # rest"
  shows "core_inv g A c r (p\<lparr>pr_queue := rest\<rparr>)"
proof -
  have "\<forall>y\<in>set (pr_preserved p). \<not> overlap g A y \<and> (\<exists>x\<in>pr_visited p. flows g downstream_kinds x y)"
    "distinct (pr_preserved p)"
    using assms(1) unfolding core_inv_def by blast+
  then show ?thesis by (intro core_inv_preserved [OF _ _ _ _ _ _ _ _ assms(1)]) (use assms(2) in auto)
qed

text \<open>The grouped edges are the outgoing ones of every artifact in reach.\<close>

definition groups :: "graph \<Rightarrow> string \<Rightarrow> edge list dict \<Rightarrow> bool" where
  "groups g r by_src \<longleftrightarrow> (\<forall>x. (flows g downstream_kinds)\<^sup>*\<^sup>* r x \<longrightarrow>
     set (edges_of by_src x) = {e \<in> set (g_edges g). edge_source e = x \<and> edge_kind e \<in> downstream_kinds})"

lemma propagate_loop_inv:
  "\<lbrakk>loop_inv g A c r p; wf_graph g; groups g r by_src\<rbrakk> \<Longrightarrow>
   \<exists>p'. propagate_loop A by_src p = (Inr (), p') \<and> loop_inv g A c r p' \<and> pr_queue p' = []"
proof (induction A by_src p rule: propagate_loop.induct)
  case (1 A by_src p)
  show ?case
  proof (cases "pr_queue p")
    case Nil
    then have "propagate_loop A by_src p = (Inr (), p)" by (subst propagate_loop.simps) simp
    with Nil "1.prems"(1) show ?thesis by blast
  next
    case (Cons q rest)
    obtain x path where q: "q = (x, path)" by fastforce
    let ?p = "p\<lparr>pr_queue := rest\<rparr>"
    have core: "core_inv g A c r p" and closed: "\<forall>x\<in>pr_visited p - fst ` set (pr_queue p).
        \<forall>y. flows g downstream_kinds x y \<longrightarrow> handled g A y p"
      using "1.prems"(1) unfolding loop_inv_def by blast+
    have path: "trace g A c r path x" and x: "x \<in> pr_visited p"
      using core Cons q unfolding core_inv_def by auto
    have es: "set (edges_of by_src x) = {e \<in> set (g_edges g). edge_source e = x \<and> edge_kind e \<in> downstream_kinds}"
      using "1.prems"(3) flows_reach [OF trace_reaches [OF path]] unfolding groups_def by blast
    then have "\<forall>e\<in>set (edges_of by_src x). flows g downstream_kinds x (edge_target e)"
      by (auto simp: flows_def)
    moreover have "x \<in> pr_visited ?p" using x by simp
    ultimately obtain p' where p': "for_op (visit_edge A path) (edges_of by_src x) ?p = (Inr (), p')" "core_inv g A c r p'"
        "grows ?p p'" "\<forall>e\<in>set (edges_of by_src x). handled g A (edge_target e) p'"
      using visit_edges [OF "1.prems"(2) path core_inv_pop [OF core Cons]] by blast
    have "handled g A y p'" if y: "z \<in> pr_visited p' - fst ` set (pr_queue p')" "flows g downstream_kinds z y" for z y
    proof (cases "z = x")
      case True
      with y(2) es p'(4) show ?thesis by (auto simp: flows_def)
    next
      case False
      with y(1) p'(3) Cons q have "z \<in> pr_visited p - fst ` set (pr_queue p)" by (auto simp: grows_def)
      with closed y(2) have "handled g A y ?p" by (simp add: handled_def)
      then show ?thesis using p'(3) by (rule handled_grows)
    qed
    with p'(2) have inv: "loop_inv g A c r p'" by (auto simp: loop_inv_def)
    have "propagate_loop A by_src p = propagate_loop A by_src p'"
      using Cons q p'(1) by (subst propagate_loop.simps) (simp add: bind_op_run)
    with "1.IH" [OF Cons q [symmetric] p'(1) inv "1.prems"(2,3)] show ?thesis by simp
  qed
qed

lemma loop_inv_done:
  assumes "loop_inv g A c r p" and "pr_queue p = []"
  shows "set (pr_affected p) = {i. affected_by g A r i}" and "set (pr_preserved p) = {i. spared_by g A r i}"
proof -
  have core: "core_inv g A c r p" and closed: "\<And>x y. x \<in> pr_visited p \<Longrightarrow> flows g downstream_kinds x y
      \<Longrightarrow> handled g A y p"
    using assms unfolding loop_inv_def by auto
  have sound: "\<forall>x\<in>pr_visited p. (spread g A)\<^sup>*\<^sup>* r x" and r: "r \<in> pr_visited p"
    and aff: "set (pr_affected p) = {x \<in> pr_visited p. overlap g A x}"
    and pre: "\<forall>y\<in>set (pr_preserved p). \<not> overlap g A y \<and> (\<exists>x\<in>pr_visited p. flows g downstream_kinds x y)"
    using core unfolding core_inv_def by blast+
  have "x \<in> pr_visited p" if "(spread g A)\<^sup>*\<^sup>* r x" for x
    using that
  proof induction
    case base
    then show ?case using r .
  next
    case (step y z)
    then show ?case using closed [of y z] by (auto simp: spread_def handled_def)
  qed
  with sound have vis: "pr_visited p = {x. (spread g A)\<^sup>*\<^sup>* r x}" by blast
  show "set (pr_affected p) = {i. affected_by g A r i}"
    using aff vis by (auto simp: affected_by_def)
  show "set (pr_preserved p) = {i. spared_by g A r i}"
    using pre vis closed unfolding spared_by_def handled_def by fastforce
qed

subsection \<open>A whole propagation\<close>

lemma update_present:
  assumes "wf_graph g" and "get_artifact g r = Inr a" and "art_id b = r"
  shows "\<exists>g'. update_artifact b g = (Inr (), g')
    \<and> (\<forall>i. get_artifact g' i = (if i = r then Inr b else get_artifact g i))
    \<and> wf_graph g' \<and> g_version g' = g_version g \<and> g_edges g' = g_edges g"
proof -
  obtain g' where g': "update_artifact b g = (Inr (), g')"
    using mem.update_known [OF assms(1)] assms(2,3) by metis
  with mem.get_update [OF assms(1) g'] mem.update_frame [OF assms(1) g'] assms(3) show ?thesis by auto
qed

lemma mark_superseded:
  assumes g: "wf_graph g" and a: "get_artifact g r = Inr a"
  shows "\<exists>b inter g'. mark_artifact a A g = (Inr (b, inter), g') \<and> wf_graph g'
    \<and> g_version g' = g_version g \<and> g_edges g' = g_edges g
    \<and> (\<forall>i. get_artifact g' i = map_sum id (if i = r \<and> overlap g A r then marked A else id) (get_artifact g i))"
proof (cases "art_scopes a \<inter> A = {}")
  case True
  then have "\<not> overlap g A r" using a by (simp add: overlap_def)
  moreover have "map_sum id id x = x" for x :: "artifact result" by (simp add: sum.map_id)
  ultimately show ?thesis using True g by (simp add: mark_artifact_def)
next
  case False
  then have ov: "overlap g A r" using a by (simp add: overlap_def)
  have id: "art_id (marked A a) = r" using wf_graph_id [OF g a] by simp
  obtain g' where g': "update_artifact (marked A a) g = (Inr (), g')"
      "\<forall>i. get_artifact g' i = (if i = r then Inr (marked A a) else get_artifact g i)"
      "wf_graph g'" "g_version g' = g_version g" "g_edges g' = g_edges g"
    using update_present [OF g a id] by blast
  have "mark_artifact a A g = (Inr (marked A a, art_scopes a \<inter> A), g')"
    using False g'(1) by (simp add: mark_artifact_def bind_op_run)
  moreover have "get_artifact g' i = map_sum id (if i = r \<and> overlap g A r then marked A else id) (get_artifact g i)" for i
    using g'(2) a ov by (cases "i = r") (simp_all add: sum.map_id)
  ultimately show ?thesis using g'(3-5) by blast
qed

lemma flows_cong: "g_edges g' = g_edges g \<Longrightarrow> flows g' K = flows g K"
  by (simp add: flows_def fun_eq_iff)

lemma dict_of_artifacts:
  assumes "distinct (map art_id as)"
  shows "dict_get (dict_of (map (\<lambda>a. (art_id a, a)) as)) i = Some d \<longleftrightarrow> d \<in> set as \<and> art_id d = i"
proof -
  have wf: "wf_dict (map (\<lambda>a. (art_id a, a)) as)" using assms by (simp add: comp_def)
  then have "dict_get (dict_of (map (\<lambda>a. (art_id a, a)) as)) i = map_of (map (\<lambda>a. (art_id a, a)) as) i"
    by (simp add: dict_get_of map_of_rev_distinct)
  with wf show ?thesis by (auto simp: dict_get_set_mem)
qed

lemma start_inv:
  assumes g: "wf_graph g" and a: "get_artifact g r = Inr a" and g1: "wf_graph g1"
    and same: "g_version g1 = g_version g" "g_edges g1 = g_edges g"
    and marks: "\<And>i. get_artifact g1 i =
      map_sum id (if i = r \<and> overlap g A r then marked A else id) (get_artifact g i)"
    and sub: "downstream_subgraph g1 r downstream_kinds = Inr (as, es)"
  shows "loop_inv g A (art_id c) r (start_propagation c a A g1 (as, es))" (is "loop_inv _ _ _ _ ?p")
    and "groups g r (edges_by_source es)"
proof -
  have id: "art_id a = r" using wf_graph_id [OF g a] .
  have hit: "overlap g A r \<longleftrightarrow> art_scopes a \<inter> A \<noteq> {}" using a by (simp add: overlap_def)
  have in1: "in_graph g1 r" using marks [of r] a by (simp add: in_graph_get)
  have fl: "flows g1 downstream_kinds = flows g downstream_kinds" by (rule flows_cong [OF same(2)])
  have as: "set as = {a. \<exists>x. (flows g downstream_kinds)\<^sup>*\<^sup>* r x \<and> get_artifact g1 x = Inr a}"
      "distinct (map art_id as)"
    and es: "set es = {e\<in>set (g_edges g). edge_kind e \<in> downstream_kinds \<and> (flows g downstream_kinds)\<^sup>*\<^sup>* r (edge_source e)}"
    using downstream_subgraph_spec [OF g1 in1, of downstream_kinds, unfolded fl same(2) sub] by simp_all
  show "groups g r (edges_by_source es)"
    by (auto simp: groups_def edges_of_set es)
  have aff: "set (pr_affected ?p) = {x \<in> {r}. overlap g A x}"
    using hit by (auto simp: start_propagation_def Let_def id)
  have by_id: "dict_get (pr_by_id ?p) i = Some d \<longleftrightarrow>
      (flows g downstream_kinds)\<^sup>*\<^sup>* r i \<and> get_artifact g1 i = Inr d" for i d
    using as wf_graph_id [OF g1] by (auto simp: start_propagation_def Let_def dict_of_artifacts)
  have "core_inv g A (art_id c) r ?p"
    unfolding core_inv_def
  proof (intro conjI)
    show "\<forall>i. get_artifact (pr_graph ?p) i =
        map_sum id (if i \<in> set (pr_affected ?p) then marked A else id) (get_artifact g i)"
      unfolding aff using marks by (simp add: start_propagation_def Let_def)
    show "\<forall>i d. dict_get (pr_by_id ?p) i = Some d \<longrightarrow> (\<exists>a. get_artifact g i = Inr a
        \<and> d = (if i \<in> set (pr_affected ?p) then marked A a else a))"
      unfolding aff by_id using marks by (auto simp: map_sum_def split: sum.splits if_splits)
    have "(flows g downstream_kinds)\<^sup>*\<^sup>* r i \<Longrightarrow> in_graph g1 i" for i
    proof (induction rule: rtranclp_induct)
      case (step y z)
      then obtain e where "e \<in> set (g_edges g1)" "edge_target e = z" using same(2) by (auto simp: flows_def)
      then show ?case using wf_graph_edge [OF g1] by blast
    qed (fact in1)
    then show "\<forall>i. (flows g downstream_kinds)\<^sup>*\<^sup>* r i \<longrightarrow> dict_get (pr_by_id ?p) i \<noteq> None"
      using by_id by (fastforce simp: in_graph_get)
    show "set (pr_affected ?p) = {x \<in> pr_visited ?p. overlap g A x}"
      unfolding aff by (simp add: start_propagation_def Let_def id)
  qed (use same g1 id in \<open>auto simp: start_propagation_def Let_def intro: trace.start\<close>)
  then show "loop_inv g A (art_id c) r ?p"
    by (simp add: loop_inv_def start_propagation_def Let_def)
qed

text \<open>Every id that the report reads is stored.\<close>

lemma affected_stored: "affected_by g A r i \<Longrightarrow> \<exists>a. get_artifact g i = Inr a"
  by (auto simp: affected_by_def overlap_def)

lemma spared_stored: "wf_graph g \<Longrightarrow> spared_by g A r i \<Longrightarrow> \<exists>a. get_artifact g i = Inr a"
  by (auto simp: spared_by_def flows_def dest: wf_graph_edge simp: in_graph_get)

lemma reached_stored:
  "wf_graph g \<Longrightarrow> get_artifact g r = Inr a \<Longrightarrow> (spread g A)\<^sup>*\<^sup>* r x \<Longrightarrow> \<exists>b. get_artifact g x = Inr b"
  by (erule rtranclp.cases) (auto simp: spread_def overlap_def)

lemma map_r_total: "(\<And>x. x \<in> set xs \<Longrightarrow> \<exists>y. f x = Inr y) \<Longrightarrow> \<exists>ys. map_r f xs = Inr ys"
  by (induction xs) (auto simp: bind_r_def split: sum.splits, fastforce+)

lemma map_r_Inr_map: "map_r f xs = Inr ys \<Longrightarrow> \<forall>x\<in>set xs. f x = Inr (h x) \<Longrightarrow> ys = map h xs"
  by (induction xs arbitrary: ys) auto

definition the_artifact :: "graph \<Rightarrow> string \<Rightarrow> artifact" where
  "the_artifact g i = (case get_artifact g i of Inr a \<Rightarrow> a | Inl _ \<Rightarrow> undefined)"

text \<open>What a report says of the graph it was made on.\<close>

definition report_ok :: "graph \<Rightarrow> scopes \<Rightarrow> string \<Rightarrow> string \<Rightarrow> invalidation_report \<Rightarrow> bool" where
  "report_ok g A c r rep \<longleftrightarrow>
     rep_changed rep = c \<and> rep_superseded rep = r \<and> rep_scopes rep = A
   \<and> distinct (rep_affected rep) \<and> set (rep_affected rep) = {i. affected_by g A r i}
   \<and> distinct (rep_preserved rep) \<and> set (rep_preserved rep) = {i. spared_by g A r i}
   \<and> map path_artifact (rep_paths rep) = rep_affected rep
   \<and> (\<forall>q\<in>set (rep_paths rep). trace g A c r (path_nodes q) (path_artifact q))
   \<and> rep_stopped_work rep =
       filter (\<lambda>i. art_kind (the_artifact g i) \<in> stoppable_work_kinds) (rep_affected rep)
   \<and> rep_invalidated_tasks rep =
       filter (\<lambda>i. art_kind (the_artifact g i) = Task
         \<and> art_validity (marked A (the_artifact g i)) = Invalidated) (rep_affected rep)
   \<and> rep_needs_review rep =
       filter (\<lambda>i. art_validity (marked A (the_artifact g i)) = Needs_Review) (rep_affected rep)
   \<and> rep_preserved_tasks rep =
       filter (\<lambda>i. art_kind (the_artifact g i) = Task) (rep_preserved rep)"

lemma build_report_ok:
  assumes g: "wf_graph g" and a: "get_artifact g r = Inr a"
    and inv: "loop_inv g A (art_id c) r p" and q: "pr_queue p = []"
  shows "\<exists>rep. build_report c r A p = Inr rep \<and> report_ok g A (art_id c) r rep
    \<and> rep_version rep = version_label g"
proof -
  have core: "core_inv g A (art_id c) r p" using inv by (simp add: loop_inv_def)
  let ?h = "pr_graph p"
  have ver: "version_label ?h = version_label g"
    and marks: "\<And>i. get_artifact ?h i =
      map_sum id (if i \<in> set (pr_affected p) then marked A else id) (get_artifact g i)"
    and dist: "distinct (pr_affected p)" "distinct (pr_preserved p)"
    and paths: "map path_artifact (pr_paths p) = pr_affected p"
      "\<forall>q\<in>set (pr_paths p). trace g A (art_id c) r (path_nodes q) (path_artifact q)"
    using core unfolding core_inv_def version_label_def by auto
  note sets = loop_inv_done [OF inv q]
  let ?M = "\<lambda>i. marked A (the_artifact g i)"
  have getA: "get_artifact ?h i = Inr (?M i) \<and> art_id (?M i) = i" if "i \<in> set (pr_affected p)" for i
    using that affected_stored [of g A r i] sets(1) marks [of i] wf_graph_id [OF g]
    by (auto simp: the_artifact_def)
  have getP: "get_artifact ?h i = Inr (the_artifact g i)" if "i \<in> set (pr_preserved p)" for i
  proof -
    have "spared_by g A r i" using that sets(2) by simp
    then have "i \<notin> set (pr_affected p)" using sets(1) by (simp add: spared_by_def affected_by_def)
    then show ?thesis using spared_stored [OF g \<open>spared_by g A r i\<close>] marks [of i]
      by (auto simp: the_artifact_def)
  qed
  have 1: "get_all ?h (pr_affected p) = Inr (map ?M (pr_affected p))"
    unfolding get_all_def using getA by (intro map_r_all_Inr) blast
  have 2: "get_all ?h (pr_preserved p) = Inr (map (the_artifact g) (pr_preserved p))"
    unfolding get_all_def using getP by (intro map_r_all_Inr) blast
  let ?ids = "case select_primary_invalidation_path (pr_paths p) None of
      None \<Rightarrow> [art_id c] | Some q \<Rightarrow> path_nodes q"
  have "\<exists>b. (if i = art_id c then Inr c else get_artifact ?h i) = Inr b" if i: "i \<in> set ?ids" for i
  proof (cases "i = art_id c")
    case False
    with i obtain q where "select_primary_invalidation_path (pr_paths p) None = Some q" "i \<in> set (path_nodes q)"
      by (auto split: option.splits)
    then have "(spread g A)\<^sup>*\<^sup>* r i"
      using primary_path_longest trace_nodes paths(2) False by blast
    then show ?thesis using reached_stored [OF g a] marks [of i] False by fastforce
  qed simp
  then obtain chain where 3: "map_r (\<lambda>i. if i = art_id c then Inr c else get_artifact ?h i) ?ids = Inr chain"
    using map_r_total [of ?ids "\<lambda>i. if i = art_id c then Inr c else get_artifact ?h i"] by blast
  have ids: "map art_id (filter (\<lambda>a. Q a) (map ?M (pr_affected p))) = filter (\<lambda>i. Q (?M i)) (pr_affected p)" for Q
  proof -
    have "map (\<lambda>i. art_id (?M i)) (filter (\<lambda>i. Q (?M i)) (pr_affected p)) = filter (\<lambda>i. Q (?M i)) (pr_affected p)"
      using getA by (intro map_idI) auto
    then show ?thesis by (simp add: filter_map comp_def)
  qed
  have zips: "map fst (filter (\<lambda>(i, a). Q a) (zip xs (map f xs))) = filter (\<lambda>i. Q (f i)) xs"
    for Q :: "artifact \<Rightarrow> bool" and f and xs :: "string list"
    by (induction xs) auto
  show ?thesis
    unfolding build_report_def Let_def 1 2 3 bind_r_simps
    using ids [of "\<lambda>a. art_kind a \<in> stoppable_work_kinds"]
      ids [of "\<lambda>a. art_kind a = Task \<and> art_validity a = Invalidated"]
      ids [of "\<lambda>a. art_validity a = Needs_Review"] zips dist paths sets ver
    by (simp add: report_ok_def)
qed

theorem propagate_invalidation_spec:
  assumes g: "wf_graph g" and a: "get_artifact g r = Inr a"
  shows "\<exists>rep g'. propagate_invalidation c r A g = (Inr rep, g')
    \<and> report_ok g A (art_id c) r rep \<and> rep_version rep = version_label g
    \<and> wf_graph g' \<and> g_version g' = g_version g \<and> g_edges g' = g_edges g
    \<and> (\<forall>i. get_artifact g' i = map_sum id (if affected_by g A r i then marked A else id) (get_artifact g i))"
proof -
  have id: "art_id a = r" using wf_graph_id [OF g a] .
  from mark_superseded [OF g a, of A] obtain b inter g1 where m: "mark_artifact a A g = (Inr (b, inter), g1)"
    and g1: "wf_graph g1" "g_version g1 = g_version g" "g_edges g1 = g_edges g"
      "\<And>i. get_artifact g1 i = map_sum id (if i = r \<and> overlap g A r then marked A else id) (get_artifact g i)"
    by blast
  have "in_graph g1 r" using g1(4) [of r] a by (simp add: in_graph_get)
  from downstream_subgraph_spec [OF g1(1) this, of downstream_kinds]
  obtain as es where sub: "downstream_subgraph g1 r downstream_kinds = Inr (as, es)" by blast
  let ?p = "start_propagation c a A g1 (as, es)"
  from start_inv(1) [OF g a g1 sub, of c] start_inv(2) [OF g a g1 sub] propagate_loop_inv [OF _ g, of A "art_id c" r ?p "edges_by_source es"]
  obtain p where p: "propagate_loop A (edges_by_source es) ?p = (Inr (), p)"
      "loop_inv g A (art_id c) r p" "pr_queue p = []" by blast
  from build_report_ok [OF g a p(2,3)] obtain rep where rep: "build_report c r A p = Inr rep"
      "report_ok g A (art_id c) r rep" "rep_version rep = version_label g" by blast
  have "propagate_invalidation c r A g = (Inr rep, pr_graph p)"
    using a m id sub p(1) rep(1) by (simp add: propagate_invalidation_def bind_op_def)
  moreover have "wf_graph (pr_graph p) \<and> g_version (pr_graph p) = g_version g \<and> g_edges (pr_graph p) = g_edges g
      \<and> (\<forall>i. get_artifact (pr_graph p) i =
           map_sum id (if i \<in> set (pr_affected p) then marked A else id) (get_artifact g i))"
    using p(2) unfolding loop_inv_def core_inv_def by blast
  ultimately show ?thesis
    using rep(2,3) loop_inv_done(1) [OF p(2,3)] by auto
qed

end
