(* ===== verification/Decision_Change.thy ===== *)
theory Decision_Change
  imports Invalidation
begin

text \<open>
  The theorems about \<open>apply_decision_change\<close>: when a change is applied, what an applied change
  does to the stored graph and says in its report, and that every other outcome leaves the
  authority as it was.
\<close>

subsection \<open>Adding the decision changes no downstream relation\<close>

definition supersedes_edge :: "decision_mutation \<Rightarrow> edge" where
  "supersedes_edge m = \<lparr>edge_source = art_id (mut_decision m), edge_target = mut_supersedes m,
     edge_kind = SUPERSEDES, edge_scopes = mut_scopes m, edge_evidence = art_source (mut_decision m)\<rparr>"

definition with_decision :: "decision_mutation \<Rightarrow> graph \<Rightarrow> graph" where
  "with_decision m g = g\<lparr>g_artifacts := dict_set (art_id (mut_decision m)) (mut_decision m) (g_artifacts g),
     g_edges := g_edges g @ [supersedes_edge m], g_version := g_version g + 1\<rparr>"

lemma with_decision_simps [simp]:
  "g_version (with_decision m g) = g_version g + 1"
  "g_edges (with_decision m g) = g_edges g @ [supersedes_edge m]"
  "g_in_txn (with_decision m g) = g_in_txn g"
  "get_artifact (with_decision m g) i =
     (if i = art_id (mut_decision m) then Inr (mut_decision m) else get_artifact g i)"
  by (simp_all add: with_decision_def get_artifact_def dict_simps)

lemma wf_with_decision:
  assumes "wf_graph g" and "in_graph g (mut_supersedes m)"
  shows "wf_graph (with_decision m g)"
proof -
  have "wf_graph (g\<lparr>g_artifacts := dict_set (art_id (mut_decision m)) (mut_decision m) (g_artifacts g)\<rparr>)"
    using assms(1) by (rule wf_graph_store) simp
  moreover have "mut_supersedes m \<in> insert (art_id (mut_decision m)) (fst ` set (g_artifacts g))"
    using assms(2) by (simp add: in_graph_iff)
  ultimately show ?thesis by (simp add: wf_graph_def with_decision_def supersedes_edge_def)
qed

lemma flows_stored: "wf_graph g \<Longrightarrow> flows g K x y \<Longrightarrow> in_graph g x \<and> in_graph g y"
  using wf_graph_edge by (auto simp: flows_def)

lemma flows_with_decision: "flows (with_decision m g) downstream_kinds = flows g downstream_kinds"
  by (auto simp: flows_def fun_eq_iff supersedes_edge_def downstream_kinds_def)

lemma spread_with_decision:
  assumes "wf_graph g" and "\<not> in_graph g (art_id (mut_decision m))"
  shows "spread (with_decision m g) A = spread g A"
proof (intro ext)
  fix x y
  have "y \<noteq> art_id (mut_decision m)" if "flows g downstream_kinds x y"
    using flows_stored [OF assms(1) that] assms(2) by auto
  then show "spread (with_decision m g) A x y = spread g A x y"
    by (auto simp: spread_def flows_with_decision overlap_def)
qed

lemma affected_with_decision:
  assumes "wf_graph g" and "\<not> in_graph g (art_id (mut_decision m))" and "in_graph g r"
  shows "affected_by (with_decision m g) A r i \<longleftrightarrow> affected_by g A r i"
proof -
  have "i \<noteq> art_id (mut_decision m)" if "(spread g A)\<^sup>*\<^sup>* r i"
    using that assms(2,3) flows_stored [OF assms(1)]
    by (cases rule: rtranclp.cases) (auto simp: spread_def)
  then show ?thesis
    by (auto simp: affected_by_def spread_with_decision [OF assms(1,2)] overlap_def)
qed

lemma spared_with_decision:
  assumes "wf_graph g" and "\<not> in_graph g (art_id (mut_decision m))"
  shows "spared_by (with_decision m g) A r i \<longleftrightarrow> spared_by g A r i"
proof -
  have "i \<noteq> art_id (mut_decision m)" if "flows g downstream_kinds x i" for x
    using flows_stored [OF assms(1) that] assms(2) by auto
  then show ?thesis
    by (auto simp: spared_by_def spread_with_decision [OF assms] flows_with_decision overlap_def)
qed

lemma trace_cong: "spread h A = spread g A \<Longrightarrow> trace h A = trace g A"
proof -
  assume eq: "spread h A = spread g A"
  have "trace h A c r ns x \<Longrightarrow> trace g A c r ns x" for c r ns x
    by (induction rule: trace.induct) (auto intro: trace.intros simp: eq)
  moreover have "trace g A c r ns x \<Longrightarrow> trace h A c r ns x" for c r ns x
    by (induction rule: trace.induct) (auto intro: trace.intros simp: eq)
  ultimately show ?thesis by (auto simp: fun_eq_iff)
qed

lemma the_artifact_with_decision:
  "i \<noteq> art_id (mut_decision m) \<Longrightarrow> the_artifact (with_decision m g) i = the_artifact g i"
  by (simp add: the_artifact_def)

lemma report_with_decision:
  assumes g: "wf_graph g" and new: "\<not> in_graph g (art_id (mut_decision m))" and r: "in_graph g r"
    and rep: "report_ok (with_decision m g) A c r rep"
  shows "report_ok g A c r rep"
proof -
  have A: "set (rep_affected rep) = {i. affected_by g A r i}"
    and P: "set (rep_preserved rep) = {i. spared_by g A r i}"
    using rep affected_with_decision [OF g new r] spared_with_decision [OF g new]
    by (simp_all add: report_ok_def)
  have "i \<noteq> art_id (mut_decision m)" if "i \<in> set (rep_affected rep) \<union> set (rep_preserved rep)" for i
    using that A P affected_stored [of g A r i] spared_stored [OF g, of A r i] new
    by (auto simp: in_graph_get)
  then have eq: "the_artifact (with_decision m g) i = the_artifact g i"
    if "i \<in> set (rep_affected rep) \<union> set (rep_preserved rep)" for i
    using that the_artifact_with_decision by blast
  have "filter (\<lambda>i. Q (the_artifact (with_decision m g) i)) (rep_affected rep) =
      filter (\<lambda>i. Q (the_artifact g i)) (rep_affected rep)"
    "filter (\<lambda>i. Q (the_artifact (with_decision m g) i)) (rep_preserved rep) =
      filter (\<lambda>i. Q (the_artifact g i)) (rep_preserved rep)" for Q
    using eq by (auto intro: filter_cong)
  from this(1) [of "\<lambda>a. art_kind a \<in> stoppable_work_kinds"]
    this(1) [of "\<lambda>a. art_kind a = Task \<and> art_validity (marked A a) = Invalidated"]
    this(1) [of "\<lambda>a. art_validity (marked A a) = Needs_Review"] this(2) [of "\<lambda>a. art_kind a = Task"]
  show ?thesis
    using rep A P trace_cong [OF spread_with_decision [OF g new, of A]]
    unfolding report_ok_def by simp
qed

subsection \<open>When a change is applied\<close>

definition change_ok :: "authority \<Rightarrow> decision_mutation \<Rightarrow> bool" where
  "change_ok au m \<longleftrightarrow> decision_refusal au m = None
     \<and> \<not> in_graph (au_graph au) (art_id (mut_decision m))
     \<and> (\<exists>s. get_artifact (au_graph au) (mut_supersedes m) = Inr s \<and> art_kind s = Decision
          \<and> mut_scopes m \<subseteq> art_scopes s)"

lemma apply_change_run:
  assumes g: "wf_graph g" and new: "\<not> in_graph g (art_id (mut_decision m))"
    and s: "get_artifact g (mut_supersedes m) = Inr s"
  shows "\<exists>rep g'. apply_change m g = (Inr (version_label (with_decision m g), rep), g')
    \<and> report_ok g (mut_scopes m) (art_id (mut_decision m)) (mut_supersedes m) rep
    \<and> rep_version rep = version_label (with_decision m g)
    \<and> wf_graph g' \<and> g_version g' = g_version g + 1 \<and> g_edges g' = g_edges g @ [supersedes_edge m]
    \<and> (\<forall>i. get_artifact g' i = (if i = art_id (mut_decision m) then Inr (mut_decision m)
         else map_sum id (if affected_by g (mut_scopes m) (mut_supersedes m) i
                          then marked (mut_scopes m) else id) (get_artifact g i)))"
proof -
  let ?d = "mut_decision m" and ?r = "mut_supersedes m" and ?A = "mut_scopes m"
  let ?h = "with_decision m g"
  have r: "in_graph g ?r" using s by (simp add: in_graph_get)
  then have ne: "?r \<noteq> art_id ?d" using new by auto
  have "add_artifact ?d g = (Inr (), g\<lparr>g_artifacts := dict_set (art_id ?d) ?d (g_artifacts g)\<rparr>)"
    using new by (simp add: add_artifact_def in_graph_def)
  moreover have "add_edge (supersedes_edge m) (g\<lparr>g_artifacts := dict_set (art_id ?d) ?d (g_artifacts g)\<rparr>) =
      (Inr (), g\<lparr>g_artifacts := dict_set (art_id ?d) ?d (g_artifacts g), g_edges := g_edges g @ [supersedes_edge m]\<rparr>)"
    using r ne by (simp add: add_edge_def supersedes_edge_def dict_simps in_graph_def)
  moreover have "increment_version (g\<lparr>g_artifacts := dict_set (art_id ?d) ?d (g_artifacts g),
      g_edges := g_edges g @ [supersedes_edge m]\<rparr>) = (Inr (version_label ?h), ?h)"
    by (simp add: increment_version_def with_decision_def Let_def)
  moreover obtain rep g' where p: "propagate_invalidation ?d ?r ?A ?h = (Inr rep, g')"
      "report_ok ?h ?A (art_id ?d) ?r rep" "rep_version rep = version_label ?h"
      "wf_graph g'" "g_version g' = g_version ?h" "g_edges g' = g_edges ?h"
      "\<forall>i. get_artifact g' i = map_sum id (if affected_by ?h ?A ?r i then marked ?A else id) (get_artifact ?h i)"
    using propagate_invalidation_spec [OF wf_with_decision [OF g r], of ?r s ?d ?A] s ne by auto
  ultimately have run: "apply_change m g = (Inr (version_label ?h, rep), g')"
    by (simp add: apply_change_def Let_def bind_op_def supersedes_edge_def [symmetric])
  have "\<not> affected_by g ?A ?r (art_id ?d)"
    using affected_stored new by (metis in_graph_get)
  then have "get_artifact g' i = (if i = art_id ?d then Inr ?d
      else map_sum id (if affected_by g ?A ?r i then marked ?A else id) (get_artifact g i))" for i
    using p(7) affected_with_decision [OF g new r, of ?A] by (simp add: sum.map_id)
  then show ?thesis
    using run p report_with_decision [OF g new r p(2)] by simp
qed

theorem apply_decision_change_applies:
  assumes "wf_graph (au_graph au)" and "\<not> g_in_txn (au_graph au)" and "change_ok au m"
  shows "\<exists>rep g'. apply_decision_change m au =
      (Inr \<lparr>mres_applied = True,
            mres_reason = ''Approved decision applied and affected work re-evaluated.'',
            mres_version = version_label g', mres_verdict = None, mres_report = Some rep\<rparr>,
       au\<lparr>au_graph := g', au_report := Some rep\<rparr>)
    \<and> report_ok (au_graph au) (mut_scopes m) (art_id (mut_decision m)) (mut_supersedes m) rep
    \<and> rep_version rep = version_label g'
    \<and> wf_graph g' \<and> \<not> g_in_txn g' \<and> g_version g' = g_version (au_graph au) + 1
    \<and> g_edges g' = g_edges (au_graph au) @ [supersedes_edge m]
    \<and> (\<forall>i. get_artifact g' i = (if i = art_id (mut_decision m) then Inr (mut_decision m)
         else map_sum id (if affected_by (au_graph au) (mut_scopes m) (mut_supersedes m) i
                          then marked (mut_scopes m) else id) (get_artifact (au_graph au) i)))"
proof -
  let ?g = "au_graph au" and ?G = "(au_graph au)\<lparr>g_in_txn := True\<rparr>"
  from assms(3) obtain s where ok: "decision_refusal au m = None" "\<not> in_graph ?g (art_id (mut_decision m))"
      "get_artifact ?g (mut_supersedes m) = Inr s" "art_kind s = Decision" "mut_scopes m \<subseteq> art_scopes s"
    by (auto simp: change_ok_def)
  have get: "get_artifact ?G = get_artifact ?g" by (simp add: get_artifact_def fun_eq_iff)
  have same: "affected_by ?G = affected_by ?g" "report_ok ?G = report_ok ?g"
  proof -
    have "overlap ?G = overlap ?g" by (simp add: overlap_def get fun_eq_iff)
    moreover have "flows ?G = flows ?g" by (simp add: flows_def fun_eq_iff)
    ultimately have *: "spread ?G = spread ?g" "overlap ?G = overlap ?g" "flows ?G = flows ?g"
      by (simp_all add: spread_def fun_eq_iff)
    have "the_artifact ?G = the_artifact ?g" by (simp add: the_artifact_def get fun_eq_iff)
    moreover have "trace ?G = trace ?g" using trace_cong * by (metis ext)
    ultimately show "affected_by ?G = affected_by ?g" "report_ok ?G = report_ok ?g"
      by (intro ext; simp only: affected_by_def spared_by_def report_ok_def *)+
  qed
  from apply_change_run [of ?G m s] assms(1) ok get
  obtain rep h where run: "apply_change m ?G = (Inr (version_label (with_decision m ?G), rep), h)"
    and h: "report_ok ?g (mut_scopes m) (art_id (mut_decision m)) (mut_supersedes m) rep"
      "rep_version rep = version_label (with_decision m ?G)"
      "wf_graph h" "g_version h = g_version ?g + 1" "g_edges h = g_edges ?g @ [supersedes_edge m]"
      "\<forall>i. get_artifact h i = (if i = art_id (mut_decision m) then Inr (mut_decision m)
         else map_sum id (if affected_by ?g (mut_scopes m) (mut_supersedes m) i
                          then marked (mut_scopes m) else id) (get_artifact ?g i))"
    by (auto simp: same in_graph_get)
  let ?g' = "h\<lparr>g_in_txn := False\<rparr>"
  have "transaction (apply_change m) ?g = (Inr (version_label (with_decision m ?G), rep), ?g')"
    using run assms(2) by (simp add: transaction_Inr)
  moreover have ver: "version_label (with_decision m ?G) = version_label ?g'"
    using h(4) by (simp add: version_label_def)
  moreover have "\<exists>e. get_artifact ?g (art_id (mut_decision m)) = Inl e"
    using ok(2) by (auto simp: in_graph_get) (metis sum.exhaust)
  moreover have "rep\<lparr>rep_version := version_label ?g'\<rparr> = rep"
    using h(2) ver by simp
  moreover have "get_artifact ?g' = get_artifact h" by (simp add: get_artifact_def fun_eq_iff)
  ultimately show ?thesis
    using h ok ver unfolding apply_decision_change_def Let_def
    by (intro exI [of _ rep] exI [of _ ?g']) auto
qed

theorem apply_decision_change_unchanged:
  assumes "wf_graph (au_graph au)" and "\<not> g_in_txn (au_graph au)"
    and "apply_decision_change m au = (r, au')" and "\<not> (\<exists>res. r = Inr res \<and> mres_applied res)"
  shows "au' = au"
    and "\<not> change_ok au m"
    and "r = Inl (KeyError (''Unknown artifact: '' @ mut_supersedes m))
      \<or> (\<exists>reason. r = Inr (refused reason (au_graph au)))"
proof -
  show no: "\<not> change_ok au m"
  proof
    assume "change_ok au m"
    from apply_decision_change_applies [OF assms(1,2) this] assms(3,4) show False by auto
  qed
  then show "au' = au" "r = Inl (KeyError (''Unknown artifact: '' @ mut_supersedes m))
      \<or> (\<exists>reason. r = Inr (refused reason (au_graph au)))"
    using assms(3)
    by (auto simp: apply_decision_change_def Let_def change_ok_def in_graph_get get_artifact_def
        split: option.splits if_splits)
qed

text \<open>What the guards demand.\<close>

lemma decision_refusal_None:
  assumes "decision_refusal au m = None"
  shows "art_kind (mut_decision m) = Decision \<and> art_approval (mut_decision m) = Some Approved
    \<and> au_threshold au \<le> art_confidence (mut_decision m) \<and> mut_scopes m \<noteq> {}
    \<and> art_scopes (mut_decision m) = mut_scopes m
    \<and> (\<exists>reqs. declared_requirements (mut_decision m) = Some reqs \<and> fst ` set reqs = mut_scopes m)
    \<and> (\<forall>s\<in>mut_scopes m. role_allowed au (art_role (mut_decision m)) s)"
  using assms
  by (auto simp: decision_refusal_def Let_def sym_diff_def split: if_splits option.splits)

end

