(* ===== verification/Evaluation.thy ===== *)
theory Evaluation
  imports Decision_Change
begin

text \<open>
  \<^verbatim>\<open>authority/engine.py\<close>, the reading half: \<open>current_requirements\<close>, \<open>evaluate_plan\<close> and
  \<open>verify_grant\<close>. A requirement stored in the graph may be any JSON value, because only
  \<open>apply_decision_change\<close> checks its shape: the exceptions that a malformed one causes are
  branches of the model. The theorems say when a plan is allowed, what the grant of an allowed
  plan is bound to, and when a presented grant is valid.
\<close>

subsection \<open>Current requirements\<close>

type_synonym candidate = "datetime \<times> string \<times> pyval"

definition effective :: "artifact \<Rightarrow> datetime" where
  "effective a = (case art_effective a of None \<Rightarrow> dt_min | Some t \<Rightarrow> t)"

definition artifact_candidates :: "artifact \<Rightarrow> candidate list result" where
  "artifact_candidates a =
     (if art_kind a \<noteq> Decision \<or> art_approval a \<noteq> Some Approved then Inr []
      else (case dict_get (art_attrs a) ''requirements'' of
        None \<Rightarrow> Inr []
      | Some (PDict d) \<Rightarrow>
          Inr (map (\<lambda>(scope, req). (effective a, scope, req))
                (filter (\<lambda>(scope, req). scope \<notin> art_invalidated a) d))
      | Some _ \<Rightarrow> Inl (AttributeError ''object has no attribute 'items' '')))"

text \<open>Sorting by the first component raises when a naive datetime meets an aware one.\<close>

definition sort_candidates :: "candidate list \<Rightarrow> candidate list result" where
  "sort_candidates cs =
     (if (\<exists>c\<in>set cs. dt_aware (fst c)) \<and> (\<exists>c\<in>set cs. \<not> dt_aware (fst c))
      then Inl (TypeError ''can't compare offset-naive and offset-aware datetimes'')
      else Inr (sort_key (\<lambda>c. dt_micros (fst c)) cs))"

definition current_requirements :: "graph \<Rightarrow> pyval dict result" where
  "current_requirements g =
     bind_r (map_r artifact_candidates (list_artifacts g)) (\<lambda>css.
     bind_r (sort_candidates (concat css)) (\<lambda>cs.
     Inr (fold (\<lambda>(_, scope, req) d. dict_set scope req d) cs [])))"

subsection \<open>Evaluating a plan\<close>

text \<open>
  What a mismatch does with a requirement: a non-iterable value or an unhashable element
  raises TypeError in the comprehension over its keys, another non-object the model's
  validation of the \<open>expected\<close> field.
\<close>

fun hashable :: "pyval \<Rightarrow> bool" where
  "hashable (PList _) = False"
| "hashable (PSet _) = False"
| "hashable (PDict _) = False"
| "hashable _ = True"

fun as_requirement :: "pyval \<Rightarrow> attributes result" where
  "as_requirement (PDict d) = Inr d"
| "as_requirement (PStr s) = Inl (ValidationError ''Input should be a valid dictionary'')"
| "as_requirement (PList xs) =
     (if list_all hashable xs then Inl (ValidationError ''Input should be a valid dictionary'')
      else Inl (TypeError ''unhashable type''))"
| "as_requirement (PSet xs) = Inl (ValidationError ''Input should be a valid dictionary'')"
| "as_requirement _ = Inl (TypeError ''object is not iterable'')"

text \<open>The \<open>current_requirements\<close> field of a result is validated as an object of objects.\<close>

definition validated_requirements :: "pyval dict \<Rightarrow> attributes dict result" where
  "validated_requirements reqs = (case dict_values reqs of
     None \<Rightarrow> Inl (ValidationError ''Input should be a valid dictionary'') | Some d \<Rightarrow> Inr d)"

record evaluation =
  ev_mismatches :: "plan_mismatch list"
  ev_scopes :: scopes
  ev_deps :: "string set"

definition attr_or_none :: "attributes \<Rightarrow> string \<Rightarrow> pyval" where
  "attr_or_none d k = (case dict_get d k of None \<Rightarrow> PNone | Some v \<Rightarrow> v)"

definition check_missing :: "string \<Rightarrow> pyval dict \<Rightarrow> string \<Rightarrow> evaluation \<Rightarrow> evaluation result" where
  "check_missing pid reqs scope ev = (case dict_get reqs scope of
     None \<Rightarrow> Inl (KeyError scope)
   | Some req \<Rightarrow> bind_r (as_requirement req) (\<lambda>expected.
       Inr (ev\<lparr>ev_mismatches := ev_mismatches ev @
                 [\<lparr>mm_action = pid, mm_scope = scope, mm_expected = expected,
                   mm_actual = map (\<lambda>(k, _). (k, PNone)) expected\<rparr>],
              ev_scopes := insert scope (ev_scopes ev)\<rparr>)))"

text \<open>The \<open>task_id\<close> attribute of an action must name a stored, valid task.\<close>

definition reference_problem :: "pyval \<Rightarrow> artifact option \<Rightarrow> attributes option" where
  "reference_problem ref task = (case task of
     None \<Rightarrow> Some [(''task_id'', ref), (''validity'', PStr ''MISSING'')]
   | Some t \<Rightarrow>
       if art_kind t \<noteq> Task then
         Some [(''task_id'', ref), (''kind'', PStr (artifact_kind_value (art_kind t)))]
       else if art_validity t \<noteq> Valid then
         Some [(''task_id'', ref), (''validity'', PStr (validity_value (art_validity t)))]
       else None)"

definition referenced_task :: "graph \<Rightarrow> pyval \<Rightarrow> artifact option" where
  "referenced_task g ref = (case ref of
     PStr i \<Rightarrow> (case get_artifact g i of Inr t \<Rightarrow> Some t | Inl _ \<Rightarrow> None) | _ \<Rightarrow> None)"

definition check_reference :: "graph \<Rightarrow> plan_action \<Rightarrow> evaluation \<Rightarrow> evaluation" where
  "check_reference g a ev = (case dict_get (act_attrs a) ''task_id'' of
     None \<Rightarrow> ev
   | Some ref \<Rightarrow>
       (let ev1 = (case ref of PStr i \<Rightarrow> ev\<lparr>ev_deps := insert i (ev_deps ev)\<rparr> | _ \<Rightarrow> ev);
            task = referenced_task g ref;
            scopes = act_scopes a \<union> (case task of None \<Rightarrow> {} | Some t \<Rightarrow> art_invalidated t);
            scope = (if scopes \<noteq> {} then hd (sorted_list_of_set scopes) else ''task.reference'')
        in case reference_problem ref task of
             None \<Rightarrow> ev1
           | Some actual \<Rightarrow>
               ev1\<lparr>ev_mismatches := ev_mismatches ev1 @
                     [\<lparr>mm_action = act_id a, mm_scope = scope,
                       mm_expected = [(''task_id'', ref), (''validity'', PStr (validity_value Valid))],
                       mm_actual = actual\<rparr>],
                   ev_scopes := ev_scopes ev1 \<union> scopes\<rparr>))"

definition check_scope :: "pyval dict \<Rightarrow> plan_action \<Rightarrow> string \<Rightarrow> evaluation \<Rightarrow> evaluation result" where
  "check_scope reqs a scope ev = (case dict_get reqs scope of
     None \<Rightarrow> Inr ev
   | Some PNone \<Rightarrow> Inr ev
   | Some req \<Rightarrow> bind_r (as_requirement req) (\<lambda>expected.
       let actual = map (\<lambda>(k, _). (k, attr_or_none (act_attrs a) k)) expected in
       if attrs_eq actual expected then Inr ev
       else Inr (ev\<lparr>ev_mismatches := ev_mismatches ev @
                      [\<lparr>mm_action = act_id a, mm_scope = scope, mm_expected = expected,
                        mm_actual = actual\<rparr>],
                   ev_scopes := insert scope (ev_scopes ev)\<rparr>)))"

definition check_action ::
  "platform \<Rightarrow> graph \<Rightarrow> pyval dict \<Rightarrow> plan_action \<Rightarrow> evaluation \<Rightarrow> evaluation result"
where
  "check_action P g reqs a ev =
     fold_r (check_scope reqs a) (set_order P (act_scopes a)) (check_reference g a ev)"

definition blocked :: "string \<Rightarrow> graph \<Rightarrow> string \<Rightarrow> attributes dict \<Rightarrow> authorization_result" where
  "blocked reason g task_id reqs = \<lparr>ar_verdict = BLOCK, ar_reason = reason,
     ar_version = version_label g, ar_task = task_id, ar_scopes = {}, ar_mismatches = [],
     ar_requirements = reqs, ar_path = [], ar_invalidated = [], ar_preserved = [],
     ar_evidence = [], ar_grant = None\<rparr>"

text \<open>The report's lists, when one of the plan's dependencies is affected.\<close>

definition report_context :: "invalidation_report option \<Rightarrow> string set \<Rightarrow> string \<Rightarrow> string list \<times> string list \<times> string list \<times> string list" where
  "report_context rep deps pid = (case rep of
     None \<Rightarrow> ([], [], [], [])
   | Some r \<Rightarrow>
       if deps \<inter> set (rep_affected r) = {} then ([], [], [], [])
       else (rep_affected r, rep_preserved r, rep_evidence r,
             (case filter (\<lambda>q. path_artifact q = pid) (rep_paths r) of
                [] \<Rightarrow> [] | q # _ \<Rightarrow> path_nodes q)))"

text \<open>The clock and the random digits that the grant needs are arguments.\<close>

definition evaluate_plan ::
  "platform \<Rightarrow> int \<Rightarrow> string \<Rightarrow> authority \<Rightarrow> string \<Rightarrow> string \<Rightarrow> agent_plan \<Rightarrow>
   invalidation_report option \<Rightarrow> authorization_result result"
where
  "evaluate_plan P now uid au run task_id plan report = (let g = au_graph au in
     bind_r (current_requirements g) (\<lambda>reqs.
     case get_artifact g task_id of
       Inl _ \<Rightarrow> map_sum id (blocked ''The authorization task is not present in the current graph.''
                  g task_id) (validated_requirements reqs)
     | Inr task \<Rightarrow>
       if plan_ticket plan \<noteq> task_id then
         map_sum id (blocked ''The plan is bound to a different ticket than the authorization request.''
           g task_id) (validated_requirements reqs)
       else (let required = set (map fst reqs) \<inter> art_scopes task;
                 missing = required - plan_scopes plan in
         bind_r (fold_r (check_missing (plan_id plan) reqs) (sorted_list_of_set missing)
             \<lparr>ev_mismatches = [], ev_scopes = {}, ev_deps = {task_id, plan_id plan}\<rparr>) (\<lambda>ev1.
         bind_r (fold_r (check_action P g reqs) (plan_actions plan) ev1) (\<lambda>ev.
         let (inval, pres, evid, path) =
               report_context (case report of Some r \<Rightarrow> Some r | None \<Rightarrow> au_report au)
                 (ev_deps ev) (plan_id plan) in
         map_sum id (\<lambda>creqs.
           if ev_mismatches ev \<noteq> [] then
             \<lparr>ar_verdict = REPLAN,
              ar_reason = ''The plan conflicts with current approved requirements or current graph validity.'',
              ar_version = version_label g, ar_task = task_id, ar_scopes = ev_scopes ev,
              ar_mismatches = ev_mismatches ev, ar_requirements = creqs, ar_path = path,
              ar_invalidated = inval, ar_preserved = pres, ar_evidence = evid, ar_grant = None\<rparr>
           else
             \<lparr>ar_verdict = ALLOW, ar_reason = ''Plan matches current approved requirements.'',
              ar_version = version_label g, ar_task = task_id, ar_scopes = {}, ar_mismatches = [],
              ar_requirements = creqs, ar_path = path, ar_invalidated = inval, ar_preserved = pres,
              ar_evidence = evid,
              ar_grant = Some (issue P (au_signer au) now uid run task_id (version_label g)
                (stable_hash P (plan_dump plan)) ALLOW)\<rparr>)
           (validated_requirements reqs))))))"

subsection \<open>Verifying a grant\<close>

fun error_text :: "py_error \<Rightarrow> string" where
  "error_text (KeyError s) = py_repr s"
| "error_text (ValueError s) = s"
| "error_text (TypeError s) = s"
| "error_text (AttributeError s) = s"
| "error_text (RuntimeError s) = s"
| "error_text (ValidationError s) = s"
| "error_text (NotFound s) = s"
| "error_text (StateConflict s) = s"
| "error_text (ApiFailure _ s _) = s"
| "error_text (Raised _ s) = s"

definition invalid :: "verification_code \<Rightarrow> string \<Rightarrow> grant_payload option \<Rightarrow> verification_result" where
  "invalid code reason p = \<lparr>vr_valid = False, vr_code = code, vr_reason = reason, vr_payload = p\<rparr>"

definition verify_grant ::
  "platform \<Rightarrow> int \<Rightarrow> string \<Rightarrow> authority \<Rightarrow> string \<Rightarrow> string \<Rightarrow> string \<Rightarrow> agent_plan \<Rightarrow> verification_result result"
where
  "verify_grant P now uid au token run task_id plan = (case decode P (au_signer au) token of
     Inl e \<Rightarrow> if value_or_type_error e then Inr (invalid INVALID_TOKEN (error_text e) None) else Inl e
   | Inr p \<Rightarrow>
       if gp_verdict p \<noteq> ALLOW then
         Inr (invalid NON_ALLOW_VERDICT
           (''Grant payload verdict is '' @ verdict_value (gp_verdict p) @ '', not ALLOW.'') (Some p))
       else if gp_expires p \<le> now then Inr (invalid EXPIRED ''Grant has expired.'' (Some p))
       else if gp_run p \<noteq> run \<or> gp_task p \<noteq> task_id then
         Inr (invalid BINDING_MISMATCH ''Grant is bound to a different run or task.'' (Some p))
       else if gp_plan_hash p \<noteq> stable_hash P (plan_dump plan) then
         Inr (invalid PLAN_HASH_MISMATCH ''Grant plan hash does not match the proposed plan.'' (Some p))
       else if gp_snapshot p \<noteq> version_label (au_graph au) then
         Inr (invalid STALE_SNAPSHOT (''Grant snapshot '' @ gp_snapshot p @ '' is stale; current graph is ''
           @ version_label (au_graph au) @ ''.'') (Some p))
       else bind_r (evaluate_plan P now uid au run task_id plan (au_report au)) (\<lambda>fresh.
         if ar_verdict fresh \<noteq> ALLOW then
           Inr (invalid CURRENT_PLAN_REJECTED
             (''Current plan verdict is '' @ verdict_value (ar_verdict fresh) @ '', not ALLOW.'') (Some p))
         else Inr \<lparr>vr_valid = True, vr_code = VC_VALID, vr_reason = ''Grant is valid.'',
                   vr_payload = Some p\<rparr>))"

end
