(* ===== verification/Authorization.thy ===== *)
theory Authorization
  imports Evaluation
begin

text \<open>
  The theorems about \<open>evaluate_plan\<close> and \<open>verify_grant\<close>: which requirement is current, when a
  plan is allowed, what an issued grant is bound to, when a presented one is valid, and that a
  grant does not survive an applied decision change.
\<close>

subsection \<open>Loops that may raise\<close>

lemma fold_r_total:
  "(\<And>x s. x \<in> set xs \<Longrightarrow> \<exists>s'. f x s = Inr s') \<Longrightarrow> \<exists>s'. fold_r f xs s = Inr s'"
proof (induction xs arbitrary: s)
  case (Cons x xs)
  then obtain s1 where "f x s = Inr s1" by fastforce
  moreover obtain s2 where "fold_r f xs s1 = Inr s2" using Cons by fastforce
  ultimately show ?case by simp
qed simp

lemma fold_r_iff:
  assumes "fold_r f xs s = Inr s'"
    and "\<And>x s s'. x \<in> set xs \<Longrightarrow> f x s = Inr s' \<Longrightarrow> Q s' \<longleftrightarrow> Q s \<and> ok x"
  shows "Q s' \<longleftrightarrow> Q s \<and> (\<forall>x\<in>set xs. ok x)"
  using assms
proof (induction xs arbitrary: s)
  case (Cons x xs)
  then obtain s1 where s1: "f x s = Inr s1" "fold_r f xs s1 = Inr s'" by auto
  have "Q s' \<longleftrightarrow> Q s1 \<and> (\<forall>x\<in>set xs. ok x)"
    using Cons.IH [OF s1(2)] Cons.prems(2) by (meson list.set_intros(2))
  moreover have "Q s1 \<longleftrightarrow> Q s \<and> ok x" using Cons.prems(2) [OF _ s1(1)] by simp
  ultimately show ?case by auto
qed simp

subsection \<open>Which requirement is current\<close>

definition declares :: "graph \<Rightarrow> artifact \<Rightarrow> string \<Rightarrow> pyval \<Rightarrow> bool" where
  "declares g a scope req \<longleftrightarrow> a \<in> set (list_artifacts g) \<and> art_kind a = Decision
     \<and> art_approval a = Some Approved \<and> scope \<notin> art_invalidated a
     \<and> (\<exists>d. dict_get (art_attrs a) ''requirements'' = Some (PDict d) \<and> (scope, req) \<in> set d)"

lemma artifact_candidates_set:
  "artifact_candidates a = Inr cs \<Longrightarrow> a \<in> set (list_artifacts g) \<Longrightarrow>
   (t, scope, req) \<in> set cs \<longleftrightarrow> declares g a scope req \<and> t = effective a"
  by (fastforce simp: artifact_candidates_def declares_def split: if_splits option.splits pyval.splits)

lemma candidates_declare:
  assumes "map_r artifact_candidates (list_artifacts g) = Inr css"
  shows "(t, scope, req) \<in> set (concat css) \<longleftrightarrow> (\<exists>a. declares g a scope req \<and> t = effective a)"
proof -
  have l: "list_all2 (\<lambda>a cs. artifact_candidates a = Inr cs) (list_artifacts g) css"
    using assms by (simp add: map_r_Inr)
  show ?thesis
  proof
    assume "(t, scope, req) \<in> set (concat css)"
    then obtain cs where cs: "cs \<in> set css" "(t, scope, req) \<in> set cs" by auto
    from cs(1) obtain i where i: "i < length css" "css ! i = cs" by (auto simp: in_set_conv_nth)
    with l have "artifact_candidates (list_artifacts g ! i) = Inr cs" "list_artifacts g ! i \<in> set (list_artifacts g)"
      by (auto simp: list_all2_conv_all_nth)
    then show "\<exists>a. declares g a scope req \<and> t = effective a"
      using artifact_candidates_set cs(2) by blast
  next
    assume "\<exists>a. declares g a scope req \<and> t = effective a"
    then obtain a where a: "declares g a scope req" "t = effective a" by blast
    then have in_g: "a \<in> set (list_artifacts g)" by (simp add: declares_def)
    then obtain i where "i < length (list_artifacts g)" "list_artifacts g ! i = a" by (auto simp: in_set_conv_nth)
    with l have cs: "css ! i \<in> set css" "artifact_candidates a = Inr (css ! i)"
      by (auto simp: list_all2_conv_all_nth)
    then have "(t, scope, req) \<in> set (css ! i)"
      using artifact_candidates_set [OF cs(2) in_g] a by blast
    with cs(1) show "(t, scope, req) \<in> set (concat css)" by auto
  qed
qed

lemma fold_last:
  "dict_get (fold (\<lambda>(_, s, r) d. dict_set s r d) cs d0) scope =
     (let ms = filter (\<lambda>c. fst (snd c) = scope) cs
      in if ms = [] then dict_get d0 scope else Some (snd (snd (last ms))))"
  by (induction cs arbitrary: d0) (auto simp: Let_def dict_simps)

lemma sorted_last_max:
  assumes "sorted (map f xs)" and "x \<in> set xs"
  shows "f x \<le> f (last xs)"
  using assms by (induction xs) (auto simp: sorted_wrt_append)

lemma current_requirement_latest:
  assumes "current_requirements g = Inr reqs"
  shows "dict_get reqs scope = None \<longleftrightarrow> (\<nexists>a req. declares g a scope req)"
    and "dict_get reqs scope = Some req \<Longrightarrow>
      \<exists>a. declares g a scope req \<and> (\<forall>b r. declares g b scope r \<longrightarrow>
        dt_micros (effective b) \<le> dt_micros (effective a))"
proof -
  from assms obtain css cs where css: "map_r artifact_candidates (list_artifacts g) = Inr css"
      "sort_candidates (concat css) = Inr cs" "reqs = fold (\<lambda>(_, s, r) d. dict_set s r d) cs []"
    by (auto simp: current_requirements_def)
  then have cs: "cs = sort_key (\<lambda>c. dt_micros (fst c)) (concat css)"
    by (simp add: sort_candidates_def split: if_splits)
  let ?ms = "filter (\<lambda>c. fst (snd c) = scope) cs"
  have ms: "(t, s, r) \<in> set ?ms \<longleftrightarrow> s = scope \<and> (\<exists>a. declares g a scope r \<and> t = effective a)" for t s r
    using candidates_declare [OF css(1)] by (auto simp: cs)
  have get: "dict_get reqs scope = (if ?ms = [] then None else Some (snd (snd (last ?ms))))"
    by (simp add: css(3) fold_last Let_def)
  have "?ms = [] \<longleftrightarrow> (\<nexists>t s r. (t, s, r) \<in> set ?ms)"
    by (metis empty_iff list.set(1) list.set_sel(1) prod_cases3)
  also have "\<dots> \<longleftrightarrow> (\<nexists>a r. declares g a scope r)" unfolding ms by blast
  finally have "?ms = [] \<longleftrightarrow> (\<nexists>a r. declares g a scope r)" .
  then show "dict_get reqs scope = None \<longleftrightarrow> (\<nexists>a req. declares g a scope req)"
    unfolding get by auto
  assume some: "dict_get reqs scope = Some req"
  then have ne: "?ms \<noteq> []" and req: "req = snd (snd (last ?ms))" by (auto simp: get split: if_splits)
  obtain t s r where last: "last ?ms = (t, s, r)" by (metis prod_cases3)
  then have "(t, s, r) \<in> set ?ms" using ne by (metis last_in_set)
  then obtain a where a: "declares g a scope r" "t = effective a" using ms by blast
  have "sorted (map (\<lambda>c. dt_micros (fst c)) ?ms)"
    unfolding cs by (rule sorted_filter) simp
  then have max: "dt_micros (fst c) \<le> dt_micros t" if "c \<in> set ?ms" for c
    using sorted_last_max [of "\<lambda>c. dt_micros (fst c)" ?ms c] that last by simp
  have "dt_micros (effective b) \<le> dt_micros t" if "declares g b scope r'" for b r'
    using max [of "(effective b, scope, r')"] ms that by auto
  with a req last show "\<exists>a. declares g a scope req \<and> (\<forall>b r. declares g b scope r \<longrightarrow>
        dt_micros (effective b) \<le> dt_micros (effective a))" by auto
qed

subsection \<open>When the requirements can be read at all\<close>

definition requirements_ok :: "graph \<Rightarrow> bool" where
  "requirements_ok g \<longleftrightarrow> (\<forall>a\<in>set (list_artifacts g). art_kind a = Decision \<and> art_approval a = Some Approved
     \<longrightarrow> declared_requirements a \<noteq> None \<and> dt_aware (effective a) \<and> wf_pyval (PDict (art_attrs a)))"

lemma dict_values_Some:
  "dict_values d = Some r \<Longrightarrow> d = map (\<lambda>(k, v). (k, PDict v)) r"
  by (induction d arbitrary: r) (auto split: pyval.splits)

lemma dict_values_iff: "dict_values d \<noteq> None \<longleftrightarrow> (\<forall>(k, v)\<in>set d. \<exists>r. v = PDict r)"
  by (induction d) (auto split: pyval.splits)

lemma declared_requirements_PDict:
  "declared_requirements a \<noteq> None \<Longrightarrow> dict_get (art_attrs a) ''requirements'' = Some v \<Longrightarrow>
   \<exists>d. v = PDict d \<and> dict_values d \<noteq> None"
  by (auto simp: declared_requirements_def split: pyval.splits)

lemma current_requirements_total:
  assumes "requirements_ok g"
  shows "\<exists>reqs creqs. current_requirements g = Inr reqs \<and> dict_values reqs = Some creqs"
proof -
  have "\<exists>cs. artifact_candidates a = Inr cs" if "a \<in> set (list_artifacts g)" for a
    using assms that declared_requirements_PDict [of a]
    by (fastforce simp: artifact_candidates_def requirements_ok_def split: option.splits pyval.splits)
  then obtain css where css: "map_r artifact_candidates (list_artifacts g) = Inr css"
    using map_r_total by metis
  have aware: "dt_aware t \<and> (\<exists>r. req = PDict r)" if "(t, scope, req) \<in> set (concat css)" for t scope req
  proof -
    from that obtain a where a: "declares g a scope req" "t = effective a"
      using candidates_declare [OF css] by blast
    then have "declared_requirements a \<noteq> None" "dt_aware (effective a)"
      using assms by (auto simp: requirements_ok_def declares_def)
    moreover from a(1) obtain d where "dict_get (art_attrs a) ''requirements'' = Some (PDict d)" "(scope, req) \<in> set d"
      by (auto simp: declares_def)
    ultimately show ?thesis
      using a(2) declared_requirements_PDict [of a "PDict d"] dict_values_iff [of d] by auto
  qed
  let ?cs = "sort_key (\<lambda>c. dt_micros (fst c)) (concat css)"
  have "sort_candidates (concat css) = Inr ?cs"
    using aware by (force simp: sort_candidates_def)
  then have cur: "current_requirements g = Inr (fold (\<lambda>(_, s, r) d. dict_set s r d) ?cs [])"
    by (simp add: current_requirements_def css)
  have keep: "dict_values (fold (\<lambda>(_, s, r) d. dict_set s r d) cs d) \<noteq> None"
    if "\<forall>(t, s, r)\<in>set cs. \<exists>x. r = PDict x" "dict_values d \<noteq> None" "wf_dict d" for cs d
    using that
  proof (induction cs arbitrary: d)
    case (Cons c cs)
    obtain t s r where c: "c = (t, s, r)" by (metis prod_cases3)
    with Cons.prems obtain x where x: "r = PDict x" by auto
    have "dict_values (dict_set s r d) \<noteq> None"
      unfolding dict_values_iff set_dict_set [OF Cons.prems(3)]
      using Cons.prems(2) x unfolding dict_values_iff by auto
    then show ?case using Cons.IH [of "dict_set s r d"] Cons.prems c by (auto intro: distinct_update)
  qed simp
  have "\<forall>(t, s, r)\<in>set ?cs. \<exists>x. r = PDict x" using aware by fastforce
  then have "dict_values (fold (\<lambda>(_, s, r) d. dict_set s r d) ?cs []) \<noteq> None"
    by (rule keep) simp_all
  with cur show ?thesis by blast
qed

lemma requirement_shape:
  assumes "requirements_ok g" and "current_requirements g = Inr reqs" and "dict_get reqs s = Some r"
  shows "\<exists>d. r = PDict d \<and> wf_dict d"
proof -
  from current_requirement_latest(2) [OF assms(2,3)] obtain a where a: "declares g a s r" by blast
  then have "declared_requirements a \<noteq> None" "wf_pyval (PDict (art_attrs a))"
    using assms(1) by (auto simp: requirements_ok_def declares_def)
  moreover from a obtain d where d: "dict_get (art_attrs a) ''requirements'' = Some (PDict d)" "(s, r) \<in> set d"
    by (auto simp: declares_def)
  moreover have "wf_pyval (PDict d)"
    using map_of_SomeD [OF d(1)] \<open>wf_pyval (PDict (art_attrs a))\<close> by force
  ultimately show ?thesis
    using declared_requirements_PDict [of a "PDict d"] dict_values_iff [of d] by fastforce
qed

subsection \<open>When a plan is allowed\<close>

definition requirement_met :: "plan_action \<Rightarrow> attributes \<Rightarrow> bool" where
  "requirement_met a req \<longleftrightarrow> (\<forall>(k, v)\<in>set req. py_eq (attr_or_none (act_attrs a) k) v)"

definition reference_ok :: "graph \<Rightarrow> plan_action \<Rightarrow> bool" where
  "reference_ok g a \<longleftrightarrow> (\<forall>ref. dict_get (act_attrs a) ''task_id'' = Some ref \<longrightarrow>
     (\<exists>i t. ref = PStr i \<and> get_artifact g i = Inr t \<and> art_kind t = Task \<and> art_validity t = Valid))"

definition plan_conforms :: "graph \<Rightarrow> pyval dict \<Rightarrow> artifact \<Rightarrow> agent_plan \<Rightarrow> bool" where
  "plan_conforms g reqs task plan \<longleftrightarrow>
     set (map fst reqs) \<inter> art_scopes task \<subseteq> plan_scopes plan
   \<and> (\<forall>a\<in>set (plan_actions plan). reference_ok g a
        \<and> (\<forall>s\<in>act_scopes a. \<forall>req. dict_get reqs s = Some (PDict req) \<longrightarrow> requirement_met a req))"

lemma attrs_eq_requirement:
  assumes "wf_dict req"
  shows "attrs_eq (map (\<lambda>(k, _). (k, attr_or_none (act_attrs a) k)) req) req \<longleftrightarrow> requirement_met a req"
proof -
  have "(\<exists>w. dict_get req k = Some w \<and> py_eq u w) \<longleftrightarrow> py_eq u v" if "(k, v) \<in> set req" for k v u
    using that assms by simp
  then show ?thesis by (fastforce simp: attrs_eq_def py_sub_dict_iff requirement_met_def)
qed

lemma reference_problem_None:
  "reference_problem ref (referenced_task g ref) = None \<longleftrightarrow>
     (\<exists>i t. ref = PStr i \<and> get_artifact g i = Inr t \<and> art_kind t = Task \<and> art_validity t = Valid)"
  by (auto simp: reference_problem_def referenced_task_def split: pyval.splits sum.splits option.splits)

lemma check_reference_mismatches:
  "ev_mismatches (check_reference g a ev) = [] \<longleftrightarrow> ev_mismatches ev = [] \<and> reference_ok g a"
proof (cases "dict_get (act_attrs a) ''task_id''")
  case None
  then show ?thesis by (simp add: check_reference_def reference_ok_def)
next
  case (Some ref)
  then have "reference_ok g a \<longleftrightarrow> reference_problem ref (referenced_task g ref) = None"
    by (simp add: reference_ok_def reference_problem_None)
  then show ?thesis
    using Some by (auto simp: check_reference_def Let_def split: option.splits pyval.splits)
qed

definition requirement_dicts :: "pyval dict \<Rightarrow> bool" where
  "requirement_dicts reqs \<longleftrightarrow> (\<forall>s r. dict_get reqs s = Some r \<longrightarrow> (\<exists>d. r = PDict d \<and> wf_dict d))"

lemma check_missing_run:
  "requirement_dicts reqs \<Longrightarrow> s \<in> set (map fst reqs) \<Longrightarrow> \<exists>ev'. check_missing pid reqs s ev = Inr ev' \<and> ev_mismatches ev' \<noteq> []"
proof -
  assume shape: "requirement_dicts reqs" and "s \<in> set (map fst reqs)"
  then obtain r where "dict_get reqs s = Some r" by (metis dict_get_None list.set_map not_Some_eq)
  moreover then obtain d where "r = PDict d" using shape by (auto simp: requirement_dicts_def)
  ultimately show ?thesis by (simp add: check_missing_def)
qed

lemma check_scope_run:
  "requirement_dicts reqs \<Longrightarrow> \<exists>ev'. check_scope reqs a s ev = Inr ev' \<and> (ev_mismatches ev' = [] \<longleftrightarrow> ev_mismatches ev = []
     \<and> (\<forall>req. dict_get reqs s = Some (PDict req) \<longrightarrow> requirement_met a req))"
proof (cases "dict_get reqs s")
  case None
  then show ?thesis by (simp add: check_scope_def)
next
  case (Some r)
  assume "requirement_dicts reqs"
  with Some obtain d where "r = PDict d" "wf_dict d" by (auto simp: requirement_dicts_def)
  with Some show ?thesis by (simp add: check_scope_def Let_def attrs_eq_requirement)
qed

lemma check_action_run:
  assumes shape: "requirement_dicts reqs" and "set_order_ok P" and "finite (act_scopes a)"
  shows "\<exists>ev'. check_action P g reqs a ev = Inr ev' \<and> (ev_mismatches ev' = [] \<longleftrightarrow> ev_mismatches ev = []
     \<and> reference_ok g a \<and> (\<forall>s\<in>act_scopes a. \<forall>req. dict_get reqs s = Some (PDict req) \<longrightarrow> requirement_met a req))"
proof -
  let ?ss = "set_order P (act_scopes a)"
  have ss: "set ?ss = act_scopes a" using assms by (simp add: set_order_ok_def)
  obtain ev' where ev': "fold_r (check_scope reqs a) ?ss (check_reference g a ev) = Inr ev'"
    using fold_r_total check_scope_run [OF shape] by metis
  have "ev_mismatches ev' = [] \<longleftrightarrow> ev_mismatches (check_reference g a ev) = []
      \<and> (\<forall>s\<in>set ?ss. \<forall>req. dict_get reqs s = Some (PDict req) \<longrightarrow> requirement_met a req)"
    by (rule fold_r_iff [OF ev', where Q = "\<lambda>e. ev_mismatches e = []"])
      (metis check_scope_run [OF shape] sum.inject(2))
  with ev' ss show ?thesis by (simp add: check_action_def check_reference_mismatches)
qed

lemma checks_run:
  assumes shape: "requirement_dicts reqs" and P: "set_order_ok P" and fin: "\<forall>a\<in>set (plan_actions plan). finite (act_scopes a)"
    and ev0: "ev_mismatches ev0 = []"
  shows "\<exists>ev1 ev. fold_r (check_missing pid reqs)
        (sorted_list_of_set (set (map fst reqs) \<inter> art_scopes task - plan_scopes plan)) ev0 = Inr ev1
     \<and> fold_r (check_action P g reqs) (plan_actions plan) ev1 = Inr ev
     \<and> (ev_mismatches ev = [] \<longleftrightarrow> plan_conforms g reqs task plan)"
proof -
  let ?M = "set (map fst reqs) \<inter> art_scopes task - plan_scopes plan"
  have M: "set (sorted_list_of_set ?M) = ?M" by simp
  have run: "\<exists>ev'. check_missing pid reqs s ev = Inr ev' \<and> ev_mismatches ev' \<noteq> []"
    if "s \<in> set (sorted_list_of_set ?M)" for s ev
    using that check_missing_run [OF shape] unfolding M by blast
  then obtain ev1 where ev1: "fold_r (check_missing pid reqs) (sorted_list_of_set ?M) ev0 = Inr ev1"
    using fold_r_total by metis
  have "ev_mismatches ev1 = [] \<longleftrightarrow> ev_mismatches ev0 = [] \<and> (\<forall>s\<in>set (sorted_list_of_set ?M). False)"
    by (rule fold_r_iff [OF ev1, where Q = "\<lambda>e. ev_mismatches e = []"]) (metis run sum.inject(2))
  then have 1: "ev_mismatches ev1 = [] \<longleftrightarrow> ?M = {}" using ev0 M by auto
  obtain ev where ev: "fold_r (check_action P g reqs) (plan_actions plan) ev1 = Inr ev"
    using fold_r_total check_action_run [OF shape P] fin by metis
  have "ev_mismatches ev = [] \<longleftrightarrow> ev_mismatches ev1 = [] \<and> (\<forall>a\<in>set (plan_actions plan). reference_ok g a
      \<and> (\<forall>s\<in>act_scopes a. \<forall>req. dict_get reqs s = Some (PDict req) \<longrightarrow> requirement_met a req))"
    by (rule fold_r_iff [OF ev, where Q = "\<lambda>e. ev_mismatches e = []"])
      (metis check_action_run [OF shape P] fin sum.inject(2))
  then have "ev_mismatches ev = [] \<longleftrightarrow> plan_conforms g reqs task plan"
    using 1 by (auto simp: plan_conforms_def)
  with ev1 ev show ?thesis by blast
qed

text \<open>The verdict, with the grant that comes with it.\<close>

definition issued_grant ::
  "platform \<Rightarrow> int \<Rightarrow> string \<Rightarrow> authority \<Rightarrow> string \<Rightarrow> string \<Rightarrow> agent_plan \<Rightarrow> signed_grant"
where
  "issued_grant P now uid au run task_id plan =
     issue P (au_signer au) now uid run task_id (version_label (au_graph au))
       (stable_hash P (plan_dump plan)) ALLOW"

definition plan_verdict :: "graph \<Rightarrow> pyval dict \<Rightarrow> string \<Rightarrow> agent_plan \<Rightarrow> verdict" where
  "plan_verdict g reqs task_id plan = (case get_artifact g task_id of
     Inl _ \<Rightarrow> BLOCK
   | Inr task \<Rightarrow> if plan_ticket plan \<noteq> task_id then BLOCK
       else if plan_conforms g reqs task plan then ALLOW else REPLAN)"

theorem evaluate_plan_verdict:
  assumes ok: "requirements_ok (au_graph au)" and P: "set_order_ok P"
    and fin: "\<forall>a\<in>set (plan_actions plan). finite (act_scopes a)"
    and reqs: "current_requirements (au_graph au) = Inr reqs"
  shows "\<exists>res. evaluate_plan P now uid au run task_id plan report = Inr res
    \<and> ar_verdict res = plan_verdict (au_graph au) reqs task_id plan
    \<and> ar_grant res = (if ar_verdict res = ALLOW then Some (issued_grant P now uid au run task_id plan) else None)
    \<and> ar_version res = version_label (au_graph au) \<and> ar_task res = task_id
    \<and> (ar_mismatches res = [] \<longleftrightarrow> ar_verdict res \<noteq> REPLAN)"
proof -
  let ?g = "au_graph au"
  have shape: "requirement_dicts reqs"
    using requirement_shape [OF ok reqs] by (simp add: requirement_dicts_def)
  obtain creqs where creqs: "validated_requirements reqs = Inr creqs"
    using current_requirements_total [OF ok] reqs by (auto simp: validated_requirements_def)
  show ?thesis
  proof (cases "get_artifact ?g task_id")
    case (Inl e)
    then show ?thesis using reqs creqs by (simp add: evaluate_plan_def Let_def plan_verdict_def blocked_def)
  next
    case (Inr task)
    show ?thesis
    proof (cases "plan_ticket plan = task_id")
      case False
      then show ?thesis
        using Inr reqs creqs by (simp add: evaluate_plan_def Let_def plan_verdict_def blocked_def)
    next
      case True
      let ?ev0 = "\<lparr>ev_mismatches = [], ev_scopes = {}, ev_deps = {task_id, plan_id plan}\<rparr>"
      obtain ev1 ev where ev: "fold_r (check_missing (plan_id plan) reqs)
            (sorted_list_of_set (set (map fst reqs) \<inter> art_scopes task - plan_scopes plan)) ?ev0 = Inr ev1"
          "fold_r (check_action P ?g reqs) (plan_actions plan) ev1 = Inr ev"
          "ev_mismatches ev = [] \<longleftrightarrow> plan_conforms ?g reqs task plan"
        using checks_run [OF shape P fin, of ?ev0 "plan_id plan" task ?g] by auto
      obtain inval pres evid path where ctx: "report_context
          (case report of Some r \<Rightarrow> Some r | None \<Rightarrow> au_report au) (ev_deps ev) (plan_id plan) = (inval, pres, evid, path)"
        by (metis prod_cases4)
      show ?thesis
        using Inr True reqs creqs ev ctx
        by (simp add: evaluate_plan_def Let_def plan_verdict_def issued_grant_def)
    qed
  qed
qed

subsection \<open>Decision changes keep the requirements readable\<close>

lemma requirements_ok_change:
  assumes g: "wf_graph g" "wf_graph g'" and ok: "requirements_ok g"
    and get: "\<forall>i. get_artifact g' i = (if i = art_id d then Inr d
         else map_sum id (if affected_by g A r i then marked A else id) (get_artifact g i))"
    and d: "declared_requirements d \<noteq> None" "dt_aware (effective d)" "wf_pyval (PDict (art_attrs d))"
  shows "requirements_ok g'"
  unfolding requirements_ok_def
proof (intro ballI impI)
  fix a
  assume "a \<in> set (list_artifacts g')" and a: "art_kind a = Decision \<and> art_approval a = Some Approved"
  then have in': "get_artifact g' (art_id a) = Inr a" using list_artifacts_get [OF g(2)] by blast
  show "declared_requirements a \<noteq> None \<and> dt_aware (effective a) \<and> wf_pyval (PDict (art_attrs a))"
  proof (cases "art_id a = art_id d")
    case True
    then have "a = d" using get [rule_format, of "art_id a"] in' by simp
    with d show ?thesis by blast
  next
    case False
    then have "map_sum id (if affected_by g A r (art_id a) then marked A else id)
        (get_artifact g (art_id a)) = Inr a" using get [rule_format, of "art_id a"] in' by simp
    then obtain b where b: "get_artifact g (art_id a) = Inr b" "a = b \<or> a = marked A b"
      by (cases "get_artifact g (art_id a)") (simp_all split: if_splits)
    from b(2) have "art_kind a = art_kind b" "art_approval a = art_approval b" "effective a = effective b"
        "art_attrs a = art_attrs b" "declared_requirements a = declared_requirements b"
      by (elim disjE; simp add: effective_def declared_requirements_def)+
    note fields = this a
    have "art_id b = art_id a" using wf_graph_id [OF g(1) b(1)] .
    then have "b \<in> set (list_artifacts g)" using b(1) list_artifacts_get [OF g(1)] by simp
    with ok fields show ?thesis by (simp add: requirements_ok_def)
  qed
qed

definition authority_ok :: "authority \<Rightarrow> bool" where
  "authority_ok au \<longleftrightarrow> wf_graph (au_graph au) \<and> \<not> g_in_txn (au_graph au) \<and> requirements_ok (au_graph au)"

theorem apply_decision_change_keeps_ok:
  assumes "authority_ok au" and "apply_decision_change m au = (r, au')"
    and "dt_aware (effective (mut_decision m))" and "wf_pyval (PDict (art_attrs (mut_decision m)))"
  shows "authority_ok au'"
proof (cases "change_ok au m")
  case True
  then have decl: "declared_requirements (mut_decision m) \<noteq> None"
    using decision_refusal_None [of au m] unfolding change_ok_def by (elim conjE exE) auto
  obtain rep g' where au': "au' = au\<lparr>au_graph := g', au_report := Some rep\<rparr>" "wf_graph g'" "\<not> g_in_txn g'"
      and get: "\<forall>i. get_artifact g' i = (if i = art_id (mut_decision m) then Inr (mut_decision m)
         else map_sum id (if affected_by (au_graph au) (mut_scopes m) (mut_supersedes m) i
                          then marked (mut_scopes m) else id) (get_artifact (au_graph au) i))"
    using apply_decision_change_applies [OF _ _ True] assms(1,2) unfolding authority_ok_def by auto
  have "requirements_ok g'"
    by (rule requirements_ok_change [OF _ au'(2) _ get decl assms(3,4)])
       (use assms(1) in \<open>simp_all add: authority_ok_def\<close>)
  with au' show ?thesis by (simp add: authority_ok_def)
next
  case False
  have "\<not> (\<exists>res. r = Inr res \<and> mres_applied res)"
    using False assms(2)
    by (auto simp: apply_decision_change_def Let_def change_ok_def in_graph_get refused_def
        split: option.splits sum.splits if_splits)
  with apply_decision_change_unchanged(1) [OF _ _ assms(2)] assms(1) show ?thesis
    by (simp add: authority_ok_def)
qed

subsection \<open>When a grant is valid\<close>

theorem verify_grant_valid_iff:
  "verify_grant P now uid au token run task_id plan = Inr res \<and> vr_valid res \<longleftrightarrow>
   (\<exists>p fresh. decode P (au_signer au) token = Inr p \<and> gp_verdict p = ALLOW \<and> now < gp_expires p
     \<and> gp_run p = run \<and> gp_task p = task_id \<and> gp_plan_hash p = stable_hash P (plan_dump plan)
     \<and> gp_snapshot p = version_label (au_graph au)
     \<and> evaluate_plan P now uid au run task_id plan (au_report au) = Inr fresh \<and> ar_verdict fresh = ALLOW
     \<and> res = \<lparr>vr_valid = True, vr_code = VC_VALID, vr_reason = ''Grant is valid.'', vr_payload = Some p\<rparr>)"
  by (auto simp: verify_grant_def invalid_def split: sum.splits if_splits)

lemma issued_grant_payload:
  "sg_payload (issued_grant P now uid au run task_id plan) =
     \<lparr>gp_auth_id = ''AUTH-'' @ upper (take 8 uid), gp_run = run, gp_task = task_id,
      gp_snapshot = version_label (au_graph au), gp_plan_hash = stable_hash P (plan_dump plan),
      gp_verdict = ALLOW, gp_issued = now, gp_expires = now + sig_ttl (au_signer au) * 1000000\<rparr>"
  by (simp add: issued_grant_def issue_def Let_def)

definition codec_ok :: "platform \<Rightarrow> grant_payload \<Rightarrow> bool" where
  "codec_ok P p \<longleftrightarrow> payload_parse P (payload_json P p) = Inr p"

lemma decode_issued_grant:
  assumes "codec_ok P (sg_payload (issued_grant P now uid au run task_id plan))"
    and "au_signer au' = au_signer au"
  shows "decode P (au_signer au') (sg_token (issued_grant P now uid au run task_id plan)) =
    Inr (sg_payload (issued_grant P now uid au run task_id plan))"
  using decode_issue [OF issued_grant_def] assms by (simp add: codec_ok_def)

theorem grant_round_trip:
  assumes ok: "requirements_ok (au_graph au)" and P: "set_order_ok P"
    and fin: "\<forall>a\<in>set (plan_actions plan). finite (act_scopes a)"
    and allow: "evaluate_plan P now uid au run task_id plan report = Inr res" "ar_verdict res = ALLOW"
    and G: "ar_grant res = Some G" and codec: "codec_ok P (sg_payload G)"
    and same: "au_graph au' = au_graph au" "au_signer au' = au_signer au"
    and time: "now' < now + sig_ttl (au_signer au) * 1000000"
  shows "verify_grant P now' uid' au' (sg_token G) run task_id plan =
    Inr \<lparr>vr_valid = True, vr_code = VC_VALID, vr_reason = ''Grant is valid.'', vr_payload = Some (sg_payload G)\<rparr>"
proof -
  obtain reqs where reqs: "current_requirements (au_graph au) = Inr reqs"
    using current_requirements_total [OF ok] by blast
  from evaluate_plan_verdict [OF ok P fin reqs, of now uid run task_id report] allow G
  have v: "plan_verdict (au_graph au) reqs task_id plan = ALLOW"
    and g: "G = issued_grant P now uid au run task_id plan" by auto
  obtain fresh where fresh: "evaluate_plan P now' uid' au' run task_id plan (au_report au') = Inr fresh"
      "ar_verdict fresh = ALLOW"
    using evaluate_plan_verdict [of au' P plan reqs now' uid' run task_id "au_report au'"] ok P fin reqs same v by auto
  have "decode P (au_signer au') (sg_token G) = Inr (sg_payload G)"
    using decode_issued_grant codec same(2) unfolding g by blast
  with fresh time same show ?thesis
    unfolding g issued_grant_payload by (simp add: verify_grant_def)
qed

theorem verified_plan_is_issued_plan:
  assumes P: "float_repr_ok P" and wf: "wf_plan plan0" "wf_plan plan"
    and coll: "no_collision P (canonical_json P (plan_dump plan0)) (canonical_json P (plan_dump plan))"
    and G: "G = issued_grant P now uid au run0 task0 plan0" and codec: "codec_ok P (sg_payload G)"
    and same: "au_signer au' = au_signer au"
    and valid: "verify_grant P now' uid' au' (sg_token G) run task_id plan = Inr res" "vr_valid res"
  shows "run = run0 \<and> task_id = task0 \<and> plan_eq plan0 plan
    \<and> g_version (au_graph au') = g_version (au_graph au) \<and> now' < now + sig_ttl (au_signer au) * 1000000"
proof -
  have "decode P (au_signer au') (sg_token G) = Inr (sg_payload G)"
    using decode_issued_grant codec same unfolding G by blast
  with valid verify_grant_valid_iff [of P now' uid' au' "sg_token G" run task_id plan res]
  have *: "gp_run (sg_payload G) = run" "gp_task (sg_payload G) = task_id" "now' < gp_expires (sg_payload G)"
      "gp_plan_hash (sg_payload G) = stable_hash P (plan_dump plan)"
      "gp_snapshot (sg_payload G) = version_label (au_graph au')"
    by auto
  then have "stable_hash P (plan_dump plan0) = stable_hash P (plan_dump plan)"
    by (simp add: G issued_grant_payload)
  then have "plan_eq plan0 plan" using stable_hash_plan_eq [OF P wf coll] by blast
  with * show ?thesis by (simp add: G issued_grant_payload version_label_def)
qed

subsection \<open>A grant does not survive a decision change\<close>

definition decision_step :: "authority \<Rightarrow> authority \<Rightarrow> bool" where
  "decision_step au au' \<longleftrightarrow> (\<exists>m. au' = snd (apply_decision_change m au))"

lemma decision_step_cases:
  assumes "wf_graph (au_graph au)" and "\<not> g_in_txn (au_graph au)" and "decision_step au au'"
  shows "wf_graph (au_graph au') \<and> \<not> g_in_txn (au_graph au') \<and> au_signer au' = au_signer au
    \<and> (au' = au \<or> g_version (au_graph au') = g_version (au_graph au) + 1)"
proof -
  obtain m r where m: "apply_decision_change m au = (r, au')"
    using assms(3) unfolding decision_step_def by (metis prod.collapse)
  show ?thesis
  proof (cases "\<exists>res. r = Inr res \<and> mres_applied res")
    case False
    with apply_decision_change_unchanged(1) [OF assms(1,2) m] assms show ?thesis by simp
  next
    case True
    then have "change_ok au m"
      using m by (auto simp: apply_decision_change_def Let_def change_ok_def in_graph_get refused_def
          split: option.splits sum.splits if_splits)
    from apply_decision_change_applies [OF assms(1,2) this] m show ?thesis by auto
  qed
qed

lemma decision_steps_version:
  assumes "decision_step\<^sup>*\<^sup>* au au'" and "wf_graph (au_graph au)" and "\<not> g_in_txn (au_graph au)"
  shows "wf_graph (au_graph au') \<and> \<not> g_in_txn (au_graph au') \<and> au_signer au' = au_signer au
    \<and> (au' = au \<or> g_version (au_graph au) < g_version (au_graph au'))"
  using assms
proof (induction rule: rtranclp_induct)
  case (step b c)
  then show ?case using decision_step_cases [of b c] by auto
qed simp

theorem grant_stale_after_changes:
  assumes "wf_graph (au_graph au)" and "\<not> g_in_txn (au_graph au)"
    and "decision_step\<^sup>*\<^sup>* au au'" and "au' \<noteq> au"
    and "decode P (au_signer au) token = Inr p" and "gp_snapshot p = version_label (au_graph au)"
  shows "\<not> (\<exists>res. verify_grant P now uid au' token run task_id plan = Inr res \<and> vr_valid res)"
proof
  assume "\<exists>res. verify_grant P now uid au' token run task_id plan = Inr res \<and> vr_valid res"
  then obtain p' where "decode P (au_signer au') token = Inr p'" "gp_snapshot p' = version_label (au_graph au')"
    using verify_grant_valid_iff by metis
  moreover have "au_signer au' = au_signer au" "g_version (au_graph au) < g_version (au_graph au')"
    using decision_steps_version [OF assms(3,1,2)] assms(4) by auto
  ultimately show False using assms(5,6) by (auto simp: version_label_def)
qed

end
