(* ===== verification/Loop.thy ===== *)
theory Loop
  imports Authorization
begin

text \<open>
  \<^verbatim>\<open>loop/workflow.py\<close>: the agent's side of the loop. A controller owns a run, asks the authority
  for a verdict and moves the run's state; a rejected plan is corrected by copying the current
  requirements into its actions. The LangGraph version of the loop is the same nodes under a
  scheduler that stops after a number of steps, which is an argument here. A stored
  requirement that is not an object makes the correction raise: the model raises the
  validation error that the evaluation after it would.
\<close>

subsection \<open>Correcting a plan\<close>

definition replan_scope :: "attributes dict \<Rightarrow> string \<Rightarrow> plan_action \<Rightarrow> plan_action" where
  "replan_scope reqs scope a = (case dict_get reqs scope of
     None \<Rightarrow> a
   | Some expected \<Rightarrow>
       if expected = [] then a
       else (let a' = a\<lparr>act_attrs := dict_update (act_attrs a) expected\<rparr> in
         if scope = ''export.authorization'' \<and> dict_get expected ''audience'' = Some (PStr ''admin_only'')
         then a'\<lparr>act_description := ''Expose the CSV export control to administrators only''\<rparr>
         else a'))"

definition replan_action :: "platform \<Rightarrow> attributes dict \<Rightarrow> plan_action \<Rightarrow> plan_action" where
  "replan_action P reqs a = fold (replan_scope reqs) (set_order P (act_scopes a)) a"

definition replan_for_requirements :: "platform \<Rightarrow> agent_plan \<Rightarrow> attributes dict \<Rightarrow> agent_plan" where
  "replan_for_requirements P plan reqs =
     plan\<lparr>plan_id := ''PLAN-028'', plan_actions := map (replan_action P reqs) (plan_actions plan)\<rparr>"

subsection \<open>The controller\<close>

definition apply_authorization_result :: "agent_run \<Rightarrow> authorization_result \<Rightarrow> agent_run" where
  "apply_authorization_result run res =
     run\<lparr>run_snapshot := Some (ar_version res),
         run_grant := map_option sg_token (ar_grant res),
         run_state := (case ar_verdict res of ALLOW \<Rightarrow> L_ACT | REPLAN \<Rightarrow> L_REPLAN
                       | BLOCK \<Rightarrow> L_BLOCKED | HUMAN_REVIEW \<Rightarrow> L_HUMAN_REVIEW)\<rparr>"

record controller =
  ct_authority :: authority
  ct_run :: agent_run
  ct_last :: "authorization_result option"

definition make_controller :: "authority \<Rightarrow> agent_run \<Rightarrow> controller" where
  "make_controller au run = \<lparr>ct_authority = au, ct_run = run, ct_last = None\<rparr>"

text \<open>The evaluation and \<open>_apply_result\<close>, shared by the three methods, with their history line.\<close>

definition verify_run :: "platform \<Rightarrow> int \<Rightarrow> string \<Rightarrow> string \<Rightarrow> (controller, authorization_result) op" where
  "verify_run P now uid label c = (let c1 = c\<lparr>ct_run := (ct_run c)\<lparr>run_state := L_VERIFY\<rparr>\<rparr>; run = ct_run c1 in
     case evaluate_plan P now uid (ct_authority c1) (run_id run) (run_ticket run) (run_plan run)
            (au_report (ct_authority c1)) of
       Inl e \<Rightarrow> (Inl e, c1)
     | Inr res \<Rightarrow>
         let run' = apply_authorization_result run res in
         (Inr res, c1\<lparr>ct_last := Some res,
            ct_run := run'\<lparr>run_history := run_history run' @ [label @ '': '' @ verdict_value (ar_verdict res)]\<rparr>\<rparr>))"

definition start :: "platform \<Rightarrow> int \<Rightarrow> string \<Rightarrow> (controller, authorization_result) op" where
  "start P now uid = verify_run P now uid ''Initial verification''"

definition recheck :: "platform \<Rightarrow> int \<Rightarrow> string \<Rightarrow> (controller, authorization_result) op" where
  "recheck P now uid = verify_run P now uid ''Reauthorization''"

definition mark_tests_passed :: "(controller, unit) op" where
  "mark_tests_passed c = (Inr (), c\<lparr>ct_run := (ct_run c)\<lparr>run_tests_passed := True, run_state := L_ACT,
     run_history := run_history (ct_run c) @ [''Implementation complete; tests passed.'']\<rparr>\<rparr>)"

definition replan :: "platform \<Rightarrow> int \<Rightarrow> string \<Rightarrow> (controller, authorization_result) op" where
  "replan P now uid c =
     (case bind_r (current_requirements (au_graph (ct_authority c))) validated_requirements of
        Inl e \<Rightarrow> (Inl e, c)
      | Inr reqs \<Rightarrow>
          verify_run P now uid ''Corrected plan verification''
            (c\<lparr>ct_run := (ct_run c)\<lparr>run_plan := replan_for_requirements P (run_plan (ct_run c)) reqs\<rparr>\<rparr>))"

subsection \<open>The workflow graph\<close>

record workflow_state =
  ws_run :: agent_run
  ws_authorization :: "authorization_result option"

definition verify_node :: "platform \<Rightarrow> int \<Rightarrow> string \<Rightarrow> authority \<Rightarrow> workflow_state \<Rightarrow> workflow_state result" where
  "verify_node P now uid au s = (let run = ws_run s in
     bind_r (evaluate_plan P now uid au (run_id run) (run_ticket run) (run_plan run) (au_report au))
       (\<lambda>res. Inr (s\<lparr>ws_authorization := Some res\<rparr>)))"

definition act_node :: "workflow_state \<Rightarrow> workflow_state" where
  "act_node s = s\<lparr>ws_run := (ws_run s)\<lparr>run_state := L_ACT\<rparr>\<rparr>"

definition replan_node :: "platform \<Rightarrow> authority \<Rightarrow> workflow_state \<Rightarrow> workflow_state result" where
  "replan_node P au s =
     bind_r (bind_r (current_requirements (au_graph au)) validated_requirements) (\<lambda>reqs.
     Inr (s\<lparr>ws_run := (ws_run s)\<lparr>run_plan := replan_for_requirements P (run_plan (ws_run s)) reqs,
                                 run_state := L_REPLAN\<rparr>\<rparr>))"

text \<open>
  The compiled graph from its verify node on: at most the given number of node executions, as
  the scheduler's recursion limit, after which it raises.
\<close>

fun run_workflow :: "nat \<Rightarrow> platform \<Rightarrow> int \<Rightarrow> string \<Rightarrow> authority \<Rightarrow> workflow_state \<Rightarrow> workflow_state result" where
  "run_workflow 0 P now uid au s = Inl (RuntimeError ''Recursion limit reached'')"
| "run_workflow (Suc n) P now uid au s =
     bind_r (verify_node P now uid au s) (\<lambda>s1.
     case map_option ar_verdict (ws_authorization s1) of
       Some ALLOW \<Rightarrow> if n = 0 then Inl (RuntimeError ''Recursion limit reached'') else Inr (act_node s1)
     | Some REPLAN \<Rightarrow>
         (case n of 0 \<Rightarrow> Inl (RuntimeError ''Recursion limit reached'')
          | Suc k \<Rightarrow> bind_r (replan_node P au s1) (run_workflow k P now uid au))
     | _ \<Rightarrow> Inr s1)"

subsection \<open>What a correction achieves\<close>

text \<open>The requirements of an action's scopes do not contradict each other.\<close>

definition compatible :: "attributes dict \<Rightarrow> plan_action \<Rightarrow> bool" where
  "compatible reqs a \<longleftrightarrow> (\<forall>s\<in>act_scopes a. \<forall>t\<in>act_scopes a. \<forall>r q. dict_get reqs s = Some r \<longrightarrow>
     dict_get reqs t = Some q \<longrightarrow> (\<forall>k v w. dict_get r k = Some v \<longrightarrow> dict_get q k = Some w \<longrightarrow> py_eq v w))"

lemma replan_scope_fields [simp]:
  "act_id (replan_scope reqs s a) = act_id a" "act_scopes (replan_scope reqs s a) = act_scopes a"
  by (simp_all add: replan_scope_def Let_def split: option.splits)

lemma fold_replan_fields [simp]:
  "act_id (fold (replan_scope reqs) ss a) = act_id a" "act_scopes (fold (replan_scope reqs) ss a) = act_scopes a"
  by (induction ss arbitrary: a) simp_all

lemma replan_action_fields [simp]:
  "act_id (replan_action P reqs a) = act_id a" "act_scopes (replan_action P reqs a) = act_scopes a"
  by (simp_all add: replan_action_def)

definition requirements_wf :: "attributes dict \<Rightarrow> bool" where
  "requirements_wf reqs \<longleftrightarrow> (\<forall>s r. dict_get reqs s = Some r \<longrightarrow> wf_dict r)"

definition demand :: "attributes dict \<Rightarrow> string \<Rightarrow> string \<Rightarrow> pyval option" where
  "demand reqs k s = (case dict_get reqs s of None \<Rightarrow> None | Some r \<Rightarrow> dict_get r k)"

definition take_demand :: "attributes dict \<Rightarrow> string \<Rightarrow> string \<Rightarrow> pyval option \<Rightarrow> pyval option" where
  "take_demand reqs k s v = (case demand reqs k s of None \<Rightarrow> v | Some w \<Rightarrow> Some w)"

lemma replan_scope_attr:
  assumes "requirements_wf reqs"
  shows "dict_get (act_attrs (replan_scope reqs s a)) k = take_demand reqs k s (dict_get (act_attrs a) k)"
proof (cases "dict_get reqs s")
  case (Some r)
  then have "dict_get (rev r) k = dict_get r k"
    using assms by (simp add: map_of_rev_distinct requirements_wf_def)
  with Some show ?thesis
    by (simp add: replan_scope_def take_demand_def demand_def Let_def dict_get_update split: option.splits)
qed (simp add: replan_scope_def take_demand_def demand_def)

lemma fold_replan_attr:
  "requirements_wf reqs \<Longrightarrow> dict_get (act_attrs (fold (replan_scope reqs) ss a)) k =
     fold (take_demand reqs k) ss (dict_get (act_attrs a) k)"
  by (induction ss arbitrary: a) (simp_all add: replan_scope_attr)

text \<open>After the pass over the scopes, a key holds what one of the scopes that mention it demands.\<close>

lemma fold_take_demand:
  "fold (take_demand reqs k) ss v = v \<and> (\<forall>s\<in>set ss. demand reqs k s = None)
   \<or> (\<exists>s\<in>set ss. demand reqs k s \<noteq> None \<and> fold (take_demand reqs k) ss v = demand reqs k s)"
proof (induction ss rule: rev_induct)
  case Nil
  then show ?case by simp
next
  case (snoc s ss)
  then show ?case by (cases "demand reqs k s") (auto simp: take_demand_def)
qed

lemma dict_get_values:
  "dict_get (map (\<lambda>(k, r). (k, PDict r)) creqs) s = map_option PDict (dict_get creqs s)"
  by (induction creqs) auto

lemma replan_action_meets:
  assumes P: "set_order_ok P" "finite (act_scopes a)"
    and wf: "requirements_wf reqs" and comp: "compatible reqs a"
    and s: "s \<in> act_scopes a" "dict_get reqs s = Some req"
  shows "requirement_met (replan_action P reqs a) req"
  unfolding requirement_met_def
proof (clarify)
  fix k v
  assume kv: "(k, v) \<in> set req"
  then have v: "dict_get req k = Some v" using wf s(2) by (simp add: requirements_wf_def)
  let ?ss = "set_order P (act_scopes a)"
  have ss: "set ?ss = act_scopes a" using P by (simp add: set_order_ok_def)
  have "s \<in> set ?ss \<and> demand reqs k s \<noteq> None" using s v ss by (simp add: demand_def)
  then have "\<exists>t\<in>set ?ss. demand reqs k t \<noteq> None
      \<and> dict_get (act_attrs (replan_action P reqs a)) k = demand reqs k t"
    using fold_take_demand [of reqs k ?ss "dict_get (act_attrs a) k"]
    unfolding replan_action_def fold_replan_attr [OF wf] by (elim disjE conjE) simp_all
  then obtain t where "t \<in> act_scopes a" "demand reqs k t \<noteq> None"
      "dict_get (act_attrs (replan_action P reqs a)) k = demand reqs k t"
    unfolding ss by blast
  then obtain q w where t: "t \<in> act_scopes a" "dict_get reqs t = Some q" "dict_get q k = Some w"
      "dict_get (act_attrs (replan_action P reqs a)) k = Some w"
    by (auto simp: demand_def split: option.splits)
  have "py_eq w v" using comp t(1-3) s v unfolding compatible_def by blast
  with t(4) show "py_eq (attr_or_none (act_attrs (replan_action P reqs a)) k) v"
    by (simp add: attr_or_none_def)
qed

lemma plan_scopes_replan [simp]: "plan_scopes (replan_for_requirements P plan reqs) = plan_scopes plan"
  by (simp add: plan_scopes_def replan_for_requirements_def)

lemma replan_keeps:
  assumes "requirements_wf reqs" and "\<forall>s\<in>set (set_order P (act_scopes a)). demand reqs k s = None"
  shows "dict_get (act_attrs (replan_action P reqs a)) k = dict_get (act_attrs a) k"
  using fold_take_demand [of reqs k "set_order P (act_scopes a)" "dict_get (act_attrs a) k"] assms(2)
  unfolding replan_action_def fold_replan_attr [OF assms(1)] by (elim disjE conjE bexE) simp_all

text \<open>A corrected plan conforms when the plan covers the task's required scopes and names valid tasks.\<close>

lemma replanned_plan_conforms:
  assumes P: "set_order_ok P" and fin: "\<forall>a\<in>set (plan_actions plan). finite (act_scopes a)"
    and wf: "requirements_wf creqs"
    and comp: "\<forall>a\<in>set (plan_actions plan). compatible creqs a"
    and keep: "\<forall>s. demand creqs ''task_id'' s = None"
    and refs: "\<forall>a\<in>set (plan_actions plan). reference_ok g a"
    and cover: "set (map fst creqs) \<inter> art_scopes task \<subseteq> plan_scopes plan"
  shows "plan_conforms g (map (\<lambda>(k, r). (k, PDict r)) creqs) task (replan_for_requirements P plan creqs)"
  unfolding plan_conforms_def
proof (intro conjI ballI allI impI)
  have "map fst (map (\<lambda>(k, r). (k, PDict r)) creqs) = map fst creqs" by (induction creqs) auto
  then show "set (map fst (map (\<lambda>(k, r). (k, PDict r)) creqs)) \<inter> art_scopes task
      \<subseteq> plan_scopes (replan_for_requirements P plan creqs)"
    using cover by simp
next
  fix b
  assume "b \<in> set (plan_actions (replan_for_requirements P plan creqs))"
  then obtain a where a: "a \<in> set (plan_actions plan)" "b = replan_action P creqs a"
    by (auto simp: replan_for_requirements_def)
  show "reference_ok g b"
    using refs a replan_keeps [OF wf, of P a "''task_id''"] keep by (simp add: reference_ok_def)
  fix s req
  assume "s \<in> act_scopes b" "dict_get (map (\<lambda>(k, r). (k, PDict r)) creqs) s = Some (PDict req)"
  then show "requirement_met b req"
    using replan_action_meets [OF P _ wf, of a s req] fin comp a by (auto simp: dict_get_values)
qed

subsection \<open>The controller's state\<close>

lemma map_sum_id_Inr: "map_sum id f x = Inr y \<longleftrightarrow> (\<exists>z. x = Inr z \<and> y = f z)"
  by (cases x) auto

lemma evaluate_plan_result:
  assumes "evaluate_plan P now uid au run task_id plan report = Inr res"
  shows "ar_grant res = (if ar_verdict res = ALLOW then Some (issued_grant P now uid au run task_id plan) else None)
    \<and> ar_verdict res \<noteq> HUMAN_REVIEW \<and> ar_version res = version_label (au_graph au)"
proof (cases "get_artifact (au_graph au) task_id")
  case (Inl e)
  with assms show ?thesis
    by (auto simp: evaluate_plan_def Let_def blocked_def map_sum_id_Inr)
next
  case (Inr task)
  with assms show ?thesis
    by (cases "plan_ticket plan = task_id")
      (auto simp: evaluate_plan_def Let_def blocked_def issued_grant_def map_sum_id_Inr case_prod_beta
        split: if_split_asm)
qed

lemma verify_run_reflects:
  assumes "verify_run P now uid label c = (Inr res, c')"
  shows "run_state (ct_run c') = (case ar_verdict res of ALLOW \<Rightarrow> L_ACT | REPLAN \<Rightarrow> L_REPLAN
      | BLOCK \<Rightarrow> L_BLOCKED | HUMAN_REVIEW \<Rightarrow> L_HUMAN_REVIEW)
    \<and> run_grant (ct_run c') = (if run_state (ct_run c') = L_ACT
        then Some (sg_token (issued_grant P now uid (ct_authority c) (run_id (ct_run c))
               (run_ticket (ct_run c)) (run_plan (ct_run c)))) else None)
    \<and> run_snapshot (ct_run c') = Some (version_label (au_graph (ct_authority c)))
    \<and> run_plan (ct_run c') = run_plan (ct_run c) \<and> ct_last c' = Some res
    \<and> run_history (ct_run c') = run_history (ct_run c) @ [label @ '': '' @ verdict_value (ar_verdict res)]"
proof -
  obtain ev where ev: "evaluate_plan P now uid (ct_authority c) (run_id (ct_run c)) (run_ticket (ct_run c))
      (run_plan (ct_run c)) (au_report (ct_authority c)) = Inr ev" and "ev = res"
    using assms by (auto simp: verify_run_def Let_def split: sum.splits)
  with evaluate_plan_result [OF ev] assms show ?thesis
    by (cases "ar_verdict res") (auto simp: verify_run_def Let_def apply_authorization_result_def)
qed

lemma verify_run_fails:
  assumes "verify_run P now uid label c = (Inl e, c')"
  shows "run_state (ct_run c') = L_VERIFY \<and> run_grant (ct_run c') = run_grant (ct_run c) \<and> ct_last c' = ct_last c"
  using assms by (auto simp: verify_run_def Let_def split: sum.splits)

text \<open>The requirements an authority that can be read shows, as objects.\<close>

lemma requirements_ok_read:
  assumes "requirements_ok g"
  shows "\<exists>reqs creqs. current_requirements g = Inr reqs \<and> reqs = map (\<lambda>(k, r). (k, PDict r)) creqs
    \<and> bind_r (current_requirements g) validated_requirements = Inr creqs \<and> requirements_wf creqs"
proof -
  obtain reqs creqs where r: "current_requirements g = Inr reqs" "dict_values reqs = Some creqs"
    using current_requirements_total [OF assms] by blast
  then have eq: "reqs = map (\<lambda>(k, r). (k, PDict r)) creqs" by (metis dict_values_Some)
  have "wf_dict r" if "dict_get creqs s = Some r" for s r
    using requirement_shape [OF assms r(1), of s "PDict r"] that by (simp add: eq dict_get_values)
  with r eq show ?thesis by (simp add: validated_requirements_def requirements_wf_def)
qed

text \<open>What a controller's run must satisfy for a correction to succeed.\<close>

definition correctable :: "graph \<Rightarrow> agent_run \<Rightarrow> bool" where
  "correctable g run \<longleftrightarrow> (\<exists>task creqs. get_artifact g (run_ticket run) = Inr task
     \<and> bind_r (current_requirements g) validated_requirements = Inr creqs
     \<and> plan_ticket (run_plan run) = run_ticket run
     \<and> (\<forall>a\<in>set (plan_actions (run_plan run)). finite (act_scopes a) \<and> compatible creqs a \<and> reference_ok g a)
     \<and> (\<forall>s. demand creqs ''task_id'' s = None)
     \<and> set (map fst creqs) \<inter> art_scopes task \<subseteq> plan_scopes (run_plan run))"

lemma corrected_verdict:
  assumes P: "set_order_ok P" and ok: "requirements_ok g" and c: "correctable g run"
  shows "\<exists>reqs creqs. current_requirements g = Inr reqs
    \<and> bind_r (current_requirements g) validated_requirements = Inr creqs
    \<and> plan_verdict g reqs (run_ticket run) (replan_for_requirements P (run_plan run) creqs) = ALLOW
    \<and> (\<forall>a\<in>set (plan_actions (replan_for_requirements P (run_plan run) creqs)). finite (act_scopes a))"
proof -
  obtain reqs creqs where r: "current_requirements g = Inr reqs" "reqs = map (\<lambda>(k, r). (k, PDict r)) creqs"
      "bind_r (current_requirements g) validated_requirements = Inr creqs" "requirements_wf creqs"
    using requirements_ok_read [OF ok] by blast
  from c r(3) obtain task where t: "get_artifact g (run_ticket run) = Inr task"
      "plan_ticket (run_plan run) = run_ticket run"
      "\<forall>a\<in>set (plan_actions (run_plan run)). finite (act_scopes a) \<and> compatible creqs a \<and> reference_ok g a"
      "\<forall>s. demand creqs ''task_id'' s = None" "set (map fst creqs) \<inter> art_scopes task \<subseteq> plan_scopes (run_plan run)"
    unfolding correctable_def by auto
  have "plan_conforms g reqs task (replan_for_requirements P (run_plan run) creqs)"
    unfolding r(2) using t by (intro replanned_plan_conforms [OF P _ r(4)]) blast+
  then have "plan_verdict g reqs (run_ticket run) (replan_for_requirements P (run_plan run) creqs) = ALLOW"
    using t(1,2) by (simp add: plan_verdict_def replan_for_requirements_def)
  moreover have "\<forall>a\<in>set (plan_actions (replan_for_requirements P (run_plan run) creqs)). finite (act_scopes a)"
    using t(3) by (auto simp: replan_for_requirements_def)
  ultimately show ?thesis using r by blast
qed

theorem replan_reaches_act:
  assumes P: "set_order_ok P" and ok: "requirements_ok (au_graph (ct_authority c))"
    and c: "correctable (au_graph (ct_authority c)) (ct_run c)"
  shows "\<exists>res c'. replan P now uid c = (Inr res, c') \<and> ar_verdict res = ALLOW
    \<and> run_state (ct_run c') = L_ACT
    \<and> run_grant (ct_run c') = Some (sg_token (issued_grant P now uid (ct_authority c) (run_id (ct_run c))
        (run_ticket (ct_run c)) (run_plan (ct_run c'))))"
proof -
  let ?au = "ct_authority c" and ?run = "ct_run c"
  obtain reqs creqs where r: "current_requirements (au_graph ?au) = Inr reqs"
      "bind_r (current_requirements (au_graph ?au)) validated_requirements = Inr creqs"
      "plan_verdict (au_graph ?au) reqs (run_ticket ?run) (replan_for_requirements P (run_plan ?run) creqs) = ALLOW"
      "\<forall>a\<in>set (plan_actions (replan_for_requirements P (run_plan ?run) creqs)). finite (act_scopes a)"
    using corrected_verdict [OF P ok c] by blast
  let ?c1 = "c\<lparr>ct_run := ?run\<lparr>run_plan := replan_for_requirements P (run_plan ?run) creqs\<rparr>\<rparr>"
  obtain res where res: "evaluate_plan P now uid ?au (run_id ?run) (run_ticket ?run)
      (replan_for_requirements P (run_plan ?run) creqs) (au_report ?au) = Inr res" "ar_verdict res = ALLOW"
    using evaluate_plan_verdict [OF ok P r(4) r(1)] r(3) by metis
  obtain c' where c': "verify_run P now uid ''Corrected plan verification'' ?c1 = (Inr res, c')"
    using res by (simp add: verify_run_def Let_def)
  have "replan P now uid c = (Inr res, c')"
    unfolding replan_def r(2) using c' by simp
  with verify_run_reflects [OF c'] res(2) show ?thesis by auto
qed

subsection \<open>The workflow\<close>

theorem workflow_ends_decided:
  "run_workflow n P now uid au s = Inr s' \<Longrightarrow>
   \<exists>res. ws_authorization s' = Some res \<and> ar_verdict res \<noteq> REPLAN
     \<and> (ar_verdict res = ALLOW \<longrightarrow> run_state (ws_run s') = L_ACT)"
proof (induction n arbitrary: s rule: less_induct)
  case (less n)
  show ?case
  proof (cases n)
    case 0
    with less.prems show ?thesis by simp
  next
    case (Suc m)
    with less.prems obtain s1 where s1: "verify_node P now uid au s = Inr s1" by auto
    then obtain res where res: "ws_authorization s1 = Some res" by (auto simp: verify_node_def Let_def)
    show ?thesis
    proof (cases "ar_verdict res = REPLAN")
      case True
      with less.prems Suc s1 res obtain k s2 where "m = Suc k" "run_workflow k P now uid au s2 = Inr s'"
        by (auto split: nat.splits)
      with less.IH [of k s2] Suc show ?thesis by simp
    next
      case False
      with less.prems Suc s1 res show ?thesis
        by (cases "ar_verdict res") (auto simp: act_node_def split: if_splits)
    qed
  qed
qed

text \<open>A correctable run is decided within four node executions, in ACT.\<close>

lemma workflow_allows:
  assumes "verify_node P now uid au s = Inr s1" and "ws_authorization s1 = Some res" and "ar_verdict res = ALLOW"
  shows "run_workflow (Suc (Suc n)) P now uid au s = Inr (act_node s1)"
  using assms by simp

lemma verify_node_verdict:
  assumes P: "set_order_ok P" and ok: "requirements_ok (au_graph au)"
    and r: "current_requirements (au_graph au) = Inr reqs"
    and fin: "\<forall>a\<in>set (plan_actions (run_plan (ws_run s))). finite (act_scopes a)"
  shows "\<exists>res. verify_node P now uid au s = Inr (s\<lparr>ws_authorization := Some res\<rparr>)
    \<and> ar_verdict res = plan_verdict (au_graph au) reqs (run_ticket (ws_run s)) (run_plan (ws_run s))"
  using evaluate_plan_verdict [OF ok P fin r, of now uid "run_id (ws_run s)" "run_ticket (ws_run s)" "au_report au"]
  by (auto simp: verify_node_def Let_def)

theorem workflow_corrects:
  assumes P: "set_order_ok P" and ok: "requirements_ok (au_graph au)"
    and c: "correctable (au_graph au) (ws_run s)" and n: "4 \<le> n"
  shows "\<exists>s'. run_workflow n P now uid au s = Inr s' \<and> run_state (ws_run s') = L_ACT"
proof -
  let ?run = "ws_run s"
  obtain reqs creqs where r: "current_requirements (au_graph au) = Inr reqs"
      "bind_r (current_requirements (au_graph au)) validated_requirements = Inr creqs"
      "plan_verdict (au_graph au) reqs (run_ticket ?run) (replan_for_requirements P (run_plan ?run) creqs) = ALLOW"
      "\<forall>a\<in>set (plan_actions (replan_for_requirements P (run_plan ?run) creqs)). finite (act_scopes a)"
    using corrected_verdict [OF P ok c] by blast
  obtain k where n: "n = Suc (Suc (Suc (Suc k)))" using n that [of "n - 4"] by simp
  have fin: "\<forall>a\<in>set (plan_actions (run_plan ?run)). finite (act_scopes a)" and tick: "plan_ticket (run_plan ?run) = run_ticket ?run"
    and task: "\<exists>task. get_artifact (au_graph au) (run_ticket ?run) = Inr task"
    using c by (auto simp: correctable_def)
  obtain res where v: "verify_node P now uid au s = Inr (s\<lparr>ws_authorization := Some res\<rparr>)"
      "ar_verdict res = plan_verdict (au_graph au) reqs (run_ticket ?run) (run_plan ?run)"
    using verify_node_verdict [OF P ok r(1) fin] by blast
  show ?thesis
  proof (cases "ar_verdict res = ALLOW")
    case True
    with v(1) have "run_workflow n P now uid au s = Inr (act_node (s\<lparr>ws_authorization := Some res\<rparr>))"
      unfolding n by (intro workflow_allows) simp_all
    then show ?thesis by (simp add: act_node_def)
  next
    case False
    with v(2) task tick have R: "ar_verdict res = REPLAN" by (auto simp: plan_verdict_def split: if_splits)
    let ?s1 = "s\<lparr>ws_authorization := Some res\<rparr>"
    let ?s2 = "?s1\<lparr>ws_run := ?run\<lparr>run_plan := replan_for_requirements P (run_plan ?run) creqs, run_state := L_REPLAN\<rparr>\<rparr>"
    have step: "replan_node P au ?s1 = Inr ?s2" unfolding replan_node_def r(2) by simp
    obtain res2 where v2: "verify_node P now uid au ?s2 = Inr (?s2\<lparr>ws_authorization := Some res2\<rparr>)" "ar_verdict res2 = ALLOW"
      using verify_node_verdict [OF P ok r(1), where s = ?s2 and now = now and uid = uid] r(3,4) by auto
    have "run_workflow (Suc (Suc k)) P now uid au ?s2 = Inr (act_node (?s2\<lparr>ws_authorization := Some res2\<rparr>))"
      using v2 by (intro workflow_allows) simp_all
    then have "run_workflow n P now uid au s = Inr (act_node (?s2\<lparr>ws_authorization := Some res2\<rparr>))"
      unfolding n run_workflow.simps(2) [of "Suc (Suc (Suc k))"] v(1) using step R by simp
    then show ?thesis by (simp add: act_node_def)
  qed
qed

text \<open>A scope the task requires and the plan does not cover: every limit is used up.\<close>

definition uncovered :: "authority \<Rightarrow> workflow_state \<Rightarrow> bool" where
  "uncovered au s \<longleftrightarrow> (\<exists>task reqs. get_artifact (au_graph au) (run_ticket (ws_run s)) = Inr task
     \<and> current_requirements (au_graph au) = Inr reqs
     \<and> plan_ticket (run_plan (ws_run s)) = run_ticket (ws_run s)
     \<and> (\<forall>a\<in>set (plan_actions (run_plan (ws_run s))). finite (act_scopes a))
     \<and> \<not> set (map fst reqs) \<inter> art_scopes task \<subseteq> plan_scopes (run_plan (ws_run s)))"

theorem workflow_never_ends:
  assumes P: "set_order_ok P" and ok: "requirements_ok (au_graph au)" and s: "uncovered au s"
  shows "run_workflow n P now uid au s = Inl (RuntimeError ''Recursion limit reached'')"
  using s
proof (induction n arbitrary: s rule: less_induct)
  case (less n)
  let ?run = "ws_run s"
  from less.prems obtain task reqs where u: "get_artifact (au_graph au) (run_ticket ?run) = Inr task"
      "current_requirements (au_graph au) = Inr reqs" "plan_ticket (run_plan ?run) = run_ticket ?run"
      "\<forall>a\<in>set (plan_actions (run_plan ?run)). finite (act_scopes a)"
      "\<not> set (map fst reqs) \<inter> art_scopes task \<subseteq> plan_scopes (run_plan ?run)"
    by (auto simp: uncovered_def)
  then have "plan_verdict (au_graph au) reqs (run_ticket ?run) (run_plan ?run) = REPLAN"
    by (simp add: plan_verdict_def plan_conforms_def)
  then obtain res where res: "evaluate_plan P now uid au (run_id ?run) (run_ticket ?run) (run_plan ?run)
      (au_report au) = Inr res" "ar_verdict res = REPLAN"
    using evaluate_plan_verdict [OF ok P u(4,2)] by metis
  obtain creqs where creqs: "bind_r (current_requirements (au_graph au)) validated_requirements = Inr creqs"
    using requirements_ok_read [OF ok] by blast
  let ?s1 = "s\<lparr>ws_authorization := Some res\<rparr>"
  let ?s2 = "?s1\<lparr>ws_run := ?run\<lparr>run_plan := replan_for_requirements P (run_plan ?run) creqs, run_state := L_REPLAN\<rparr>\<rparr>"
  have 1: "verify_node P now uid au s = Inr ?s1" using res(1) by (simp add: verify_node_def Let_def)
  have 2: "replan_node P au ?s1 = Inr ?s2" unfolding replan_node_def creqs by simp
  have "plan_ticket (replan_for_requirements P (run_plan ?run) creqs) = run_ticket ?run"
    "\<forall>a\<in>set (plan_actions (replan_for_requirements P (run_plan ?run) creqs)). finite (act_scopes a)"
    using u(3,4) by (auto simp: replan_for_requirements_def)
  then have "uncovered au ?s2" using u(1,2,5) by (simp add: uncovered_def)
  with less.IH have "run_workflow k P now uid au ?s2 = Inl (RuntimeError ''Recursion limit reached'')" if "k < n" for k
    using that by blast
  then show ?case
    using 1 2 res(2) by (cases n) (auto split: nat.splits)
qed

end
