(* ===== verification/Supervisor.thy ===== *)
theory Supervisor
  imports Loop
begin

text \<open>
  \<^verbatim>\<open>workspaces/supervisor.py\<close> and \<^verbatim>\<open>workspaces/runtimes/claude_code.py\<close>: the supervisor's
  assignments, how a plan's actions are given to tasks, the two runtime adapters behind the
  SupervisorRuntimeAdapter protocol (a locale here, interpreted by both), and the numbering of
  runs.
\<close>

subsection \<open>Data\<close>

datatype execution_mode = Simulated | Live

datatype runtime_provider = Generic | Codex | Claude_Code

fun runtime_provider_value :: "runtime_provider \<Rightarrow> string" where
  "runtime_provider_value Generic = ''generic''"
| "runtime_provider_value Codex = ''codex''"
| "runtime_provider_value Claude_Code = ''claude-code''"

datatype assignment_state =
    AS_Queued | AS_Running | AS_Continuing | AS_Interrupted | AS_Redirected | AS_Resumed | AS_Completed

fun assignment_state_value :: "assignment_state \<Rightarrow> string" where
  "assignment_state_value AS_Queued = ''queued''"
| "assignment_state_value AS_Running = ''running''"
| "assignment_state_value AS_Continuing = ''continuing''"
| "assignment_state_value AS_Interrupted = ''interrupted''"
| "assignment_state_value AS_Redirected = ''redirected''"
| "assignment_state_value AS_Resumed = ''resumed''"
| "assignment_state_value AS_Completed = ''completed''"

datatype lifecycle_state =
    LS_Queued | LS_Running | LS_Interrupting | LS_Redirecting | LS_Resumed | LS_Completed

datatype runtime_adapter = Fixture_Runtime | Claude_Hook_Runtime

record assignment =
  as_id :: string
  as_task :: string
  as_title :: string
  as_agent :: string
  as_provider :: runtime_provider
  as_mode :: execution_mode
  as_run :: string
  as_state :: assignment_state
  as_scopes :: scopes
  as_action_ids :: "string list"
  as_authorized :: "string list"
  as_plan :: string
  as_snapshot :: string
  as_redirected_from :: "string option"
  as_reason :: "string option"
  as_instruction :: "string option"
  as_path :: "string list"
  as_enforced :: bool

record applied_interrupt =
  ai_decision :: string
  ai_interrupted :: "string list"
  ai_preserved :: "string list"
  ai_scopes :: "string list"

record supervisor =
  su_id :: string
  su_name :: string
  su_state :: lifecycle_state
  su_adapter :: runtime_adapter
  su_mode :: execution_mode
  su_assignments :: "assignment list"
  su_interrupts :: "applied_interrupt list"

definition validate_assignments :: "supervisor \<Rightarrow> supervisor result" where
  "validate_assignments s =
     (if \<not> distinct (map as_task (su_assignments s)) then
        Inl (ValidationError ''supervisor assignments must have unique task IDs'')
      else if \<not> distinct (map as_id (su_assignments s)) then
        Inl (ValidationError ''supervisor assignments must have unique IDs'')
      else Inr s)"

subsection \<open>Reading a task\<close>

definition runtime_provider_of :: "artifact \<Rightarrow> runtime_provider" where
  "runtime_provider_of task = (case dict_get (art_attrs task) ''runtime_provider'' of
     Some (PStr raw) \<Rightarrow>
       (let n = map (\<lambda>c. if c = CHR ''_'' then CHR ''-'' else c) (casefold (strip raw));
            n' = (if n = ''claude'' then ''claude-code'' else n)
        in if n' = ''codex'' then Codex else if n' = ''claude-code'' then Claude_Code else Generic)
   | _ \<Rightarrow> Generic)"

definition agent_name :: "artifact \<Rightarrow> string" where
  "agent_name task = (case dict_get (art_attrs task) ''agent_name'' of
     Some (PStr configured) \<Rightarrow>
       if strip configured \<noteq> [] then strip configured else art_title task @ '' Subagent''
   | _ \<Rightarrow> art_title task @ '' Subagent'')"

subsection \<open>Giving a plan's actions to tasks\<close>

definition direct_actions :: "assignment \<Rightarrow> agent_plan \<Rightarrow> plan_action list" where
  "direct_actions a plan =
     filter (\<lambda>act. dict_get (act_attrs act) ''task_id'' = Some (PStr (as_task a))) (plan_actions plan)"

definition resolve_action ::
  "scopes dict \<Rightarrow> plan_action \<Rightarrow> plan_action list dict \<Rightarrow> plan_action list dict result"
where
  "resolve_action scopes_by_task a resolved = (case dict_get (act_attrs a) ''task_id'' of
     Some (PStr t) \<Rightarrow>
       Inr (if dict_get resolved t \<noteq> None then dict_append t a resolved else resolved)
   | _ \<Rightarrow>
       (let matches = map fst (filter (\<lambda>(i, s). act_scopes a \<inter> s \<noteq> {}) scopes_by_task) in
        if 1 < length matches then
          Inl (ValueError (''unbound AgentPlan action '' @ py_repr (act_id a)
            @ '' matches multiple Tasks: '' @ join '', '' (sort matches) @ ''; set attributes.task_id''))
        else Inr (case matches of [] \<Rightarrow> resolved | m # _ \<Rightarrow> dict_append m a resolved)))"

definition resolve_plan_actions ::
  "(string \<times> scopes) list \<Rightarrow> agent_plan \<Rightarrow> plan_action list dict result"
where
  "resolve_plan_actions tasks plan =
     fold_r (resolve_action (dict_of tasks)) (plan_actions plan)
       (dict_of (map (\<lambda>(i, _). (i, [])) tasks))"

definition resolve_plan_actions_for_tasks :: "artifact list \<Rightarrow> agent_plan \<Rightarrow> plan_action list dict result" where
  "resolve_plan_actions_for_tasks tasks plan =
     resolve_plan_actions (map (\<lambda>t. (art_id t, art_scopes t)) (filter (\<lambda>t. art_validity t = Valid) tasks)) plan"

definition resolve_plan_actions_for_assignments ::
  "assignment list \<Rightarrow> agent_plan \<Rightarrow> plan_action list dict result"
where
  "resolve_plan_actions_for_assignments assignments plan =
     resolve_plan_actions (map (\<lambda>a. (as_task a, as_scopes a)) assignments) plan"

definition max_authorized_actions :: nat where
  "max_authorized_actions = 20"

definition max_authorized_action_length :: nat where
  "max_authorized_action_length = 1000"

definition truncate_action :: "string \<Rightarrow> string" where
  "truncate_action n =
     (if max_authorized_action_length < length n
      then rstrip (take (max_authorized_action_length - 3) n) @ ''...'' else n)"

fun bound_actions :: "string list \<Rightarrow> string list \<Rightarrow> string list" where
  "bound_actions [] bounded = bounded"
| "bound_actions (v # vs) bounded = (let n = normalize_ws v in
     if n = [] \<or> n \<in> set bounded then bound_actions vs bounded
     else (let b = bounded @ [truncate_action n] in
       if length b = max_authorized_actions then b else bound_actions vs b))"

definition authorized_actions :: "plan_action list \<Rightarrow> string list" where
  "authorized_actions actions =
     bound_actions (map (\<lambda>a. ''Plan action '' @ act_id a @ '': '' @ act_description a) actions) []"

subsection \<open>Run identifiers\<close>

definition initial_run_id :: "string \<Rightarrow> string \<Rightarrow> string" where
  "initial_run_id supervisor_run_id task_id =
     removesuffix ''-RUN'' supervisor_run_id @ ''-'' @ task_id @ ''-RUN-1''"

text \<open>\<open>(?P<prefix>.+-RUN-)(?P<revision>[1-9]\d*)\<close>: the revision is the run of digits at the end.\<close>

definition split_revision :: "string \<Rightarrow> (string \<times> string) option" where
  "split_revision s = (let ds = rev (takeWhile is_digit (rev s));
                           pre = rev (dropWhile is_digit (rev s)) in
     if ds \<noteq> [] \<and> hd ds \<noteq> CHR ''0'' \<and> ends_with ''-RUN-'' pre \<and> 5 < length pre \<and> CHR 0x0A \<notin> set pre
     then Some (pre, ds) else None)"

definition replacement_run_id :: "string \<Rightarrow> string" where
  "replacement_run_id s = (case split_revision s of
     None \<Rightarrow> s @ ''-REDIRECT-1''
   | Some (prefix, revision) \<Rightarrow> prefix @ show_nat (read_nat revision + 1))"

subsection \<open>Transitions\<close>

text \<open>The keyword arguments of \<open>transition\<close>.\<close>

record transition_args =
  ta_state :: assignment_state
  ta_plan :: "agent_plan option"
  ta_actions :: "plan_action list option"
  ta_snapshot :: "string option"
  ta_replacement :: bool
  ta_reason :: "string option"
  ta_instruction :: "string option"
  ta_path :: "string list option"
  ta_enforced :: "bool option"

definition to_state :: "assignment_state \<Rightarrow> transition_args" where
  "to_state st = \<lparr>ta_state = st, ta_plan = None, ta_actions = None, ta_snapshot = None,
     ta_replacement = False, ta_reason = None, ta_instruction = None, ta_path = None, ta_enforced = None\<rparr>"

definition if_some :: "'v option \<Rightarrow> ('v \<Rightarrow> 'a \<Rightarrow> 'a) \<Rightarrow> 'a \<Rightarrow> 'a" where
  "if_some v f a = (case v of None \<Rightarrow> a | Some x \<Rightarrow> f x a)"

definition apply_assignment_transition :: "transition_args \<Rightarrow> assignment \<Rightarrow> assignment" where
  "apply_assignment_transition t a =
     if_some (ta_enforced t) (\<lambda>v a. a\<lparr>as_enforced := v\<rparr>)
    (if_some (ta_path t) (\<lambda>v a. a\<lparr>as_path := v\<rparr>)
    (if_some (ta_instruction t) (\<lambda>v a. a\<lparr>as_instruction := Some v\<rparr>)
    (if_some (ta_reason t) (\<lambda>v a. a\<lparr>as_reason := Some v\<rparr>)
    (if_some (ta_snapshot t) (\<lambda>v a. a\<lparr>as_snapshot := v\<rparr>) (a\<lparr>as_state := ta_state t\<rparr>)))))"

definition with_plan :: "transition_args \<Rightarrow> assignment \<Rightarrow> assignment" where
  "with_plan t a = (case ta_plan t of
     None \<Rightarrow> a
   | Some plan \<Rightarrow>
       (let actions = (case ta_actions t of Some xs \<Rightarrow> xs | None \<Rightarrow> direct_actions a plan)
        in a\<lparr>as_plan := plan_id plan, as_action_ids := map act_id actions,
              as_authorized := authorized_actions actions\<rparr>))"

definition fixture_transition :: "transition_args \<Rightarrow> assignment \<Rightarrow> assignment" where
  "fixture_transition t a =
     (let b = apply_assignment_transition t (with_plan t a)
      in if ta_replacement t
         then b\<lparr>as_redirected_from := Some (as_run a), as_run := replacement_run_id (as_run a)\<rparr>
         else b)"

subsection \<open>Creating a supervisor\<close>

definition new_assignment ::
  "string \<Rightarrow> agent_plan \<Rightarrow> string \<Rightarrow> plan_action list dict \<Rightarrow> artifact \<Rightarrow> assignment"
where
  "new_assignment supervisor_run_id plan snapshot resolved task =
     (let actions = (case dict_get resolved (art_id task) of None \<Rightarrow> [] | Some xs \<Rightarrow> xs) in
      \<lparr>as_id = ''ASSIGNMENT-'' @ art_id task, as_task = art_id task, as_title = art_title task,
       as_agent = agent_name task, as_provider = runtime_provider_of task, as_mode = Simulated,
       as_run = initial_run_id supervisor_run_id (art_id task), as_state = AS_Queued,
       as_scopes = art_scopes task, as_action_ids = map act_id actions,
       as_authorized = authorized_actions actions, as_plan = plan_id plan, as_snapshot = snapshot,
       as_redirected_from = None, as_reason = None, as_instruction = None, as_path = [],
       as_enforced = False\<rparr>)"

definition fixture_create ::
  "string \<Rightarrow> string \<Rightarrow> artifact list \<Rightarrow> agent_plan \<Rightarrow> string \<Rightarrow> supervisor result"
where
  "fixture_create workspace_id supervisor_run_id tasks plan snapshot =
     bind_r (resolve_plan_actions_for_tasks tasks plan) (\<lambda>resolved.
     validate_assignments
       \<lparr>su_id = ''SUPERVISOR-'' @ upper workspace_id, su_name = ''writ.ai Supervisor'',
        su_state = LS_Queued, su_adapter = Fixture_Runtime, su_mode = Simulated,
        su_assignments = map (new_assignment supervisor_run_id plan snapshot resolved) tasks,
        su_interrupts = []\<rparr>)"

subsection \<open>The Claude Code runtime\<close>

definition execution_mode_for :: "assignment \<Rightarrow> execution_mode" where
  "execution_mode_for a = (if as_provider a = Codex then Simulated else Live)"

definition claude_create ::
  "string \<Rightarrow> string \<Rightarrow> artifact list \<Rightarrow> agent_plan \<Rightarrow> string \<Rightarrow> supervisor result"
where
  "claude_create workspace_id supervisor_run_id tasks plan snapshot =
     bind_r (fixture_create workspace_id supervisor_run_id tasks plan snapshot) (\<lambda>s.
     Inr (s\<lparr>su_adapter := Claude_Hook_Runtime, su_mode := Live,
            su_assignments := map (\<lambda>a. a\<lparr>as_mode := execution_mode_for a\<rparr>) (su_assignments s)\<rparr>))"

definition claude_transition :: "transition_args \<Rightarrow> assignment \<Rightarrow> assignment" where
  "claude_transition t a = (let b = fixture_transition t a in b\<lparr>as_mode := execution_mode_for b\<rparr>)"

subsection \<open>Bounds on authorized actions\<close>

lemma truncate_action_length: "length (truncate_action n) \<le> 1000"
proof -
  have "length (rstrip (take 997 n)) \<le> length (take 997 n)" by (rule length_rstrip)
  also have "\<dots> \<le> 997" by simp
  finally show ?thesis by (simp add: truncate_action_def max_authorized_action_length_def)
qed

lemma truncate_action_nonempty: "n \<noteq> [] \<Longrightarrow> truncate_action n \<noteq> []"
  by (simp add: truncate_action_def)

lemma bound_actions_bounds:
  "\<lbrakk>length b < 20; \<forall>v\<in>set b. v \<noteq> [] \<and> length v \<le> 1000\<rbrakk> \<Longrightarrow>
   length (bound_actions vs b) \<le> 20 \<and> (\<forall>v\<in>set (bound_actions vs b). v \<noteq> [] \<and> length v \<le> 1000)"
proof (induction vs b rule: bound_actions.induct)
  case (2 v vs b)
  let ?n = "normalize_ws v" and ?b = "b @ [truncate_action (normalize_ws v)]"
  show ?case
  proof (cases "?n = [] \<or> ?n \<in> set b")
    case True
    then have eq: "bound_actions (v # vs) b = bound_actions vs b" by (simp add: Let_def)
    show ?thesis unfolding eq by (rule "2.IH"(1) [OF refl True "2.prems"])
  next
    case False
    then have b: "\<forall>v\<in>set ?b. v \<noteq> [] \<and> length v \<le> 1000"
      using "2.prems" truncate_action_length truncate_action_nonempty by auto
    show ?thesis
    proof (cases "length ?b = max_authorized_actions")
      case True
      then have "bound_actions (v # vs) b = ?b" using False by (simp add: Let_def)
      with True b show ?thesis by (simp add: max_authorized_actions_def)
    next
      case len: False
      then have "bound_actions (v # vs) b = bound_actions vs ?b" using False by (simp add: Let_def)
      moreover have "length ?b < 20" using len "2.prems"(1) by (simp add: max_authorized_actions_def)
      ultimately show ?thesis using "2.IH"(2) [OF refl False refl len] b by simp
    qed
  qed
qed auto

lemma authorized_actions_bounds:
  "length (authorized_actions acts) \<le> 20"
  "v \<in> set (authorized_actions acts) \<Longrightarrow> v \<noteq> [] \<and> length v \<le> 1000"
  using bound_actions_bounds [of "[]"] by (simp_all add: authorized_actions_def)

lemma bound_actions_distinct:
  "\<lbrakk>distinct b; \<forall>v\<in>set vs. length (normalize_ws v) \<le> 1000\<rbrakk> \<Longrightarrow> distinct (bound_actions vs b)"
proof (induction vs arbitrary: b)
  case (Cons v vs)
  have "truncate_action (normalize_ws v) = normalize_ws v"
    using Cons.prems by (simp add: truncate_action_def max_authorized_action_length_def)
  moreover have "distinct (bound_actions vs b)" using Cons by simp
  moreover have "distinct (bound_actions vs (b @ [normalize_ws v]))" if "normalize_ws v \<notin> set b"
    using Cons that by simp
  ultimately show ?case using Cons.prems(1) by (auto simp: Let_def)
qed simp

subsection \<open>How actions are given to tasks\<close>

text \<open>The task an action belongs to: the one it names, else the only one it shares a scope with.\<close>

definition owner :: "scopes dict \<Rightarrow> plan_action \<Rightarrow> string option" where
  "owner tasks a = (case dict_get (act_attrs a) ''task_id'' of
     Some (PStr t) \<Rightarrow> if dict_get tasks t \<noteq> None then Some t else None
   | _ \<Rightarrow> (case filter (\<lambda>(i, s). act_scopes a \<inter> s \<noteq> {}) tasks of [(i, s)] \<Rightarrow> Some i | _ \<Rightarrow> None))"

definition ambiguous :: "scopes dict \<Rightarrow> plan_action \<Rightarrow> bool" where
  "ambiguous tasks a \<longleftrightarrow> (\<nexists>t. dict_get (act_attrs a) ''task_id'' = Some (PStr t))
     \<and> 1 < length (filter (\<lambda>(i, s). act_scopes a \<inter> s \<noteq> {}) tasks)"

lemma resolve_action_owner:
  assumes keys: "\<And>t. dict_get resolved t \<noteq> None \<longleftrightarrow> dict_get tasks t \<noteq> None"
  shows "if ambiguous tasks a then \<exists>e. resolve_action tasks a resolved = Inl (ValueError e)
    else resolve_action tasks a resolved = Inr (case owner tasks a of None \<Rightarrow> resolved
      | Some t \<Rightarrow> dict_append t a resolved)"
proof (cases "\<exists>t. dict_get (act_attrs a) ''task_id'' = Some (PStr t)")
  case True
  then obtain t where "dict_get (act_attrs a) ''task_id'' = Some (PStr t)" by blast
  then show ?thesis using keys [of t] by (auto simp: resolve_action_def owner_def ambiguous_def)
next
  case False
  let ?ms = "filter (\<lambda>(i, s). act_scopes a \<inter> s \<noteq> {}) tasks"
  have res: "resolve_action tasks a resolved = (if 1 < length (map fst ?ms) then
          Inl (ValueError (''unbound AgentPlan action '' @ py_repr (act_id a)
            @ '' matches multiple Tasks: '' @ join '', '' (sort (map fst ?ms)) @ ''; set attributes.task_id''))
        else Inr (case map fst ?ms of [] \<Rightarrow> resolved | m # _ \<Rightarrow> dict_append m a resolved))"
    and own: "owner tasks a = (case ?ms of [(i, s)] \<Rightarrow> Some i | _ \<Rightarrow> None)"
    using False by (auto simp: resolve_action_def owner_def Let_def split: option.splits pyval.splits)
  have amb: "ambiguous tasks a \<longleftrightarrow> 1 < length ?ms" using False by (simp add: ambiguous_def)
  consider "?ms = []" | i s where "?ms = [(i, s)]" | x y zs where "?ms = x # y # zs"
    by (metis list.exhaust prod.exhaust)
  then show ?thesis
    unfolding res own amb by cases (simp_all only: list.map list.simps length_map list.size option.simps prod.case if_True if_False, simp_all)
qed

lemma dict_append_get:
  "dict_get (dict_append k v d) t =
     (if t = k then Some ((case dict_get d k of None \<Rightarrow> [] | Some vs \<Rightarrow> vs) @ [v]) else dict_get d t)"
  by (simp add: dict_append_def dict_simps)

lemma owner_known: "owner tasks a = Some s \<Longrightarrow> dict_get tasks s \<noteq> None"
  unfolding owner_def
  by (auto split: option.splits pyval.splits if_splits list.splits prod.splits simp: dict_get_None
      dest!: filter_eq_ConsD)

lemma resolve_actions_run:
  assumes "\<And>t. dict_get resolved t \<noteq> None \<longleftrightarrow> dict_get tasks t \<noteq> None"
  shows "if \<exists>a\<in>set acts. ambiguous tasks a then \<exists>e. fold_r (resolve_action tasks) acts resolved = Inl (ValueError e)
    else \<exists>out. fold_r (resolve_action tasks) acts resolved = Inr out
      \<and> (\<forall>t. dict_get out t =
           map_option (\<lambda>xs. xs @ filter (\<lambda>a. owner tasks a = Some t) acts) (dict_get resolved t))"
  using assms
proof (induction acts arbitrary: resolved)
  case Nil
  then show ?case by (simp add: option.map_ident)
next
  case (Cons a acts)
  let ?r1 = "case owner tasks a of None \<Rightarrow> resolved | Some t \<Rightarrow> dict_append t a resolved"
  have keys: "dict_get ?r1 t \<noteq> None \<longleftrightarrow> dict_get tasks t \<noteq> None" for t
    using Cons.prems [of t] owner_known [of tasks a t] by (auto simp: dict_append_get split: option.splits)
  show ?case
  proof (cases "ambiguous tasks a")
    case True
    with resolve_action_owner [OF Cons.prems, of a] show ?thesis by auto
  next
    case False
    then have step: "resolve_action tasks a resolved = Inr ?r1"
      using resolve_action_owner [OF Cons.prems, of a] by (simp only: if_False)
    have one: "dict_get ?r1 t = map_option (\<lambda>xs. xs @ (if owner tasks a = Some t then [a] else [])) (dict_get resolved t)" for t
      using Cons.prems [of t] owner_known [of tasks a t]
      by (auto simp: dict_append_get option.map_ident split: option.splits)
    show ?thesis
    proof (cases "\<exists>b\<in>set acts. ambiguous tasks b")
      case True
      with Cons.IH [OF keys] step False show ?thesis by auto
    next
      case none: False
      with Cons.IH [OF keys] obtain out where out: "fold_r (resolve_action tasks) acts ?r1 = Inr out"
          "\<forall>t. dict_get out t = map_option (\<lambda>xs. xs @ filter (\<lambda>a. owner tasks a = Some t) acts) (dict_get ?r1 t)"
        by (simp only: if_False) blast
      have "dict_get out t = map_option (\<lambda>xs. xs @ filter (\<lambda>a. owner tasks a = Some t) (a # acts)) (dict_get resolved t)" for t
        using out(2) one [of t] by (cases "dict_get resolved t") simp_all
      with out(1) step False none show ?thesis by auto
    qed
  qed
qed

text \<open>Each task gets, in plan order, the actions that belong to it.\<close>

lemma resolve_plan_actions_spec:
  "if \<exists>a\<in>set (plan_actions plan). ambiguous (dict_of tasks) a
   then \<exists>e. resolve_plan_actions tasks plan = Inl (ValueError e)
   else \<exists>out. resolve_plan_actions tasks plan = Inr out
     \<and> (\<forall>t. dict_get out t = (if t \<in> fst ` set tasks
          then Some (filter (\<lambda>a. owner (dict_of tasks) a = Some t) (plan_actions plan)) else None))"
proof -
  let ?r0 = "dict_of (map (\<lambda>(i, _). (i, [])) tasks) :: plan_action list dict"
  have k0: "fst ` set ?r0 = fst ` set tasks" "fst ` set (dict_of tasks) = fst ` set tasks"
    by (auto simp: dict_of_def keys_dict_update image_image split_def)
  have "dict_get ?r0 t = Some xs \<Longrightarrow> xs = []" for t xs
    by (auto simp: dict_get_of dest!: map_of_SomeD)
  then have r0: "dict_get ?r0 t = (if t \<in> fst ` set tasks then Some [] else None)" for t
    using k0(1) dict_get_None [of ?r0 t] by (cases "dict_get ?r0 t") auto
  have "dict_get ?r0 t \<noteq> None \<longleftrightarrow> dict_get (dict_of tasks) t \<noteq> None" for t
    using k0 by (simp add: dict_get_None)
  note run = resolve_actions_run [OF this, of "plan_actions plan"]
  show ?thesis
  proof (cases "\<exists>a\<in>set (plan_actions plan). ambiguous (dict_of tasks) a")
    case True
    with run show ?thesis by (simp add: resolve_plan_actions_def)
  next
    case False
    with run obtain out where "fold_r (resolve_action (dict_of tasks)) (plan_actions plan) ?r0 = Inr out"
        "\<forall>t. dict_get out t = map_option (\<lambda>xs. xs @ filter (\<lambda>a. owner (dict_of tasks) a = Some t)
          (plan_actions plan)) (dict_get ?r0 t)"
      by (simp only: if_False) blast
    with False r0 show ?thesis by (auto simp: resolve_plan_actions_def)
  qed
qed

subsection \<open>Numbering of runs\<close>

lemma hd_show_nat: "0 < n \<Longrightarrow> hd (show_nat n) \<noteq> CHR ''0''"
proof (induction n rule: show_nat.induct)
  case (1 n)
  show ?case
  proof (cases "n < 10")
    case True
    have "of_char (digit n) \<noteq> (48 :: nat)" using True "1.prems" by (simp add: of_char_digit)
    then have "digit n \<noteq> CHR ''0''" by auto
    with True show ?thesis by (subst show_nat.simps) simp
  next
    case False
    then have "hd (show_nat (n div 10)) \<noteq> CHR ''0''" using "1.IH" by simp
    with False show ?thesis by (subst show_nat.simps) simp
  qed
qed

lemma split_revision_numbered:
  assumes "p \<noteq> []" and "CHR 0x0A \<notin> set p" and "0 < n"
  shows "split_revision (p @ ''-RUN-'' @ show_nat n) = Some (p @ ''-RUN-'', show_nat n)"
proof -
  let ?s = "p @ ''-RUN-'' @ show_nat n"
  have digits: "\<forall>c\<in>set (rev (show_nat n)). is_digit c"
    using show_nat_digits is_digit_digit by fastforce
  have rev: "rev ?s = rev (show_nat n) @ CHR ''-'' # (rev ''-RUN'' @ rev p)" by simp
  have no: "\<not> is_digit CHR ''-''" by (simp add: is_digit_def)
  have "takeWhile is_digit (rev ?s) = rev (show_nat n)" "dropWhile is_digit (rev ?s) = rev (p @ ''-RUN-'')"
    unfolding rev
    by (subst takeWhile_append2, use digits in blast, simp add: no,
        subst dropWhile_append2, use digits in blast, simp add: no)
  moreover have "ends_with ''-RUN-'' (p @ ''-RUN-'')" by (auto simp: ends_with_iff)
  moreover have "5 < length (p @ ''-RUN-'')" using assms(1) by simp
  ultimately show ?thesis
    using assms hd_show_nat [OF assms(3)] by (simp add: split_revision_def Let_def)
qed

lemma replacement_run_id_numbered:
  assumes "p \<noteq> []" and "CHR 0x0A \<notin> set p" and "0 < n"
  shows "replacement_run_id (p @ ''-RUN-'' @ show_nat n) = p @ ''-RUN-'' @ show_nat (n + 1)"
  by (simp add: replacement_run_id_def split_revision_numbered [OF assms, simplified])

lemma split_revision_append: "split_revision s = Some (p, ds) \<Longrightarrow> s = p @ ds"
proof -
  have "rev (takeWhile is_digit (rev s) @ dropWhile is_digit (rev s)) = s" by simp
  then have "rev (dropWhile is_digit (rev s)) @ rev (takeWhile is_digit (rev s)) = s"
    unfolding rev_append .
  then show "split_revision s = Some (p, ds) \<Longrightarrow> s = p @ ds"
    by (auto simp: split_revision_def Let_def split: if_splits)
qed

lemma replacement_run_id_fresh: "replacement_run_id s \<noteq> s"
proof (cases "split_revision s")
  case None
  then show ?thesis by (simp add: replacement_run_id_def)
next
  case (Some pd)
  obtain p ds where pd: "pd = (p, ds)" by fastforce
  have s: "s = p @ ds" using split_revision_append Some pd by blast
  have "show_nat (read_nat ds + 1) \<noteq> ds"
    by (metis add_eq_self_zero read_show_nat zero_neq_one)
  with Some pd s show ?thesis by (simp add: replacement_run_id_def)
qed

subsection \<open>The runtime protocol\<close>

text \<open>The parts of an assignment that no transition changes.\<close>

definition same_assignment :: "assignment \<Rightarrow> assignment \<Rightarrow> bool" where
  "same_assignment a b \<longleftrightarrow> as_id a = as_id b \<and> as_task a = as_task b \<and> as_title a = as_title b
   \<and> as_agent a = as_agent b \<and> as_provider a = as_provider b \<and> as_scopes a = as_scopes b"

definition bounded_actions :: "assignment \<Rightarrow> bool" where
  "bounded_actions a \<longleftrightarrow> length (as_authorized a) \<le> 20
     \<and> (\<forall>v\<in>set (as_authorized a). v \<noteq> [] \<and> length v \<le> 1000)"

definition supervisor_ok :: "supervisor \<Rightarrow> bool" where
  "supervisor_ok s \<longleftrightarrow> distinct (map as_task (su_assignments s)) \<and> distinct (map as_id (su_assignments s))
     \<and> (\<forall>a\<in>set (su_assignments s). bounded_actions a)"

locale supervisor_runtime =
  fixes create :: "string \<Rightarrow> string \<Rightarrow> artifact list \<Rightarrow> agent_plan \<Rightarrow> string \<Rightarrow> supervisor result"
    and transition :: "transition_args \<Rightarrow> assignment \<Rightarrow> assignment"
    and adapter :: runtime_adapter
    and mode :: execution_mode
  assumes transition_same: "same_assignment (transition t a) a"
    and transition_state: "as_state (transition t a) = ta_state t"
    and transition_run: "as_run (transition t a) =
      (if ta_replacement t then replacement_run_id (as_run a) else as_run a)"
    and transition_snapshot: "as_snapshot (transition t a) =
      (case ta_snapshot t of None \<Rightarrow> as_snapshot a | Some v \<Rightarrow> v)"
    and transition_bounded: "bounded_actions a \<Longrightarrow> bounded_actions (transition t a)"
    and create_ok: "create w r tasks plan snap = Inr s \<Longrightarrow> supervisor_ok s
      \<and> map as_task (su_assignments s) = map art_id tasks \<and> su_adapter s = adapter \<and> su_mode s = mode
      \<and> su_interrupts s = [] \<and> (\<forall>a\<in>set (su_assignments s). as_state a = AS_Queued
          \<and> as_snapshot a = snap \<and> as_plan a = plan_id plan \<and> \<not> as_enforced a)"
begin

lemma transitions_same: "same_assignment (fold transition ts a) a"
proof (induction ts arbitrary: a)
  case (Cons t ts)
  then show ?case using transition_same [of t a] by (auto simp: same_assignment_def)
qed (simp add: same_assignment_def)

lemma transitions_bounded: "bounded_actions a \<Longrightarrow> bounded_actions (fold transition ts a)"
  by (induction ts arbitrary: a) (auto intro: transition_bounded)

text \<open>A pass that moves some of the assignments keeps the supervisor well formed.\<close>

lemma pass_ok:
  assumes "supervisor_ok s"
  shows "supervisor_ok (s\<lparr>su_assignments := map (\<lambda>a. if p a then transition (f a) a else a) (su_assignments s)\<rparr>)"
proof -
  let ?m = "\<lambda>a. if p a then transition (f a) a else a"
  have same: "as_task (?m a) = as_task a" "as_id (?m a) = as_id a" for a
    using transition_same [of "f a" a] by (simp_all add: same_assignment_def)
  have "map as_task (map ?m (su_assignments s)) = map as_task (su_assignments s)"
    "map as_id (map ?m (su_assignments s)) = map as_id (su_assignments s)"
    unfolding map_map by (intro map_cong refl; simp only: comp_def same)+
  moreover have "\<forall>a\<in>set (map ?m (su_assignments s)). bounded_actions a"
    using assms transition_bounded by (auto simp: supervisor_ok_def)
  moreover have "su_assignments (s\<lparr>su_assignments := map ?m (su_assignments s)\<rparr>) = map ?m (su_assignments s)"
    by simp
  ultimately show ?thesis using assms unfolding supervisor_ok_def by (simp only:)
qed

text \<open>A replacement run has a new identifier.\<close>

lemma replacement_fresh: "ta_replacement t \<Longrightarrow> as_run (transition t a) \<noteq> as_run a"
  by (simp add: transition_run replacement_run_id_fresh)

end

lemma if_some_fields [simp]:
  "if_some v f a = (case v of None \<Rightarrow> a | Some x \<Rightarrow> f x a)"
  by (simp add: if_some_def)

lemma apply_assignment_transition_fields:
  "same_assignment (apply_assignment_transition t a) a"
  "as_state (apply_assignment_transition t a) = ta_state t"
  "as_run (apply_assignment_transition t a) = as_run a"
  "as_authorized (apply_assignment_transition t a) = as_authorized a"
  "as_plan (apply_assignment_transition t a) = as_plan a"
  "as_snapshot (apply_assignment_transition t a) = (case ta_snapshot t of None \<Rightarrow> as_snapshot a | Some v \<Rightarrow> v)"
  "as_mode (apply_assignment_transition t a) = as_mode a"
  "as_enforced (apply_assignment_transition t a) = (case ta_enforced t of None \<Rightarrow> as_enforced a | Some v \<Rightarrow> v)"
  "as_reason (apply_assignment_transition t a) = (case ta_reason t of None \<Rightarrow> as_reason a | Some v \<Rightarrow> Some v)"
  "as_instruction (apply_assignment_transition t a) =
     (case ta_instruction t of None \<Rightarrow> as_instruction a | Some v \<Rightarrow> Some v)"
  by (simp_all add: apply_assignment_transition_def same_assignment_def split: option.splits)

lemma fixture_transition_fields:
  "same_assignment (fixture_transition t a) a"
  "as_state (fixture_transition t a) = ta_state t"
  "as_run (fixture_transition t a) = (if ta_replacement t then replacement_run_id (as_run a) else as_run a)"
  "as_snapshot (fixture_transition t a) = (case ta_snapshot t of None \<Rightarrow> as_snapshot a | Some v \<Rightarrow> v)"
  "bounded_actions a \<Longrightarrow> bounded_actions (fixture_transition t a)"
proof -
  have a1: "same_assignment (with_plan t a) a" "as_run (with_plan t a) = as_run a"
      "as_snapshot (with_plan t a) = as_snapshot a"
      "bounded_actions a \<Longrightarrow> bounded_actions (with_plan t a)"
    using authorized_actions_bounds
    by (auto simp: with_plan_def same_assignment_def bounded_actions_def Let_def split: option.splits)
  note f = apply_assignment_transition_fields [of t "with_plan t a"]
  show "same_assignment (fixture_transition t a) a"
    using f(1) a1(1) by (simp add: fixture_transition_def same_assignment_def Let_def)
  show "as_state (fixture_transition t a) = ta_state t"
    using f(2) by (simp add: fixture_transition_def Let_def)
  show "as_run (fixture_transition t a) = (if ta_replacement t then replacement_run_id (as_run a) else as_run a)"
    using f(3) a1(2) by (simp add: fixture_transition_def Let_def)
  show "as_snapshot (fixture_transition t a) = (case ta_snapshot t of None \<Rightarrow> as_snapshot a | Some v \<Rightarrow> v)"
    using f(6) a1(3) by (simp add: fixture_transition_def Let_def split: option.splits)
  show "bounded_actions (fixture_transition t a)" if "bounded_actions a"
    using f(4) a1(4) [OF that] by (simp add: fixture_transition_def bounded_actions_def Let_def)
qed

lemma fixture_create_ok:
  assumes "fixture_create w r tasks plan snap = Inr s"
  shows "supervisor_ok s \<and> map as_task (su_assignments s) = map art_id tasks
    \<and> su_adapter s = Fixture_Runtime \<and> su_mode s = Simulated \<and> su_interrupts s = []
    \<and> (\<forall>a\<in>set (su_assignments s). as_state a = AS_Queued \<and> as_snapshot a = snap
        \<and> as_plan a = plan_id plan \<and> \<not> as_enforced a)"
proof -
  obtain resolved where s: "su_assignments s = map (new_assignment r plan snap resolved) tasks"
      "su_adapter s = Fixture_Runtime" "su_mode s = Simulated" "su_interrupts s = []"
      "distinct (map as_task (su_assignments s))" "distinct (map as_id (su_assignments s))"
  proof -
    from assms obtain resolved where v: "validate_assignments
       \<lparr>su_id = ''SUPERVISOR-'' @ upper w, su_name = ''writ.ai Supervisor'',
        su_state = LS_Queued, su_adapter = Fixture_Runtime, su_mode = Simulated,
        su_assignments = map (new_assignment r plan snap resolved) tasks, su_interrupts = []\<rparr> = Inr s"
      unfolding fixture_create_def bind_r_eq_Inr by blast
    then show ?thesis by (intro that [of resolved]) (auto simp: validate_assignments_def split: if_splits)
  qed
  have "bounded_actions (new_assignment r plan snap resolved t)" for t
    using authorized_actions_bounds by (simp add: new_assignment_def bounded_actions_def Let_def)
  then show ?thesis
    using s by (simp add: supervisor_ok_def comp_def new_assignment_def Let_def)
qed

interpretation fixture_rt: supervisor_runtime fixture_create fixture_transition Fixture_Runtime Simulated
  by unfold_locales (rule fixture_transition_fields fixture_create_ok | assumption)+

interpretation claude_rt: supervisor_runtime claude_create claude_transition Claude_Hook_Runtime Live
proof unfold_locales
  fix w r tasks plan snap s
  assume "claude_create w r tasks plan snap = Inr s"
  then obtain s0 where s0: "fixture_create w r tasks plan snap = Inr s0"
      "s = s0\<lparr>su_adapter := Claude_Hook_Runtime, su_mode := Live,
              su_assignments := map (\<lambda>a. a\<lparr>as_mode := execution_mode_for a\<rparr>) (su_assignments s0)\<rparr>"
    by (auto simp: claude_create_def)
  have fields: "map as_task (su_assignments s) = map as_task (su_assignments s0)"
    "map as_id (su_assignments s) = map as_id (su_assignments s0)"
    by (simp_all add: s0(2))
  from fixture_create_ok [OF s0(1)] s0(2) fields
  show "supervisor_ok s \<and> map as_task (su_assignments s) = map art_id tasks
      \<and> su_adapter s = Claude_Hook_Runtime \<and> su_mode s = Live \<and> su_interrupts s = []
      \<and> (\<forall>a\<in>set (su_assignments s). as_state a = AS_Queued \<and> as_snapshot a = snap
          \<and> as_plan a = plan_id plan \<and> \<not> as_enforced a)"
    by (auto simp: supervisor_ok_def bounded_actions_def comp_def)
next
  fix t a
  assume "bounded_actions a"
  then show "bounded_actions (claude_transition t a)"
    using fixture_transition_fields(5) [of a t] by (simp add: claude_transition_def bounded_actions_def Let_def)
qed (use fixture_transition_fields in \<open>simp_all add: claude_transition_def same_assignment_def Let_def\<close>)

text \<open>A live runtime never claims to control a Codex process.\<close>

lemma claude_transition_mode:
  "as_mode (claude_transition t a) = (if as_provider a = Codex then Simulated else Live)"
  using fixture_transition_fields(1) [of t a]
  by (simp add: claude_transition_def execution_mode_for_def same_assignment_def Let_def)

text \<open>A task that is not valid starts with nothing authorized.\<close>

lemma create_only_valid:
  assumes "fixture_create w r tasks plan snap = Inr s" and "distinct (map art_id tasks)"
    and "t \<in> set tasks" and "art_validity t \<noteq> Valid"
    and "a \<in> set (su_assignments s)" and "as_task a = art_id t"
  shows "as_authorized a = [] \<and> as_action_ids a = []"
proof -
  let ?vt = "map (\<lambda>t. (art_id t, art_scopes t)) (filter (\<lambda>t. art_validity t = Valid) tasks)"
  obtain resolved where r: "resolve_plan_actions ?vt plan = Inr resolved"
      "su_assignments s = map (new_assignment r plan snap resolved) tasks"
    using assms(1) by (auto simp: fixture_create_def validate_assignments_def resolve_plan_actions_for_tasks_def
        split: if_splits)
  have "art_id t \<notin> fst ` set ?vt"
    using assms(2-4) by (auto simp: distinct_map inj_on_def)
  then have "dict_get resolved (art_id t) = None"
    using resolve_plan_actions_spec [of plan ?vt] r(1)
    by (cases "\<exists>a\<in>set (plan_actions plan). ambiguous (dict_of ?vt) a") (simp_all only: if_True if_False, auto)
  moreover obtain u where "u \<in> set tasks" "a = new_assignment r plan snap resolved u" "art_id u = art_id t"
    using assms(5,6) r(2) by (auto simp: new_assignment_def Let_def)
  ultimately show ?thesis by (simp add: new_assignment_def authorized_actions_def Let_def)
qed

end
