(* ===== verification/Workspace_Model.thy ===== *)
theory Workspace_Model
  imports Supervisor
begin

text \<open>
  \<^verbatim>\<open>workspaces/models.py\<close> with the evidence models of \<^verbatim>\<open>intake/approval.py\<close> that it stores: the
  import request and its validation, the graph an import describes, proposals, approval
  evidence and intents, and the record of a live workspace. A pydantic validator's ValueError
  reaches the caller as a ValidationError. The main result: the graph of a validated import is
  well formed, and a change to any baseline scope reaches the plan.
\<close>

subsection \<open>Fields\<close>

definition bounded :: "nat \<Rightarrow> nat \<Rightarrow> string \<Rightarrow> bool" where
  "bounded lo hi s \<longleftrightarrow> lo \<le> length s \<and> length s \<le> hi"

definition is_lower_alnum :: "char \<Rightarrow> bool" where
  "is_lower_alnum c \<longleftrightarrow> (let n = of_char c :: nat in (48 \<le> n \<and> n \<le> 57) \<or> (97 \<le> n \<and> n \<le> 122))"

definition is_hex :: "char \<Rightarrow> bool" where
  "is_hex c \<longleftrightarrow> (let n = of_char c :: nat in (48 \<le> n \<and> n \<le> 57) \<or> (97 \<le> n \<and> n \<le> 102))"

definition workspace_id_ok :: "string \<Rightarrow> bool" where
  "workspace_id_ok s \<longleftrightarrow> bounded 3 64 s \<and> is_lower_alnum (hd s)
     \<and> (\<forall>c\<in>set (tl s). is_lower_alnum c \<or> c = CHR ''-'')"

definition fingerprint_ok :: "string \<Rightarrow> bool" where
  "fingerprint_ok s \<longleftrightarrow> length s = 71 \<and> starts_with ''sha256:'' s \<and> (\<forall>c\<in>set (drop 7 s). is_hex c)"

definition check :: "bool \<Rightarrow> string \<Rightarrow> unit result" where
  "check ok message = (if ok then Inr () else Inl (ValidationError message))"

lemma check_Inr [simp]: "check ok m = Inr u \<longleftrightarrow> ok"
  by (simp add: check_def)

subsection \<open>Slack bindings\<close>

record slack_identity =
  si_slack :: string
  si_hexclave :: string
  si_evidence :: string

record slack_binding =
  sb_workspace :: string
  sb_team :: string
  sb_connection :: string
  sb_hexclave_team :: string
  sb_identities :: "slack_identity list"

text \<open>The strings are the stripped ones that the model configuration leaves.\<close>

definition validate_binding :: "slack_binding \<Rightarrow> unit result" where
  "validate_binding b =
     bind_r (check (workspace_id_ok (sb_workspace b) \<and> bounded 1 255 (sb_team b)
         \<and> bounded 1 255 (sb_connection b) \<and> bounded 1 255 (sb_hexclave_team b)
         \<and> (\<forall>i\<in>set (sb_identities b). bounded 1 255 (si_slack i) \<and> bounded 1 255 (si_hexclave i)
               \<and> bounded 1 1000 (si_evidence i))) ''String should match its bounds'') (\<lambda>_.
     bind_r (check (casefold (sb_connection b) \<noteq> ''default'')
         ''The Composio connection must use an explicit non-default user ID.'') (\<lambda>_.
     check (distinct (map si_slack (sb_identities b)))
         ''Each Slack user may have only one identity binding.''))"

definition hexclave_user_for :: "slack_binding \<Rightarrow> string \<Rightarrow> string option" where
  "hexclave_user_for b user =
     map_option si_hexclave (List.find (\<lambda>i. si_slack i = user) (sb_identities b))"

subsection \<open>The import request\<close>

record import_request =
  ir_id :: string
  ir_name :: string
  ir_description :: string
  ir_policy :: "scopes dict"
  ir_baseline :: artifact
  ir_spec :: artifact
  ir_ticket :: artifact
  ir_tasks :: "artifact list"
  ir_plan :: agent_plan
  ir_edges :: "edge list option"
  ir_version :: int
  ir_slack :: "slack_binding option"

definition plan_ref :: "import_request \<Rightarrow> string" where
  "plan_ref r = ''workspace://'' @ ir_id r @ ''/plans/'' @ plan_id (ir_plan r)"

definition graph_artifacts :: "import_request \<Rightarrow> artifact list" where
  "graph_artifacts r =
     [ir_baseline r, ir_spec r, ir_ticket r] @ ir_tasks r @
     [\<lparr>art_id = plan_id (ir_plan r), art_kind = AgentPlanKind, art_title = plan_objective (ir_plan r),
       art_text = plan_objective (ir_plan r), art_scopes = plan_scopes (ir_plan r),
       art_validity = Valid, art_invalidated = {}, art_approval = None, art_role = None,
       art_confidence = 1, art_effective = None, art_source = Some (plan_ref r),
       art_attrs = [(''representation'', PStr ''agent-plan'')]\<rparr>]"

definition drives_edge :: "import_request \<Rightarrow> artifact \<Rightarrow> edge" where
  "drives_edge r task = \<lparr>edge_source = art_id task, edge_target = plan_id (ir_plan r),
     edge_kind = CURRENTLY_DRIVES, edge_scopes = art_scopes task \<inter> plan_scopes (ir_plan r),
     edge_evidence = Some (plan_ref r)\<rparr>"

definition graph_edges :: "import_request \<Rightarrow> edge list" where
  "graph_edges r = (case ir_edges r of
     Some edges \<Rightarrow>
       (let connected = edge_source ` set (filter (\<lambda>e. edge_target e = plan_id (ir_plan r)
              \<and> edge_kind e = CURRENTLY_DRIVES) edges)
        in edges @ map (drives_edge r) (filter (\<lambda>t. art_id t \<notin> connected) (ir_tasks r)))
   | None \<Rightarrow>
       [\<lparr>edge_source = art_id (ir_baseline r), edge_target = art_id (ir_spec r), edge_kind = BASIS_FOR,
         edge_scopes = art_scopes (ir_baseline r), edge_evidence = art_source (ir_baseline r)\<rparr>,
        \<lparr>edge_source = art_id (ir_spec r), edge_target = art_id (ir_ticket r), edge_kind = CREATES,
         edge_scopes = art_scopes (ir_baseline r) \<union> art_scopes (ir_spec r) \<union> art_scopes (ir_ticket r),
         edge_evidence = art_source (ir_spec r)\<rparr>] @
       concat (map (\<lambda>t.
         [\<lparr>edge_source = art_id (ir_ticket r), edge_target = art_id t, edge_kind = DECOMPOSES_TO,
           edge_scopes = art_scopes t, edge_evidence = art_source t\<rparr>, drives_edge r t]) (ir_tasks r)))"

subsection \<open>Reachability over the declared edges\<close>

text \<open>The depth-first search of the validator: a stack popped from its end.\<close>

function reachable_loop :: "string list dict \<Rightarrow> string \<Rightarrow> string list \<Rightarrow> string set \<Rightarrow> bool" where
  "reachable_loop outgoing target todo visited =
     (if todo = [] then False
      else (let current = last todo; rest = butlast todo in
        if current = target then True
        else if current \<in> visited then reachable_loop outgoing target rest visited
        else reachable_loop outgoing target
          (rest @ (case dict_get outgoing current of None \<Rightarrow> [] | Some ys \<Rightarrow> ys))
          (insert current visited)))"
  by pat_completeness auto
termination
proof (relation "measures [\<lambda>(out, t, p, v). card (fst ` set out - v), \<lambda>(out, t, p, v). length p]")
  fix out :: "string list dict" and target and todo :: "string list" and visited current rest
  assume a: "todo \<noteq> []" "current = last todo" "rest = butlast todo" "current \<notin> visited"
  let ?K = "fst ` set out"
  show "((out, target, rest @ (case dict_get out current of None \<Rightarrow> [] | Some ys \<Rightarrow> ys), insert current visited),
      (out, target, todo, visited)) \<in>
      measures [\<lambda>(out, t, p, v). card (fst ` set out - v), \<lambda>(out, t, p, v). length p]"
  proof (cases "dict_get out current")
    case None
    have "card (?K - insert current visited) \<le> card (?K - visited)" by (intro card_mono) auto
    with None a show ?thesis by auto
  next
    case (Some ys)
    then have "current \<in> ?K" by (metis dict_get_None option.distinct(1))
    then have "card (?K - insert current visited) < card (?K - visited)"
      using a(4) by (intro psubset_card_mono) auto
    then show ?thesis by simp
  qed
qed auto

declare reachable_loop.simps [simp del]

definition outgoing_targets :: "edge list \<Rightarrow> string list dict" where
  "outgoing_targets es = fold (\<lambda>e d. dict_append (edge_source e) (edge_target e) d)
     (filter (\<lambda>e. edge_kind e \<in> downstream_kinds) es) []"

definition reachable :: "edge list \<Rightarrow> string \<Rightarrow> string \<Rightarrow> bool" where
  "reachable es source target = reachable_loop (outgoing_targets es) target [source] {}"

definition scoped_edge :: "edge list \<Rightarrow> string \<Rightarrow> string \<Rightarrow> edge_kind \<Rightarrow> string \<Rightarrow> bool" where
  "scoped_edge es source target kind scope \<longleftrightarrow> (\<exists>e\<in>set es. edge_source e = source
     \<and> edge_target e = target \<and> edge_kind e = kind \<and> scope \<in> edge_scopes e)"

subsection \<open>Validation of an import\<close>

definition validate_kinds :: "import_request \<Rightarrow> unit result" where
  "validate_kinds r =
     bind_r (check (case ir_slack r of None \<Rightarrow> True | Some b \<Rightarrow> sb_workspace b = ir_id r)
       ''slack_binding.workspace_id must match the Workspace ID'') (\<lambda>_.
     bind_r (check (art_kind (ir_baseline r) = Decision) ''baseline_decision must be a Decision artifact'') (\<lambda>_.
     bind_r (check (art_kind (ir_spec r) = Specification) ''specification must be a Specification artifact'') (\<lambda>_.
     bind_r (check (art_kind (ir_ticket r) = Ticket) ''ticket must be a Ticket artifact'') (\<lambda>_.
     bind_r (check (art_approval (ir_baseline r) = Some Proposal)
       ''baseline_decision must be imported as a proposal'') (\<lambda>_.
     bind_r (check (\<forall>t\<in>set (ir_tasks r). art_kind t = Task) ''tasks may contain only Task artifacts'') (\<lambda>_.
     check (plan_ticket (ir_plan r) = art_id (ir_ticket r)) ''plan.ticket_id must match the imported ticket''))))))"

definition import_ids :: "import_request \<Rightarrow> string list" where
  "import_ids r = map art_id ([ir_baseline r, ir_spec r, ir_ticket r] @ ir_tasks r) @ [plan_id (ir_plan r)]"

definition baseline_requirements :: "import_request \<Rightarrow> attributes dict option" where
  "baseline_requirements r = (case dict_get (art_attrs (ir_baseline r)) ''requirements'' of
     Some (PDict d) \<Rightarrow> dict_values d | _ \<Rightarrow> None)"

text \<open>The body of \<open>for scope in baseline_scopes\<close>.\<close>

definition validate_scope :: "import_request \<Rightarrow> string \<Rightarrow> attributes dict \<Rightarrow> string \<Rightarrow> unit result" where
  "validate_scope r role reqs scope =
     (let roles = (case dict_get (ir_policy r) scope of None \<Rightarrow> {} | Some rs \<Rightarrow> rs);
          covering = filter (\<lambda>a. scope \<in> act_scopes a) (plan_actions (ir_plan r));
          missing = (if scope \<notin> art_scopes (ir_spec r) then [''Specification''] else [])
            @ (if scope \<notin> art_scopes (ir_ticket r) then [''Ticket''] else [])
            @ (if \<not> (\<exists>t\<in>set (ir_tasks r). scope \<in> art_scopes t) then [''Task''] else [])
            @ (if scope \<notin> plan_scopes (ir_plan r) \<or> covering = [] then [''AgentPlan action''] else [])
      in
     bind_r (check (roles \<noteq> {}) (''authority_policy has no roles for scope '' @ py_repr scope)) (\<lambda>_.
     bind_r (check (role \<in> roles) (''baseline authority_role is not authorized for scope '' @ py_repr scope)) (\<lambda>_.
     bind_r (check (missing = []) (''baseline requirement scope '' @ py_repr scope @ '' is missing from: ''
         @ join '', '' missing)) (\<lambda>_.
     case dict_get reqs scope of
       None \<Rightarrow> Inl (KeyError scope)
     | Some req \<Rightarrow>
         (case List.find (\<lambda>a. \<not> attrs_eq (map (\<lambda>(k, _). (k, attr_or_none (act_attrs a) k)) req) req) covering of
            None \<Rightarrow> Inr ()
          | Some a \<Rightarrow> Inl (ValidationError (''initial plan action '' @ py_repr (act_id a)
              @ '' does not satisfy baseline requirement scope '' @ py_repr scope)))))))"

definition validate_requirements :: "platform \<Rightarrow> import_request \<Rightarrow> unit result" where
  "validate_requirements P r =
     (let scopes = art_scopes (ir_baseline r) in
      case baseline_requirements r of
        None \<Rightarrow> Inl (ValidationError ''baseline decision requirements must be objects and exactly match its scopes'')
      | Some reqs \<Rightarrow>
          bind_r (check (set (map fst reqs) = scopes)
            ''baseline decision requirements must be objects and exactly match its scopes'') (\<lambda>_.
          bind_r (check (scopes \<noteq> {}) ''baseline decision must govern at least one scope'') (\<lambda>_.
          case art_role (ir_baseline r) of
            None \<Rightarrow> Inl (ValidationError ''baseline decision must declare authority_role'')
          | Some role \<Rightarrow> fold_r (\<lambda>s _. validate_scope r role reqs s) (set_order P scopes) ())))"

definition action_reference_ok :: "import_request \<Rightarrow> plan_action \<Rightarrow> bool" where
  "action_reference_ok r a = (case dict_get (act_attrs a) ''task_id'' of
     None \<Rightarrow> True
   | Some (PStr i) \<Rightarrow> (case dict_get (dict_of (map (\<lambda>t. (art_id t, t)) (ir_tasks r))) i of
       None \<Rightarrow> False | Some t \<Rightarrow> art_validity t = Valid)
   | Some _ \<Rightarrow> False)"

definition validate_plan :: "import_request \<Rightarrow> unit result" where
  "validate_plan r =
     (case List.find (\<lambda>a. \<not> action_reference_ok r a) (plan_actions (ir_plan r)) of
        Some a \<Rightarrow> Inl (ValidationError (''initial plan action '' @ py_repr (act_id a)
          @ '' references a missing or non-valid Task''))
      | None \<Rightarrow>
        (case resolve_plan_actions_for_tasks (ir_tasks r) (ir_plan r) of
           Inl e \<Rightarrow> Inl (ValidationError (error_text e))
         | Inr resolved \<Rightarrow>
             (let unplanned = map art_id (filter (\<lambda>t. art_validity t = Valid
                    \<and> dict_get resolved (art_id t) \<in> {None, Some []}) (ir_tasks r))
              in check (unplanned = []) (''every Task must be represented by an AgentPlan action; missing: ''
                   @ join '', '' (sort unplanned)))))"

definition required_segments :: "import_request \<Rightarrow> (string \<times> string \<times> string) list" where
  "required_segments r =
     [(art_id (ir_baseline r), art_id (ir_spec r), ''baseline Decision to Specification''),
      (art_id (ir_spec r), art_id (ir_ticket r), ''Specification to Ticket'')]
     @ map (\<lambda>t. (art_id (ir_ticket r), art_id t, ''Ticket to Task '' @ art_id t)) (ir_tasks r)
     @ map (\<lambda>t. (art_id t, plan_id (ir_plan r), ''Task '' @ art_id t @ '' to AgentPlan'')) (ir_tasks r)"

definition continuous_path :: "import_request \<Rightarrow> string \<Rightarrow> bool" where
  "continuous_path r scope \<longleftrightarrow> (let es = graph_edges r in
     scoped_edge es (art_id (ir_baseline r)) (art_id (ir_spec r)) BASIS_FOR scope
   \<and> scoped_edge es (art_id (ir_spec r)) (art_id (ir_ticket r)) CREATES scope
   \<and> (\<exists>t\<in>set (ir_tasks r). scope \<in> art_scopes t
        \<and> scoped_edge es (art_id (ir_ticket r)) (art_id t) DECOMPOSES_TO scope
        \<and> scoped_edge es (art_id t) (plan_id (ir_plan r)) CURRENTLY_DRIVES scope))"

definition validate_edges :: "import_request \<Rightarrow> unit result" where
  "validate_edges r =
     (case List.find (\<lambda>e. edge_source e \<notin> set (import_ids r) \<or> edge_target e \<notin> set (import_ids r))
            (case ir_edges r of None \<Rightarrow> [] | Some es \<Rightarrow> es) of
        Some e \<Rightarrow> Inl (ValidationError (''edge endpoints must reference imported artifacts: ''
          @ edge_source e @ '' -> '' @ edge_target e))
      | None \<Rightarrow>
        (let disconnected = map (\<lambda>(_, _, l). l)
               (filter (\<lambda>(s, t, _). \<not> reachable (graph_edges r) s t) (required_segments r));
             scopes = filter (\<lambda>s. \<not> continuous_path r s) (sorted_list_of_set (art_scopes (ir_baseline r)))
         in bind_r (check (disconnected = []) (''workspace graph is missing authority provenance: ''
              @ join '', '' disconnected)) (\<lambda>_.
            check (scopes = []) (''workspace graph lacks a continuous scoped authority path for: ''
              @ join '', '' scopes))))"

definition validate_import_fields :: "import_request \<Rightarrow> unit result" where
  "validate_import_fields r = check (workspace_id_ok (ir_id r) \<and> bounded 1 160 (ir_name r)
     \<and> length (ir_description r) \<le> 2000 \<and> ir_policy r \<noteq> [] \<and> ir_tasks r \<noteq> [] \<and> 0 \<le> ir_version r)
     ''Field constraints''"

text \<open>A binding inside the request is validated as it is built, before the request's own validator.\<close>

definition validate_import :: "platform \<Rightarrow> import_request \<Rightarrow> unit result" where
  "validate_import P r =
     bind_r (case ir_slack r of None \<Rightarrow> Inr () | Some b \<Rightarrow> validate_binding b) (\<lambda>_.
     bind_r (validate_import_fields r) (\<lambda>_.
     bind_r (validate_kinds r) (\<lambda>_.
     bind_r (check (distinct (import_ids r)) ''workspace artifact and plan IDs must be unique'') (\<lambda>_.
     bind_r (validate_requirements P r) (\<lambda>_.
     bind_r (validate_plan r) (\<lambda>_.
     validate_edges r))))))"

subsection \<open>Approval evidence and intents\<close>

datatype approval_channel = Cli | Workspace_Ui | Slack_Reaction | Push | Email

record approval_evidence =
  ae_workspace :: string
  ae_decision :: string
  ae_approver :: string
  ae_permission :: string
  ae_channel :: approval_channel
  ae_ref :: string
  ae_at :: datetime
  ae_fingerprint :: string
  ae_instance :: string

text \<open>Building the model strips its strings, checks their bounds, then the time.\<close>

definition make_evidence :: "approval_evidence \<Rightarrow> approval_evidence result" where
  "make_evidence raw =
     (let e = raw\<lparr>ae_workspace := strip (ae_workspace raw), ae_decision := strip (ae_decision raw),
            ae_approver := strip (ae_approver raw), ae_permission := strip (ae_permission raw),
            ae_ref := strip (ae_ref raw), ae_fingerprint := strip (ae_fingerprint raw),
            ae_instance := strip (ae_instance raw)\<rparr>
      in bind_r (check (bounded 1 128 (ae_workspace e) \<and> bounded 1 160 (ae_decision e)
           \<and> bounded 1 255 (ae_approver e) \<and> bounded 1 128 (ae_permission e) \<and> bounded 1 1000 (ae_ref e)
           \<and> fingerprint_ok (ae_fingerprint e) \<and> bounded 1 255 (ae_instance e))
           ''String should match its bounds'') (\<lambda>_.
         bind_r (check (dt_aware (ae_at e)) ''Approval evidence time must be timezone-aware.'') (\<lambda>_.
         Inr e)))"

record proposal_request =
  wp_decision :: artifact
  wp_supersedes :: string
  wp_scopes :: scopes

definition validate_proposal :: "proposal_request \<Rightarrow> unit result" where
  "validate_proposal p =
     bind_r (check (bounded 1 160 (wp_supersedes p) \<and> wp_scopes p \<noteq> {}) ''Field constraints'') (\<lambda>_.
     bind_r (check (art_kind (wp_decision p) = Decision) ''decision must be a Decision artifact'') (\<lambda>_.
     check (art_approval (wp_decision p) = Some Proposal) ''decision changes must be submitted as proposals''))"

definition proposal_mutation :: "proposal_request \<Rightarrow> decision_mutation" where
  "proposal_mutation p =
     \<lparr>mut_decision = wp_decision p, mut_supersedes = wp_supersedes p, mut_scopes = wp_scopes p\<rparr>"

record approval_request =
  rq_role :: string
  rq_fingerprint :: "string option"
  rq_evidence :: "approval_evidence option"
  rq_instance :: "string option"

definition validate_approval_request :: "approval_request \<Rightarrow> unit result" where
  "validate_approval_request q =
     bind_r (check (bounded 1 128 (rq_role q)
         \<and> (case rq_fingerprint q of None \<Rightarrow> True | Some f \<Rightarrow> fingerprint_ok f)
         \<and> (case rq_instance q of None \<Rightarrow> True | Some i \<Rightarrow> bounded 1 255 i)) ''Field constraints'') (\<lambda>_.
     bind_r (check ((rq_fingerprint q = None) = (rq_evidence q = None))
         ''proposal_fingerprint and approval_evidence must be supplied together'') (\<lambda>_.
     check ((rq_evidence q = None) = (rq_instance q = None))
         ''proposal_instance_id and approval_evidence must be supplied together''))"

record approval_intent =
  in_mutation :: decision_mutation
  in_role :: string
  in_fingerprint :: string
  in_instance :: string
  in_evidence :: approval_evidence
  in_base :: string
  in_prepared :: datetime
  in_result :: "mutation_result option"
  in_authorization :: "authorization_result option"

definition validate_intent :: "platform \<Rightarrow> approval_intent \<Rightarrow> unit result" where
  "validate_intent P i =
     (let e = in_evidence i; d = art_id (mut_decision (in_mutation i)) in
     bind_r (check (bounded 1 128 (in_role i) \<and> fingerprint_ok (in_fingerprint i) \<and> bounded 1 255 (in_instance i)
         \<and> bounded 1 255 (in_base i)) ''Field constraints'') (\<lambda>_.
     bind_r (check (in_fingerprint i = stable_hash P (mutation_dump P (in_mutation i)))
         ''Approval intent fingerprint must match its exact mutation.'') (\<lambda>_.
     bind_r (check (ae_decision e = d \<and> ae_permission e = in_role i
         \<and> ae_fingerprint e = in_fingerprint i \<and> ae_instance e = in_instance i)
         ''Approval intent evidence must match its exact proposal.'') (\<lambda>_.
     bind_r (check (dt_aware (in_prepared i)) ''Approval intent prepared_at must be timezone-aware.'') (\<lambda>_.
     bind_r (check (case in_result i of None \<Rightarrow> True
         | Some res \<Rightarrow> mres_applied res \<and> (case mres_report res of None \<Rightarrow> False
             | Some rep \<Rightarrow> rep_version rep = mres_version res \<and> rep_changed rep = d))
         ''Approval intent mutation result must prove the exact change.'') (\<lambda>_.
     case in_authorization i of
       None \<Rightarrow> Inr ()
     | Some auth \<Rightarrow>
         (case in_result i of
            None \<Rightarrow> Inl (ValidationError ''Approval intent cannot authorize before mutation evidence.'')
          | Some res \<Rightarrow> check (ar_version auth = mres_version res)
              ''Approval intent authorization must use the mutated graph.'')))))))"

subsection \<open>The workspace record\<close>

datatype live_status =
    WS_Imported | WS_Baseline_Approved | WS_Authorized | WS_Change_Proposed | WS_Change_Applied
  | WS_Initial_Grant_Rejected | WS_Plan_Updated | WS_Reauthorized | WS_Complete

record workspace_event =
  we_sequence :: int
  we_type :: string
  we_detail :: string
  we_created :: datetime
  we_actor :: "string option"
  we_data :: "pyval dict"

record call_receipt =
  cr_provider :: string
  cr_call :: string
  cr_status :: string
  cr_evidence :: string

record execution_result =
  ex_applied :: bool
  ex_reason :: string
  ex_code :: verification_code
  ex_url :: "string option"
  ex_mode :: "execution_mode option"
  ex_receipt :: "call_receipt option"

record approved_change =
  am_mutation :: decision_mutation
  am_role :: string
  am_evidence :: "approval_evidence option"

record live_record =
  lw_definition :: import_request
  lw_context :: string
  lw_status :: live_status
  lw_version :: string
  lw_baseline_approved :: bool
  lw_baseline_role :: "string option"
  lw_baseline_instance :: "string option"
  lw_baseline_evidence :: "approval_evidence option"
  lw_plan :: agent_plan
  lw_pending :: "decision_mutation option"
  lw_proposal_sequence :: int
  lw_pending_instance :: "string option"
  lw_intent :: "approval_intent option"
  lw_approved :: "approved_change list"
  lw_initial :: "authorization_result option"
  lw_conflict :: "authorization_result option"
  lw_replacement :: "authorization_result option"
  lw_report :: "invalidation_report option"
  lw_initial_check :: "execution_result option"
  lw_replacement_check :: "execution_result option"
  lw_supervisor :: "supervisor option"
  lw_history :: "workspace_event list"
  lw_created :: datetime
  lw_updated :: datetime

abbreviation lw_id :: "live_record \<Rightarrow> string" where
  "lw_id w \<equiv> ir_id (lw_definition w)"

text \<open>What a reader of the workspace sees of an authorization: the grant's payload, never its token.\<close>

record authorization_view =
  av_verdict :: verdict
  av_reason :: string
  av_version :: string
  av_task :: string
  av_scopes :: scopes
  av_mismatches :: "plan_mismatch list"
  av_requirements :: "attributes dict"
  av_path :: "string list"
  av_invalidated :: "string list"
  av_preserved :: "string list"
  av_evidence :: "string list"
  av_grant :: "grant_payload option"

definition view_of_result :: "authorization_result option \<Rightarrow> authorization_view option" where
  "view_of_result r = map_option (\<lambda>a.
     \<lparr>av_verdict = ar_verdict a, av_reason = ar_reason a, av_version = ar_version a, av_task = ar_task a,
      av_scopes = ar_scopes a, av_mismatches = ar_mismatches a, av_requirements = ar_requirements a,
      av_path = ar_path a, av_invalidated = ar_invalidated a, av_preserved = ar_preserved a,
      av_evidence = ar_evidence a, av_grant = map_option sg_payload (ar_grant a)\<rparr>) r"

record approval_preview =
  ap_interrupted :: "string list"
  ap_preserved :: "string list"
  ap_interrupted_count :: int
  ap_preserved_count :: int
  ap_total :: int
  ap_paths :: "string list dict"

definition validate_partition :: "approval_preview \<Rightarrow> unit result" where
  "validate_partition p =
     bind_r (check (0 \<le> ap_interrupted_count p \<and> 0 \<le> ap_preserved_count p \<and> 0 \<le> ap_total p) ''Field constraints'') (\<lambda>_.
     bind_r (check (set (ap_interrupted p) \<inter> set (ap_preserved p) = {})
       ''Approval preview partitions must not overlap.'') (\<lambda>_.
     bind_r (check (set (map fst (ap_paths p)) = set (ap_interrupted p))
       ''Every interrupted assignment needs one provenance path.'') (\<lambda>_.
     check (ap_interrupted_count p = int (length (ap_interrupted p))
         \<and> ap_preserved_count p = int (length (ap_preserved p))
         \<and> ap_total p = ap_interrupted_count p + ap_preserved_count p)
       ''Approval preview counts do not match its partition.'')))"

subsection \<open>The search is reachability\<close>

definition target_step :: "string list dict \<Rightarrow> string \<Rightarrow> string \<Rightarrow> bool" where
  "target_step out x y \<longleftrightarrow> (\<exists>ys. dict_get out x = Some ys \<and> y \<in> set ys)"

lemma target_step_iff:
  "target_step out x y \<longleftrightarrow> y \<in> set (case dict_get out x of None \<Rightarrow> [] | Some ys \<Rightarrow> ys)"
  by (cases "dict_get out x") (auto simp: target_step_def)

lemma leaves_visited:
  assumes "(target_step out)\<^sup>*\<^sup>* x t" and "x \<in> V" and "t \<notin> V"
    and "\<forall>x\<in>V. \<forall>y. target_step out x y \<longrightarrow> y \<in> V \<union> S"
  shows "\<exists>y\<in>S. (target_step out)\<^sup>*\<^sup>* y t"
  using assms(1,2)
proof (induction rule: converse_rtranclp_induct)
  case base
  then show ?case using assms(3) by blast
next
  case (step x y)
  then show ?case using assms(4) by blast
qed

lemma rtranclp_unfold: "x \<noteq> t \<Longrightarrow> R\<^sup>*\<^sup>* x t \<longleftrightarrow> (\<exists>y. R x y \<and> R\<^sup>*\<^sup>* y t)"
  by (blast elim: converse_rtranclpE intro: converse_rtranclp_into_rtranclp)

lemma reachable_loop_step:
  assumes "todo \<noteq> []"
  shows "last todo = t \<Longrightarrow> reachable_loop out t todo V = True"
    and "\<lbrakk>last todo \<noteq> t; last todo \<in> V\<rbrakk> \<Longrightarrow> reachable_loop out t todo V = reachable_loop out t (butlast todo) V"
    and "\<lbrakk>last todo \<noteq> t; last todo \<notin> V\<rbrakk> \<Longrightarrow> reachable_loop out t todo V = reachable_loop out t
       (butlast todo @ (case dict_get out (last todo) of None \<Rightarrow> [] | Some ys \<Rightarrow> ys)) (insert (last todo) V)"
  unfolding reachable_loop.simps [of out t todo V] Let_def using assms by (simp_all only: if_True if_False simp_thms)

lemma reachable_loop_iff:
  "\<lbrakk>t \<notin> V; \<forall>x\<in>V. \<forall>y. target_step out x y \<longrightarrow> y \<in> V \<union> set todo\<rbrakk> \<Longrightarrow>
   reachable_loop out t todo V \<longleftrightarrow> (\<exists>x\<in>set todo. (target_step out)\<^sup>*\<^sup>* x t)"
proof (induction out t todo V rule: reachable_loop.induct)
  case (1 out t todo V)
  show ?case
  proof (cases "todo = []")
    case True
    then show ?thesis by (subst reachable_loop.simps) simp
  next
    case False
    define c where "c = last todo"
    define r where "r = butlast todo"
    define ys where "ys = (case dict_get out c of None \<Rightarrow> [] | Some ys \<Rightarrow> ys)"
    have todo: "set todo = insert c (set r)"
      using False unfolding c_def r_def
      by (metis append_butlast_last_id list.simps(15) rotate1.simps(2) set_rotate1)
    have ys: "y \<in> set ys \<longleftrightarrow> target_step out c y" for y
      unfolding ys_def by (rule target_step_iff [symmetric])
    note steps = reachable_loop_step [OF False, folded c_def r_def, folded ys_def]
    consider "c = t" | "c \<noteq> t" "c \<in> V" | "c \<noteq> t" "c \<notin> V" by blast
    then show ?thesis
    proof cases
      case 1
      then show ?thesis using steps(1) todo by blast
    next
      case 2
      have closed: "\<forall>x\<in>V. \<forall>y. target_step out x y \<longrightarrow> y \<in> V \<union> set r"
      proof (intro ballI allI impI)
        fix x y
        assume "x \<in> V" "target_step out x y"
        then have "y \<in> V \<union> set todo" by (rule "1.prems"(2) [rule_format])
        then show "y \<in> V \<union> set r" using 2(2) by (auto simp only: todo Un_iff insert_iff)
      qed
      have "\<exists>x\<in>set r. (target_step out)\<^sup>*\<^sup>* x t" if "(target_step out)\<^sup>*\<^sup>* c t"
        by (rule leaves_visited [OF that 2(2) "1.prems"(1) closed])
      then show ?thesis
        unfolding steps(2) [OF 2] "1.IH"(1) [OF False c_def r_def 2 "1.prems"(1) closed] todo bex_simps by blast
    next
      case 3
      have closed: "\<forall>x\<in>insert c V. \<forall>y. target_step out x y \<longrightarrow> y \<in> insert c V \<union> set (r @ ys)"
      proof (intro ballI allI impI)
        fix x y
        assume x: "x \<in> insert c V" and step: "target_step out x y"
        show "y \<in> insert c V \<union> set (r @ ys)"
        proof (cases "x = c")
          case True
          then show ?thesis using step ys by simp
        next
          case False
          then have "x \<in> V" using x by blast
          from "1.prems"(2) [rule_format, OF this step] have "y \<in> V \<union> set todo" .
          then show ?thesis by (auto simp only: todo set_append Un_iff insert_iff)
        qed
      qed
      have "t \<notin> insert c V" using "1.prems"(1) 3(1) by blast
      from "1.IH"(2) [OF False c_def r_def 3, folded ys_def, OF this closed]
      have "reachable_loop out t todo V \<longleftrightarrow> (\<exists>x\<in>set (r @ ys). (target_step out)\<^sup>*\<^sup>* x t)"
        unfolding steps(3) [OF 3] ys_def [symmetric] .
      moreover have "(target_step out)\<^sup>*\<^sup>* c t \<longleftrightarrow> (\<exists>y\<in>set ys. (target_step out)\<^sup>*\<^sup>* y t)"
        unfolding rtranclp_unfold [OF 3(1)] using ys by blast
      ultimately show ?thesis unfolding todo set_append by blast
    qed
  qed
qed

lemma target_step_append:
  "target_step (dict_append k v d) x y \<longleftrightarrow> target_step d x y \<or> x = k \<and> y = v"
  by (cases "dict_get d k") (auto simp: target_step_def dict_append_def update_conv)

lemma target_step_fold:
  "target_step (fold (\<lambda>e d. dict_append (edge_source e) (edge_target e) d) es d) x y \<longleftrightarrow>
   target_step d x y \<or> (\<exists>e\<in>set es. edge_source e = x \<and> edge_target e = y)"
  by (induction es arbitrary: d) (auto simp: target_step_append)

lemma reachable_iff:
  "reachable es x t \<longleftrightarrow>
   (\<lambda>x y. \<exists>e\<in>set es. edge_kind e \<in> downstream_kinds \<and> edge_source e = x \<and> edge_target e = y)\<^sup>*\<^sup>* x t"
proof -
  have "target_step [] = (\<lambda>_ _. False)" by (intro ext) (simp add: target_step_def)
  then have "target_step (outgoing_targets es) =
      (\<lambda>x y. \<exists>e\<in>set es. edge_kind e \<in> downstream_kinds \<and> edge_source e = x \<and> edge_target e = y)"
    by (intro ext) (auto simp: outgoing_targets_def target_step_fold)
  moreover have "reachable es x t \<longleftrightarrow> (target_step (outgoing_targets es))\<^sup>*\<^sup>* x t"
    using reachable_loop_iff [of t "{}" "outgoing_targets es" "[x]"] by (simp add: reachable_def)
  ultimately show ?thesis by simp
qed

subsection \<open>The graph of a validated import\<close>

lemma fold_r_check: "fold_r (\<lambda>x _. f x) xs () = Inr u \<longleftrightarrow> (\<forall>x\<in>set xs. f x = Inr ())"
  by (induction xs) auto

lemma validate_import_parts:
  assumes "validate_import P r = Inr u"
  shows "distinct (import_ids r)" "validate_requirements P r = Inr ()" "validate_edges r = Inr ()"
    "validate_kinds r = Inr ()" "validate_plan r = Inr ()"
  using assms unfolding validate_import_def by (simp_all split: sum.splits)

lemma import_ids_artifacts: "import_ids r = map art_id (graph_artifacts r)"
  by (simp add: import_ids_def graph_artifacts_def)

lemma default_edges_closed:
  assumes "ir_edges r = None" and "e \<in> set (graph_edges r)"
  shows "edge_source e \<in> set (import_ids r) \<and> edge_target e \<in> set (import_ids r)"
  using assms by (auto simp: graph_edges_def import_ids_def drives_edge_def)

lemma given_edges_closed:
  assumes v: "validate_edges r = Inr u" and es: "ir_edges r = Some es" and e: "e \<in> set (graph_edges r)"
  shows "edge_source e \<in> set (import_ids r) \<and> edge_target e \<in> set (import_ids r)"
proof -
  have "List.find (\<lambda>e. edge_source e \<notin> set (import_ids r) \<or> edge_target e \<notin> set (import_ids r)) es = None"
    using v es by (simp add: validate_edges_def split: option.splits)
  then have declared: "\<forall>e\<in>set es. edge_source e \<in> set (import_ids r) \<and> edge_target e \<in> set (import_ids r)"
    by (auto simp: find_None_iff)
  show ?thesis
  proof (cases "e \<in> set es")
    case True
    then show ?thesis using declared by blast
  next
    case False
    then obtain t where "t \<in> set (ir_tasks r)" "e = drives_edge r t"
      using e es by (auto simp: graph_edges_def Let_def)
    then show ?thesis by (simp add: drives_edge_def import_ids_def)
  qed
qed

theorem validated_graph_wf:
  assumes v: "validate_import P r = Inr u"
  shows "wf_graph (reset ver (graph_artifacts r) (graph_edges r) g)"
proof (rule wf_graph_reset, intro ballI)
  fix e assume e: "e \<in> set (graph_edges r)"
  have "edge_source e \<in> set (import_ids r) \<and> edge_target e \<in> set (import_ids r)"
    using e default_edges_closed given_edges_closed [OF validate_import_parts(3) [OF v]]
    by (cases "ir_edges r") blast+
  then show "edge_source e \<in> art_id ` set (graph_artifacts r) \<and> edge_target e \<in> art_id ` set (graph_artifacts r)"
    by (simp add: import_ids_artifacts)
qed

lemma validated_get:
  assumes "validate_import P r = Inr u" and "a \<in> set (graph_artifacts r)"
  shows "get_artifact (reset ver (graph_artifacts r) (graph_edges r) g) (art_id a) = Inr a"
  using get_reset [OF _ assms(2)] validate_import_parts(1) [OF assms(1)] by (simp add: import_ids_artifacts)

text \<open>Each governed scope is on the specification, the ticket, a task and the plan.\<close>

lemma validate_scope_missing:
  assumes "validate_scope r role reqs s = Inr u"
  shows "s \<in> art_scopes (ir_spec r)" "s \<in> art_scopes (ir_ticket r)" "s \<in> plan_scopes (ir_plan r)"
    "\<exists>a\<in>set (plan_actions (ir_plan r)). s \<in> act_scopes a"
  using assms unfolding validate_scope_def Let_def bind_r_eq_Inr check_Inr append_is_Nil_conv
  by (auto split: if_splits simp: filter_empty_conv)

lemma validated_scope:
  assumes v: "validate_import P r = Inr u" and P: "set_order_ok P" and s: "s \<in> art_scopes (ir_baseline r)"
  obtains role reqs where "art_role (ir_baseline r) = Some role" "baseline_requirements r = Some reqs"
    "validate_scope r role reqs s = Inr ()"
proof -
  from validate_import_parts(2) [OF v] obtain role reqs where
    b: "art_role (ir_baseline r) = Some role" "baseline_requirements r = Some reqs"
      "set (map fst reqs) = art_scopes (ir_baseline r)"
    and all: "fold_r (\<lambda>s _. validate_scope r role reqs s) (set_order P (art_scopes (ir_baseline r))) () = Inr ()"
    unfolding validate_requirements_def Let_def by (auto split: option.splits)
  have "finite (art_scopes (ir_baseline r))" using b(3) by (metis finite_set)
  then have "s \<in> set (set_order P (art_scopes (ir_baseline r)))" using P s by (simp add: set_order_ok_def)
  with all have "validate_scope r role reqs s = Inr ()" unfolding fold_r_check by blast
  with b that show ?thesis by blast
qed

lemma baseline_scopes_finite: "validate_import P r = Inr u \<Longrightarrow> finite (art_scopes (ir_baseline r))"
  using validate_import_parts(2) [of P r u] unfolding validate_requirements_def Let_def
  by (auto split: option.splits) (metis finite_imageI finite_set)

lemma validated_path:
  assumes v: "validate_import P r = Inr u" and s: "s \<in> art_scopes (ir_baseline r)"
  shows "continuous_path r s"
proof -
  have "filter (\<lambda>s. \<not> continuous_path r s) (sorted_list_of_set (art_scopes (ir_baseline r))) = []"
    using validate_import_parts(3) [OF v] unfolding validate_edges_def Let_def by (auto split: option.splits)
  then show ?thesis using s baseline_scopes_finite [OF v] by (simp add: filter_empty_conv)
qed

lemma spread_edge:
  assumes "scoped_edge es x y k s" and "k \<in> downstream_kinds" and "g_edges g = es"
    and "get_artifact g y = Inr a" and "s \<in> art_scopes a"
  shows "spread g {s} x y"
  using assms by (auto simp: spread_def flows_def overlap_def scoped_edge_def)

theorem validated_baseline_reaches_plan:
  assumes v: "validate_import P r = Inr u" and P: "set_order_ok P" and s: "s \<in> art_scopes (ir_baseline r)"
    and g': "g' = reset ver (graph_artifacts r) (graph_edges r) g"
  shows "affected_by g' {s} (art_id (ir_baseline r)) (plan_id (ir_plan r))"
proof -
  let ?b = "art_id (ir_baseline r)" and ?p = "plan_id (ir_plan r)"
  note get = validated_get [OF v, of _ ver g, folded g']
  have es: "g_edges g' = graph_edges r" by (simp add: g' reset_def)
  obtain role reqs where "validate_scope r role reqs s = Inr ()"
    using validated_scope [OF v P s] by blast
  note has = validate_scope_missing [OF this]
  obtain t where t: "t \<in> set (ir_tasks r)" "s \<in> art_scopes t"
    and path: "scoped_edge (graph_edges r) ?b (art_id (ir_spec r)) BASIS_FOR s"
      "scoped_edge (graph_edges r) (art_id (ir_spec r)) (art_id (ir_ticket r)) CREATES s"
      "scoped_edge (graph_edges r) (art_id (ir_ticket r)) (art_id t) DECOMPOSES_TO s"
      "scoped_edge (graph_edges r) (art_id t) ?p CURRENTLY_DRIVES s"
    using validated_path [OF v s] unfolding continuous_path_def Let_def by blast
  have mem: "ir_spec r \<in> set (graph_artifacts r)" "ir_ticket r \<in> set (graph_artifacts r)"
    "t \<in> set (graph_artifacts r)"
    using t(1) by (simp_all add: graph_artifacts_def)
  obtain p where p: "p \<in> set (graph_artifacts r)" "art_id p = ?p" "art_scopes p = plan_scopes (ir_plan r)"
    by (rule that [of "last (graph_artifacts r)"]) (simp_all add: graph_artifacts_def)
  have gp: "get_artifact g' ?p = Inr p" using get [OF p(1)] p(2) by simp
  have sp: "s \<in> art_scopes p" using has(3) p(3) by simp
  have steps: "spread g' {s} ?b (art_id (ir_spec r))" "spread g' {s} (art_id (ir_spec r)) (art_id (ir_ticket r))"
    "spread g' {s} (art_id (ir_ticket r)) (art_id t)" "spread g' {s} (art_id t) ?p"
    by (rule spread_edge [OF path(1) _ es get [OF mem(1)] has(1)], simp add: downstream_kinds_def)
       (rule spread_edge [OF path(2) _ es get [OF mem(2)] has(2)], simp add: downstream_kinds_def,
        rule spread_edge [OF path(3) _ es get [OF mem(3)] t(2)], simp add: downstream_kinds_def,
        rule spread_edge [OF path(4) _ es gp sp], simp add: downstream_kinds_def)
  have "(spread g' {s})\<^sup>*\<^sup>* ?b ?p"
    using steps by (meson rtranclp.rtrancl_into_rtrancl rtranclp.rtrancl_refl)
  moreover have "overlap g' {s} ?p" using gp sp by (auto simp: overlap_def)
  ultimately show ?thesis by (simp add: affected_by_def)
qed

lemma validated_baseline_covered:
  assumes "validate_import P r = Inr u" and "set_order_ok P" and "s \<in> art_scopes (ir_baseline r)"
  shows "\<exists>a\<in>set (plan_actions (ir_plan r)). s \<in> act_scopes a"
  using validated_scope [OF assms] validate_scope_missing(4) by metis

subsection \<open>What a view exposes\<close>

text \<open>Two results that differ only in the signature of the grant have the same view.\<close>

lemma view_hides_token:
  assumes "ar_grant a = Some gr"
  shows "view_of_result (Some (a\<lparr>ar_grant := Some (gr\<lparr>sg_token := t\<rparr>)\<rparr>)) = view_of_result (Some a)"
  using assms by (simp add: view_of_result_def)

end
