(* ===== verification/Authority_Contexts.thy ===== *)
theory Authority_Contexts
  imports Authorization Workspace_Model
begin

text \<open>
  \<^verbatim>\<open>workspaces/authority_contexts.py\<close>: the registry of authority engines, one per live workspace,
  each with its own graph and signing secret, kept in least-recently-used order up to a limit.
  The theorems: the registry never exceeds its limit and evicts the oldest contexts; an
  operation on one context leaves every other as it was; a request that raises leaves its
  context as it was; an approval that is repeated returns the stored result; and a context is
  always what replaying its approved mutations on its seed gives, which is why an evicted
  context can be rebuilt.
\<close>

subsection \<open>Requests\<close>

record context_create =
  xc_id :: string
  xc_version :: int
  xc_artifacts :: "artifact list"
  xc_edges :: "edge list"
  xc_policy :: "scopes dict"
  xc_baseline :: string
  xc_slack :: "slack_binding option"

definition context_id_ok :: "string \<Rightarrow> bool" where
  "context_id_ok s \<longleftrightarrow> bounded 3 128 s \<and> is_alnum (hd s)
     \<and> (\<forall>c\<in>set (tl s). is_alnum c \<or> c = CHR ''_'' \<or> c = CHR ''-'')"

definition validate_graph_seed :: "context_create \<Rightarrow> unit result" where
  "validate_graph_seed q =
     (let ids = map art_id (xc_artifacts q);
          decisions = filter (\<lambda>a. art_kind a = Decision) (xc_artifacts q)
      in
     bind_r (check (context_id_ok (xc_id q) \<and> 0 \<le> xc_version q \<and> xc_artifacts q \<noteq> [] \<and> xc_edges q \<noteq> []
         \<and> xc_policy q \<noteq> [] \<and> bounded 1 160 (xc_baseline q)) ''Field constraints'') (\<lambda>_.
     bind_r (check (distinct ids) ''authority context artifact IDs must be unique'') (\<lambda>_.
     bind_r (check (xc_baseline q \<in> set ids) ''baseline_decision_id is absent from artifacts'') (\<lambda>_.
     bind_r (check (length decisions = 1 \<and> art_id (hd decisions) = xc_baseline q)
       ''authority context seed must contain only its baseline Decision'') (\<lambda>_.
     bind_r (check (art_approval (hd decisions) = Some Proposal)
       ''authority context baseline Decision must be a proposal'') (\<lambda>_.
     check (\<forall>e\<in>set (xc_edges q). edge_source e \<in> set ids \<and> edge_target e \<in> set ids)
       ''authority context edges must reference known artifacts''))))))"

record mutation_request =
  mq_mutation :: decision_mutation
  mq_role :: string
  mq_fingerprint :: string
  mq_evidence :: approval_evidence

text \<open>\<open>==\<close> of two requests: field by field, attributes as dictionaries.\<close>

definition artifact_eq :: "artifact \<Rightarrow> artifact \<Rightarrow> bool" where
  "artifact_eq a b \<longleftrightarrow> a\<lparr>art_attrs := []\<rparr> = b\<lparr>art_attrs := []\<rparr> \<and> attrs_eq (art_attrs a) (art_attrs b)"

definition mutation_request_eq :: "mutation_request \<Rightarrow> mutation_request \<Rightarrow> bool" where
  "mutation_request_eq p q \<longleftrightarrow>
     artifact_eq (mut_decision (mq_mutation p)) (mut_decision (mq_mutation q))
     \<and> mut_supersedes (mq_mutation p) = mut_supersedes (mq_mutation q)
     \<and> mut_scopes (mq_mutation p) = mut_scopes (mq_mutation q)
     \<and> mq_role p = mq_role q \<and> mq_fingerprint p = mq_fingerprint q \<and> mq_evidence p = mq_evidence q"

subsection \<open>A context\<close>

record authority_context =
  cx_id :: string
  cx_baseline :: string
  cx_authority :: authority
  cx_policy :: "scopes dict"
  cx_slack :: "slack_binding option"
  cx_approved :: bool
  cx_role :: "string option"
  cx_applied :: "string set"
  cx_mutations :: "mutation_request dict"
  cx_results :: "mutation_result dict"

record context_view =
  cs_id :: string
  cs_version :: string
  cs_baseline :: string
  cs_approved :: bool
  cs_artifacts :: "artifact list"
  cs_edges :: "edge list"
  cs_policy :: "scopes dict"
  cs_slack :: "slack_binding option"
  cs_evidence :: "approval_evidence dict"
  cs_report :: "invalidation_report option"

definition context_state :: "authority_context \<Rightarrow> context_view" where
  "context_state c = (let g = au_graph (cx_authority c) in
     \<lparr>cs_id = cx_id c, cs_version = version_label g, cs_baseline = cx_baseline c, cs_approved = cx_approved c,
      cs_artifacts = list_artifacts g, cs_edges = g_edges g, cs_policy = cx_policy c, cs_slack = cx_slack c,
      cs_evidence = map (\<lambda>(i, q). (i, mq_evidence q)) (cx_mutations c),
      cs_report = au_report (cx_authority c)\<rparr>)"

record registry =
  rg_secret :: string
  rg_ttl :: int
  rg_threshold :: rat
  rg_max :: int
  rg_contexts :: "authority_context dict"

definition make_registry :: "string \<Rightarrow> int \<Rightarrow> rat \<Rightarrow> int \<Rightarrow> registry result" where
  "make_registry secret ttl threshold limit =
     (if limit < 1 then Inl (ValueError ''max_contexts must be at least 1'')
      else Inr \<lparr>rg_secret = secret, rg_ttl = ttl, rg_threshold = threshold, rg_max = limit, rg_contexts = []\<rparr>)"

definition hex_digit :: "nat \<Rightarrow> char" where
  "hex_digit n = char_of (if n < 10 then 48 + n else 87 + n)"

definition hex_text :: "string \<Rightarrow> string" where
  "hex_text s = concat (map (\<lambda>c. let n = of_char c in [hex_digit (n div 16), hex_digit (n mod 16)]) s)"

definition signing_secret :: "platform \<Rightarrow> registry \<Rightarrow> string \<Rightarrow> string" where
  "signing_secret P r i = hex_text (hmac_sha256 P (rg_secret r) (''live-workspace:'' @ i))"

subsection \<open>Creating and evicting\<close>

text \<open>Drop from the front, where the least recently used context is.\<close>

function evict_beyond_limit :: "int \<Rightarrow> 'a dict \<Rightarrow> 'a dict" where
  "evict_beyond_limit limit cs =
     (if limit < int (length cs) \<and> cs \<noteq> [] then evict_beyond_limit limit (tl cs) else cs)"
  by pat_completeness auto
termination by (relation "measure (\<lambda>(_, cs). length cs)") auto

declare evict_beyond_limit.simps [simp del]

definition new_context :: "platform \<Rightarrow> registry \<Rightarrow> context_create \<Rightarrow> authority_context result" where
  "new_context P r q =
     bind_r (make_signer (signing_secret P r (xc_id q)) (rg_ttl r)) (\<lambda>signer.
     let g = reset (xc_version q) (xc_artifacts q) (xc_edges q) empty_graph;
         c = \<lparr>cx_id = xc_id q, cx_baseline = xc_baseline q,
              cx_authority = make_authority g signer (rg_threshold r) (Some (xc_policy q)),
              cx_policy = xc_policy q, cx_slack = xc_slack q, cx_approved = False, cx_role = None,
              cx_applied = {}, cx_mutations = [], cx_results = []\<rparr>
     in bind_r (get_artifact g (xc_baseline q)) (\<lambda>baseline.
        if art_kind baseline \<noteq> Decision then Inl (StateConflict ''The baseline artifact must be a Decision.'')
        else if art_approval baseline \<noteq> Some Proposal then
          Inl (StateConflict ''The baseline Decision must enter the authority as a proposal.'')
        else Inr c))"

definition create_context :: "platform \<Rightarrow> context_create \<Rightarrow> (registry, context_view) op" where
  "create_context P q r =
     (if dict_get (rg_contexts r) (xc_id q) \<noteq> None then
        (Inl (StateConflict (''Authority context already exists: '' @ xc_id q)), r)
      else (case new_context P r q of
        Inl e \<Rightarrow> (Inl e, r)
      | Inr c \<Rightarrow> (Inr (context_state c),
          r\<lparr>rg_contexts := evict_beyond_limit (rg_max r) (rg_contexts r @ [(xc_id q, c)])\<rparr>)))"

definition unknown_context :: "string \<Rightarrow> py_error" where
  "unknown_context i = NotFound (''Unknown Live Workspace authority context: '' @ i)"

text \<open>\<open>_access\<close>: the context moves to the end, and the body runs on it.\<close>

definition access :: "string \<Rightarrow> (authority_context, 'a) op \<Rightarrow> (registry, 'a) op" where
  "access i body r = (case dict_get (rg_contexts r) i of
     None \<Rightarrow> (Inl (unknown_context i), r)
   | Some c \<Rightarrow> (case body c of (v, c') \<Rightarrow>
       (v, r\<lparr>rg_contexts := filter (\<lambda>(j, _). j \<noteq> i) (rg_contexts r) @ [(i, c')]\<rparr>)))"

definition read_state :: "string \<Rightarrow> (registry, context_view) op" where
  "read_state i = access i (\<lambda>c. (Inr (context_state c), c))"

definition delete_context :: "string \<Rightarrow> (registry, unit) op" where
  "delete_context i r = (if dict_get (rg_contexts r) i = None then (Inl (unknown_context i), r)
     else (Inr (), r\<lparr>rg_contexts := filter (\<lambda>(j, _). j \<noteq> i) (rg_contexts r)\<rparr>))"

subsection \<open>Approvals\<close>

definition validate_approval :: "rat \<Rightarrow> authority_context \<Rightarrow> artifact \<Rightarrow> string \<Rightarrow> unit result" where
  "validate_approval threshold c d role =
     (if art_kind d \<noteq> Decision then Inl (StateConflict ''Only a Decision artifact may be approved.'')
      else if art_approval d \<noteq> Some Proposal then
        Inl (StateConflict ''Only a proposal may enter the approval flow.'')
      else if Some role \<noteq> art_role d then
        Inl (StateConflict ''The acting role does not match the Decision authority role.'')
      else if art_confidence d < threshold then
        Inl (StateConflict ''Decision confidence is below the authority threshold.'')
      else if (case dict_get (art_attrs d) ''requirements'' of
          Some (PDict reqs) \<Rightarrow> fst ` set reqs \<noteq> art_scopes d \<or> dict_values reqs = None
        | _ \<Rightarrow> True) then
        Inl (StateConflict ''Decision requirements must exactly match its affected scopes.'')
      else (let disallowed = {s \<in> art_scopes d.
              role \<notin> (case dict_get (cx_policy c) s of None \<Rightarrow> {} | Some roles \<Rightarrow> roles)}
        in if disallowed \<noteq> {} then Inl (StateConflict (''Role '' @ py_repr role
              @ '' is not authoritative for scopes: '' @ join '', '' (sorted_list_of_set disallowed)))
           else Inr ()))"

definition approve_baseline_in :: "rat \<Rightarrow> string \<Rightarrow> (authority_context, context_view) op" where
  "approve_baseline_in threshold role c =
     (if cx_approved c then
        (if Some role \<noteq> cx_role c then
           (Inl (StateConflict ''The baseline Decision was approved by a different role.''), c)
         else (Inr (context_state c), c))
      else (let au = cx_authority c in
        case get_artifact (au_graph au) (cx_baseline c) of
          Inl e \<Rightarrow> (Inl e, c)
        | Inr baseline \<Rightarrow> (case validate_approval threshold c baseline role of
            Inl e \<Rightarrow> (Inl e, c)
          | Inr _ \<Rightarrow> (case update_artifact (baseline\<lparr>art_approval := Some Approved\<rparr>) (au_graph au) of
              (Inl e, g) \<Rightarrow> (Inl e, c\<lparr>cx_authority := au\<lparr>au_graph := g\<rparr>\<rparr>)
            | (Inr _, g) \<Rightarrow>
                (let c' = c\<lparr>cx_authority := au\<lparr>au_graph := g\<rparr>, cx_approved := True, cx_role := Some role\<rparr>
                 in (Inr (context_state c'), c'))))))"

definition approve_baseline :: "string \<Rightarrow> approval_request \<Rightarrow> (registry, context_view) op" where
  "approve_baseline i q r = access i (approve_baseline_in (rg_threshold r) (rq_role q)) r"

fun channel_value :: "approval_channel \<Rightarrow> string" where
  "channel_value Cli = ''cli''"
| "channel_value Workspace_Ui = ''workspace-ui''"
| "channel_value Slack_Reaction = ''slack-reaction''"
| "channel_value Push = ''push''"
| "channel_value Email = ''email''"

definition removeprefix :: "string \<Rightarrow> string \<Rightarrow> string" where
  "removeprefix p s = (if starts_with p s then drop (length p) s else s)"

text \<open>The proposal as approved: its status, and the review recorded in its extraction.\<close>

definition review_extraction :: "platform \<Rightarrow> string \<Rightarrow> approval_evidence \<Rightarrow> attributes \<Rightarrow> attributes" where
  "review_extraction P fp e attrs = (case dict_get attrs ''extraction'' of
     Some (PDict x) \<Rightarrow> dict_set ''extraction'' (PDict (dict_update x
       [(''human_reviewed'', PBool True), (''reviewed_at'', PStr (iso_format P (ae_at e))),
        (''reviewed_by'', PStr (ae_approver e)), (''approval_channel'', PStr (channel_value (ae_channel e))),
        (''approval_evidence_ref'', PStr (ae_ref e)), (''confirmed_proposal_fingerprint'', PStr fp),
        (''confirmed_proposal_instance_id'', PStr (ae_instance e))])) attrs
   | _ \<Rightarrow> attrs)"

definition approved_mutation :: "platform \<Rightarrow> mutation_request \<Rightarrow> decision_mutation" where
  "approved_mutation P q = (let m = mq_mutation q; d = mut_decision m in
     m\<lparr>mut_decision := d\<lparr>art_approval := Some Approved,
       art_attrs := review_extraction P (stable_hash P (mutation_dump P m)) (mq_evidence q) (art_attrs d)\<rparr>\<rparr>)"

definition evidence_bound :: "platform \<Rightarrow> string \<Rightarrow> mutation_request \<Rightarrow> bool" where
  "evidence_bound P i q \<longleftrightarrow> (let e = mq_evidence q in
     ae_workspace e = removeprefix ''live-'' i \<and> ae_decision e = art_id (mut_decision (mq_mutation q))
     \<and> ae_permission e = mq_role q \<and> ae_fingerprint e = stable_hash P (mutation_dump P (mq_mutation q)))"

definition apply_approved :: "platform \<Rightarrow> mutation_request \<Rightarrow> (authority_context, mutation_result) op" where
  "apply_approved P q c = (let d = art_id (mut_decision (mq_mutation q)) in
     case apply_decision_change (approved_mutation P q) (cx_authority c) of
       (Inl e, au) \<Rightarrow> (Inl e, c\<lparr>cx_authority := au\<rparr>)
     | (Inr res, au) \<Rightarrow>
         if \<not> mres_applied res then (Inl (StateConflict (mres_reason res)), c\<lparr>cx_authority := au\<rparr>)
         else (Inr res, c\<lparr>cx_authority := au, cx_applied := insert d (cx_applied c),
                 cx_mutations := dict_set d q (cx_mutations c), cx_results := dict_set d res (cx_results c)\<rparr>))"

definition repeat_mutation :: "mutation_request \<Rightarrow> authority_context \<Rightarrow> mutation_result result" where
  "repeat_mutation q c = (let d = art_id (mut_decision (mq_mutation q)) in
     case dict_get (cx_mutations c) d of
       None \<Rightarrow> Inl (KeyError d)
     | Some previous \<Rightarrow>
         if \<not> mutation_request_eq previous q then
           Inl (StateConflict (''Decision ID was already applied with different input: '' @ d))
         else (case dict_get (cx_results c) d of None \<Rightarrow> Inl (KeyError d) | Some res \<Rightarrow> Inr res))"

definition approve_mutation_in ::
  "platform \<Rightarrow> rat \<Rightarrow> string \<Rightarrow> mutation_request \<Rightarrow> (authority_context, mutation_result) op"
where
  "approve_mutation_in P threshold i q c = (let m = mq_mutation q; d = mut_decision m in
     if \<not> cx_approved c then
       (Inl (StateConflict ''Approve the baseline Decision before applying changes.''), c)
     else if mq_fingerprint q \<noteq> stable_hash P (mutation_dump P m) then
       (Inl (StateConflict ''The confirmed proposal fingerprint does not match the mutation.''), c)
     else if \<not> evidence_bound P i q then
       (Inl (StateConflict ''Approval evidence is not bound to this exact mutation.''), c)
     else if art_id d \<in> cx_applied c then (repeat_mutation q c, c)
     else (case get_artifact (au_graph (cx_authority c)) (mut_supersedes m) of
       Inl _ \<Rightarrow> (Inl (StateConflict ''The proposed supersession target does not exist in the authority graph.''), c)
     | Inr s \<Rightarrow>
         if art_kind s \<noteq> Decision then
           (Inl (StateConflict ''The proposed supersession target is not a Decision.''), c)
         else (case validate_approval threshold c d (mq_role q) of
           Inl e \<Rightarrow> (Inl e, c) | Inr _ \<Rightarrow> apply_approved P q c)))"

definition approve_mutation :: "platform \<Rightarrow> string \<Rightarrow> mutation_request \<Rightarrow> (registry, mutation_result) op" where
  "approve_mutation P i q r = access i (approve_mutation_in P (rg_threshold r) i q) r"

subsection \<open>Authorizing\<close>

definition authorize_in ::
  "platform \<Rightarrow> int \<Rightarrow> string \<Rightarrow> string \<Rightarrow> string \<Rightarrow> agent_plan \<Rightarrow> (authority_context, authorization_result) op"
where
  "authorize_in P now uid run task plan c =
     (if \<not> cx_approved c then
        (Inr \<lparr>ar_verdict = HUMAN_REVIEW, ar_reason = ''The imported baseline Decision has not been approved.'',
              ar_version = version_label (au_graph (cx_authority c)), ar_task = task, ar_scopes = {},
              ar_mismatches = [], ar_requirements = [], ar_path = [], ar_invalidated = [],
              ar_preserved = [], ar_evidence = [], ar_grant = None\<rparr>, c)
      else (evaluate_plan P now uid (cx_authority c) run task plan (au_report (cx_authority c)), c))"

definition authorize ::
  "platform \<Rightarrow> int \<Rightarrow> string \<Rightarrow> string \<Rightarrow> string \<Rightarrow> string \<Rightarrow> agent_plan \<Rightarrow> (registry, authorization_result) op"
where
  "authorize P now uid i run task plan = access i (authorize_in P now uid run task plan)"

definition verify_in ::
  "platform \<Rightarrow> int \<Rightarrow> string \<Rightarrow> string \<Rightarrow> string \<Rightarrow> string \<Rightarrow> agent_plan \<Rightarrow> (authority_context, verification_result) op"
where
  "verify_in P now uid token run task plan c = (verify_grant P now uid (cx_authority c) token run task plan, c)"

definition verify ::
  "platform \<Rightarrow> int \<Rightarrow> string \<Rightarrow> string \<Rightarrow> string \<Rightarrow> string \<Rightarrow> string \<Rightarrow> agent_plan \<Rightarrow> (registry, verification_result) op"
where
  "verify P now uid i token run task plan = access i (verify_in P now uid token run task plan)"

subsection \<open>The registry stays within its limit\<close>

lemma evict_drop: "0 \<le> limit \<Longrightarrow> evict_beyond_limit limit cs = drop (length cs - nat limit) cs"
proof (induction limit cs rule: evict_beyond_limit.induct)
  case (1 limit cs)
  show ?case
  proof (cases "limit < int (length cs)")
    case True
    then have "cs \<noteq> []" "length cs - nat limit = Suc (length (tl cs) - nat limit)" using 1 by auto
    then show ?thesis using True 1 by (subst evict_beyond_limit.simps) (simp add: drop_Suc)
  next
    case False
    then show ?thesis by (subst evict_beyond_limit.simps) simp
  qed
qed

definition registry_ok :: "registry \<Rightarrow> bool" where
  "registry_ok r \<longleftrightarrow> 1 \<le> rg_max r \<and> wf_dict (rg_contexts r) \<and> int (length (rg_contexts r)) \<le> rg_max r
     \<and> (\<forall>(i, c)\<in>set (rg_contexts r). cx_id c = i)"

lemma make_registry_ok: "make_registry secret ttl threshold limit = Inr r \<Longrightarrow> registry_ok r"
  by (auto simp: make_registry_def registry_ok_def split: if_splits)

lemma access_cases:
  assumes "access i body r = (v, r')"
  obtains "dict_get (rg_contexts r) i = None" "v = Inl (unknown_context i)" "r' = r"
  | c c' where "dict_get (rg_contexts r) i = Some c" "body c = (v, c')"
      "r' = r\<lparr>rg_contexts := filter (\<lambda>(j, _). j \<noteq> i) (rg_contexts r) @ [(i, c')]\<rparr>"
  using assms by (auto simp: access_def split: option.splits prod.splits)

lemma dict_get_filter: "dict_get (filter (\<lambda>(j, _). j \<noteq> i) d) j = (if j = i then None else dict_get d j)"
  by (induction d) auto

lemma keys_filter: "fst ` set (filter (\<lambda>(j, _). j \<noteq> i) d) = fst ` set d - {i}"
  by auto

lemma access_get:
  assumes "access i body r = (v, r')"
  shows "j \<noteq> i \<Longrightarrow> dict_get (rg_contexts r') j = dict_get (rg_contexts r) j"
    and "dict_get (rg_contexts r) i = Some c \<Longrightarrow> dict_get (rg_contexts r') i = Some (snd (body c))"
    and "rg_max r' = rg_max r \<and> rg_secret r' = rg_secret r \<and> rg_ttl r' = rg_ttl r \<and> rg_threshold r' = rg_threshold r"
  using assms by (auto elim!: access_cases simp: map_add_def dict_get_filter split: option.splits)

lemma wf_dict_filter: "wf_dict d \<Longrightarrow> wf_dict (filter p d)"
  by (induction d) auto

lemma length_filter_key:
  assumes "wf_dict d" and "dict_get d i = Some c"
  shows "Suc (length (filter (\<lambda>(j, _). j \<noteq> i) d)) = length d"
  using assms
proof (induction d)
  case (Cons p d)
  show ?case
  proof (cases "fst p = i")
    case True
    then have "i \<notin> fst ` set d" using Cons.prems(1) by auto
    then have "j \<noteq> i" if "(j, b) \<in> set d" for j b using that by force
    then have "filter (\<lambda>(j, _). j \<noteq> i) d = d" by (intro filter_True) auto
    then show ?thesis using True by (cases p) simp
  next
    case False
    then show ?thesis using Cons by (cases p) (auto split: if_splits)
  qed
qed simp

lemma access_ok:
  assumes "registry_ok r" and "access i body r = (v, r')" and "\<And>c. cx_id c = i \<Longrightarrow> cx_id (snd (body c)) = i"
  shows "registry_ok r'"
  using assms(2)
proof (cases rule: access_cases)
  case 1
  then show ?thesis using assms(1) by simp
next
  case (2 c c')
  have wf: "wf_dict (rg_contexts r)" using assms(1) by (simp add: registry_ok_def)
  have "(i, c) \<in> set (rg_contexts r)" using 2(1) by (rule map_of_SomeD)
  then have "cx_id c = i" using assms(1) by (auto simp: registry_ok_def)
  then have "cx_id c' = i" using assms(3) [of c] 2(2) by simp
  moreover have "wf_dict (filter (\<lambda>(j, _). j \<noteq> i) (rg_contexts r) @ [(i, c')])"
    using wf_dict_filter [OF wf] keys_filter [of i "rg_contexts r"] by auto
  ultimately show ?thesis
    using assms(1) length_filter_key [OF wf 2(1)] by (auto simp: registry_ok_def 2(3))
qed

lemma access_isolates:
  assumes ok: "registry_ok r" and run: "access i body r = (v, r')" and c: "dict_get (rg_contexts r) i = Some c"
    and same: "cx_id (snd (body c)) = cx_id c"
  shows "registry_ok r' \<and> (\<forall>j. j \<noteq> i \<longrightarrow> dict_get (rg_contexts r') j = dict_get (rg_contexts r) j)
    \<and> last (rg_contexts r') = (i, snd (body c))"
proof -
  have same': "access i (\<lambda>d. if d = c then body c else (v, d)) r = (v, r')"
    using run c by (simp add: access_def)
  have "cx_id c = i" using ok map_of_SomeD [OF c] by (auto simp: registry_ok_def)
  then have "registry_ok r'" by (intro access_ok [OF ok same']) (use same in simp)
  moreover have "last (rg_contexts r') = (i, snd (body c))"
    using run by (cases rule: access_cases) (use c in auto)
  ultimately show ?thesis using access_get(1) [OF run] by blast
qed

theorem create_context_evicts:
  assumes ok: "registry_ok r" and run: "create_context P q r = (Inr st, r')"
  shows "registry_ok r'"
    and "\<exists>c. new_context P r q = Inr c \<and> st = context_state c
      \<and> rg_contexts r' = drop (Suc (length (rg_contexts r)) - nat (rg_max r)) (rg_contexts r) @ [(xc_id q, c)]"
proof -
  from run obtain c where c: "dict_get (rg_contexts r) (xc_id q) = None" "new_context P r q = Inr c"
      "st = context_state c"
    and r': "r' = r\<lparr>rg_contexts := evict_beyond_limit (rg_max r) (rg_contexts r @ [(xc_id q, c)])\<rparr>"
    by (auto simp: create_context_def split: if_splits sum.splits)
  let ?n = "Suc (length (rg_contexts r)) - nat (rg_max r)"
  have max: "1 \<le> rg_max r" "int (length (rg_contexts r)) \<le> rg_max r" using ok by (simp_all add: registry_ok_def)
  then have "?n \<le> length (rg_contexts r)" by linarith
  then have eq: "evict_beyond_limit (rg_max r) (rg_contexts r @ [(xc_id q, c)]) =
      drop ?n (rg_contexts r) @ [(xc_id q, c)]"
    using max by (simp add: evict_drop)
  show "\<exists>c. new_context P r q = Inr c \<and> st = context_state c
      \<and> rg_contexts r' = drop ?n (rg_contexts r) @ [(xc_id q, c)]"
    using c eq r' by simp
  have "cx_id c = xc_id q" using c(2) by (auto simp: new_context_def Let_def split: if_splits)
  moreover have "wf_dict (rg_contexts r @ [(xc_id q, c)])"
    using ok c(1) unfolding dict_get_None by (simp add: registry_ok_def)
  then have "wf_dict (drop ?n (rg_contexts r @ [(xc_id q, c)]))"
    by (simp only: drop_map [symmetric] distinct_drop)
  moreover have "int (length (drop ?n (rg_contexts r) @ [(xc_id q, c)])) \<le> rg_max r" using max by simp
  ultimately show "registry_ok r'"
    using ok \<open>?n \<le> length (rg_contexts r)\<close> by (auto simp: registry_ok_def r' eq dest: in_set_dropD)
qed

lemma create_context_raises: "create_context P q r = (Inl e, r') \<Longrightarrow> r' = r"
  by (auto simp: create_context_def split: if_splits sum.splits)

lemma delete_context_ok: "registry_ok r \<Longrightarrow> registry_ok (snd (delete_context i r))"
  by (auto simp: delete_context_def registry_ok_def wf_dict_filter intro: order_trans [OF _ ]
      order.trans [OF of_nat_mono [OF length_filter_le]])

subsection \<open>Well-formed contexts\<close>

definition context_ok :: "authority_context \<Rightarrow> bool" where
  "context_ok c \<longleftrightarrow> wf_graph (au_graph (cx_authority c)) \<and> \<not> g_in_txn (au_graph (cx_authority c))
     \<and> wf_dict (cx_mutations c) \<and> cx_applied c = fst ` set (cx_mutations c)
     \<and> fst ` set (cx_results c) = fst ` set (cx_mutations c)"

lemma new_context_ok:
  assumes v: "validate_graph_seed q = Inr u" and c: "new_context P r q = Inr c"
  shows "context_ok c" "\<not> cx_approved c" "cx_mutations c = []"
proof -
  have "\<forall>e\<in>set (xc_edges q). edge_source e \<in> art_id ` set (xc_artifacts q) \<and> edge_target e \<in> art_id ` set (xc_artifacts q)"
    using v unfolding validate_graph_seed_def Let_def by (simp split: sum.splits)
  from wf_graph_reset [OF this, of "xc_version q" empty_graph] c
  show "context_ok c" "\<not> cx_approved c" "cx_mutations c = []"
    by (auto simp: new_context_def Let_def context_ok_def make_authority_def reset_def empty_graph_def split: if_splits)
qed

definition baseline_approved :: "string \<Rightarrow> artifact \<Rightarrow> authority_context \<Rightarrow> authority_context" where
  "baseline_approved role b c = c\<lparr>cx_authority := (cx_authority c)\<lparr>au_graph :=
     snd (update_artifact (b\<lparr>art_approval := Some Approved\<rparr>) (au_graph (cx_authority c)))\<rparr>,
     cx_approved := True, cx_role := Some role\<rparr>"

lemma approve_baseline_in_cases:
  assumes ok: "context_ok c" and run: "approve_baseline_in th role c = (v, c')"
  shows "c' = c \<or> \<not> cx_approved c \<and> (\<exists>b. get_artifact (au_graph (cx_authority c)) (cx_baseline c) = Inr b
      \<and> validate_approval th c b role = Inr () \<and> c' = baseline_approved role b c \<and> v = Inr (context_state c'))"
    and "v = Inl e \<Longrightarrow> c' = c"
proof -
  let ?g = "au_graph (cx_authority c)"
  have both: "(c' = c \<or> \<not> cx_approved c \<and> (\<exists>b. get_artifact ?g (cx_baseline c) = Inr b
      \<and> validate_approval th c b role = Inr () \<and> c' = baseline_approved role b c \<and> v = Inr (context_state c')))
      \<and> (v = Inl e \<longrightarrow> c' = c)"
  proof (cases "\<not> cx_approved c \<and> (\<exists>b. get_artifact ?g (cx_baseline c) = Inr b \<and> validate_approval th c b role = Inr ())")
    case True
    then obtain b where b: "get_artifact ?g (cx_baseline c) = Inr b" "validate_approval th c b role = Inr ()" by blast
    have "wf_graph ?g" using ok by (simp add: context_ok_def)
    from wf_graph_id [OF this b(1)] have "in_graph ?g (art_id b)" using b(1) by (auto simp: in_graph_get)
    then obtain g where "update_artifact (b\<lparr>art_approval := Some Approved\<rparr>) ?g = (Inr (), g)"
      by (auto simp: update_artifact_def in_graph_def)
    then have "approve_baseline_in th role c = (Inr (context_state (baseline_approved role b c)), baseline_approved role b c)"
      using True b by (simp add: approve_baseline_in_def Let_def baseline_approved_def)
    then show ?thesis using run True b by auto
  next
    case False
    then have "c' = c" using run
      by (auto simp: approve_baseline_in_def Let_def split: if_splits sum.splits)
    then show ?thesis by blast
  qed
  then show "c' = c \<or> \<not> cx_approved c \<and> (\<exists>b. get_artifact ?g (cx_baseline c) = Inr b
      \<and> validate_approval th c b role = Inr () \<and> c' = baseline_approved role b c \<and> v = Inr (context_state c'))"
    by blast
  show "c' = c" if "v = Inl e" using both that by blast
qed

lemma baseline_approved_ok: "context_ok c \<Longrightarrow> context_ok (baseline_approved role b c)"
  using wf_graph_update_artifact [of "au_graph (cx_authority c)" "b\<lparr>art_approval := Some Approved\<rparr>"]
  by (auto simp: context_ok_def baseline_approved_def update_artifact_def)

text \<open>The one way a change of a context's record of changes comes about.\<close>

definition records_change ::
  "platform \<Rightarrow> mutation_request \<Rightarrow> authority_context \<Rightarrow> mutation_result \<Rightarrow> authority_context \<Rightarrow> bool"
where
  "records_change P q c res c' \<longleftrightarrow> (let d = art_id (mut_decision (mq_mutation q)) in
     d \<notin> cx_applied c \<and> mres_applied res \<and>
     (\<exists>au. apply_decision_change (approved_mutation P q) (cx_authority c) = (Inr res, au)
        \<and> c' = c\<lparr>cx_authority := au, cx_applied := insert d (cx_applied c),
                 cx_mutations := dict_set d q (cx_mutations c), cx_results := dict_set d res (cx_results c)\<rparr>))"

lemma apply_approved_cases:
  assumes ok: "context_ok c" and run: "apply_approved P q c = (v, c')"
    and new: "art_id (mut_decision (mq_mutation q)) \<notin> cx_applied c"
  shows "c' = c \<and> (\<exists>e. v = Inl e) \<or> (\<exists>res. v = Inr res \<and> records_change P q c res c')"
proof -
  obtain r au where app: "apply_decision_change (approved_mutation P q) (cx_authority c) = (r, au)"
    by (metis surj_pair)
  have wf: "wf_graph (au_graph (cx_authority c))" "\<not> g_in_txn (au_graph (cx_authority c))"
    using ok by (simp_all add: context_ok_def)
  show ?thesis
  proof (cases "\<exists>res. r = Inr res \<and> mres_applied res")
    case True
    then show ?thesis using run app new by (auto simp: apply_approved_def Let_def records_change_def)
  next
    case False
    then have "au = cx_authority c" by (rule apply_decision_change_unchanged(1) [OF wf app])
    then have "c\<lparr>cx_authority := au\<rparr> = c" by simp
    then show ?thesis using run app False by (auto simp: apply_approved_def Let_def split: sum.splits if_splits)
  qed
qed

theorem approve_mutation_in_cases:
  assumes ok: "context_ok c" and run: "approve_mutation_in P th i q c = (v, c')"
  shows "c' = c \<or> (\<exists>res. v = Inr res \<and> cx_approved c \<and> evidence_bound P i q
      \<and> mq_fingerprint q = stable_hash P (mutation_dump P (mq_mutation q))
      \<and> validate_approval th c (mut_decision (mq_mutation q)) (mq_role q) = Inr ()
      \<and> records_change P q c res c')"
    and "v = Inl e \<Longrightarrow> c' = c"
  using run apply_approved_cases [OF ok]
  by (auto simp: approve_mutation_in_def Let_def split: if_splits sum.splits)

lemma dict_set_new: "k \<notin> fst ` set d \<Longrightarrow> dict_set k v d = d @ [(k, v)]"
  by (induction d) auto

lemma records_change_ok:
  assumes ok: "context_ok c" and rec: "records_change P q c res c'"
  shows "context_ok c'"
    and "cx_mutations c' = cx_mutations c @ [(art_id (mut_decision (mq_mutation q)), q)]"
    and "cx_approved c' = cx_approved c \<and> cx_role c' = cx_role c \<and> cx_id c' = cx_id c"
    and "g_version (au_graph (cx_authority c')) = g_version (au_graph (cx_authority c)) + 1"
proof -
  let ?d = "art_id (mut_decision (mq_mutation q))"
  from rec obtain au where new: "?d \<notin> cx_applied c"
    and app: "apply_decision_change (approved_mutation P q) (cx_authority c) = (Inr res, au)" "mres_applied res"
    and c': "c' = c\<lparr>cx_authority := au, cx_applied := insert ?d (cx_applied c),
       cx_mutations := dict_set ?d q (cx_mutations c), cx_results := dict_set ?d res (cx_results c)\<rparr>"
    by (auto simp: records_change_def Let_def)
  have g: "wf_graph (au_graph (cx_authority c))" "\<not> g_in_txn (au_graph (cx_authority c))"
    using ok by (simp_all add: context_ok_def)
  have step: "decision_step (cx_authority c) au"
    unfolding decision_step_def using app(1) by (metis snd_conv)
  note res = decision_step_cases [OF g step]
  show "g_version (au_graph (cx_authority c')) = g_version (au_graph (cx_authority c)) + 1"
  proof -
    have "change_ok (cx_authority c) (approved_mutation P q)"
      using app by (auto simp: apply_decision_change_def Let_def change_ok_def in_graph_get refused_def
          split: option.splits sum.splits if_splits)
    from apply_decision_change_applies [OF g this] app(1) show ?thesis by (auto simp: c')
  qed
  show "context_ok c'" using ok res by (auto simp: context_ok_def c')
  show "cx_approved c' = cx_approved c \<and> cx_role c' = cx_role c \<and> cx_id c' = cx_id c" by (simp add: c')
  have "?d \<notin> fst ` set (cx_mutations c)" using ok new by (simp add: context_ok_def)
  then show "cx_mutations c' = cx_mutations c @ [(?d, q)]" by (simp add: c' dict_set_new)
qed

subsection \<open>A context is what its approvals replay to\<close>

text \<open>What can happen to a context: approvals of the baseline and of changes; reads change nothing.\<close>

inductive context_step :: "platform \<Rightarrow> rat \<Rightarrow> string \<Rightarrow> authority_context \<Rightarrow> authority_context \<Rightarrow> bool"
  for P th i where
  baseline: "context_step P th i c (snd (approve_baseline_in th role c))"
| change: "context_step P th i c (snd (approve_mutation_in P th i q c))"
| authorize: "context_step P th i c (snd (authorize_in P now uid run task plan c))"
| verify: "context_step P th i c (snd (verify_in P now uid token run task plan c))"

definition replay ::
  "platform \<Rightarrow> rat \<Rightarrow> string \<Rightarrow> string \<Rightarrow> mutation_request list \<Rightarrow> authority_context \<Rightarrow> authority_context"
where
  "replay P th i role qs c =
     fold (\<lambda>q c. snd (approve_mutation_in P th i q c)) qs (snd (approve_baseline_in th role c))"

definition replayed :: "platform \<Rightarrow> rat \<Rightarrow> string \<Rightarrow> authority_context \<Rightarrow> authority_context \<Rightarrow> bool" where
  "replayed P th i seed c \<longleftrightarrow> (if cx_approved c
     then \<exists>role. cx_role c = Some role \<and> c = replay P th i role (map snd (cx_mutations c)) seed
     else c = seed)"

lemma authorize_in_same [simp]: "snd (authorize_in P now uid run task plan c) = c"
  by (simp add: authorize_in_def)

lemma verify_in_same [simp]: "snd (verify_in P now uid token run task plan c) = c"
  by (simp add: verify_in_def)

lemma context_step_replayed:
  assumes seed: "context_ok seed" "\<not> cx_approved seed" "cx_mutations seed = []"
    and ok: "context_ok c" and rep: "replayed P th i seed c" and step: "context_step P th i c c'"
  shows "context_ok c' \<and> replayed P th i seed c'"
  using step
proof cases
  case (baseline role)
  obtain v where run: "approve_baseline_in th role c = (v, c')" using baseline by (metis prod.collapse)
  consider "c' = c" | b where "\<not> cx_approved c" "c' = baseline_approved role b c"
    using approve_baseline_in_cases(1) [OF ok run] by blast
  then show ?thesis
  proof cases
    case 1
    then show ?thesis using ok rep by simp
  next
    case 2
    then have "c = seed" using rep by (simp add: replayed_def)
    then have "c' = replay P th i role [] seed" using run by (simp add: replay_def)
    moreover have "cx_approved c'" "cx_role c' = Some role" "cx_mutations c' = []"
      using 2(2) seed(3) \<open>c = seed\<close> by (simp_all add: baseline_approved_def)
    moreover have "context_ok c'" using 2(2) baseline_approved_ok [OF ok] by blast
    ultimately show ?thesis by (simp add: replayed_def)
  qed
next
  case (change q)
  obtain v where run: "approve_mutation_in P th i q c = (v, c')" using change by (metis prod.collapse)
  consider "c' = c" | res where "cx_approved c" "records_change P q c res c'"
    using approve_mutation_in_cases(1) [OF ok run] by blast
  then show ?thesis
  proof cases
    case 1
    then show ?thesis using ok rep by simp
  next
    case 2
    note rec = records_change_ok [OF ok 2(2)]
    obtain role where role: "cx_role c = Some role" "c = replay P th i role (map snd (cx_mutations c)) seed"
      using rep 2(1) by (auto simp: replayed_def)
    have "replay P th i role (map snd (cx_mutations c')) seed =
        snd (approve_mutation_in P th i q (replay P th i role (map snd (cx_mutations c)) seed))"
      by (simp add: rec(2) replay_def)
    also have "\<dots> = c'" using role(2) run by simp
    finally have "c' = replay P th i role (map snd (cx_mutations c')) seed" ..
    then show ?thesis using rec(1,3) role(1) 2(1) unfolding replayed_def by auto
  qed
qed (use ok rep in simp_all)

theorem contexts_replay:
  assumes seed: "context_ok seed" "\<not> cx_approved seed" "cx_mutations seed = []"
    and steps: "(context_step P th i)\<^sup>*\<^sup>* seed c"
  shows "context_ok c \<and> replayed P th i seed c"
  using steps
proof (induction rule: rtranclp_induct)
  case base
  then show ?case using seed by (simp add: replayed_def)
next
  case (step c c')
  then show ?case using context_step_replayed [OF seed] by blast
qed

lemma contexts_keep_policy:
  assumes "context_step P th i c c'"
  shows "cx_policy c' = cx_policy c \<and> cx_id c' = cx_id c \<and> cx_baseline c' = cx_baseline c"
  using assms
  by (cases rule: context_step.cases)
     (auto simp: approve_baseline_in_def approve_mutation_in_def apply_approved_def Let_def
       split: if_splits sum.splits prod.splits)

subsection \<open>Repeated approvals\<close>

lemma mutation_request_eq_refl:
  "wf_pyval (PDict (art_attrs (mut_decision (mq_mutation q)))) \<Longrightarrow> mutation_request_eq q q"
  by (simp add: mutation_request_eq_def artifact_eq_def attrs_eq_refl)

lemma repeat_after_change:
  assumes ok: "context_ok c" and run: "approve_mutation_in P th i q c = (Inr res, c')"
    and new: "art_id (mut_decision (mq_mutation q)) \<notin> cx_applied c"
  shows "records_change P q c res c' \<and> cx_approved c \<and> evidence_bound P i q
    \<and> mq_fingerprint q = stable_hash P (mutation_dump P (mq_mutation q))"
  using run new apply_approved_cases [OF ok]
  by (fastforce simp: approve_mutation_in_def Let_def split: if_splits sum.splits)

theorem approval_is_idempotent:
  assumes ok: "context_ok c" and run: "approve_mutation_in P th i q c = (Inr res, c')"
    and new: "art_id (mut_decision (mq_mutation q)) \<notin> cx_applied c"
    and wf: "wf_pyval (PDict (art_attrs (mut_decision (mq_mutation q))))"
  shows "approve_mutation_in P th i q c' = (Inr res, c')"
proof -
  note rec = repeat_after_change [OF ok run new]
  then obtain au where c': "c' = c\<lparr>cx_authority := au, cx_applied := insert (art_id (mut_decision (mq_mutation q))) (cx_applied c),
       cx_mutations := dict_set (art_id (mut_decision (mq_mutation q))) q (cx_mutations c),
       cx_results := dict_set (art_id (mut_decision (mq_mutation q))) res (cx_results c)\<rparr>"
    by (auto simp: records_change_def Let_def)
  have "repeat_mutation q c' = Inr res"
    using mutation_request_eq_refl [OF wf] by (simp add: repeat_mutation_def c' dict_simps)
  then show ?thesis using rec by (simp add: approve_mutation_in_def Let_def c')
qed

theorem approval_conflict:
  assumes ok: "context_ok c" and run: "approve_mutation_in P th i q c = (Inr res, c')"
    and new: "art_id (mut_decision (mq_mutation q)) \<notin> cx_applied c"
    and same: "art_id (mut_decision (mq_mutation p)) = art_id (mut_decision (mq_mutation q))"
    and differ: "\<not> mutation_request_eq q p"
  shows "\<exists>m. approve_mutation_in P th i p c' = (Inl (StateConflict m), c')"
proof -
  note rec = repeat_after_change [OF ok run new]
  then have "art_id (mut_decision (mq_mutation p)) \<in> cx_applied c'"
      "dict_get (cx_mutations c') (art_id (mut_decision (mq_mutation p))) = Some q"
    by (auto simp: records_change_def Let_def same dict_simps)
  then show ?thesis using differ
    by (auto simp: approve_mutation_in_def Let_def repeat_mutation_def)
qed

subsection \<open>What an approval demands\<close>

lemma validate_approval_Inr:
  assumes "validate_approval th c d role = Inr u"
  shows "art_kind d = Decision \<and> art_approval d = Some Proposal \<and> art_role d = Some role
    \<and> th \<le> art_confidence d
    \<and> (\<exists>reqs. dict_get (art_attrs d) ''requirements'' = Some (PDict reqs) \<and> fst ` set reqs = art_scopes d)
    \<and> (\<forall>s\<in>art_scopes d. \<exists>roles. dict_get (cx_policy c) s = Some roles \<and> role \<in> roles)"
  using assms unfolding validate_approval_def Let_def
  by (auto split: if_splits option.splits pyval.splits)

theorem change_needs_authority:
  assumes ok: "context_ok c" and run: "approve_mutation_in P th i q c = (v, c')" and changed: "c' \<noteq> c"
  shows "cx_approved c \<and> evidence_bound P i q
    \<and> mq_fingerprint q = stable_hash P (mutation_dump P (mq_mutation q))
    \<and> art_role (mut_decision (mq_mutation q)) = Some (mq_role q)
    \<and> (\<forall>s\<in>art_scopes (mut_decision (mq_mutation q)).
         \<exists>roles. dict_get (cx_policy c) s = Some roles \<and> mq_role q \<in> roles)
    \<and> g_version (au_graph (cx_authority c')) = g_version (au_graph (cx_authority c)) + 1
    \<and> cx_mutations c' = cx_mutations c @ [(art_id (mut_decision (mq_mutation q)), q)]"
proof -
  obtain res where r: "cx_approved c" "evidence_bound P i q"
      "mq_fingerprint q = stable_hash P (mutation_dump P (mq_mutation q))"
      "validate_approval th c (mut_decision (mq_mutation q)) (mq_role q) = Inr ()" "records_change P q c res c'"
    using approve_mutation_in_cases(1) [OF ok run] changed by blast
  then show ?thesis using validate_approval_Inr [OF r(4)] records_change_ok [OF ok r(5)] by simp
qed

text \<open>No grant leaves a context whose baseline is not approved.\<close>

lemma authorize_unapproved:
  assumes "\<not> cx_approved c" and "authorize_in P now uid run task plan c = (Inr res, c')"
  shows "ar_verdict res = HUMAN_REVIEW \<and> ar_grant res = None"
  using assms by (auto simp: authorize_in_def)

text \<open>A grant of a context does not verify after a further change of it.\<close>

theorem grant_stale_after_approval:
  assumes ok: "context_ok c" and run: "approve_mutation_in P th i q c = (v, c')" and changed: "c' \<noteq> c"
    and grant: "decode P (au_signer (cx_authority c)) token = Inr p"
      "gp_snapshot p = version_label (au_graph (cx_authority c))"
  shows "\<not> (\<exists>res. fst (verify_in P now uid token run' task plan c') = Inr res \<and> vr_valid res)"
proof -
  obtain res where r: "records_change P q c res c'"
    using approve_mutation_in_cases(1) [OF ok run] changed by blast
  then obtain au where au: "apply_decision_change (approved_mutation P q) (cx_authority c) = (Inr res, au)"
      "cx_authority c' = au"
    by (auto simp: records_change_def Let_def)
  have g: "wf_graph (au_graph (cx_authority c))" "\<not> g_in_txn (au_graph (cx_authority c))"
    using ok by (simp_all add: context_ok_def)
  have "decision_step (cx_authority c) au" unfolding decision_step_def using au(1) by (metis snd_conv)
  moreover have "au \<noteq> cx_authority c" using records_change_ok(4) [OF ok r] au(2) by auto
  ultimately show ?thesis
    using grant_stale_after_changes [OF g r_into_rtranclp _ grant] au(2) by (simp add: verify_in_def)
qed

end
