(* ===== verification/Repository.thy ===== *)
theory Repository
  imports Workspace_Model
begin

text \<open>
  \<^verbatim>\<open>workspaces/repository.py\<close>: the JSON document store and the SQLite store of live workspaces,
  with the migration from one to the other. The texts that pydantic writes are of an abstract
  type; a codec says how records become texts. The locale \<open>live_repository\<close> states the laws of
  the protocol \<open>LiveWorkspaceRepository\<close>; both stores are interpretations of it. A failing disk
  and a second process are not modelled: an operation runs alone, as under the lock it takes.
\<close>

subsection \<open>Texts\<close>

text \<open>
  \<open>model_dump_json\<close> and \<open>model_validate_json\<close> of one record and of a whole document, and the
  ISO text of a time.
\<close>

record 'j codec =
  cd_dump :: "live_record \<Rightarrow> 'j"
  cd_load :: "'j \<Rightarrow> live_record result"
  cd_dump_all :: "live_record list \<Rightarrow> 'j"
  cd_load_all :: "'j \<Rightarrow> live_record list result"
  cd_iso :: "datetime \<Rightarrow> string"

definition codec_round_trip :: "'j codec \<Rightarrow> bool" where
  "codec_round_trip c \<longleftrightarrow> (\<forall>w. cd_load c (cd_dump c w) = Inr w)
     \<and> (\<forall>ws. cd_load_all c (cd_dump_all c ws) = Inr ws)"

definition moved :: "string \<Rightarrow> live_record \<Rightarrow> py_error" where
  "moved i w = StateConflict (''A workspace mutation may not change the workspace id: '' @ i @ '' -> '' @ lw_id w)"

definition require_same_workspace :: "string \<Rightarrow> live_record \<Rightarrow> unit result" where
  "require_same_workspace i w = (if lw_id w = i then Inr () else Inl (moved i w))"

definition already_exists :: "string \<Rightarrow> py_error" where
  "already_exists i = StateConflict (''Live Workspace already exists: '' @ i)"

subsection \<open>The JSON document\<close>

text \<open>The file: absent, or with some text.\<close>

type_synonym 'j json_store = "'j option"

definition json_read :: "'j codec \<Rightarrow> 'j json_store \<Rightarrow> live_record list result" where
  "json_read c s = (case s of
     None \<Rightarrow> Inr []
   | Some raw \<Rightarrow> (case cd_load_all c raw of
       Inl e \<Rightarrow> Inl (RuntimeError ''Live Workspace store is unreadable'') | Inr ws \<Rightarrow> Inr ws))"

definition json_write :: "'j codec \<Rightarrow> live_record list \<Rightarrow> ('j json_store, unit) op" where
  "json_write c ws s = (Inr (), Some (cd_dump_all c ws))"

definition json_create :: "'j codec \<Rightarrow> live_record \<Rightarrow> ('j json_store, unit) op" where
  "json_create c w = bind_op (read_op (json_read c)) (\<lambda>ws.
     if lw_id w \<in> lw_id ` set ws then raise_op (already_exists (lw_id w))
     else json_write c (ws @ [w]))"

definition json_save :: "'j codec \<Rightarrow> live_record \<Rightarrow> ('j json_store, unit) op" where
  "json_save c w = bind_op (read_op (json_read c)) (\<lambda>ws.
     case find_index (\<lambda>v. lw_id v = lw_id w) ws of
       None \<Rightarrow> raise_op (NotFound (lw_id w))
     | Some k \<Rightarrow> json_write c (ws[k := w]))"

definition json_get :: "'j codec \<Rightarrow> 'j json_store \<Rightarrow> string \<Rightarrow> live_record result" where
  "json_get c s i = bind_r (json_read c s) (\<lambda>ws.
     case List.find (\<lambda>v. lw_id v = i) ws of None \<Rightarrow> Inl (NotFound i) | Some w \<Rightarrow> Inr w)"

text \<open>\<open>sorted(..., reverse=True)\<close> is stable; comparing a naive with an aware time raises.\<close>

definition newest_first :: "('a \<Rightarrow> 'k::linorder) \<Rightarrow> 'a list \<Rightarrow> 'a list" where
  "newest_first f xs = rev (sort_key f (rev xs))"

definition json_list :: "'j codec \<Rightarrow> 'j json_store \<Rightarrow> live_record list result" where
  "json_list c s = bind_r (json_read c s) (\<lambda>ws.
     if \<exists>v\<in>set ws. \<exists>w\<in>set ws. dt_aware (lw_updated v) \<noteq> dt_aware (lw_updated w)
     then Inl (TypeError ''can't compare offset-naive and offset-aware datetimes'')
     else Inr (newest_first (\<lambda>w. dt_micros (lw_updated w)) ws))"

definition json_mutate ::
  "'j codec \<Rightarrow> string \<Rightarrow> (live_record \<Rightarrow> live_record result) \<Rightarrow> ('j json_store, live_record) op" where
  "json_mutate c i f = bind_op (read_op (json_read c)) (\<lambda>ws.
     case find_index (\<lambda>v. lw_id v = i) ws of
       None \<Rightarrow> raise_op (NotFound i)
     | Some k \<Rightarrow> bind_op (read_op (\<lambda>_. f (ws ! k))) (\<lambda>w.
         bind_op (read_op (\<lambda>_. require_same_workspace i w)) (\<lambda>_.
         bind_op (json_write c (ws[k := w])) (\<lambda>_. ret_op w))))"

subsection \<open>The SQLite table\<close>

record 'j row =
  row_id :: string
  row_updated :: string
  row_revision :: int
  row_json :: 'j

text \<open>Rows in the order of their rowid. A text primary key has no NULL here.\<close>

type_synonym 'j table = "'j row list"

definition sql_decode :: "'j codec \<Rightarrow> 'j \<Rightarrow> string \<Rightarrow> live_record result" where
  "sql_decode c raw i = (case cd_load c raw of
     Inl e \<Rightarrow> Inl (RuntimeError (''Live Workspace store holds an unreadable record: '' @ i)) | Inr w \<Rightarrow> Inr w)"

definition sql_select :: "'j table \<Rightarrow> string \<Rightarrow> 'j row option" where
  "sql_select t i = List.find (\<lambda>r. row_id r = i) t"

definition sql_insert :: "'j codec \<Rightarrow> live_record \<Rightarrow> ('j table, unit) op" where
  "sql_insert c w t =
     (if sql_select t (lw_id w) \<noteq> None then (Inl (already_exists (lw_id w)), t)
      else (Inr (), t @ [\<lparr>row_id = lw_id w, row_updated = cd_iso c (lw_updated w), row_revision = 1,
              row_json = cd_dump c w\<rparr>]))"

text \<open>The UPDATE statement touches the rows with the id and the revision just read.\<close>

definition sql_update :: "'j codec \<Rightarrow> live_record \<Rightarrow> ('j table, unit) op" where
  "sql_update c w t =
     (case sql_select t (lw_id w) of
        None \<Rightarrow> (Inl (NotFound (lw_id w)), t)
      | Some r \<Rightarrow>
          (let hit = (\<lambda>q. row_id q = lw_id w \<and> row_revision q = row_revision r);
               t' = map (\<lambda>q. if hit q then q\<lparr>row_json := cd_dump c w, row_updated := cd_iso c (lw_updated w),
                        row_revision := row_revision q + 1\<rparr> else q) t
           in if length (filter hit t) \<noteq> 1 then (Inl (NotFound (lw_id w)), t') else (Inr (), t')))"

text \<open>\<open>_write_transaction\<close>: commit on success, roll back on any exception.\<close>

definition write_transaction :: "('j table, 'a) op \<Rightarrow> ('j table, 'a) op" where
  "write_transaction m t = (case m t of (Inr v, t') \<Rightarrow> (Inr v, t') | (Inl e, t') \<Rightarrow> (Inl e, t))"

definition sql_create :: "'j codec \<Rightarrow> live_record \<Rightarrow> ('j table, unit) op" where
  "sql_create c w = write_transaction (sql_insert c w)"

definition sql_save :: "'j codec \<Rightarrow> live_record \<Rightarrow> ('j table, unit) op" where
  "sql_save c w = write_transaction (sql_update c w)"

definition sql_get :: "'j codec \<Rightarrow> 'j table \<Rightarrow> string \<Rightarrow> live_record result" where
  "sql_get c t i = (case sql_select t i of None \<Rightarrow> Inl (NotFound i) | Some r \<Rightarrow> sql_decode c (row_json r) i)"

definition sql_list :: "'j codec \<Rightarrow> 'j table \<Rightarrow> live_record list result" where
  "sql_list c t = map_r (\<lambda>r. sql_decode c (row_json r) (row_id r)) (newest_first row_updated t)"

definition sql_mutate ::
  "'j codec \<Rightarrow> string \<Rightarrow> (live_record \<Rightarrow> live_record result) \<Rightarrow> ('j table, live_record) op" where
  "sql_mutate c i f = write_transaction (
     bind_op (read_op (\<lambda>t. sql_get c t i)) (\<lambda>v.
     bind_op (read_op (\<lambda>_. f v)) (\<lambda>w.
     bind_op (read_op (\<lambda>_. require_same_workspace i w)) (\<lambda>_.
     bind_op (sql_update c w) (\<lambda>_. ret_op w)))))"

subsection \<open>Opening the SQLite store\<close>

text \<open>
  What the configured path holds: nothing, a file that is not a database (a foreign header, an
  empty file, a corrupt database), or a database; and the JSON store beside it.
\<close>

datatype 'j database_file = No_File | Foreign | Database "'j table"

record 'j store_dir =
  sd_file :: "'j database_file"
  sd_legacy :: "'j json_store"

definition not_a_database :: py_error where
  "not_a_database = RuntimeError ''Live Workspace store is not a SQLite database''"

definition sql_initialize :: "('j store_dir, unit) op" where
  "sql_initialize d = (case sd_file d of
     No_File \<Rightarrow> (Inr (), d\<lparr>sd_file := Database []\<rparr>)
   | Foreign \<Rightarrow> (Inl not_a_database, d)
   | Database t \<Rightarrow> (Inr (), d))"

definition sql_migrate :: "'j codec \<Rightarrow> live_record list \<Rightarrow> ('j store_dir, unit) op" where
  "sql_migrate c ws d = (case sd_file d of
     Database t \<Rightarrow> (case for_op (sql_insert c) ws t of
         (Inr _, t') \<Rightarrow> (Inr (), d\<lparr>sd_file := Database t'\<rparr>)
       | (Inl e, t') \<Rightarrow> (Inl e, d\<lparr>sd_file := No_File\<rparr>))
   | _ \<Rightarrow> (Inl not_a_database, d))"

definition sql_open :: "'j codec \<Rightarrow> ('j store_dir, unit) op" where
  "sql_open c d =
     (if sd_file d = No_File \<and> sd_legacy d \<noteq> None then
        bind_op (read_op (\<lambda>d. json_list c (sd_legacy d))) (\<lambda>ws.
        bind_op sql_initialize (\<lambda>_. sql_migrate c ws)) d
      else sql_initialize d)"

subsection \<open>The protocol\<close>

definition keeps_others ::
  "('s \<Rightarrow> string \<Rightarrow> live_record result) \<Rightarrow> 's \<Rightarrow> string \<Rightarrow> live_record \<Rightarrow> 's \<Rightarrow> bool" where
  "keeps_others get s i w t \<longleftrightarrow> (\<forall>j. get t j = (if j = i then Inr w else get s j))"

locale live_repository =
  fixes ok :: "'s \<Rightarrow> bool"
    and get :: "'s \<Rightarrow> string \<Rightarrow> live_record result"
    and create :: "live_record \<Rightarrow> ('s, unit) op"
    and save :: "live_record \<Rightarrow> ('s, unit) op"
    and mutate :: "string \<Rightarrow> (live_record \<Rightarrow> live_record result) \<Rightarrow> ('s, live_record) op"
  assumes get_id: "\<lbrakk>ok s; get s i = Inr w\<rbrakk> \<Longrightarrow> lw_id w = i"
    and get_total: "ok s \<Longrightarrow> get s i = Inl e \<Longrightarrow> e = NotFound i"
    and create_new: "\<lbrakk>ok s; get s (lw_id w) = Inl e\<rbrakk> \<Longrightarrow>
      \<exists>t. create w s = (Inr (), t) \<and> ok t \<and> keeps_others get s (lw_id w) w t"
    and create_again: "\<lbrakk>ok s; get s (lw_id w) = Inr v\<rbrakk> \<Longrightarrow> create w s = (Inl (already_exists (lw_id w)), s)"
    and save_known: "\<lbrakk>ok s; get s (lw_id w) = Inr v\<rbrakk> \<Longrightarrow>
      \<exists>t. save w s = (Inr (), t) \<and> ok t \<and> keeps_others get s (lw_id w) w t"
    and save_unknown: "\<lbrakk>ok s; get s (lw_id w) = Inl e\<rbrakk> \<Longrightarrow> save w s = (Inl (NotFound (lw_id w)), s)"
    and mutate_applies: "\<lbrakk>ok s; get s i = Inr v; f v = Inr w; lw_id w = i\<rbrakk> \<Longrightarrow>
      \<exists>t. mutate i f s = (Inr w, t) \<and> ok t \<and> keeps_others get s i w t"
    and mutate_moves: "\<lbrakk>ok s; get s i = Inr v; f v = Inr w; lw_id w \<noteq> i\<rbrakk> \<Longrightarrow>
      mutate i f s = (Inl (moved i w), s)"
    and mutate_raises: "\<lbrakk>ok s; get s i = Inr v; f v = Inl e\<rbrakk> \<Longrightarrow> mutate i f s = (Inl e, s)"
    and mutate_unknown: "\<lbrakk>ok s; get s i = Inl e\<rbrakk> \<Longrightarrow> mutate i f s = (Inl (NotFound i), s)"
begin

text \<open>A mutation that fails leaves the store as it was; one that returns wrote its result.\<close>

lemma mutate_outcome:
  assumes "ok s" and run: "mutate i f s = (r, t)"
  shows "case r of
      Inl e \<Rightarrow> t = s
    | Inr w \<Rightarrow> (\<exists>v. get s i = Inr v \<and> f v = Inr w) \<and> lw_id w = i \<and> ok t \<and> keeps_others get s i w t"
proof (cases "get s i")
  case (Inl e)
  then show ?thesis using mutate_unknown [OF assms(1) Inl, of f] run by simp
next
  case (Inr v)
  note v = Inr
  show ?thesis
  proof (cases "f v")
    case (Inl e)
    then show ?thesis using mutate_raises [where f = f, OF assms(1) v Inl] run by simp
  next
    case (Inr w)
    show ?thesis
    proof (cases "lw_id w = i")
      case True
      obtain t' where t': "mutate i f s = (Inr w, t')" "ok t'" "keeps_others get s i w t'"
        using mutate_applies [of s i v f w] assms(1) v Inr True by blast
      then have "r = Inr w" "t = t'" using run by simp_all
      then show ?thesis using t' v Inr True by simp
    next
      case False
      then have "mutate i f s = (Inl (moved i w), s)"
        using mutate_moves [of s i v f w] assms(1) v Inr by blast
      then have "r = Inl (moved i w)" "t = s" using run by simp_all
      then show ?thesis by simp
    qed
  qed
qed

text \<open>Two mutations of a workspace in a row: the second one sees what the first one wrote.\<close>

lemma mutate_sees_previous:
  assumes "ok s" and "mutate i f s = (Inr w, t)" and "mutate i g t = (Inr w', t')"
  shows "g w = Inr w' \<and> get t' i = Inr w'"
proof -
  have "ok t" "get t i = Inr w"
    using mutate_outcome [OF assms(1,2)] by (simp_all add: keeps_others_def)
  then show ?thesis using mutate_outcome [OF _ assms(3)] by (auto simp: keeps_others_def)
qed

text \<open>Mutations of two workspaces commute as far as any reader can tell.\<close>

lemma mutate_other:
  assumes "ok s" and "mutate i f s = (Inr w, t)" and "j \<noteq> i"
  shows "get t j = get s j"
  using mutate_outcome [OF assms(1,2)] assms(3) by (simp add: keeps_others_def)

lemma create_then_get:
  assumes "ok s" and "create w s = (Inr (), t)"
  shows "get t (lw_id w) = Inr w \<and> (\<forall>j. j \<noteq> lw_id w \<longrightarrow> get t j = get s j)"
proof (cases "get s (lw_id w)")
  case (Inl e)
  obtain t' where "create w s = (Inr (), t')" "keeps_others get s (lw_id w) w t'"
    using create_new [OF assms(1) Inl] by blast
  then show ?thesis using assms(2) by (simp add: keeps_others_def)
next
  case (Inr v)
  then show ?thesis using create_again [OF assms(1) Inr] assms(2) by simp
qed

end

subsection \<open>The JSON store keeps the laws\<close>

definition json_ok :: "'j codec \<Rightarrow> 'j json_store \<Rightarrow> bool" where
  "json_ok c s \<longleftrightarrow> codec_round_trip c \<and> (\<exists>ws. json_read c s = Inr ws)"

lemma find_update:
  assumes "find_index p xs = Some k" and "\<And>x. q x \<Longrightarrow> \<not> p x" and "\<not> q y"
  shows "List.find q (xs[k := y]) = List.find q xs"
  using assms(1)
proof (induction xs arbitrary: k)
  case (Cons x xs)
  show ?case
  proof (cases "p x")
    case True
    then show ?thesis using Cons.prems assms(2) [of x] assms(3) by auto
  next
    case False
    then show ?thesis using Cons by (auto split: if_splits)
  qed
qed simp

lemma find_updated:
  "\<lbrakk>find_index p xs = Some k; p y\<rbrakk> \<Longrightarrow> List.find p (xs[k := y]) = Some y"
  by (induction xs arbitrary: k) (auto split: if_splits)

lemma json_get_written:
  assumes "codec_round_trip c"
  shows "json_get c (Some (cd_dump_all c ws)) i =
    (case List.find (\<lambda>v. lw_id v = i) ws of None \<Rightarrow> Inl (NotFound i) | Some w \<Rightarrow> Inr w)"
  using assms by (simp add: json_get_def json_read_def codec_round_trip_def)

lemma find_append: "List.find p (xs @ ys) = (case List.find p xs of None \<Rightarrow> List.find p ys | Some x \<Rightarrow> Some x)"
  by (induction xs) auto

lemma json_keeps:
  assumes c: "codec_round_trip c" and ws: "json_read c s = Inr ws"
    and k: "find_index (\<lambda>v. lw_id v = lw_id w) ws = Some k"
  shows "json_ok c (Some (cd_dump_all c (ws[k := w])))"
    and "keeps_others (json_get c) s (lw_id w) w (Some (cd_dump_all c (ws[k := w])))"
proof -
  show "json_ok c (Some (cd_dump_all c (ws[k := w])))"
    using c by (simp add: json_ok_def json_read_def codec_round_trip_def)
  show "keeps_others (json_get c) s (lw_id w) w (Some (cd_dump_all c (ws[k := w])))"
    unfolding keeps_others_def json_get_written [OF c]
  proof
    fix j
    show "(case List.find (\<lambda>v. lw_id v = j) (ws[k := w]) of None \<Rightarrow> Inl (NotFound j) | Some w \<Rightarrow> Inr w) =
      (if j = lw_id w then Inr w else json_get c s j)"
    proof (cases "j = lw_id w")
      case True
      then show ?thesis using find_updated [OF k, of w] by simp
    next
      case False
      then have "List.find (\<lambda>v. lw_id v = j) (ws[k := w]) = List.find (\<lambda>v. lw_id v = j) ws"
        by (intro find_update [OF k]) auto
      then show ?thesis using False ws by (simp add: json_get_def)
    qed
  qed
qed

lemma json_get_index:
  assumes "json_read c s = Inr ws"
  shows "json_get c s i = Inr v \<longleftrightarrow> (\<exists>k. find_index (\<lambda>v. lw_id v = i) ws = Some k \<and> v = ws ! k)"
    and "json_get c s i = Inl e \<longleftrightarrow> find_index (\<lambda>v. lw_id v = i) ws = None \<and> e = NotFound i"
  using assms by (auto simp: json_get_def find_find_index split: option.splits)

lemma json_create_laws:
  assumes ok: "json_ok c s"
  shows "json_get c s (lw_id w) = Inr v \<Longrightarrow> json_create c w s = (Inl (already_exists (lw_id w)), s)"
    and "json_get c s (lw_id w) = Inl e \<Longrightarrow>
      \<exists>t. json_create c w s = (Inr (), t) \<and> json_ok c t \<and> keeps_others (json_get c) s (lw_id w) w t"
proof -
  from ok obtain ws where c: "codec_round_trip c" and ws: "json_read c s = Inr ws"
    by (auto simp: json_ok_def)
  {
    assume "json_get c s (lw_id w) = Inr v"
    then obtain k where "find_index (\<lambda>v. lw_id v = lw_id w) ws = Some k" using json_get_index(1) [OF ws] by blast
    then have "k < length ws" "lw_id (ws ! k) = lw_id w" using find_index_SomeD by fast+
    then have "lw_id w \<in> lw_id ` set ws" by (metis image_eqI nth_mem)
    then show "json_create c w s = (Inl (already_exists (lw_id w)), s)"
      using ws by (simp add: json_create_def bind_op_def)
  next
    assume "json_get c s (lw_id w) = Inl e"
    then have no: "\<forall>v\<in>set ws. lw_id v \<noteq> lw_id w"
      using json_get_index(2) [OF ws, of "lw_id w" e] by (simp add: find_index_None)
    then have "lw_id w \<notin> lw_id ` set ws" by fastforce
    then have run: "json_create c w s = (Inr (), Some (cd_dump_all c (ws @ [w])))"
      using ws by (simp add: json_create_def bind_op_def json_write_def)
    have none: "List.find (\<lambda>v. lw_id v = lw_id w) ws = None" using no by (simp add: find_None_iff)
    have "keeps_others (json_get c) s (lw_id w) w (Some (cd_dump_all c (ws @ [w])))"
      unfolding keeps_others_def json_get_written [OF c] find_append using ws none
      by (auto simp: json_get_def split: option.splits)
    moreover have "json_ok c (Some (cd_dump_all c (ws @ [w])))"
      using c by (simp add: json_ok_def json_read_def codec_round_trip_def)
    ultimately show "\<exists>t. json_create c w s = (Inr (), t) \<and> json_ok c t \<and> keeps_others (json_get c) s (lw_id w) w t"
      using run by blast
  }
qed

lemma json_save_laws:
  assumes ok: "json_ok c s"
  shows "json_get c s (lw_id w) = Inr v \<Longrightarrow>
      \<exists>t. json_save c w s = (Inr (), t) \<and> json_ok c t \<and> keeps_others (json_get c) s (lw_id w) w t"
    and "json_get c s (lw_id w) = Inl e \<Longrightarrow> json_save c w s = (Inl (NotFound (lw_id w)), s)"
proof -
  from ok obtain ws where c: "codec_round_trip c" and ws: "json_read c s = Inr ws"
    by (auto simp: json_ok_def)
  show "json_get c s (lw_id w) = Inl e \<Longrightarrow> json_save c w s = (Inl (NotFound (lw_id w)), s)"
    using json_get_index(2) [OF ws] ws by (simp add: json_save_def bind_op_def)
  assume "json_get c s (lw_id w) = Inr v"
  then obtain k where k: "find_index (\<lambda>v. lw_id v = lw_id w) ws = Some k" using json_get_index(1) [OF ws] by blast
  then have "json_save c w s = (Inr (), Some (cd_dump_all c (ws[k := w])))"
    using ws by (simp add: json_save_def bind_op_def json_write_def)
  then show "\<exists>t. json_save c w s = (Inr (), t) \<and> json_ok c t \<and> keeps_others (json_get c) s (lw_id w) w t"
    using json_keeps [OF c ws k] by blast
qed

lemma json_mutate_run:
  assumes ws: "json_read c s = Inr ws" and k: "find_index (\<lambda>v. lw_id v = i) ws = Some k"
  shows "json_mutate c i f s = (case f (ws ! k) of
      Inl e \<Rightarrow> (Inl e, s)
    | Inr w \<Rightarrow> (case require_same_workspace i w of
        Inl e \<Rightarrow> (Inl e, s) | Inr _ \<Rightarrow> (Inr w, Some (cd_dump_all c (ws[k := w])))))"
  using ws k by (simp add: json_mutate_def bind_op_def json_write_def split: sum.splits)

lemma json_mutate_laws:
  assumes ok: "json_ok c s"
  shows "\<lbrakk>json_get c s i = Inr v; f v = Inr w; lw_id w = i\<rbrakk> \<Longrightarrow>
      \<exists>t. json_mutate c i f s = (Inr w, t) \<and> json_ok c t \<and> keeps_others (json_get c) s i w t"
    and "\<lbrakk>json_get c s i = Inr v; f v = Inr w; lw_id w \<noteq> i\<rbrakk> \<Longrightarrow>
      json_mutate c i f s = (Inl (moved i w), s)"
    and "\<lbrakk>json_get c s i = Inr v; f v = Inl e\<rbrakk> \<Longrightarrow> json_mutate c i f s = (Inl e, s)"
    and "json_get c s i = Inl e \<Longrightarrow> json_mutate c i f s = (Inl (NotFound i), s)"
proof -
  from ok obtain ws where c: "codec_round_trip c" and ws: "json_read c s = Inr ws"
    by (auto simp: json_ok_def)
  show "json_get c s i = Inl e \<Longrightarrow> json_mutate c i f s = (Inl (NotFound i), s)"
    using json_get_index(2) [OF ws] ws by (simp add: json_mutate_def bind_op_def)
  note index = json_get_index(1) [OF ws, THEN iffD1]
  show "\<lbrakk>json_get c s i = Inr v; f v = Inl e\<rbrakk> \<Longrightarrow> json_mutate c i f s = (Inl e, s)"
    using index json_mutate_run [OF ws] by fastforce
  show "\<lbrakk>json_get c s i = Inr v; f v = Inr w; lw_id w \<noteq> i\<rbrakk> \<Longrightarrow>
      json_mutate c i f s = (Inl (moved i w), s)"
    using index json_mutate_run [OF ws] by (fastforce simp: require_same_workspace_def)
  assume a: "json_get c s i = Inr v" "f v = Inr w" "lw_id w = i"
  obtain k where k: "find_index (\<lambda>v. lw_id v = i) ws = Some k" "v = ws ! k" using index [OF a(1)] by blast
  have "json_mutate c i f s = (Inr w, Some (cd_dump_all c (ws[k := w])))"
    using json_mutate_run [OF ws k(1)] a(2,3) k(2) by (simp add: require_same_workspace_def)
  then show "\<exists>t. json_mutate c i f s = (Inr w, t) \<and> json_ok c t \<and> keeps_others (json_get c) s i w t"
    using json_keeps [OF c ws, of w k] k(1) a(3) by blast
qed

interpretation json_repo: live_repository "json_ok c" "json_get c" "json_create c" "json_save c" "json_mutate c"
  for c :: "'j codec"
proof unfold_locales
  fix s i w e
  show "json_ok c s \<Longrightarrow> json_get c s i = Inr w \<Longrightarrow> lw_id w = i"
    by (auto simp: json_get_def split: option.splits dest: find_SomeD)
  show "json_ok c s \<Longrightarrow> json_get c s i = Inl e \<Longrightarrow> e = NotFound i"
    by (auto simp: json_ok_def json_get_def split: option.splits)
qed (fact json_create_laws json_save_laws json_mutate_laws)+

subsection \<open>The SQLite store keeps the laws\<close>

text \<open>
  The primary key keeps the ids distinct; every row was written by this store, so that it
  decodes to a record with the id of the row.
\<close>

definition sql_ok :: "'j codec \<Rightarrow> 'j table \<Rightarrow> bool" where
  "sql_ok c t \<longleftrightarrow> codec_round_trip c \<and> distinct (map row_id t)
     \<and> (\<forall>r\<in>set t. \<exists>w. cd_load c (row_json r) = Inr w \<and> lw_id w = row_id r)"

lemma sql_select_mem:
  "distinct (map row_id t) \<Longrightarrow> sql_select t i = Some r \<longleftrightarrow> r \<in> set t \<and> row_id r = i"
  unfolding sql_select_def by (induction t) (auto simp: image_iff)

lemma sql_select_None: "sql_select t i = None \<longleftrightarrow> i \<notin> row_id ` set t"
  by (auto simp: sql_select_def find_None_iff)

lemma sql_ok_get:
  assumes "sql_ok c t"
  shows "sql_get c t i = Inl e \<longleftrightarrow> sql_select t i = None \<and> e = NotFound i"
    and "sql_get c t i = Inr w \<longleftrightarrow> (\<exists>r. sql_select t i = Some r \<and> cd_load c (row_json r) = Inr w)"
proof -
  have dec: "\<exists>w. cd_load c (row_json r) = Inr w" if "sql_select t i = Some r" for r
    using that assms find_SomeD [of _ t r] unfolding sql_select_def sql_ok_def by blast
  show "sql_get c t i = Inl e \<longleftrightarrow> sql_select t i = None \<and> e = NotFound i"
    using dec by (auto simp: sql_get_def sql_decode_def split: option.splits sum.splits)
  show "sql_get c t i = Inr w \<longleftrightarrow> (\<exists>r. sql_select t i = Some r \<and> cd_load c (row_json r) = Inr w)"
    by (auto simp: sql_get_def sql_decode_def split: option.splits sum.splits)
qed

definition sql_put :: "'j codec \<Rightarrow> live_record \<Rightarrow> 'j table \<Rightarrow> 'j table" where
  "sql_put c w t = map (\<lambda>q. if row_id q = lw_id w
     then q\<lparr>row_json := cd_dump c w, row_updated := cd_iso c (lw_updated w), row_revision := row_revision q + 1\<rparr>
     else q) t"

text \<open>Inside one transaction the revision read is still there, so the guarded update hits its row.\<close>

lemma filter_one: "distinct (map f t) \<Longrightarrow> r \<in> set t \<Longrightarrow> filter (\<lambda>q. f q = f r) t = [r]"
proof (induction t)
  case (Cons x t)
  show ?case
  proof (cases "f x = f r")
    case True
    then have "x = r" using Cons.prems by (auto simp: image_iff)
    moreover have "filter (\<lambda>q. f q = f r) t = []"
      using Cons.prems(1) True by (auto simp: filter_empty_conv image_iff)
    ultimately show ?thesis by simp
  next
    case False
    then show ?thesis using Cons by auto
  qed
qed simp

lemma sql_update_known:
  assumes d: "distinct (map row_id t)" and r: "sql_select t (lw_id w) = Some r"
  shows "sql_update c w t = (Inr (), sql_put c w t)"
proof -
  have mem: "r \<in> set t" "row_id r = lw_id w" using r sql_select_mem [OF d] by blast+
  have one: "q = r" if "q \<in> set t" "row_id q = lw_id w" for q
    using that mem d by (metis distinct_map inj_onD)
  have hit: "filter (\<lambda>q. row_id q = lw_id w \<and> row_revision q = row_revision r) t = [r]"
  proof -
    have "filter (\<lambda>q. row_id q = lw_id w \<and> row_revision q = row_revision r) t =
        filter (\<lambda>q. row_id q = row_id r) t"
      by (rule filter_cong) (use one mem(2) in auto)
    then show ?thesis using filter_one [OF d mem(1)] by simp
  qed
  have "map (\<lambda>q. if row_id q = lw_id w \<and> row_revision q = row_revision r
      then q\<lparr>row_json := cd_dump c w, row_updated := cd_iso c (lw_updated w), row_revision := row_revision q + 1\<rparr>
      else q) t = sql_put c w t"
    unfolding sql_put_def by (rule map_cong) (use one in auto)
  then show ?thesis by (simp add: sql_update_def r Let_def hit)
qed

lemma sql_select_put:
  "sql_select (sql_put c w t) i = map_option (\<lambda>q. if i = lw_id w
     then q\<lparr>row_json := cd_dump c w, row_updated := cd_iso c (lw_updated w), row_revision := row_revision q + 1\<rparr>
     else q) (sql_select t i)"
  unfolding sql_select_def sql_put_def by (induction t) auto

lemma ids_sql_put [simp]: "map row_id (sql_put c w t) = map row_id t"
  by (simp add: sql_put_def)

lemma sql_put_keeps:
  assumes ok: "sql_ok c t" and r: "sql_select t (lw_id w) = Some r"
  shows "sql_ok c (sql_put c w t)" and "keeps_others (sql_get c) t (lw_id w) w (sql_put c w t)"
proof -
  have c: "cd_load c (cd_dump c w) = Inr w" using ok by (simp add: sql_ok_def codec_round_trip_def)
  show "sql_ok c (sql_put c w t)"
    using ok c unfolding sql_ok_def ids_sql_put by (auto simp: sql_put_def)
  show "keeps_others (sql_get c) t (lw_id w) w (sql_put c w t)"
    unfolding keeps_others_def using r c
    by (auto simp: sql_get_def sql_select_put sql_decode_def split: option.splits)
qed

lemma sql_create_laws:
  assumes ok: "sql_ok c t"
  shows "sql_get c t (lw_id w) = Inl e \<Longrightarrow>
      \<exists>t'. sql_create c w t = (Inr (), t') \<and> sql_ok c t' \<and> keeps_others (sql_get c) t (lw_id w) w t'"
    and "sql_get c t (lw_id w) = Inr v \<Longrightarrow> sql_create c w t = (Inl (already_exists (lw_id w)), t)"
proof -
  show "sql_get c t (lw_id w) = Inr v \<Longrightarrow> sql_create c w t = (Inl (already_exists (lw_id w)), t)"
    using sql_ok_get(2) [OF ok] by (auto simp: sql_create_def write_transaction_def sql_insert_def)
  assume "sql_get c t (lw_id w) = Inl e"
  then have none: "sql_select t (lw_id w) = None" using sql_ok_get(1) [OF ok] by blast
  define q where "q = \<lparr>row_id = lw_id w, row_updated = cd_iso c (lw_updated w), row_revision = 1,
      row_json = cd_dump c w\<rparr>"
  have run: "sql_create c w t = (Inr (), t @ [q])"
    using none by (simp add: sql_create_def write_transaction_def sql_insert_def q_def)
  have c: "cd_load c (cd_dump c w) = Inr w" using ok by (simp add: sql_ok_def codec_round_trip_def)
  have "sql_ok c (t @ [q])"
    using ok c none unfolding sql_select_None by (auto simp: sql_ok_def q_def)
  moreover have "keeps_others (sql_get c) t (lw_id w) w (t @ [q])"
    using none c unfolding keeps_others_def sql_get_def sql_select_def find_append
    by (auto simp: q_def sql_decode_def split: option.splits)
  ultimately show "\<exists>t'. sql_create c w t = (Inr (), t') \<and> sql_ok c t' \<and> keeps_others (sql_get c) t (lw_id w) w t'"
    using run by blast
qed

lemma sql_save_laws:
  assumes ok: "sql_ok c t"
  shows "sql_get c t (lw_id w) = Inr v \<Longrightarrow>
      \<exists>t'. sql_save c w t = (Inr (), t') \<and> sql_ok c t' \<and> keeps_others (sql_get c) t (lw_id w) w t'"
    and "sql_get c t (lw_id w) = Inl e \<Longrightarrow> sql_save c w t = (Inl (NotFound (lw_id w)), t)"
proof -
  show "sql_get c t (lw_id w) = Inl e \<Longrightarrow> sql_save c w t = (Inl (NotFound (lw_id w)), t)"
    using sql_ok_get(1) [OF ok] by (simp add: sql_save_def write_transaction_def sql_update_def)
  assume "sql_get c t (lw_id w) = Inr v"
  then obtain r where r: "sql_select t (lw_id w) = Some r" using sql_ok_get(2) [OF ok] by blast
  have d: "distinct (map row_id t)" using ok by (simp add: sql_ok_def)
  have "sql_save c w t = (Inr (), sql_put c w t)"
    by (simp add: sql_save_def write_transaction_def sql_update_known [OF d r])
  then show "\<exists>t'. sql_save c w t = (Inr (), t') \<and> sql_ok c t' \<and> keeps_others (sql_get c) t (lw_id w) w t'"
    using sql_put_keeps [OF ok r] by blast
qed

lemma sql_mutate_laws:
  assumes ok: "sql_ok c t"
  shows "\<lbrakk>sql_get c t i = Inr v; f v = Inr w; lw_id w = i\<rbrakk> \<Longrightarrow>
      \<exists>t'. sql_mutate c i f t = (Inr w, t') \<and> sql_ok c t' \<and> keeps_others (sql_get c) t i w t'"
    and "\<lbrakk>sql_get c t i = Inr v; f v = Inr w; lw_id w \<noteq> i\<rbrakk> \<Longrightarrow>
      sql_mutate c i f t = (Inl (moved i w), t)"
    and "\<lbrakk>sql_get c t i = Inr v; f v = Inl e\<rbrakk> \<Longrightarrow> sql_mutate c i f t = (Inl e, t)"
    and "sql_get c t i = Inl e \<Longrightarrow> sql_mutate c i f t = (Inl (NotFound i), t)"
proof -
  show "sql_mutate c i f t = (Inl (NotFound i), t)" if "sql_get c t i = Inl e"
  proof -
    have "sql_get c t i = Inl (NotFound i)" using that sql_ok_get(1) [OF ok] by simp
    then show ?thesis by (simp add: sql_mutate_def write_transaction_def bind_op_def)
  qed
  show "\<lbrakk>sql_get c t i = Inr v; f v = Inl e\<rbrakk> \<Longrightarrow> sql_mutate c i f t = (Inl e, t)"
    by (simp add: sql_mutate_def write_transaction_def bind_op_def)
  show "\<lbrakk>sql_get c t i = Inr v; f v = Inr w; lw_id w \<noteq> i\<rbrakk> \<Longrightarrow>
      sql_mutate c i f t = (Inl (moved i w), t)"
    by (simp add: sql_mutate_def write_transaction_def bind_op_def require_same_workspace_def)
  assume a: "sql_get c t i = Inr v" "f v = Inr w" "lw_id w = i"
  then obtain r where r: "sql_select t (lw_id w) = Some r" using sql_ok_get(2) [OF ok] by blast
  have d: "distinct (map row_id t)" using ok by (simp add: sql_ok_def)
  have "sql_mutate c i f t = (Inr w, sql_put c w t)"
    using a by (simp add: sql_mutate_def write_transaction_def bind_op_def require_same_workspace_def
        sql_update_known [OF d r])
  then show "\<exists>t'. sql_mutate c i f t = (Inr w, t') \<and> sql_ok c t' \<and> keeps_others (sql_get c) t i w t'"
    using sql_put_keeps [OF ok r] a(3) by blast
qed

interpretation sql_repo: live_repository "sql_ok c" "sql_get c" "sql_create c" "sql_save c" "sql_mutate c"
  for c :: "'j codec"
proof unfold_locales
  fix t i w e
  show "sql_ok c t \<Longrightarrow> sql_get c t i = Inr w \<Longrightarrow> lw_id w = i"
    by (auto simp: sql_ok_def sql_get_def sql_decode_def sql_select_def
        split: option.splits sum.splits dest!: find_SomeD)
  show "sql_ok c t \<Longrightarrow> sql_get c t i = Inl e \<Longrightarrow> e = NotFound i"
    using sql_ok_get(1) by blast
qed (fact sql_create_laws sql_save_laws sql_mutate_laws)+

subsection \<open>Listing\<close>

lemma set_newest_first [simp]: "set (newest_first f xs) = set xs"
  by (simp add: newest_first_def)

lemma newest_first_sorted: "sorted_wrt (\<lambda>x y. f y \<le> f x) (newest_first f xs)"
  unfolding newest_first_def sorted_wrt_rev by (metis sorted_map sorted_sort_key)

text \<open>Records of the same time stay in their stored order.\<close>

lemma newest_first_stable: "filter (\<lambda>x. f x = k) (newest_first f xs) = filter (\<lambda>x. f x = k) xs"
  using sort_key_stable [of f k "rev xs"] by (simp add: newest_first_def rev_filter [symmetric])

lemma sql_list_gets:
  assumes ok: "sql_ok c t"
  shows "\<exists>ws. sql_list c t = Inr ws \<and> (\<forall>w. w \<in> set ws \<longleftrightarrow> sql_get c t (lw_id w) = Inr w)"
proof -
  define g where "g r = projr (cd_load c (row_json r))" for r :: "'a row"
  have load: "cd_load c (row_json r) = Inr (g r) \<and> lw_id (g r) = row_id r" if "r \<in> set t" for r
    using ok that by (fastforce simp: sql_ok_def g_def)
  have "sql_list c t = Inr (map g (newest_first row_updated t))"
    unfolding sql_list_def by (rule map_r_all_Inr) (simp add: sql_decode_def load)
  moreover have "w \<in> g ` set t \<longleftrightarrow> sql_get c t (lw_id w) = Inr w" for w
  proof -
    have d: "distinct (map row_id t)" using ok by (simp add: sql_ok_def)
    show ?thesis
      unfolding sql_ok_get(2) [OF ok] sql_select_mem [OF d] using load by (force simp: image_iff)
  qed
  ultimately show ?thesis by simp
qed

subsection \<open>Migration\<close>

lemma insert_all:
  "\<lbrakk>sql_ok c t; distinct (map lw_id ws); \<forall>w\<in>set ws. sql_select t (lw_id w) = None\<rbrakk> \<Longrightarrow>
   \<exists>t'. for_op (sql_insert c) ws t = (Inr (), t') \<and> sql_ok c t'
     \<and> (\<forall>i. sql_get c t' i = (case List.find (\<lambda>w. lw_id w = i) ws of
          Some w \<Rightarrow> Inr w | None \<Rightarrow> sql_get c t i))"
proof (induction ws arbitrary: t)
  case Nil
  then show ?case by simp
next
  case (Cons w ws)
  have none: "sql_get c t (lw_id w) = Inl (NotFound (lw_id w))"
    using Cons.prems(3) sql_ok_get(1) [OF Cons.prems(1)] by simp
  obtain t1 where t1: "sql_create c w t = (Inr (), t1)" "sql_ok c t1"
    and keep: "keeps_others (sql_get c) t (lw_id w) w t1"
    using sql_create_laws(1) [OF Cons.prems(1) none] by blast
  have ins: "sql_insert c w t = (Inr (), t1)"
    using t1(1) by (auto simp: sql_create_def write_transaction_def split: prod.splits sum.splits)
  have "sql_select t1 (lw_id v) = None" if "v \<in> set ws" for v
  proof -
    have "lw_id v \<in> set (map lw_id ws)" "lw_id w \<notin> set (map lw_id ws)" using Cons.prems(2) that by simp_all
    then have "lw_id v \<noteq> lw_id w" by metis
    then have "sql_get c t1 (lw_id v) = sql_get c t (lw_id v)" using keep by (simp add: keeps_others_def)
    moreover have "sql_get c t (lw_id v) = Inl (NotFound (lw_id v))"
      using Cons.prems(3) that sql_ok_get(1) [OF Cons.prems(1)] by simp
    ultimately show ?thesis using sql_ok_get(1) [OF t1(2), THEN iffD1] by metis
  qed
  then obtain t' where t': "for_op (sql_insert c) ws t1 = (Inr (), t')" "sql_ok c t'"
    and get: "\<forall>i. sql_get c t' i = (case List.find (\<lambda>w. lw_id w = i) ws of
          Some w \<Rightarrow> Inr w | None \<Rightarrow> sql_get c t1 i)"
    using Cons.IH [OF t1(2)] Cons.prems(2) by auto
  have run: "for_op (sql_insert c) (w # ws) t = (Inr (), t')"
    by (simp add: bind_op_def ins t'(1))
  have notin: "List.find (\<lambda>v. lw_id v = lw_id w) ws = None"
    using Cons.prems(2) by (simp add: find_None_iff) (metis image_eqI)
  have "sql_get c t' i = (case List.find (\<lambda>w. lw_id w = i) (w # ws) of
          Some w \<Rightarrow> Inr w | None \<Rightarrow> sql_get c t i)" for i
  proof (cases "i = lw_id w")
    case True
    then show ?thesis using get notin keep by (simp add: keeps_others_def)
  next
    case False
    then show ?thesis using get keep by (simp add: keeps_others_def split: option.split)
  qed
  then show ?case using run t'(2) by blast
qed

lemma find_same_set:
  assumes "distinct (map f xs)" and "distinct (map f ys)" and "set xs = set ys"
  shows "List.find (\<lambda>x. f x = k) xs = List.find (\<lambda>x. f x = k) ys"
proof -
  have mem: "List.find (\<lambda>x. f x = k) zs = Some x \<longleftrightarrow> x \<in> set zs \<and> f x = k" if "distinct (map f zs)" for zs x
    using that by (induction zs) (auto simp: image_iff)
  show ?thesis
  proof (cases "List.find (\<lambda>x. f x = k) xs")
    case None
    then show ?thesis using assms(3) by (metis find_None_iff)
  next
    case (Some x)
    then show ?thesis using mem [OF assms(1)] mem [OF assms(2)] assms(3) by metis
  qed
qed

text \<open>Opening the SQLite store next to a readable JSON store copies every workspace of it.\<close>

theorem migration_keeps_workspaces:
  assumes fresh: "sd_file d = No_File" "sd_legacy d = Some raw" and c: "codec_round_trip c"
    and ws: "cd_load_all c raw = Inr ws" and ids: "distinct (map lw_id ws)"
    and aware: "\<forall>w\<in>set ws. dt_aware (lw_updated w)"
  shows "\<exists>t. sql_open c d = (Inr (), d\<lparr>sd_file := Database t\<rparr>) \<and> sql_ok c t
    \<and> (\<forall>i. sql_get c t i = json_get c (sd_legacy d) i)"
proof -
  let ?n = "newest_first (\<lambda>w. dt_micros (lw_updated w)) ws"
  have read: "json_read c (sd_legacy d) = Inr ws" using fresh ws by (simp add: json_read_def)
  have list: "json_list c (sd_legacy d) = Inr ?n"
    using aware by (auto simp: json_list_def read)
  have ids': "distinct (map lw_id ?n)"
  proof -
    have "distinct ws" "inj_on lw_id (set ws)" using ids by (simp_all add: distinct_map)
    then show ?thesis by (simp add: distinct_map newest_first_def)
  qed
  have empty: "sql_ok c []" using c by (simp add: sql_ok_def)
  obtain t where t: "for_op (sql_insert c) ?n [] = (Inr (), t)" "sql_ok c t"
    and get: "\<forall>i. sql_get c t i = (case List.find (\<lambda>w. lw_id w = i) ?n of
          Some w \<Rightarrow> Inr w | None \<Rightarrow> sql_get c [] i)"
    using insert_all [OF empty ids'] by (auto simp: sql_select_def)
  have run: "sql_open c d = (Inr (), d\<lparr>sd_file := Database t\<rparr>)"
    using fresh list t(1) by (simp add: sql_open_def bind_op_def sql_initialize_def sql_migrate_def)
  have "sql_get c t i = json_get c (sd_legacy d) i" for i
  proof -
    have "List.find (\<lambda>w. lw_id w = i) ?n = List.find (\<lambda>w. lw_id w = i) ws"
      by (rule find_same_set [OF ids' ids]) simp
    then show ?thesis using get read
      by (auto simp: json_get_def sql_get_def sql_select_def split: option.splits)
  qed
  then show ?thesis using run t(2) by blast
qed

text \<open>A failed opening leaves both files as they were, so that the next start migrates again.\<close>

theorem failed_open_unchanged:
  assumes "sql_open c d = (Inl e, d')"
  shows "d' = d"
proof -
  have init: "d'' = d" if "sql_initialize d = (Inl e', d'')" for e' d''
    using that by (auto simp: sql_initialize_def split: database_file.splits)
  show ?thesis
  proof (cases "sd_file d = No_File \<and> sd_legacy d \<noteq> None")
    case False
    then have "sql_open c d = sql_initialize d" unfolding sql_open_def by (simp only: if_False)
    then show ?thesis by (intro init [of e]) (metis assms)
  next
    case True
    show ?thesis
    proof (cases "json_list c (sd_legacy d)")
      case (Inl e')
      then show ?thesis using assms True by (simp add: sql_open_def bind_op_def)
    next
      case (Inr ws)
      have "sql_migrate c ws (d\<lparr>sd_file := Database []\<rparr>) = (Inl e, d')"
        using assms True Inr by (simp add: sql_open_def bind_op_def sql_initialize_def)
      then have "d' = d\<lparr>sd_file := No_File\<rparr>"
        by (auto simp: sql_migrate_def split: prod.splits sum.splits)
      then show ?thesis using True by simp
    qed
  qed
qed

subsection \<open>The two stores are the same store\<close>

text \<open>A client's calls, and what it sees of them.\<close>

datatype store_call =
    Create live_record | Save live_record | Mutate string "live_record \<Rightarrow> live_record result" | Get string

fun run_call ::
  "('s \<Rightarrow> string \<Rightarrow> live_record result) \<Rightarrow> (live_record \<Rightarrow> ('s, unit) op) \<Rightarrow> (live_record \<Rightarrow> ('s, unit) op)
   \<Rightarrow> (string \<Rightarrow> (live_record \<Rightarrow> live_record result) \<Rightarrow> ('s, live_record) op)
   \<Rightarrow> store_call \<Rightarrow> ('s, live_record option) op"
where
  "run_call get create save mutate (Create w) s = bind_op (create w) (\<lambda>_. ret_op None) s"
| "run_call get create save mutate (Save w) s = bind_op (save w) (\<lambda>_. ret_op None) s"
| "run_call get create save mutate (Mutate i f) s = bind_op (mutate i f) (\<lambda>w. ret_op (Some w)) s"
| "run_call get create save mutate (Get i) s = (map_sum id Some (get s i), s)"

fun run_calls :: "('c \<Rightarrow> ('s, 'a) op) \<Rightarrow> 'c list \<Rightarrow> 's \<Rightarrow> 'a result list \<times> 's" where
  "run_calls step [] s = ([], s)"
| "run_calls step (c # cs) s = (case step c s of (r, s') \<Rightarrow> (case run_calls step cs s' of (rs, t) \<Rightarrow> (r # rs, t)))"

definition same_contents ::
  "('s \<Rightarrow> string \<Rightarrow> live_record result) \<Rightarrow> 's \<Rightarrow> ('t \<Rightarrow> string \<Rightarrow> live_record result) \<Rightarrow> 't \<Rightarrow> bool"
where
  "same_contents get s get' t \<longleftrightarrow> (\<forall>i. get s i = get' t i)"

lemma keeps_same:
  "\<lbrakk>same_contents get s get' t; keeps_others get s i w s'; keeps_others get' t i w t'\<rbrakk>
   \<Longrightarrow> same_contents get s' get' t'"
  by (simp add: same_contents_def keeps_others_def)

lemma call_agrees:
  assumes A: "live_repository ok get create save mutate" and B: "live_repository ok' get' create' save' mutate'"
    and ok: "ok s" "ok' t" and same: "same_contents get s get' t"
  shows "\<exists>r s' t'. run_call get create save mutate c s = (r, s') \<and> run_call get' create' save' mutate' c t = (r, t')
    \<and> ok s' \<and> ok' t' \<and> same_contents get s' get' t'"
proof (cases c)
  case (Create w)
  show ?thesis
  proof (cases "get s (lw_id w)")
    case (Inl e)
    moreover then have "get' t (lw_id w) = Inl e" using same by (simp add: same_contents_def)
    ultimately obtain s' t' where st: "create w s = (Inr (), s')" "ok s'" "keeps_others get s (lw_id w) w s'"
      "create' w t = (Inr (), t')" "ok' t'" "keeps_others get' t (lw_id w) w t'"
      using live_repository.create_new [OF A] live_repository.create_new [OF B] ok by meson
    then show ?thesis using keeps_same [OF same st(3,6)] Create by (simp add: bind_op_run)
  next
    case (Inr v)
    moreover then have "get' t (lw_id w) = Inr v" using same by (simp add: same_contents_def)
    ultimately show ?thesis
      using live_repository.create_again [OF A ok(1)] live_repository.create_again [OF B ok(2)] ok same Create
      by (simp add: bind_op_run)
  qed
next
  case (Save w)
  show ?thesis
  proof (cases "get s (lw_id w)")
    case (Inl e)
    moreover then have "get' t (lw_id w) = Inl e" using same by (simp add: same_contents_def)
    ultimately show ?thesis
      using live_repository.save_unknown [OF A ok(1)] live_repository.save_unknown [OF B ok(2)] ok same Save
      by (simp add: bind_op_run)
  next
    case (Inr v)
    moreover then have "get' t (lw_id w) = Inr v" using same by (simp add: same_contents_def)
    ultimately obtain s' t' where st: "save w s = (Inr (), s')" "ok s'" "keeps_others get s (lw_id w) w s'"
      "save' w t = (Inr (), t')" "ok' t'" "keeps_others get' t (lw_id w) w t'"
      using live_repository.save_known [OF A] live_repository.save_known [OF B] ok by meson
    then show ?thesis using keeps_same [OF same st(3,6)] Save by (simp add: bind_op_run)
  qed
next
  case (Mutate i f)
  show ?thesis
  proof (cases "get s i")
    case (Inl e)
    moreover then have "get' t i = Inl e" using same by (simp add: same_contents_def)
    ultimately show ?thesis
      using live_repository.mutate_unknown [OF A ok(1)] live_repository.mutate_unknown [OF B ok(2)] ok same Mutate
      by (simp add: bind_op_run)
  next
    case (Inr v)
    note v = this
    have v': "get' t i = Inr v" using same v by (simp add: same_contents_def)
    show ?thesis
    proof (cases "f v")
      case (Inl e)
      then show ?thesis
        using live_repository.mutate_raises [OF A ok(1) v] live_repository.mutate_raises [OF B ok(2) v'] ok same Mutate
        by (simp add: bind_op_run)
    next
      case (Inr w)
      show ?thesis
      proof (cases "lw_id w = i")
        case True
        then obtain s' t' where st: "mutate i f s = (Inr w, s')" "ok s'" "keeps_others get s i w s'"
          "mutate' i f t = (Inr w, t')" "ok' t'" "keeps_others get' t i w t'"
          using live_repository.mutate_applies [where f = f, OF A ok(1) v Inr]
            live_repository.mutate_applies [where f = f, OF B ok(2) v' Inr] by blast
        then show ?thesis using keeps_same [OF same st(3,6)] Mutate by (simp add: bind_op_run)
      next
        case False
        then show ?thesis
          using live_repository.mutate_moves [where f = f, OF A ok(1) v Inr]
            live_repository.mutate_moves [where f = f, OF B ok(2) v' Inr] ok same Mutate
          by (simp add: bind_op_run)
      qed
    qed
  qed
next
  case (Get i)
  then show ?thesis using ok same by (simp add: same_contents_def)
qed

lemma calls_agree:
  assumes A: "live_repository ok get create save mutate" and B: "live_repository ok' get' create' save' mutate'"
  shows "\<lbrakk>ok s; ok' t; same_contents get s get' t\<rbrakk> \<Longrightarrow>
    fst (run_calls (run_call get create save mutate) cs s) = fst (run_calls (run_call get' create' save' mutate') cs t)"
proof (induction cs arbitrary: s t)
  case (Cons c cs)
  obtain r s' t' where step: "run_call get create save mutate c s = (r, s')"
      "run_call get' create' save' mutate' c t = (r, t')" "ok s'" "ok' t'" "same_contents get s' get' t'"
    using call_agrees [OF A B Cons.prems] by blast
  then show ?case using Cons.IH [OF step(3-5)] by (simp add: case_prod_beta)
qed simp

theorem stores_agree:
  assumes "json_ok c s" and "sql_ok c t" and "same_contents (json_get c) s (sql_get c) t"
  shows "fst (run_calls (run_call (json_get c) (json_create c) (json_save c) (json_mutate c)) cs s) =
    fst (run_calls (run_call (sql_get c) (sql_create c) (sql_save c) (sql_mutate c)) cs t)"
  by (rule calls_agree [OF json_repo.live_repository_axioms sql_repo.live_repository_axioms assms])

end
