(* ===== verification/Samples.thy ===== *)
theory Samples
  imports Authority_Contexts Repository Loop
begin

text \<open>
  A small concrete workspace to evaluate the model on: one decision that drives a specification,
  a ticket, a task and a plan, a signer, a plan that meets the decision, a change that replaces
  it, and the platform of \<^verbatim>\<open>Hashing\<close>. The theorems are instantiated on it.
\<close>

definition sample_attrs :: "int \<Rightarrow> attributes" where
  "sample_attrs n = [(''requirements'', PDict [(''s'', PDict [(''k'', PInt n)])])]"

definition sample_artifact :: "string \<Rightarrow> artifact_kind \<Rightarrow> artifact" where
  "sample_artifact i k = \<lparr>art_id = i, art_kind = k, art_title = i, art_text = i, art_scopes = {''s''},
     art_validity = Valid, art_invalidated = {}, art_approval = None, art_role = Some ''r'',
     art_confidence = 1, art_effective = None, art_source = None, art_attrs = []\<rparr>"

definition sample_decision :: "string \<Rightarrow> int \<Rightarrow> approval_status \<Rightarrow> artifact" where
  "sample_decision i n st = (sample_artifact i Decision)\<lparr>art_approval := Some st,
     art_effective := Some (Aware n), art_attrs := sample_attrs n\<rparr>"

definition sample_edge :: "string \<Rightarrow> edge_kind \<Rightarrow> string \<Rightarrow> edge" where
  "sample_edge x k y = \<lparr>edge_source = x, edge_target = y, edge_kind = k, edge_scopes = {''s''}, edge_evidence = None\<rparr>"

definition sample_edges :: "edge list" where
  "sample_edges = [sample_edge ''D0'' BASIS_FOR ''S'', sample_edge ''S'' CREATES ''T'',
     sample_edge ''T'' DECOMPOSES_TO ''W'', sample_edge ''W'' CURRENTLY_DRIVES ''P'']"

definition sample_seed :: "artifact list" where
  "sample_seed = [sample_decision ''D0'' 1 Proposal, sample_artifact ''S'' Specification,
     sample_artifact ''T'' Ticket, sample_artifact ''W'' Task, sample_artifact ''P'' AgentPlanKind]"

definition sample_graph :: graph where
  "sample_graph = reset 1 (sample_decision ''D0'' 1 Approved # tl sample_seed) sample_edges empty_graph"

definition sample_signer :: signer where
  "sample_signer = \<lparr>sig_secret = ''secret'', sig_ttl = 300\<rparr>"

definition sample_policy :: "scopes dict" where
  "sample_policy = [(''s'', {''r''})]"

definition sample_authority :: authority where
  "sample_authority = make_authority sample_graph sample_signer (3 / 4) (Some sample_policy)"

definition sample_action :: "int \<Rightarrow> plan_action" where
  "sample_action n = \<lparr>act_id = ''A'', act_description = ''work'', act_scopes = {''s''}, act_attrs = [(''k'', PInt n)]\<rparr>"

definition sample_plan :: "int \<Rightarrow> agent_plan" where
  "sample_plan n = \<lparr>plan_id = ''P'', plan_ticket = ''T'', plan_objective = ''P'', plan_actions = [sample_action n]\<rparr>"

definition sample_change :: decision_mutation where
  "sample_change = \<lparr>mut_decision = sample_decision ''D1'' 2 Approved, mut_supersedes = ''D0'', mut_scopes = {''s''}\<rparr>"

lemmas sample_defs = sample_attrs_def sample_artifact_def sample_decision_def sample_edge_def sample_edges_def
  sample_seed_def sample_graph_def sample_signer_def sample_policy_def sample_authority_def sample_action_def
  sample_plan_def sample_change_def

text \<open>The predicates of the specifications in a form that evaluates.\<close>

lemma change_ok_code [code]:
  "change_ok au m \<longleftrightarrow> decision_refusal au m = None \<and> \<not> in_graph (au_graph au) (art_id (mut_decision m))
     \<and> (case get_artifact (au_graph au) (mut_supersedes m) of
          Inl _ \<Rightarrow> False | Inr s \<Rightarrow> art_kind s = Decision \<and> mut_scopes m \<subseteq> art_scopes s)"
  by (auto simp: change_ok_def split: sum.splits)

lemma reference_ok_code [code]:
  "reference_ok g a \<longleftrightarrow> (case dict_get (act_attrs a) ''task_id'' of
     None \<Rightarrow> True
   | Some ref \<Rightarrow> (case ref of
       PStr i \<Rightarrow> (case get_artifact g i of Inl _ \<Rightarrow> False | Inr t \<Rightarrow> art_kind t = Task \<and> art_validity t = Valid)
     | _ \<Rightarrow> False))"
  by (auto simp: reference_ok_def split: option.splits pyval.splits sum.splits)

lemma sample_graph_wf: "wf_graph sample_graph"
  by code_simp

lemma sample_graph_idle: "\<not> g_in_txn sample_graph"
  by code_simp

lemma sample_version: "version_label sample_graph = ''graph-v1''"
  by code_simp

lemma sample_authority_fields [simp]:
  "au_graph sample_authority = sample_graph" "au_signer sample_authority = sample_signer"
  "au_report sample_authority = None"
  by (simp_all add: sample_authority_def make_authority_def)

lemma sample_requirements_ok: "requirements_ok sample_graph"
  by code_simp

lemma sample_change_ok: "change_ok sample_authority sample_change"
  by code_simp

lemma sample_requirements: "current_requirements sample_graph = Inr [(''s'', PDict [(''k'', PInt 1)])]"
  by code_simp

lemma sample_ticket: "get_artifact sample_graph ''T'' = Inr (sample_artifact ''T'' Ticket)"
  by (simp add: sample_graph_def reset_def empty_graph_def get_artifact_def dict_of_def sample_seed_def
      sample_artifact_def sample_decision_def)

lemma sample_allowed: "plan_verdict sample_graph [(''s'', PDict [(''k'', PInt 1)])] ''T'' (sample_plan 1) = ALLOW"
  by (simp add: plan_verdict_def plan_conforms_def sample_ticket reference_ok_def requirement_met_def
      sample_plan_def sample_action_def sample_artifact_def plan_scopes_def attr_or_none_def)

lemma sample_refused: "plan_verdict sample_graph [(''s'', PDict [(''k'', PInt 1)])] ''T'' (sample_plan 2) = REPLAN"
  by (simp add: plan_verdict_def plan_conforms_def sample_ticket reference_ok_def requirement_met_def
      sample_plan_def sample_action_def sample_artifact_def plan_scopes_def attr_or_none_def)

subsection \<open>A grant of the sample plan\<close>

text \<open>A platform whose payload parser returns the payload of this grant.\<close>

definition sample_grant :: signed_grant where
  "sample_grant = issued_grant sample_platform 0 [] sample_authority ''R'' ''T'' (sample_plan 1)"

definition sample_codec :: platform where
  "sample_codec = sample_platform\<lparr>payload_parse := (\<lambda>_. Inr (sg_payload sample_grant))\<rparr>"

lemma sample_platform_codec [simp]: "float_repr_ok sample_codec" "set_order_ok sample_codec"
  using sample_platform_ok by (simp_all add: sample_codec_def float_repr_ok_def set_order_ok_def)

text \<open>The parser of payloads plays no part in a hash.\<close>

lemma json_text_parser:
  "json_text (P\<lparr>payload_parse := f\<rparr>) v = json_text P v"
  "json_items (P\<lparr>payload_parse := f\<rparr>) xs = json_items P xs"
  "json_pairs (P\<lparr>payload_parse := f\<rparr>) d = json_pairs P d"
proof (induction P v and P xs and P d rule: json_text_json_items_json_pairs.induct)
  case (10 P x xs)
  show ?case unfolding json_items.simps(2) 10(1) using 10(2) by (cases xs) (simp_all only: list.case)
next
  case (12 P k v d)
  show ?case unfolding json_pairs.simps(2) 12(1) using 12(2) by (cases d) (simp_all only: list.case)
qed simp_all

lemma canonical_parser: "canonical_json_value (P\<lparr>payload_parse := f\<rparr>) v = canonical_json_value P v"
proof (induction P v rule: canonical_json_value.induct)
  case (1 P d)
  then have "map (\<lambda>(k, v). (k, canonical_json_value (P\<lparr>payload_parse := f\<rparr>) v)) d =
      map (\<lambda>(k, v). (k, canonical_json_value P v)) d"
    by (intro map_cong) auto
  then show ?case by simp
next
  case (2 P xs)
  then have "map (canonical_json_value (P\<lparr>payload_parse := f\<rparr>)) xs = map (canonical_json_value P) xs" by simp
  moreover have "json_dumps (P\<lparr>payload_parse := f\<rparr>) = json_dumps P"
    by (simp add: json_dumps_def json_text_parser fun_eq_iff)
  ultimately show ?case by (simp del: map_eq_conv)
qed simp_all

lemma stable_hash_codec: "stable_hash sample_codec v = stable_hash sample_platform v"
  by (simp add: sample_codec_def stable_hash_def canonical_json_def json_dumps_def json_text_parser canonical_parser)

lemma issued_codec:
  "issued_grant sample_codec now uid au run task plan = issued_grant sample_platform now uid au run task plan"
  by (simp add: issued_grant_def issue_def mac_def stable_hash_codec) (simp add: sample_codec_def)

lemma sample_codec_ok: "codec_ok sample_codec (sg_payload sample_grant)"
  by (simp add: codec_ok_def sample_codec_def)

lemma sample_evaluates:
  "\<exists>res. evaluate_plan sample_codec 0 [] sample_authority ''R'' ''T'' (sample_plan 1) None = Inr res
    \<and> ar_verdict res = ALLOW \<and> ar_grant res = Some sample_grant"
  using evaluate_plan_verdict [of sample_authority sample_codec "sample_plan 1" "[(''s'', PDict [(''k'', PInt 1)])]"
      0 "[]" "''R''" "''T''" None] sample_requirements_ok sample_requirements sample_allowed
  by (auto simp: issued_codec sample_grant_def sample_plan_def sample_action_def)

lemma sample_verifies:
  "verify_grant sample_codec 5 [] sample_authority (sg_token sample_grant) ''R'' ''T'' (sample_plan 1) =
    Inr \<lparr>vr_valid = True, vr_code = VC_VALID, vr_reason = ''Grant is valid.'', vr_payload = Some (sg_payload sample_grant)\<rparr>"
proof -
  obtain res where res: "evaluate_plan sample_codec 0 [] sample_authority ''R'' ''T'' (sample_plan 1) None = Inr res"
      "ar_verdict res = ALLOW" "ar_grant res = Some sample_grant"
    using sample_evaluates by blast
  show ?thesis
    by (rule grant_round_trip [OF _ _ _ res sample_codec_ok])
       (simp_all add: sample_requirements_ok sample_signer_def, simp add: sample_plan_def sample_action_def)
qed

lemma sample_decodes: "decode sample_codec (au_signer sample_authority) (sg_token sample_grant) = Inr (sg_payload sample_grant)"
  using decode_issued_grant [of sample_codec 0 "[]" sample_authority "''R''" "''T''" "sample_plan 1" sample_authority]
    sample_codec_ok by (simp add: issued_codec sample_grant_def)

lemma sample_snapshot: "gp_snapshot (sg_payload sample_grant) = version_label sample_graph"
  by (simp add: sample_grant_def issued_grant_payload)

lemma sample_plan_wf: "wf_plan (sample_plan n)"
  by (simp add: wf_plan_def sample_plan_def sample_action_def)

subsection \<open>The sample change\<close>

definition sample_changed :: authority where
  "sample_changed = snd (apply_decision_change sample_change sample_authority)"

lemma sample_step: "decision_step\<^sup>*\<^sup>* sample_authority sample_changed" "sample_changed \<noteq> sample_authority"
proof -
  show "decision_step\<^sup>*\<^sup>* sample_authority sample_changed"
    by (rule r_into_rtranclp) (auto simp: decision_step_def sample_changed_def)
  obtain g' rep where "snd (apply_decision_change sample_change sample_authority) =
      sample_authority\<lparr>au_graph := g', au_report := Some rep\<rparr>"
    using apply_decision_change_applies [of sample_authority sample_change] sample_graph_wf sample_graph_idle sample_change_ok
    by auto
  then have "au_report sample_changed \<noteq> au_report sample_authority" by (simp add: sample_changed_def)
  then show "sample_changed \<noteq> sample_authority" by metis
qed

subsection \<open>Runs\<close>

definition sample_run :: "agent_plan \<Rightarrow> agent_run" where
  "sample_run p = \<lparr>run_id = ''R'', run_ticket = ''T'', run_plan = p, run_state = L_VERIFY, run_tests_passed = False,
     run_snapshot = None, run_grant = None, run_history = []\<rparr>"

lemma sample_correctable: "correctable sample_graph (sample_run (sample_plan 2))"
proof -
  have "bind_r (current_requirements sample_graph) validated_requirements = Inr [(''s'', [(''k'', PInt 1)])]"
    unfolding sample_requirements by (simp add: validated_requirements_def)
  then show ?thesis
    by (auto simp: correctable_def sample_run_def sample_ticket sample_plan_def sample_action_def compatible_def
        reference_ok_def demand_def plan_scopes_def sample_artifact_def)
qed

lemma sample_uncovered:
  "uncovered sample_authority \<lparr>ws_run = sample_run ((sample_plan 1)\<lparr>plan_actions := []\<rparr>), ws_authorization = None\<rparr>"
  by (simp add: uncovered_def sample_run_def sample_ticket sample_requirements sample_plan_def plan_scopes_def
      sample_artifact_def)

subsection \<open>A context\<close>

definition sample_registry :: registry where
  "sample_registry = \<lparr>rg_secret = ''grant'', rg_ttl = 300, rg_threshold = 3 / 4, rg_max = 1, rg_contexts = []\<rparr>"

definition sample_create :: "string \<Rightarrow> context_create" where
  "sample_create i = \<lparr>xc_id = i, xc_version = 1, xc_artifacts = sample_seed, xc_edges = sample_edges,
     xc_policy = sample_policy, xc_baseline = ''D0'', xc_slack = None\<rparr>"

definition sample_context :: authority_context where
  "sample_context = \<lparr>cx_id = ''live-ws'', cx_baseline = ''D0'',
     cx_authority = make_authority (reset 1 sample_seed sample_edges empty_graph) sample_signer (3 / 4) (Some sample_policy),
     cx_policy = sample_policy, cx_slack = None, cx_approved = False, cx_role = None, cx_applied = {},
     cx_mutations = [], cx_results = []\<rparr>"

definition sample_approved :: authority_context where
  "sample_approved = snd (approve_baseline_in (3 / 4) ''r'' sample_context)"

definition sample_proposal :: decision_mutation where
  "sample_proposal = sample_change\<lparr>mut_decision := sample_decision ''D1'' 2 Proposal\<rparr>"

definition sample_evidence :: approval_evidence where
  "sample_evidence = \<lparr>ae_workspace = ''ws'', ae_decision = ''D1'', ae_approver = ''alice'', ae_permission = ''r'',
     ae_channel = Cli, ae_ref = ''cli'', ae_at = Aware 0,
     ae_fingerprint = stable_hash sample_platform (mutation_dump sample_platform sample_proposal), ae_instance = ''i1''\<rparr>"

definition sample_request :: mutation_request where
  "sample_request = \<lparr>mq_mutation = sample_proposal, mq_role = ''r'',
     mq_fingerprint = stable_hash sample_platform (mutation_dump sample_platform sample_proposal),
     mq_evidence = sample_evidence\<rparr>"

lemma sample_context_ok: "context_ok sample_context" "\<not> cx_approved sample_context" "cx_mutations sample_context = []"
proof -
  have "wf_graph (reset 1 sample_seed sample_edges empty_graph)"
    "\<not> g_in_txn (reset 1 sample_seed sample_edges empty_graph)" by code_simp+
  then show "context_ok sample_context" by (simp add: context_ok_def sample_context_def make_authority_def)
qed (simp_all add: sample_context_def)

lemma sample_seed_valid: "validate_graph_seed (sample_create ''live-ws'') = Inr ()"
  by code_simp

lemma sample_approved_is:
  "sample_approved = baseline_approved ''r'' (sample_decision ''D0'' 1 Proposal) sample_context"
proof -
  have b: "get_artifact (au_graph (cx_authority sample_context)) (cx_baseline sample_context) = Inr (sample_decision ''D0'' 1 Proposal)"
    by (simp add: sample_context_def make_authority_def reset_def empty_graph_def get_artifact_def dict_of_def sample_seed_def
      sample_artifact_def sample_decision_def)
  have v: "validate_approval (3 / 4) sample_context (sample_decision ''D0'' 1 Proposal) ''r'' = Inr ()"
    by (simp add: validate_approval_def sample_context_def sample_defs Let_def)
  obtain g where "update_artifact ((sample_decision ''D0'' 1 Proposal)\<lparr>art_approval := Some Approved\<rparr>)
      (au_graph (cx_authority sample_context)) = (Inr (), g)"
    using b by (auto simp: update_artifact_def get_artifact_def sample_decision_def sample_artifact_def sample_context_def
        split: option.splits)
  then show ?thesis
    using b v sample_context_ok(2)
    by (simp add: sample_approved_def approve_baseline_in_def Let_def baseline_approved_def)
qed

lemma sample_approved_graph:
  "au_graph (cx_authority sample_approved) =
     reset 1 (sample_decision ''D0'' 1 Approved # tl sample_seed) sample_edges empty_graph"
  by (simp add: sample_approved_is baseline_approved_def sample_context_def make_authority_def reset_def empty_graph_def
      update_artifact_def dict_of_def sample_seed_def sample_artifact_def sample_decision_def)

lemma sample_approved_ok: "context_ok sample_approved" "cx_approved sample_approved"
  using baseline_approved_ok [OF sample_context_ok(1)] by (simp_all add: sample_approved_is baseline_approved_def)

lemma sample_approved_authority: "cx_authority sample_approved = sample_authority"
  using sample_approved_graph
  by (simp add: sample_approved_is baseline_approved_def sample_context_def sample_authority_def make_authority_def
      sample_graph_def)

lemma sample_approved_mutation: "approved_mutation sample_platform sample_request = sample_change"
  by (simp add: approved_mutation_def sample_request_def sample_proposal_def sample_change_def sample_decision_def
      sample_attrs_def review_extraction_def Let_def)

lemma sample_request_runs:
  "\<exists>res c'. approve_mutation_in sample_platform (3 / 4) ''live-ws'' sample_request sample_approved = (Inr res, c')
     \<and> c' \<noteq> sample_approved"
proof -
  let ?q = sample_request and ?d = "mut_decision (mq_mutation sample_request)"
  have d: "art_id ?d = ''D1''" by (simp add: sample_request_def sample_proposal_def sample_decision_def sample_artifact_def)
  have bound: "evidence_bound sample_platform ''live-ws'' ?q"
    by (simp add: evidence_bound_def Let_def sample_request_def sample_evidence_def removeprefix_def
        sample_proposal_def sample_decision_def sample_artifact_def)
  have fp: "mq_fingerprint ?q = stable_hash sample_platform (mutation_dump sample_platform (mq_mutation ?q))"
    by (simp add: sample_request_def)
  have valid: "validate_approval (3 / 4) sample_approved ?d (mq_role ?q) = Inr ()"
    by (simp add: validate_approval_def sample_request_def sample_proposal_def sample_approved_is baseline_approved_def
        sample_context_def sample_policy_def sample_decision_def sample_artifact_def sample_attrs_def Let_def)
  have new: "art_id ?d \<notin> cx_applied sample_approved"
    by (simp add: sample_approved_is baseline_approved_def sample_context_def)
  obtain res au where app: "apply_decision_change sample_change sample_authority = (Inr res, au)" "mres_applied res"
    using apply_decision_change_applies [of sample_authority sample_change] sample_graph_wf sample_graph_idle sample_change_ok
    by auto
  obtain s where s: "get_artifact sample_graph (mut_supersedes (mq_mutation ?q)) = Inr s" "art_kind s = Decision"
    using sample_change_ok by (auto simp: change_ok_def sample_request_def sample_proposal_def)
  obtain c' where run: "approve_mutation_in sample_platform (3 / 4) ''live-ws'' ?q sample_approved = (Inr res, c')"
    and c': "cx_applied c' = insert (art_id ?d) (cx_applied sample_approved)"
    using bound fp valid new app s sample_approved_ok(2)
    by (simp add: approve_mutation_in_def Let_def sample_approved_authority apply_approved_def sample_approved_mutation)
  have "c' \<noteq> sample_approved" using c' new by auto
  with run show ?thesis by blast
qed

lemma sample_new_context: "\<exists>c. new_context sample_platform sample_registry (sample_create i) = Inr c"
proof -
  have "signing_secret sample_platform sample_registry i \<noteq> []"
    by (simp add: signing_secret_def hex_text_def sample_platform_def sample_registry_def Let_def)
  moreover have "get_artifact (reset 1 sample_seed sample_edges empty_graph) ''D0'' = Inr (sample_decision ''D0'' 1 Proposal)"
    by (simp add: reset_def empty_graph_def get_artifact_def dict_of_def sample_seed_def sample_artifact_def sample_decision_def)
  ultimately show ?thesis
    by (simp add: new_context_def make_signer_def sample_create_def Let_def)
       (simp add: sample_decision_def sample_artifact_def)
qed

subsection \<open>A stored workspace\<close>

definition sample_import :: import_request where
  "sample_import = \<lparr>ir_id = ''wsp'', ir_name = ''w'', ir_description = [], ir_policy = sample_policy,
     ir_baseline = sample_decision ''D0'' 1 Proposal, ir_spec = sample_artifact ''S'' Specification,
     ir_ticket = sample_artifact ''T'' Ticket, ir_tasks = [sample_artifact ''W'' Task], ir_plan = sample_plan 1,
     ir_edges = None, ir_version = 1, ir_slack = None\<rparr>"

definition sample_record :: "string \<Rightarrow> live_record" where
  "sample_record i = \<lparr>lw_definition = sample_import\<lparr>ir_id := i\<rparr>, lw_context = ''live-'' @ i, lw_status = WS_Imported,
     lw_version = ''graph-v1'', lw_baseline_approved = False, lw_baseline_role = None, lw_baseline_instance = None,
     lw_baseline_evidence = None, lw_plan = sample_plan 1, lw_pending = None, lw_proposal_sequence = 0,
     lw_pending_instance = None, lw_intent = None, lw_approved = [], lw_initial = None, lw_conflict = None,
     lw_replacement = None, lw_report = None, lw_initial_check = None, lw_replacement_check = None,
     lw_supervisor = None, lw_history = [], lw_created = Aware 0, lw_updated = Aware 0\<rparr>"

text \<open>A codec whose texts are the records themselves.\<close>

definition sample_texts :: "live_record list codec" where
  "sample_texts = \<lparr>cd_dump = (\<lambda>w. [w]),
     cd_load = (\<lambda>t. case t of [w] \<Rightarrow> Inr w | _ \<Rightarrow> Inl (ValueError ''json'')),
     cd_dump_all = (\<lambda>ws. ws), cd_load_all = Inr, cd_iso = iso_format sample_platform\<rparr>"

lemma sample_texts_ok: "codec_round_trip sample_texts"
  by (simp add: codec_round_trip_def sample_texts_def)

lemma sample_record_id [simp]: "lw_id (sample_record i) = i"
  by (simp add: sample_record_def)

definition sample_table :: "live_record list table" where
  "sample_table = [\<lparr>row_id = ''a'', row_updated = [], row_revision = 1, row_json = [sample_record ''a'']\<rparr>]"

lemma sample_table_ok: "sql_ok sample_texts sample_table"
  using sample_texts_ok by (simp add: sql_ok_def sample_table_def) (simp add: sample_texts_def)

lemma sample_json_ok: "json_ok sample_texts (Some [sample_record ''a''])"
  using sample_texts_ok by (simp add: json_ok_def json_read_def) (simp add: sample_texts_def)

lemma sample_import_valid: "validate_import sample_platform sample_import = Inr ()"
  by code_simp

end
