(* ===== verification/Session_Binding.thy ===== *)
theory Session_Binding
  imports Workspace_Model
begin

text \<open>
  \<^verbatim>\<open>workspaces/session_binding.py\<close>: which assignment a Claude Code session is bound to. A session
  names one by an attachment installed in memory, by the marker file \<^verbatim>\<open>.writai/attach\<close>, by a task
  id in the branch name, or by the file \<^verbatim>\<open>.writai/task\<close>, in that order. The path resolution and the
  two files are a parameter: what \<open>lstat\<close> and \<open>read_text\<close> found. The registry's methods run one at
  a time, as under its lock; \<open>started_at\<close> is the time given.
\<close>

subsection \<open>Models\<close>

datatype binding_source = Explicit | Branch_Source | Task_File | Unbound | Unresolved_Attachment

record target =
  tg_workspace :: string
  tg_assignment :: assignment

abbreviation tg_id :: "target \<Rightarrow> string" where "tg_id t \<equiv> as_id (tg_assignment t)"
abbreviation tg_task :: "target \<Rightarrow> string" where "tg_task t \<equiv> as_task (tg_assignment t)"

record locator =
  lo_workspace :: string
  lo_assignment :: string
  lo_task :: string

record attachment =
  at_ws :: string
  at_assignment :: string

record attach_file =
  af_present :: bool
  af_assignment :: "string option"
  af_detail :: "string option"

record session_binding =
  sb_session :: string
  sb_owner :: string
  sb_cwd :: string
  sb_branch :: string
  sb_source :: binding_source
  sb_assignment :: "locator option"
  sb_detail :: string
  sb_started :: datetime

definition default_developer :: string where
  "default_developer = ''default''"

text \<open>Construction strips every string field and checks its length.\<close>

definition make_locator :: "string \<Rightarrow> string \<Rightarrow> string \<Rightarrow> locator result" where
  "make_locator w i t =
     (if bounded 1 255 (strip w) \<and> bounded 1 255 (strip i) \<and> bounded 1 255 (strip t)
      then Inr \<lparr>lo_workspace = strip w, lo_assignment = strip i, lo_task = strip t\<rparr>
      else Inl (ValidationError ''AssignmentLocator''))"

definition from_target :: "target \<Rightarrow> locator result" where
  "from_target t = make_locator (tg_workspace t) (tg_id t) (tg_task t)"

definition make_attachment :: "string \<Rightarrow> string \<Rightarrow> attachment result" where
  "make_attachment w i =
     (if bounded 1 255 (strip w) \<and> bounded 1 255 (strip i)
      then Inr \<lparr>at_ws = strip w, at_assignment = strip i\<rparr>
      else Inl (ValidationError ''ExplicitSessionAttachment''))"

text \<open>Who opened the session, and where.\<close>

record session_origin =
  or_session :: string
  or_owner :: string
  or_cwd :: string
  or_branch :: string
  or_started :: datetime

definition make_binding ::
  "session_origin \<Rightarrow> binding_source \<Rightarrow> locator option \<Rightarrow> string \<Rightarrow> session_binding result"
where
  "make_binding w src loc detail =
     (if bounded 1 255 (strip (or_session w)) \<and> bounded 1 255 (strip (or_owner w))
         \<and> bounded 1 4096 (strip (or_cwd w)) \<and> bounded 0 1024 (strip (or_branch w)) \<and> bounded 1 1000 (strip detail)
      then Inr \<lparr>sb_session = strip (or_session w), sb_owner = strip (or_owner w), sb_cwd = strip (or_cwd w),
             sb_branch = strip (or_branch w), sb_source = src, sb_assignment = loc, sb_detail = strip detail,
             sb_started = or_started w\<rparr>
      else Inl (ValidationError ''ClaudeCodeSessionBinding''))"

definition bound_to :: "session_origin \<Rightarrow> binding_source \<Rightarrow> target \<Rightarrow> string \<Rightarrow> session_binding result" where
  "bound_to w src t detail = bind_r (from_target t) (\<lambda>loc. make_binding w src (Some loc) detail)"

definition unresolved_attachment :: "session_origin \<Rightarrow> string \<Rightarrow> session_binding result" where
  "unresolved_attachment w detail = make_binding w Unresolved_Attachment None detail"

definition unbound :: "session_origin \<Rightarrow> string \<Rightarrow> session_binding result" where
  "unbound w detail = make_binding w Unbound None detail"

subsection \<open>The task id in a branch name\<close>

text \<open>
  \<open>re.search\<close> of the escaped id between two lookarounds: at some position, not after and not
  before a letter or digit.
\<close>

fun mentions_from :: "string \<Rightarrow> bool \<Rightarrow> string \<Rightarrow> bool" where
  "mentions_from t after [] = (\<not> after \<and> t = [])"
| "mentions_from t after (c # cs) =
     ((\<not> after \<and> starts_with t (c # cs)
        \<and> (drop (length t) (c # cs) = [] \<or> \<not> is_alnum (hd (drop (length t) (c # cs)))))
      \<or> mentions_from t (is_alnum c) cs)"

definition branch_mentions_task :: "string \<Rightarrow> string \<Rightarrow> bool" where
  "branch_mentions_task branch task = (branch \<noteq> [] \<and> mentions_from task False branch)"

subsection \<open>The two files\<close>

datatype file_state =
    Missing_File
  | Stat_Failed
  | Symbolic_Link
  | Not_Regular
  | Regular nat "string option"

record file_system =
  fs_resolve :: "string \<Rightarrow> string"
  fs_task :: "string \<Rightarrow> file_state"
  fs_attach :: "string \<Rightarrow> file_state"

definition max_task_file_bytes :: nat where
  "max_task_file_bytes = 512"

definition file_lines :: "string \<Rightarrow> string list" where
  "file_lines content = filter (\<lambda>l. l \<noteq> []) (map strip (splitlines content))"

definition read_task_file :: "file_system \<Rightarrow> string \<Rightarrow> string option" where
  "read_task_file F cwd = (case fs_task F cwd of
     Regular bytes content \<Rightarrow>
       if max_task_file_bytes < bytes then None
       else (case content of
         None \<Rightarrow> None
       | Some text \<Rightarrow> (case file_lines text of [l] \<Rightarrow> if 255 < length l then None else Some l | _ \<Rightarrow> None))
   | _ \<Rightarrow> None)"

definition skipped_file :: "string \<Rightarrow> attach_file" where
  "skipped_file detail = \<lparr>af_present = True, af_assignment = None, af_detail = Some detail\<rparr>"

definition read_attach_file :: "file_system \<Rightarrow> string \<Rightarrow> attach_file" where
  "read_attach_file F cwd = (case fs_attach F cwd of
     Missing_File \<Rightarrow> \<lparr>af_present = False, af_assignment = None, af_detail = None\<rparr>
   | Stat_Failed \<Rightarrow> skipped_file ''.writai/attach could not be read safely.''
   | Symbolic_Link \<Rightarrow> skipped_file ''.writai/attach must not be a symbolic link.''
   | Not_Regular \<Rightarrow> skipped_file ''.writai/attach must be a regular file.''
   | Regular bytes content \<Rightarrow>
       if max_task_file_bytes < bytes then skipped_file ''.writai/attach exceeds the safe size limit.''
       else (case content of
         None \<Rightarrow> skipped_file ''.writai/attach could not be read safely.''
       | Some text \<Rightarrow> (case file_lines text of
           [l] \<Rightarrow> if 255 < length l then skipped_file ''.writai/attach contains an invalid assignment ID.''
                   else \<lparr>af_present = True, af_assignment = Some l, af_detail = None\<rparr>
         | _ \<Rightarrow> skipped_file ''.writai/attach must contain exactly one assignment ID.'')))"

text \<open>\<open>_canonical_cwd\<close>.\<close>

definition canonical_cwd :: "file_system \<Rightarrow> string \<Rightarrow> string result" where
  "canonical_cwd F cwd = (if strip cwd = [] then Inl (ValueError ''cwd must not be blank'')
     else Inr (fs_resolve F (strip cwd)))"

subsection \<open>Resolution\<close>

definition resolve_by_branch_then_task_file ::
  "file_system \<Rightarrow> session_origin \<Rightarrow> target list \<Rightarrow> session_binding result"
where
  "resolve_by_branch_then_task_file F w cands =
     (case filter (\<lambda>t. branch_mentions_task (or_branch w) (tg_task t)) cands of
        [t] \<Rightarrow> bound_to w Branch_Source t ''Bound by an exact task ID in the Git branch name.''
      | _ # _ # _ \<Rightarrow> unbound w ''The Git branch name matches more than one assignment.''
      | [] \<Rightarrow> (case read_task_file F (or_cwd w) of
          Some task \<Rightarrow> (case filter (\<lambda>t. tg_task t = task) cands of
              [t] \<Rightarrow> bound_to w Task_File t ''Bound by the repository .writai/task file.''
            | _ # _ # _ \<Rightarrow> unbound w ''.writai/task matches assignments in multiple workspaces.''
            | [] \<Rightarrow> unbound w ''.writai/task does not name an available live assignment.'')
        | None \<Rightarrow> unbound w (''No explicit attachment, branch task ID, or .writai/task binding ''
            @ ''was found; this session is visibly unbound.'')))"

definition with_skipped_marker :: "string \<Rightarrow> string \<Rightarrow> string" where
  "with_skipped_marker detail reason =
     (let combined = detail @ '' (.writai/attach was ignored: '' @ reason @ '')'' in
      if length combined \<le> 1000 then combined else take 997 combined @ ''...'')"

definition resolve_binding ::
  "file_system \<Rightarrow> session_origin \<Rightarrow> target list \<Rightarrow> attachment option \<Rightarrow> attach_file \<Rightarrow> session_binding result"
where
  "resolve_binding F w cands attachment file = (case attachment of
     Some a \<Rightarrow> (case filter (\<lambda>t. tg_workspace t = at_ws a \<and> tg_id t = at_assignment a) cands of
         [t] \<Rightarrow> bound_to w Explicit t ''Bound by an explicit writai attach selection.''
       | _ \<Rightarrow> unresolved_attachment w
           (''The explicit attachment does not name one available live '' @ ''Claude Code assignment.''))
   | None \<Rightarrow>
       if af_present file \<and> af_assignment file \<noteq> None then
         (case filter (\<lambda>t. Some (tg_id t) = af_assignment file) cands of
            [t] \<Rightarrow> bound_to w Explicit t ''Bound by the repository .writai/attach file.''
          | _ # _ # _ \<Rightarrow> unresolved_attachment w ''.writai/attach matches assignments in multiple workspaces.''
          | [] \<Rightarrow> unresolved_attachment w ''.writai/attach does not name an available live assignment.'')
       else bind_r (resolve_by_branch_then_task_file F w cands) (\<lambda>b. Inr
         (case (if af_present file then af_detail file else None) of
            None \<Rightarrow> b | Some reason \<Rightarrow> b\<lparr>sb_detail := with_skipped_marker (sb_detail b) reason\<rparr>)))"

text \<open>\<open>_unique_targets\<close>: one target per address, in the order of the addresses.\<close>

definition target_key :: "target \<Rightarrow> string \<times> string" where
  "target_key t = (tg_workspace t, tg_id t)"

fun collect_targets :: "target list \<Rightarrow> ((string \<times> string) \<times> target) list \<Rightarrow> ((string \<times> string) \<times> target) list result" where
  "collect_targets [] d = Inr d"
| "collect_targets (t # ts) d = (case map_of d (target_key t) of
     None \<Rightarrow> collect_targets ts (d @ [(target_key t, t)])
   | Some p \<Rightarrow> if p \<noteq> t then
       Inl (ValueError (''assignment catalog returned conflicting values for '' @ tg_workspace t @ ''/'' @ tg_id t))
     else collect_targets ts d)"

definition unique_targets :: "target list \<Rightarrow> target list result" where
  "unique_targets ts = bind_r (collect_targets ts []) (\<lambda>d. Inr (map snd (sort_key fst d)))"

subsection \<open>The registry\<close>

record session_registry =
  sr_sessions :: "session_binding dict"
  sr_explicit :: "attachment dict"
  sr_acks :: "(string \<times> string) set"

definition empty_sessions :: session_registry where
  "empty_sessions = \<lparr>sr_sessions = [], sr_explicit = [], sr_acks = {}\<rparr>"

definition attach :: "file_system \<Rightarrow> string \<Rightarrow> string \<Rightarrow> string \<Rightarrow> (session_registry, attachment) op" where
  "attach F cwd w i r = (case bind_r (make_attachment w i) (\<lambda>a. map_sum id (Pair a) (canonical_cwd F cwd)) of
     Inl e \<Rightarrow> (Inl e, r)
   | Inr (a, dir) \<Rightarrow> (Inr a, r\<lparr>sr_explicit := dict_set dir a (sr_explicit r)\<rparr>))"

definition dict_pop :: "string \<Rightarrow> 'v dict \<Rightarrow> 'v dict" where
  "dict_pop k d = filter (\<lambda>(j, _). j \<noteq> k) d"

definition detach :: "file_system \<Rightarrow> string \<Rightarrow> (session_registry, bool) op" where
  "detach F cwd r = (case canonical_cwd F cwd of
     Inl e \<Rightarrow> (Inl e, r)
   | Inr dir \<Rightarrow> (Inr (dict_get (sr_explicit r) dir \<noteq> None),
       r\<lparr>sr_explicit := dict_pop dir (sr_explicit r)\<rparr>))"

definition register ::
  "file_system \<Rightarrow> datetime \<Rightarrow> string \<Rightarrow> string \<Rightarrow> string \<Rightarrow> target list \<Rightarrow> string
    \<Rightarrow> (session_registry, session_binding) op"
where
  "register F now sid cwd branch cands owner_id r =
     bind_op (read_op (\<lambda>_. canonical_cwd F cwd)) (\<lambda>dir.
     bind_op (read_op (\<lambda>_. unique_targets cands)) (\<lambda>targets.
     bind_op (read_op (\<lambda>r. resolve_binding F
         \<lparr>or_session = sid, or_owner = owner_id, or_cwd = dir, or_branch = strip branch, or_started = now\<rparr>
         targets (dict_get (sr_explicit r) dir) (read_attach_file F dir))) (\<lambda>b r.
     (Inr b, r\<lparr>sr_sessions := dict_set (sb_session b) b (sr_sessions r)\<rparr>)))) r"

definition session_get :: "session_registry \<Rightarrow> string \<Rightarrow> session_binding option" where
  "session_get r sid = dict_get (sr_sessions r) (strip sid)"

definition session_list :: "session_registry \<Rightarrow> session_binding list" where
  "session_list r = sort_key (\<lambda>b. (sb_cwd b, sb_session b)) (map snd (sr_sessions r))"

definition release :: "string \<Rightarrow> (session_registry, bool) op" where
  "release sid r = (let i = strip sid in
     if dict_get (sr_sessions r) i = None then (Inr False, r)
     else (Inr True, r\<lparr>sr_sessions := dict_pop i (sr_sessions r),
                       sr_acks := {key \<in> sr_acks r. fst key \<noteq> i}\<rparr>))"

definition registry_acknowledge :: "string \<Rightarrow> string \<Rightarrow> (session_registry, unit) op" where
  "registry_acknowledge sid key r =
     (if dict_get (sr_sessions r) sid = None then (Inl (KeyError sid), r)
      else (Inr (), r\<lparr>sr_acks := insert (sid, key) (sr_acks r)\<rparr>))"

definition is_acknowledged :: "session_registry \<Rightarrow> string \<Rightarrow> string \<Rightarrow> bool" where
  "is_acknowledged r sid key \<longleftrightarrow> (sid, key) \<in> sr_acks r"

subsection \<open>The branch rule\<close>

lemma mentions_from_iff:
  "mentions_from t after s \<longleftrightarrow> (\<exists>a b. s = a @ t @ b \<and> (if a = [] then \<not> after else \<not> is_alnum (last a))
     \<and> (b = [] \<or> \<not> is_alnum (hd b)))"
proof (induction s arbitrary: after)
  case (Cons c cs)
  have "mentions_from t after (c # cs) \<longleftrightarrow>
      (\<not> after \<and> (\<exists>b. c # cs = t @ b \<and> (b = [] \<or> \<not> is_alnum (hd b)))) \<or> mentions_from t (is_alnum c) cs"
  proof -
    have "starts_with t (c # cs) \<and> (drop (length t) (c # cs) = [] \<or> \<not> is_alnum (hd (drop (length t) (c # cs)))) \<longleftrightarrow>
        (\<exists>b. c # cs = t @ b \<and> (b = [] \<or> \<not> is_alnum (hd b)))"
      unfolding starts_with_iff by (metis append_eq_conv_conj)
    then show ?thesis unfolding mentions_from.simps by blast
  qed
  also have "\<dots> \<longleftrightarrow> (\<exists>a b. c # cs = a @ t @ b \<and> (if a = [] then \<not> after else \<not> is_alnum (last a))
      \<and> (b = [] \<or> \<not> is_alnum (hd b)))" (is "?l \<longleftrightarrow> ?r")
  proof
    assume ?l
    then show ?r
    proof
      assume "\<not> after \<and> (\<exists>b. c # cs = t @ b \<and> (b = [] \<or> \<not> is_alnum (hd b)))"
      then obtain b where "\<not> after" "c # cs = t @ b" "b = [] \<or> \<not> is_alnum (hd b)" by blast
      then show ?r by (intro exI [of _ "[]"] exI [of _ b]) simp
    next
      assume "mentions_from t (is_alnum c) cs"
      then obtain a b where "cs = a @ t @ b" "if a = [] then \<not> is_alnum c else \<not> is_alnum (last a)"
          "b = [] \<or> \<not> is_alnum (hd b)" using Cons.IH by blast
      then show ?r by (intro exI [of _ "c # a"] exI [of _ b]) (auto split: if_splits)
    qed
  next
    assume ?r
    then obtain a b where ab: "c # cs = a @ t @ b" "if a = [] then \<not> after else \<not> is_alnum (last a)"
        "b = [] \<or> \<not> is_alnum (hd b)" by blast
    show ?l
    proof (cases a)
      case Nil
      then show ?thesis using ab by auto
    next
      case (Cons x a')
      then show ?thesis using ab Cons.IH [of "is_alnum c"] by (intro disjI2) (auto split: if_splits)
    qed
  qed
  finally show ?case .
qed auto

lemma branch_mentions_iff:
  "branch_mentions_task branch task \<longleftrightarrow> branch \<noteq> [] \<and> (\<exists>a b. branch = a @ task @ b
     \<and> (a = [] \<or> \<not> is_alnum (last a)) \<and> (b = [] \<or> \<not> is_alnum (hd b)))"
  by (auto simp: branch_mentions_task_def mentions_from_iff split: if_splits)

subsection \<open>The catalog\<close>

lemma collect_targets_set:
  assumes "collect_targets ts d = Inr d'" and "distinct (map fst d)" and "\<forall>(k, t)\<in>set d. k = target_key t"
  shows "distinct (map fst d') \<and> (\<forall>(k, t)\<in>set d'. k = target_key t) \<and> snd ` set d' = snd ` set d \<union> set ts"
  using assms
proof (induction ts d rule: collect_targets.induct)
  case (2 t ts d)
  show ?case
  proof (cases "map_of d (target_key t)")
    case None
    then have "target_key t \<notin> fst ` set d" by (simp add: map_of_eq_None_iff)
    then show ?thesis using "2.IH"(1) [OF None] "2.prems" None by auto
  next
    case (Some p)
    then have p: "p = t" "(target_key t, t) \<in> set d"
      using "2.prems"(1) map_of_SomeD [OF Some] by (auto split: if_splits)
    then have "t \<in> snd ` set d" by force
    then show ?thesis using "2.IH"(2) [OF Some] "2.prems" Some p by auto
  qed
qed auto

lemma collect_targets_conflict:
  assumes "collect_targets ts d = Inl e" and "\<forall>(k, t)\<in>set d. k = target_key t"
  shows "\<exists>t u. t \<in> snd ` set d \<union> set ts \<and> u \<in> snd ` set d \<union> set ts \<and> target_key t = target_key u \<and> t \<noteq> u"
  using assms
proof (induction ts d rule: collect_targets.induct)
  case (2 t ts d)
  show ?case
  proof (cases "map_of d (target_key t)")
    case None
    then show ?thesis using "2.IH"(1) [OF None] "2.prems" by (auto 0 4)
  next
    case (Some p)
    show ?thesis
    proof (cases "p = t")
      case True
      then show ?thesis using "2.IH"(2) [OF Some] "2.prems" Some by (auto 0 4)
    next
      case False
      have "(target_key t, p) \<in> set d" by (rule map_of_SomeD [OF Some])
      then have "p \<in> snd ` set d" "target_key p = target_key t" using "2.prems"(2) by force+
      then show ?thesis using False by auto
    qed
  qed
qed simp

lemma unique_targets_set:
  assumes "unique_targets ts = Inr us"
  shows "set us = set ts \<and> distinct (map target_key us) \<and> sorted (map target_key us)"
proof -
  obtain d where d: "collect_targets ts [] = Inr d" "us = map snd (sort_key fst d)"
    using assms by (auto simp: unique_targets_def)
  then have *: "distinct (map fst d)" "\<forall>(k, t)\<in>set d. k = target_key t" "snd ` set d = set ts"
    using collect_targets_set [of ts "[]" d] by auto
  have keys: "map target_key us = map fst (sort_key fst d)"
    unfolding d(2) using *(2) by (auto intro!: map_cong)
  have "distinct (map fst (sort_key fst d))"
    using *(1) by (metis distinct_map distinct_sort set_sort)
  moreover have "set us = set ts" using *(3) d(2) by simp
  ultimately show ?thesis unfolding keys by simp
qed

lemma unique_targets_conflict:
  assumes "unique_targets ts = Inl e"
  shows "\<exists>t\<in>set ts. \<exists>u\<in>set ts. target_key t = target_key u \<and> t \<noteq> u"
  using assms collect_targets_conflict [of ts "[]" e] by (auto simp: unique_targets_def bind_r_eq_Inl)

text \<open>The catalog's order does not matter.\<close>

lemma unique_targets_perm:
  assumes "set ts = set ts'" and "unique_targets ts = Inr us"
  shows "unique_targets ts' = Inr us"
proof (cases "unique_targets ts'")
  case (Inl e)
  from unique_targets_conflict [OF this] obtain t u where "t \<in> set us" "u \<in> set us" "target_key t = target_key u" "t \<noteq> u"
    using assms unique_targets_set [OF assms(2)] by auto
  moreover have "distinct (map target_key us)" using unique_targets_set [OF assms(2)] by blast
  then have "inj_on target_key (set us)" unfolding distinct_map by blast
  ultimately show ?thesis by (auto dest: inj_onD)
next
  case (Inr us')
  note a = unique_targets_set [OF assms(2)] and b = unique_targets_set [OF Inr]
  have same: "set us' = set us" using a b assms(1) by simp
  then have "map target_key us' = map target_key us"
    using a b by (intro sorted_distinct_set_unique) (simp_all add: image_image)
  moreover have "inj_on target_key (set us \<union> set us')"
    unfolding same Un_absorb using a unfolding distinct_map by blast
  ultimately have "us' = us" by (metis inj_on_map_eq_map)
  then show ?thesis using Inr by simp
qed

subsection \<open>What a resolution can say\<close>

lemma make_binding_fields:
  assumes "make_binding w src loc detail = Inr b"
  shows "sb_source b = src \<and> sb_assignment b = loc \<and> sb_session b = strip (or_session w)
    \<and> sb_owner b = strip (or_owner w)"
  using assms by (auto simp: make_binding_def split: if_splits)

lemma bound_to_fields:
  assumes "bound_to w src t detail = Inr b"
  shows "sb_source b = src \<and> (\<exists>loc. from_target t = Inr loc \<and> sb_assignment b = Some loc)
    \<and> sb_session b = strip (or_session w) \<and> sb_owner b = strip (or_owner w)"
  using assms make_binding_fields by (fastforce simp: bound_to_def)

lemma unbound_fields:
  "unbound w detail = Inr b \<Longrightarrow> sb_source b = Unbound \<and> sb_assignment b = None
    \<and> sb_session b = strip (or_session w) \<and> sb_owner b = strip (or_owner w)"
  "unresolved_attachment w detail = Inr b \<Longrightarrow> sb_source b = Unresolved_Attachment \<and> sb_assignment b = None
    \<and> sb_session b = strip (or_session w) \<and> sb_owner b = strip (or_owner w)"
  using make_binding_fields by (fastforce simp: unbound_def unresolved_attachment_def)+

text \<open>The only candidate that a rule picks.\<close>

definition picks :: "('t \<Rightarrow> bool) \<Rightarrow> 't list \<Rightarrow> 't \<Rightarrow> bool" where
  "picks p ts t \<longleftrightarrow> filter p ts = [t]"

lemma picks_unique: "picks p ts t \<Longrightarrow> t \<in> set ts \<and> p t \<and> (\<forall>u\<in>set ts. p u \<longrightarrow> u = t)"
proof -
  assume "picks p ts t"
  then have "{u \<in> set ts. p u} = {t}" unfolding picks_def set_filter [symmetric] by simp
  then show ?thesis by blast
qed

definition named_by_attachment :: "attachment \<Rightarrow> target \<Rightarrow> bool" where
  "named_by_attachment a t \<longleftrightarrow> tg_workspace t = at_ws a \<and> tg_id t = at_assignment a"

text \<open>The rule that answers, as a table.\<close>

definition binding_rule ::
  "file_system \<Rightarrow> session_origin \<Rightarrow> target list \<Rightarrow> attachment option \<Rightarrow> attach_file \<Rightarrow> session_binding \<Rightarrow> bool"
where
  "binding_rule F w cands att file b \<longleftrightarrow>
     (let marker = af_present file \<and> af_assignment file \<noteq> None;
          to = (\<lambda>src p. \<exists>t loc. picks p cands t \<and> from_target t = Inr loc \<and> sb_source b = src \<and> sb_assignment b = Some loc);
          none = (\<lambda>src p. (\<nexists>t. picks p cands t) \<and> sb_source b = src \<and> sb_assignment b = None);
          branch = (\<lambda>t. branch_mentions_task (or_branch w) (tg_task t))
      in case att of
        Some a \<Rightarrow> to Explicit (named_by_attachment a) \<or> none Unresolved_Attachment (named_by_attachment a)
      | None \<Rightarrow>
          if marker then (let p = (\<lambda>t. Some (tg_id t) = af_assignment file) in to Explicit p \<or> none Unresolved_Attachment p)
          else if filter branch cands \<noteq> [] then to Branch_Source branch \<or> none Unbound branch
          else (case read_task_file F (or_cwd w) of
            Some task \<Rightarrow> to Task_File (\<lambda>t. tg_task t = task) \<or> none Unbound (\<lambda>t. tg_task t = task)
          | None \<Rightarrow> sb_source b = Unbound \<and> sb_assignment b = None))"

lemma task_rule:
  assumes "resolve_by_branch_then_task_file F w cands = Inr b"
  shows "(\<forall>d. binding_rule F w cands None \<lparr>af_present = False, af_assignment = None, af_detail = d\<rparr> b)
    \<and> sb_session b = strip (or_session w) \<and> sb_owner b = strip (or_owner w)"
  using assms
  by (auto simp: resolve_by_branch_then_task_file_def binding_rule_def picks_def Let_def
      split: list.splits option.splits dest!: bound_to_fields unbound_fields)

theorem resolve_binding_rule:
  assumes "resolve_binding F w cands att file = Inr b"
  shows "binding_rule F w cands att file b
    \<and> sb_session b = strip (or_session w) \<and> sb_owner b = strip (or_owner w)"
proof (cases att)
  case (Some a)
  then show ?thesis using assms
    by (auto simp: resolve_binding_def binding_rule_def picks_def named_by_attachment_def [abs_def]
        split: list.splits dest!: bound_to_fields unbound_fields)
next
  case None
  show ?thesis
  proof (cases "af_present file \<and> af_assignment file \<noteq> None")
    case True
    then show ?thesis using assms None
      by (auto simp: resolve_binding_def binding_rule_def picks_def
          split: list.splits dest!: bound_to_fields unbound_fields)
  next
    case False
    then obtain b' where b': "resolve_by_branch_then_task_file F w cands = Inr b'"
        "b = b' \<or> (\<exists>d. b = b'\<lparr>sb_detail := d\<rparr>)"
    proof -
      obtain b' where "resolve_by_branch_then_task_file F w cands = Inr b'"
        using assms None False by (auto simp: resolve_binding_def)
      moreover from this have "b = b' \<or> (\<exists>d. b = b'\<lparr>sb_detail := d\<rparr>)"
        using assms None False by (auto simp: resolve_binding_def split: option.splits)
      ultimately show ?thesis using that by blast
    qed
    have "binding_rule F w cands att file b' = binding_rule F w cands None
        \<lparr>af_present = False, af_assignment = None, af_detail = None\<rparr> b'"
    proof -
      have F: "(af_present file \<and> af_assignment file \<noteq> None) = False" using False by simp
      show ?thesis unfolding binding_rule_def Let_def None F by simp
    qed
    moreover have "binding_rule F w cands att file (b'\<lparr>sb_detail := d\<rparr>) = binding_rule F w cands att file b'" for d
    proof -
      have e: "sb_source (b'\<lparr>sb_detail := d\<rparr>) = sb_source b'" "sb_assignment (b'\<lparr>sb_detail := d\<rparr>) = sb_assignment b'"
        by simp_all
      show ?thesis unfolding binding_rule_def e ..
    qed
    ultimately show ?thesis using task_rule [OF b'(1)] b'(2) by auto
  qed
qed

text \<open>A session that asked for supervision is never left unbound.\<close>

lemma attachment_never_unbound:
  assumes "resolve_binding F w cands att file = Inr b"
    and "att \<noteq> None \<or> (af_present file \<and> af_assignment file \<noteq> None)"
  shows "(sb_source b = Explicit \<and> sb_assignment b \<noteq> None) \<or> (sb_source b = Unresolved_Attachment \<and> sb_assignment b = None)"
  using resolve_binding_rule [OF assms(1)] assms(2)
  by (auto simp: binding_rule_def Let_def split: option.splits)

subsection \<open>The registry's invariant\<close>

text \<open>
  Sessions are stored under their own ids, and an acknowledgement belongs to a registered session:
  it is gone once the session is released.
\<close>

definition sessions_ok :: "session_registry \<Rightarrow> bool" where
  "sessions_ok r \<longleftrightarrow> wf_dict (sr_sessions r) \<and> (\<forall>(i, b)\<in>set (sr_sessions r). sb_session b = i \<and> strip i = i)
     \<and> fst ` sr_acks r \<subseteq> fst ` set (sr_sessions r)"

lemma empty_sessions_ok: "sessions_ok empty_sessions"
  by (simp add: sessions_ok_def empty_sessions_def)

lemma register_cases:
  assumes "register F now sid cwd branch cands owner_id r = (v, r')"
  obtains (raises) e where "v = Inl e" "r' = r"
  | (binds) b dir targets where "v = Inr b" "r' = r\<lparr>sr_sessions := dict_set (sb_session b) b (sr_sessions r)\<rparr>"
      "canonical_cwd F cwd = Inr dir" "unique_targets cands = Inr targets"
      "resolve_binding F \<lparr>or_session = sid, or_owner = owner_id, or_cwd = dir, or_branch = strip branch, or_started = now\<rparr>
         targets (dict_get (sr_explicit r) dir) (read_attach_file F dir) = Inr b"
proof (cases "canonical_cwd F cwd")
  case (Inl e)
  then show ?thesis using assms by (intro raises) (auto simp: register_def bind_op_def)
next
  case (Inr dir)
  note dir = Inr
  show ?thesis
  proof (cases "unique_targets cands")
    case (Inl e)
    then show ?thesis using assms dir by (intro raises) (auto simp: register_def bind_op_def)
  next
    case (Inr targets)
    let ?b = "resolve_binding F
         \<lparr>or_session = sid, or_owner = owner_id, or_cwd = dir, or_branch = strip branch, or_started = now\<rparr>
         targets (dict_get (sr_explicit r) dir) (read_attach_file F dir)"
    show ?thesis
    proof (cases ?b)
      case (Inl e)
      then show ?thesis using assms dir Inr by (intro raises [of e]) (simp_all add: register_def bind_op_def)
    next
      case b: (Inr b)
      show ?thesis using assms dir Inr b by (intro binds [OF _ _ dir Inr b]) (auto simp: register_def bind_op_def)
    qed
  qed
qed

lemma strip_idem [simp]: "strip (strip s) = strip s"
proof -
  define t where "t = lstrip s"
  have r: "rstrip (rstrip t) = rstrip t" by (simp add: rstrip_def)
  have pre: "\<exists>u. t = rstrip t @ u"
    unfolding rstrip_def by (metis rev_append rev_rev_ident takeWhile_dropWhile_id)
  have l: "lstrip (rstrip t) = rstrip t"
  proof (cases "rstrip t")
    case Nil
    then show ?thesis by (simp add: lstrip_def)
  next
    case (Cons c cs)
    then have "hd t = c" "t \<noteq> []" using pre by auto
    then have "\<not> is_space c" using hd_dropWhile [of is_space s] by (simp add: t_def lstrip_def)
    then show ?thesis by (simp add: Cons lstrip_def)
  qed
  show ?thesis unfolding strip_def t_def [symmetric] l r ..
qed

lemma dict_pop_get: "dict_get (dict_pop k d) j = (if j = k then None else dict_get d j)"
  by (induction d) (auto simp: dict_pop_def)

lemma wf_dict_pop: "wf_dict d \<Longrightarrow> wf_dict (dict_pop k d)"
  by (induction d) (auto simp: dict_pop_def)

lemma set_dict_pop: "set (dict_pop k d) \<subseteq> set d"
  by (auto simp: dict_pop_def)

lemma register_ok:
  assumes ok: "sessions_ok r" and run: "register F now sid cwd branch cands owner_id r = (v, r')"
  shows "sessions_ok r'"
  using run
proof (cases rule: register_cases)
  case (binds b dir targets)
  have b: "sb_session b = strip sid" using resolve_binding_rule [OF binds(5)] by simp
  have "\<forall>(i, b)\<in>set (dict_set (strip sid) b (sr_sessions r)). sb_session b = i \<and> strip i = i"
  proof -
    have w: "wf_dict (sr_sessions r)" using ok by (simp add: sessions_ok_def)
    show ?thesis using ok b by (auto simp: sessions_ok_def set_dict_set [OF w])
  qed
  then show ?thesis using ok b by (simp add: sessions_ok_def binds(2)) blast
qed (use ok in simp)

lemma keys_dict_pop: "fst ` set (dict_pop k d) = fst ` set d - {k}"
  by (force simp: dict_pop_def)

lemma release_ok:
  assumes ok: "sessions_ok r" and run: "release sid r = (v, r')"
  shows "sessions_ok r'"
proof (cases "dict_get (sr_sessions r) (strip sid) = None")
  case True
  then show ?thesis using assms by (simp add: release_def Let_def)
next
  case False
  have r': "r' = r\<lparr>sr_sessions := dict_pop (strip sid) (sr_sessions r),
      sr_acks := {key \<in> sr_acks r. fst key \<noteq> strip sid}\<rparr>" using run unfolding release_def Let_def if_not_P [OF False] by (simp only: prod.inject)
  have "fst ` {key \<in> sr_acks r. fst key \<noteq> strip sid} \<subseteq> fst ` set (dict_pop (strip sid) (sr_sessions r))"
  proof (rule image_subsetI)
    fix p
    assume p: "p \<in> {key \<in> sr_acks r. fst key \<noteq> strip sid}"
    have "fst ` sr_acks r \<subseteq> fst ` set (sr_sessions r)" using ok by (simp only: sessions_ok_def)
    moreover have "fst p \<in> fst ` sr_acks r" using p by simp
    ultimately have "fst p \<in> fst ` set (sr_sessions r)" by (rule subsetD)
    then show "fst p \<in> fst ` set (dict_pop (strip sid) (sr_sessions r))" using p unfolding keys_dict_pop by simp
  qed
  moreover have "\<forall>(i, b)\<in>set (dict_pop (strip sid) (sr_sessions r)). sb_session b = i \<and> strip i = i"
    using ok set_dict_pop [of "strip sid" "sr_sessions r"] unfolding sessions_ok_def by blast
  moreover have "wf_dict (dict_pop (strip sid) (sr_sessions r))"
    using ok by (intro wf_dict_pop) (simp add: sessions_ok_def)
  ultimately show ?thesis unfolding r' sessions_ok_def by simp
qed

lemma registry_acknowledge_ok:
  assumes ok: "sessions_ok r" and run: "registry_acknowledge sid key r = (v, r')"
  shows "sessions_ok r'"
proof (cases "dict_get (sr_sessions r) sid")
  case None
  then show ?thesis using assms by (simp add: registry_acknowledge_def)
next
  case (Some b)
  then have "sid \<in> fst ` set (sr_sessions r)" by (force dest: map_of_SomeD)
  then have "fst ` insert (sid, key) (sr_acks r) \<subseteq> fst ` set (sr_sessions r)"
    using ok unfolding sessions_ok_def by simp
  moreover have "r' = r\<lparr>sr_acks := insert (sid, key) (sr_acks r)\<rparr>"
    using run Some by (simp only: registry_acknowledge_def option.distinct if_False prod.inject)
  ultimately show ?thesis using ok by (simp add: sessions_ok_def)
qed

lemma attach_keeps_sessions:
  "attach F cwd w i r = (v, r') \<Longrightarrow> sr_sessions r' = sr_sessions r \<and> sr_acks r' = sr_acks r"
  "detach F cwd r = (u, r') \<Longrightarrow> sr_sessions r' = sr_sessions r \<and> sr_acks r' = sr_acks r"
  by (auto simp: attach_def detach_def split: sum.splits prod.splits)

lemma attach_ok:
  "sessions_ok r \<Longrightarrow> attach F cwd w i r = (v, r') \<Longrightarrow> sessions_ok r'"
  "sessions_ok r \<Longrightarrow> detach F cwd r = (u, r') \<Longrightarrow> sessions_ok r'"
proof -
  have same: "sessions_ok r \<Longrightarrow> sr_sessions r' = sr_sessions r \<and> sr_acks r' = sr_acks r \<Longrightarrow> sessions_ok r'"
    unfolding sessions_ok_def by (elim conjE) (simp only: simp_thms)
  show "sessions_ok r \<Longrightarrow> attach F cwd w i r = (v, r') \<Longrightarrow> sessions_ok r'"
    "sessions_ok r \<Longrightarrow> detach F cwd r = (u, r') \<Longrightarrow> sessions_ok r'"
    using same attach_keeps_sessions by blast+
qed

text \<open>A released session has no acknowledgement left, also not when it registers again.\<close>

lemma release_forgets:
  assumes ok: "sessions_ok r" and run: "release sid r = (v, r')"
  shows "session_get r' sid = None \<and> \<not> is_acknowledged r' (strip sid) key"
proof (cases "dict_get (sr_sessions r) (strip sid) = None")
  case True
  then have "strip sid \<notin> fst ` set (sr_sessions r)" by (simp only: map_of_eq_None_iff not_False_eq_True)
  then have "strip sid \<notin> fst ` sr_acks r" using ok unfolding sessions_ok_def by blast
  then have "(strip sid, key) \<notin> sr_acks r" by force
  moreover have "r' = r" using run unfolding release_def Let_def if_P [OF True] by (simp only: prod.inject)
  ultimately show ?thesis using True by (simp only: session_get_def is_acknowledged_def simp_thms)
next
  case False
  then have "r' = r\<lparr>sr_sessions := dict_pop (strip sid) (sr_sessions r),
      sr_acks := {key \<in> sr_acks r. fst key \<noteq> strip sid}\<rparr>"
    using run unfolding release_def Let_def if_not_P [OF False] by (simp only: prod.inject)
  then show ?thesis by (simp add: session_get_def is_acknowledged_def dict_pop_get del: map_of_eq_None_iff)
qed

end
