(* ===== verification/Session_Enforcement.thy ===== *)
theory Session_Enforcement
  imports Session_Binding Repository
begin

text \<open>
  \<^verbatim>\<open>workspaces/session_enforcement.py\<close>: the check that a Claude Code hook makes before a tool
  runs. It answers from the session's binding and from the assignment in the workspace store, and
  moves an interrupted assignment on only when the hook echoes the redirect it was given. The store
  is used through \<open>get\<close>, \<open>list\<close> and \<open>mutate\<close>; between the read and the write of a delivery
  another writer may act, which is the function \<open>other\<close> of each attempt.
\<close>

subsection \<open>Requests and verdicts\<close>

datatype permission = Permit | Deny

datatype denial_mode = Once | Until_Acknowledged | Until_Registered

record tool_request =
  tq_session :: string
  tq_tool :: string
  tq_timestamp :: datetime
  tq_ack :: "string option"

definition make_tool_request :: "string \<Rightarrow> string \<Rightarrow> datetime \<Rightarrow> string option \<Rightarrow> tool_request result" where
  "make_tool_request sid tool ts ack =
     (if bounded 1 255 (strip sid) \<and> bounded 1 255 (strip tool) \<and> (\<forall>a\<in>set_option ack. bounded 0 255 (strip a)) \<and> dt_aware ts
      then Inr \<lparr>tq_session = strip sid, tq_tool = strip tool, tq_timestamp = ts, tq_ack = map_option strip ack\<rparr>
      else Inl (ValidationError ''ClaudePreToolUseRequest''))"

record hook_verdict =
  hv_decision :: permission
  hv_reason :: string
  hv_workspace :: "string option"
  hv_assignment :: "string option"
  hv_task :: "string option"
  hv_source :: "binding_source option"
  hv_mode :: "denial_mode option"
  hv_redirect :: "string option"
  hv_path :: "string list"
  hv_evidence :: "string option"
  hv_redirect_id :: "string option"

text \<open>The model's field constraints, after stripping.\<close>

definition make_verdict :: "hook_verdict \<Rightarrow> hook_verdict result" where
  "make_verdict v = (let u = v\<lparr>hv_reason := strip (hv_reason v), hv_workspace := map_option strip (hv_workspace v),
        hv_assignment := map_option strip (hv_assignment v), hv_task := map_option strip (hv_task v),
        hv_redirect := map_option strip (hv_redirect v), hv_path := map strip (hv_path v),
        hv_evidence := map_option strip (hv_evidence v), hv_redirect_id := map_option strip (hv_redirect_id v)\<rparr> in
     if bounded 1 1000 (hv_reason u) \<and> (\<forall>s\<in>set_option (hv_workspace u). length s \<le> 255)
        \<and> (\<forall>s\<in>set_option (hv_assignment u). length s \<le> 255) \<and> (\<forall>s\<in>set_option (hv_task u). length s \<le> 255)
        \<and> (\<forall>s\<in>set_option (hv_redirect u). length s \<le> 8000) \<and> length (hv_path u) \<le> 100
        \<and> (\<forall>s\<in>set_option (hv_evidence u). length s \<le> 1000) \<and> (\<forall>s\<in>set_option (hv_redirect_id u). length s \<le> 255)
     then Inr u else Inl (ValidationError ''ClaudeHookVerdict''))"

record snapshot =
  es_locator :: locator
  es_assignment :: assignment
  es_current :: string
  es_evidence :: "string option"

definition bounded_text :: "nat \<Rightarrow> string \<Rightarrow> string" where
  "bounded_text limit s = (let n = normalize_ws s in
     if length n \<le> limit then n else rstrip (take (limit - 3) n) @ ''...'')"

definition clean_optional :: "string option \<Rightarrow> string option" where
  "clean_optional v = (case v of None \<Rightarrow> None
     | Some s \<Rightarrow> let n = normalize_ws s in if n = [] then None else Some n)"

text \<open>A spent deny: the assignment has moved past its interrupt.\<close>

definition spent_deny_states :: "assignment_state set" where
  "spent_deny_states = {AS_Redirected, AS_Resumed, AS_Completed}"

record session_state =
  ss_bound :: bool
  ss_missing :: bool
  ss_state :: "assignment_state option"
  ss_decision :: "string option"
  ss_current :: "string option"
  ss_is_current :: bool
  ss_spent :: bool

definition unbound_state :: session_state where
  "unbound_state = \<lparr>ss_bound = False, ss_missing = False, ss_state = None, ss_decision = None, ss_current = None,
     ss_is_current = False, ss_spent = False\<rparr>"

definition missing_state :: session_state where
  "missing_state = unbound_state\<lparr>ss_bound := True, ss_missing := True\<rparr>"

definition state_of_snapshot :: "snapshot \<Rightarrow> session_state" where
  "state_of_snapshot s = (let a = es_assignment s in
     \<lparr>ss_bound = True, ss_missing = False, ss_state = Some (as_state a), ss_decision = Some (as_snapshot a),
      ss_current = Some (es_current s), ss_is_current = (as_snapshot a = es_current s),
      ss_spent = (as_state a \<in> spent_deny_states)\<rparr>)"

subsection \<open>The gateway to the store\<close>

definition make_target :: "string \<Rightarrow> assignment \<Rightarrow> target result" where
  "make_target w a = (if bounded 1 255 (strip w) then Inr \<lparr>tg_workspace = strip w, tg_assignment = a\<rparr>
     else Inl (ValidationError ''SupervisorAssignmentTarget''))"

definition bindable :: "assignment \<Rightarrow> bool" where
  "bindable a \<longleftrightarrow> as_mode a = Live \<and> as_provider a \<in> {Generic, Claude_Code} \<and> as_state a \<noteq> AS_Completed"

definition record_targets :: "live_record \<Rightarrow> target list result" where
  "record_targets w = (case lw_supervisor w of
     None \<Rightarrow> Inr []
   | Some su \<Rightarrow> if su_mode su \<noteq> Live then Inr []
       else map_r (make_target (lw_id w)) (filter bindable (su_assignments su)))"

definition list_live_assignments :: "('s \<Rightarrow> live_record list result) \<Rightarrow> 's \<Rightarrow> target list result" where
  "list_live_assignments records s = bind_r (records s) (\<lambda>ws. bind_r (map_r record_targets ws) (\<lambda>tss.
     Inr (sort_key target_key (concat tss))))"

definition make_snapshot :: "live_record \<Rightarrow> locator \<Rightarrow> assignment \<Rightarrow> snapshot result" where
  "make_snapshot w loc a =
     (if bounded 1 255 (strip (lw_version w))
      then Inr \<lparr>es_locator = loc, es_assignment = a, es_current = strip (lw_version w),
             es_evidence = (case lw_report w of None \<Rightarrow> None
               | Some rep \<Rightarrow> (case rep_evidence rep of [] \<Rightarrow> None | e # _ \<Rightarrow> Some (bounded_text 1000 e)))\<rparr>
      else Inl (ValidationError ''AssignmentEnforcementSnapshot''))"

definition located :: "locator \<Rightarrow> assignment \<Rightarrow> bool" where
  "located loc a \<longleftrightarrow> as_id a = lo_assignment loc \<and> as_task a = lo_task loc \<and> as_mode a = Live"

definition live_assignment_index :: "live_record \<Rightarrow> locator \<Rightarrow> nat option" where
  "live_assignment_index w loc = (case lw_supervisor w of
     None \<Rightarrow> None
   | Some su \<Rightarrow> if su_mode su \<noteq> Live then None else find_index (located loc) (su_assignments su))"

definition record_assignments :: "live_record \<Rightarrow> assignment list" where
  "record_assignments w = (case lw_supervisor w of None \<Rightarrow> [] | Some su \<Rightarrow> su_assignments su)"

definition snapshot_in :: "live_record \<Rightarrow> locator \<Rightarrow> snapshot option result" where
  "snapshot_in w loc = (case live_assignment_index w loc of
     None \<Rightarrow> Inr None | Some k \<Rightarrow> map_sum id Some (make_snapshot w loc (record_assignments w ! k)))"

text \<open>An unknown workspace is no assignment; every other error of the store is raised.\<close>

definition gateway_get :: "('s \<Rightarrow> string \<Rightarrow> live_record result) \<Rightarrow> locator \<Rightarrow> 's \<Rightarrow> snapshot option result" where
  "gateway_get get loc s = (case get s (lo_workspace loc) of
     Inl (NotFound i) \<Rightarrow> Inr None | Inl e \<Rightarrow> Inl e | Inr w \<Rightarrow> snapshot_in w loc)"

definition awaits_redirect :: "assignment \<Rightarrow> string \<Rightarrow> bool" where
  "awaits_redirect a run \<longleftrightarrow> as_run a = run \<and> as_state a = AS_Interrupted"

definition apply_redirect_delivery ::
  "locator \<Rightarrow> assignment \<Rightarrow> string \<Rightarrow> assignment \<Rightarrow> live_record \<Rightarrow> live_record"
where
  "apply_redirect_delivery loc read version new w =
     (case (lw_supervisor w, live_assignment_index w loc) of
        (Some su, Some k) \<Rightarrow>
          if su_assignments su ! k \<noteq> read \<or> lw_version w \<noteq> version then w
          else w\<lparr>lw_supervisor := Some (su\<lparr>su_assignments := (su_assignments su)[k := new],
                                          su_state := LS_Redirecting\<rparr>)\<rparr>
      | _ \<Rightarrow> w)"

definition redirected :: "assignment \<Rightarrow> string \<Rightarrow> assignment" where
  "redirected a version = claude_transition ((to_state AS_Redirected)\<lparr>ta_snapshot := Some version\<rparr>) a"

definition deliver_redirect_once ::
  "('s \<Rightarrow> 's) \<Rightarrow> ('s \<Rightarrow> string \<Rightarrow> live_record result)
    \<Rightarrow> (string \<Rightarrow> (live_record \<Rightarrow> live_record result) \<Rightarrow> ('s, live_record) op)
    \<Rightarrow> locator \<Rightarrow> string \<Rightarrow> ('s, snapshot option) op"
where
  "deliver_redirect_once other get mutate loc run s = (case get s (lo_workspace loc) of
     Inl (NotFound i) \<Rightarrow> (Inr None, s)
   | Inl e \<Rightarrow> (Inl e, s)
   | Inr w \<Rightarrow> (case live_assignment_index w loc of
       None \<Rightarrow> (Inr None, s)
     | Some k \<Rightarrow> (let a = record_assignments w ! k in
         if \<not> awaits_redirect a run then (map_sum id Some (make_snapshot w loc a), s)
         else (case mutate (lo_workspace loc)
                 (\<lambda>v. Inr (apply_redirect_delivery loc a (lw_version w) (redirected a (lw_version w)) v)) (other s) of
             (Inl e, t) \<Rightarrow> (Inl e, t)
           | (Inr v, t) \<Rightarrow> (snapshot_in v loc, t)))))"

fun deliver_attempts ::
  "nat \<Rightarrow> (nat \<Rightarrow> 's \<Rightarrow> 's) \<Rightarrow> ('s \<Rightarrow> string \<Rightarrow> live_record result)
    \<Rightarrow> (string \<Rightarrow> (live_record \<Rightarrow> live_record result) \<Rightarrow> ('s, live_record) op)
    \<Rightarrow> locator \<Rightarrow> string \<Rightarrow> snapshot option \<Rightarrow> ('s, snapshot option) op"
where
  "deliver_attempts 0 others get mutate loc run last_read s = (Inr last_read, s)"
| "deliver_attempts (Suc n) others get mutate loc run last_read s =
     bind_op (deliver_redirect_once (others n) get mutate loc run) (\<lambda>found.
       case found of
         None \<Rightarrow> ret_op None
       | Some snap \<Rightarrow> if \<not> awaits_redirect (es_assignment snap) run then ret_op (Some snap)
           else deliver_attempts n others get mutate loc run (Some snap)) s"

definition redirect_delivery_attempts :: nat where
  "redirect_delivery_attempts = 3"

definition mark_redirect_delivered ::
  "(nat \<Rightarrow> 's \<Rightarrow> 's) \<Rightarrow> ('s \<Rightarrow> string \<Rightarrow> live_record result)
    \<Rightarrow> (string \<Rightarrow> (live_record \<Rightarrow> live_record result) \<Rightarrow> ('s, live_record) op)
    \<Rightarrow> locator \<Rightarrow> string \<Rightarrow> ('s, snapshot option) op"
where
  "mark_redirect_delivered others get mutate loc run =
     deliver_attempts redirect_delivery_attempts others get mutate loc run None"

subsection \<open>The verdicts\<close>

definition verdict_of :: "permission \<Rightarrow> string \<Rightarrow> hook_verdict" where
  "verdict_of d reason = \<lparr>hv_decision = d, hv_reason = reason, hv_workspace = None, hv_assignment = None, hv_task = None,
     hv_source = None, hv_mode = None, hv_redirect = None, hv_path = [], hv_evidence = None, hv_redirect_id = None\<rparr>"

definition about :: "session_binding \<Rightarrow> snapshot \<Rightarrow> hook_verdict \<Rightarrow> hook_verdict" where
  "about b snap v = v\<lparr>hv_workspace := Some (lo_workspace (es_locator snap)), hv_assignment := Some (as_id (es_assignment snap)),
     hv_task := Some (as_task (es_assignment snap)), hv_source := Some (sb_source b)\<rparr>"

definition interrupt_key :: "platform \<Rightarrow> snapshot \<Rightarrow> string" where
  "interrupt_key P snap = (let a = es_assignment snap in stable_hash P (PDict
     [(''workspace_id'', PStr (lo_workspace (es_locator snap))), (''assignment_id'', PStr (as_id a)),
      (''run_id'', PStr (as_run a)), (''current_decision_snapshot'', PStr (es_current snap)),
      (''interrupt_reason'', opt_str (as_reason a)), (''redirect_instruction'', opt_str (as_instruction a)),
      (''provenance_path'', PList (map PStr (as_path a)))]))"

definition deny_for_missing_assignment :: "session_binding \<Rightarrow> locator \<Rightarrow> hook_verdict result" where
  "deny_for_missing_assignment b loc = make_verdict
     ((verdict_of Deny (''writ.ai session binding is stale because its assignment is no '' @ ''longer present.''))
        \<lparr>hv_workspace := Some (lo_workspace loc), hv_assignment := Some (lo_assignment loc),
         hv_task := Some (lo_task loc), hv_source := Some (sb_source b), hv_mode := Some Until_Acknowledged\<rparr>)"

definition deny_assignment ::
  "session_binding \<Rightarrow> snapshot \<Rightarrow> denial_mode \<Rightarrow> string option \<Rightarrow> string option \<Rightarrow> hook_verdict result"
where
  "deny_assignment b snap mode instruction redirect_id = (let a = es_assignment snap in make_verdict
     ((about b snap (verdict_of Deny (bounded_text 1000
         (case as_reason a of Some r \<Rightarrow> if r \<noteq> [] then r
              else ''The assignment is not bound to the current approved '' @ ''decision snapshot.''
          | None \<Rightarrow> ''The assignment is not bound to the current approved '' @ ''decision snapshot.''))))
      \<lparr>hv_mode := Some mode, hv_redirect := map_option (bounded_text 8000) instruction, hv_redirect_id := redirect_id,
       hv_path := map (bounded_text 255) (take 100 (as_path a)),
       hv_evidence := Some (case es_evidence snap of Some e \<Rightarrow> bounded_text 1000 e
         | None \<Rightarrow> ''writai://workspaces/'' @ lo_workspace (es_locator snap) @ ''/assignments/'' @ as_id a)\<rparr>))"

definition allow_acknowledged :: "session_binding \<Rightarrow> snapshot \<Rightarrow> hook_verdict result" where
  "allow_acknowledged b snap = make_verdict (about b snap (verdict_of Permit
     (''A human acknowledged this persistent session interrupt; the PR '' @
      ''verification gate remains the compliance backstop.'')))"

definition require_owner :: "session_binding \<Rightarrow> string \<Rightarrow> unit result" where
  "require_owner b owner_id = (if sb_owner b \<noteq> owner_id then Inl (ApiFailure 403 ''HOOK_SESSION_NOT_OWNED'' False) else Inr ())"

text \<open>The end of the check, on the assignment as it now is.\<close>

definition judge :: "session_binding \<Rightarrow> snapshot \<Rightarrow> bool \<Rightarrow> hook_verdict result" where
  "judge b snap acknowledged = (let a = es_assignment snap in
     if as_state a = AS_Continuing then
       make_verdict (about b snap (verdict_of Permit
         (''writ.ai preserved this assignment because its task scopes '' @ ''do not intersect the approved change.'')))
     else if as_snapshot a \<noteq> es_current snap then
       (if acknowledged then allow_acknowledged b snap else deny_assignment b snap Until_Acknowledged None None)
     else make_verdict (about b snap (verdict_of Permit ''writ.ai assignment is bound to the current decision snapshot.'')))"

subsection \<open>The enforcement\<close>

definition check_session ::
  "platform \<Rightarrow> (nat \<Rightarrow> 's \<Rightarrow> 's) \<Rightarrow> ('s \<Rightarrow> string \<Rightarrow> live_record result)
    \<Rightarrow> (string \<Rightarrow> (live_record \<Rightarrow> live_record result) \<Rightarrow> ('s, live_record) op)
    \<Rightarrow> session_registry \<Rightarrow> tool_request \<Rightarrow> string \<Rightarrow> ('s, hook_verdict) op"
where
  "check_session P others get mutate reg q owner_id s = (case session_get reg (tq_session q) of
     None \<Rightarrow> (make_verdict ((verdict_of Deny
         (''writ.ai has no registered lifecycle record for this '' @ ''Claude Code session.''))
         \<lparr>hv_mode := Some Until_Registered\<rparr>), s)
   | Some b \<Rightarrow>
     (case require_owner b owner_id of Inl e \<Rightarrow> (Inl e, s) | Inr _ \<Rightarrow>
     if sb_source b = Unresolved_Attachment then
       (make_verdict ((verdict_of Deny
           (''writ.ai cannot resolve this session's explicit attachment: '' @ bounded_text 200 (sb_detail b)))
           \<lparr>hv_mode := Some Until_Registered, hv_source := Some (sb_source b)\<rparr>), s)
     else (case sb_assignment b of
       None \<Rightarrow> (make_verdict ((verdict_of Permit
           (''writ.ai session is registered but visibly unbound; '' @ ''no assignment enforcement was inferred.''))
           \<lparr>hv_source := Some (sb_source b)\<rparr>), s)
     | Some loc \<Rightarrow> (case gateway_get get loc s of
         Inl e \<Rightarrow> (Inl e, s)
       | Inr None \<Rightarrow> (deny_for_missing_assignment b loc, s)
       | Inr (Some snap) \<Rightarrow>
         (let a = es_assignment snap; key = interrupt_key P snap;
              acknowledged = is_acknowledged reg (tq_session q) key in
          if as_state a = AS_Interrupted then
            (case clean_optional (as_instruction a) of
               Some instruction \<Rightarrow>
                 if tq_ack q \<noteq> Some key then
                   (deny_assignment b snap Until_Acknowledged (Some instruction) (Some key), s)
                 else bind_op (mark_redirect_delivered others get mutate (es_locator snap) (as_run a))
                   (\<lambda>delivered s. case delivered of
                      None \<Rightarrow> (deny_for_missing_assignment b loc, s)
                    | Some snap' \<Rightarrow> (judge b snap' acknowledged, s)) s
             | None \<Rightarrow> if acknowledged then (allow_acknowledged b snap, s)
                 else (deny_assignment b snap Until_Acknowledged None None, s))
          else (judge b snap acknowledged, s))))))"

definition start_session ::
  "file_system \<Rightarrow> datetime \<Rightarrow> ('s \<Rightarrow> live_record list result) \<Rightarrow> string \<Rightarrow> string \<Rightarrow> string \<Rightarrow> string
    \<Rightarrow> 's \<Rightarrow> (session_registry, session_binding) op"
where
  "start_session F now records sid cwd branch owner_id s r = (case list_live_assignments records s of
     Inl e \<Rightarrow> (Inl e, r) | Inr cands \<Rightarrow> register F now sid cwd branch cands owner_id r)"

definition end_session :: "string \<Rightarrow> string \<Rightarrow> (session_registry, bool) op" where
  "end_session sid owner_id r = (case session_get r sid of
     None \<Rightarrow> release sid r
   | Some b \<Rightarrow> (case require_owner b owner_id of Inl e \<Rightarrow> (Inl e, r) | Inr _ \<Rightarrow> release sid r))"

definition assignment_state_of ::
  "('s \<Rightarrow> string \<Rightarrow> live_record result) \<Rightarrow> 's \<Rightarrow> session_binding \<Rightarrow> session_state result"
where
  "assignment_state_of get s b = (case sb_assignment b of
     None \<Rightarrow> Inr unbound_state
   | Some loc \<Rightarrow> bind_r (gateway_get get loc s) (\<lambda>snap. Inr
       (case snap of None \<Rightarrow> missing_state | Some x \<Rightarrow> state_of_snapshot x)))"

definition registered_sessions ::
  "('s \<Rightarrow> string \<Rightarrow> live_record result) \<Rightarrow> 's \<Rightarrow> session_registry \<Rightarrow> string option
    \<Rightarrow> (session_binding \<times> session_state) list result"
where
  "registered_sessions get s r owner_id =
     map_r (\<lambda>b. map_sum id (Pair b) (assignment_state_of get s b))
       (filter (\<lambda>b. owner_id = None \<or> Some (sb_owner b) = owner_id) (session_list r))"

definition acknowledge ::
  "platform \<Rightarrow> ('s \<Rightarrow> string \<Rightarrow> live_record result) \<Rightarrow> 's \<Rightarrow> string \<Rightarrow> string \<Rightarrow> (session_registry, string) op"
where
  "acknowledge P get s sid owner_id r = (case session_get r sid of
     None \<Rightarrow> (Inl (KeyError sid), r)
   | Some b \<Rightarrow> (case require_owner b owner_id of Inl e \<Rightarrow> (Inl e, r) | Inr _ \<Rightarrow>
       (case sb_assignment b of
          None \<Rightarrow> (Inl (KeyError sid), r)
        | Some loc \<Rightarrow> (case gateway_get get loc s of
            Inl e \<Rightarrow> (Inl e, r)
          | Inr None \<Rightarrow> (Inl (KeyError sid), r)
          | Inr (Some snap) \<Rightarrow> (let key = interrupt_key P snap in
              bind_op (registry_acknowledge sid key) (\<lambda>_. ret_op key) r)))))"

subsection \<open>Verdicts that can be sent\<close>

lemma make_verdict_Inr:
  "make_verdict v = Inr u \<Longrightarrow> hv_decision u = hv_decision v \<and> hv_mode u = hv_mode v \<and> hv_source u = hv_source v
     \<and> hv_redirect_id u = map_option strip (hv_redirect_id v) \<and> hv_redirect u = map_option strip (hv_redirect v)"
  by (auto simp: make_verdict_def Let_def split: if_splits)

lemma about_fields [simp]:
  "hv_decision (about b snap v) = hv_decision v" "hv_reason (about b snap v) = hv_reason v"
  by (simp_all add: about_def)

lemma verdict_of_fields [simp]:
  "hv_decision (verdict_of d r) = d" "hv_reason (verdict_of d r) = r" "hv_mode (verdict_of d r) = None"
  "hv_redirect_id (verdict_of d r) = None"
  by (simp_all add: verdict_of_def)

lemma deny_decision:
  "deny_assignment b snap m i k = Inr v \<Longrightarrow> hv_decision v = Deny \<and> hv_mode v = Some m
     \<and> hv_redirect_id v = map_option strip k"
  "deny_for_missing_assignment b loc = Inr v \<Longrightarrow> hv_decision v = Deny"
  "allow_acknowledged b snap = Inr v \<Longrightarrow> hv_decision v = Permit"
  by (auto simp: deny_assignment_def deny_for_missing_assignment_def allow_acknowledged_def Let_def
      dest!: make_verdict_Inr)

lemma length_bounded_text:
  assumes "3 \<le> limit"
  shows "length (bounded_text limit s) \<le> limit"
  using assms length_rstrip [of "take (limit - 3) (normalize_ws s)"]
  by (auto simp: bounded_text_def Let_def)

lemma judge_permits:
  assumes "judge b snap ack = Inr v"
  shows "hv_decision v = Permit \<longleftrightarrow> as_state (es_assignment snap) = AS_Continuing
    \<or> as_snapshot (es_assignment snap) = es_current snap \<or> ack"
  using assms deny_decision
  by (fastforce simp: judge_def Let_def dest: make_verdict_Inr split: if_splits)

subsection \<open>Deliveries\<close>

lemma live_assignment_index_Some:
  assumes "live_assignment_index w loc = Some k"
  shows "\<exists>su. lw_supervisor w = Some su \<and> su_mode su = Live \<and> k < length (su_assignments su)
    \<and> located loc (su_assignments su ! k) \<and> record_assignments w = su_assignments su"
  using assms find_index_SomeD [of "located loc" _ k]
  by (auto simp: live_assignment_index_def record_assignments_def split: option.splits if_splits)

lemma apply_redirect_delivery_cases:
  obtains (kept) "apply_redirect_delivery loc read version new w = w"
  | (moved) su k where "lw_supervisor w = Some su" "live_assignment_index w loc = Some k" "su_assignments su ! k = read"
      "lw_version w = version" "apply_redirect_delivery loc read version new w =
         w\<lparr>lw_supervisor := Some (su\<lparr>su_assignments := (su_assignments su)[k := new], su_state := LS_Redirecting\<rparr>)\<rparr>"
proof (cases "lw_supervisor w")
  case None
  then show ?thesis using kept by (simp add: apply_redirect_delivery_def)
next
  case (Some su)
  note su = Some
  show ?thesis
  proof (cases "live_assignment_index w loc")
    case None
    then show ?thesis using kept su by (simp add: apply_redirect_delivery_def)
  next
    case (Some k)
    then show ?thesis
      using kept moved [OF su Some] su by (cases "su_assignments su ! k = read \<and> lw_version w = version")
        (simp_all add: apply_redirect_delivery_def)
  qed
qed

lemma apply_redirect_delivery_id: "lw_id (apply_redirect_delivery loc read version new w) = lw_id w"
  by (rule apply_redirect_delivery_cases [of loc read version new w]) simp_all

lemma redirected_fields:
  "as_id (redirected a v) = as_id a" "as_task (redirected a v) = as_task a" "as_state (redirected a v) = AS_Redirected"
  "as_snapshot (redirected a v) = v" "as_run (redirected a v) = as_run a"
  using claude_rt.transition_same [of "(to_state AS_Redirected)\<lparr>ta_snapshot := Some v\<rparr>" a]
  by (simp_all add: redirected_def same_assignment_def claude_rt.transition_state claude_rt.transition_snapshot
      claude_rt.transition_run, simp_all add: to_state_def)

lemma find_index_update: "\<lbrakk>find_index p xs = Some k; p y\<rbrakk> \<Longrightarrow> find_index p (xs[k := y]) = Some k"
proof (induction xs arbitrary: k)
  case (Cons x xs)
  then show ?case by (cases k) (auto split: if_splits)
qed simp

text \<open>A delivery onto the record it was read from is found again, and no longer awaits one.\<close>

lemma snapshot_after_delivery:
  assumes i: "live_assignment_index w loc = Some k" and a: "a = record_assignments w ! k"
    and codex: "as_provider a \<noteq> Codex" and ver: "bounded 1 255 (strip (lw_version w))"
  shows "\<exists>snap. snapshot_in (apply_redirect_delivery loc a (lw_version w) (redirected a (lw_version w)) w) loc = Inr (Some snap)
    \<and> es_assignment snap = redirected a (lw_version w) \<and> es_current snap = strip (lw_version w) \<and> es_locator snap = loc"
proof -
  let ?b = "redirected a (lw_version w)"
  from live_assignment_index_Some [OF i] obtain su where su: "lw_supervisor w = Some su" "su_mode su = Live"
      "k < length (su_assignments su)" "located loc (su_assignments su ! k)" "record_assignments w = su_assignments su" by blast
  have w': "apply_redirect_delivery loc a (lw_version w) ?b w =
      w\<lparr>lw_supervisor := Some (su\<lparr>su_assignments := (su_assignments su)[k := ?b], su_state := LS_Redirecting\<rparr>)\<rparr>" (is "_ = ?w")
    using su i a by (simp add: apply_redirect_delivery_def)
  have "as_mode ?b = Live" using codex by (simp add: redirected_def claude_transition_mode)
  then have "located loc ?b" using su(4,5) a by (simp add: located_def redirected_fields)
  moreover have "find_index (located loc) (su_assignments su) = Some k"
    using i su by (simp add: live_assignment_index_def)
  ultimately have "live_assignment_index ?w loc = Some k"
    using su(2) by (simp add: live_assignment_index_def find_index_update)
  moreover have "record_assignments ?w ! k = ?b" using su(3) by (simp add: record_assignments_def)
  ultimately have "snapshot_in ?w loc = map_sum id Some (make_snapshot ?w loc ?b)" by (simp only: snapshot_in_def option.case)
  then show ?thesis unfolding w' using ver by (simp add: make_snapshot_def)
qed

context live_repository begin

text \<open>
  What one delivery writes, whatever another writer did in between: nothing, or the workspace as
  the other writer left it with only the assignment that was read, still the same there, moved on.
\<close>

lemma deliver_once_outcome:
  assumes ok: "ok s" "ok (other s)"
    and run: "deliver_redirect_once other get mutate loc run s = (v, t)"
  shows "t = s \<or> t = other s \<or>
    (\<exists>w u k a. get s (lo_workspace loc) = Inr w \<and> live_assignment_index w loc = Some k \<and> a = record_assignments w ! k
       \<and> awaits_redirect a run \<and> get (other s) (lo_workspace loc) = Inr u \<and> ok t
       \<and> (\<forall>j. get t j = (if j = lo_workspace loc
             then Inr (apply_redirect_delivery loc a (lw_version w) (redirected a (lw_version w)) u) else get (other s) j))
       \<and> v = snapshot_in (apply_redirect_delivery loc a (lw_version w) (redirected a (lw_version w)) u) loc)"
proof (cases "get s (lo_workspace loc)")
  case (Inl e)
  then have "t = s" using run by (cases e) (simp_all add: deliver_redirect_once_def)
  then show ?thesis ..
next
  case (Inr w)
  note w = Inr
  show ?thesis
  proof (cases "live_assignment_index w loc")
    case None
    then show ?thesis using run w by (simp add: deliver_redirect_once_def)
  next
    case (Some k)
    let ?a = "record_assignments w ! k"
    let ?f = "apply_redirect_delivery loc ?a (lw_version w) (redirected ?a (lw_version w))"
    show ?thesis
    proof (cases "awaits_redirect ?a run")
      case False
      then show ?thesis using run w Some by (simp add: deliver_redirect_once_def Let_def)
    next
      case True
      obtain x t' where m: "mutate (lo_workspace loc) (\<lambda>v. Inr (?f v)) (other s) = (x, t')" by fastforce
      note out = mutate_outcome [OF ok(2) m]
      show ?thesis
      proof (cases x)
        case (Inl e)
        then have "t = other s" using run w Some True m out by (simp add: deliver_redirect_once_def Let_def)
        then show ?thesis by blast
      next
        case (Inr z)
        then obtain u where u: "get (other s) (lo_workspace loc) = Inr u" "z = ?f u" "ok t'"
            "keeps_others get (other s) (lo_workspace loc) z t'" using out by auto
        have t: "t = t'" "v = snapshot_in z loc"
          using run w Some True m Inr by (simp_all add: deliver_redirect_once_def Let_def)
        then show ?thesis
          using w Some True u by (intro disjI2 exI [of _ w] exI [of _ u] exI [of _ k]) (simp add: keeps_others_def)
      qed
    qed
  qed
qed

lemma delivery_outcome:
  assumes ok: "ok s" "ok (other s)"
    and run: "deliver_redirect_once other get mutate loc run s = (v, t)" and new: "t \<noteq> s"
  shows "(\<forall>j. get t j = get (other s) j) \<or>
    (\<exists>w u su k. get s (lo_workspace loc) = Inr w \<and> get (other s) (lo_workspace loc) = Inr u
       \<and> lw_supervisor u = Some su \<and> live_assignment_index u loc = Some k \<and> awaits_redirect (su_assignments su ! k) run
       \<and> lw_version u = lw_version w
       \<and> (\<forall>j. get t j = (if j = lo_workspace loc
             then Inr (u\<lparr>lw_supervisor := Some (su\<lparr>su_assignments := (su_assignments su)[k := redirected (su_assignments su ! k) (lw_version w)],
                            su_state := LS_Redirecting\<rparr>)\<rparr>)
             else get (other s) j)))"
proof -
  consider (still) "t = other s" | (written) w u k a where "get s (lo_workspace loc) = Inr w" "a = record_assignments w ! k" "awaits_redirect a run"
      "get (other s) (lo_workspace loc) = Inr u"
      "\<forall>j. get t j = (if j = lo_workspace loc
         then Inr (apply_redirect_delivery loc a (lw_version w) (redirected a (lw_version w)) u) else get (other s) j)"
    using deliver_once_outcome [OF ok run] new by blast
  then show ?thesis
  proof cases
    case still
    then show ?thesis by simp
  next
    case (written w u k a)
    note read = written(1,3) and there = written(4) and after = written(5)
    show ?thesis
    proof (rule apply_redirect_delivery_cases [of loc a "lw_version w" "redirected a (lw_version w)" u])
      assume "apply_redirect_delivery loc a (lw_version w) (redirected a (lw_version w)) u = u"
      then have "get t j = get (other s) j" for j using after there by simp
      then show ?thesis by simp
    next
      fix su i
      assume "lw_supervisor u = Some su" "live_assignment_index u loc = Some i" "su_assignments su ! i = a"
        "lw_version u = lw_version w" "apply_redirect_delivery loc a (lw_version w) (redirected a (lw_version w)) u =
           u\<lparr>lw_supervisor := Some (su\<lparr>su_assignments := (su_assignments su)[i := redirected a (lw_version w)],
             su_state := LS_Redirecting\<rparr>)\<rparr>"
      then show ?thesis using read there after
        by (intro disjI2 exI [of _ w] exI [of _ u] exI [of _ su] exI [of _ i]) simp
    qed
  qed
qed

text \<open>Alone, the first attempt moves the assignment on.\<close>

lemma deliver_alone:
  assumes ok: "ok s" and w: "get s (lo_workspace loc) = Inr w" and i: "live_assignment_index w loc = Some k"
    and a: "a = record_assignments w ! k" and aw: "awaits_redirect a run" and codex: "as_provider a \<noteq> Codex"
    and ver: "bounded 1 255 (strip (lw_version w))" and others: "others 2 = id"
  shows "\<exists>t w' snap. mark_redirect_delivered others get mutate loc run s = (Inr (Some snap), t)
    \<and> ok t \<and> keeps_others get s (lo_workspace loc) w' t
    \<and> w' = apply_redirect_delivery loc a (lw_version w) (redirected a (lw_version w)) w
    \<and> es_assignment snap = redirected a (lw_version w) \<and> es_current snap = strip (lw_version w) \<and> es_locator snap = loc"
proof -
  let ?f = "apply_redirect_delivery loc a (lw_version w) (redirected a (lw_version w))"
  obtain snap where snap: "snapshot_in (?f w) loc = Inr (Some snap)" "es_assignment snap = redirected a (lw_version w)"
      "es_current snap = strip (lw_version w)" "es_locator snap = loc"
    using snapshot_after_delivery [OF i a codex ver] by blast
  obtain t where t: "mutate (lo_workspace loc) (\<lambda>v. Inr (?f v)) s = (Inr (?f w), t)" "ok t"
      "keeps_others get s (lo_workspace loc) (?f w) t"
    using mutate_applies [of s "lo_workspace loc" w "\<lambda>v. Inr (?f v)" "?f w"] ok w get_id [OF ok w]
    by (auto simp: apply_redirect_delivery_id)
  have once: "deliver_redirect_once (others 2) get mutate loc run s = (Inr (Some snap), t)"
    using w i a aw t(1) snap(1) others by (simp add: deliver_redirect_once_def Let_def)
  have "\<not> awaits_redirect (es_assignment snap) run" by (simp add: awaits_redirect_def snap(2) redirected_fields)
  then have "mark_redirect_delivered others get mutate loc run s = (Inr (Some snap), t)"
    unfolding mark_redirect_delivered_def redirect_delivery_attempts_def numeral_3_eq_3 deliver_attempts.simps
      bind_op_def using once by (simp add: numeral_2_eq_2)
  then show ?thesis using t snap by blast
qed

end

subsection \<open>What a check can answer\<close>

text \<open>The check up to the assignment it is about.\<close>

lemma check_unregistered:
  assumes "session_get reg (tq_session q) = None"
  shows "\<exists>v. check_session P others get mutate reg q owner_id s = (Inr v, s) \<and> hv_decision v = Deny
    \<and> hv_mode v = Some Until_Registered"
  using assms
  by (auto simp: check_session_def make_verdict_def verdict_of_def Let_def bounded_def strip_def lstrip_def rstrip_def is_space_def)

lemma check_foreign:
  assumes "session_get reg (tq_session q) = Some b" and "sb_owner b \<noteq> owner_id"
  shows "check_session P others get mutate reg q owner_id s = (Inl (ApiFailure 403 ''HOOK_SESSION_NOT_OWNED'' False), s)"
  using assms by (simp add: check_session_def require_owner_def)

lemma check_owner:
  assumes "session_get reg (tq_session q) = Some b" and "check_session P others get mutate reg q owner_id s = (r, t)"
  shows "sb_owner b = owner_id \<or> r = Inl (ApiFailure 403 ''HOOK_SESSION_NOT_OWNED'' False) \<and> t = s"
  using check_foreign [OF assms(1), of owner_id P others get mutate s] assms(2) by auto

lemma check_unresolved:
  assumes "session_get reg (tq_session q) = Some b" and "sb_owner b = owner_id" and "sb_source b = Unresolved_Attachment"
    and "check_session P others get mutate reg q owner_id s = (r, t)"
  shows "t = s \<and> (\<forall>v. r = Inr v \<longrightarrow> hv_decision v = Deny)"
  using assms by (auto simp: check_session_def require_owner_def dest!: make_verdict_Inr)

lemma check_assigned:
  assumes "session_get reg (tq_session q) = Some b" and "sb_owner b = owner_id" and "sb_source b \<noteq> Unresolved_Attachment"
    and "sb_assignment b = Some loc"
  shows "gateway_get get loc s = Inl e \<Longrightarrow> check_session P others get mutate reg q owner_id s = (Inl e, s)"
    and "gateway_get get loc s = Inr None \<Longrightarrow>
      check_session P others get mutate reg q owner_id s = (deny_for_missing_assignment b loc, s)"
    and "\<lbrakk>gateway_get get loc s = Inr (Some snap); as_state (es_assignment snap) \<noteq> AS_Interrupted\<rbrakk> \<Longrightarrow>
      check_session P others get mutate reg q owner_id s =
        (judge b snap (is_acknowledged reg (tq_session q) (interrupt_key P snap)), s)"
    and "\<lbrakk>gateway_get get loc s = Inr (Some snap); as_state (es_assignment snap) = AS_Interrupted;
        clean_optional (as_instruction (es_assignment snap)) = None\<rbrakk> \<Longrightarrow>
      check_session P others get mutate reg q owner_id s =
        (if is_acknowledged reg (tq_session q) (interrupt_key P snap) then allow_acknowledged b snap
         else deny_assignment b snap Until_Acknowledged None None, s)"
    and "\<lbrakk>gateway_get get loc s = Inr (Some snap); as_state (es_assignment snap) = AS_Interrupted;
        clean_optional (as_instruction (es_assignment snap)) = Some i; tq_ack q \<noteq> Some (interrupt_key P snap)\<rbrakk> \<Longrightarrow>
      check_session P others get mutate reg q owner_id s =
        (deny_assignment b snap Until_Acknowledged (Some i) (Some (interrupt_key P snap)), s)"
    and "\<lbrakk>gateway_get get loc s = Inr (Some snap); as_state (es_assignment snap) = AS_Interrupted;
        clean_optional (as_instruction (es_assignment snap)) = Some i; tq_ack q = Some (interrupt_key P snap)\<rbrakk> \<Longrightarrow>
      check_session P others get mutate reg q owner_id s =
        bind_op (mark_redirect_delivered others get mutate (es_locator snap) (as_run (es_assignment snap)))
          (\<lambda>delivered s. case delivered of
             None \<Rightarrow> (deny_for_missing_assignment b loc, s)
           | Some snap' \<Rightarrow> (judge b snap' (is_acknowledged reg (tq_session q) (interrupt_key P snap)), s)) s"
  using assms by (simp_all add: check_session_def require_owner_def Let_def)

text \<open>Why a session may go on.\<close>

definition may_proceed :: "platform \<Rightarrow> session_registry \<Rightarrow> tool_request \<Rightarrow> snapshot \<Rightarrow> bool" where
  "may_proceed P reg q snap \<longleftrightarrow> (let a = es_assignment snap; key = interrupt_key P snap in
     is_acknowledged reg (tq_session q) key
     \<or> (if as_state a = AS_Interrupted then clean_optional (as_instruction a) \<noteq> None \<and> tq_ack q = Some key
        else as_state a = AS_Continuing \<or> as_snapshot a = es_current snap))"

theorem check_permits:
  assumes run: "check_session P others get mutate reg q owner_id s = (Inr v, t)" and v: "hv_decision v = Permit"
  shows "\<exists>b. session_get reg (tq_session q) = Some b \<and> sb_owner b = owner_id \<and> sb_source b \<noteq> Unresolved_Attachment
    \<and> (\<forall>loc. sb_assignment b = Some loc \<longrightarrow>
        (\<exists>snap. gateway_get get loc s = Inr (Some snap) \<and> may_proceed P reg q snap))"
proof (cases "session_get reg (tq_session q)")
  case None
  then show ?thesis using check_unregistered [of reg q P others get mutate owner_id s] run v by auto
next
  case (Some b)
  note b = Some
  have own: "sb_owner b = owner_id" using check_owner [OF b run] by simp
  have src: "sb_source b \<noteq> Unresolved_Attachment" using check_unresolved [OF b own _ run] v by auto
  have "\<exists>snap. gateway_get get loc s = Inr (Some snap) \<and> may_proceed P reg q snap" if loc: "sb_assignment b = Some loc" for loc
  proof -
    note rules = check_assigned [OF b own src loc, where P = P and others = others and get = get and mutate = mutate and s = s]
    show ?thesis
    proof (cases "gateway_get get loc s")
      case (Inl e)
      then show ?thesis using rules(1) run by simp
    next
      case (Inr found)
      show ?thesis
      proof (cases found)
        case None
        then show ?thesis using rules(2) Inr run v deny_decision(2) by fastforce
      next
        case snap: (Some snap)
        have "may_proceed P reg q snap"
        proof (cases "as_state (es_assignment snap) = AS_Interrupted")
          case False
          then show ?thesis using rules(3) Inr snap run v judge_permits [of b snap _ v] by (auto simp: may_proceed_def Let_def)
        next
          case True
          show ?thesis
          proof (cases "clean_optional (as_instruction (es_assignment snap))")
            case None
            then show ?thesis using rules(4) True Inr snap run v deny_decision(1)
              by (fastforce simp: may_proceed_def Let_def split: if_splits)
          next
            case (Some i)
            then show ?thesis using rules(5) [OF _ True Some] True Inr snap run v deny_decision(1)
              by (cases "tq_ack q = Some (interrupt_key P snap)") (fastforce simp: may_proceed_def Let_def)+
          qed
        qed
        then show ?thesis using Inr snap by simp
      qed
    qed
  qed
  then show ?thesis using b own src by blast
qed

text \<open>A check writes only when the hook echoes the redirect of the present interrupt.\<close>

theorem check_reads_only:
  assumes run: "check_session P others get mutate reg q owner_id s = (r, t)" and "t \<noteq> s"
  shows "\<exists>b loc snap i. session_get reg (tq_session q) = Some b \<and> sb_owner b = owner_id \<and> sb_assignment b = Some loc
    \<and> gateway_get get loc s = Inr (Some snap) \<and> as_state (es_assignment snap) = AS_Interrupted
    \<and> clean_optional (as_instruction (es_assignment snap)) = Some i \<and> tq_ack q = Some (interrupt_key P snap)"
proof (cases "session_get reg (tq_session q)")
  case None
  then show ?thesis using check_unregistered [of reg q P others get mutate owner_id s] assms by auto
next
  case (Some b)
  note b = Some
  have own: "sb_owner b = owner_id" using check_owner [OF b run] assms(2) by simp
  have src: "sb_source b \<noteq> Unresolved_Attachment" using check_unresolved [OF b own _ run] assms(2) by auto
  obtain loc where loc: "sb_assignment b = Some loc"
    using assms b own src by (cases "sb_assignment b") (auto simp: check_session_def require_owner_def)
  note rules = check_assigned [OF b own src loc, where P = P and others = others and get = get and mutate = mutate and s = s]
  obtain found where found: "gateway_get get loc s = Inr found"
    using rules(1) assms by (cases "gateway_get get loc s") auto
  obtain snap where snap: "gateway_get get loc s = Inr (Some snap)"
    using rules(2) assms found by (cases found) auto
  have st: "as_state (es_assignment snap) = AS_Interrupted" using rules(3) [OF snap] assms by auto
  obtain i where i: "clean_optional (as_instruction (es_assignment snap)) = Some i"
    using rules(4) [OF snap st] assms by (cases "clean_optional (as_instruction (es_assignment snap))") auto
  have "tq_ack q = Some (interrupt_key P snap)" using rules(5) [OF snap st i] assms by auto
  then show ?thesis using b own loc snap st i by blast
qed

text \<open>
  Alone on the store, the echo moves the assignment on to the current version, which the session
  may then use; no other workspace changes.
\<close>

context live_repository begin

lemma check_confirms:
  assumes ok: "ok s" and b: "session_get reg (tq_session q) = Some b" "sb_owner b = owner_id"
      "sb_source b \<noteq> Unresolved_Attachment" "sb_assignment b = Some loc"
    and w: "get s (lo_workspace loc) = Inr w" and i: "live_assignment_index w loc = Some k"
    and a: "a = record_assignments w ! k" and int: "as_state a = AS_Interrupted" "as_provider a \<noteq> Codex"
    and ins: "clean_optional (as_instruction a) \<noteq> None"
    and ver: "bounded 1 255 (lw_version w)" "strip (lw_version w) = lw_version w"
    and ack: "\<forall>snap. snapshot_in w loc = Inr (Some snap) \<longrightarrow> tq_ack q = Some (interrupt_key P snap)"
    and others: "others 2 = id"
  shows "\<exists>r t. check_session P others get mutate reg q owner_id s = (r, t) \<and> ok t
    \<and> keeps_others get s (lo_workspace loc)
        (apply_redirect_delivery loc a (lw_version w) (redirected a (lw_version w)) w) t
    \<and> (\<forall>v. r = Inr v \<longrightarrow> hv_decision v = Permit)"
proof -
  have ver': "bounded 1 255 (strip (lw_version w))" using ver by simp
  obtain snap where snap: "snapshot_in w loc = Inr (Some snap)" "es_assignment snap = a" "es_locator snap = loc"
    using i a ver' by (auto simp: snapshot_in_def make_snapshot_def)
  then have g: "gateway_get get loc s = Inr (Some snap)" using w by (simp add: gateway_get_def)
  obtain ins' where ins': "clean_optional (as_instruction (es_assignment snap)) = Some ins'" using ins snap(2) by auto
  have aw: "awaits_redirect a (as_run a)" using int by (simp add: awaits_redirect_def)
  obtain t snap' where t: "mark_redirect_delivered others get mutate loc (as_run a) s = (Inr (Some snap'), t)" "ok t"
      "keeps_others get s (lo_workspace loc) (apply_redirect_delivery loc a (lw_version w) (redirected a (lw_version w)) w) t"
      "es_assignment snap' = redirected a (lw_version w)" "es_current snap' = strip (lw_version w)"
    using deliver_alone [where others = others, OF ok w i a aw int(2) ver' others] by blast
  have "check_session P others get mutate reg q owner_id s =
      (judge b snap' (is_acknowledged reg (tq_session q) (interrupt_key P snap)), t)"
    using check_assigned(6) [OF b g _ ins', of P others mutate] int snap ack t(1)
    by (simp add: bind_op_def)
  then show ?thesis using t ver(2) judge_permits [of b snap'] by (auto simp: redirected_fields)
qed

end

text \<open>
  Registering a session does not ask who registered it before: another developer takes the
  session over, and its first owner is refused from then on.
\<close>

theorem start_takes_over:
  assumes "start_session F now records sid cwd branch owner_id s r = (Inr b, r')" and "strip owner_id = owner_id"
  shows "session_get r' sid = Some b \<and> sb_owner b = owner_id"
proof -
  obtain cands where run: "register F now sid cwd branch cands owner_id r = (Inr b, r')"
    using assms(1) by (auto simp: start_session_def split: sum.splits)
  then show ?thesis
  proof (cases rule: register_cases)
    case (binds b' dir targets)
    then show ?thesis
      using resolve_binding_rule [OF binds(5)] assms(2) by (simp add: session_get_def dict_simps)
  qed simp
qed

end
