(* ===== verification/Interrupt.thy ===== *)
theory Interrupt
  imports Repository
begin

text \<open>
  The interrupt ports an approved change goes through: \<^verbatim>\<open>supervisor_contract.py\<close> (the request,
  the result, the null port), \<^verbatim>\<open>workspaces/live_interrupt.py\<close> (live sessions, any overlap of
  scopes) and \<^verbatim>\<open>workspaces/interrupt_port.py\<close> (the engine's report, or its validity rule before
  there is a report). A port works on a workspace store through \<open>get\<close> and \<open>save\<close>, which are
  arguments here, as the repository is in the code; the laws are proved once over the locale
  \<open>live_repository\<close> and hold of both stores. A port call runs alone, as under its lock.
\<close>

subsection \<open>The contract\<close>

record interrupt_request =
  iq_workspace :: string
  iq_decision :: string
  iq_scopes :: scopes
  iq_path :: "string list"
  iq_reason :: string
  iq_instruction :: string

record interrupt_result =
  ix_interrupted :: "string list"
  ix_preserved :: "string list"

definition null_preview :: "interrupt_request \<Rightarrow> 's \<Rightarrow> interrupt_result result" where
  "null_preview q s = Inr \<lparr>ix_interrupted = [], ix_preserved = []\<rparr>"

definition null_interrupt :: "interrupt_request \<Rightarrow> ('s, interrupt_result) op" where
  "null_interrupt q = ret_op \<lparr>ix_interrupted = [], ix_preserved = []\<rparr>"

subsection \<open>The live port\<close>

definition request_fingerprint :: "platform \<Rightarrow> interrupt_request \<Rightarrow> string" where
  "request_fingerprint P q = stable_hash P (PDict
     [(''workspace_id'', PStr (iq_workspace q)), (''decision_id'', PStr (iq_decision q)),
      (''affected_scopes'', PList (map PStr (sorted_list_of_set (iq_scopes q)))),
      (''provenance_path'', PList (map PStr (iq_path q))),
      (''interrupt_reason'', PStr (iq_reason q)), (''redirect_instruction'', PStr (iq_instruction q))])"

definition live_partition :: "assignment list \<Rightarrow> interrupt_request \<Rightarrow> interrupt_result" where
  "live_partition as q = (let active = filter (\<lambda>a. as_mode a = Live \<and> as_state a \<noteq> AS_Completed) as in
     \<lparr>ix_interrupted = sort (map as_id (filter (\<lambda>a. as_scopes a \<inter> iq_scopes q \<noteq> {}) active)),
      ix_preserved = sort (map as_id (filter (\<lambda>a. as_scopes a \<inter> iq_scopes q = {}) active))\<rparr>)"

text \<open>A stored value that should be a list of strings.\<close>

definition string_list :: "pyval option \<Rightarrow> string list result" where
  "string_list v = (case v of
     Some (PList xs) \<Rightarrow> map_r (\<lambda>x. case x of PStr t \<Rightarrow> Inr t
         | _ \<Rightarrow> Inl (RuntimeError ''the persisted interrupt record is malformed'')) xs
   | _ \<Rightarrow> Inl (RuntimeError ''the persisted interrupt record is malformed''))"

definition enforced_event :: string where
  "enforced_event = ''supervisor.interrupt.enforced''"

text \<open>The history from its newest event on.\<close>

fun completed_interrupt ::
  "platform \<Rightarrow> interrupt_request \<Rightarrow> workspace_event list \<Rightarrow> interrupt_result option result"
where
  "completed_interrupt P q [] = Inr None"
| "completed_interrupt P q (ev # evs) =
     (if we_type ev \<noteq> enforced_event \<or> dict_get (we_data ev) ''decision_id'' \<noteq> Some (PStr (iq_decision q))
      then completed_interrupt P q evs
      else if dict_get (we_data ev) ''request_fingerprint'' \<noteq> Some (PStr (request_fingerprint P q)) then
        Inl (ValueError ''the decision ID was already used for a different interrupt'')
      else bind_r (string_list (dict_get (we_data ev) ''interrupted_assignment_ids'')) (\<lambda>xs.
           bind_r (string_list (dict_get (we_data ev) ''preserved_assignment_ids'')) (\<lambda>ys.
           Inr (Some \<lparr>ix_interrupted = xs, ix_preserved = ys\<rparr>))))"

definition live_supervisor :: "live_record \<Rightarrow> supervisor result" where
  "live_supervisor w = (case lw_supervisor w of
     None \<Rightarrow> Inl (RuntimeError ''the workspace is not bound to the live Claude Code runtime'')
   | Some su \<Rightarrow> if su_mode su = Live then Inr su
       else Inl (RuntimeError ''the workspace is not bound to the live Claude Code runtime''))"

definition interrupt_args :: "interrupt_request \<Rightarrow> string list \<Rightarrow> transition_args" where
  "interrupt_args q path = (to_state AS_Interrupted)\<lparr>ta_reason := Some (iq_reason q),
     ta_instruction := Some (iq_instruction q), ta_path := Some path, ta_enforced := Some True\<rparr>"

definition live_change :: "interrupt_request \<Rightarrow> interrupt_result \<Rightarrow> assignment \<Rightarrow> assignment" where
  "live_change q res a =
     (if as_id a \<in> set (ix_interrupted res) then claude_transition (interrupt_args q (iq_path q)) a
      else if as_id a \<in> set (ix_preserved res) \<and> as_state a = AS_Running
      then claude_transition (to_state AS_Continuing) a else a)"

definition interrupt_event ::
  "platform \<Rightarrow> datetime \<Rightarrow> interrupt_request \<Rightarrow> interrupt_result \<Rightarrow> int \<Rightarrow> workspace_event"
where
  "interrupt_event P now q res n =
     \<lparr>we_sequence = n, we_type = enforced_event,
      we_detail = ''Decision '' @ iq_decision q @ '' interrupted '' @ show_nat (card (set (ix_interrupted res)))
        @ '' live Claude Code assignments and preserved '' @ show_nat (card (set (ix_preserved res))) @ ''.'',
      we_created = now, we_actor = None,
      we_data = [(''decision_id'', PStr (iq_decision q)), (''request_fingerprint'', PStr (request_fingerprint P q)),
        (''interrupted_assignment_ids'', PList (map PStr (ix_interrupted res))),
        (''preserved_assignment_ids'', PList (map PStr (ix_preserved res)))]\<rparr>"

definition live_recorded ::
  "platform \<Rightarrow> datetime \<Rightarrow> interrupt_request \<Rightarrow> live_record \<Rightarrow> supervisor \<Rightarrow> interrupt_result \<times> live_record"
where
  "live_recorded P now q w su =
     (let res = live_partition (su_assignments su) q;
          su1 = su\<lparr>su_assignments := map (live_change q res) (su_assignments su)\<rparr>;
          su2 = (if ix_interrupted res \<noteq> [] then su1\<lparr>su_state := LS_Interrupting\<rparr> else su1)
      in (res, w\<lparr>lw_supervisor := Some su2,
        lw_history := lw_history w @ [interrupt_event P now q res (int (length (lw_history w)) + 1)]\<rparr>))"

definition live_preview ::
  "('s \<Rightarrow> string \<Rightarrow> live_record result) \<Rightarrow> interrupt_request \<Rightarrow> 's \<Rightarrow> interrupt_result result"
where
  "live_preview get q s =
     bind_r (get s (iq_workspace q)) (\<lambda>w. bind_r (live_supervisor w) (\<lambda>su.
     Inr (live_partition (su_assignments su) q)))"

definition live_interrupt ::
  "platform \<Rightarrow> datetime \<Rightarrow> ('s \<Rightarrow> string \<Rightarrow> live_record result) \<Rightarrow> (live_record \<Rightarrow> ('s, unit) op)
    \<Rightarrow> interrupt_request \<Rightarrow> ('s, interrupt_result) op"
where
  "live_interrupt P now get save q =
     (if iq_scopes q = {} then raise_op (ValueError ''an interrupt must carry at least one affected scope'')
      else bind_op (read_op (\<lambda>s. get s (iq_workspace q))) (\<lambda>w.
        bind_op (read_op (\<lambda>_. completed_interrupt P q (rev (lw_history w)))) (\<lambda>completed.
        case completed of Some res \<Rightarrow> ret_op res | None \<Rightarrow>
          bind_op (read_op (\<lambda>_. live_supervisor w)) (\<lambda>su.
          let (res, w') = live_recorded P now q w su in
          bind_op (save w') (\<lambda>_. ret_op res)))))"

subsection \<open>The workspace port\<close>

definition report_for :: "live_record \<Rightarrow> string \<Rightarrow> invalidation_report option" where
  "report_for w d = (case lw_report w of
     None \<Rightarrow> None | Some rep \<Rightarrow> if rep_changed rep \<noteq> d then None else Some rep)"

definition stops_work :: "assignment \<Rightarrow> scopes \<Rightarrow> invalidation_report option \<Rightarrow> scopes \<Rightarrow> bool" where
  "stops_work a A report earlier = (case report of
     Some rep \<Rightarrow> as_task a \<in> set (rep_invalidated_tasks rep)
   | None \<Rightarrow> as_scopes a \<noteq> {} \<and> as_scopes a \<subseteq> A \<union> earlier)"

definition already_invalidated :: "supervisor option \<Rightarrow> string \<Rightarrow> scopes" where
  "already_invalidated su d = (case su of None \<Rightarrow> {}
     | Some su \<Rightarrow> (\<Union>e\<in>set (filter (\<lambda>e. ai_decision e \<noteq> d) (su_interrupts su)). set (ai_scopes e)))"

definition interruptible_states :: "assignment_state set" where
  "interruptible_states = {AS_Running, AS_Continuing}"

definition port_hit :: "scopes \<Rightarrow> invalidation_report option \<Rightarrow> scopes \<Rightarrow> assignment \<Rightarrow> bool" where
  "port_hit A report earlier a \<longleftrightarrow> stops_work a A report earlier
     \<and> (as_state a \<in> interruptible_states \<or> as_state a = AS_Interrupted)"

definition port_partition ::
  "supervisor option \<Rightarrow> scopes \<Rightarrow> invalidation_report option \<Rightarrow> scopes \<Rightarrow> interrupt_result"
where
  "port_partition su A report earlier = (case su of
     None \<Rightarrow> \<lparr>ix_interrupted = [], ix_preserved = []\<rparr>
   | Some su \<Rightarrow>
       \<lparr>ix_interrupted = sort (map as_id (filter (port_hit A report earlier) (su_assignments su))),
        ix_preserved = sort (map as_id (filter (\<lambda>a. \<not> port_hit A report earlier a) (su_assignments su)))\<rparr>)"

text \<open>The longest path through the task, the first of equally long ones.\<close>

definition provenance_for :: "assignment \<Rightarrow> invalidation_report option \<Rightarrow> string list \<Rightarrow> string list" where
  "provenance_for a report fallback = (case report of
     None \<Rightarrow> fallback
   | Some rep \<Rightarrow>
       (let selected = fold (\<lambda>p sel. if as_task a \<in> set (path_nodes p) \<and> length (path_nodes p) > length sel
                                   then path_nodes p else sel) (rep_paths rep) []
        in if selected \<noteq> [] then selected else fallback))"

text \<open>\<open>repr\<close> of a list of strings.\<close>

definition repr_strings :: "string list \<Rightarrow> string" where
  "repr_strings xs = ''['' @ join '', '' (map py_repr xs) @ '']''"

fun recorded_entry :: "interrupt_request \<Rightarrow> applied_interrupt list \<Rightarrow> interrupt_result option result" where
  "recorded_entry q [] = Inr None"
| "recorded_entry q (e # es) =
     (if ai_decision e \<noteq> iq_decision q then recorded_entry q es
      else if set (ai_scopes e) \<noteq> iq_scopes q then
        Inl (ValueError (''decision '' @ iq_decision q @ '' was already applied with scopes ''
          @ repr_strings (sort (ai_scopes e)) @ ''; refusing to replay it for ''
          @ repr_strings (sorted_list_of_set (iq_scopes q))))
      else Inr (Some \<lparr>ix_interrupted = ai_interrupted e, ix_preserved = ai_preserved e\<rparr>))"

definition recorded :: "supervisor option \<Rightarrow> interrupt_request \<Rightarrow> interrupt_result option result" where
  "recorded su q = (case su of None \<Rightarrow> Inr None | Some su \<Rightarrow> recorded_entry q (su_interrupts su))"

definition port_result :: "live_record \<Rightarrow> interrupt_request \<Rightarrow> interrupt_result" where
  "port_result w q = port_partition (lw_supervisor w) (iq_scopes q) (report_for w (iq_decision q))
     (already_invalidated (lw_supervisor w) (iq_decision q))"

fun adapter_name :: "runtime_adapter \<Rightarrow> string" where
  "adapter_name Fixture_Runtime = ''fixture-agent-runtime''"
| "adapter_name Claude_Hook_Runtime = ''claude-code-hook-runtime''"

text \<open>A runtime: its transition, its name and its mode.\<close>

record port_runtime =
  pr_transition :: "transition_args \<Rightarrow> assignment \<Rightarrow> assignment"
  pr_adapter :: runtime_adapter
  pr_mode :: execution_mode

definition port_apply ::
  "port_runtime \<Rightarrow> interrupt_request \<Rightarrow> interrupt_result \<Rightarrow> live_record \<Rightarrow> live_record result"
where
  "port_apply R q res w = (case lw_supervisor w of
     None \<Rightarrow> Inr w
   | Some su \<Rightarrow>
       (let report = report_for w (iq_decision q);
            su1 = su\<lparr>su_assignments := map (\<lambda>a. if as_id a \<in> set (ix_interrupted res)
                  then pr_transition R (interrupt_args q (provenance_for a report (iq_path q))) a
                  else a) (su_assignments su),
              su_interrupts := su_interrupts su @ [\<lparr>ai_decision = iq_decision q,
                  ai_interrupted = ix_interrupted res, ai_preserved = ix_preserved res,
                  ai_scopes = sorted_list_of_set (iq_scopes q)\<rparr>]\<rparr>
        in if ix_interrupted res = [] then Inr (w\<lparr>lw_supervisor := Some su1\<rparr>)
           else if pr_adapter R \<noteq> Claude_Hook_Runtime then
             Inl (ValueError (''cannot label supervisor live: unrepresentable adapter ''
               @ py_repr (adapter_name (pr_adapter R))))
           else Inr (w\<lparr>lw_supervisor := Some (su1\<lparr>su_state := LS_Interrupting,
                        su_adapter := Claude_Hook_Runtime, su_mode := pr_mode R\<rparr>)\<rparr>)))"

definition port_preview ::
  "('s \<Rightarrow> string \<Rightarrow> live_record result) \<Rightarrow> interrupt_request \<Rightarrow> 's \<Rightarrow> interrupt_result result"
where
  "port_preview get q s =
     bind_r (get s (iq_workspace q)) (\<lambda>w. bind_r (recorded (lw_supervisor w) q) (\<lambda>old.
     Inr (case old of Some res \<Rightarrow> res | None \<Rightarrow> port_result w q)))"

definition port_interrupt ::
  "port_runtime \<Rightarrow> ('s \<Rightarrow> string \<Rightarrow> live_record result) \<Rightarrow> (live_record \<Rightarrow> ('s, unit) op)
    \<Rightarrow> interrupt_request \<Rightarrow> ('s, interrupt_result) op"
where
  "port_interrupt R get save q =
     bind_op (read_op (\<lambda>s. get s (iq_workspace q))) (\<lambda>w.
     bind_op (read_op (\<lambda>_. recorded (lw_supervisor w) q)) (\<lambda>old.
     case old of Some res \<Rightarrow> ret_op res | None \<Rightarrow>
       (let res = port_result w q in
        bind_op (read_op (\<lambda>_. port_apply R q res w)) (\<lambda>w'.
        bind_op (save w') (\<lambda>_. ret_op res)))))"

subsection \<open>A port over a store\<close>

text \<open>
  Both ports have the shape of a read of one workspace, a decision on the record that was read
  (raise, return, or return and save), and the save. The environment of a call (the clock of the
  live port) may differ from call to call.
\<close>

definition at_workspace ::
  "('s \<Rightarrow> string \<Rightarrow> live_record result) \<Rightarrow> (live_record \<Rightarrow> ('s, unit) op)
    \<Rightarrow> ('e \<Rightarrow> interrupt_request \<Rightarrow> live_record result \<Rightarrow> (interrupt_result \<times> live_record option) result)
    \<Rightarrow> 'e \<Rightarrow> interrupt_request \<Rightarrow> ('s, interrupt_result) op"
where
  "at_workspace get save step e q =
     bind_op (read_op (\<lambda>s. step e q (get s (iq_workspace q)))) (\<lambda>(res, new).
     case new of None \<Rightarrow> ret_op res | Some w \<Rightarrow> bind_op (save w) (\<lambda>_. ret_op res))"

definition live_step ::
  "platform \<Rightarrow> datetime \<Rightarrow> interrupt_request \<Rightarrow> live_record result \<Rightarrow> (interrupt_result \<times> live_record option) result"
where
  "live_step P now q v =
     (if iq_scopes q = {} then Inl (ValueError ''an interrupt must carry at least one affected scope'')
      else bind_r v (\<lambda>w. bind_r (completed_interrupt P q (rev (lw_history w))) (\<lambda>completed.
        case completed of Some res \<Rightarrow> Inr (res, None) | None \<Rightarrow>
          bind_r (live_supervisor w) (\<lambda>su. Inr (map_prod id Some (live_recorded P now q w su))))))"

definition port_step ::
  "port_runtime \<Rightarrow> unit \<Rightarrow> interrupt_request \<Rightarrow> live_record result \<Rightarrow> (interrupt_result \<times> live_record option) result"
where
  "port_step R e q v =
     bind_r v (\<lambda>w. bind_r (recorded (lw_supervisor w) q) (\<lambda>old.
       case old of Some res \<Rightarrow> Inr (res, None) | None \<Rightarrow>
         bind_r (port_apply R q (port_result w q) w) (\<lambda>w'. Inr (port_result w q, Some w'))))"

lemma live_interrupt_step: "live_interrupt P now get save q = at_workspace get save (live_step P) now q"
  by (auto simp: fun_eq_iff live_interrupt_def at_workspace_def live_step_def bind_op_def bind_r_def Let_def
      map_prod_def split: sum.splits option.splits prod.splits)

lemma port_interrupt_step: "port_interrupt R get save q = at_workspace get save (port_step R) () q"
  by (auto simp: fun_eq_iff port_interrupt_def at_workspace_def port_step_def bind_op_def bind_r_def Let_def
      split: sum.splits option.splits prod.splits)

text \<open>What a step on a record promises: an answer that was given stands, whatever comes after it.\<close>

locale workspace_port = live_repository ok get create save mutate
  for ok :: "'s \<Rightarrow> bool" and get create save mutate +
  fixes step :: "'e \<Rightarrow> interrupt_request \<Rightarrow> live_record result \<Rightarrow> (interrupt_result \<times> live_record option) result"
    and settled :: "interrupt_request \<Rightarrow> interrupt_result \<Rightarrow> live_record \<Rightarrow> bool"
  assumes step_read: "\<exists>e'. step e q (Inl x) = Inl e'"
    and step_settles: "\<lbrakk>finite (iq_scopes q); step e q (Inr w) = Inr (r, new)\<rbrakk> \<Longrightarrow>
      settled q r (case new of None \<Rightarrow> w | Some w' \<Rightarrow> w')"
    and step_id: "step e q (Inr w) = Inr (r, Some w') \<Longrightarrow> lw_id w' = lw_id w"
    and settled_again: "settled q r w \<Longrightarrow> \<exists>new. step e q (Inr w) = Inr (r, new) \<and> (new = None \<or> new = Some w)"
    and settled_kept: "\<lbrakk>settled q r w; step e q' (Inr w) = Inr (r', Some w')\<rbrakk> \<Longrightarrow> settled q r w'"
begin

lemma interrupt_outcome:
  assumes ok: "ok s" and run: "at_workspace get save step e q s = (r, t)"
  shows "case r of
      Inl x \<Rightarrow> t = s
    | Inr res \<Rightarrow> ok t \<and> (\<exists>w new. get s (iq_workspace q) = Inr w \<and> step e q (Inr w) = Inr (res, new)
        \<and> (case new of None \<Rightarrow> t = s | Some w' \<Rightarrow> keeps_others get s (iq_workspace q) w' t))"
proof (cases "step e q (get s (iq_workspace q))")
  case (Inl x)
  then show ?thesis using run by (auto simp: at_workspace_def bind_op_def)
next
  case (Inr p)
  obtain res new where p: "p = (res, new)" by (cases p)
  obtain w where w: "get s (iq_workspace q) = Inr w"
    using step_read [of e q] Inr by (cases "get s (iq_workspace q)") (metis sum.distinct(1), blast)
  show ?thesis
  proof (cases new)
    case None
    then show ?thesis using run Inr p w ok by (auto simp: at_workspace_def bind_op_def)
  next
    case (Some w')
    have id: "lw_id w' = iq_workspace q"
      using step_id Inr p Some w get_id [OF ok w] by metis
    obtain t' where t': "save w' s = (Inr (), t')" "ok t'" "keeps_others get s (iq_workspace q) w' t'"
      using save_known [of s w'] ok w id by auto
    have "r = Inr res" "t = t'"
      using run Inr p Some t'(1) by (auto simp: at_workspace_def bind_op_def)
    then show ?thesis using t' w Inr p Some by auto
  qed
qed

lemma interrupt_cases:
  assumes "ok s" and "at_workspace get save step e q s = (r, t)"
  obtains (raises) x where "r = Inl x" "t = s"
  | (reads) res w where "r = Inr res" "t = s" "get s (iq_workspace q) = Inr w" "step e q (Inr w) = Inr (res, None)"
  | (writes) res w w' where "r = Inr res" "ok t" "get s (iq_workspace q) = Inr w" "step e q (Inr w) = Inr (res, Some w')"
      "get t (iq_workspace q) = Inr w'" "\<And>j. j \<noteq> iq_workspace q \<Longrightarrow> get t j = get s j"
proof (cases r)
  case (Inl x)
  then show ?thesis using interrupt_outcome [OF assms] raises by simp
next
  case (Inr res)
  then obtain w new where w: "ok t" "get s (iq_workspace q) = Inr w" "step e q (Inr w) = Inr (res, new)"
      "case new of None \<Rightarrow> t = s | Some w' \<Rightarrow> keeps_others get s (iq_workspace q) w' t"
    using interrupt_outcome [OF assms] by auto
  show ?thesis
  proof (cases new)
    case None
    then show ?thesis using reads [OF Inr] w by simp
  next
    case (Some w')
    then have k: "get t j = (if j = iq_workspace q then Inr w' else get s j)" for j
      using w(4) by (simp add: keeps_others_def)
    show ?thesis using w(3) Some by (intro writes [OF Inr w(1,2)]) (simp_all add: k)
  qed
qed

lemma interrupt_ok:
  assumes "ok s" and "at_workspace get save step e q s = (r, t)"
  shows "ok t"
  using assms by (cases rule: interrupt_cases) (use assms(1) in simp_all)

lemma interrupt_other:
  "\<lbrakk>ok s; at_workspace get save step e q s = (r, t); j \<noteq> iq_workspace q\<rbrakk> \<Longrightarrow> get t j = get s j"
  by (erule (1) interrupt_cases) simp_all

lemma interrupt_fails_clean: "\<lbrakk>ok s; at_workspace get save step e q s = (Inl x, t)\<rbrakk> \<Longrightarrow> t = s"
  by (erule (1) interrupt_cases) simp_all

text \<open>An answer stands: \<open>answered q r s\<close> survives every later call.\<close>

definition answered :: "interrupt_request \<Rightarrow> interrupt_result \<Rightarrow> 's \<Rightarrow> bool" where
  "answered q r s \<longleftrightarrow> ok s \<and> (\<exists>w. get s (iq_workspace q) = Inr w \<and> settled q r w)"

lemma interrupt_answers:
  assumes ok: "ok s" and fin: "finite (iq_scopes q)" and run: "at_workspace get save step e q s = (Inr r, t)"
  shows "answered q r t"
  using ok run
proof (cases rule: interrupt_cases)
  case (reads res w)
  then show ?thesis using step_settles [OF fin, of e w r None] ok by (simp add: answered_def)
next
  case (writes res w w')
  then show ?thesis using step_settles [OF fin, of e w r "Some w'"] by (simp add: answered_def)
qed simp

lemma answered_kept:
  assumes a: "answered q r s" and run: "at_workspace get save step e q' s = (x, t)"
  shows "answered q r t"
proof -
  from a obtain w0 where w0: "ok s" "get s (iq_workspace q) = Inr w0" "settled q r w0" by (auto simp: answered_def)
  from w0(1) run show ?thesis
  proof (cases rule: interrupt_cases)
    case (writes res w w')
    show ?thesis
    proof (cases "iq_workspace q' = iq_workspace q")
      case True
      then have "settled q r w'" using writes(3,4) w0 by (intro settled_kept [OF w0(3)]) simp
      then show ?thesis using writes(2,5) True by (simp add: answered_def)
    next
      case False
      then show ?thesis using w0 writes(2) writes(6) [of "iq_workspace q"] by (simp add: answered_def)
    qed
  qed (use a in simp_all)
qed

lemma answered_again:
  assumes "answered q r s"
  shows "\<exists>t. at_workspace get save step e q s = (Inr r, t) \<and> (\<forall>j. get t j = get s j)"
proof -
  from assms obtain w where w: "ok s" "get s (iq_workspace q) = Inr w" "settled q r w" by (auto simp: answered_def)
  from settled_again [OF w(3), of e] obtain new where new: "step e q (Inr w) = Inr (r, new)" "new = None \<or> new = Some w"
    by blast
  show ?thesis
  proof (cases new)
    case None
    then show ?thesis using new w(2) by (simp add: at_workspace_def bind_op_def)
  next
    case (Some w')
    obtain t where t: "save w s = (Inr (), t)" "keeps_others get s (lw_id w) w t"
      using save_known [of s w] w(1,2) get_id [OF w(1,2)] by auto
    then have "get t j = get s j" for j using w(2) get_id [OF w(1,2)] by (simp add: keeps_others_def)
    then show ?thesis using Some new w(2) t(1) by (simp add: at_workspace_def bind_op_def)
  qed
qed

text \<open>A retry after any calls, to any workspace and at any time, gets the first answer and changes nothing.\<close>

theorem retry_gets_first_answer:
  assumes "ok s" and "finite (iq_scopes q)" and "at_workspace get save step e q s = (Inr r, t)"
  shows "\<exists>v. at_workspace get save step e' q (fold (\<lambda>(e, q) s. snd (at_workspace get save step e q s)) calls t) = (Inr r, v)
    \<and> (\<forall>j. get v j = get (fold (\<lambda>(e, q) s. snd (at_workspace get save step e q s)) calls t) j)"
proof -
  have "answered q r (fold (\<lambda>(e, q) s. snd (at_workspace get save step e q s)) calls u)" if "answered q r u" for u
    using that
  proof (induction calls arbitrary: u)
    case (Cons c calls)
    have "answered q r (snd (at_workspace get save step (fst c) (snd c) u))"
      by (rule answered_kept [OF Cons.prems prod.collapse [symmetric]])
    then show ?case using Cons.IH by (simp add: case_prod_beta)
  qed simp
  then show ?thesis using answered_again interrupt_answers [OF assms] by blast
qed

end

subsection \<open>The workspace port gives standing answers\<close>

lemma recorded_entry_append:
  "recorded_entry q (es @ [e]) = (case recorded_entry q es of Inr None \<Rightarrow> recorded_entry q [e] | r \<Rightarrow> r)"
  by (induction es) (auto split: sum.splits option.splits)

lemma recorded_entry_None: "recorded_entry q es = Inr None \<longleftrightarrow> (\<forall>e\<in>set es. ai_decision e \<noteq> iq_decision q)"
  by (induction es) auto

lemma port_apply_interrupts:
  assumes "port_apply R q res w = Inr w'"
  shows "lw_id w' = lw_id w \<and> (case lw_supervisor w of None \<Rightarrow> w' = w
    | Some su \<Rightarrow> \<exists>su'. lw_supervisor w' = Some su' \<and> su_interrupts su' = su_interrupts su @
        [\<lparr>ai_decision = iq_decision q, ai_interrupted = ix_interrupted res, ai_preserved = ix_preserved res,
          ai_scopes = sorted_list_of_set (iq_scopes q)\<rparr>])"
  using assms by (auto simp: port_apply_def Let_def split: option.splits if_splits)

definition port_settled :: "interrupt_request \<Rightarrow> interrupt_result \<Rightarrow> live_record \<Rightarrow> bool" where
  "port_settled q r w \<longleftrightarrow> (case lw_supervisor w of
     None \<Rightarrow> r = \<lparr>ix_interrupted = [], ix_preserved = []\<rparr>
   | Some su \<Rightarrow> recorded_entry q (su_interrupts su) = Inr (Some r))"

lemma port_step_cases:
  assumes "port_step R e q (Inr w) = Inr (r, new)"
  obtains (old) "recorded (lw_supervisor w) q = Inr (Some r)" "new = None"
  | (new) w' where "recorded (lw_supervisor w) q = Inr None" "r = port_result w q" "port_apply R q r w = Inr w'" "new = Some w'"
proof -
  from assms obtain v where v: "recorded (lw_supervisor w) q = Inr v" by (auto simp: port_step_def)
  show ?thesis
  proof (cases v)
    case None
    with assms v obtain w' where "port_apply R q (port_result w q) w = Inr w'" "r = port_result w q" "new = Some w'"
      by (auto simp: port_step_def)
    with v None show ?thesis by (intro new) simp_all
  next
    case (Some res)
    with assms v show ?thesis by (intro old) (simp_all add: port_step_def)
  qed
qed

lemma port_settled_step:
  assumes "finite (iq_scopes q)" and "port_step R e q (Inr w) = Inr (r, new)"
  shows "port_settled q r (case new of None \<Rightarrow> w | Some w' \<Rightarrow> w')"
  using assms(2)
proof (cases rule: port_step_cases)
  case old
  then show ?thesis by (auto simp: port_settled_def recorded_def split: option.splits)
next
  case (new w')
  show ?thesis
  proof (cases "lw_supervisor w")
    case None
    then show ?thesis using new port_apply_interrupts [OF new(3)]
      by (auto simp: port_settled_def port_result_def port_partition_def)
  next
    case (Some su)
    then show ?thesis using new port_apply_interrupts [OF new(3)] assms(1)
      by (auto simp: port_settled_def recorded_def recorded_entry_append)
  qed
qed

lemma port_settled_again:
  assumes "port_settled q r w"
  shows "\<exists>new. port_step R e q (Inr w) = Inr (r, new) \<and> (new = None \<or> new = Some w)"
  using assms
  by (auto simp: port_settled_def port_step_def recorded_def port_result_def port_partition_def port_apply_def
      split: option.splits)

lemma port_settled_kept:
  assumes s: "port_settled q r w" and run: "port_step R e q' (Inr w) = Inr (r', Some w')"
  shows "port_settled q r w'"
  using run
proof (cases rule: port_step_cases)
  case (new v)
  then have v: "port_apply R q' r' w = Inr w'" by simp
  from s port_apply_interrupts [OF v] show ?thesis
    by (auto simp: port_settled_def recorded_entry_append split: option.splits)
qed simp

subsection \<open>The live port gives standing answers\<close>

lemma string_list_text: "string_list (Some (PList (map PStr xs))) = Inr xs"
  by (simp add: string_list_def map_r_Inr list.rel_map list_all2_same)

definition live_settled :: "platform \<Rightarrow> interrupt_request \<Rightarrow> interrupt_result \<Rightarrow> live_record \<Rightarrow> bool" where
  "live_settled P q r w \<longleftrightarrow> iq_scopes q \<noteq> {} \<and> completed_interrupt P q (rev (lw_history w)) = Inr (Some r)"

lemma completed_interrupt_new:
  "completed_interrupt P q (interrupt_event P now q' res n # evs) =
     (if iq_decision q' \<noteq> iq_decision q then completed_interrupt P q evs
      else if request_fingerprint P q' \<noteq> request_fingerprint P q then
        Inl (ValueError ''the decision ID was already used for a different interrupt'')
      else Inr (Some res))"
  by (simp add: interrupt_event_def string_list_text)

lemma completed_interrupt_decision:
  assumes "iq_decision q = iq_decision q'"
  shows "completed_interrupt P q evs = Inr None \<longleftrightarrow> completed_interrupt P q' evs = Inr None"
  using assms by (induction evs) (auto simp: bind_r_eq_Inr)

lemma live_step_cases:
  assumes "live_step P now q (Inr w) = Inr (r, new)"
  obtains (old) "iq_scopes q \<noteq> {}" "completed_interrupt P q (rev (lw_history w)) = Inr (Some r)" "new = None"
  | (new) su w' where "iq_scopes q \<noteq> {}" "completed_interrupt P q (rev (lw_history w)) = Inr None"
      "live_supervisor w = Inr su" "live_recorded P now q w su = (r, w')" "new = Some w'"
proof -
  from assms obtain v where v: "iq_scopes q \<noteq> {}" "completed_interrupt P q (rev (lw_history w)) = Inr v"
    by (auto simp: live_step_def split: if_splits)
  show ?thesis
  proof (cases v)
    case None
    with assms v obtain su where su: "live_supervisor w = Inr su" by (auto simp: live_step_def)
    obtain r' w' where "live_recorded P now q w su = (r', w')" by fastforce
    with assms v None su show ?thesis by (intro new) (auto simp: live_step_def)
  next
    case (Some res)
    with assms v show ?thesis by (intro old) (simp_all add: live_step_def)
  qed
qed

lemma live_recorded_fields:
  assumes "live_recorded P now q w su = (r, w')"
  shows "lw_id w' = lw_id w"
    and "lw_history w' = lw_history w @ [interrupt_event P now q r (int (length (lw_history w)) + 1)]"
    and "r = live_partition (su_assignments su) q"
    and "\<exists>su'. lw_supervisor w' = Some su' \<and> su_mode su' = su_mode su
      \<and> su_assignments su' = map (live_change q r) (su_assignments su) \<and> su_interrupts su' = su_interrupts su"
  using assms by (auto simp: live_recorded_def Let_def)

lemma live_settled_step:
  assumes "live_step P now q (Inr w) = Inr (r, new)"
  shows "live_settled P q r (case new of None \<Rightarrow> w | Some w' \<Rightarrow> w')"
  using assms
proof (cases rule: live_step_cases)
  case (new su w')
  then show ?thesis by (simp add: live_settled_def live_recorded_fields(2) [OF new(4)] completed_interrupt_new
      del: completed_interrupt.simps)
qed (simp add: live_settled_def)

lemma live_settled_again: "live_settled P q r w \<Longrightarrow> live_step P now q (Inr w) = Inr (r, None)"
  by (simp add: live_settled_def live_step_def)

lemma live_settled_kept:
  assumes s: "live_settled P q r w" and run: "live_step P now q' (Inr w) = Inr (r', Some w')"
  shows "live_settled P q r w'"
  using run
proof (cases rule: live_step_cases)
  case (new su v)
  have "iq_decision q' \<noteq> iq_decision q"
    using s new(2) completed_interrupt_decision [of q' q P "rev (lw_history w)"] by (auto simp: live_settled_def)
  then show ?thesis
    using s new by (simp add: live_settled_def live_recorded_fields(2) [OF new(4)] completed_interrupt_new
      del: completed_interrupt.simps)
qed simp

subsection \<open>Both ports on both stores\<close>

lemma port_step_laws:
  "\<exists>x'. port_step R e q (Inl x) = Inl x'"
  "port_step R e q (Inr w) = Inr (r, Some w') \<Longrightarrow> lw_id w' = lw_id w"
  by (auto simp: port_step_def bind_r_def split: sum.splits option.splits dest: port_apply_interrupts)

lemma live_step_read: "\<exists>x'. live_step P now q (Inl x) = Inl x'"
  by (simp add: live_step_def)

lemma live_step_id: "live_step P now q (Inr w) = Inr (r, Some w') \<Longrightarrow> lw_id w' = lw_id w"
  by (erule live_step_cases) (auto dest: live_recorded_fields(1))

lemma live_settled_repeat:
  "live_settled P q r w \<Longrightarrow> \<exists>new. live_step P now q (Inr w) = Inr (r, new) \<and> (new = None \<or> new = Some w)"
  using live_settled_again by blast

lemmas port_laws = port_step_laws port_settled_step port_settled_again port_settled_kept
lemmas live_laws = live_step_read live_step_id live_settled_step live_settled_repeat live_settled_kept

interpretation json_port: workspace_port "json_ok c" "json_get c" "json_create c" "json_save c" "json_mutate c"
    "port_step R" port_settled for c :: "'j codec" and R
  by unfold_locales (rule port_laws; assumption)+

interpretation sql_port: workspace_port "sql_ok c" "sql_get c" "sql_create c" "sql_save c" "sql_mutate c"
    "port_step R" port_settled for c :: "'j codec" and R
  by unfold_locales (rule port_laws; assumption)+

interpretation json_live: workspace_port "json_ok c" "json_get c" "json_create c" "json_save c" "json_mutate c"
    "live_step P" "live_settled P" for c :: "'j codec" and P
  by unfold_locales (rule live_laws; assumption)+

interpretation sql_live: workspace_port "sql_ok c" "sql_get c" "sql_create c" "sql_save c" "sql_mutate c"
    "live_step P" "live_settled P" for c :: "'j codec" and P
  by unfold_locales (rule live_laws; assumption)+

subsection \<open>What an interrupt does to the assignments\<close>

definition live_target :: "interrupt_request \<Rightarrow> assignment \<Rightarrow> bool" where
  "live_target q a \<longleftrightarrow> as_mode a = Live \<and> as_state a \<noteq> AS_Completed \<and> as_scopes a \<inter> iq_scopes q \<noteq> {}"

definition live_spared :: "interrupt_request \<Rightarrow> assignment \<Rightarrow> bool" where
  "live_spared q a \<longleftrightarrow> as_mode a = Live \<and> as_state a \<noteq> AS_Completed \<and> as_scopes a \<inter> iq_scopes q = {}"

lemma live_partition_sets:
  "set (ix_interrupted (live_partition as q)) = as_id ` {a\<in>set as. live_target q a}"
  "set (ix_preserved (live_partition as q)) = as_id ` {a\<in>set as. live_spared q a}"
  by (auto simp: live_partition_def live_target_def live_spared_def Let_def)

lemma id_in_image:
  assumes "distinct (map as_id as)" and "a \<in> set as"
  shows "as_id a \<in> as_id ` {b\<in>set as. p b} \<longleftrightarrow> p a"
  using assms by (auto simp: distinct_map dest: inj_onD)

lemma live_change_map:
  assumes "distinct (map as_id as)"
  shows "map (live_change q (live_partition as q)) as =
    map (\<lambda>a. if live_target q a then claude_transition (interrupt_args q (iq_path q)) a
         else if live_spared q a \<and> as_state a = AS_Running then claude_transition (to_state AS_Continuing) a
         else a) as"
  by (intro map_cong refl) (simp add: live_change_def live_partition_sets id_in_image [OF assms])

lemma live_partition_disjoint:
  assumes "distinct (map as_id as)"
  shows "set (ix_interrupted (live_partition as q)) \<inter> set (ix_preserved (live_partition as q)) = {}"
    and "distinct (ix_interrupted (live_partition as q))" and "distinct (ix_preserved (live_partition as q))"
  using assms by (auto simp: live_partition_def Let_def distinct_map dest: inj_onD intro: inj_on_subset)

lemma port_partition_sets:
  "set (ix_interrupted (port_partition (Some su) A rep e)) = as_id ` {a\<in>set (su_assignments su). port_hit A rep e a}"
  "set (ix_preserved (port_partition (Some su) A rep e)) = as_id ` {a\<in>set (su_assignments su). \<not> port_hit A rep e a}"
  by (auto simp: port_partition_def)

lemma port_apply_result:
  assumes su: "lw_supervisor w = Some su" and dist: "distinct (map as_id (su_assignments su))"
    and run: "port_apply R q (port_result w q) w = Inr w'"
  shows "\<exists>su'. lw_supervisor w' = Some su' \<and> su_assignments su' =
    map (\<lambda>a. if port_hit (iq_scopes q) (report_for w (iq_decision q)) (already_invalidated (Some su) (iq_decision q)) a
         then pr_transition R (interrupt_args q (provenance_for a (report_for w (iq_decision q)) (iq_path q))) a
         else a) (su_assignments su)"
proof -
  let ?hit = "port_hit (iq_scopes q) (report_for w (iq_decision q)) (already_invalidated (Some su) (iq_decision q))"
  let ?new = "\<lambda>a. pr_transition R (interrupt_args q (provenance_for a (report_for w (iq_decision q)) (iq_path q))) a"
  have "map (\<lambda>a. if as_id a \<in> set (ix_interrupted (port_result w q)) then ?new a else a) (su_assignments su) =
    map (\<lambda>a. if ?hit a then ?new a else a) (su_assignments su)"
    by (intro map_cong refl) (simp add: port_result_def su port_partition_sets id_in_image [OF dist])
  moreover have "\<exists>su'. lw_supervisor w' = Some su' \<and> su_assignments su' =
      map (\<lambda>a. if as_id a \<in> set (ix_interrupted (port_result w q)) then ?new a else a) (su_assignments su)"
    using run su by (auto simp: port_apply_def Let_def split: if_splits)
  ultimately show ?thesis by (simp only:)
qed

lemma port_preview_matches:
  "port_interrupt R get save q s = (Inr res, t) \<Longrightarrow> port_preview get q s = Inr res"
  by (auto simp: port_interrupt_def port_preview_def bind_op_def Let_def split: sum.splits option.splits prod.splits)

subsection \<open>The estimate before approval and the engine's report after it\<close>

text \<open>The assignment follows a task of the graph, which lost exactly the given scopes so far.\<close>

definition follows_task :: "graph \<Rightarrow> scopes \<Rightarrow> assignment \<Rightarrow> bool" where
  "follows_task g earlier a \<longleftrightarrow> (\<exists>t. get_artifact g (as_task a) = Inr t \<and> art_kind t = Task
     \<and> art_scopes t = as_scopes a \<and> art_invalidated t = as_scopes a \<inter> earlier)"

lemma report_stops:
  assumes rep: "report_ok g A c r rep" and f: "follows_task g earlier a"
    and reach: "as_scopes a \<inter> A \<noteq> {} \<Longrightarrow> affected_by g A r (as_task a)"
  shows "stops_work a A (Some rep) e \<longleftrightarrow> stops_work a A None earlier \<and> as_scopes a \<inter> A \<noteq> {}"
proof -
  from f obtain t where t: "get_artifact g (as_task a) = Inr t" "art_kind t = Task"
      "art_scopes t = as_scopes a" "art_invalidated t = as_scopes a \<inter> earlier" by (auto simp: follows_task_def)
  have "as_task a \<in> set (rep_invalidated_tasks rep) \<longleftrightarrow>
      affected_by g A r (as_task a) \<and> as_scopes a \<noteq> {} \<and> as_scopes a \<subseteq> A \<union> earlier"
    using rep t by (auto simp: report_ok_def the_artifact_def marked_def Let_def)
  moreover have "as_scopes a \<inter> A \<noteq> {}" if "affected_by g A r (as_task a)"
    using that t by (auto simp: affected_by_def overlap_def)
  ultimately show ?thesis using reach by (auto simp: stops_work_def)
qed

end
