(* ===== verification/Session_Samples.thy ===== *)
theory Session_Samples
  imports Samples Session_Enforcement Interrupt
begin

text \<open>
  A workspace with one running assignment, an interrupt that hits it, and sessions of two kinds:
  an unbound one and one bound to the assignment.
\<close>

definition sample_assignment :: assignment where
  "sample_assignment = \<lparr>as_id = ''A1'', as_task = ''W'', as_title = ''W'', as_agent = ''agent'', as_provider = Claude_Code,
     as_mode = Live, as_run = ''R1'', as_state = AS_Running, as_scopes = {''s''}, as_action_ids = [], as_authorized = [],
     as_plan = ''P'', as_snapshot = ''graph-v1'', as_redirected_from = None, as_reason = None, as_instruction = None,
     as_path = [], as_enforced = False\<rparr>"

definition sample_supervisor :: supervisor where
  "sample_supervisor = \<lparr>su_id = ''SUP'', su_name = ''sup'', su_state = LS_Running, su_adapter = Claude_Hook_Runtime,
     su_mode = Live, su_assignments = [sample_assignment], su_interrupts = []\<rparr>"

definition sample_live_record :: live_record where
  "sample_live_record = (sample_record ''a'')\<lparr>lw_supervisor := Some sample_supervisor\<rparr>"

definition sample_live_table :: "live_record list table" where
  "sample_live_table = [\<lparr>row_id = ''a'', row_updated = [], row_revision = 1, row_json = [sample_live_record]\<rparr>]"

definition sample_interrupt :: interrupt_request where
  "sample_interrupt = \<lparr>iq_workspace = ''a'', iq_decision = ''D1'', iq_scopes = {''s''}, iq_path = [''D1'', ''W''],
     iq_reason = ''changed'', iq_instruction = ''stop''\<rparr>"

lemma sample_live_id [simp]: "lw_id sample_live_record = ''a''"
  by (simp add: sample_live_record_def)

lemma sample_live_table_ok: "sql_ok sample_texts sample_live_table"
  using sample_texts_ok by (simp add: sql_ok_def sample_live_table_def) (simp add: sample_texts_def)

lemma sample_live_get: "sql_get sample_texts sample_live_table ''a'' = Inr sample_live_record"
  by (simp add: sql_get_def sql_select_def sql_decode_def sample_live_table_def sample_texts_def)

lemma sample_interrupt_runs:
  "\<exists>r t. live_interrupt sample_platform (Aware 1) (sql_get sample_texts) (sql_save sample_texts)
      sample_interrupt sample_live_table = (Inr r, t)"
proof -
  have step: "live_step sample_platform (Aware 1) sample_interrupt (Inr sample_live_record) =
      Inr (map_prod id Some (live_recorded sample_platform (Aware 1) sample_interrupt sample_live_record sample_supervisor))"
    by (simp add: live_step_def sample_interrupt_def live_supervisor_def sample_live_record_def sample_supervisor_def sample_record_def)
  obtain r w' where rec: "live_recorded sample_platform (Aware 1) sample_interrupt sample_live_record sample_supervisor = (r, w')"
    by fastforce
  then have id: "lw_id w' = ''a''" using live_recorded_fields(1) by fastforce
  obtain t where "sql_save sample_texts w' sample_live_table = (Inr (), t)"
    using sql_repo.save_known [OF sample_live_table_ok, of w'] sample_live_get id by auto
  then show ?thesis
    using step rec sample_live_get
    by (simp add: live_interrupt_step at_workspace_def bind_op_def sample_interrupt_def)
qed

lemma sample_follows_task: "follows_task sample_graph {} sample_assignment"
  by (simp add: follows_task_def sample_assignment_def sample_graph_def reset_def empty_graph_def get_artifact_def dict_of_def
      sample_seed_def sample_artifact_def sample_decision_def)

lemma sample_task: "get_artifact sample_graph ''W'' = Inr (sample_artifact ''W'' Task)"
  by (simp add: sample_graph_def reset_def empty_graph_def get_artifact_def dict_of_def
      sample_seed_def sample_artifact_def sample_decision_def)

lemma sample_task_reached: "affected_by sample_graph {''s''} ''T'' (as_task sample_assignment)"
proof -
  have o: "overlap sample_graph {''s''} ''W''"
    using sample_task by (auto simp: overlap_def sample_artifact_def)
  have "flows sample_graph downstream_kinds ''T'' ''W''"
    by (auto simp: flows_def sample_graph_def reset_def sample_edges_def sample_edge_def downstream_kinds_def)
  then have "spread sample_graph {''s''} ''T'' ''W''" using o by (simp add: spread_def)
  then show ?thesis using o by (auto simp: affected_by_def sample_assignment_def)
qed

subsection \<open>Sessions\<close>

definition sample_files :: file_system where
  "sample_files = \<lparr>fs_resolve = id, fs_task = (\<lambda>_. Missing_File), fs_attach = (\<lambda>_. Missing_File)\<rparr>"

definition sample_origin :: session_origin where
  "sample_origin = \<lparr>or_session = ''S'', or_owner = ''default'', or_cwd = ''/d'', or_branch = [], or_started = Aware 0\<rparr>"

definition sample_binding_of :: "binding_source \<Rightarrow> locator option \<Rightarrow> session_binding" where
  "sample_binding_of src loc = \<lparr>sb_session = ''S'', sb_owner = ''default'', sb_cwd = ''/d'', sb_branch = [], sb_source = src,
     sb_assignment = loc, sb_detail = ''d'', sb_started = Aware 0\<rparr>"

definition sample_locator :: locator where
  "sample_locator = \<lparr>lo_workspace = ''a'', lo_assignment = ''A1'', lo_task = ''W''\<rparr>"

definition sample_binding :: session_binding where
  "sample_binding = sample_binding_of Explicit (Some sample_locator)"

definition sample_unbound_sessions :: session_registry where
  "sample_unbound_sessions = \<lparr>sr_sessions = [(''S'', sample_binding_of Unbound None)], sr_explicit = [], sr_acks = {}\<rparr>"

definition sample_bound_sessions :: session_registry where
  "sample_bound_sessions = \<lparr>sr_sessions = [(''S'', sample_binding)], sr_explicit = [], sr_acks = {}\<rparr>"

definition sample_call :: tool_request where
  "sample_call = \<lparr>tq_session = ''S'', tq_tool = ''Edit'', tq_timestamp = Aware 0, tq_ack = None\<rparr>"

definition sample_target :: target where
  "sample_target = \<lparr>tg_workspace = ''a'', tg_assignment = sample_assignment\<rparr>"

definition sample_second :: target where
  "sample_second = \<lparr>tg_workspace = ''a'', tg_assignment = sample_assignment\<lparr>as_id := ''A2''\<rparr>\<rparr>"

lemma sample_targets: "\<exists>ts. unique_targets [sample_target, sample_second, sample_target] = Inr ts"
  by (simp add: unique_targets_def sample_target_def sample_second_def target_key_def sample_assignment_def)

lemma strip_S: "strip ''S'' = ''S''"
  by code_simp

lemma sample_sessions_ok: "sessions_ok sample_unbound_sessions"
  by (simp add: sessions_ok_def sample_unbound_sessions_def sample_binding_of_def strip_S)

lemma sample_unresolved:
  "\<exists>b. resolve_binding sample_files sample_origin [] (Some \<lparr>at_ws = ''w'', at_assignment = ''A''\<rparr>)
      (read_attach_file sample_files ''/d'') = Inr b \<and> sb_assignment b = None"
  by (simp add: resolve_binding_def unresolved_attachment_def make_binding_def sample_origin_def bounded_def
      strip_def lstrip_def rstrip_def is_space_def Let_def)

lemma sample_unbound_check:
  "\<exists>v. check_session sample_platform (\<lambda>_. id) (sql_get sample_texts) (sql_mutate sample_texts) sample_unbound_sessions
      sample_call ''default'' sample_live_table = (Inr v, sample_live_table) \<and> hv_decision v = Permit"
  by (simp add: check_session_def session_get_def sample_unbound_sessions_def sample_call_def strip_S sample_binding_of_def
      require_owner_def make_verdict_def verdict_of_def Let_def bounded_def strip_def lstrip_def rstrip_def is_space_def)

lemma sample_takeover:
  "\<exists>b r'. start_session sample_files (Aware 0) (\<lambda>_. Inr []) ''S'' ''/d'' [] ''eve'' () sample_unbound_sessions = (Inr b, r')"
  by (simp add: start_session_def list_live_assignments_def register_def bind_op_def canonical_cwd_def unique_targets_def
      resolve_binding_def resolve_by_branch_then_task_file_def read_task_file_def read_attach_file_def sample_files_def
      sample_unbound_sessions_def unbound_def make_binding_def bounded_def strip_def lstrip_def rstrip_def is_space_def Let_def)

subsection \<open>An interrupted assignment\<close>

definition sample_interrupted_record :: live_record where
  "sample_interrupted_record = sample_live_record\<lparr>lw_supervisor := Some (sample_supervisor\<lparr>su_assignments :=
     [sample_assignment\<lparr>as_state := AS_Interrupted, as_instruction := Some ''go''\<rparr>]\<rparr>)\<rparr>"

definition sample_echo :: tool_request where
  "sample_echo = sample_call\<lparr>tq_ack := (case snapshot_in sample_interrupted_record sample_locator of
     Inr (Some snap) \<Rightarrow> Some (interrupt_key sample_platform snap) | _ \<Rightarrow> None)\<rparr>"

lemma sample_interrupted_ok: "json_ok sample_texts (Some [sample_interrupted_record])"
  using sample_texts_ok by (simp add: json_ok_def json_read_def) (simp add: sample_texts_def)

lemma sample_interrupted_facts:
  "session_get sample_bound_sessions (tq_session sample_echo) = Some sample_binding"
  "sb_owner sample_binding = ''default''" "sb_source sample_binding \<noteq> Unresolved_Attachment"
  "sb_assignment sample_binding = Some sample_locator"
  "json_get sample_texts (Some [sample_interrupted_record]) (lo_workspace sample_locator) = Inr sample_interrupted_record"
  "live_assignment_index sample_interrupted_record sample_locator = Some 0"
  "sample_assignment\<lparr>as_state := AS_Interrupted, as_instruction := Some ''go''\<rparr> = record_assignments sample_interrupted_record ! 0"
  "as_provider sample_assignment \<noteq> Codex"
  "clean_optional (Some ''go'') \<noteq> None"
  "bounded 1 255 (lw_version sample_interrupted_record)"
  "strip (lw_version sample_interrupted_record) = lw_version sample_interrupted_record"
  "\<forall>snap. snapshot_in sample_interrupted_record sample_locator = Inr (Some snap) \<longrightarrow>
     tq_ack sample_echo = Some (interrupt_key sample_platform snap)"
proof -
  show "clean_optional (Some ''go'') \<noteq> None" by code_simp
  have "strip ''graph-v1'' = ''graph-v1''" by code_simp
  then show "strip (lw_version sample_interrupted_record) = lw_version sample_interrupted_record"
    by (simp add: sample_interrupted_record_def sample_live_record_def sample_record_def)
qed (auto simp: sample_bound_sessions_def sample_echo_def sample_call_def session_get_def strip_S sample_binding_def
    sample_binding_of_def sample_locator_def json_get_def json_read_def sample_texts_def sample_interrupted_record_def
    live_assignment_index_def located_def record_assignments_def sample_supervisor_def sample_assignment_def bounded_def
    sample_live_record_def sample_record_def sample_import_def)

end
