(* ===== verification/Extractor.thy ===== *)
theory Extractor
  imports Decision_Change
begin

text \<open>
  What a language model extracts from a text (\<^verbatim>\<open>llm/extractor.py\<close>) is a candidate: a mutation and quotes
  with their places. The checks of its shape and of its quotes, the repair of the places, and the path on
  which a candidate reaches the authority with the governance of its trusted context.
\<close>

subsection \<open>Candidates\<close>

record evidence_span =
  sp_start :: int
  sp_end :: int
  sp_text :: string

record extraction =
  xt_mutation :: decision_mutation
  xt_spans :: "evidence_span list"

definition span_fields_ok :: "evidence_span \<Rightarrow> bool" where
  "span_fields_ok s \<longleftrightarrow> 0 \<le> sp_start s \<and> 0 \<le> sp_end s \<and> sp_text s \<noteq> []"

definition extraction_fields_ok :: "extraction \<Rightarrow> bool" where
  "extraction_fields_ok x \<longleftrightarrow> xt_spans x \<noteq> [] \<and> (\<forall>s\<in>set (xt_spans x). span_fields_ok s)"

fun nonempty_dict :: "pyval \<Rightarrow> bool" where
  "nonempty_dict (PDict d) = (d \<noteq> [])"
| "nonempty_dict _ = False"

definition extracted_requirements_error :: "extraction \<Rightarrow> string option" where
  "extracted_requirements_error x = (let A = mut_scopes (xt_mutation x) in
     if A = {} then Some ''`mutation.affected_scopes` must be non-empty.''
     else (case dict_get (art_attrs (mut_decision (xt_mutation x))) ''requirements'' of
       Some (PDict reqs) \<Rightarrow>
         if reqs = [] then Some ''`mutation.decision.attributes.requirements` must be a non-empty object.''
         else if fst ` set reqs \<noteq> A then Some ''Requirement keys must exactly match `mutation.affected_scopes`.''
         else if \<not> list_all (\<lambda>(k, v). nonempty_dict v) reqs then
           Some ''Every extracted Decision requirement must be a non-empty object.''
         else None
     | _ \<Rightarrow> Some ''`mutation.decision.attributes.requirements` must be a non-empty object.''))"

definition decision_extraction_error :: "extraction \<Rightarrow> string option" where
  "decision_extraction_error x = (case extracted_requirements_error x of
     Some e \<Rightarrow> Some e
   | None \<Rightarrow> if art_scopes (mut_decision (xt_mutation x)) \<noteq> mut_scopes (xt_mutation x) then
       Some (''`mutation.decision.scopes`, `mutation.affected_scopes`, and requirement ''
         @ ''keys must exactly match.'') else None)"

subsection \<open>Quotes and their places\<close>

text \<open>\<open>raw[start:end]\<close> for bounds that are not negative, and \<open>raw.find(sub, start)\<close>.\<close>

definition slice :: "string \<Rightarrow> int \<Rightarrow> int \<Rightarrow> string" where
  "slice raw a b = drop (nat a) (take (nat b) raw)"

fun find_at :: "string \<Rightarrow> string \<Rightarrow> nat option" where
  "find_at sub s = (if starts_with sub s then Some 0
     else (case s of [] \<Rightarrow> None | _ # t \<Rightarrow> map_option Suc (find_at sub t)))"

declare find_at.simps [simp del]

definition find_from :: "string \<Rightarrow> string \<Rightarrow> nat \<Rightarrow> nat option" where
  "find_from raw sub a = (if length raw < a then None else map_option ((+) a) (find_at sub (drop a raw)))"

definition repair_span :: "string \<Rightarrow> evidence_span \<Rightarrow> evidence_span" where
  "repair_span raw s = (if slice raw (sp_start s) (sp_end s) = sp_text s then s
     else (case (case find_from raw (sp_text s) (nat (sp_start s)) of
             None \<Rightarrow> find_from raw (sp_text s) 0 | Some i \<Rightarrow> Some i) of
         None \<Rightarrow> s
       | Some i \<Rightarrow> s\<lparr>sp_start := int i, sp_end := int i + int (length (sp_text s))\<rparr>))"

definition repair_evidence_offsets :: "string \<Rightarrow> extraction \<Rightarrow> extraction" where
  "repair_evidence_offsets raw x = x\<lparr>xt_spans := map (repair_span raw) (xt_spans x)\<rparr>"

fun span_error_from :: "string \<Rightarrow> nat \<Rightarrow> evidence_span list \<Rightarrow> string option" where
  "span_error_from raw i [] = None"
| "span_error_from raw i (s # ss) =
     (if sp_end s \<le> sp_start s then Some (''Evidence span '' @ show_nat i @ '' must have start before end.'')
      else if int (length raw) < sp_end s then
        Some (''Evidence span '' @ show_nat i @ '' extends beyond the supplied source text.'')
      else if slice raw (sp_start s) (sp_end s) \<noteq> sp_text s then
        Some (''Evidence span '' @ show_nat i @ '' does not exactly match the supplied source text.'')
      else span_error_from raw (Suc i) ss)"

definition evidence_span_error :: "string \<Rightarrow> evidence_span list \<Rightarrow> string option" where
  "evidence_span_error raw ss = span_error_from raw 0 ss"

text \<open>A span that passes is a quote.\<close>

definition quotes :: "string \<Rightarrow> evidence_span \<Rightarrow> bool" where
  "quotes raw s \<longleftrightarrow> sp_start s < sp_end s \<and> sp_end s \<le> int (length raw) \<and> slice raw (sp_start s) (sp_end s) = sp_text s"

lemma span_error_from_None: "span_error_from raw i ss = None \<longleftrightarrow> (\<forall>s\<in>set ss. quotes raw s)"
  by (induction raw i ss rule: span_error_from.induct) (auto simp: quotes_def)

lemma evidence_span_error_None: "evidence_span_error raw ss = None \<longleftrightarrow> (\<forall>s\<in>set ss. quotes raw s)"
  by (simp add: evidence_span_error_def span_error_from_None)

lemma find_at_Some: "find_at sub s = Some i \<Longrightarrow> i + length sub \<le> length s \<and> take (length sub) (drop i s) = sub"
proof (induction s arbitrary: i)
  case Nil
  then show ?case by (subst (asm) find_at.simps) (auto simp: starts_with_iff split: if_splits)
next
  case (Cons c s)
  show ?case
  proof (cases "starts_with sub (c # s)")
    case True
    then have "i = 0" using Cons.prems by (subst (asm) find_at.simps) simp
    moreover obtain t where "c # s = sub @ t" using True by (auto simp: starts_with_iff)
    ultimately show ?thesis by simp
  next
    case False
    then obtain j where "find_at sub s = Some j" "i = Suc j"
      using Cons.prems by (subst (asm) find_at.simps) auto
    then show ?thesis using Cons.IH by auto
  qed
qed

lemma find_at_None: "find_at sub s = None \<longleftrightarrow> \<not> str_in sub s"
proof (induction s)
  case Nil
  show ?case by (subst find_at.simps) (auto simp: starts_with_iff)
next
  case (Cons c s)
  then show ?case by (subst find_at.simps) auto
qed

lemma find_from_Some:
  assumes "find_from raw sub a = Some i"
  shows "i + length sub \<le> length raw \<and> take (length sub) (drop i raw) = sub"
  using assms by (auto simp: find_from_def add.commute split: if_splits dest!: find_at_Some)

lemma find_from_start: "find_from raw sub 0 = None \<longleftrightarrow> \<not> str_in sub raw"
  by (simp add: find_from_def find_at_None)

lemma slice_found: "i + length sub \<le> length raw \<Longrightarrow> slice raw (int i) (int i + int (length sub)) = take (length sub) (drop i raw)"
proof -
  have "nat (int i + int (length sub)) = i + length sub" by simp
  then show ?thesis by (simp add: slice_def drop_take)
qed

lemma quotes_occurs: "quotes raw s \<Longrightarrow> str_in (sp_text s) raw"
proof -
  assume q: "quotes raw s"
  have "raw = take (nat (sp_start s)) raw @ slice raw (sp_start s) (sp_end s) @ drop (nat (sp_end s)) raw"
  proof -
    have "nat (sp_start s) \<le> nat (sp_end s)" using q by (auto simp: quotes_def)
    then have "take (nat (sp_start s)) raw = take (nat (sp_start s)) (take (nat (sp_end s)) raw)" by (simp add: min_def)
    then show ?thesis unfolding slice_def by (metis append.assoc append_take_drop_id)
  qed
  then show ?thesis using q unfolding quotes_def str_in_iff by metis
qed

text \<open>
  The repair puts every span on a quote whose text occurs, but for one: a span that starts right and whose
  text runs to the end of the source is taken as it is, though its end may lie beyond, and is then refused.
\<close>

definition overlong :: "string \<Rightarrow> evidence_span \<Rightarrow> bool" where
  "overlong raw s \<longleftrightarrow> slice raw (sp_start s) (sp_end s) = sp_text s \<and> int (length raw) < sp_end s"

lemma repaired_span:
  assumes s: "span_fields_ok s"
  shows "quotes raw (repair_span raw s) \<longleftrightarrow> str_in (sp_text s) raw \<and> \<not> overlong raw s"
proof (cases "slice raw (sp_start s) (sp_end s) = sp_text s")
  case True
  then have "repair_span raw s = s" by (simp add: repair_span_def)
  moreover have "sp_start s < sp_end s"
  proof (rule ccontr)
    assume "\<not> sp_start s < sp_end s"
    then have "nat (sp_end s) \<le> nat (sp_start s)" by (simp add: nat_mono)
    then have "slice raw (sp_start s) (sp_end s) = []" by (simp add: slice_def)
    then show False using True s by (simp add: span_fields_ok_def)
  qed
  ultimately show ?thesis using True quotes_occurs [of raw s] by (auto simp: quotes_def overlong_def)
next
  case False
  show ?thesis
  proof (cases "str_in (sp_text s) raw")
    case True
    then obtain j where "find_from raw (sp_text s) 0 = Some j" using find_from_start by blast
    then obtain i where i: "repair_span raw s = s\<lparr>sp_start := int i, sp_end := int i + int (length (sp_text s))\<rparr>"
        "i + length (sp_text s) \<le> length raw" "take (length (sp_text s)) (drop i raw) = sp_text s"
      using False find_from_Some [of raw "sp_text s"]
      by (cases "find_from raw (sp_text s) (nat (sp_start s))") (auto simp: repair_span_def)
    then have "quotes raw (repair_span raw s)"
      using s slice_found [OF i(2)] by (auto simp: quotes_def span_fields_ok_def)
    then show ?thesis using True False by (simp add: overlong_def)
  next
    case none: False
    have "sp_text (repair_span raw s) = sp_text s" by (simp add: repair_span_def split: option.split)
    then show ?thesis using none quotes_occurs [of raw "repair_span raw s"] by auto
  qed
qed

theorem repair_accepts_quotes:
  assumes "extraction_fields_ok x"
  shows "evidence_span_error raw (xt_spans (repair_evidence_offsets raw x)) = None
    \<longleftrightarrow> (\<forall>s\<in>set (xt_spans x). str_in (sp_text s) raw \<and> \<not> overlong raw s)"
  using assms repaired_span
  by (auto simp: evidence_span_error_None repair_evidence_offsets_def extraction_fields_ok_def)

subsection \<open>Extraction without a model\<close>

definition fixture_extract :: "decision_mutation \<Rightarrow> string option \<Rightarrow> string \<Rightarrow> extraction result" where
  "fixture_extract m evidence raw = (let quote = (case evidence of None \<Rightarrow> raw | Some t \<Rightarrow> if t = [] then raw else t) in
     case find_from raw quote 0 of
       Some i \<Rightarrow> if quote = [] then Inl (ValueError ''Fixture evidence text must occur in the supplied source text.'')
         else Inr \<lparr>xt_mutation = m, xt_spans = [\<lparr>sp_start = int i, sp_end = int i + int (length quote), sp_text = quote\<rparr>]\<rparr>
     | None \<Rightarrow> Inl (ValueError ''Fixture evidence text must occur in the supplied source text.''))"

lemma fixture_extract_quotes:
  assumes "fixture_extract m evidence raw = Inr x"
  shows "xt_mutation x = m \<and> evidence_span_error raw (xt_spans x) = None"
proof -
  obtain i quote where i: "find_from raw quote 0 = Some i" "quote \<noteq> []"
      "x = \<lparr>xt_mutation = m, xt_spans = [\<lparr>sp_start = int i, sp_end = int i + int (length quote), sp_text = quote\<rparr>]\<rparr>"
    using assms by (auto simp: fixture_extract_def Let_def split: option.splits if_splits)
  note found = find_from_Some [OF i(1)]
  then show ?thesis using i(2,3) slice_found [of i quote raw]
    by (simp add: evidence_span_error_None quotes_def)
qed

subsection \<open>On to the authority\<close>

record trusted_context =
  tc_source :: string
  tc_approval :: approval_status
  tc_role :: string
  tc_confidence :: rat
  tc_effective :: "datetime option"
  tc_supersedes :: string
  tc_scopes :: scopes

definition span_dump :: "string \<Rightarrow> evidence_span \<Rightarrow> pyval" where
  "span_dump source s = PDict [(''source_ref'', PStr source), (''start'', PInt (sp_start s)), (''end'', PInt (sp_end s)),
     (''text'', PStr (sp_text s))]"

text \<open>The governance of a decision is the context's, whatever the candidate says.\<close>

definition governed :: "trusted_context \<Rightarrow> extraction \<Rightarrow> decision_mutation" where
  "governed t x = (let d = mut_decision (xt_mutation x) in
     \<lparr>mut_decision = d\<lparr>art_source := Some (tc_source t), art_approval := Some (tc_approval t), art_role := Some (tc_role t),
        art_confidence := tc_confidence t, art_effective := tc_effective t, art_scopes := tc_scopes t,
        art_validity := Valid, art_invalidated := {},
        art_attrs := dict_set ''validated_evidence_spans'' (PList (map (span_dump (tc_source t)) (xt_spans x))) (art_attrs d)\<rparr>,
      mut_supersedes = tc_supersedes t, mut_scopes = tc_scopes t\<rparr>)"

definition apply_extracted_decision :: "string \<Rightarrow> trusted_context \<Rightarrow> extraction \<Rightarrow> (authority, mutation_result) op" where
  "apply_extracted_decision raw t x au = (case evidence_span_error raw (xt_spans x) of
     Some e \<Rightarrow> (Inr \<lparr>mres_applied = False, mres_reason = e, mres_version = version_label (au_graph au),
        mres_verdict = Some HUMAN_REVIEW, mres_report = None\<rparr>, au)
   | None \<Rightarrow> apply_decision_change (governed t x) au)"

text \<open>What a candidate can make of an authority: nothing without its quotes, and nothing beyond its context.\<close>

theorem extraction_is_confined:
  assumes "apply_extracted_decision raw t x au = (Inr res, au')" and "au' \<noteq> au"
  shows "(\<forall>s\<in>set (xt_spans x). quotes raw s) \<and> apply_decision_change (governed t x) au = (Inr res, au')
    \<and> mut_scopes (governed t x) = tc_scopes t \<and> mut_supersedes (governed t x) = tc_supersedes t
    \<and> art_approval (mut_decision (governed t x)) = Some (tc_approval t)
    \<and> art_role (mut_decision (governed t x)) = Some (tc_role t)
    \<and> art_scopes (mut_decision (governed t x)) = tc_scopes t"
  using assms
  by (auto simp: apply_extracted_decision_def governed_def Let_def evidence_span_error_None [symmetric] split: option.splits)

theorem governance_is_not_extracted:
  assumes "xt_spans y = xt_spans x" and "art_id (mut_decision (xt_mutation y)) = art_id (mut_decision (xt_mutation x))"
    and "art_kind (mut_decision (xt_mutation y)) = art_kind (mut_decision (xt_mutation x))"
    and "art_title (mut_decision (xt_mutation y)) = art_title (mut_decision (xt_mutation x))"
    and "art_text (mut_decision (xt_mutation y)) = art_text (mut_decision (xt_mutation x))"
    and "art_attrs (mut_decision (xt_mutation y)) = art_attrs (mut_decision (xt_mutation x))"
  shows "apply_extracted_decision raw t y = apply_extracted_decision raw t x"
proof -
  have "governed t y = governed t x" unfolding governed_def Let_def using assms by simp
  then have "apply_extracted_decision raw t y au = apply_extracted_decision raw t x au" for au
    unfolding apply_extracted_decision_def assms(1) by (rule arg_cong)
  then show ?thesis by (rule ext)
qed

end
