(* ===== verification/Views.thy ===== *)
theory Views
  imports Authority_Contexts
begin

text \<open>
  What leaves the workspace service: \<open>LiveWorkspaceView.from_record\<close> of \<^verbatim>\<open>workspaces/models.py\<close>,
  and the proposal that an approval channel shows, \<open>pending_from_workspace\<close> of
  \<^verbatim>\<open>intake/approval.py\<close>. A view carries no grant token, no approval intent and no identity of a
  Slack user: it is the same for two records that differ only there. The payload that a channel
  reads is the JSON dump of a view; dumping and reading it back is the identity here.
\<close>

subsection \<open>The view of a record\<close>

record workspace_view =
  vw_id :: string
  vw_name :: string
  vw_description :: string
  vw_status :: live_status
  vw_version :: string
  vw_baseline_approved :: bool
  vw_baseline_fingerprint :: string
  vw_baseline_instance :: "string option"
  vw_baseline_evidence :: "approval_evidence option"
  vw_baseline :: artifact
  vw_spec :: artifact
  vw_ticket :: artifact
  vw_tasks :: "artifact list"
  vw_initial_plan :: agent_plan
  vw_plan :: agent_plan
  vw_policy :: "scopes dict"
  vw_slack :: "slack_binding option"
  vw_pending :: "decision_mutation option"
  vw_pending_fingerprint :: "string option"
  vw_pending_instance :: "string option"
  vw_approved :: "approved_change list"
  vw_latest :: "decision_mutation option"
  vw_initial :: "authorization_view option"
  vw_conflict :: "authorization_view option"
  vw_replacement :: "authorization_view option"
  vw_report :: "invalidation_report option"
  vw_initial_check :: "execution_result option"
  vw_replacement_check :: "execution_result option"
  vw_supervisor :: "supervisor option"
  vw_history :: "workspace_event list"
  vw_created :: datetime
  vw_updated :: datetime

text \<open>A decision as its approval left it: the status, and the review recorded in its extraction.\<close>

definition approved_decision :: "platform \<Rightarrow> approved_change \<Rightarrow> artifact" where
  "approved_decision P am = (let d = mut_decision (am_mutation am) in
     d\<lparr>art_approval := Some Approved,
       art_attrs := (case am_evidence am of None \<Rightarrow> art_attrs d
         | Some e \<Rightarrow> review_extraction P (ae_fingerprint e) e (art_attrs d))\<rparr>)"

definition approved_view :: "platform \<Rightarrow> approved_change \<Rightarrow> approved_change" where
  "approved_view P am = am\<lparr>am_mutation := (am_mutation am)\<lparr>mut_decision := approved_decision P am\<rparr>\<rparr>"

definition mutation_hash :: "platform \<Rightarrow> decision_mutation \<Rightarrow> string" where
  "mutation_hash P m = stable_hash P (mutation_dump P m)"

definition artifact_hash :: "platform \<Rightarrow> artifact \<Rightarrow> string" where
  "artifact_hash P a = stable_hash P (artifact_dump P a)"

definition from_record :: "platform \<Rightarrow> live_record \<Rightarrow> workspace_view" where
  "from_record P w = (let r = lw_definition w; baseline = ir_baseline r;
       approved = map (approved_view P) (lw_approved w) in
     \<lparr>vw_id = ir_id r, vw_name = ir_name r, vw_description = ir_description r, vw_status = lw_status w,
      vw_version = lw_version w, vw_baseline_approved = lw_baseline_approved w,
      vw_baseline_fingerprint = artifact_hash P baseline,
      vw_baseline_instance = lw_baseline_instance w, vw_baseline_evidence = lw_baseline_evidence w,
      vw_baseline = (if lw_baseline_approved w then baseline\<lparr>art_approval := Some Approved\<rparr> else baseline),
      vw_spec = ir_spec r, vw_ticket = ir_ticket r, vw_tasks = ir_tasks r, vw_initial_plan = ir_plan r,
      vw_plan = lw_plan w, vw_policy = ir_policy r,
      vw_slack = map_option (\<lambda>b. b\<lparr>sb_identities := []\<rparr>) (ir_slack r),
      vw_pending = lw_pending w, vw_pending_fingerprint = map_option (mutation_hash P) (lw_pending w),
      vw_pending_instance = lw_pending_instance w, vw_approved = approved,
      vw_latest = (if approved = [] then None else Some (am_mutation (last approved))),
      vw_initial = view_of_result (lw_initial w), vw_conflict = view_of_result (lw_conflict w),
      vw_replacement = view_of_result (lw_replacement w), vw_report = lw_report w,
      vw_initial_check = lw_initial_check w, vw_replacement_check = lw_replacement_check w,
      vw_supervisor = lw_supervisor w, vw_history = lw_history w,
      vw_created = lw_created w, vw_updated = lw_updated w\<rparr>)"

lemma from_record_fields [simp]:
  "vw_id (from_record P w) = lw_id w" "vw_status (from_record P w) = lw_status w"
  "vw_pending (from_record P w) = lw_pending w" "vw_pending_instance (from_record P w) = lw_pending_instance w"
  "vw_supervisor (from_record P w) = lw_supervisor w" "vw_version (from_record P w) = lw_version w"
  by (simp_all add: from_record_def Let_def)

subsection \<open>The proposal that a channel shows\<close>

record pending_approval =
  pa_workspace :: string
  pa_decision :: string
  pa_supersedes :: string
  pa_scopes :: scopes
  pa_permission :: string
  pa_source :: string
  pa_title :: string
  pa_text :: string
  pa_effective :: datetime
  pa_requirements :: "attributes dict"
  pa_fingerprint :: string
  pa_instance :: string
  pa_refs :: "string list"

definition strip_keys :: "'v dict \<Rightarrow> 'v dict" where
  "strip_keys d = dict_of (map (\<lambda>(k, v). (strip k, v)) d)"

text \<open>Building the model strips its strings, then checks the fields, then their shape.\<close>

definition strip_pending :: "pending_approval \<Rightarrow> pending_approval" where
  "strip_pending p = p\<lparr>pa_workspace := strip (pa_workspace p), pa_decision := strip (pa_decision p),
     pa_supersedes := strip (pa_supersedes p), pa_scopes := strip ` pa_scopes p,
     pa_permission := strip (pa_permission p), pa_source := strip (pa_source p),
     pa_title := strip (pa_title p), pa_text := strip (pa_text p),
     pa_requirements := map (\<lambda>(s, r). (s, strip_keys r)) (strip_keys (pa_requirements p)),
     pa_fingerprint := strip (pa_fingerprint p), pa_instance := strip (pa_instance p),
     pa_refs := map strip (pa_refs p)\<rparr>"

definition pending_fields_ok :: "pending_approval \<Rightarrow> bool" where
  "pending_fields_ok p \<longleftrightarrow> bounded 1 128 (pa_workspace p) \<and> bounded 1 160 (pa_decision p)
     \<and> bounded 1 160 (pa_supersedes p) \<and> pa_scopes p \<noteq> {} \<and> bounded 1 128 (pa_permission p)
     \<and> bounded 1 1000 (pa_source p) \<and> bounded 1 500 (pa_title p) \<and> bounded 1 10000 (pa_text p)
     \<and> fingerprint_ok (pa_fingerprint p) \<and> bounded 1 255 (pa_instance p)"

definition make_pending :: "pending_approval \<Rightarrow> pending_approval result" where
  "make_pending raw = (let p = strip_pending raw in
     bind_r (check (pending_fields_ok p) ''Field constraints'') (\<lambda>_.
     bind_r (check (fst ` set (pa_requirements p) = pa_scopes p)
       ''Pending approval requirements must exactly match affected scopes.'') (\<lambda>_.
     bind_r (check (dt_aware (pa_effective p)) ''Pending approval effective_at must be timezone-aware.'') (\<lambda>_.
     bind_r (check (\<forall>r\<in>set (pa_refs p). strip r \<noteq> [])
       ''Pending approval evidence references must not be blank.'') (\<lambda>_. Inr p)))))"

definition approval_error :: "string \<Rightarrow> 'a result" where
  "approval_error message = Inl (ValueError message)"

text \<open>The references of the evidence spans, each once, after the source of the decision.\<close>

fun span_refs :: "pyval list \<Rightarrow> string list \<Rightarrow> string list" where
  "span_refs [] refs = refs"
| "span_refs (PDict d # spans) refs = (case dict_get d ''source_ref'' of
     Some (PStr r) \<Rightarrow> span_refs spans (if strip r \<noteq> [] \<and> r \<notin> set refs then refs @ [r] else refs)
   | _ \<Rightarrow> span_refs spans refs)"
| "span_refs (_ # spans) refs = span_refs spans refs"

definition evidence_refs :: "attributes \<Rightarrow> string \<Rightarrow> string list" where
  "evidence_refs attrs source = (case dict_get attrs ''extraction'' of
     Some (PDict x) \<Rightarrow> (case dict_get x ''validated_evidence_spans'' of
       Some (PList spans) \<Rightarrow> span_refs spans [source] | _ \<Rightarrow> [source])
   | _ \<Rightarrow> [source])"

definition present :: "string option \<Rightarrow> bool" where
  "present v \<longleftrightarrow> (case v of None \<Rightarrow> False | Some s \<Rightarrow> strip s \<noteq> [])"

definition pending_from_workspace :: "platform \<Rightarrow> workspace_view \<Rightarrow> pending_approval option result" where
  "pending_from_workspace P v = (case vw_pending v of None \<Rightarrow> Inr None | Some m \<Rightarrow>
     (let d = mut_decision m in
      case dict_get (art_attrs d) ''requirements'' of
        Some (PDict reqs) \<Rightarrow>
          if \<not> (present (Some (vw_id v)) \<and> present (Some (art_id d)) \<and> present (Some (mut_supersedes m))
               \<and> present (art_role d) \<and> present (art_source d) \<and> present (vw_pending_instance v))
          then approval_error ''The pending Decision is missing approval metadata.''
          else (case dict_values reqs of
            None \<Rightarrow> approval_error ''Pending Decision requirements are malformed.''
          | Some rs \<Rightarrow> (case art_effective d of
              None \<Rightarrow> approval_error ''The pending Decision has no effective time.''
            | Some t \<Rightarrow> map_sum id Some (make_pending
                \<lparr>pa_workspace = vw_id v, pa_decision = art_id d, pa_supersedes = mut_supersedes m,
                 pa_scopes = mut_scopes m, pa_permission = the (art_role d), pa_source = the (art_source d),
                 pa_title = art_title d, pa_text = (if art_text d = [] then art_title d else art_text d),
                 pa_effective = t, pa_requirements = rs, pa_fingerprint = mutation_hash P m,
                 pa_instance = the (vw_pending_instance v),
                 pa_refs = evidence_refs (art_attrs d) (the (art_source d))\<rparr>)))
      | _ \<Rightarrow> approval_error ''The pending Decision has no requirements.''))"

subsection \<open>What a workspace payload says of its assignments\<close>

definition actual_partition :: "workspace_view \<Rightarrow> string list \<times> string list" where
  "actual_partition v = (case vw_supervisor v of None \<Rightarrow> ([], [])
   | Some su \<Rightarrow> (let as = filter (\<lambda>a. as_id a \<noteq> []) (su_assignments su) in
       (sort (map as_id (filter (\<lambda>a. as_state a = AS_Interrupted) as)),
        sort (map as_id (filter (\<lambda>a. as_state a \<noteq> AS_Interrupted) as)))))"

subsection \<open>Nothing secret is in a view\<close>

definition blank_token :: "authorization_result option \<Rightarrow> authorization_result option" where
  "blank_token = map_option (\<lambda>r. r\<lparr>ar_grant := map_option (\<lambda>g. g\<lparr>sg_token := []\<rparr>) (ar_grant r)\<rparr>)"

text \<open>The record without what is confidential: tokens, the approval intent, Slack identities.\<close>

definition redact :: "live_record \<Rightarrow> live_record" where
  "redact w = w\<lparr>lw_initial := blank_token (lw_initial w), lw_conflict := blank_token (lw_conflict w),
     lw_replacement := blank_token (lw_replacement w), lw_intent := None, lw_context := [],
     lw_definition := (lw_definition w)\<lparr>ir_slack := map_option (\<lambda>b. b\<lparr>sb_identities := []\<rparr>) (ir_slack (lw_definition w))\<rparr>\<rparr>"

lemma view_of_blank [simp]: "view_of_result (blank_token r) = view_of_result r"
  by (simp add: view_of_result_def blank_token_def option.map_comp comp_def)

lemma from_record_redact: "from_record P (redact w) = from_record P w"
  by (simp add: from_record_def redact_def Let_def option.map_comp comp_def)

lemma from_record_confined:
  assumes "redact w = redact w'"
  shows "from_record P w = from_record P w'"
  using from_record_redact [of P w] from_record_redact [of P w'] assms by simp

subsection \<open>What a pending approval shows\<close>

lemma make_pending_checks:
  "make_pending raw = Inr p \<Longrightarrow> p = strip_pending raw \<and> pending_fields_ok p
     \<and> fst ` set (pa_requirements p) = pa_scopes p \<and> dt_aware (pa_effective p)"
  unfolding make_pending_def Let_def bind_r_eq_Inr check_Inr sum.inject by blast

lemma strip_pending_fields:
  "pa_scopes (strip_pending p) = strip ` pa_scopes p" "pa_fingerprint (strip_pending p) = strip (pa_fingerprint p)"
  "pa_decision (strip_pending p) = strip (pa_decision p)" "pa_permission (strip_pending p) = strip (pa_permission p)"
  "pa_instance (strip_pending p) = strip (pa_instance p)" "pa_workspace (strip_pending p) = strip (pa_workspace p)"
  by (simp_all add: strip_pending_def)

lemma map_sum_some: "map_sum id Some r = Inr (Some v) \<Longrightarrow> (r = Inr v \<Longrightarrow> Q) \<Longrightarrow> Q"
  by (cases r) auto

lemma pending_from_record:
  assumes "pending_from_workspace P (from_record P w) = Inr (Some p)"
  obtains m i where "lw_pending w = Some m" "lw_pending_instance w = Some i"
    "pa_fingerprint p = strip (mutation_hash P m)" "pa_decision p = strip (art_id (mut_decision m))"
    "pa_instance p = strip i" "pa_workspace p = strip (lw_id w)" "pa_scopes p = strip ` mut_scopes m"
    "map_option strip (art_role (mut_decision m)) = Some (pa_permission p)"
    "fst ` set (pa_requirements p) = pa_scopes p"
proof (cases "lw_pending w")
  case None
  then show ?thesis using assms by (simp add: pending_from_workspace_def)
next
  case (Some m)
  obtain raw where mk: "make_pending raw = Inr p" and raw: "pa_fingerprint raw = mutation_hash P m"
      "pa_decision raw = art_id (mut_decision m)" "pa_instance raw = the (lw_pending_instance w)"
      "pa_workspace raw = lw_id w" "pa_scopes raw = mut_scopes m" "pa_permission raw = the (art_role (mut_decision m))"
      and some: "present (lw_pending_instance w)" "present (art_role (mut_decision m))"
    using assms Some
    by (auto simp: pending_from_workspace_def Let_def approval_error_def
        split: option.splits pyval.splits if_splits elim!: map_sum_some)
  then obtain i r where ir: "lw_pending_instance w = Some i" "art_role (mut_decision m) = Some r"
    by (auto simp: present_def split: option.splits)
  have p: "p = strip_pending raw" and reqs: "fst ` set (pa_requirements p) = pa_scopes p"
    using make_pending_checks [OF mk] by blast+
  show ?thesis
    by (rule that [of m i]) (use Some raw ir reqs [unfolded p] strip_pending_fields [of raw] in \<open>simp_all add: p\<close>)
qed

end
