(* ===== verification/Intake.thy ===== *)
theory Intake
  imports Extractor Views
begin

text \<open>
  The way of a signed message to a reviewable proposal: the gate that parks noisy candidates
  (\<^verbatim>\<open>intake/gate.py\<close>), the decision a change supersedes and the proposal built for it
  (\<^verbatim>\<open>intake/decisions.py\<close>), and the parsing and routing of the delivery (\<^verbatim>\<open>intake/slack.py\<close>).
\<close>

subsection \<open>The gate\<close>

text \<open>A permission check may change the state of the checker; None is a HexclavePermissionError.\<close>

type_synonym 'h checker = "string \<Rightarrow> string \<Rightarrow> 'h \<Rightarrow> bool option \<times> 'h"

datatype gate_disposition = Gate_Pending | Gate_Parked

datatype gate_reason =
    Missing_Author
  | No_Affected_Scopes
  | Unknown_Scopes
  | Invalid_Confidence
  | Low_Confidence
  | No_Common_Permission
  | Author_Not_Authorized
  | Permission_Check_Unavailable

record gate_result =
  gt_disposition :: gate_disposition
  gt_reasons :: "gate_reason list"
  gt_scopes :: scopes
  gt_permission :: "string option"
  gt_checked :: "string list"

record intake_gate =
  ig_known :: scopes
  ig_policy :: "scopes dict"
  ig_threshold :: rat

definition normalized_values :: "string \<Rightarrow> scopes \<Rightarrow> scopes result" where
  "normalized_values label V = (let n = strip ` V in
     if [] \<in> n then Inl (ValueError (label @ '' values must not be blank'')) else Inr n)"

definition normalized_policy_entry :: "string \<times> scopes \<Rightarrow> scopes dict \<Rightarrow> scopes dict result" where
  "normalized_policy_entry e d = (case e of (s, permissions) \<Rightarrow>
     if strip s = [] then Inl (ValueError ''authority_policy scope names must not be blank'')
     else if strip s \<in> fst ` set d then
       Inl (ValueError ''authority_policy scope names must be unique after normalization'')
     else bind_r (normalized_values (''permission for scope '' @ py_repr s) permissions) (\<lambda>n.
       if n = {} then Inl (ValueError (''authority_policy has no permissions for scope '' @ py_repr (strip s)))
       else Inr (dict_set (strip s) n d)))"

text \<open>A float is None where it is not finite.\<close>

definition make_gate :: "scopes \<Rightarrow> scopes dict \<Rightarrow> rat option \<Rightarrow> intake_gate result" where
  "make_gate known policy threshold = (case threshold of
     None \<Rightarrow> Inl (ValueError ''confidence_threshold must be between zero and one'')
   | Some t \<Rightarrow> if t < 0 \<or> 1 < t then Inl (ValueError ''confidence_threshold must be between zero and one'')
     else bind_r (normalized_values ''known scope'' known) (\<lambda>K.
       if K = {} then Inl (ValueError ''known_scopes must contain at least one scope'')
       else bind_r (fold_r normalized_policy_entry policy []) (\<lambda>d.
         if fst ` set d \<noteq> K then Inl (ValueError ''authority_policy scopes must exactly match known_scopes'')
         else Inr \<lparr>ig_known = K, ig_policy = d, ig_threshold = t\<rparr>)))"

definition permitted :: "scopes dict \<Rightarrow> string \<Rightarrow> scopes" where
  "permitted d s = (case dict_get d s of None \<Rightarrow> {} | Some ps \<Rightarrow> ps)"

definition common_permissions :: "scopes dict \<Rightarrow> scopes \<Rightarrow> scopes" where
  "common_permissions d S = (case map (permitted d) (sorted_list_of_set S) of
     [] \<Rightarrow> {} | P # Ps \<Rightarrow> fold (\<lambda>Q common. common \<inter> Q) Ps P)"

definition gate_scopes :: "scopes \<Rightarrow> scopes" where
  "gate_scopes S = {s \<in> strip ` S. s \<noteq> []}"

definition gate_reasons :: "intake_gate \<Rightarrow> string \<Rightarrow> scopes \<Rightarrow> rat option \<Rightarrow> gate_reason list" where
  "gate_reasons g author S confidence =
     (if author = [] then [Missing_Author] else [])
     @ (if S = {} then [No_Affected_Scopes] else [])
     @ (if S \<subseteq> ig_known g then [] else [Unknown_Scopes])
     @ (case confidence of None \<Rightarrow> [Invalid_Confidence]
        | Some c \<Rightarrow> if c < 0 \<or> 1 < c then [Invalid_Confidence]
            else if c < ig_threshold g then [Low_Confidence] else [])
     @ (if S \<noteq> {} \<and> S \<subseteq> ig_known g \<and> common_permissions (ig_policy g) S = {} then [No_Common_Permission] else [])"

definition parked :: "gate_reason list \<Rightarrow> scopes \<Rightarrow> string list \<Rightarrow> gate_result" where
  "parked reasons S checked = \<lparr>gt_disposition = Gate_Parked, gt_reasons = reasons, gt_scopes = S,
     gt_permission = None, gt_checked = checked\<rparr>"

fun check_permissions ::
  "'h checker \<Rightarrow> string \<Rightarrow> scopes \<Rightarrow> string list \<Rightarrow> string list \<Rightarrow> 'h \<Rightarrow> gate_result \<times> 'h"
where
  "check_permissions chk author S checked [] h = (parked [Author_Not_Authorized] S checked, h)"
| "check_permissions chk author S checked (p # ps) h = (case chk author p h of
     (None, h') \<Rightarrow> (parked [Permission_Check_Unavailable] S (checked @ [p]), h')
   | (Some True, h') \<Rightarrow> (\<lparr>gt_disposition = Gate_Pending, gt_reasons = [], gt_scopes = S, gt_permission = Some p,
       gt_checked = checked @ [p]\<rparr>, h')
   | (Some False, h') \<Rightarrow> check_permissions chk author S (checked @ [p]) ps h')"

definition gate_evaluate :: "intake_gate \<Rightarrow> 'h checker \<Rightarrow> string \<Rightarrow> scopes \<Rightarrow> rat option \<Rightarrow> 'h \<Rightarrow> gate_result \<times> 'h" where
  "gate_evaluate g chk author_id affected confidence h =
     (let author = strip author_id; S = gate_scopes affected; reasons = gate_reasons g author S confidence
      in if reasons \<noteq> [] then (parked reasons S [], h)
         else check_permissions chk author S [] (sorted_list_of_set (common_permissions (ig_policy g) S)) h)"

subsection \<open>What passes the gate\<close>

lemma fold_inter: "fold (\<lambda>Q C. C \<inter> Q) Ps P = P \<inter> \<Inter>(set Ps)"
  by (induction Ps arbitrary: P) auto

lemma common_permissions_iff:
  assumes "finite S"
  shows "p \<in> common_permissions d S \<longleftrightarrow> S \<noteq> {} \<and> (\<forall>s\<in>S. p \<in> permitted d s)"
proof (cases "sorted_list_of_set S")
  case Nil
  then have "S = {}" using assms by (metis set_sorted_list_of_set list.set(1))
  then show ?thesis by (simp add: common_permissions_def)
next
  case (Cons s ss)
  then have "S = insert s (set ss)" using assms by (metis set_sorted_list_of_set list.set(2))
  then show ?thesis using Cons by (auto simp: common_permissions_def fold_inter)
qed

lemma check_permissions_cases:
  assumes "check_permissions chk author S checked ps h = (r, h')"
  shows "(gt_disposition r = Gate_Parked \<and> gt_permission r = None)
    \<or> (gt_disposition r = Gate_Pending \<and> (\<exists>p h0. gt_permission r = Some p \<and> p \<in> set ps \<and> chk author p h0 = (Some True, h')
         \<and> (\<exists>qs. gt_checked r = checked @ qs @ [p] \<and> set qs \<subseteq> set ps)))"
  using assms
proof (induction chk author S checked ps h arbitrary: r h' rule: check_permissions.induct)
  case (1 chk author S checked h)
  then show ?case by (auto simp: parked_def)
next
  case (2 chk author S checked p ps h)
  obtain a h1 where a: "chk author p h = (a, h1)" by (rule prod.exhaust)
  consider "a = None" | "a = Some True" | "a = Some False" by (cases a) auto
  then show ?case
  proof cases
    case 1
    then show ?thesis using 2 a by (auto simp: parked_def)
  next
    case 2
    then show ?thesis using "2.prems" a by (auto intro: exI [of _ "[]"])
  next
    case 3
    then have step: "check_permissions chk author S (checked @ [p]) ps h1 = (r, h')" using 2 a by simp
    from "2.IH" [OF a [symmetric] 3 _ step] show ?thesis
      by (fastforce intro: exI [of _ "p # _"])
  qed
qed

text \<open>
  A candidate is pending only where its author just proved to hold a permission that every one of its
  scopes asks for, and where nothing about it is in doubt.
\<close>

definition clear :: "intake_gate \<Rightarrow> string \<Rightarrow> scopes \<Rightarrow> rat option \<Rightarrow> bool" where
  "clear g author S confidence \<longleftrightarrow> author \<noteq> [] \<and> S \<noteq> {} \<and> S \<subseteq> ig_known g
     \<and> (\<exists>c. confidence = Some c \<and> ig_threshold g \<le> c \<and> 0 \<le> c \<and> c \<le> 1) \<and> common_permissions (ig_policy g) S \<noteq> {}"

lemma gate_reasons_Nil: "gate_reasons g author S confidence = [] \<longleftrightarrow> clear g author S confidence"
  by (cases confidence) (auto simp: gate_reasons_def clear_def not_less)

lemma sorted_list_of_set_subset: "set (sorted_list_of_set A) \<subseteq> A"
  by (cases "finite A") auto

lemma gate_pending:
  assumes "gate_evaluate g chk author_id affected confidence h = (r, h')" and "gt_disposition r = Gate_Pending"
    and "finite affected"
  obtains p h0 where "gt_permission r = Some p" and "chk (strip author_id) p h0 = (Some True, h')"
    and "\<forall>s\<in>gate_scopes affected. p \<in> permitted (ig_policy g) s"
    and "clear g (strip author_id) (gate_scopes affected) confidence"
proof -
  let ?S = "gate_scopes affected"
  have fin: "finite ?S" using assms(3) by (simp add: gate_scopes_def)
  have ok: "gate_reasons g (strip author_id) ?S confidence = []"
    using assms(1,2) by (auto simp: gate_evaluate_def Let_def parked_def split: if_splits)
  then have "check_permissions chk (strip author_id) ?S [] (sorted_list_of_set (common_permissions (ig_policy g) ?S)) h = (r, h')"
    using assms(1) by (simp add: gate_evaluate_def Let_def)
  from check_permissions_cases [OF this] obtain p h0 where "gt_permission r = Some p"
      "chk (strip author_id) p h0 = (Some True, h')" "p \<in> set (sorted_list_of_set (common_permissions (ig_policy g) ?S))"
    using assms(2) by auto
  then show thesis
    using that sorted_list_of_set_subset [of "common_permissions (ig_policy g) ?S"]
      common_permissions_iff [OF fin] ok [unfolded gate_reasons_Nil] by blast
qed

lemma gate_parked: "gate_evaluate g chk author_id affected confidence h = (r, h') \<Longrightarrow> gt_disposition r = Gate_Parked
  \<Longrightarrow> gt_permission r = None"
  by (auto simp: gate_evaluate_def Let_def parked_def split: if_splits dest!: check_permissions_cases)

text \<open>The checker is asked nothing while a reason stands.\<close>

lemma gate_asks_nothing:
  "\<not> clear g (strip author_id) (gate_scopes affected) confidence \<Longrightarrow> snd (gate_evaluate g chk author_id affected confidence h) = h"
  by (simp add: gate_evaluate_def Let_def gate_reasons_Nil)

subsection \<open>The decision that a change supersedes\<close>

text \<open>The first of the greatest: the head of the list after a stable descending sort.\<close>

fun greatest_by :: "('a \<Rightarrow> 'k::linorder) \<Rightarrow> 'a list \<Rightarrow> 'a option" where
  "greatest_by key [] = None"
| "greatest_by key (x # xs) = (case greatest_by key xs of None \<Rightarrow> Some x
     | Some y \<Rightarrow> if key x < key y then Some y else Some x)"

lemma greatest_by_None [simp]: "greatest_by key xs = None \<longleftrightarrow> xs = []"
  by (cases xs) (auto split: option.splits)

lemma greatest_by_SomeD: "greatest_by key xs = Some x \<Longrightarrow> x \<in> set xs \<and> (\<forall>y\<in>set xs. key y \<le> key x)"
proof (induction xs arbitrary: x)
  case (Cons a xs)
  show ?case
  proof (cases "greatest_by key xs")
    case None
    then show ?thesis using Cons.prems by auto
  next
    case (Some y)
    then have "y \<in> set xs \<and> (\<forall>z\<in>set xs. key z \<le> key y)" by (rule Cons.IH)
    then show ?thesis using Cons.prems Some by (auto split: if_splits dest: order.trans)
  qed
qed simp

definition supersedable :: "scopes \<Rightarrow> artifact \<Rightarrow> bool" where
  "supersedable S d \<longleftrightarrow> art_kind d = Decision \<and> art_approval d = Some Approved \<and> S \<subseteq> art_scopes d
     \<and> S \<inter> art_invalidated d = {}"

definition recency :: "(datetime \<Rightarrow> string) \<Rightarrow> artifact \<Rightarrow> bool \<times> string \<times> string" where
  "recency isof d = (case art_effective d of None \<Rightarrow> (False, [], art_id d) | Some t \<Rightarrow> (True, isof t, art_id d))"

definition draft_error :: "string \<Rightarrow> py_error" where
  "draft_error m = Raised ''DecisionDraftError'' m"

definition select_supersession_target :: "(datetime \<Rightarrow> string) \<Rightarrow> artifact list \<Rightarrow> scopes \<Rightarrow> artifact result" where
  "select_supersession_target isof ds S = (case greatest_by (recency isof) (filter (supersedable S) ds) of
     None \<Rightarrow> Inl (draft_error ''No current approved Decision covers every affected scope.'')
   | Some d \<Rightarrow> Inr d)"

definition select_seeded_supersession_root :: "artifact list \<Rightarrow> scopes \<Rightarrow> string \<Rightarrow> artifact result" where
  "select_seeded_supersession_root ds S root_id = (case filter (\<lambda>d. art_id d = strip root_id \<and> art_kind d = Decision
       \<and> art_approval d = Some Approved \<and> S \<subseteq> art_scopes d) ds of
     [d] \<Rightarrow> Inr d
   | _ \<Rightarrow> Inl (draft_error ''The seeded supersession Decision does not cover every affected scope.''))"

lemma select_supersession_targetD:
  assumes "select_supersession_target isof ds S = Inr d"
  shows "d \<in> set ds \<and> supersedable S d \<and> (\<forall>e\<in>set ds. supersedable S e \<longrightarrow> recency isof e \<le> recency isof d)"
  using assms greatest_by_SomeD [of "recency isof" "filter (supersedable S) ds" d]
  by (auto simp: select_supersession_target_def split: option.splits)

lemma select_seeded_supersession_rootD:
  assumes "select_seeded_supersession_root ds S root_id = Inr d"
  shows "d \<in> set ds \<and> art_id d = strip root_id \<and> art_kind d = Decision \<and> art_approval d = Some Approved \<and> S \<subseteq> art_scopes d"
proof -
  let ?p = "\<lambda>d. art_id d = strip root_id \<and> art_kind d = Decision \<and> art_approval d = Some Approved \<and> S \<subseteq> art_scopes d"
  have "filter ?p ds = [d]"
    using assms by (auto simp: select_seeded_supersession_root_def split: list.splits)
  then have "d \<in> set (filter ?p ds)" by simp
  then show ?thesis by simp
qed

subsection \<open>The proposal\<close>

definition requirement_copy :: "pyval dict \<Rightarrow> string \<Rightarrow> string \<times> pyval" where
  "requirement_copy reqs s = (s, case dict_get reqs s of Some (PDict r) \<Rightarrow> PDict r | _ \<Rightarrow> PDict [])"

definition proposal_attributes ::
  "(datetime \<Rightarrow> string) \<Rightarrow> extraction \<Rightarrow> pyval dict \<Rightarrow> string \<Rightarrow> string \<Rightarrow> string \<Rightarrow> datetime \<Rightarrow> attributes"
where
  "proposal_attributes isof x reqs source author user delivered =
     (let d = mut_decision (xt_mutation x) in dict_update (art_attrs d)
       [(''requirements'', PDict (map (requirement_copy reqs) (sorted_list_of_set (mut_scopes (xt_mutation x))))),
        (''extraction'', PDict [(''source'', PStr ''composio-slack''), (''author_user_id'', PStr author),
          (''authority_user_id'', PStr user), (''delivered_at'', PStr (isof delivered)),
          (''extraction_confidence'', PFloat (art_confidence d)), (''human_reviewed'', PBool False),
          (''review_required'', PBool True),
          (''validated_evidence_spans'', PList (map (span_dump source) (xt_spans x)))])])"

definition proposed_decision ::
  "(datetime \<Rightarrow> string) \<Rightarrow> extraction \<Rightarrow> pyval dict \<Rightarrow> string \<Rightarrow> string \<Rightarrow> string \<Rightarrow> datetime \<Rightarrow> string \<Rightarrow> artifact"
where
  "proposed_decision isof x reqs source author user delivered permission =
     (mut_decision (xt_mutation x))\<lparr>art_kind := Decision, art_approval := Some Proposal, art_role := Some permission,
       art_effective := Some delivered, art_source := Some source, art_scopes := mut_scopes (xt_mutation x),
       art_validity := Valid, art_invalidated := {},
       art_attrs := proposal_attributes isof x reqs source author user delivered\<rparr>"

definition build_workspace_proposal ::
  "(datetime \<Rightarrow> string) \<Rightarrow> extraction \<Rightarrow> string \<Rightarrow> string \<Rightarrow> string \<Rightarrow> string \<Rightarrow> datetime \<Rightarrow> artifact \<Rightarrow> string
    \<Rightarrow> proposal_request result"
where
  "build_workspace_proposal isof x raw source author user delivered superseded permission =
     (if art_kind superseded \<noteq> Decision then Inl (draft_error ''The supersession target must be a Decision.'')
      else if \<not> dt_aware delivered then Inl (draft_error ''Slack delivery timestamps must be timezone-aware.'')
      else if strip source = [] then Inl (draft_error ''A signed Slack source reference is required.'')
      else if strip author = [] then Inl (draft_error ''The Slack author user ID is required.'')
      else if strip user = [] then Inl (draft_error ''A bound Hexclave authority user ID is required.'')
      else if strip permission = [] then Inl (draft_error ''An authority permission ID is required.'')
      else case evidence_span_error raw (xt_spans x) of Some e \<Rightarrow> Inl (draft_error e)
      | None \<Rightarrow> (case extracted_requirements_error x of Some e \<Rightarrow> Inl (draft_error e)
      | None \<Rightarrow> if \<not> mut_scopes (xt_mutation x) \<subseteq> art_scopes superseded then
          Inl (draft_error ''The extracted change includes scopes absent from the superseded Decision.'')
        else (case dict_get (art_attrs (mut_decision (xt_mutation x))) ''requirements'' of
          Some (PDict reqs) \<Rightarrow>
            (let p = \<lparr>wp_decision = proposed_decision isof x reqs source author user delivered permission,
                  wp_supersedes = art_id superseded, wp_scopes = mut_scopes (xt_mutation x)\<rparr>
             in bind_r (validate_proposal p) (\<lambda>_. Inr p))
        | _ \<Rightarrow> Inl (RuntimeError ''assert isinstance(requirements, dict)''))))"

lemma extracted_requirements_None:
  assumes "extracted_requirements_error x = None"
  obtains reqs where "dict_get (art_attrs (mut_decision (xt_mutation x))) ''requirements'' = Some (PDict reqs)"
    and "fst ` set reqs = mut_scopes (xt_mutation x)" and "mut_scopes (xt_mutation x) \<noteq> {}"
    and "\<forall>(s, v)\<in>set reqs. nonempty_dict v"
  using assms by (auto simp: extracted_requirements_error_def Let_def list_all_iff
    split: if_splits option.splits pyval.splits)

text \<open>The assertion in the middle never fails: what it asks for has been checked.\<close>

lemma build_never_asserts: "build_workspace_proposal isof x raw source author user delivered target permission
  \<noteq> Inl (RuntimeError ''assert isinstance(requirements, dict)'')"
proof (cases "extracted_requirements_error x")
  case None
  then obtain reqs where "dict_get (art_attrs (mut_decision (xt_mutation x))) ''requirements'' = Some (PDict reqs)"
    by (rule extracted_requirements_None)
  then show ?thesis using None
    by (auto simp: build_workspace_proposal_def draft_error_def Let_def bind_r_def validate_proposal_def check_def
      split: option.splits sum.splits)
next
  case (Some e)
  then show ?thesis by (simp add: build_workspace_proposal_def draft_error_def split: option.split)
qed

lemma buildD:
  assumes "build_workspace_proposal isof x raw source author user delivered target permission = Inr p"
  obtains reqs where "dict_get (art_attrs (mut_decision (xt_mutation x))) ''requirements'' = Some (PDict reqs)"
    and "fst ` set reqs = mut_scopes (xt_mutation x)" and "mut_scopes (xt_mutation x) \<noteq> {}"
    and "\<forall>(s, v)\<in>set reqs. nonempty_dict v" and "validate_proposal p = Inr ()"
    and "p = \<lparr>wp_decision = proposed_decision isof x reqs source author user delivered permission,
      wp_supersedes = art_id target, wp_scopes = mut_scopes (xt_mutation x)\<rparr>"
    and "\<forall>s\<in>set (xt_spans x). quotes raw s" and "mut_scopes (xt_mutation x) \<subseteq> art_scopes target"
proof -
  have ok: "extracted_requirements_error x = None" "evidence_span_error raw (xt_spans x) = None"
    using assms by (auto simp: build_workspace_proposal_def split: if_splits option.splits)
  from ok(1) obtain reqs where r: "dict_get (art_attrs (mut_decision (xt_mutation x))) ''requirements'' = Some (PDict reqs)"
      "fst ` set reqs = mut_scopes (xt_mutation x)" "mut_scopes (xt_mutation x) \<noteq> {}" "\<forall>(s, v)\<in>set reqs. nonempty_dict v"
    by (rule extracted_requirements_None)
  show thesis
  proof (rule that [OF r])
    show "validate_proposal p = Inr ()" "p = \<lparr>wp_decision = proposed_decision isof x reqs source author user delivered permission,
      wp_supersedes = art_id target, wp_scopes = mut_scopes (xt_mutation x)\<rparr>" "mut_scopes (xt_mutation x) \<subseteq> art_scopes target"
      using assms ok r(1) by (auto simp: build_workspace_proposal_def Let_def split: if_splits)
    show "\<forall>s\<in>set (xt_spans x). quotes raw s" using ok(2) by (simp add: evidence_span_error_None)
  qed
qed

subsection \<open>Signed deliveries\<close>

text \<open>
  The verifier of the trigger service is not of this program: the schema of a trigger type, and the parsing of
  a body under its headers and a secret, which raises (None) unless the signature holds. The numbers in a
  timestamp are the standard library's: \<open>Decimal\<close> (None raises, Some None is not finite) and \<open>fromtimestamp\<close>.
\<close>

record triggers =
  tg_schema :: "string \<Rightarrow> attributes result"
  tg_parse :: "string \<Rightarrow> attributes \<Rightarrow> string \<Rightarrow> attributes option"
  tg_decimal :: "string \<Rightarrow> rat option option"
  tg_fromtimestamp :: "rat \<Rightarrow> datetime result"

record slack_verifier =
  vf_triggers :: triggers
  vf_secret :: string

definition CHANNEL_MESSAGE_SLUG :: string where
  "CHANNEL_MESSAGE_SLUG = ''SLACK_CHANNEL_MESSAGE_RECEIVED''"

definition REACTION_ADDED_SLUG :: string where
  "REACTION_ADDED_SLUG = ''SLACK_MESSAGE_REACTION_ADDED''"

definition message_fields :: "string list" where
  "message_fields = [''channel'', ''team_id'', ''text'', ''ts'', ''user'']"

definition reaction_fields :: "string list" where
  "reaction_fields = [''event_ts'', ''message_channel'', ''message_ts'', ''reaction'', ''team_id'', ''user'']"

definition webhook_error :: "string \<Rightarrow> 'a result" where
  "webhook_error m = Inl (Raised ''SlackWebhookError'' m)"

lemma webhook_error_Inr [simp]: "webhook_error m \<noteq> Inr x"
  by (simp add: webhook_error_def)

text \<open>A check that raises, and a value that must be there.\<close>

definition need :: "bool \<Rightarrow> string \<Rightarrow> unit result" where
  "need c m = (if c then Inr () else webhook_error m)"

definition given :: "'a option \<Rightarrow> string \<Rightarrow> 'a result" where
  "given v m = (case v of None \<Rightarrow> webhook_error m | Some x \<Rightarrow> Inr x)"

lemma need_Inr [simp]: "need c m = Inr u \<longleftrightarrow> c"
  by (simp add: need_def webhook_error_def)

lemma given_Inr [simp]: "given v m = Inr x \<longleftrightarrow> v = Some x"
  by (simp add: given_def webhook_error_def split: option.split)

definition mapping_at :: "attributes \<Rightarrow> string \<Rightarrow> attributes option" where
  "mapping_at d k = (case dict_get d k of Some (PDict m) \<Rightarrow> Some m | _ \<Rightarrow> None)"

definition string_at :: "attributes \<Rightarrow> string \<Rightarrow> string option" where
  "string_at d k = (case dict_get d k of Some (PStr v) \<Rightarrow> Some v | _ \<Rightarrow> None)"

definition validate_trigger_schema :: "triggers \<Rightarrow> string \<Rightarrow> string list \<Rightarrow> unit result" where
  "validate_trigger_schema T slug expected = bind_r (tg_schema T slug) (\<lambda>schema.
     bind_r (given (mapping_at schema ''properties'')
         (''Composio trigger '' @ slug @ '' returned no payload property schema.'')) (\<lambda>properties.
       let missing = filter (\<lambda>f. f \<notin> fst ` set properties) expected in
       need (missing = []) (''Composio trigger '' @ slug @ '' is missing expected payload fields: '' @ join '', '' missing)))"

definition make_verifier :: "triggers \<Rightarrow> string \<Rightarrow> slack_verifier result" where
  "make_verifier T secret =
     bind_r (need (secret \<noteq> []) ''COMPOSIO_WEBHOOK_SECRET must be configured.'') (\<lambda>_.
     bind_r (validate_trigger_schema T CHANNEL_MESSAGE_SLUG message_fields) (\<lambda>_.
     bind_r (validate_trigger_schema T REACTION_ADDED_SLUG reaction_fields) (\<lambda>_.
     Inr \<lparr>vf_triggers = T, vf_secret = secret\<rparr>)))"

definition delivery_header :: "string \<times> pyval \<Rightarrow> string option" where
  "delivery_header e = (case e of
     (k, PStr v) \<Rightarrow> if casefold k = ''webhook-id'' \<and> strip v \<noteq> [] then Some (strip v) else None
   | _ \<Rightarrow> None)"

definition webhook_delivery_id :: "attributes \<Rightarrow> string result" where
  "webhook_delivery_id headers = (case List.find (\<lambda>e. delivery_header e \<noteq> None) headers of
     None \<Rightarrow> webhook_error ''The verified Composio delivery has no webhook ID.''
   | Some e \<Rightarrow> given (delivery_header e) [])"

definition parse_delivery ::
  "slack_verifier \<Rightarrow> string \<Rightarrow> attributes \<Rightarrow> string \<Rightarrow> (attributes \<times> attributes \<times> string) result"
where
  "parse_delivery vf body headers slug =
     bind_r (given (tg_parse (vf_triggers vf) body headers (vf_secret vf))
         ''Composio webhook signature or payload verification failed.'') (\<lambda>parsed.
     bind_r (webhook_delivery_id headers) (\<lambda>i.
     bind_r (need (string_at parsed ''version'' = Some ''V3'') ''Only Composio V3 webhook envelopes are accepted.'') (\<lambda>_.
     bind_r (given (mapping_at parsed ''payload'') ''Composio returned no normalized trigger event.'') (\<lambda>event.
     bind_r (need (string_at event ''trigger_slug'' = Some slug) ''The signed webhook has the wrong trigger type.'') (\<lambda>_.
     bind_r (need (map_option casefold (string_at event ''toolkit_slug'') = Some ''slack'')
         ''The signed webhook is not a Slack event.'') (\<lambda>_.
     bind_r (given (mapping_at event ''payload'') ''The Slack trigger payload is missing.'') (\<lambda>payload.
     Inr (event, payload, i))))))))"

definition required_string :: "attributes \<Rightarrow> string \<Rightarrow> (string \<times> string) result" where
  "required_string payload f = (let m = ''The verified Slack payload is missing required field '' @ py_repr f @ ''.'' in
     bind_r (given (string_at payload f) m) (\<lambda>v. bind_r (need (strip v \<noteq> []) m) (\<lambda>_. Inr (f, strip v))))"

definition require_strings :: "attributes \<Rightarrow> string list \<Rightarrow> string dict result" where
  "require_strings payload names = map_r (required_string payload) names"

definition connection_user_id :: "attributes \<Rightarrow> string result" where
  "connection_user_id event = (let m = ''The Composio connection must use an explicit non-default user ID.'' in
     bind_r (given (string_at event ''user_id'') m) (\<lambda>v.
     bind_r (need (strip v \<noteq> [] \<and> casefold (strip v) \<noteq> ''default'') m) (\<lambda>_. Inr (strip v))))"

definition slack_timestamp :: "triggers \<Rightarrow> string \<Rightarrow> datetime result" where
  "slack_timestamp T v = (case tg_decimal T v of
     Some (Some seconds) \<Rightarrow> if 0 < seconds then tg_fromtimestamp T seconds
       else webhook_error ''Slack supplied an invalid event timestamp.''
   | _ \<Rightarrow> webhook_error ''Slack supplied an invalid event timestamp.'')"

record slack_message =
  sm_event :: string
  sm_connection :: string
  sm_author :: string
  sm_team :: string
  sm_channel :: string
  sm_ts :: string
  sm_delivered :: datetime
  sm_text :: string
  sm_source :: string

record slack_reaction =
  sr_event :: string
  sr_connection :: string
  sr_user :: string
  sr_team :: string
  sr_channel :: string
  sr_ts :: string
  sr_reaction :: string
  sr_delivered :: datetime
  sr_evidence :: string

text \<open>Every string that reaches these models is stripped already.\<close>

definition slack_message_ok :: "slack_message \<Rightarrow> bool" where
  "slack_message_ok m \<longleftrightarrow> bounded 1 255 (sm_event m) \<and> bounded 1 255 (sm_connection m) \<and> bounded 1 255 (sm_author m)
     \<and> bounded 1 255 (sm_team m) \<and> bounded 1 255 (sm_channel m) \<and> bounded 1 64 (sm_ts m)
     \<and> bounded 1 40000 (sm_text m) \<and> bounded 1 1000 (sm_source m)"

definition slack_reaction_ok :: "slack_reaction \<Rightarrow> bool" where
  "slack_reaction_ok m \<longleftrightarrow> bounded 1 255 (sr_event m) \<and> bounded 1 255 (sr_connection m) \<and> bounded 1 255 (sr_user m)
     \<and> bounded 1 255 (sr_team m) \<and> bounded 1 255 (sr_channel m) \<and> bounded 1 64 (sr_ts m)
     \<and> bounded 1 255 (sr_reaction m) \<and> bounded 1 1000 (sr_evidence m)"

definition field_of :: "string dict \<Rightarrow> string \<Rightarrow> string" where
  "field_of d k = (case dict_get d k of None \<Rightarrow> [] | Some v \<Rightarrow> v)"

definition parse_message :: "slack_verifier \<Rightarrow> string \<Rightarrow> attributes \<Rightarrow> slack_message result" where
  "parse_message vf body headers =
     bind_r (parse_delivery vf body headers CHANNEL_MESSAGE_SLUG) (\<lambda>(event, payload, i).
     bind_r (require_strings payload message_fields) (\<lambda>d.
     bind_r (connection_user_id event) (\<lambda>connection.
     bind_r (slack_timestamp (vf_triggers vf) (field_of d ''ts'')) (\<lambda>t.
       let m = \<lparr>sm_event = i, sm_connection = connection, sm_author = field_of d ''user'', sm_team = field_of d ''team_id'',
           sm_channel = field_of d ''channel'', sm_ts = field_of d ''ts'', sm_delivered = t, sm_text = field_of d ''text'',
           sm_source = ''slack://'' @ field_of d ''team_id'' @ ''/'' @ field_of d ''channel'' @ ''/'' @ field_of d ''ts''\<rparr>
       in bind_r (check (slack_message_ok m) ''String should match its bounds'') (\<lambda>_. Inr m)))))"

definition parse_reaction :: "slack_verifier \<Rightarrow> string \<Rightarrow> attributes \<Rightarrow> slack_reaction result" where
  "parse_reaction vf body headers =
     bind_r (parse_delivery vf body headers REACTION_ADDED_SLUG) (\<lambda>(event, payload, i).
     bind_r (require_strings payload reaction_fields) (\<lambda>d.
     bind_r (connection_user_id event) (\<lambda>connection.
     bind_r (slack_timestamp (vf_triggers vf) (field_of d ''event_ts'')) (\<lambda>t.
       let m = \<lparr>sr_event = i, sr_connection = connection, sr_user = field_of d ''user'', sr_team = field_of d ''team_id'',
           sr_channel = field_of d ''message_channel'', sr_ts = field_of d ''message_ts'', sr_reaction = field_of d ''reaction'',
           sr_delivered = t, sr_evidence = ''slack://'' @ field_of d ''team_id'' @ ''/'' @ field_of d ''message_channel'' @ ''/''
             @ field_of d ''message_ts'' @ ''#reaction-'' @ field_of d ''event_ts''\<rparr>
       in bind_r (check (slack_reaction_ok m) ''String should match its bounds'') (\<lambda>_. Inr m)))))"

text \<open>What comes out of a parse was signed under the secret, is of the expected type, and has no blank field.\<close>

lemma parse_deliveryD:
  assumes "parse_delivery vf body headers slug = Inr (event, payload, i)"
  shows "\<exists>parsed. tg_parse (vf_triggers vf) body headers (vf_secret vf) = Some parsed
    \<and> mapping_at parsed ''payload'' = Some event \<and> string_at event ''trigger_slug'' = Some slug
    \<and> mapping_at event ''payload'' = Some payload \<and> webhook_delivery_id headers = Inr i"
  using assms by (auto simp: parse_delivery_def)

lemma require_strings_get:
  assumes "require_strings payload names = Inr d" and "k \<in> set names" and "distinct names"
  shows "\<exists>v. string_at payload k = Some v \<and> dict_get d k = Some (strip v) \<and> strip v \<noteq> []"
proof -
  have rel: "list_all2 (\<lambda>f e. required_string payload f = Inr e) names d"
    using assms(1) by (simp add: require_strings_def map_r_Inr)
  have one: "required_string payload f = Inr e \<Longrightarrow> \<exists>v. e = (f, strip v) \<and> string_at payload f = Some v \<and> strip v \<noteq> []" for f e
    by (auto simp: required_string_def Let_def)
  from rel assms(2) show ?thesis
  proof (induction rule: list_all2_induct)
    case (Cons f fs e es)
    from one [OF Cons.hyps(1)] obtain v where v: "e = (f, strip v)" "string_at payload f = Some v" "strip v \<noteq> []" by blast
    show ?case
    proof (cases "k = f")
      case True
      then show ?thesis using v by simp
    next
      case False
      then show ?thesis using Cons v by simp
    qed
  qed simp
qed

subsection \<open>From a delivery to a proposal\<close>

text \<open>The extractor is the language model's adapter: a text and the scopes it may use give a candidate, or raise.\<close>

type_synonym extractor = "string \<Rightarrow> scopes \<Rightarrow> extraction result"

record 'h slack_intake =
  in_verifier :: slack_verifier
  in_extractor :: extractor
  in_gate :: intake_gate
  in_checker :: "'h checker"
  in_isoformat :: "datetime \<Rightarrow> string"

record intake_outcome =
  io_workspace :: string
  io_message :: slack_message
  io_gate :: gate_result
  io_proposal :: "proposal_request option"

definition intake_proposal ::
  "(datetime \<Rightarrow> string) \<Rightarrow> slack_message \<Rightarrow> extraction \<Rightarrow> gate_result \<Rightarrow> artifact list \<Rightarrow> string \<Rightarrow> string \<Rightarrow> proposal_request result"
where
  "intake_proposal isof m x gr decisions user root_id =
     bind_r (given (gt_permission gr) ''The intake gate returned no authority permission.'') (\<lambda>permission.
     bind_r (select_seeded_supersession_root decisions (mut_scopes (xt_mutation x)) root_id) (\<lambda>target.
     build_workspace_proposal isof x (sm_text m) (sm_source m) (sm_author m) user (sm_delivered m) target permission))"

definition ingest_verified ::
  "'h slack_intake \<Rightarrow> string \<Rightarrow> slack_message \<Rightarrow> artifact list \<Rightarrow> string \<Rightarrow> string \<Rightarrow> ('h, intake_outcome) op"
where
  "ingest_verified I w m decisions user root_id h = (case in_extractor I (sm_text m) (ig_known (in_gate I)) of
     Inl e \<Rightarrow> (Inl e, h)
   | Inr x \<Rightarrow> (case gate_evaluate (in_gate I) (in_checker I) user (mut_scopes (xt_mutation x))
         (Some (art_confidence (mut_decision (xt_mutation x)))) h of (gr, h') \<Rightarrow>
       if gt_disposition gr = Gate_Parked then
         (Inr \<lparr>io_workspace = w, io_message = m, io_gate = gr, io_proposal = None\<rparr>, h')
       else (case intake_proposal (in_isoformat I) m x gr decisions user root_id of
           Inl e \<Rightarrow> (Inl e, h')
         | Inr p \<Rightarrow> (Inr \<lparr>io_workspace = w, io_message = m, io_gate = gr, io_proposal = Some p\<rparr>, h'))))"

definition ingest ::
  "'h slack_intake \<Rightarrow> string \<Rightarrow> string \<Rightarrow> attributes \<Rightarrow> artifact list \<Rightarrow> string \<Rightarrow> string \<Rightarrow> ('h, intake_outcome) op"
where
  "ingest I w body headers decisions user root_id = bind_op (read_op (\<lambda>_. parse_message (in_verifier I) body headers))
     (\<lambda>m. ingest_verified I w m decisions user root_id)"

subsection \<open>What intake promises\<close>

lemma ingest_proposes:
  assumes "ingest_verified I w m ds user root_id h = (Inr out, h')" and "io_proposal out = Some p"
  obtains x gr permission target where "in_extractor I (sm_text m) (ig_known (in_gate I)) = Inr x"
    and "gate_evaluate (in_gate I) (in_checker I) user (mut_scopes (xt_mutation x))
         (Some (art_confidence (mut_decision (xt_mutation x)))) h = (gr, h')"
    and "gt_disposition gr = Gate_Pending" and "gt_permission gr = Some permission" and "io_gate out = gr"
    and "select_seeded_supersession_root ds (mut_scopes (xt_mutation x)) root_id = Inr target"
    and "build_workspace_proposal (in_isoformat I) x (sm_text m) (sm_source m) (sm_author m) user (sm_delivered m) target
           permission = Inr p"
proof -
  obtain x where x: "in_extractor I (sm_text m) (ig_known (in_gate I)) = Inr x"
    using assms(1) by (auto simp: ingest_verified_def split: sum.splits)
  obtain gr h1 where g: "gate_evaluate (in_gate I) (in_checker I) user (mut_scopes (xt_mutation x))
         (Some (art_confidence (mut_decision (xt_mutation x)))) h = (gr, h1)" by (rule prod.exhaust)
  have pending: "gt_disposition gr = Gate_Pending"
    using assms x g by (cases "gt_disposition gr") (auto simp: ingest_verified_def)
  then have "intake_proposal (in_isoformat I) m x gr ds user root_id = Inr p \<and> h1 = h' \<and> io_gate out = gr"
    using assms x g by (auto simp: ingest_verified_def split: sum.splits)
  then show thesis using that x g pending by (auto simp: intake_proposal_def)
qed

text \<open>
  A gate built of a policy without blanks around its names holds that policy.
\<close>

definition plain_policy :: "scopes dict \<Rightarrow> bool" where
  "plain_policy d \<longleftrightarrow> (\<forall>(s, ps)\<in>set d. strip s = s \<and> (\<forall>p\<in>ps. strip p = p))"

lemma normalized_policy_plain:
  "fold_r normalized_policy_entry d acc = Inr d' \<Longrightarrow> plain_policy d \<Longrightarrow> d' = acc @ d"
proof (induction d arbitrary: acc)
  case (Cons e d)
  obtain s ps where e: "e = (s, ps)" by (rule prod.exhaust)
  have plain: "strip s = s" "strip ` ps = ps" "plain_policy d"
    using Cons.prems(2) e by (force simp: plain_policy_def)+
  obtain acc' where step: "normalized_policy_entry e acc = Inr acc'" "fold_r normalized_policy_entry d acc' = Inr d'"
    using Cons.prems(1) by auto
  then have "acc' = acc @ [(s, ps)]" "s \<notin> fst ` set acc"
    using plain(1,2) e by (auto simp: normalized_policy_entry_def normalized_values_def Let_def dict_set_new
      split: if_splits)
  then show ?case using Cons.IH [OF step(2) plain(3)] e by simp
qed simp

lemma make_gate_plain:
  assumes "make_gate K d (Some t) = Inr g" and "plain_policy d"
  shows "ig_policy g = d \<and> ig_known g = fst ` set d \<and> ig_threshold g = t"
proof -
  obtain e where "fold_r normalized_policy_entry d [] = Inr e" "g = \<lparr>ig_known = fst ` set e, ig_policy = e, ig_threshold = t\<rparr>"
    using assms(1) by (auto simp: make_gate_def split: if_splits)
  then show ?thesis using normalized_policy_plain [of d "[]" e] assms(2) by simp
qed

lemma gate_scopes_plain: "\<forall>s\<in>S. s \<noteq> [] \<and> strip s = s \<Longrightarrow> gate_scopes S = S"
  by (force simp: gate_scopes_def)

lemma proposed_requirements:
  assumes "finite (mut_scopes (xt_mutation x))"
  shows "\<exists>reqs'. dict_get (art_attrs (proposed_decision isof x reqs source author user delivered permission)) ''requirements''
      = Some (PDict reqs') \<and> fst ` set reqs' = mut_scopes (xt_mutation x) \<and> dict_values reqs' \<noteq> None"
proof -
  let ?r = "map (requirement_copy reqs) (sorted_list_of_set (mut_scopes (xt_mutation x)))"
  have "dict_values (map (requirement_copy reqs) xs) \<noteq> None" for xs
    by (induction xs) (auto simp: requirement_copy_def split: option.splits pyval.splits)
  moreover have "fst ` set ?r = mut_scopes (xt_mutation x)"
    using assms by (auto simp: requirement_copy_def image_image)
  ultimately show ?thesis
    by (simp add: proposed_decision_def proposal_attributes_def Let_def dict_get_set del: not_None_eq)
qed

text \<open>
  What intake lets pass, the authority can take: the permission that the gate found the author to hold is the
  role under which the proposal, as it is, passes the validation of an approval.
\<close>

lemma intake_meets_authority:
  assumes gate: "make_gate (fst ` set (cx_policy c)) (cx_policy c) (Some t) = Inr (in_gate I)"
    and plain: "plain_policy (cx_policy c)"
    and ran: "ingest_verified I w m ds user root_id h = (Inr out, h')" "io_proposal out = Some p"
    and scopes: "finite (wp_scopes p)" "\<forall>s\<in>wp_scopes p. s \<noteq> [] \<and> strip s = s"
  obtains permission h0 where "gt_permission (io_gate out) = Some permission"
    and "in_checker I (strip user) permission h0 = (Some True, h')"
    and "validate_approval t c (wp_decision p) permission = Inr ()"
proof -
  from ran obtain x gr permission target where r: "gate_evaluate (in_gate I) (in_checker I) user (mut_scopes (xt_mutation x))
         (Some (art_confidence (mut_decision (xt_mutation x)))) h = (gr, h')"
      "gt_disposition gr = Gate_Pending" "gt_permission gr = Some permission" "io_gate out = gr"
      "build_workspace_proposal (in_isoformat I) x (sm_text m) (sm_source m) (sm_author m) user (sm_delivered m) target
           permission = Inr p"
    by (rule ingest_proposes)
  from r(5) obtain reqs where p: "p = \<lparr>wp_decision = proposed_decision (in_isoformat I) x reqs (sm_source m) (sm_author m) user
      (sm_delivered m) permission, wp_supersedes = art_id target, wp_scopes = mut_scopes (xt_mutation x)\<rparr>"
    by (rule buildD)
  have fin: "finite (mut_scopes (xt_mutation x))" and S: "gate_scopes (mut_scopes (xt_mutation x)) = mut_scopes (xt_mutation x)"
    using scopes gate_scopes_plain p by simp_all
  from gate_pending [OF r(1,2) fin] r(3) obtain h0 where g: "in_checker I (strip user) permission h0 = (Some True, h')"
      "\<forall>s\<in>mut_scopes (xt_mutation x). permission \<in> permitted (ig_policy (in_gate I)) s"
      "clear (in_gate I) (strip user) (mut_scopes (xt_mutation x)) (Some (art_confidence (mut_decision (xt_mutation x))))"
    unfolding S by (metis option.inject)
  note policy = make_gate_plain [OF gate plain]
  have known: "\<forall>s\<in>mut_scopes (xt_mutation x). permission \<in> (case dict_get (cx_policy c) s of None \<Rightarrow> {} | Some roles \<Rightarrow> roles)"
    using g(2) policy by (simp add: permitted_def)
  have "t \<le> art_confidence (mut_decision (xt_mutation x))" using g(3) policy by (simp add: clear_def)
  moreover obtain reqs' where "dict_get (art_attrs (wp_decision p)) ''requirements'' = Some (PDict reqs')"
      "fst ` set reqs' = mut_scopes (xt_mutation x)" "dict_values reqs' \<noteq> None"
    using proposed_requirements [OF fin] unfolding p by (metis proposal_request.select_convs(1))
  moreover have "{s \<in> mut_scopes (xt_mutation x). permission \<notin> (case dict_get (cx_policy c) s of None \<Rightarrow> {} | Some roles \<Rightarrow> roles)} = {}"
    using known by blast
  ultimately have "validate_approval t c (wp_decision p) permission = Inr ()"
    unfolding validate_approval_def Let_def p by (simp add: proposed_decision_def not_less)
  then show thesis using that r(3,4) g(1) by simp
qed

text \<open>The governance of a proposal is the delivery's and the gate's, never the candidate's.\<close>

lemma intake_governs:
  assumes "ingest_verified I w m ds user root_id h = (Inr out, h')" and "io_proposal out = Some p"
  shows "art_kind (wp_decision p) = Decision \<and> art_approval (wp_decision p) = Some Proposal
    \<and> art_role (wp_decision p) = gt_permission (io_gate out) \<and> art_source (wp_decision p) = Some (sm_source m)
    \<and> art_effective (wp_decision p) = Some (sm_delivered m) \<and> wp_supersedes p = strip root_id
    \<and> art_scopes (wp_decision p) = wp_scopes p
    \<and> (\<exists>target\<in>set ds. art_id target = strip root_id \<and> art_approval target = Some Approved \<and> wp_scopes p \<subseteq> art_scopes target)"
proof -
  from assms obtain x gr permission target where r: "gt_permission gr = Some permission" "io_gate out = gr"
      "select_seeded_supersession_root ds (mut_scopes (xt_mutation x)) root_id = Inr target"
      "build_workspace_proposal (in_isoformat I) x (sm_text m) (sm_source m) (sm_author m) user (sm_delivered m) target
           permission = Inr p"
    by (rule ingest_proposes)
  from r(4) obtain reqs where "p = \<lparr>wp_decision = proposed_decision (in_isoformat I) x reqs (sm_source m) (sm_author m) user
      (sm_delivered m) permission, wp_supersedes = art_id target, wp_scopes = mut_scopes (xt_mutation x)\<rparr>"
    by (rule buildD)
  then show ?thesis using select_seeded_supersession_rootD [OF r(3)] r(1,2) by (auto simp: proposed_decision_def)
qed

end
