(* ===== verification/Orchestrator_Writes.thy ===== *)
theory Orchestrator_Writes
  imports Views
begin

text \<open>
  The writes of \<^verbatim>\<open>workspaces/orchestrator.py\<close>: every closure that a method hands to
  \<open>repository.mutate\<close>, as a function on the record it is given, and the supervisor passes that are
  computed before it. Each write checks again, on the record it gets, what its method had checked
  on the record it read; a conflict is a raised \<open>StateConflict\<close>. The clock is read once per write.
\<close>

subsection \<open>Records\<close>

definition run_id_of :: "live_record \<Rightarrow> string" where
  "run_id_of w = ''LIVE-'' @ upper (lw_id w) @ ''-RUN''"

definition add_event ::
  "datetime \<Rightarrow> string \<Rightarrow> string \<Rightarrow> string option \<Rightarrow> attributes \<Rightarrow> live_record \<Rightarrow> live_record"
where
  "add_event now ty detail actor data w = w\<lparr>lw_history := lw_history w @
     [\<lparr>we_sequence = int (length (lw_history w)) + 1, we_type = ty, we_detail = detail, we_created = now,
       we_actor = actor, we_data = data\<rparr>], lw_updated := now\<rparr>"

definition conflict :: "string \<Rightarrow> 'a result" where
  "conflict message = Inl (StateConflict message)"

definition of_option :: "string option \<Rightarrow> pyval" where
  "of_option v = (case v of None \<Rightarrow> PNone | Some s \<Rightarrow> PStr s)"

text \<open>\<open>_same_approval_attempt\<close>: every field but the time.\<close>

definition same_approval_attempt :: "approval_evidence \<Rightarrow> approval_evidence \<Rightarrow> bool" where
  "same_approval_attempt expected submitted \<longleftrightarrow> submitted\<lparr>ae_at := ae_at expected\<rparr> = expected"

definition pending_mutation :: "live_record \<Rightarrow> string \<Rightarrow> decision_mutation option" where
  "pending_mutation w d = (case lw_pending w of None \<Rightarrow> None
   | Some m \<Rightarrow> if lw_status w \<noteq> WS_Change_Proposed \<or> art_id (mut_decision m) \<noteq> d then None else Some m)"

definition completed_approval_matches ::
  "platform \<Rightarrow> live_record \<Rightarrow> string \<Rightarrow> approval_request \<Rightarrow> bool"
where
  "completed_approval_matches P w d q \<longleftrightarrow> (\<exists>am\<in>set (lw_approved w). art_id (mut_decision (am_mutation am)) = d
     \<and> Some (mutation_hash P (am_mutation am)) = rq_fingerprint q \<and> am_role am = rq_role q
     \<and> (case am_evidence am of None \<Rightarrow> False | Some e \<Rightarrow> Some (ae_instance e) = rq_instance q))"

subsection \<open>Equality of models\<close>

text \<open>\<open>==\<close> of two models compares their fields: attributes and policies as dictionaries.\<close>

definition dict_same :: "'v dict \<Rightarrow> 'v dict \<Rightarrow> bool" where
  "dict_same a b \<longleftrightarrow> fst ` set a = fst ` set b \<and> (\<forall>k\<in>fst ` set a. dict_get a k = dict_get b k)"

definition mutation_eq :: "decision_mutation \<Rightarrow> decision_mutation \<Rightarrow> bool" where
  "mutation_eq m n \<longleftrightarrow> artifact_eq (mut_decision m) (mut_decision n)
     \<and> mut_supersedes m = mut_supersedes n \<and> mut_scopes m = mut_scopes n"

definition import_eq :: "import_request \<Rightarrow> import_request \<Rightarrow> bool" where
  "import_eq a b \<longleftrightarrow> ir_id a = ir_id b \<and> ir_name a = ir_name b \<and> ir_description a = ir_description b
     \<and> dict_same (ir_policy a) (ir_policy b) \<and> artifact_eq (ir_baseline a) (ir_baseline b)
     \<and> artifact_eq (ir_spec a) (ir_spec b) \<and> artifact_eq (ir_ticket a) (ir_ticket b)
     \<and> list_all2 artifact_eq (ir_tasks a) (ir_tasks b) \<and> plan_eq (ir_plan a) (ir_plan b)
     \<and> ir_edges a = ir_edges b \<and> ir_version a = ir_version b \<and> ir_slack a = ir_slack b"

definition approved_eq :: "approved_change \<Rightarrow> approved_change \<Rightarrow> bool" where
  "approved_eq a b \<longleftrightarrow> mutation_eq (am_mutation a) (am_mutation b) \<and> am_role a = am_role b
     \<and> am_evidence a = am_evidence b"

text \<open>\<open>_context_lineage\<close> of two records, compared.\<close>

definition same_lineage :: "live_record \<Rightarrow> live_record \<Rightarrow> bool" where
  "same_lineage a b \<longleftrightarrow> import_eq (lw_definition a) (lw_definition b) \<and> lw_version a = lw_version b
     \<and> lw_baseline_approved a = lw_baseline_approved b \<and> lw_baseline_role a = lw_baseline_role b
     \<and> list_all2 approved_eq (lw_approved a) (lw_approved b)"

subsection \<open>The supervisor passes\<close>

text \<open>A runtime adapter, as the orchestrator calls it.\<close>

record runtime =
  rt_create :: "string \<Rightarrow> string \<Rightarrow> artifact list \<Rightarrow> agent_plan \<Rightarrow> string \<Rightarrow> supervisor result"
  rt_transition :: "transition_args \<Rightarrow> assignment \<Rightarrow> assignment"

definition pass :: "(assignment \<Rightarrow> assignment) \<Rightarrow> supervisor \<Rightarrow> supervisor" where
  "pass f su = su\<lparr>su_assignments := map f (su_assignments su)\<rparr>"

definition apply_supervisor_transitions ::
  "live_record \<Rightarrow> supervisor option \<Rightarrow> live_record \<Rightarrow> live_record result"
where
  "apply_supervisor_transitions read transitioned current =
     (if lw_supervisor current \<noteq> lw_supervisor read \<or> lw_version current \<noteq> lw_version read
      then conflict ''The supervisor changed while the runtime transition was in flight.''
      else Inr (current\<lparr>lw_supervisor := transitioned\<rparr>))"

definition dispatch_supervisor :: "runtime \<Rightarrow> string \<Rightarrow> live_record \<Rightarrow> supervisor option" where
  "dispatch_supervisor R snap w = map_option (\<lambda>su. (pass (\<lambda>a.
       if as_state a = AS_Queued then rt_transition R ((to_state AS_Running)\<lparr>ta_snapshot := Some snap\<rparr>) a else a) su)
     \<lparr>su_state := LS_Running\<rparr>) (lw_supervisor w)"

text \<open>The first of the longest recorded paths through the task, with the plan at its end.\<close>

fun longest_path :: "string \<Rightarrow> invalidation_path list \<Rightarrow> string list \<Rightarrow> string list" where
  "longest_path task [] selected = selected"
| "longest_path task (p # ps) selected = longest_path task ps
     (if task \<in> set (path_nodes p) \<and> length selected < length (path_nodes p) then path_nodes p else selected)"

definition assignment_path :: "live_record \<Rightarrow> assignment \<Rightarrow> string list" where
  "assignment_path w a = (case lw_report w of None \<Rightarrow> []
   | Some rep \<Rightarrow> (let selected = longest_path (as_task a) (rep_paths rep) [] in
       if selected = [] then []
       else if plan_id (lw_plan w) \<notin> set selected then selected @ [plan_id (lw_plan w)] else selected))"

definition invalidation_args :: "live_record \<Rightarrow> invalidation_report \<Rightarrow> assignment \<Rightarrow> transition_args" where
  "invalidation_args w rep a = (let scopes = join '', '' (sorted_list_of_set (rep_scopes rep)) in
     (to_state AS_Interrupted)
       \<lparr>ta_reason := Some (''Approved decision '' @ rep_changed rep @ '' changed '' @ scopes @ '' at '' @ rep_version rep
          @ ''; writ.ai invalidated '' @ as_task a @ '' through the recorded provenance path.''),
        ta_instruction := Some (''Stop '' @ as_title a @ ''. Return control to the writ.ai ''
          @ ''supervisor and request a corrected plan for '' @ scopes @ '' at '' @ rep_version rep @ ''.''),
        ta_path := Some (assignment_path w a), ta_enforced := Some (as_mode a = Live)\<rparr>)"

definition invalidate_assignment :: "runtime \<Rightarrow> live_record \<Rightarrow> invalidation_report \<Rightarrow> assignment \<Rightarrow> assignment" where
  "invalidate_assignment R w rep a =
     (if as_task a \<in> set (rep_invalidated_tasks rep) \<and> as_state a \<in> {AS_Running, AS_Continuing}
      then rt_transition R (invalidation_args w rep a) a
      else if as_task a \<in> set (rep_preserved_tasks rep) \<and> as_state a = AS_Running
      then rt_transition R (to_state AS_Continuing) a
      else a)"

definition apply_supervisor_invalidation :: "runtime \<Rightarrow> live_record \<Rightarrow> supervisor option" where
  "apply_supervisor_invalidation R w = (case (lw_supervisor w, lw_report w) of
     (Some su, Some rep) \<Rightarrow>
       (let su' = pass (invalidate_assignment R w rep) su
        in Some (if rep_invalidated_tasks rep \<noteq> [] then su'\<lparr>su_state := LS_Interrupting\<rparr> else su'))
   | _ \<Rightarrow> lw_supervisor w)"

definition enforce_supervisor_interrupts :: "runtime \<Rightarrow> live_record \<Rightarrow> supervisor option" where
  "enforce_supervisor_interrupts R w = map_option (pass (\<lambda>a. if as_state a = AS_Interrupted
     then rt_transition R ((to_state AS_Interrupted)\<lparr>ta_enforced := Some True\<rparr>) a else a)) (lw_supervisor w)"

definition redirect_instruction :: "assignment \<Rightarrow> string \<Rightarrow> plan_action list \<Rightarrow> string" where
  "redirect_instruction a plan acts =
     (let descriptions = map act_description (filter (\<lambda>x. act_id x \<in> set (as_action_ids a)) acts) in
      if descriptions = [] then ''Continue '' @ as_title a @ '' under corrected plan '' @ plan @ ''.''
      else ''Under corrected plan '' @ plan @ '': '' @ join '' '' descriptions)"

definition redirect_assignment ::
  "runtime \<Rightarrow> live_record \<Rightarrow> plan_action list dict \<Rightarrow> assignment \<Rightarrow> assignment"
where
  "redirect_assignment R w resolved a =
     (if as_state a \<notin> {AS_Interrupted, AS_Redirected} then a
      else (let b = rt_transition R ((to_state AS_Redirected)\<lparr>ta_plan := Some (lw_plan w),
              ta_actions := Some (case dict_get resolved (as_task a) of None \<Rightarrow> [] | Some xs \<Rightarrow> xs),
              ta_snapshot := Some (lw_version w), ta_replacement := (as_state a = AS_Interrupted)\<rparr>) a
        in rt_transition R ((to_state AS_Redirected)\<lparr>ta_instruction :=
             Some (redirect_instruction b (plan_id (lw_plan w)) (plan_actions (lw_plan w)))\<rparr>) b))"

definition redirect_supervisor :: "runtime \<Rightarrow> live_record \<Rightarrow> supervisor option result" where
  "redirect_supervisor R w = (case lw_supervisor w of None \<Rightarrow> Inr None
   | Some su \<Rightarrow> (case resolve_plan_actions_for_assignments (su_assignments su) (lw_plan w) of
       Inl e \<Rightarrow> conflict (error_text e)
     | Inr resolved \<Rightarrow> (let su' = pass (redirect_assignment R w resolved) su in
         Inr (Some (if \<exists>a\<in>set (su_assignments su'). as_state a = AS_Redirected
           then su'\<lparr>su_state := LS_Redirecting\<rparr> else su')))))"

definition resume_supervisor :: "runtime \<Rightarrow> string \<Rightarrow> live_record \<Rightarrow> supervisor option" where
  "resume_supervisor R snap w = map_option (\<lambda>su. (pass (\<lambda>a. if as_state a = AS_Redirected
       then rt_transition R ((to_state AS_Resumed)\<lparr>ta_snapshot := Some snap\<rparr>) a else a) su)
     \<lparr>su_state := LS_Resumed\<rparr>) (lw_supervisor w)"

definition complete_supervisor :: "runtime \<Rightarrow> live_record \<Rightarrow> supervisor option" where
  "complete_supervisor R w = map_option (\<lambda>su. (pass (\<lambda>a. if as_state a = AS_Resumed
       then rt_transition R ((to_state AS_Completed)\<lparr>ta_snapshot := Some (lw_version w)\<rparr>) a else a) su)
     \<lparr>su_state := LS_Completed\<rparr>) (lw_supervisor w)"

subsection \<open>Approving the baseline\<close>

definition evidence_for ::
  "string \<Rightarrow> string \<Rightarrow> string \<Rightarrow> string \<Rightarrow> approval_request \<Rightarrow> approval_evidence \<Rightarrow> bool"
where
  "evidence_for i d fp inst q e \<longleftrightarrow> ae_workspace e = i \<and> ae_decision e = d \<and> ae_permission e = rq_role q
     \<and> ae_fingerprint e = fp \<and> ae_instance e = inst"

text \<open>A proposal as a request confirmed it: fingerprint, instance and evidence.\<close>

definition confirmed ::
  "string \<Rightarrow> string \<Rightarrow> string \<Rightarrow> string option \<Rightarrow> approval_request \<Rightarrow> (string \<times> approval_evidence) option"
where
  "confirmed i d fp expected q = (case (expected, rq_evidence q) of
     (Some inst, Some e) \<Rightarrow> if rq_fingerprint q = Some fp \<and> rq_instance q = Some inst \<and> evidence_for i d fp inst q e
       then Some (inst, e) else None
   | _ \<Rightarrow> None)"

definition require_bound_baseline ::
  "platform \<Rightarrow> string \<Rightarrow> approval_request \<Rightarrow> live_record \<Rightarrow> (string \<times> string \<times> approval_evidence) result"
where
  "require_bound_baseline P i q w =
     (if lw_status w \<noteq> WS_Imported then conflict ''The workspace baseline is not awaiting approval.''
      else (let d = ir_baseline (lw_definition w); fp = artifact_hash P d in
        case confirmed i (art_id d) fp (lw_baseline_instance w) q of
          None \<Rightarrow> conflict ''The baseline approval is not bound to the current proposal.''
        | Some (inst, e) \<Rightarrow> Inr (fp, inst, e)))"

definition write_baseline ::
  "platform \<Rightarrow> datetime \<Rightarrow> string \<Rightarrow> approval_request \<Rightarrow> string \<Rightarrow> live_record \<Rightarrow> live_record result"
where
  "write_baseline P now i q version w = bind_r (require_bound_baseline P i q w) (\<lambda>(fp, inst, e).
     let d = art_id (ir_baseline (lw_definition w)) in
     Inr (add_event now ''baseline.approved'' (d @ '' approved at '' @ version @ ''.'') (Some (rq_role q))
       [(''decision_id'', PStr d), (''approver_user_id'', PStr (ae_approver e)),
        (''approval_channel'', PStr (channel_value (ae_channel e))), (''approval_evidence_ref'', PStr (ae_ref e)),
        (''approved_at'', PStr (iso_format P (ae_at e))), (''confirmed_proposal_fingerprint'', PStr fp),
        (''confirmed_proposal_instance_id'', PStr inst)]
       (w\<lparr>lw_baseline_approved := True, lw_baseline_role := Some (rq_role q), lw_baseline_evidence := Some e,
          lw_status := WS_Baseline_Approved, lw_version := version\<rparr>)))"

subsection \<open>Authorizing\<close>

definition require_authorizable :: "live_record \<Rightarrow> unit result" where
  "require_authorizable w = (if lw_status w \<notin> {WS_Baseline_Approved, WS_Authorized}
     then conflict ''Approve the baseline before requesting authorization.'' else Inr ())"

definition granted :: "authorization_result \<Rightarrow> signed_grant option" where
  "granted r = (if ar_verdict r = ALLOW then ar_grant r else None)"

definition write_authorization ::
  "datetime \<Rightarrow> live_record \<Rightarrow> authorization_result \<Rightarrow> supervisor option \<Rightarrow> live_record \<Rightarrow> live_record result"
where
  "write_authorization now read res dispatched w = bind_r (require_authorizable w) (\<lambda>_.
     bind_r (case granted res of None \<Rightarrow> Inr w
       | Some _ \<Rightarrow> bind_r (apply_supervisor_transitions read dispatched w) (\<lambda>w. Inr (w\<lparr>lw_status := WS_Authorized\<rparr>))) (\<lambda>w.
     Inr (add_event now ''authorization.evaluated'' (''Initial plan verdict: '' @ verdict_value (ar_verdict res) @ ''.'') None
       [(''verdict'', PStr (verdict_value (ar_verdict res)))]
       (w\<lparr>lw_initial := Some res, lw_version := ar_version res\<rparr>))))"

subsection \<open>Proposals\<close>

text \<open>The decisions of the workspace: the baseline, then the approved ones, the last of an id winning.\<close>

definition known_decisions :: "live_record \<Rightarrow> artifact dict" where
  "known_decisions w = dict_of ((art_id (ir_baseline (lw_definition w)), ir_baseline (lw_definition w)) #
     map (\<lambda>am. (art_id (mut_decision (am_mutation am)), mut_decision (am_mutation am))) (lw_approved w))"

definition proposal_instance :: "string \<Rightarrow> int \<Rightarrow> string" where
  "proposal_instance i n = i @ '':proposal:'' @ show_int n"

definition write_proposal ::
  "platform \<Rightarrow> datetime \<Rightarrow> string \<Rightarrow> proposal_request \<Rightarrow> live_record \<Rightarrow> live_record result"
where
  "write_proposal P now i p w = (let d = wp_decision p; known = known_decisions w in
     if lw_status w \<noteq> WS_Authorized then
       conflict ''Obtain an initial authorization before proposing a decision change.''
     else if art_id d \<in> fst ` set known then conflict ''The proposed Decision ID is already present.''
     else (case dict_get known (wp_supersedes p) of
       None \<Rightarrow> conflict ''The proposed supersession target does not exist in this workspace.''
     | Some superseded \<Rightarrow>
         if \<not> wp_scopes p \<subseteq> art_scopes superseded then
           conflict ''The proposed change includes scopes absent from its supersession target.''
         else (let m = proposal_mutation p; n = lw_proposal_sequence w + 1; inst = proposal_instance i n in
           Inr (add_event now ''decision.proposed''
             (art_id d @ '' was recorded as a proposal; the graph has not changed.'') None
             [(''decision_id'', PStr (art_id d)), (''proposal_instance_id'', PStr inst),
              (''proposal_fingerprint'', PStr (mutation_hash P m)), (''permission_id'', of_option (art_role d))]
             (w\<lparr>lw_pending := Some m, lw_proposal_sequence := n, lw_pending_instance := Some inst,
                lw_status := WS_Change_Proposed\<rparr>)))))"

definition write_cancel :: "datetime \<Rightarrow> live_record \<Rightarrow> live_record result" where
  "write_cancel now w =
     (if lw_intent w \<noteq> None then conflict ''Approval has started; retry it to converge the exact proposal.''
      else (case lw_pending w of
        None \<Rightarrow> conflict ''There is no pending Decision proposal to cancel.''
      | Some m \<Rightarrow>
          if lw_status w \<noteq> WS_Change_Proposed then conflict ''There is no pending Decision proposal to cancel.''
          else (let d = art_id (mut_decision m) in
            Inr (add_event now ''decision.proposal-canceled''
              (''Canceled pending proposal '' @ d @ ''; the authority graph was unchanged.'') None
              [(''decision_id'', PStr d)]
              (w\<lparr>lw_pending := None, lw_pending_instance := None, lw_status := WS_Authorized\<rparr>)))))"

subsection \<open>Rejections\<close>

record rejection =
  rj_decision :: string
  rj_disposition :: string
  rj_approver :: string
  rj_permission :: string
  rj_channel :: string
  rj_ref :: string
  rj_fingerprint :: "string option"
  rj_instance :: "string option"
  rj_detail :: string

text \<open>The proposal a rejection is about: fingerprint, instance, and the permission if it is current.\<close>

definition rejected_proposal ::
  "platform \<Rightarrow> rejection \<Rightarrow> live_record \<Rightarrow> string option \<times> string option \<times> string option"
where
  "rejected_proposal P r w = (let baseline = ir_baseline (lw_definition w) in
     case lw_pending w of
       Some m \<Rightarrow>
         if art_id (mut_decision m) = rj_decision r then
           (let fp = mutation_hash P m; inst = lw_pending_instance w in
            (Some fp, inst, if rj_fingerprint r = None \<or> rj_instance r = None
                 \<or> rj_fingerprint r = Some fp \<and> rj_instance r = inst
               then art_role (mut_decision m) else None))
         else if rj_decision r = art_id baseline then
           (Some (artifact_hash P baseline), lw_baseline_instance w, art_role baseline)
         else (rj_fingerprint r, rj_instance r, None)
     | None \<Rightarrow>
         if rj_decision r = art_id baseline then
           (Some (artifact_hash P baseline), lw_baseline_instance w, art_role baseline)
         else (rj_fingerprint r, rj_instance r, None))"

definition proposed_event :: "rejection \<Rightarrow> workspace_event \<Rightarrow> string option" where
  "proposed_event r ev = (let data = we_data ev in
     if we_type ev = ''decision.proposed'' \<and> dict_get data ''decision_id'' = Some (PStr (rj_decision r))
       \<and> attr_or_none data ''proposal_fingerprint'' = of_option (rj_fingerprint r)
       \<and> attr_or_none data ''proposal_instance_id'' = of_option (rj_instance r)
     then (case dict_get data ''permission_id'' of Some (PStr p) \<Rightarrow> Some p | _ \<Rightarrow> None)
     else None)"

definition approved_role :: "rejection \<Rightarrow> approved_change \<Rightarrow> string option" where
  "approved_role r am = (case am_evidence am of None \<Rightarrow> None
   | Some e \<Rightarrow> if art_id (mut_decision (am_mutation am)) = rj_decision r
         \<and> Some (ae_fingerprint e) = rj_fingerprint r \<and> Some (ae_instance e) = rj_instance r
       then Some (am_role am) else None)"

fun first_some :: "('a \<Rightarrow> 'b option) \<Rightarrow> 'a list \<Rightarrow> 'b option" where
  "first_some f [] = None"
| "first_some f (x # xs) = (case f x of None \<Rightarrow> first_some f xs | Some y \<Rightarrow> Some y)"

definition expected_permission :: "platform \<Rightarrow> rejection \<Rightarrow> live_record \<Rightarrow> string option" where
  "expected_permission P r w = (case snd (snd (rejected_proposal P r w)) of
     Some p \<Rightarrow> Some p
   | None \<Rightarrow> (case first_some (proposed_event r) (rev (lw_history w)) of
       Some p \<Rightarrow> Some p
     | None \<Rightarrow> first_some (approved_role r) (rev (lw_approved w))))"

definition write_rejection :: "platform \<Rightarrow> datetime \<Rightarrow> rejection \<Rightarrow> live_record \<Rightarrow> live_record result" where
  "write_rejection P now r w = (let (fp, inst, _) = rejected_proposal P r w in
     if expected_permission P r w \<noteq> Some (rj_permission r) then
       conflict ''Rejected approval evidence is not bound to an exact proposal permission.''
     else Inr (add_event now ''decision.approval-rejected'' (rj_detail r) (Some (rj_permission r))
       [(''decision_id'', PStr (rj_decision r)), (''disposition'', PStr (rj_disposition r)),
        (''approver_user_id'', PStr (rj_approver r)), (''permission_id'', PStr (rj_permission r)),
        (''approval_channel'', PStr (rj_channel r)), (''approval_evidence_ref'', PStr (rj_ref r)),
        (''proposal_fingerprint'', of_option fp), (''proposal_instance_id'', of_option inst),
        (''confirmed_proposal_fingerprint'', of_option (rj_fingerprint r)),
        (''confirmed_proposal_instance_id'', of_option (rj_instance r)),
        (''rejected_at'', PStr (iso_format P now))] w))"

subsection \<open>Approving a change\<close>

definition require_bound_proposal ::
  "platform \<Rightarrow> string \<Rightarrow> string \<Rightarrow> approval_request \<Rightarrow> live_record
    \<Rightarrow> (decision_mutation \<times> string \<times> string \<times> approval_evidence) result"
where
  "require_bound_proposal P i d q w = (case pending_mutation w d of
     None \<Rightarrow> conflict ''The requested Decision is not awaiting approval.''
   | Some m \<Rightarrow> (let fp = mutation_hash P m in
       case confirmed i d fp (lw_pending_instance w) q of
         None \<Rightarrow> conflict ''Approval is not bound to the exact pending proposal.''
       | Some (inst, e) \<Rightarrow> Inr (m, fp, inst, e)))"

definition write_intent ::
  "platform \<Rightarrow> datetime \<Rightarrow> string \<Rightarrow> string \<Rightarrow> approval_request \<Rightarrow> live_record option \<Rightarrow> live_record \<Rightarrow> live_record result"
where
  "write_intent P now i d q rehydrated w = bind_r (require_bound_proposal P i d q w) (\<lambda>(m, fp, inst, e).
     case lw_intent w of
       None \<Rightarrow>
         if (case rehydrated of None \<Rightarrow> True | Some r \<Rightarrow> \<not> same_lineage w r) then
           conflict ''The authority lineage changed while the approval was being recorded.''
         else (let it = \<lparr>in_mutation = m, in_role = rq_role q, in_fingerprint = fp, in_instance = inst,
                 in_evidence = e, in_base = lw_version w, in_prepared = now, in_result = None, in_authorization = None\<rparr>
           in bind_r (validate_intent P it) (\<lambda>_. Inr (w\<lparr>lw_intent := Some it\<rparr>)))
     | Some it \<Rightarrow>
         if \<not> mutation_eq (in_mutation it) m \<or> in_role it \<noteq> rq_role q \<or> in_fingerprint it \<noteq> fp
            \<or> Some (in_instance it) \<noteq> lw_pending_instance w \<or> ae_workspace (in_evidence it) \<noteq> i
            \<or> ae_decision (in_evidence it) \<noteq> d \<or> \<not> same_approval_attempt (in_evidence it) e
         then conflict ''Approval retry does not match the durable approval intent.''
         else Inr w)"

definition holds_intent :: "string \<Rightarrow> string \<Rightarrow> live_record \<Rightarrow> bool" where
  "holds_intent fp inst w \<longleftrightarrow> (case lw_intent w of None \<Rightarrow> False
     | Some it \<Rightarrow> in_fingerprint it = fp \<and> in_instance it = inst)"

definition require_intent :: "approval_intent \<Rightarrow> live_record \<Rightarrow> unit result" where
  "require_intent it w = (if \<not> holds_intent (in_fingerprint it) (in_instance it) w
     then conflict ''The durable approval intent changed while the approval was in flight.'' else Inr ())"

definition clear_intent :: "approval_intent \<Rightarrow> live_record \<Rightarrow> live_record result" where
  "clear_intent it w = Inr (if holds_intent (in_fingerprint it) (in_instance it) w then w\<lparr>lw_intent := None\<rparr> else w)"

text \<open>\<open>record_mutation\<close>: the intent carries the result now, and its report is attached.\<close>

definition write_mutation ::
  "live_record \<Rightarrow> approval_intent \<Rightarrow> mutation_result \<Rightarrow> invalidation_report \<Rightarrow> supervisor option
    \<Rightarrow> live_record \<Rightarrow> live_record result"
where
  "write_mutation read it res rep interrupted w = bind_r (require_intent it w) (\<lambda>_.
     bind_r (apply_supervisor_transitions read interrupted w) (\<lambda>w.
     Inr (w\<lparr>lw_intent := Some it, lw_version := mres_version res, lw_report := Some rep, lw_conflict := None\<rparr>)))"

definition write_intent_authorization :: "approval_intent \<Rightarrow> live_record \<Rightarrow> live_record result" where
  "write_intent_authorization it w = bind_r (require_intent it w) (\<lambda>_. Inr (w\<lparr>lw_intent := Some it\<rparr>))"

definition write_completion ::
  "platform \<Rightarrow> datetime \<Rightarrow> string \<Rightarrow> approval_intent \<Rightarrow> mutation_result \<Rightarrow> invalidation_report
    \<Rightarrow> authorization_result \<Rightarrow> live_record \<Rightarrow> live_record result"
where
  "write_completion P now d it res rep verdict w = bind_r (require_intent it w) (\<lambda>_.
     let e = in_evidence it in
     Inr (add_event now ''decision.approved''
       (d @ '' advanced the graph to '' @ mres_version res @ ''; the current plan verdict is ''
        @ verdict_value (ar_verdict verdict) @ ''.'') (Some (in_role it))
       [(''decision_id'', PStr d), (''verdict'', PStr (verdict_value (ar_verdict verdict))),
        (''approver_user_id'', PStr (ae_approver e)), (''approval_channel'', PStr (channel_value (ae_channel e))),
        (''approval_evidence_ref'', PStr (ae_ref e)), (''approved_at'', PStr (iso_format P (ae_at e))),
        (''confirmed_proposal_fingerprint'', PStr (in_fingerprint it)),
        (''confirmed_proposal_instance_id'', PStr (ae_instance e)),
        (''invalidated_task_ids'', PList (map PStr (rep_invalidated_tasks rep))),
        (''preserved_task_ids'', PList (map PStr (rep_preserved_tasks rep)))]
       (w\<lparr>lw_approved := lw_approved w @ [\<lparr>am_mutation = in_mutation it, am_role = in_role it, am_evidence = Some e\<rparr>],
          lw_pending := None, lw_pending_instance := None, lw_version := mres_version res, lw_report := Some rep,
          lw_conflict := Some verdict, lw_status := WS_Change_Applied, lw_intent := None\<rparr>)))"

subsection \<open>Verifying and correcting\<close>

definition has_verified_stale_grant :: "live_record \<Rightarrow> bool" where
  "has_verified_stale_grant w \<longleftrightarrow> (case lw_initial_check w of None \<Rightarrow> False
     | Some x \<Rightarrow> \<not> ex_applied x \<and> ex_code x = STALE_SNAPSHOT)"

definition verification_event :: "datetime \<Rightarrow> string \<Rightarrow> execution_result \<Rightarrow> live_record \<Rightarrow> live_record" where
  "verification_event now ty x = add_event now ty
     (''Executor verification returned '' @ verification_code_value (ex_code x) @ ''.'') None
     [(''applied'', PBool (ex_applied x)), (''verification_code'', PStr (verification_code_value (ex_code x)))]"

definition already_verified :: "live_record \<Rightarrow> bool result" where
  "already_verified w = (if lw_status w \<notin> {WS_Change_Applied, WS_Initial_Grant_Rejected}
     then conflict ''Apply an approved decision change before verification.''
     else Inr (lw_status w = WS_Initial_Grant_Rejected \<and> has_verified_stale_grant w))"

definition stale_execution :: "execution_result \<Rightarrow> bool" where
  "stale_execution x \<longleftrightarrow> \<not> ex_applied x \<and> ex_code x = STALE_SNAPSHOT"

definition write_initial_check ::
  "datetime \<Rightarrow> live_record \<Rightarrow> execution_result \<Rightarrow> supervisor option \<Rightarrow> live_record \<Rightarrow> live_record result"
where
  "write_initial_check now read x enforced w = bind_r (already_verified w) (\<lambda>was.
     if was then Inr w
     else bind_r (if stale_execution x
         then bind_r (apply_supervisor_transitions read enforced w) (\<lambda>w. Inr (w\<lparr>lw_status := WS_Initial_Grant_Rejected\<rparr>))
         else Inr (w\<lparr>lw_status := WS_Change_Applied\<rparr>)) (\<lambda>w.
       Inr (verification_event now ''initial-grant.verified'' x (w\<lparr>lw_initial_check := Some x\<rparr>))))"

definition require_updatable :: "agent_plan \<Rightarrow> live_record \<Rightarrow> unit result" where
  "require_updatable plan w =
     (if lw_status w \<notin> {WS_Initial_Grant_Rejected, WS_Plan_Updated} then
        conflict ''Verify the initial grant as STALE_SNAPSHOT before updating the plan.''
      else if \<not> has_verified_stale_grant w then
        conflict ''A verified STALE_SNAPSHOT result is required before updating the plan.''
      else if plan_ticket plan \<noteq> art_id (ir_ticket (lw_definition w)) then
        conflict ''The corrected plan is bound to a different ticket.''
      else Inr ())"

definition write_plan ::
  "datetime \<Rightarrow> live_record \<Rightarrow> agent_plan \<Rightarrow> supervisor option \<Rightarrow> live_record \<Rightarrow> live_record result"
where
  "write_plan now read plan redirected w = bind_r (require_updatable plan w) (\<lambda>_.
     bind_r (apply_supervisor_transitions read redirected w) (\<lambda>w.
     Inr (add_event now ''plan.updated'' (''Corrected plan '' @ plan_id plan @ '' is ready for authority review.'') None
       [(''plan_id'', PStr (plan_id plan))]
       (w\<lparr>lw_plan := plan, lw_replacement := None, lw_replacement_check := None, lw_status := WS_Plan_Updated\<rparr>))))"

definition already_reauthorized :: "live_record \<Rightarrow> bool result" where
  "already_reauthorized w =
     (if lw_status w = WS_Reauthorized \<and> lw_replacement w \<noteq> None then Inr True
      else if lw_status w \<noteq> WS_Plan_Updated then conflict ''Submit a corrected plan before reauthorization.''
      else if \<not> has_verified_stale_grant w then
        conflict ''A verified STALE_SNAPSHOT result is required before reauthorization.''
      else Inr False)"

definition write_reauthorization ::
  "datetime \<Rightarrow> live_record \<Rightarrow> authorization_result \<Rightarrow> supervisor option \<Rightarrow> live_record \<Rightarrow> live_record result"
where
  "write_reauthorization now read res resumed w = bind_r (already_reauthorized w) (\<lambda>was.
     if was then Inr w
     else if \<not> plan_eq (lw_plan w) (lw_plan read) then
       conflict ''The corrected plan changed while it was being reauthorized.''
     else bind_r (case granted res of
         Some _ \<Rightarrow> bind_r (apply_supervisor_transitions read resumed w) (\<lambda>w. Inr (w\<lparr>lw_status := WS_Reauthorized\<rparr>))
       | None \<Rightarrow> Inr (w\<lparr>lw_status := WS_Plan_Updated\<rparr>)) (\<lambda>w.
       Inr (add_event now ''plan.reauthorized'' (''Corrected plan verdict: '' @ verdict_value (ar_verdict res) @ ''.'') None
         [(''verdict'', PStr (verdict_value (ar_verdict res)))] (w\<lparr>lw_replacement := Some res\<rparr>))))"

definition require_verifiable :: "live_record \<Rightarrow> unit result" where
  "require_verifiable w =
     (if lw_status w \<notin> {WS_Reauthorized, WS_Complete} then
        conflict ''Obtain a replacement ALLOW grant before verification.''
      else if \<not> has_verified_stale_grant w then
        conflict ''A verified STALE_SNAPSHOT result is required before completion.''
      else Inr ())"

definition valid_execution :: "execution_result \<Rightarrow> bool" where
  "valid_execution x \<longleftrightarrow> ex_applied x \<and> ex_code x = VC_VALID"

definition write_replacement_check ::
  "datetime \<Rightarrow> live_record \<Rightarrow> execution_result \<Rightarrow> supervisor option \<Rightarrow> live_record \<Rightarrow> live_record result"
where
  "write_replacement_check now read x completed w = bind_r (require_verifiable w) (\<lambda>_.
     bind_r (if valid_execution x
         then bind_r (apply_supervisor_transitions read completed w) (\<lambda>w. Inr (w\<lparr>lw_status := WS_Complete\<rparr>))
         else Inr w) (\<lambda>w.
     Inr (verification_event now ''replacement-grant.verified'' x (w\<lparr>lw_replacement_check := Some x\<rparr>))))"

end
