(* ===== verification/Orchestrator.thy ===== *)
theory Orchestrator
  imports Orchestrator_Writes Repository
begin

text \<open>
  The methods of \<open>LiveWorkspaceOrchestrator\<close> (\<^verbatim>\<open>workspaces/orchestrator.py\<close>) over a workspace store
  and the authority service behind the \<open>LiveWorkspaceTransport\<close> protocol. A method reads the record,
  checks it, calls the service, and hands a write to the store; between its calls other writers may
  change the store and the service, which is the argument \<open>others\<close>: \<open>others k\<close> runs before the
  \<open>k\<close>-th write of the method.
\<close>

subsection \<open>Services\<close>

record 'r transport =
  tr_state :: "string \<Rightarrow> ('r, context_view option) op"
  tr_create :: "context_create \<Rightarrow> ('r, context_view) op"
  tr_delete :: "string \<Rightarrow> ('r, unit) op"
  tr_baseline :: "string \<Rightarrow> approval_request \<Rightarrow> ('r, context_view) op"
  tr_mutation :: "string \<Rightarrow> mutation_request \<Rightarrow> ('r, mutation_result) op"
  tr_authorize :: "string \<Rightarrow> string \<Rightarrow> string \<Rightarrow> agent_plan \<Rightarrow> ('r, authorization_result) op"
  tr_execute :: "string \<Rightarrow> string \<Rightarrow> string \<Rightarrow> string \<Rightarrow> agent_plan \<Rightarrow> ('r, execution_result) op"

record ('s, 'r) services =
  sv_get :: "'s \<Rightarrow> string \<Rightarrow> live_record result"
  sv_list :: "'s \<Rightarrow> live_record list result"
  sv_create :: "live_record \<Rightarrow> ('s, unit) op"
  sv_mutate :: "string \<Rightarrow> (live_record \<Rightarrow> live_record result) \<Rightarrow> ('s, live_record) op"
  sv_transport :: "'r transport"
  sv_runtime :: runtime
  sv_platform :: platform

definition on_store :: "('s, 'a) op \<Rightarrow> ('s \<times> 'r, 'a) op" where
  "on_store m x = (case m (fst x) of (v, s) \<Rightarrow> (v, (s, snd x)))"

definition on_remote :: "('r, 'a) op \<Rightarrow> ('s \<times> 'r, 'a) op" where
  "on_remote m x = (case m (snd x) of (v, r) \<Rightarrow> (v, (fst x, r)))"

definition read_record :: "('s, 'r) services \<Rightarrow> string \<Rightarrow> ('s \<times> 'r, live_record) op" where
  "read_record E i = on_store (read_op (\<lambda>s. sv_get E s i))"

definition commit ::
  "('s, 'r) services \<Rightarrow> (nat \<Rightarrow> 's \<times> 'r \<Rightarrow> 's \<times> 'r) \<Rightarrow> nat \<Rightarrow> string
    \<Rightarrow> (live_record \<Rightarrow> live_record result) \<Rightarrow> ('s \<times> 'r, live_record) op"
where
  "commit E others k i f x = on_store (sv_mutate E i f) (others k x)"

subsection \<open>The authority context of a record\<close>

definition context_request :: "live_record \<Rightarrow> context_create" where
  "context_request w = (let r = lw_definition w in
     \<lparr>xc_id = lw_context w, xc_version = ir_version r, xc_artifacts = graph_artifacts r,
      xc_edges = graph_edges r, xc_policy = ir_policy r, xc_baseline = art_id (ir_baseline r),
      xc_slack = ir_slack r\<rparr>)"

text \<open>Equality of two governance signatures.\<close>

definition same_governance :: "artifact \<Rightarrow> artifact \<Rightarrow> bool" where
  "same_governance a b \<longleftrightarrow> art_id a = art_id b \<and> art_kind a = art_kind b \<and> art_title a = art_title b
     \<and> art_text a = art_text b \<and> art_scopes a = art_scopes b \<and> art_role a = art_role b
     \<and> art_confidence a = art_confidence b \<and> art_effective a = art_effective b \<and> art_source a = art_source b
     \<and> attrs_eq (art_attrs a) (art_attrs b)"

definition by_id :: "artifact list \<Rightarrow> artifact dict" where
  "by_id as = dict_of (map (\<lambda>a. (art_id a, a)) as)"

definition expected_evidence :: "live_record \<Rightarrow> approval_evidence dict" where
  "expected_evidence w = dict_of (concat (map (\<lambda>am. case am_evidence am of None \<Rightarrow> []
     | Some e \<Rightarrow> [(art_id (mut_decision (am_mutation am)), e)]) (lw_approved w)))"

definition expected_artifacts :: "platform \<Rightarrow> live_record \<Rightarrow> artifact dict" where
  "expected_artifacts P w = by_id (graph_artifacts (lw_definition w) @ map (approved_decision P) (lw_approved w))"

definition expected_decisions :: "platform \<Rightarrow> live_record \<Rightarrow> artifact dict" where
  "expected_decisions P w = (let b = ir_baseline (lw_definition w) in
     by_id ((if lw_baseline_approved w then b\<lparr>art_approval := Some Approved\<rparr> else b)
       # map (approved_decision P) (lw_approved w)))"

definition expected_supersessions :: "live_record \<Rightarrow> (string \<times> string) set" where
  "expected_supersessions w = set (map (\<lambda>am. (art_id (mut_decision (am_mutation am)), mut_supersedes (am_mutation am)))
     (lw_approved w))"

definition same_keys :: "'a dict \<Rightarrow> 'b dict \<Rightarrow> bool" where
  "same_keys a b \<longleftrightarrow> fst ` set a = fst ` set b"

definition agree :: "(artifact \<Rightarrow> artifact \<Rightarrow> bool) \<Rightarrow> artifact dict \<Rightarrow> artifact dict \<Rightarrow> bool" where
  "agree f actual expected \<longleftrightarrow> same_keys actual expected
     \<and> (\<forall>(i, e)\<in>set expected. case dict_get actual i of None \<Rightarrow> False | Some a \<Rightarrow> f a e)"

definition context_matches :: "platform \<Rightarrow> live_record \<Rightarrow> context_view \<Rightarrow> bool" where
  "context_matches P w st \<longleftrightarrow> (let r = lw_definition w in
     cs_version st = lw_version w \<and> cs_baseline st = art_id (ir_baseline r)
   \<and> cs_approved st = lw_baseline_approved w \<and> dict_same (cs_policy st) (ir_policy r) \<and> cs_slack st = ir_slack r
   \<and> dict_same (cs_evidence st) (expected_evidence w)
   \<and> agree same_governance (by_id (cs_artifacts st)) (expected_artifacts P w)
   \<and> agree (\<lambda>a e. art_approval a = art_approval e)
       (by_id (filter (\<lambda>a. art_kind a = Decision) (cs_artifacts st))) (expected_decisions P w)
   \<and> set (map (\<lambda>e. (edge_source e, edge_target e)) (filter (\<lambda>e. edge_kind e = SUPERSEDES) (cs_edges st)))
       = expected_supersessions w)"

definition state_matches :: "platform \<Rightarrow> live_record \<Rightarrow> context_view option \<Rightarrow> bool" where
  "state_matches P w st \<longleftrightarrow> (case st of None \<Rightarrow> False | Some v \<Rightarrow> context_matches P w v)"

definition change_request :: "approved_change \<Rightarrow> approval_evidence \<Rightarrow> mutation_request" where
  "change_request am e = \<lparr>mq_mutation = am_mutation am, mq_role = am_role am, mq_fingerprint = ae_fingerprint e,
     mq_evidence = e\<rparr>"

text \<open>Replaying the approved changes; the version is the one the last reply gave.\<close>

fun replay_changes :: "'r transport \<Rightarrow> string \<Rightarrow> approved_change list \<Rightarrow> string \<Rightarrow> ('r, string) op" where
  "replay_changes T ctx [] version = ret_op version"
| "replay_changes T ctx (am # ams) version = (case am_evidence am of
     None \<Rightarrow> raise_op (RuntimeError ''Approved workspace mutation is missing durable approval evidence.'')
   | Some e \<Rightarrow> bind_op (tr_mutation T ctx (change_request am e)) (\<lambda>res. replay_changes T ctx ams (mres_version res)))"

definition approve_again :: "'r transport \<Rightarrow> live_record \<Rightarrow> context_view \<Rightarrow> ('r, context_view) op" where
  "approve_again T w st = (if lw_baseline_approved w
     then (case lw_baseline_role w of
         None \<Rightarrow> raise_op (RuntimeError ''Approved baseline is missing its approval role.'')
       | Some role \<Rightarrow> tr_baseline T (lw_context w)
           \<lparr>rq_role = role, rq_fingerprint = None, rq_evidence = None, rq_instance = None\<rparr>)
     else ret_op st)"

definition rebuild_context :: "'r transport \<Rightarrow> platform \<Rightarrow> live_record \<Rightarrow> ('r, unit) op" where
  "rebuild_context T P w =
     bind_op (tr_create T (context_request w)) (\<lambda>st.
     bind_op (approve_again T w st) (\<lambda>st.
     bind_op (replay_changes T (lw_context w) (lw_approved w) (cs_version st)) (\<lambda>version.
     if version \<noteq> lw_version w then
       raise_op (RuntimeError ''Rehydrated authority graph does not match the persisted graph version.'')
     else bind_op (tr_state T (lw_context w)) (\<lambda>rebuilt.
       if state_matches P w rebuilt then ret_op ()
       else raise_op (RuntimeError ''Rehydrated authority graph does not match the persisted lineage.'')))))"

definition ensure_context :: "'r transport \<Rightarrow> platform \<Rightarrow> live_record \<Rightarrow> ('r, unit) op" where
  "ensure_context T P w = bind_op (tr_state T (lw_context w)) (\<lambda>current.
     if state_matches P w current then ret_op ()
     else (case current of
         None \<Rightarrow> rebuild_context T P w
       | Some _ \<Rightarrow> bind_op (tr_delete T (lw_context w)) (\<lambda>_. rebuild_context T P w)))"

subsection \<open>Recovering an uncertain approval\<close>

definition intent_base_record :: "live_record \<Rightarrow> approval_intent \<Rightarrow> live_record" where
  "intent_base_record w it = w\<lparr>lw_version := in_base it, lw_intent := None\<rparr>"

definition intent_projected_record :: "live_record \<Rightarrow> approval_intent \<Rightarrow> string \<Rightarrow> live_record" where
  "intent_projected_record w it version = (intent_base_record w it)\<lparr>lw_version := version,
     lw_approved := lw_approved w @ [\<lparr>am_mutation = in_mutation it, am_role = in_role it,
       am_evidence = Some (in_evidence it)\<rparr>]\<rparr>"

definition intent_request :: "approval_intent \<Rightarrow> mutation_request" where
  "intent_request it = \<lparr>mq_mutation = in_mutation it, mq_role = in_role it, mq_fingerprint = in_fingerprint it,
     mq_evidence = in_evidence it\<rparr>"

definition applied_state :: "platform \<Rightarrow> live_record \<Rightarrow> approval_intent \<Rightarrow> context_view option \<Rightarrow> bool" where
  "applied_state P w it st \<longleftrightarrow> (case st of None \<Rightarrow> False
     | Some v \<Rightarrow> context_matches P (intent_projected_record w it (cs_version v)) v)"

text \<open>The state the mutation is sent to, and whether it has the change already.\<close>

definition settle_context ::
  "'r transport \<Rightarrow> platform \<Rightarrow> live_record \<Rightarrow> approval_intent \<Rightarrow> ('r, context_view option \<times> bool) op"
where
  "settle_context T P w it = (let base = intent_base_record w it in
     bind_op (tr_state T (lw_context w)) (\<lambda>current.
     if state_matches P base current \<or> applied_state P w it current
     then ret_op (current, applied_state P w it current)
     else bind_op (ensure_context T P base) (\<lambda>_.
       bind_op (tr_state T (lw_context w)) (\<lambda>current.
       if state_matches P base current then ret_op (current, False)
       else raise_op (RuntimeError ''Approval recovery could not restore its base authority graph.'')))))"

definition send_intent :: "'r transport \<Rightarrow> live_record \<Rightarrow> approval_intent \<Rightarrow> ('r, mutation_result) op" where
  "send_intent T w it = bind_op (tr_mutation T (lw_context w) (intent_request it)) (\<lambda>res.
     case mres_report res of
       None \<Rightarrow> raise_op (StateConflict (mres_reason res))
     | Some rep \<Rightarrow>
         if \<not> mres_applied res then raise_op (StateConflict (mres_reason res))
         else if rep_version rep \<noteq> mres_version res \<or> rep_changed rep \<noteq> art_id (mut_decision (in_mutation it)) then
           raise_op (RuntimeError ''Authority returned mutation evidence for a different change.'')
         else if (case in_result it of None \<Rightarrow> False | Some previous \<Rightarrow> res \<noteq> previous) then
           raise_op (RuntimeError ''Approval retry returned different mutation evidence.'')
         else ret_op res)"

definition recover_intent_mutation ::
  "'r transport \<Rightarrow> platform \<Rightarrow> live_record \<Rightarrow> approval_intent \<Rightarrow> ('r, mutation_result) op"
where
  "recover_intent_mutation T P w it = bind_op (settle_context T P w it) (\<lambda>(current, applied).
     case (in_result it, applied) of
       (Some previous, True) \<Rightarrow>
         if (case current of None \<Rightarrow> True
             | Some v \<Rightarrow> cs_version v \<noteq> mres_version previous \<or> cs_report v \<noteq> mres_report previous)
         then raise_op (RuntimeError ''Approval recovery found inconsistent remote mutation evidence.'')
         else ret_op previous
     | _ \<Rightarrow> send_intent T w it)"

definition update_intent :: "platform \<Rightarrow> approval_intent \<Rightarrow> approval_intent result" where
  "update_intent P it = bind_r (validate_intent P it) (\<lambda>_. Inr it)"

subsection \<open>Import, list, get\<close>

definition imported_record ::
  "datetime \<Rightarrow> string \<Rightarrow> import_request \<Rightarrow> supervisor \<Rightarrow> live_record"
where
  "imported_record now uid r su = add_event now ''workspace.imported''
     (''Imported '' @ show_nat (length (ir_tasks r)) @ '' tasks and plan '' @ plan_id (ir_plan r) @ ''; ''
       @ ''the baseline remains a proposal until an authorized role approves it.'') None []
     \<lparr>lw_definition = r, lw_context = ''live-'' @ ir_id r, lw_status = WS_Imported,
      lw_version = ''graph-v'' @ show_int (ir_version r), lw_baseline_approved = False, lw_baseline_role = None,
      lw_baseline_instance = Some (ir_id r @ '':baseline:'' @ uid), lw_baseline_evidence = None,
      lw_plan = ir_plan r, lw_pending = None, lw_proposal_sequence = 0, lw_pending_instance = None,
      lw_intent = None, lw_approved = [], lw_initial = None, lw_conflict = None, lw_replacement = None,
      lw_report = None, lw_initial_check = None, lw_replacement_check = None, lw_supervisor = Some su,
      lw_history = [], lw_created = now, lw_updated = now\<rparr>"

definition import_workspace ::
  "('s, 'r) services \<Rightarrow> datetime \<Rightarrow> string \<Rightarrow> import_request \<Rightarrow> ('s \<times> 'r, workspace_view) op"
where
  "import_workspace E now uid r =
     bind_op (read_op (\<lambda>_. rt_create (sv_runtime E) (ir_id r) (''LIVE-'' @ upper (ir_id r) @ ''-RUN'')
         (ir_tasks r) (ir_plan r) (''graph-v'' @ show_int (ir_version r)))) (\<lambda>su.
     let w = imported_record now uid r su in
     bind_op (on_store (sv_create E w)) (\<lambda>_. ret_op (from_record (sv_platform E) w)))"

definition list_workspaces :: "('s, 'r) services \<Rightarrow> ('s \<times> 'r, workspace_view list) op" where
  "list_workspaces E = bind_op (on_store (read_op (sv_list E))) (\<lambda>ws. ret_op (map (from_record (sv_platform E)) ws))"

definition get_workspace :: "('s, 'r) services \<Rightarrow> string \<Rightarrow> ('s \<times> 'r, workspace_view) op" where
  "get_workspace E i = bind_op (read_record E i) (\<lambda>w. ret_op (from_record (sv_platform E) w))"

definition is_slack_authority_user_bound :: "('s, 'r) services \<Rightarrow> string \<Rightarrow> string \<Rightarrow> ('s \<times> 'r, bool) op" where
  "is_slack_authority_user_bound E i user = bind_op (read_record E i) (\<lambda>w.
     ret_op (case ir_slack (lw_definition w) of None \<Rightarrow> False
       | Some b \<Rightarrow> \<exists>x\<in>set (sb_identities b). si_hexclave x = user))"

definition write_view ::
  "('s, 'r) services \<Rightarrow> (nat \<Rightarrow> 's \<times> 'r \<Rightarrow> 's \<times> 'r) \<Rightarrow> nat \<Rightarrow> string
    \<Rightarrow> (live_record \<Rightarrow> live_record result) \<Rightarrow> ('s \<times> 'r, workspace_view) op"
where
  "write_view E others k i f = bind_op (commit E others k i f) (\<lambda>w. ret_op (from_record (sv_platform E) w))"

subsection \<open>Baseline, authorization, proposals\<close>

definition approve_workspace_baseline ::
  "('s, 'r) services \<Rightarrow> (nat \<Rightarrow> 's \<times> 'r \<Rightarrow> 's \<times> 'r) \<Rightarrow> datetime \<Rightarrow> string \<Rightarrow> approval_request
    \<Rightarrow> ('s \<times> 'r, workspace_view) op"
where
  "approve_workspace_baseline E others now i q = (let T = sv_transport E; P = sv_platform E in
     bind_op (read_record E i) (\<lambda>w.
     bind_op (read_op (\<lambda>_. require_bound_baseline P i q w)) (\<lambda>_.
     bind_op (on_remote (ensure_context T P w)) (\<lambda>_.
     bind_op (on_remote (tr_baseline T (lw_context w) q)) (\<lambda>st.
     write_view E others 0 i (write_baseline P now i q (cs_version st)))))))"

definition authorize_plan ::
  "('s, 'r) services \<Rightarrow> live_record \<Rightarrow> ('s \<times> 'r, authorization_result) op"
where
  "authorize_plan E w = on_remote (tr_authorize (sv_transport E) (lw_context w) (run_id_of w)
     (art_id (ir_ticket (lw_definition w))) (lw_plan w))"

definition authorize_workspace ::
  "('s, 'r) services \<Rightarrow> (nat \<Rightarrow> 's \<times> 'r \<Rightarrow> 's \<times> 'r) \<Rightarrow> datetime \<Rightarrow> string \<Rightarrow> ('s \<times> 'r, workspace_view) op"
where
  "authorize_workspace E others now i =
     bind_op (read_record E i) (\<lambda>w.
     bind_op (read_op (\<lambda>_. require_authorizable w)) (\<lambda>_.
     bind_op (on_remote (ensure_context (sv_transport E) (sv_platform E) w)) (\<lambda>_.
     bind_op (authorize_plan E w) (\<lambda>res.
     let dispatched = (case granted res of None \<Rightarrow> None
           | Some g \<Rightarrow> dispatch_supervisor (sv_runtime E) (gp_snapshot (sg_payload g)) w)
     in write_view E others 0 i (write_authorization now w res dispatched)))))"

definition propose_decision ::
  "('s, 'r) services \<Rightarrow> (nat \<Rightarrow> 's \<times> 'r \<Rightarrow> 's \<times> 'r) \<Rightarrow> datetime \<Rightarrow> string \<Rightarrow> proposal_request
    \<Rightarrow> ('s \<times> 'r, workspace_view) op"
where
  "propose_decision E others now i p = write_view E others 0 i (write_proposal (sv_platform E) now i p)"

definition cancel_pending_decision ::
  "('s, 'r) services \<Rightarrow> (nat \<Rightarrow> 's \<times> 'r \<Rightarrow> 's \<times> 'r) \<Rightarrow> datetime \<Rightarrow> string \<Rightarrow> ('s \<times> 'r, workspace_view) op"
where
  "cancel_pending_decision E others now i = write_view E others 0 i (write_cancel now)"

definition record_approval_rejection ::
  "('s, 'r) services \<Rightarrow> (nat \<Rightarrow> 's \<times> 'r \<Rightarrow> 's \<times> 'r) \<Rightarrow> datetime \<Rightarrow> string \<Rightarrow> rejection
    \<Rightarrow> ('s \<times> 'r, workspace_view) op"
where
  "record_approval_rejection E others now i r = write_view E others 0 i (write_rejection (sv_platform E) now r)"

subsection \<open>Approving a decision\<close>

definition rejects :: "py_error \<Rightarrow> bool" where
  "rejects e \<longleftrightarrow> (case e of StateConflict m \<Rightarrow> True | ApiFailure s c retryable \<Rightarrow> \<not> retryable | _ \<Rightarrow> False)"

text \<open>\<open>try: body except: cleanup; raise\<close>, for a conflict or a rejection that is not retryable.\<close>

definition clearing :: "('x, 'a) op \<Rightarrow> ('x, live_record) op \<Rightarrow> ('x, 'a) op" where
  "clearing body cleanup x = (case body x of
     (Inl e, y) \<Rightarrow> if rejects e then bind_op cleanup (\<lambda>_. raise_op e) y else (Inl e, y)
   | (Inr v, y) \<Rightarrow> (Inr v, y))"

definition evaluate_change ::
  "('s, 'r) services \<Rightarrow> (nat \<Rightarrow> 's \<times> 'r \<Rightarrow> 's \<times> 'r) \<Rightarrow> string \<Rightarrow> approval_intent \<Rightarrow> mutation_result
    \<Rightarrow> live_record \<Rightarrow> ('s \<times> 'r, approval_intent \<times> authorization_result) op"
where
  "evaluate_change E others i it res w = (case in_authorization it of
     Some verdict \<Rightarrow> ret_op (it, verdict)
   | None \<Rightarrow> bind_op (authorize_plan E w) (\<lambda>verdict.
       if ar_version verdict \<noteq> mres_version res \<or> ar_task verdict \<noteq> art_id (ir_ticket (lw_definition w)) then
         raise_op (RuntimeError ''Authority evaluated a different approval snapshot.'')
       else bind_op (read_op (\<lambda>_. update_intent (sv_platform E) (it\<lparr>in_authorization := Some verdict\<rparr>))) (\<lambda>it.
         bind_op (commit E others 3 i (write_intent_authorization it)) (\<lambda>_. ret_op (it, verdict)))))"

definition apply_change_of ::
  "('s, 'r) services \<Rightarrow> (nat \<Rightarrow> 's \<times> 'r \<Rightarrow> 's \<times> 'r) \<Rightarrow> datetime \<Rightarrow> string \<Rightarrow> string \<Rightarrow> approval_intent
    \<Rightarrow> live_record \<Rightarrow> mutation_result \<Rightarrow> ('s \<times> 'r, workspace_view) op"
where
  "apply_change_of E others now i d it w res = (case mres_report res of
     None \<Rightarrow> raise_op (RuntimeError ''Authority applied a mutation without invalidation evidence.'')
   | Some rep \<Rightarrow>
       bind_op (read_op (\<lambda>_. update_intent (sv_platform E) (it\<lparr>in_result := Some res\<rparr>))) (\<lambda>it.
       bind_op (commit E others 2 i (write_mutation w it res rep
           (apply_supervisor_invalidation (sv_runtime E) (w\<lparr>lw_report := Some rep\<rparr>)))) (\<lambda>w.
       bind_op (evaluate_change E others i it res w) (\<lambda>(it, verdict).
       write_view E others 4 i (write_completion (sv_platform E) now d it res rep verdict)))))"

definition approve_decision ::
  "('s, 'r) services \<Rightarrow> (nat \<Rightarrow> 's \<times> 'r \<Rightarrow> 's \<times> 'r) \<Rightarrow> datetime \<Rightarrow> string \<Rightarrow> string \<Rightarrow> approval_request
    \<Rightarrow> ('s \<times> 'r, workspace_view) op"
where
  "approve_decision E others now i d q = (let T = sv_transport E; P = sv_platform E in
     bind_op (read_record E i) (\<lambda>w.
     case pending_mutation w d of
       None \<Rightarrow> if completed_approval_matches P w d q then ret_op (from_record P w)
         else raise_op (StateConflict ''The requested Decision is not awaiting approval.'')
     | Some _ \<Rightarrow>
       bind_op (read_op (\<lambda>_. require_bound_proposal P i d q w)) (\<lambda>_.
       bind_op (case lw_intent w of
           None \<Rightarrow> bind_op (on_remote (ensure_context T P w)) (\<lambda>_. ret_op (Some w))
         | Some _ \<Rightarrow> ret_op None) (\<lambda>rehydrated.
       bind_op (commit E others 0 i (write_intent P now i d q rehydrated)) (\<lambda>w.
       case lw_intent w of
         None \<Rightarrow> raise_op (RuntimeError ''The durable approval intent was not recorded.'')
       | Some it \<Rightarrow>
           bind_op (clearing (on_remote (recover_intent_mutation T P w it))
             (commit E others 1 i (clear_intent it))) (\<lambda>res.
           apply_change_of E others now i d it w res))))))"

subsection \<open>Verifying, correcting, completing\<close>

definition verify_initial_grant ::
  "('s, 'r) services \<Rightarrow> (nat \<Rightarrow> 's \<times> 'r \<Rightarrow> 's \<times> 'r) \<Rightarrow> datetime \<Rightarrow> string \<Rightarrow> ('s \<times> 'r, workspace_view) op"
where
  "verify_initial_grant E others now i = (let T = sv_transport E; P = sv_platform E in
     bind_op (read_record E i) (\<lambda>w.
     bind_op (read_op (\<lambda>_. already_verified w)) (\<lambda>was.
     if was then ret_op (from_record P w)
     else (case Option.bind (lw_initial w) ar_grant of
         None \<Rightarrow> raise_op (StateConflict ''The workspace has no initial ALLOW grant to verify.'')
       | Some g \<Rightarrow>
           bind_op (on_remote (ensure_context T P w)) (\<lambda>_.
           bind_op (on_remote (tr_execute T (lw_context w) (sg_token g) (run_id_of w)
             (art_id (ir_ticket (lw_definition w))) (ir_plan (lw_definition w)))) (\<lambda>x.
           let enforced = (if stale_execution x then enforce_supervisor_interrupts (sv_runtime E) w else None)
           in write_view E others 0 i (write_initial_check now w x enforced)))))))"

definition update_plan ::
  "('s, 'r) services \<Rightarrow> (nat \<Rightarrow> 's \<times> 'r \<Rightarrow> 's \<times> 'r) \<Rightarrow> datetime \<Rightarrow> string \<Rightarrow> agent_plan \<Rightarrow> ('s \<times> 'r, workspace_view) op"
where
  "update_plan E others now i plan =
     bind_op (read_record E i) (\<lambda>w.
     bind_op (read_op (\<lambda>_. require_updatable plan w)) (\<lambda>_.
     bind_op (read_op (\<lambda>_. redirect_supervisor (sv_runtime E) (w\<lparr>lw_plan := plan\<rparr>))) (\<lambda>redirected.
     write_view E others 0 i (write_plan now w plan redirected))))"

definition reauthorize ::
  "('s, 'r) services \<Rightarrow> (nat \<Rightarrow> 's \<times> 'r \<Rightarrow> 's \<times> 'r) \<Rightarrow> datetime \<Rightarrow> string \<Rightarrow> ('s \<times> 'r, workspace_view) op"
where
  "reauthorize E others now i = (let T = sv_transport E; P = sv_platform E in
     bind_op (read_record E i) (\<lambda>w.
     bind_op (read_op (\<lambda>_. already_reauthorized w)) (\<lambda>was.
     if was then ret_op (from_record P w)
     else
       bind_op (on_remote (ensure_context T P w)) (\<lambda>_.
       bind_op (authorize_plan E w) (\<lambda>res.
       let resumed = (case granted res of None \<Rightarrow> None
             | Some g \<Rightarrow> resume_supervisor (sv_runtime E) (gp_snapshot (sg_payload g)) w)
       in write_view E others 0 i (write_reauthorization now w res resumed))))))"

definition verify_replacement_grant ::
  "('s, 'r) services \<Rightarrow> (nat \<Rightarrow> 's \<times> 'r \<Rightarrow> 's \<times> 'r) \<Rightarrow> datetime \<Rightarrow> string \<Rightarrow> ('s \<times> 'r, workspace_view) op"
where
  "verify_replacement_grant E others now i = (let T = sv_transport E; P = sv_platform E in
     bind_op (read_record E i) (\<lambda>w.
     bind_op (read_op (\<lambda>_. require_verifiable w)) (\<lambda>_.
     case Option.bind (lw_replacement w) ar_grant of
         None \<Rightarrow> raise_op (StateConflict ''The workspace has no replacement grant to verify.'')
       | Some g \<Rightarrow>
           bind_op (on_remote (ensure_context T P w)) (\<lambda>_.
           bind_op (on_remote (tr_execute T (lw_context w) (sg_token g) (run_id_of w)
             (art_id (ir_ticket (lw_definition w))) (lw_plan w))) (\<lambda>x.
           let completed = (if valid_execution x then complete_supervisor (sv_runtime E) w else None)
           in write_view E others 0 i (write_replacement_check now w x completed))))))"

end
