(* ===== verification/Lifecycle.thy ===== *)
theory Lifecycle
  imports Orchestrator Interrupt Session_Enforcement
begin

text \<open>
  The life of a workspace record: the relation of every write that the program makes to a stored
  record (the orchestrator's, the two interrupt ports', and the delivery of a redirect), each with
  whatever the services answered, and the invariant that they keep. A record is never written in
  another way, so what is shown here holds of every stored record, in whatever order the methods
  and other writers come.
\<close>

subsection \<open>What a write does\<close>

lemma add_event_fields [simp]:
  "lw_definition (add_event now ty de ac da w) = lw_definition w"
  "lw_context (add_event now ty de ac da w) = lw_context w"
  "lw_status (add_event now ty de ac da w) = lw_status w"
  "lw_version (add_event now ty de ac da w) = lw_version w"
  "lw_baseline_approved (add_event now ty de ac da w) = lw_baseline_approved w"
  "lw_baseline_role (add_event now ty de ac da w) = lw_baseline_role w"
  "lw_baseline_instance (add_event now ty de ac da w) = lw_baseline_instance w"
  "lw_baseline_evidence (add_event now ty de ac da w) = lw_baseline_evidence w"
  "lw_plan (add_event now ty de ac da w) = lw_plan w"
  "lw_pending (add_event now ty de ac da w) = lw_pending w"
  "lw_proposal_sequence (add_event now ty de ac da w) = lw_proposal_sequence w"
  "lw_pending_instance (add_event now ty de ac da w) = lw_pending_instance w"
  "lw_intent (add_event now ty de ac da w) = lw_intent w"
  "lw_approved (add_event now ty de ac da w) = lw_approved w"
  "lw_initial (add_event now ty de ac da w) = lw_initial w"
  "lw_conflict (add_event now ty de ac da w) = lw_conflict w"
  "lw_replacement (add_event now ty de ac da w) = lw_replacement w"
  "lw_report (add_event now ty de ac da w) = lw_report w"
  "lw_initial_check (add_event now ty de ac da w) = lw_initial_check w"
  "lw_replacement_check (add_event now ty de ac da w) = lw_replacement_check w"
  "lw_supervisor (add_event now ty de ac da w) = lw_supervisor w"
  "lw_created (add_event now ty de ac da w) = lw_created w"
  "lw_history (add_event now ty de ac da w) = lw_history w @ [\<lparr>we_sequence = int (length (lw_history w)) + 1,
     we_type = ty, we_detail = de, we_created = now, we_actor = ac, we_data = da\<rparr>]"
  by (simp_all add: add_event_def)

lemma conflict_not_Inr [simp]: "conflict m \<noteq> Inr v"
  by (simp add: conflict_def)

lemma apply_transitions_iff [simp]:
  "apply_supervisor_transitions read su w = Inr w' \<longleftrightarrow>
     lw_supervisor w = lw_supervisor read \<and> lw_version w = lw_version read \<and> w' = w\<lparr>lw_supervisor := su\<rparr>"
  by (auto simp: apply_supervisor_transitions_def)

lemma confirmed_iff:
  "confirmed i d fp expected q = Some (inst, e) \<longleftrightarrow> expected = Some inst \<and> rq_evidence q = Some e
     \<and> rq_fingerprint q = Some fp \<and> rq_instance q = Some inst \<and> evidence_for i d fp inst q e"
  by (auto simp: confirmed_def split: option.splits if_splits)

lemma require_bound_baseline_iff:
  "require_bound_baseline P i q w = Inr (fp, inst, e) \<longleftrightarrow> lw_status w = WS_Imported
     \<and> fp = artifact_hash P (ir_baseline (lw_definition w))
     \<and> confirmed i (art_id (ir_baseline (lw_definition w))) fp (lw_baseline_instance w) q = Some (inst, e)"
  by (auto simp: require_bound_baseline_def Let_def split: option.splits)

lemma pending_mutation_iff:
  "pending_mutation w d = Some m \<longleftrightarrow> lw_pending w = Some m \<and> lw_status w = WS_Change_Proposed
     \<and> art_id (mut_decision m) = d"
  by (auto simp: pending_mutation_def split: option.splits)

lemma require_bound_proposal_iff:
  "require_bound_proposal P i d q w = Inr (m, fp, inst, e) \<longleftrightarrow> pending_mutation w d = Some m
     \<and> fp = mutation_hash P m \<and> confirmed i d fp (lw_pending_instance w) q = Some (inst, e)"
  by (auto simp: require_bound_proposal_def Let_def split: option.splits)

lemma require_intent_iff:
  "require_intent it w = Inr u \<longleftrightarrow> (\<exists>held. lw_intent w = Some held \<and> in_fingerprint held = in_fingerprint it
     \<and> in_instance held = in_instance it)"
  by (auto simp: require_intent_def holds_intent_def split: option.splits)

subsection \<open>The writes, one by one\<close>

text \<open>An intent of this workspace and decision, as every write of an approval finds it.\<close>

definition intent_for :: "platform \<Rightarrow> string \<Rightarrow> string \<Rightarrow> approval_intent \<Rightarrow> bool" where
  "intent_for P i d it \<longleftrightarrow> validate_intent P it = Inr () \<and> ae_workspace (in_evidence it) = i
     \<and> art_id (mut_decision (in_mutation it)) = d"

inductive lifecycle_step :: "platform \<Rightarrow> runtime \<Rightarrow> live_record \<Rightarrow> live_record \<Rightarrow> bool" for P R where
  baseline: "write_baseline P now (lw_id w) q version w = Inr w' \<Longrightarrow> lifecycle_step P R w w'"
| authorization: "\<lbrakk>su = (case granted res of None \<Rightarrow> None
      | Some g \<Rightarrow> dispatch_supervisor R (gp_snapshot (sg_payload g)) read);
    write_authorization now read res su w = Inr w'\<rbrakk> \<Longrightarrow> lifecycle_step P R w w'"
| proposal: "write_proposal P now (lw_id w) p w = Inr w' \<Longrightarrow> lifecycle_step P R w w'"
| cancel: "write_cancel now w = Inr w' \<Longrightarrow> lifecycle_step P R w w'"
| rejection: "write_rejection P now r w = Inr w' \<Longrightarrow> lifecycle_step P R w w'"
| intent: "write_intent P now (lw_id w) d q rehydrated w = Inr w' \<Longrightarrow> lifecycle_step P R w w'"
| clear: "clear_intent it w = Inr w' \<Longrightarrow> lifecycle_step P R w w'"
| change: "\<lbrakk>intent_for P (lw_id w) d it; in_result it = Some res; mres_report res = Some rep;
    su = apply_supervisor_invalidation R (read\<lparr>lw_report := Some rep\<rparr>);
    write_mutation read it res rep su w = Inr w'\<rbrakk> \<Longrightarrow> lifecycle_step P R w w'"
| evaluation: "\<lbrakk>intent_for P (lw_id w) d it; in_result it = Some res;
    write_intent_authorization it w = Inr w'\<rbrakk> \<Longrightarrow> lifecycle_step P R w w'"
| completion: "\<lbrakk>intent_for P (lw_id w) d it; in_result it = Some res; mres_report res = Some rep;
    write_completion P now d it res rep verdict w = Inr w'\<rbrakk> \<Longrightarrow> lifecycle_step P R w w'"
| initial_check: "\<lbrakk>su = (if stale_execution x then enforce_supervisor_interrupts R read else None);
    write_initial_check now read x su w = Inr w'\<rbrakk> \<Longrightarrow> lifecycle_step P R w w'"
| plan: "\<lbrakk>redirect_supervisor R (read\<lparr>lw_plan := p\<rparr>) = Inr su;
    write_plan now read p su w = Inr w'\<rbrakk> \<Longrightarrow> lifecycle_step P R w w'"
| reauthorization: "\<lbrakk>su = (case granted res of None \<Rightarrow> None
      | Some g \<Rightarrow> resume_supervisor R (gp_snapshot (sg_payload g)) read);
    write_reauthorization now read res su w = Inr w'\<rbrakk> \<Longrightarrow> lifecycle_step P R w w'"
| replacement_check: "\<lbrakk>su = (if valid_execution x then complete_supervisor R read else None);
    write_replacement_check now read x su w = Inr w'\<rbrakk> \<Longrightarrow> lifecycle_step P R w w'"
| live_port: "live_step P now q (Inr w) = Inr (r, Some w') \<Longrightarrow> lifecycle_step P R w w'"
| workspace_port: "\<lbrakk>pr_transition port \<in> {fixture_transition, claude_transition};
    port_step port () q (Inr w) = Inr (r, Some w')\<rbrakk> \<Longrightarrow> lifecycle_step P R w w'"
| delivery: "as_state a = AS_Interrupted \<Longrightarrow>
    lifecycle_step P R w (apply_redirect_delivery loc a version (redirected a version) w)"

subsection \<open>What no write changes\<close>

lemmas write_defs = write_baseline_def write_authorization_def write_proposal_def write_cancel_def write_rejection_def
  write_intent_def clear_intent_def write_mutation_def write_intent_authorization_def write_completion_def
  write_initial_check_def write_plan_def write_reauthorization_def write_replacement_check_def verification_event_def

text \<open>The history of a record only grows, by at most one event, numbered next.\<close>

definition extends :: "live_record \<Rightarrow> live_record \<Rightarrow> bool" where
  "extends w w' \<longleftrightarrow> lw_definition w' = lw_definition w \<and> lw_context w' = lw_context w
     \<and> lw_baseline_instance w' = lw_baseline_instance w \<and> lw_created w' = lw_created w
     \<and> (lw_history w' = lw_history w
        \<or> (\<exists>ev. lw_history w' = lw_history w @ [ev] \<and> we_sequence ev = int (length (lw_history w)) + 1))"

lemma add_event_extends:
  assumes "lw_definition v = lw_definition w" "lw_context v = lw_context w" "lw_history v = lw_history w"
    "lw_baseline_instance v = lw_baseline_instance w" "lw_created v = lw_created w"
  shows "extends w (add_event now ty de ac da v)"
  using assms by (simp add: extends_def)

lemma extends_refl [simp]: "extends w w"
  by (simp add: extends_def)

lemma write_extends: "lifecycle_step P R w w' \<Longrightarrow> extends w w'"
proof (induction rule: lifecycle_step.induct)
  case (delivery a w loc version)
  show ?case by (rule apply_redirect_delivery_cases [of loc a version "redirected a version" w]) (simp_all add: extends_def)
next
  case (live_port now q w r w')
  then show ?case
  proof (cases rule: live_step_cases)
    case (new su v)
    then show ?thesis by (auto simp: live_recorded_def interrupt_event_def extends_def Let_def)
  qed simp
next
  case (workspace_port port q w r w')
  from workspace_port(2) show ?case
  proof (cases rule: port_step_cases)
    case (new v)
    then have "port_apply port q r w = Inr w'" by simp
    then show ?thesis by (auto simp: port_apply_def extends_def Let_def split: option.splits if_splits)
  qed simp
qed (auto simp: write_defs Let_def live_recorded_def interrupt_event_def port_apply_def extends_def split: if_splits option.splits prod.splits)

subsection \<open>The invariant\<close>

text \<open>The statuses after an approved change.\<close>

definition changed_statuses :: "live_status set" where
  "changed_statuses = {WS_Change_Applied, WS_Initial_Grant_Rejected, WS_Plan_Updated, WS_Reauthorized, WS_Complete}"

definition numbered :: "workspace_event list \<Rightarrow> bool" where
  "numbered evs \<longleftrightarrow> map we_sequence evs = map int [1..<Suc (length evs)]"

text \<open>A proposal is pending exactly in its status, under the instance that its number makes.\<close>

definition proposals_ok :: "live_record \<Rightarrow> bool" where
  "proposals_ok w \<longleftrightarrow> (lw_pending w \<noteq> None \<longleftrightarrow> lw_status w = WS_Change_Proposed)
     \<and> lw_pending_instance w = (if lw_pending w = None then None
         else Some (proposal_instance (lw_id w) (lw_proposal_sequence w)))
     \<and> 0 \<le> lw_proposal_sequence w"

text \<open>An approval intent is about the pending proposal, with evidence bound to it.\<close>

definition intents_ok :: "platform \<Rightarrow> live_record \<Rightarrow> bool" where
  "intents_ok P w \<longleftrightarrow> (case lw_intent w of None \<Rightarrow> True
     | Some it \<Rightarrow> (\<exists>m. lw_pending w = Some m \<and> in_fingerprint it = mutation_hash P m)
         \<and> lw_pending_instance w = Some (in_instance it)
         \<and> intent_for P (lw_id w) (art_id (mut_decision (in_mutation it))) it)"

definition baseline_ok :: "platform \<Rightarrow> live_record \<Rightarrow> bool" where
  "baseline_ok P w \<longleftrightarrow> (lw_baseline_approved w \<longleftrightarrow> lw_status w \<noteq> WS_Imported)
     \<and> (lw_baseline_approved w \<longrightarrow> (\<exists>role e inst. lw_baseline_role w = Some role \<and> lw_baseline_evidence w = Some e
         \<and> lw_baseline_instance w = Some inst \<and> ae_workspace e = lw_id w
         \<and> ae_decision e = art_id (ir_baseline (lw_definition w)) \<and> ae_permission e = role
         \<and> ae_fingerprint e = artifact_hash P (ir_baseline (lw_definition w)) \<and> ae_instance e = inst))"

text \<open>An approved change carries evidence of this workspace, bound to this very mutation and role.\<close>

definition evidenced :: "platform \<Rightarrow> string \<Rightarrow> approved_change \<Rightarrow> bool" where
  "evidenced P i am \<longleftrightarrow> (\<exists>e. am_evidence am = Some e \<and> ae_workspace e = i
     \<and> ae_decision e = art_id (mut_decision (am_mutation am)) \<and> ae_permission e = am_role am
     \<and> ae_fingerprint e = mutation_hash P (am_mutation am))"

definition changes_ok :: "platform \<Rightarrow> live_record \<Rightarrow> bool" where
  "changes_ok P w \<longleftrightarrow> length (lw_approved w) = (if lw_status w \<in> changed_statuses then 1 else 0)
     \<and> (\<forall>am\<in>set (lw_approved w). evidenced P (lw_id w) am)
     \<and> (lw_status w \<in> changed_statuses \<longrightarrow> lw_report w \<noteq> None \<and> lw_conflict w \<noteq> None)"

text \<open>The correction of a plan starts from a grant found stale, and ends with a granted replacement.\<close>

definition corrections_ok :: "live_record \<Rightarrow> bool" where
  "corrections_ok w \<longleftrightarrow>
     (lw_status w \<in> {WS_Initial_Grant_Rejected, WS_Plan_Updated, WS_Reauthorized, WS_Complete}
       \<longrightarrow> has_verified_stale_grant w)
   \<and> (lw_status w \<in> {WS_Reauthorized, WS_Complete} \<longrightarrow> (\<exists>res. lw_replacement w = Some res \<and> granted res \<noteq> None))
   \<and> (lw_status w = WS_Complete \<longrightarrow> lw_replacement_check w \<noteq> None)"

definition record_ok :: "platform \<Rightarrow> live_record \<Rightarrow> bool" where
  "record_ok P w \<longleftrightarrow> numbered (lw_history w) \<and> proposals_ok w \<and> intents_ok P w \<and> baseline_ok P w
     \<and> changes_ok P w \<and> corrections_ok w"

lemma record_okD:
  assumes "record_ok P w"
  shows "numbered (lw_history w)" "proposals_ok w" "intents_ok P w" "baseline_ok P w" "changes_ok P w" "corrections_ok w"
  using assms by (simp_all add: record_ok_def)

lemma numbered_append: "numbered evs \<Longrightarrow> we_sequence ev = int (length evs) + 1 \<Longrightarrow> numbered (evs @ [ev])"
  by (simp add: numbered_def)

lemma numbered_step: "numbered (lw_history w) \<Longrightarrow> extends w w' \<Longrightarrow> numbered (lw_history w')"
  by (auto simp: extends_def numbered_append)

lemma validate_intent_checks:
  assumes "validate_intent P it = Inr ()"
  shows "in_fingerprint it = stable_hash P (mutation_dump P (in_mutation it))"
    and "ae_decision (in_evidence it) = art_id (mut_decision (in_mutation it)) \<and> ae_permission (in_evidence it) = in_role it
      \<and> ae_fingerprint (in_evidence it) = in_fingerprint it \<and> ae_instance (in_evidence it) = in_instance it"
    and "case in_result it of None \<Rightarrow> True
         | Some res \<Rightarrow> mres_applied res \<and> (case mres_report res of None \<Rightarrow> False
             | Some rep \<Rightarrow> rep_version rep = mres_version res \<and> rep_changed rep = art_id (mut_decision (in_mutation it)))"
  using assms unfolding validate_intent_def Let_def bind_r_eq_Inr check_Inr by (elim exE conjE, assumption | blast)+

lemma validate_intent_binds:
  assumes "validate_intent P it = Inr ()"
  shows "in_fingerprint it = mutation_hash P (in_mutation it)" "ae_decision (in_evidence it) = art_id (mut_decision (in_mutation it))"
    "ae_permission (in_evidence it) = in_role it" "ae_fingerprint (in_evidence it) = mutation_hash P (in_mutation it)"
    "ae_instance (in_evidence it) = in_instance it"
  using validate_intent_checks(1,2) [OF assms] by (simp_all add: mutation_hash_def)

text \<open>What the ports and the redirect delivery may change of a record: its supervisor and its history.\<close>

definition same_lifecycle :: "live_record \<Rightarrow> live_record \<Rightarrow> bool" where
  "same_lifecycle w w' \<longleftrightarrow> (\<exists>su h. w' = w\<lparr>lw_supervisor := su, lw_history := h\<rparr>)"

lemma same_lifecycle_ok:
  assumes "same_lifecycle w w'"
  shows "proposals_ok w' = proposals_ok w" "intents_ok P w' = intents_ok P w" "baseline_ok P w' = baseline_ok P w"
    "changes_ok P w' = changes_ok P w" "corrections_ok w' = corrections_ok w"
proof -
  obtain su h where w': "w' = w\<lparr>lw_supervisor := su, lw_history := h\<rparr>"
    using assms unfolding same_lifecycle_def by blast
  show "proposals_ok w' = proposals_ok w" by (simp add: w' proposals_ok_def)
  show "intents_ok P w' = intents_ok P w" by (simp add: w' intents_ok_def cong: option.case_cong)
  show "baseline_ok P w' = baseline_ok P w" by (simp add: w' baseline_ok_def)
  show "changes_ok P w' = changes_ok P w" by (simp add: w' changes_ok_def)
  show "corrections_ok w' = corrections_ok w" by (simp add: w' corrections_ok_def has_verified_stale_grant_def)
qed

lemma live_port_same: "live_step P now q (Inr w) = Inr (r, Some w') \<Longrightarrow> same_lifecycle w w'"
  by (elim live_step_cases) (auto simp: live_recorded_def same_lifecycle_def Let_def)

lemma workspace_port_same:
  assumes "port_step port e q (Inr w) = Inr (r, Some w')"
  shows "same_lifecycle w w'"
proof -
  have "port_apply port q r w = Inr w'" using assms by (cases rule: port_step_cases) simp_all
  then have "\<exists>su. w' = w\<lparr>lw_supervisor := su\<rparr>"
    by (auto simp: port_apply_def Let_def split: option.splits if_splits intro: exI [of _ "lw_supervisor w"])
  then obtain su where "w' = w\<lparr>lw_supervisor := su, lw_history := lw_history w\<rparr>" by auto
  then show ?thesis unfolding same_lifecycle_def by blast
qed

lemma delivery_same: "same_lifecycle w (apply_redirect_delivery loc a version new w)"
proof (rule apply_redirect_delivery_cases [of loc a version new w])
  assume "apply_redirect_delivery loc a version new w = w"
  then have "apply_redirect_delivery loc a version new w = w\<lparr>lw_supervisor := lw_supervisor w, lw_history := lw_history w\<rparr>"
    by simp
  then show ?thesis unfolding same_lifecycle_def by blast
next
  fix su k
  assume "apply_redirect_delivery loc a version new w =
    w\<lparr>lw_supervisor := Some (su\<lparr>su_assignments := (su_assignments su)[k := new], su_state := LS_Redirecting\<rparr>)\<rparr>"
  then have "apply_redirect_delivery loc a version new w =
    w\<lparr>lw_supervisor := Some (su\<lparr>su_assignments := (su_assignments su)[k := new], su_state := LS_Redirecting\<rparr>),
      lw_history := lw_history w\<rparr>" by simp
  then show ?thesis unfolding same_lifecycle_def by blast
qed

subsection \<open>The writes, by their effect\<close>

lemma write_baseline_cases:
  assumes "write_baseline P now (lw_id w) q version w = Inr w'"
  obtains fp inst e ty de da where "lw_status w = WS_Imported" "lw_baseline_instance w = Some inst"
    "fp = artifact_hash P (ir_baseline (lw_definition w))"
    "evidence_for (lw_id w) (art_id (ir_baseline (lw_definition w))) fp inst q e"
    "w' = add_event now ty de (Some (rq_role q)) da (w\<lparr>lw_baseline_approved := True, lw_baseline_role := Some (rq_role q),
        lw_baseline_evidence := Some e, lw_status := WS_Baseline_Approved, lw_version := version\<rparr>)"
  using assms
  by (auto simp: write_baseline_def Let_def require_bound_baseline_iff confirmed_iff split: prod.splits)

lemma write_authorization_cases:
  assumes "write_authorization now read res su w = Inr w'"
  obtains (granted) g ty de da where "lw_status w \<in> {WS_Baseline_Approved, WS_Authorized}" "granted res = Some g"
      "lw_supervisor w = lw_supervisor read" "w' = add_event now ty de None da
        (w\<lparr>lw_supervisor := su, lw_status := WS_Authorized, lw_initial := Some res, lw_version := ar_version res\<rparr>)"
  | (refused) ty de da where "lw_status w \<in> {WS_Baseline_Approved, WS_Authorized}" "granted res = None"
      "w' = add_event now ty de None da (w\<lparr>lw_initial := Some res, lw_version := ar_version res\<rparr>)"
  using assms
  by (auto simp: write_authorization_def require_authorizable_def split: option.splits if_splits)

lemma write_proposal_cases:
  assumes "write_proposal P now i p w = Inr w'"
  obtains superseded ty de da where "lw_status w = WS_Authorized"
    "art_id (wp_decision p) \<notin> fst ` set (known_decisions w)"
    "dict_get (known_decisions w) (wp_supersedes p) = Some superseded" "wp_scopes p \<subseteq> art_scopes superseded"
    "w' = add_event now ty de None da (w\<lparr>lw_pending := Some (proposal_mutation p),
        lw_proposal_sequence := lw_proposal_sequence w + 1,
        lw_pending_instance := Some (proposal_instance i (lw_proposal_sequence w + 1)), lw_status := WS_Change_Proposed\<rparr>)"
  using assms unfolding write_proposal_def Let_def
  by (auto split: if_splits option.splits)

lemma write_cancel_cases:
  assumes "write_cancel now w = Inr w'"
  obtains m ty de da where "lw_intent w = None" "lw_pending w = Some m" "lw_status w = WS_Change_Proposed"
    "w' = add_event now ty de None da (w\<lparr>lw_pending := None, lw_pending_instance := None, lw_status := WS_Authorized\<rparr>)"
  using assms unfolding write_cancel_def Let_def by (auto split: if_splits option.splits)

lemma write_rejection_cases:
  assumes "write_rejection P now r w = Inr w'"
  obtains ty de ac da where "expected_permission P r w = Some (rj_permission r)" "w' = add_event now ty de ac da w"
  using assms unfolding write_rejection_def Let_def by (auto split: if_splits prod.splits)

lemma write_intent_cases:
  assumes "write_intent P now i d q rehydrated w = Inr w'"
  obtains (first) m inst e r it where "lw_intent w = None" "pending_mutation w d = Some m" "lw_pending_instance w = Some inst"
      "evidence_for i d (mutation_hash P m) inst q e" "rehydrated = Some r" "same_lineage w r"
      "it = \<lparr>in_mutation = m, in_role = rq_role q, in_fingerprint = mutation_hash P m, in_instance = inst,
         in_evidence = e, in_base = lw_version w, in_prepared = now, in_result = None, in_authorization = None\<rparr>"
      "validate_intent P it = Inr ()" "w' = w\<lparr>lw_intent := Some it\<rparr>"
  | (again) m it where "lw_intent w = Some it" "pending_mutation w d = Some m" "mutation_eq (in_mutation it) m"
      "in_fingerprint it = mutation_hash P m" "ae_workspace (in_evidence it) = i" "ae_decision (in_evidence it) = d" "w' = w"
proof -
  obtain m fp inst e where b: "pending_mutation w d = Some m" "fp = mutation_hash P m" "lw_pending_instance w = Some inst"
      "evidence_for i d fp inst q e" and rest: "(case lw_intent w of
       None \<Rightarrow>
         if (case rehydrated of None \<Rightarrow> True | Some r \<Rightarrow> \<not> same_lineage w r) then
           conflict ''The authority lineage changed while the approval was being recorded.''
         else (let it = \<lparr>in_mutation = m, in_role = rq_role q, in_fingerprint = fp, in_instance = inst,
                 in_evidence = e, in_base = lw_version w, in_prepared = now, in_result = None, in_authorization = None\<rparr>
           in bind_r (validate_intent P it) (\<lambda>_. Inr (w\<lparr>lw_intent := Some it\<rparr>)))
     | Some it \<Rightarrow>
         if \<not> mutation_eq (in_mutation it) m \<or> in_role it \<noteq> rq_role q \<or> in_fingerprint it \<noteq> fp
            \<or> Some (in_instance it) \<noteq> lw_pending_instance w \<or> ae_workspace (in_evidence it) \<noteq> i
            \<or> ae_decision (in_evidence it) \<noteq> d \<or> \<not> same_approval_attempt (in_evidence it) e
         then conflict ''Approval retry does not match the durable approval intent.''
         else Inr w) = Inr w'"
    using assms unfolding write_intent_def
    by (auto simp: require_bound_proposal_iff confirmed_iff)
  show ?thesis
  proof (cases "lw_intent w")
    case None
    with rest b show ?thesis by (auto intro!: first simp: Let_def split: option.splits if_splits)
  next
    case (Some it)
    with rest b show ?thesis by (intro again [of it m]) (auto split: if_splits)
  qed
qed

lemma clear_intent_cases:
  assumes "clear_intent it w = Inr w'"
  obtains "w' = w" | "w' = w\<lparr>lw_intent := None\<rparr>"
  using assms by (auto simp: clear_intent_def split: if_splits)

lemma write_mutation_cases:
  assumes "write_mutation read it res rep su w = Inr w'"
  obtains held where "lw_intent w = Some held" "in_fingerprint held = in_fingerprint it" "in_instance held = in_instance it"
    "lw_supervisor w = lw_supervisor read"
    "w' = w\<lparr>lw_supervisor := su, lw_intent := Some it, lw_version := mres_version res, lw_report := Some rep, lw_conflict := None\<rparr>"
  using assms by (auto simp: write_mutation_def require_intent_iff)

lemma write_intent_authorization_cases:
  assumes "write_intent_authorization it w = Inr w'"
  obtains held where "lw_intent w = Some held" "in_fingerprint held = in_fingerprint it" "in_instance held = in_instance it"
    "w' = w\<lparr>lw_intent := Some it\<rparr>"
  using assms by (auto simp: write_intent_authorization_def require_intent_iff)

lemma write_completion_cases:
  assumes "write_completion P now d it res rep verdict w = Inr w'"
  obtains held ty de ac da where "lw_intent w = Some held" "in_fingerprint held = in_fingerprint it" "in_instance held = in_instance it"
    "w' = add_event now ty de ac da (w\<lparr>lw_approved := lw_approved w @
           [\<lparr>am_mutation = in_mutation it, am_role = in_role it, am_evidence = Some (in_evidence it)\<rparr>],
        lw_pending := None, lw_pending_instance := None, lw_version := mres_version res, lw_report := Some rep,
        lw_conflict := Some verdict, lw_status := WS_Change_Applied, lw_intent := None\<rparr>)"
  using assms unfolding write_completion_def Let_def by (auto simp: require_intent_iff)

lemma write_initial_check_cases:
  assumes "write_initial_check now read x su w = Inr w'"
  obtains (already) "lw_status w = WS_Initial_Grant_Rejected" "has_verified_stale_grant w" "w' = w"
  | (stale) ty de da where "lw_status w \<in> {WS_Change_Applied, WS_Initial_Grant_Rejected}" "stale_execution x"
      "lw_supervisor w = lw_supervisor read" "w' = add_event now ty de None da
        (w\<lparr>lw_supervisor := su, lw_status := WS_Initial_Grant_Rejected, lw_initial_check := Some x\<rparr>)"
  | (other) ty de da where "lw_status w \<in> {WS_Change_Applied, WS_Initial_Grant_Rejected}"
      "\<not> (lw_status w = WS_Initial_Grant_Rejected \<and> has_verified_stale_grant w)" "\<not> stale_execution x"
      "w' = add_event now ty de None da (w\<lparr>lw_status := WS_Change_Applied, lw_initial_check := Some x\<rparr>)"
proof (cases "lw_status w = WS_Initial_Grant_Rejected \<and> has_verified_stale_grant w")
  case True
  then show ?thesis using assms by (intro already) (simp_all add: write_initial_check_def already_verified_def)
next
  case False
  then have st: "lw_status w \<in> {WS_Change_Applied, WS_Initial_Grant_Rejected}"
    and av: "already_verified w = Inr False"
    using assms by (auto simp: write_initial_check_def already_verified_def split: if_splits)
  show ?thesis
  proof (cases "stale_execution x")
    case True
    have "lw_supervisor w = lw_supervisor read \<and> (\<exists>ty de da. w' = add_event now ty de None da
        (w\<lparr>lw_supervisor := su, lw_status := WS_Initial_Grant_Rejected, lw_initial_check := Some x\<rparr>))"
      using assms True unfolding write_initial_check_def av verification_event_def by simp blast
    then show ?thesis using stale [OF st True] by blast
  next
    case other': False
    have "\<exists>ty de da. w' = add_event now ty de None da (w\<lparr>lw_status := WS_Change_Applied, lw_initial_check := Some x\<rparr>)"
      using assms other' unfolding write_initial_check_def av verification_event_def by simp blast
    then show ?thesis using other [OF st False other'] by blast
  qed
qed

lemma write_plan_cases:
  assumes "write_plan now read p su w = Inr w'"
  obtains ty de da where "lw_status w \<in> {WS_Initial_Grant_Rejected, WS_Plan_Updated}" "has_verified_stale_grant w"
    "plan_ticket p = art_id (ir_ticket (lw_definition w))" "lw_supervisor w = lw_supervisor read"
    "w' = add_event now ty de None da (w\<lparr>lw_supervisor := su, lw_plan := p, lw_replacement := None,
        lw_replacement_check := None, lw_status := WS_Plan_Updated\<rparr>)"
  using assms by (auto simp: write_plan_def require_updatable_def split: if_splits)

lemma write_reauthorization_cases:
  assumes "write_reauthorization now read res su w = Inr w'"
  obtains (already) "lw_status w = WS_Reauthorized" "w' = w"
  | (granted) g ty de da where "lw_status w = WS_Plan_Updated" "has_verified_stale_grant w" "plan_eq (lw_plan w) (lw_plan read)"
      "granted res = Some g" "lw_supervisor w = lw_supervisor read" "w' = add_event now ty de None da
        (w\<lparr>lw_supervisor := su, lw_status := WS_Reauthorized, lw_replacement := Some res\<rparr>)"
  | (refused) ty de da where "lw_status w = WS_Plan_Updated" "has_verified_stale_grant w" "plan_eq (lw_plan w) (lw_plan read)"
      "granted res = None" "w' = add_event now ty de None da (w\<lparr>lw_status := WS_Plan_Updated, lw_replacement := Some res\<rparr>)"
proof (cases "lw_status w = WS_Reauthorized \<and> lw_replacement w \<noteq> None")
  case True
  then have "already_reauthorized w = Inr True" by (simp add: already_reauthorized_def)
  then show ?thesis using assms True by (intro already) (simp_all add: write_reauthorization_def)
next
  case False
  have ar: "lw_status w = WS_Plan_Updated" "has_verified_stale_grant w" "already_reauthorized w = Inr False"
    using assms False by (simp_all add: write_reauthorization_def already_reauthorized_def conflict_def split: if_splits)
  have pl: "plan_eq (lw_plan w) (lw_plan read)"
    using assms by (simp add: write_reauthorization_def ar(3) conflict_def split: if_splits)
  show ?thesis
  proof (cases "granted res")
    case None
    have "\<exists>ty de da. w' = add_event now ty de None da (w\<lparr>lw_status := WS_Plan_Updated, lw_replacement := Some res\<rparr>)"
      using assms pl None unfolding write_reauthorization_def ar(3) by simp blast
    then show ?thesis using refused [OF ar(1,2) pl None] by blast
  next
    case (Some g)
    have "lw_supervisor w = lw_supervisor read \<and> (\<exists>ty de da. w' = add_event now ty de None da
        (w\<lparr>lw_supervisor := su, lw_status := WS_Reauthorized, lw_replacement := Some res\<rparr>))"
      using assms pl Some unfolding write_reauthorization_def ar(3) by simp blast
    then show ?thesis using granted [OF ar(1,2) pl Some] by blast
  qed
qed

lemma write_replacement_check_cases:
  assumes "write_replacement_check now read x su w = Inr w'"
  obtains (valid) ty de da where "lw_status w \<in> {WS_Reauthorized, WS_Complete}" "has_verified_stale_grant w"
      "valid_execution x" "lw_supervisor w = lw_supervisor read" "w' = add_event now ty de None da
        (w\<lparr>lw_supervisor := su, lw_status := WS_Complete, lw_replacement_check := Some x\<rparr>)"
  | (other) ty de da where "lw_status w \<in> {WS_Reauthorized, WS_Complete}" "has_verified_stale_grant w" "\<not> valid_execution x"
      "w' = add_event now ty de None da (w\<lparr>lw_replacement_check := Some x\<rparr>)"
  using assms by (auto simp: write_replacement_check_def require_verifiable_def verification_event_def split: if_splits)

subsection \<open>Every write keeps the invariant\<close>

lemmas invariant_parts = proposals_ok_def baseline_ok_def changes_ok_def corrections_ok_def has_verified_stale_grant_def
  changed_statuses_def

lemma intents_none [simp]: "lw_intent w = None \<Longrightarrow> intents_ok P w"
  by (simp add: intents_ok_def)

lemma intents_same:
  assumes "intents_ok P w" and "lw_intent w' = lw_intent w" "lw_pending w' = lw_pending w"
    "lw_pending_instance w' = lw_pending_instance w" "lw_definition w' = lw_definition w"
  shows "intents_ok P w'"
  using assms by (cases "lw_intent w") (simp_all add: intents_ok_def)

text \<open>No intent is open where no proposal is pending.\<close>

lemma no_intent: "intents_ok P w \<Longrightarrow> proposals_ok w \<Longrightarrow> lw_status w \<noteq> WS_Change_Proposed \<Longrightarrow> lw_intent w = None"
  by (cases "lw_intent w") (auto simp: intents_ok_def proposals_ok_def)

text \<open>An intent that advances the one held is about the same proposal.\<close>

lemma intent_advances:
  assumes "intents_ok P w" and "lw_intent w = Some held" and "in_fingerprint held = in_fingerprint it"
    and "in_instance held = in_instance it" and "intent_for P (lw_id w) d it"
    and "lw_intent w' = Some it" "lw_pending w' = lw_pending w"
    "lw_pending_instance w' = lw_pending_instance w" "lw_definition w' = lw_definition w"
  shows "intents_ok P w'"
proof -
  have d: "d = art_id (mut_decision (in_mutation it))" using assms(5) by (simp add: intent_for_def)
  show ?thesis using assms by (simp add: intents_ok_def d)
qed

lemma evidenced_by_intent:
  assumes "intent_for P i d it"
  shows "evidenced P i \<lparr>am_mutation = in_mutation it, am_role = in_role it, am_evidence = Some (in_evidence it)\<rparr>"
  using assms validate_intent_binds [of P it] by (simp add: intent_for_def evidenced_def)

text \<open>A write that leaves the lifecycle alone keeps the other parts.\<close>

lemma parts_same:
  assumes "lw_status w' = lw_status w" "lw_definition w' = lw_definition w"
  shows "\<lbrakk>lw_pending w' = lw_pending w; lw_pending_instance w' = lw_pending_instance w;
      lw_proposal_sequence w' = lw_proposal_sequence w\<rbrakk> \<Longrightarrow> proposals_ok w' = proposals_ok w"
    and "\<lbrakk>lw_baseline_approved w' = lw_baseline_approved w; lw_baseline_role w' = lw_baseline_role w;
      lw_baseline_evidence w' = lw_baseline_evidence w; lw_baseline_instance w' = lw_baseline_instance w\<rbrakk>
      \<Longrightarrow> baseline_ok P w' = baseline_ok P w"
    and "\<lbrakk>lw_approved w' = lw_approved w; lw_report w' = lw_report w; lw_conflict w' = lw_conflict w\<rbrakk>
      \<Longrightarrow> changes_ok P w' = changes_ok P w"
    and "\<lbrakk>lw_initial_check w' = lw_initial_check w; lw_replacement w' = lw_replacement w;
      lw_replacement_check w' = lw_replacement_check w\<rbrakk> \<Longrightarrow> corrections_ok w' = corrections_ok w"
  using assms by (simp_all add: proposals_ok_def baseline_ok_def changes_ok_def corrections_ok_def has_verified_stale_grant_def)

lemma baseline_write_ok:
  assumes "write_baseline P now (lw_id w) q version w = Inr w'" and ok: "record_ok P w" "extends w w'"
  shows "record_ok P w'"
  using assms(1)
proof (cases rule: write_baseline_cases)
  case (1 fp inst e ty de da)
  note parts = record_okD [OF ok(1)]
  have "lw_intent w = None" by (rule no_intent [OF parts(3,2)]) (simp add: 1(1))
  then show ?thesis unfolding record_ok_def using parts 1 numbered_step [OF parts(1) ok(2)]
    by (auto simp: invariant_parts evidence_for_def)
qed

lemma authorization_write_ok:
  assumes "write_authorization now read res su w = Inr w'" and ok: "record_ok P w" "extends w w'"
  shows "record_ok P w'"
proof -
  note parts = record_okD [OF ok(1)]
  note num = numbered_step [OF parts(1) ok(2)]
  have none: "lw_intent w = None" if "lw_status w \<in> {WS_Baseline_Approved, WS_Authorized}"
    by (rule no_intent [OF parts(3,2)]) (use that in auto)
  show ?thesis using assms(1)
  proof (cases rule: write_authorization_cases)
    case (granted g ty de da)
    have st: "lw_status w \<noteq> WS_Imported" "lw_status w \<noteq> WS_Change_Proposed" "lw_status w \<notin> changed_statuses"
      using granted(1) by (auto simp: changed_statuses_def)
    have "proposals_ok w'" using parts(2) st(2) by (simp add: proposals_ok_def granted(4))
    moreover have "baseline_ok P w'" using parts(4) st(1) by (simp add: baseline_ok_def granted(4))
    moreover have "changes_ok P w'" using parts(5) st(3) by (simp add: changes_ok_def granted(4)) (simp add: changed_statuses_def)
    ultimately show ?thesis using num none [OF granted(1)] by (simp add: record_ok_def corrections_ok_def granted(4))
  next
    case (refused ty de da)
    then show ?thesis using num parts none [OF refused(1)] parts_same [of w' w] by (simp add: record_ok_def)
  qed
qed

lemma proposal_write_ok:
  assumes "write_proposal P now (lw_id w) p w = Inr w'" and ok: "record_ok P w" "extends w w'"
  shows "record_ok P w'"
  using assms(1)
proof (cases rule: write_proposal_cases)
  case (1 superseded ty de da)
  note parts = record_okD [OF ok(1)]
  have "lw_intent w = None" by (rule no_intent [OF parts(3,2)]) (simp add: 1(1))
  then show ?thesis unfolding record_ok_def using parts 1 numbered_step [OF parts(1) ok(2)]
    by (auto simp: invariant_parts)
qed

lemma cancel_write_ok:
  assumes "write_cancel now w = Inr w'" and ok: "record_ok P w" "extends w w'"
  shows "record_ok P w'"
  using assms(1)
proof (cases rule: write_cancel_cases)
  case (1 m ty de da)
  note parts = record_okD [OF ok(1)]
  show ?thesis unfolding record_ok_def using parts 1 numbered_step [OF parts(1) ok(2)]
    by (auto simp: invariant_parts)
qed

lemma rejection_write_ok:
  assumes "write_rejection P now r w = Inr w'" and ok: "record_ok P w" "extends w w'"
  shows "record_ok P w'"
  using assms(1)
proof (cases rule: write_rejection_cases)
  case (1 ty de ac da)
  note parts = record_okD [OF ok(1)]
  have "intents_ok P w'" by (rule intents_same [OF parts(3)]) (simp_all add: 1)
  then show ?thesis using parts numbered_step [OF parts(1) ok(2)] parts_same [of w' w]
    by (simp add: record_ok_def 1(2))
qed

lemma intent_write_ok:
  assumes "write_intent P now (lw_id w) d q rehydrated w = Inr w'" and ok: "record_ok P w" "extends w w'"
  shows "record_ok P w'"
  using assms(1)
proof (cases rule: write_intent_cases)
  case (first m inst e r it)
  note parts = record_okD [OF ok(1)]
  have "intent_for P (lw_id w) (art_id (mut_decision (in_mutation it))) it"
    using first by (simp add: intent_for_def evidence_for_def)
  then have "intents_ok P w'"
    using first by (simp add: intents_ok_def pending_mutation_iff)
  then show ?thesis using parts numbered_step [OF parts(1) ok(2)] parts_same [of w' w]
    by (simp add: record_ok_def first(9))
qed (use ok in simp)

lemma clear_write_ok:
  assumes "clear_intent it w = Inr w'" and ok: "record_ok P w" "extends w w'"
  shows "record_ok P w'"
  using assms(1)
proof (cases rule: clear_intent_cases)
  case 2
  then show ?thesis using record_okD [OF ok(1)] parts_same [of w' w] by (simp add: record_ok_def)
qed (use ok in simp)

lemma change_write_ok:
  assumes "write_mutation read it res rep su w = Inr w'" and it: "intent_for P (lw_id w) d it"
    and ok: "record_ok P w" "extends w w'"
  shows "record_ok P w'"
  using assms(1)
proof (cases rule: write_mutation_cases)
  case (1 held)
  note parts = record_okD [OF ok(1)]
  have "intents_ok P w'" by (rule intent_advances [OF parts(3) 1(1,2,3) it]) (simp_all add: 1)
  moreover have "lw_status w = WS_Change_Proposed"
    using no_intent [OF parts(3,2)] 1(1) by auto
  ultimately show ?thesis using parts numbered_step [OF parts(1) ok(2)] parts_same [of w' w]
    by (simp add: record_ok_def 1(5) changes_ok_def changed_statuses_def)
qed

lemma evaluation_write_ok:
  assumes "write_intent_authorization it w = Inr w'" and it: "intent_for P (lw_id w) d it"
    and ok: "record_ok P w" "extends w w'"
  shows "record_ok P w'"
  using assms(1)
proof (cases rule: write_intent_authorization_cases)
  case (1 held)
  note parts = record_okD [OF ok(1)]
  have "intents_ok P w'" by (rule intent_advances [OF parts(3) 1(1,2,3) it]) (simp_all add: 1)
  then show ?thesis using parts numbered_step [OF parts(1) ok(2)] parts_same [of w' w]
    by (simp add: record_ok_def 1(4))
qed

lemma completion_write_ok:
  assumes "write_completion P now d it res rep verdict w = Inr w'" and it: "intent_for P (lw_id w) d it"
    and ok: "record_ok P w" "extends w w'"
  shows "record_ok P w'"
  using assms(1)
proof (cases rule: write_completion_cases)
  case (1 held ty de ac da)
  note parts = record_okD [OF ok(1)]
  have "lw_status w = WS_Change_Proposed"
    using no_intent [OF parts(3,2)] 1(1) by auto
  then have "lw_approved w = []" using parts(5) by (simp add: changes_ok_def changed_statuses_def)
  then have "changes_ok P w'" using evidenced_by_intent [OF it] by (simp add: changes_ok_def changed_statuses_def 1(4))
  moreover have "baseline_ok P w'" using parts(4) \<open>lw_status w = WS_Change_Proposed\<close> by (simp add: baseline_ok_def 1(4))
  moreover have "proposals_ok w'" using parts(2) by (simp add: proposals_ok_def 1(4))
  ultimately show ?thesis using numbered_step [OF parts(1) ok(2)]
    by (simp add: record_ok_def corrections_ok_def 1(4))
qed

lemma initial_check_write_ok:
  assumes "write_initial_check now read x su w = Inr w'" and ok: "record_ok P w" "extends w w'"
  shows "record_ok P w'"
proof -
  note parts = record_okD [OF ok(1)]
  note num = numbered_step [OF parts(1) ok(2)]
  have none: "lw_intent w = None" if "lw_status w \<in> {WS_Change_Applied, WS_Initial_Grant_Rejected}"
    by (rule no_intent [OF parts(3,2)]) (use that in auto)
  show ?thesis using assms(1)
  proof (cases rule: write_initial_check_cases)
    case (stale ty de da)
    then show ?thesis using num parts none by (auto simp: record_ok_def invariant_parts stale_execution_def)
  next
    case (other ty de da)
    then show ?thesis using num parts none by (auto simp: record_ok_def invariant_parts)
  qed (use ok in simp)
qed

lemma plan_write_ok:
  assumes "write_plan now read p su w = Inr w'" and ok: "record_ok P w" "extends w w'"
  shows "record_ok P w'"
  using assms(1)
proof (cases rule: write_plan_cases)
  case (1 ty de da)
  note parts = record_okD [OF ok(1)]
  have "lw_intent w = None" by (rule no_intent [OF parts(3,2)]) (use 1(1) in auto)
  then show ?thesis unfolding record_ok_def using parts 1 numbered_step [OF parts(1) ok(2)]
    by (auto simp: invariant_parts)
qed

lemma reauthorization_write_ok:
  assumes "write_reauthorization now read res su w = Inr w'" and ok: "record_ok P w" "extends w w'"
  shows "record_ok P w'"
proof -
  note parts = record_okD [OF ok(1)]
  note num = numbered_step [OF parts(1) ok(2)]
  have none: "lw_intent w = None" if "lw_status w = WS_Plan_Updated"
    by (rule no_intent [OF parts(3,2)]) (use that in auto)
  show ?thesis using assms(1)
  proof (cases rule: write_reauthorization_cases)
    case (granted g ty de da)
    then show ?thesis using num parts none by (auto simp: record_ok_def invariant_parts)
  next
    case (refused ty de da)
    then show ?thesis using num parts none by (auto simp: record_ok_def invariant_parts)
  qed (use ok in simp)
qed

lemma replacement_check_write_ok:
  assumes "write_replacement_check now read x su w = Inr w'" and ok: "record_ok P w" "extends w w'"
  shows "record_ok P w'"
proof -
  note parts = record_okD [OF ok(1)]
  note num = numbered_step [OF parts(1) ok(2)]
  have none: "lw_intent w = None" if "lw_status w \<in> {WS_Reauthorized, WS_Complete}"
    by (rule no_intent [OF parts(3,2)]) (use that in auto)
  show ?thesis using assms(1)
    by (cases rule: write_replacement_check_cases)
      (use num parts none in \<open>auto simp: record_ok_def invariant_parts\<close>)
qed

lemma port_write_ok:
  assumes "same_lifecycle w w'" and ok: "record_ok P w" "extends w w'"
  shows "record_ok P w'"
  using record_okD [OF ok(1)] numbered_step [OF _ ok(2)]
  by (simp add: record_ok_def same_lifecycle_ok [OF assms(1)])

theorem record_ok_step:
  assumes step: "lifecycle_step P R w w'" and ok: "record_ok P w"
  shows "record_ok P w'"
proof -
  note ex = write_extends [OF step]
  show ?thesis using step
    by (cases rule: lifecycle_step.cases)
      (rule baseline_write_ok authorization_write_ok proposal_write_ok cancel_write_ok rejection_write_ok
        intent_write_ok clear_write_ok initial_check_write_ok plan_write_ok reauthorization_write_ok
        replacement_check_write_ok change_write_ok evaluation_write_ok completion_write_ok,
        assumption, (assumption | rule ok ex)+
       | rule port_write_ok [OF live_port_same ok ex], assumption
       | rule port_write_ok [OF workspace_port_same ok ex], assumption
       | (use ok ex in \<open>simp add: port_write_ok [OF delivery_same]\<close>))+
qed

subsection \<open>From import on\<close>

inductive lifecycle :: "platform \<Rightarrow> runtime \<Rightarrow> live_record \<Rightarrow> bool" for P R where
  imported: "\<lbrakk>validate_import P r = Inr (); rt_create R (ir_id r) run (ir_tasks r) (ir_plan r) version = Inr su\<rbrakk>
    \<Longrightarrow> lifecycle P R (imported_record now uid r su)"
| step: "\<lbrakk>lifecycle P R w; lifecycle_step P R w w'\<rbrakk> \<Longrightarrow> lifecycle P R w'"

lemma imported_ok: "record_ok P (imported_record now uid r su)"
  by (simp add: record_ok_def imported_record_def numbered_def invariant_parts)

theorem lifecycle_ok: "lifecycle P R w \<Longrightarrow> record_ok P w"
  by (induction rule: lifecycle.induct) (auto intro: imported_ok record_ok_step)

text \<open>The status moves on, but for the cancellation of a proposal; nothing approved is lost.\<close>

fun status_rank :: "live_status \<Rightarrow> nat" where
  "status_rank WS_Imported = 0"
| "status_rank WS_Baseline_Approved = 1"
| "status_rank WS_Authorized = 2"
| "status_rank WS_Change_Proposed = 3"
| "status_rank WS_Change_Applied = 4"
| "status_rank WS_Initial_Grant_Rejected = 5"
| "status_rank WS_Plan_Updated = 6"
| "status_rank WS_Reauthorized = 7"
| "status_rank WS_Complete = 8"

definition moves_on :: "live_record \<Rightarrow> live_record \<Rightarrow> bool" where
  "moves_on w w' \<longleftrightarrow> status_rank (lw_status w) \<le> status_rank (lw_status w')
     \<or> (lw_status w = WS_Change_Proposed \<and> lw_status w' = WS_Authorized \<and> lw_intent w = None
        \<and> lw_pending w' = None \<and> lw_version w' = lw_version w \<and> lw_approved w' = lw_approved w)"

lemma moves_on_same: "lw_status w' = lw_status w \<Longrightarrow> moves_on w w'"
  by (simp add: moves_on_def)

lemma same_lifecycle_status: "same_lifecycle w w' \<Longrightarrow> lw_status w' = lw_status w \<and> lw_approved w' = lw_approved w"
  by (auto simp: same_lifecycle_def)

theorem status_moves_on:
  assumes step: "lifecycle_step P R w w'" and ok: "record_ok P w"
  shows "moves_on w w' \<and> (\<exists>xs. lw_approved w' = lw_approved w @ xs)"
  using step
proof (cases rule: lifecycle_step.cases)
  case (baseline now q version)
  from baseline(1) show ?thesis by (cases rule: write_baseline_cases) (simp add: moves_on_def)
next
  case (authorization su res read now)
  from authorization(2) show ?thesis by (cases rule: write_authorization_cases) (auto simp: moves_on_def)
next
  case (proposal now p)
  from proposal(1) show ?thesis by (cases rule: write_proposal_cases) (simp add: moves_on_def)
next
  case (cancel now)
  from cancel(1) show ?thesis by (cases rule: write_cancel_cases) (simp add: moves_on_def)
next
  case (rejection now r)
  from rejection(1) show ?thesis by (cases rule: write_rejection_cases) (simp add: moves_on_def)
next
  case (intent now d q rehydrated)
  from intent(1) show ?thesis by (cases rule: write_intent_cases) (simp_all add: moves_on_def)
next
  case (clear it)
  from clear(1) show ?thesis by (cases rule: clear_intent_cases) (simp_all add: moves_on_def)
next
  case (change d it res rep su read)
  from change(5) show ?thesis by (cases rule: write_mutation_cases) (simp add: moves_on_def)
next
  case (evaluation d it res)
  from evaluation(3) show ?thesis by (cases rule: write_intent_authorization_cases) (simp add: moves_on_def)
next
  case (completion d it res rep now verdict)
  from completion(4) show ?thesis
  proof (cases rule: write_completion_cases)
    case (1 held ty de ac da)
    have "lw_status w = WS_Change_Proposed"
      using no_intent [OF record_okD(3) [OF ok] record_okD(2) [OF ok]] 1(1) by auto
    then show ?thesis by (simp add: moves_on_def 1(4))
  qed
next
  case (initial_check su x read now)
  from initial_check(2) show ?thesis
  proof (cases rule: write_initial_check_cases)
    case (other ty de da)
    then have "lw_status w = WS_Change_Applied"
      using record_okD(6) [OF ok] by (auto simp: corrections_ok_def)
    then show ?thesis by (simp add: moves_on_def other(4))
  qed (auto simp: moves_on_def)
next
  case (plan read p su now)
  from plan(2) show ?thesis by (cases rule: write_plan_cases) (auto simp: moves_on_def)
next
  case (reauthorization su res read now)
  from reauthorization(2) show ?thesis by (cases rule: write_reauthorization_cases) (simp_all add: moves_on_def)
next
  case (replacement_check su x read now)
  from replacement_check(2) show ?thesis by (cases rule: write_replacement_check_cases) (auto simp: moves_on_def)
next
  case (live_port now q r)
  then show ?thesis using same_lifecycle_status [OF live_port_same] by (simp add: moves_on_same)
next
  case (workspace_port port q r)
  then show ?thesis using same_lifecycle_status [OF workspace_port_same] by (simp add: moves_on_same)
next
  case (delivery a loc version)
  then show ?thesis using same_lifecycle_status [OF delivery_same] by (simp add: moves_on_same)
qed

subsection \<open>What happens to an assignment\<close>

text \<open>
  An assignment runs, is preserved or interrupted, is redirected with a corrected plan, resumes and
  completes; an interrupt may come at any time before it completes.
\<close>

definition state_moves :: "assignment_state \<Rightarrow> assignment_state \<Rightarrow> bool" where
  "state_moves s t \<longleftrightarrow> s = t \<or> (t = AS_Interrupted \<and> s \<noteq> AS_Completed)
     \<or> (s, t) \<in> {(AS_Queued, AS_Running), (AS_Running, AS_Continuing), (AS_Interrupted, AS_Redirected),
                (AS_Redirected, AS_Resumed), (AS_Resumed, AS_Completed)}"

definition follows :: "assignment \<Rightarrow> assignment \<Rightarrow> bool" where
  "follows a b \<longleftrightarrow> same_assignment b a \<and> state_moves (as_state a) (as_state b)"

definition supervisor_follows :: "supervisor option \<Rightarrow> supervisor option \<Rightarrow> bool" where
  "supervisor_follows = rel_option (\<lambda>su su'. list_all2 follows (su_assignments su) (su_assignments su'))"

lemma follows_refl [simp]: "follows a a"
  by (simp add: follows_def state_moves_def same_assignment_def)

lemma supervisor_follows_refl [simp]: "supervisor_follows su su"
  by (cases su) (simp_all add: supervisor_follows_def list_all2_refl)

lemma pass_follows: "(\<And>a. a \<in> set (su_assignments su) \<Longrightarrow> follows a (f a)) \<Longrightarrow>
    list_all2 follows (su_assignments su) (su_assignments (pass f su))"
  by (simp add: pass_def list_all2_map2 list_all2_same)

lemma map_follows: "(\<And>a. a \<in> set as \<Longrightarrow> follows a (f a)) \<Longrightarrow> list_all2 follows as (map f as)"
  by (simp add: list_all2_map2 list_all2_same)

lemma update_follows: "follows (as ! k) b \<Longrightarrow> list_all2 follows as (as[k := b])"
  by (cases "k < length as") (auto simp: list_all2_conv_all_nth nth_list_update)

text \<open>Identifiers stay, so a well formed supervisor stays well formed.\<close>

lemma follows_ids:
  "list_all2 follows as bs \<Longrightarrow> map as_id bs = map as_id as \<and> map as_task bs = map as_task as"
  by (induction rule: list_all2_induct) (auto simp: follows_def same_assignment_def)

text \<open>The two ports and the delivery.\<close>

lemma claude_follows: "state_moves (as_state a) (ta_state t) \<Longrightarrow> follows a (claude_transition t a)"
  by (simp add: follows_def claude_rt.transition_same claude_rt.transition_state)

lemma fixture_follows: "state_moves (as_state a) (ta_state t) \<Longrightarrow> follows a (fixture_transition t a)"
  by (simp add: follows_def fixture_rt.transition_same fixture_rt.transition_state)

lemma live_port_follows:
  assumes "live_step P now q (Inr w) = Inr (r, Some w')"
    and dist: "\<And>su. lw_supervisor w = Some su \<Longrightarrow> distinct (map as_id (su_assignments su))"
  shows "supervisor_follows (lw_supervisor w) (lw_supervisor w')"
  using assms(1)
proof (cases rule: live_step_cases)
  case (new su v)
  have su: "lw_supervisor w = Some su"
    using new(3) by (auto simp: live_supervisor_def split: option.splits if_splits)
  have v: "v = w'" using new(5) by simp
  obtain su' where su': "lw_supervisor w' = Some su'" "su_assignments su' = map (live_change q r) (su_assignments su)"
    using live_recorded_fields(4) [OF new(4)] v by blast
  have "su_assignments su' = map (\<lambda>a. if live_target q a then claude_transition (interrupt_args q (iq_path q)) a
         else if live_spared q a \<and> as_state a = AS_Running then claude_transition (to_state AS_Continuing) a
         else a) (su_assignments su)"
    unfolding su'(2) live_recorded_fields(3) [OF new(4)] by (rule live_change_map [OF dist [OF su]])
  moreover have "list_all2 follows (su_assignments su) \<dots>"
    by (rule map_follows)
      (auto simp: live_target_def state_moves_def interrupt_args_def to_state_def intro!: claude_follows)
  ultimately show ?thesis using su su'(1) by (simp add: supervisor_follows_def)
qed simp

lemma workspace_port_follows:
  assumes "port_step port e q (Inr w) = Inr (r, Some w')" and port: "pr_transition port \<in> {fixture_transition, claude_transition}"
    and dist: "\<And>su. lw_supervisor w = Some su \<Longrightarrow> distinct (map as_id (su_assignments su))"
  shows "supervisor_follows (lw_supervisor w) (lw_supervisor w')"
  using assms(1)
proof (cases rule: port_step_cases)
  case (new v)
  have step: "port_apply port q (port_result w q) w = Inr w'" using new by simp
  show ?thesis
  proof (cases "lw_supervisor w")
    case None
    then show ?thesis using step by (simp add: port_apply_def)
  next
    case (Some su)
    let ?rep = "report_for w (iq_decision q)" and ?e = "already_invalidated (lw_supervisor w) (iq_decision q)"
    let ?f = "\<lambda>a. if as_id a \<in> set (ix_interrupted (port_result w q))
                  then pr_transition port (interrupt_args q (provenance_for a ?rep (iq_path q))) a else a"
    obtain su' where su': "lw_supervisor w' = Some su'" "su_assignments su' = map ?f (su_assignments su)"
      using step Some by (auto simp: port_apply_def Let_def split: if_splits)
    have "follows a (?f a)" if "a \<in> set (su_assignments su)" for a
    proof (cases "as_id a \<in> set (ix_interrupted (port_result w q))")
      case True
      then have "port_hit (iq_scopes q) ?rep ?e a"
        using id_in_image [OF dist [OF Some] that] by (simp add: port_result_def Some port_partition_sets)
      then have "as_state a \<noteq> AS_Completed" by (auto simp: port_hit_def interruptible_states_def)
      then have "state_moves (as_state a) AS_Interrupted" by (simp add: state_moves_def)
      then show ?thesis using True port claude_follows fixture_follows by (auto simp: interrupt_args_def to_state_def)
    qed simp
    then have "list_all2 follows (su_assignments su) (map ?f (su_assignments su))" by (rule map_follows)
    then show ?thesis using Some su' by (simp add: supervisor_follows_def)
  qed
qed simp

lemma delivery_follows:
  assumes "as_state a = AS_Interrupted"
  shows "supervisor_follows (lw_supervisor w) (lw_supervisor (apply_redirect_delivery loc a version (redirected a version) w))"
proof (rule apply_redirect_delivery_cases [of loc a version "redirected a version" w])
  fix su k
  assume su: "lw_supervisor w = Some su" "su_assignments su ! k = a" and eq: "apply_redirect_delivery loc a version (redirected a version) w =
      w\<lparr>lw_supervisor := Some (su\<lparr>su_assignments := (su_assignments su)[k := redirected a version], su_state := LS_Redirecting\<rparr>)\<rparr>"
  have "follows a (redirected a version)"
    unfolding redirected_def by (rule claude_follows) (simp add: assms state_moves_def to_state_def)
  then have "list_all2 follows (su_assignments su) ((su_assignments su)[k := redirected a version])"
    using update_follows [of "su_assignments su" k] su(2) by simp
  then show ?thesis unfolding eq using su(1) by (simp add: supervisor_follows_def)
qed simp

context supervisor_runtime
begin

abbreviation this_runtime :: runtime where
  "this_runtime \<equiv> \<lparr>rt_create = create, rt_transition = transition\<rparr>"

lemma transition_follows: "state_moves (as_state a) (ta_state t) \<Longrightarrow> follows a (transition t a)"
  by (simp add: follows_def transition_same transition_state)

lemma dispatch_follows: "supervisor_follows (lw_supervisor w) (dispatch_supervisor this_runtime snap w)"
  by (cases "lw_supervisor w")
    (auto simp: supervisor_follows_def dispatch_supervisor_def state_moves_def to_state_def pass_def
      intro!: map_follows transition_follows)

lemma invalidation_follows:
  "supervisor_follows (lw_supervisor w) (apply_supervisor_invalidation this_runtime w)"
  by (cases "lw_supervisor w"; cases "lw_report w")
    (auto simp: supervisor_follows_def apply_supervisor_invalidation_def state_moves_def to_state_def
      pass_def Let_def invalidate_assignment_def invalidation_args_def list_all2_refl intro!: map_follows transition_follows)

lemma enforce_follows: "supervisor_follows (lw_supervisor w) (enforce_supervisor_interrupts this_runtime w)"
  by (cases "lw_supervisor w")
    (auto simp: supervisor_follows_def enforce_supervisor_interrupts_def state_moves_def to_state_def
      pass_def intro!: map_follows transition_follows)

lemma redirect_assignment_follows: "follows a (redirect_assignment this_runtime w resolved a)"
proof (cases "as_state a \<in> {AS_Interrupted, AS_Redirected}")
  case True
  let ?t = "(to_state AS_Redirected)\<lparr>ta_plan := Some (lw_plan w),
              ta_actions := Some (case dict_get resolved (as_task a) of None \<Rightarrow> [] | Some xs \<Rightarrow> xs),
              ta_snapshot := Some (lw_version w), ta_replacement := (as_state a = AS_Interrupted)\<rparr>"
  let ?b = "transition ?t a"
  have b: "same_assignment ?b a" "as_state ?b = AS_Redirected"
    using transition_same [of ?t a] by (simp_all add: transition_state to_state_def)
  let ?u = "(to_state AS_Redirected)\<lparr>ta_instruction :=
             Some (redirect_instruction ?b (plan_id (lw_plan w)) (plan_actions (lw_plan w)))\<rparr>"
  have "same_assignment (transition ?u ?b) ?b" "as_state (transition ?u ?b) = AS_Redirected"
    using transition_same [of ?u ?b] by (simp_all add: transition_state to_state_def)
  moreover have "redirect_assignment this_runtime w resolved a = transition ?u ?b"
    using True by (auto simp: redirect_assignment_def Let_def)
  ultimately show ?thesis using b True by (auto simp: follows_def same_assignment_def state_moves_def)
qed (simp add: redirect_assignment_def)

lemma redirect_follows:
  assumes "redirect_supervisor this_runtime w = Inr su"
  shows "supervisor_follows (lw_supervisor w) su"
proof (cases "lw_supervisor w")
  case None
  then show ?thesis using assms by (simp add: redirect_supervisor_def)
next
  case (Some s)
  then obtain resolved where r: "resolve_plan_actions_for_assignments (su_assignments s) (lw_plan w) = Inr resolved"
    using assms by (auto simp: redirect_supervisor_def split: sum.splits)
  have "list_all2 follows (su_assignments s) (su_assignments (pass (redirect_assignment this_runtime w resolved) s))"
    by (rule pass_follows) (rule redirect_assignment_follows)
  then show ?thesis using assms Some r by (auto simp: redirect_supervisor_def supervisor_follows_def Let_def split: if_splits)
qed

lemma resume_follows: "supervisor_follows (lw_supervisor w) (resume_supervisor this_runtime snap w)"
  by (cases "lw_supervisor w")
    (auto simp: supervisor_follows_def resume_supervisor_def state_moves_def to_state_def pass_def
      intro!: map_follows transition_follows)

lemma complete_follows: "supervisor_follows (lw_supervisor w) (complete_supervisor this_runtime w)"
  by (cases "lw_supervisor w")
    (auto simp: supervisor_follows_def complete_supervisor_def state_moves_def to_state_def pass_def
      intro!: map_follows transition_follows)

theorem assignments_follow:
  assumes step: "lifecycle_step P this_runtime w w'"
    and dist: "\<And>su. lw_supervisor w = Some su \<Longrightarrow> distinct (map as_id (su_assignments su))"
  shows "supervisor_follows (lw_supervisor w) (lw_supervisor w')"
  using step
proof (cases rule: lifecycle_step.cases)
  case (baseline now q version)
  from baseline(1) show ?thesis by (cases rule: write_baseline_cases) simp
next
  case (authorization su res read now)
  from authorization(2) show ?thesis
  proof (cases rule: write_authorization_cases)
    case (granted g ty de da)
    then show ?thesis using authorization(1) dispatch_follows [of read] by simp
  qed simp
next
  case (proposal now p)
  from proposal(1) show ?thesis by (cases rule: write_proposal_cases) simp
next
  case (cancel now)
  from cancel(1) show ?thesis by (cases rule: write_cancel_cases) simp
next
  case (rejection now r)
  from rejection(1) show ?thesis by (cases rule: write_rejection_cases) simp
next
  case (intent now d q rehydrated)
  from intent(1) show ?thesis by (cases rule: write_intent_cases) simp_all
next
  case (clear it)
  from clear(1) show ?thesis by (cases rule: clear_intent_cases) simp_all
next
  case (change d it res rep su read)
  from change(5) show ?thesis
    by (cases rule: write_mutation_cases) (use change(4) invalidation_follows [of "read\<lparr>lw_report := Some rep\<rparr>"] in simp)
next
  case (evaluation d it res)
  from evaluation(3) show ?thesis by (cases rule: write_intent_authorization_cases) simp
next
  case (completion d it res rep now verdict)
  from completion(4) show ?thesis by (cases rule: write_completion_cases) simp
next
  case (initial_check su x read now)
  from initial_check(2) show ?thesis
  proof (cases rule: write_initial_check_cases)
    case (stale ty de da)
    then show ?thesis using initial_check(1) enforce_follows [of read] by simp
  qed simp_all
next
  case (plan read p su now)
  from plan(2) show ?thesis
    by (cases rule: write_plan_cases) (use redirect_follows [OF plan(1)] in simp)
next
  case (reauthorization su res read now)
  from reauthorization(2) show ?thesis
  proof (cases rule: write_reauthorization_cases)
    case (granted g ty de da)
    then show ?thesis using reauthorization(1) resume_follows [of read] by simp
  qed simp_all
next
  case (replacement_check su x read now)
  from replacement_check(2) show ?thesis
  proof (cases rule: write_replacement_check_cases)
    case (valid ty de da)
    then show ?thesis using replacement_check(1) complete_follows [of read] by simp
  qed simp
next
  case (live_port now q r)
  then show ?thesis using live_port_follows dist by blast
next
  case (workspace_port port q r)
  then show ?thesis using workspace_port_follows dist by blast
next
  case (delivery a loc version)
  then show ?thesis using delivery_follows by simp
qed

text \<open>So identifiers never change, and the supervisor of a record is well formed from import on.\<close>

theorem supervisor_stays:
  assumes "lifecycle P this_runtime w"
  shows "\<exists>su. lw_supervisor w = Some su \<and> distinct (map as_id (su_assignments su))
    \<and> map as_task (su_assignments su) = map art_id (ir_tasks (lw_definition w))"
  using assms
proof (induction rule: lifecycle.induct)
  case (imported r run version su now uid)
  then show ?case using create_ok [of "ir_id r" run "ir_tasks r" "ir_plan r" version su]
    by (auto simp: imported_record_def supervisor_ok_def)
next
  case (step w w')
  then obtain su where su: "lw_supervisor w = Some su" "distinct (map as_id (su_assignments su))"
      "map as_task (su_assignments su) = map art_id (ir_tasks (lw_definition w))" by blast
  have "supervisor_follows (lw_supervisor w) (lw_supervisor w')"
    by (rule assignments_follow [OF step.hyps(2)]) (simp add: su)
  then obtain su' where su': "lw_supervisor w' = Some su'" "list_all2 follows (su_assignments su) (su_assignments su')"
    using su(1) by (auto simp: supervisor_follows_def option_rel_Some1)
  have "lw_definition w' = lw_definition w" using write_extends [OF step.hyps(2)] by (simp add: extends_def)
  then show ?case using su su'(1) follows_ids [OF su'(2)] by simp
qed

end

end
