(* ===== verification/Orchestrator_Runs.thy ===== *)
theory Orchestrator_Runs
  imports Lifecycle
begin

text \<open>
  The orchestrator's methods refine the life of a record: whatever the authority service answers and
  whatever other writers do between a method's calls, every stored record stays on its lifecycle.
  Proved once for the repository protocol; both stores are instances of it.
\<close>

subsection \<open>Calls\<close>

datatype orchestrator_call =
    Import_Workspace string import_request
  | Approve_Baseline string approval_request
  | Authorize_Workspace string
  | Propose_Decision string proposal_request
  | Cancel_Pending string
  | Record_Rejection string rejection
  | Approve_Decision string string approval_request
  | Verify_Initial string
  | Update_Plan string agent_plan
  | Reauthorize string
  | Verify_Replacement string

fun run_orchestrator ::
  "('s, 'r) services \<Rightarrow> (nat \<Rightarrow> 's \<times> 'r \<Rightarrow> 's \<times> 'r) \<Rightarrow> datetime \<Rightarrow> orchestrator_call \<Rightarrow> ('s \<times> 'r, workspace_view) op"
where
  "run_orchestrator E others now (Import_Workspace uid r) = import_workspace E now uid r"
| "run_orchestrator E others now (Approve_Baseline i q) = approve_workspace_baseline E others now i q"
| "run_orchestrator E others now (Authorize_Workspace i) = authorize_workspace E others now i"
| "run_orchestrator E others now (Propose_Decision i p) = propose_decision E others now i p"
| "run_orchestrator E others now (Cancel_Pending i) = cancel_pending_decision E others now i"
| "run_orchestrator E others now (Record_Rejection i r) = record_approval_rejection E others now i r"
| "run_orchestrator E others now (Approve_Decision i d q) = approve_decision E others now i d q"
| "run_orchestrator E others now (Verify_Initial i) = verify_initial_grant E others now i"
| "run_orchestrator E others now (Update_Plan i p) = update_plan E others now i p"
| "run_orchestrator E others now (Reauthorize i) = reauthorize E others now i"
| "run_orchestrator E others now (Verify_Replacement i) = verify_replacement_grant E others now i"

text \<open>An import request has passed its validator when it reaches the orchestrator.\<close>

definition parsed_call :: "platform \<Rightarrow> orchestrator_call \<Rightarrow> bool" where
  "parsed_call P call \<longleftrightarrow> (case call of Import_Workspace uid r \<Rightarrow> validate_import P r = Inr () | _ \<Rightarrow> True)"

subsection \<open>Stores whose records are on their lifecycle\<close>

text \<open>Every stored record is on its lifecycle; and between two states each has only taken steps of it.\<close>

definition store_sound ::
  "('s \<Rightarrow> bool) \<Rightarrow> ('s \<Rightarrow> string \<Rightarrow> live_record result) \<Rightarrow> platform \<Rightarrow> runtime \<Rightarrow> 's \<Rightarrow> bool"
where
  "store_sound ok get P R s \<longleftrightarrow> ok s \<and> (\<forall>j w. get s j = Inr w \<longrightarrow> lifecycle P R w)"

definition store_evolves ::
  "('s \<Rightarrow> bool) \<Rightarrow> ('s \<Rightarrow> string \<Rightarrow> live_record result) \<Rightarrow> platform \<Rightarrow> runtime \<Rightarrow> 's \<Rightarrow> 's \<Rightarrow> bool"
where
  "store_evolves ok get P R s t \<longleftrightarrow> store_sound ok get P R t
     \<and> (\<forall>j w. get s j = Inr w \<longrightarrow> (\<exists>w'. get t j = Inr w' \<and> (lifecycle_step P R)\<^sup>*\<^sup>* w w'))"

text \<open>Other writers keep every record on its lifecycle too.\<close>

definition store_steady ::
  "('s \<Rightarrow> bool) \<Rightarrow> ('s \<Rightarrow> string \<Rightarrow> live_record result) \<Rightarrow> platform \<Rightarrow> runtime
    \<Rightarrow> (nat \<Rightarrow> 's \<times> 'r \<Rightarrow> 's \<times> 'r) \<Rightarrow> bool"
where
  "store_steady ok get P R others \<longleftrightarrow>
     (\<forall>k x. store_sound ok get P R (fst x) \<longrightarrow> store_evolves ok get P R (fst x) (fst (others k x)))"

context live_repository
begin

abbreviation services_with where
  "services_with listing T R P \<equiv> \<lparr>sv_get = get, sv_list = listing, sv_create = create, sv_mutate = mutate,
     sv_transport = T, sv_runtime = R, sv_platform = P\<rparr>"

abbreviation "sound \<equiv> store_sound ok get"
abbreviation "evolves \<equiv> store_evolves ok get"
abbreviation "steady \<equiv> store_steady ok get"

lemmas sound_def = store_sound_def [of ok get]
lemmas evolves_def = store_evolves_def [of ok get]
lemmas steady_def = store_steady_def [of ok get]

lemma evolves_refl: "sound P R s \<Longrightarrow> evolves P R s s"
  by (auto simp: evolves_def)

lemma evolves_trans: "\<lbrakk>evolves P R s t; evolves P R t u\<rbrakk> \<Longrightarrow> evolves P R s u"
  unfolding evolves_def by (meson rtranclp_trans)

lemma evolves_sound: "evolves P R s t \<Longrightarrow> sound P R t"
  by (simp add: evolves_def)

lemma lifecycle_steps: "(lifecycle_step P R)\<^sup>*\<^sup>* w w' \<Longrightarrow> lifecycle P R w \<Longrightarrow> lifecycle P R w'"
  by (induction rule: rtranclp_induct) (auto intro: lifecycle.step)

text \<open>A write that is a step of the lifecycle, or writes back what it read.\<close>

lemma put_evolves:
  assumes s: "sound P R s" and t: "ok t" "keeps_others get s i w' t" and w: "get s i = Inr w"
    and step: "w' = w \<or> lifecycle_step P R w w'"
  shows "evolves P R s t"
proof -
  have steps: "(lifecycle_step P R)\<^sup>*\<^sup>* w w'" using step by auto
  have "lifecycle P R w" using s w by (simp add: sound_def)
  then have "lifecycle P R w'" using lifecycle_steps [OF steps] by blast
  then show ?thesis using s t w steps by (auto simp: evolves_def sound_def keeps_others_def)
qed

subsection \<open>Methods that keep it\<close>

definition evolving :: "platform \<Rightarrow> runtime \<Rightarrow> ('s \<times> 'r, 'a) op \<Rightarrow> ('a \<Rightarrow> bool) \<Rightarrow> bool" where
  "evolving P R m Q \<longleftrightarrow> (\<forall>x r y. sound P R (fst x) \<longrightarrow> m x = (r, y) \<longrightarrow>
     evolves P R (fst x) (fst y) \<and> (\<forall>v. r = Inr v \<longrightarrow> Q v))"

lemma evolvingD: "\<lbrakk>evolving P R m Q; sound P R (fst x); m x = (r, y)\<rbrakk> \<Longrightarrow> evolves P R (fst x) (fst y)"
  unfolding evolving_def by blast

lemma evolving_ret [intro]: "Q v \<Longrightarrow> evolving P R (ret_op v) Q"
  by (auto simp: evolving_def intro: evolves_refl)

lemma evolving_raise [intro]: "evolving P R (raise_op e) Q"
  by (auto simp: evolving_def intro: evolves_refl)

lemma evolving_read: "(\<And>v. r = Inr v \<Longrightarrow> Q v) \<Longrightarrow> evolving P R (read_op (\<lambda>_. r)) Q"
  by (auto simp: evolving_def intro: evolves_refl)

lemma evolving_remote: "evolving P R (on_remote m) (\<lambda>_. True)"
  by (auto simp: evolving_def on_remote_def intro: evolves_refl split: prod.splits)

lemma evolving_bind:
  assumes "evolving P R m Q" and "\<And>v. Q v \<Longrightarrow> evolving P R (f v) S"
  shows "evolving P R (bind_op m f) S"
  unfolding evolving_def
proof (intro allI impI)
  fix x r y
  assume x: "sound P R (fst x)" and run: "bind_op m f x = (r, y)"
  obtain r' x' where m: "m x = (r', x')" by (rule prod.exhaust)
  then have ev: "evolves P R (fst x) (fst x')" and q: "\<And>v. r' = Inr v \<Longrightarrow> Q v"
    using assms(1) x unfolding evolving_def by blast+
  show "evolves P R (fst x) (fst y) \<and> (\<forall>v. r = Inr v \<longrightarrow> S v)"
  proof (cases r')
    case (Inl e)
    then show ?thesis using run m ev by (auto simp: bind_op_def)
  next
    case (Inr v)
    then have "f v x' = (r, y)" using run m by (simp add: bind_op_def)
    then have "evolves P R (fst x') (fst y) \<and> (\<forall>v. r = Inr v \<longrightarrow> S v)"
      using assms(2) [OF q [OF Inr]] evolves_sound [OF ev] unfolding evolving_def by blast
    then show ?thesis using evolves_trans [OF ev] by blast
  qed
qed

lemma evolving_record:
  "evolving P R (read_record (services_with listing T R' P') i) (\<lambda>w. lw_id w = i \<and> lifecycle P R w)"
  by (auto simp: evolving_def read_record_def on_store_def sound_def get_id intro: evolves_refl split: prod.splits)

lemma steady_alone: "steady P R (\<lambda>_. id)"
  by (simp add: steady_def evolves_refl)

lemma evolving_commit:
  assumes others: "steady P R others"
    and f: "\<And>w w'. \<lbrakk>lw_id w = i; lifecycle P R w; f w = Inr w'\<rbrakk> \<Longrightarrow> (w' = w \<or> lifecycle_step P R w w') \<and> Q w'"
  shows "evolving P R (commit (services_with listing T R' P') others k i f) Q"
  unfolding evolving_def
proof (intro allI impI)
  fix x r y
  assume x: "sound P R (fst x)" and run: "commit (services_with listing T R' P') others k i f x = (r, y)"
  let ?s = "fst (others k x)"
  have ev: "evolves P R (fst x) ?s" using others x unfolding steady_def by blast
  have ok: "sound P R ?s" using evolves_sound [OF ev] .
  obtain t where t: "mutate i f ?s = (r, t)" "fst y = t"
    using run by (auto simp: commit_def on_store_def split: prod.splits)
  have "evolves P R ?s t \<and> (\<forall>v. r = Inr v \<longrightarrow> Q v)"
  proof (cases r)
    case (Inl e)
    then have "t = ?s" using mutate_outcome [OF _ t(1)] ok by (simp add: sound_def)
    then show ?thesis using evolves_refl [OF ok] Inl by simp
  next
    case (Inr w')
    then obtain w where w: "get ?s i = Inr w" "f w = Inr w'" "ok t" "keeps_others get ?s i w' t"
      using mutate_outcome [OF _ t(1)] ok by (auto simp: sound_def)
    have "lw_id w = i" "lifecycle P R w" using ok w(1) get_id by (auto simp: sound_def)
    then show ?thesis using f [OF _ _ w(2)] put_evolves [OF ok w(3,4,1)] Inr by blast
  qed
  then show "evolves P R (fst x) (fst y) \<and> (\<forall>v. r = Inr v \<longrightarrow> Q v)"
    using evolves_trans [OF ev] t(2) by blast
qed

lemma evolving_write:
  assumes others: "steady P R others"
    and f: "\<And>w w'. \<lbrakk>lw_id w = i; f w = Inr w'\<rbrakk> \<Longrightarrow> lifecycle_step P R w w'"
  shows "evolving P R (write_view (services_with listing T R' P') others k i f) (\<lambda>_. True)"
  unfolding write_view_def
  by (rule evolving_bind [OF evolving_commit [OF others, where Q = "\<lambda>_. True"]]) (use f in auto)

lemma evolving_clearing:
  assumes body: "evolving P R m Q" and cleanup: "evolving P R c S"
  shows "evolving P R (clearing m c) Q"
  unfolding evolving_def
proof (intro allI impI)
  fix x r y
  assume x: "sound P R (fst x)" and run: "clearing m c x = (r, y)"
  obtain r' x' where m: "m x = (r', x')" by (rule prod.exhaust)
  then have ev: "evolves P R (fst x) (fst x')" and q: "\<And>v. r' = Inr v \<Longrightarrow> Q v"
    using body x unfolding evolving_def by blast+
  show "evolves P R (fst x) (fst y) \<and> (\<forall>v. r = Inr v \<longrightarrow> Q v)"
  proof (cases r')
    case (Inr v)
    then show ?thesis using run m ev q by (simp add: clearing_def)
  next
    case (Inl e)
    show ?thesis
    proof (cases "rejects e")
      case False
      then show ?thesis using run m ev Inl by (auto simp: clearing_def)
    next
      case True
      then have b: "bind_op c (\<lambda>_. raise_op e) x' = (r, y)" using run m Inl by (simp add: clearing_def)
      have "evolving P R (bind_op c (\<lambda>_. raise_op e)) (\<lambda>v. False)"
        by (rule evolving_bind [OF cleanup]) (rule evolving_raise)
      then show ?thesis using b evolves_sound [OF ev] evolves_trans [OF ev] unfolding evolving_def by blast
    qed
  qed
qed

subsection \<open>Every method\<close>

lemma import_evolves:
  assumes r: "validate_import P r = Inr ()"
  shows "evolving P R (import_workspace (services_with listing T R P) now uid r) (\<lambda>_. True)"
  unfolding import_workspace_def Let_def services.simps
proof (rule evolving_bind [OF evolving_read [where Q = "\<lambda>su. rt_create R (ir_id r) (''LIVE-'' @ upper (ir_id r) @ ''-RUN'')
         (ir_tasks r) (ir_plan r) (''graph-v'' @ show_int (ir_version r)) = Inr su"]])
  fix su
  assume su: "rt_create R (ir_id r) (''LIVE-'' @ upper (ir_id r) @ ''-RUN'') (ir_tasks r) (ir_plan r)
    (''graph-v'' @ show_int (ir_version r)) = Inr su"
  let ?w = "imported_record now uid r su"
  have life: "lifecycle P R ?w" by (rule lifecycle.imported [OF r su])
  have id: "lw_id ?w = ir_id r" by (simp add: imported_record_def)
  have "evolving P R (on_store (create ?w)) (\<lambda>_. True)"
    unfolding evolving_def
  proof (intro allI impI conjI TrueI)
    fix x r' y
    assume x: "sound P R (fst x)" and run: "on_store (create ?w) x = (r', y)"
    then have c: "create ?w (fst x) = (r', fst y)" by (auto simp: on_store_def split: prod.splits)
    have ok: "ok (fst x)" using x by (simp add: sound_def)
    show "evolves P R (fst x) (fst y)"
    proof (cases "get (fst x) (lw_id ?w)")
      case (Inl e)
      obtain t where t: "create ?w (fst x) = (Inr (), t)" "ok t" "keeps_others get (fst x) (lw_id ?w) ?w t"
        using create_new [OF ok Inl] by blast
      then have "fst y = t" using c by simp
      then show ?thesis using t x life Inl by (auto simp: evolves_def sound_def keeps_others_def split: if_splits)
    next
      case (Inr v)
      then have "fst y = fst x" using create_again [OF ok Inr] c by simp
      then show ?thesis using evolves_refl [OF x] by simp
    qed
  qed
  then show "evolving P R (bind_op (on_store (create ?w)) (\<lambda>_. ret_op (from_record P ?w))) (\<lambda>_. True)"
    by (rule evolving_bind) (rule evolving_ret, rule TrueI)
qed

lemmas method_rules = evolving_bind evolving_record evolving_read evolving_remote evolving_write

lemma baseline_evolves:
  assumes "steady P R others"
  shows "evolving P R (approve_workspace_baseline (services_with listing T R P) others now i q) (\<lambda>_. True)"
  unfolding approve_workspace_baseline_def Let_def services.simps
  by (rule evolving_bind [OF evolving_record] evolving_bind [OF evolving_remote]
      evolving_bind [OF evolving_read [where Q = "\<lambda>_. True"]] TrueI evolving_write [OF assms])+
    (auto intro: lifecycle_step.baseline)

lemma authorize_evolves:
  assumes "steady P R others"
  shows "evolving P R (authorize_workspace (services_with listing T R P) others now i) (\<lambda>_. True)"
  unfolding authorize_workspace_def authorize_plan_def Let_def services.simps
  by (rule evolving_bind [OF evolving_record] evolving_bind [OF evolving_remote]
      evolving_bind [OF evolving_read [where Q = "\<lambda>_. True"]] TrueI evolving_write [OF assms])+
    (rule lifecycle_step.authorization [OF refl])

lemma propose_evolves:
  assumes "steady P R others"
  shows "evolving P R (propose_decision (services_with listing T R P) others now i p) (\<lambda>_. True)"
  unfolding propose_decision_def services.simps
  by (rule evolving_write [OF assms]) (auto intro: lifecycle_step.proposal)

lemma cancel_evolves:
  assumes "steady P R others"
  shows "evolving P R (cancel_pending_decision (services_with listing T R P) others now i) (\<lambda>_. True)"
  unfolding cancel_pending_decision_def by (rule evolving_write [OF assms]) (rule lifecycle_step.cancel)

lemma rejection_evolves:
  assumes "steady P R others"
  shows "evolving P R (record_approval_rejection (services_with listing T R P) others now i r) (\<lambda>_. True)"
  unfolding record_approval_rejection_def services.simps
  by (rule evolving_write [OF assms]) (rule lifecycle_step.rejection)

lemma verify_initial_evolves:
  assumes "steady P R others"
  shows "evolving P R (verify_initial_grant (services_with listing T R P) others now i) (\<lambda>_. True)"
proof -
  have ex: "lifecycle_step P R v v'" if "write_initial_check now w x (if stale_execution x
      then enforce_supervisor_interrupts R w else None) v = Inr v'" for w x v v'
    by (rule lifecycle_step.initial_check [OF refl that])
  show ?thesis
    unfolding verify_initial_grant_def Let_def services.simps
    by (rule evolving_bind [OF evolving_record] evolving_bind [OF evolving_remote]
        evolving_bind [OF evolving_read [where Q = "\<lambda>_. True"]] TrueI evolving_ret evolving_raise evolving_write [OF assms] ex
      | assumption | simp only: split: if_split option.split | intro conjI impI allI)+
qed

lemma update_plan_evolves:
  assumes "steady P R others"
  shows "evolving P R (update_plan (services_with listing T R P) others now i p) (\<lambda>_. True)"
  unfolding update_plan_def Let_def services.simps
proof (rule evolving_bind [OF evolving_record])
  fix w :: live_record
  show "evolving P R (bind_op (read_op (\<lambda>_. require_updatable p w)) (\<lambda>_.
      bind_op (read_op (\<lambda>_. redirect_supervisor R (w\<lparr>lw_plan := p\<rparr>))) (\<lambda>su.
      write_view (services_with listing T R P) others 0 i (write_plan now w p su)))) (\<lambda>_. True)"
    by (rule evolving_bind [OF evolving_read [where Q = "\<lambda>_. True"]] TrueI
        evolving_bind [OF evolving_read [where Q = "\<lambda>su. redirect_supervisor R (w\<lparr>lw_plan := p\<rparr>) = Inr su"]])+
      (auto intro: evolving_write [OF assms] lifecycle_step.plan)
qed

lemma reauthorize_evolves:
  assumes "steady P R others"
  shows "evolving P R (reauthorize (services_with listing T R P) others now i) (\<lambda>_. True)"
proof -
  have ex: "lifecycle_step P R v v'" if "write_reauthorization now w res (case granted res of None \<Rightarrow> None
      | Some g \<Rightarrow> resume_supervisor R (gp_snapshot (sg_payload g)) w) v = Inr v'" for w res v v'
    by (rule lifecycle_step.reauthorization [OF refl that])
  show ?thesis
    unfolding reauthorize_def authorize_plan_def Let_def services.simps
    by (rule evolving_bind [OF evolving_record] evolving_bind [OF evolving_remote]
        evolving_bind [OF evolving_read [where Q = "\<lambda>_. True"]] TrueI evolving_ret evolving_write [OF assms] ex
      | assumption | simp only: split: if_split | intro conjI impI)+
qed

lemma verify_replacement_evolves:
  assumes "steady P R others"
  shows "evolving P R (verify_replacement_grant (services_with listing T R P) others now i) (\<lambda>_. True)"
proof -
  have ex: "lifecycle_step P R v v'" if "write_replacement_check now w x (if valid_execution x
      then complete_supervisor R w else None) v = Inr v'" for w x v v'
    by (rule lifecycle_step.replacement_check [OF refl that])
  show ?thesis
    unfolding verify_replacement_grant_def Let_def services.simps
    by (rule evolving_bind [OF evolving_record] evolving_bind [OF evolving_remote]
        evolving_bind [OF evolving_read [where Q = "\<lambda>_. True"]] TrueI evolving_raise evolving_write [OF assms] ex
      | assumption | simp only: split: option.split | intro conjI impI allI)+
qed

text \<open>What the record holds after its intent was written.\<close>

lemma write_intent_holds:
  assumes "write_intent P now i d q rehydrated w = Inr w'" and "lw_id w = i" and "lifecycle P R w"
  shows "lw_id w' = i \<and> (\<exists>it. lw_intent w' = Some it \<and> intent_for P i d it)"
  using assms(1)
proof (cases rule: write_intent_cases)
  case (first m inst e r it)
  then show ?thesis using assms(2) by (simp add: intent_for_def evidence_for_def pending_mutation_iff)
next
  case (again m it)
  then have "intent_for P i (art_id (mut_decision (in_mutation it))) it"
    using record_okD(3) [OF lifecycle_ok [OF assms(3)]] assms(2) by (simp add: intents_ok_def)
  moreover have "art_id (mut_decision (in_mutation it)) = d"
    using again(2,3) by (simp add: mutation_eq_def artifact_eq_def pending_mutation_iff) (metis artifact.ext_inject artifact.surjective artifact.update_convs(13))
  ultimately show ?thesis using again assms(2) by auto
qed

lemma update_intent_for:
  assumes "update_intent P it' = Inr it2" and "intent_for P i d it" and "in_mutation it' = in_mutation it" "in_evidence it' = in_evidence it"
  shows "it2 = it' \<and> intent_for P i d it2"
  using assms by (auto simp: update_intent_def intent_for_def)

lemma evaluate_evolves:
  assumes "steady P R others" and it: "intent_for P i d it" "in_result it = Some res"
  shows "evolving P R (evaluate_change (services_with listing T R P) others i it res w)
    (\<lambda>(it', v). intent_for P i d it' \<and> in_result it' = Some res)"
proof (cases "in_authorization it")
  case (Some v)
  then show ?thesis using it unfolding evaluate_change_def by (auto intro: evolving_ret)
next
  case None
  show ?thesis
    unfolding evaluate_change_def None option.case authorize_plan_def services.simps
  proof (rule evolving_bind [OF evolving_remote])
    fix verdict :: authorization_result
    let ?it = "it\<lparr>in_authorization := Some verdict\<rparr>"
    show "evolving P R (if ar_version verdict \<noteq> mres_version res \<or> ar_task verdict \<noteq> art_id (ir_ticket (lw_definition w)) then
         raise_op (RuntimeError ''Authority evaluated a different approval snapshot.'')
       else bind_op (read_op (\<lambda>_. update_intent P ?it)) (\<lambda>it.
         bind_op (commit (services_with listing T R P) others 3 i (write_intent_authorization it)) (\<lambda>_. ret_op (it, verdict))))
       (\<lambda>(it', v). intent_for P i d it' \<and> in_result it' = Some res)"
    proof (split if_split, rule conjI; rule impI)
      show "evolving P R (bind_op (read_op (\<lambda>_. update_intent P ?it)) (\<lambda>it.
         bind_op (commit (services_with listing T R P) others 3 i (write_intent_authorization it)) (\<lambda>_. ret_op (it, verdict))))
       (\<lambda>(it', v). intent_for P i d it' \<and> in_result it' = Some res)"
      proof (rule evolving_bind [OF evolving_read [where Q = "\<lambda>it2. intent_for P i d it2 \<and> in_result it2 = Some res"]])
        fix it2
        assume "update_intent P ?it = Inr it2"
        then show "intent_for P i d it2 \<and> in_result it2 = Some res"
          using update_intent_for [OF _ it(1), of ?it it2] it(2) by auto
      next
        fix it2
        assume it2: "intent_for P i d it2 \<and> in_result it2 = Some res"
        show "evolving P R (bind_op (commit (services_with listing T R P) others 3 i (write_intent_authorization it2))
          (\<lambda>_. ret_op (it2, verdict))) (\<lambda>(it', v). intent_for P i d it' \<and> in_result it' = Some res)"
        proof (rule evolving_bind [OF evolving_commit [OF assms(1), where Q = "\<lambda>_. True"]])
          fix w w'
          assume "lw_id w = i" "write_intent_authorization it2 w = Inr w'"
          then show "(w' = w \<or> lifecycle_step P R w w') \<and> True"
            using it2 by (auto intro: lifecycle_step.evaluation)
        qed (use it2 in \<open>auto intro: evolving_ret\<close>)
      qed
    qed (rule evolving_raise)
  qed
qed

lemma apply_change_evolves:
  assumes "steady P R others" and it: "intent_for P i d it"
  shows "evolving P R (apply_change_of (services_with listing T R P) others now i d it w res) (\<lambda>_. True)"
proof (cases "mres_report res")
  case None
  then show ?thesis unfolding apply_change_of_def by (auto intro: evolving_raise)
next
  case (Some rep)
  let ?it = "it\<lparr>in_result := Some res\<rparr>"
  let ?su = "apply_supervisor_invalidation R (w\<lparr>lw_report := Some rep\<rparr>)"
  have upd: "evolving P R (read_op (\<lambda>_. update_intent P ?it)) (\<lambda>it2. intent_for P i d it2 \<and> in_result it2 = Some res)"
    by (rule evolving_read) (use update_intent_for [OF _ it, of ?it] in auto)
  have change: "evolving P R (commit (services_with listing T R P) others 2 i (write_mutation w it2 res rep ?su)) (\<lambda>_. True)"
    if "intent_for P i d it2 \<and> in_result it2 = Some res" for it2
    by (rule evolving_commit [OF assms(1)]) (use lifecycle_step.change [OF _ _ Some refl] that in blast)
  have complete: "evolving P R (write_view (services_with listing T R P) others 4 i (write_completion P now d it2 res rep verdict)) (\<lambda>_. True)"
    if "intent_for P i d it2 \<and> in_result it2 = Some res" for it2 verdict
    by (rule evolving_write [OF assms(1)]) (use lifecycle_step.completion [OF _ _ Some] that in blast)
  show ?thesis
    unfolding apply_change_of_def Some option.case services.simps
  proof (rule evolving_bind [OF upd], rule evolving_bind [OF change])
    fix it2 w'
    assume it2: "intent_for P i d it2 \<and> in_result it2 = Some res"
    show "evolving P R (bind_op (evaluate_change (services_with listing T R P) others i it2 res w')
        (\<lambda>(it, verdict). write_view (services_with listing T R P) others 4 i (write_completion P now d it res rep verdict)))
        (\<lambda>_. True)"
      by (rule evolving_bind [OF evaluate_evolves [OF assms(1)]]) (use it2 complete in auto)
  qed
qed

lemma approve_decision_evolves:
  assumes "steady P R others"
  shows "evolving P R (approve_decision (services_with listing T R P) others now i d q) (\<lambda>_. True)"
proof -
  have started: "evolving P R (bind_op (clearing (on_remote (recover_intent_mutation T P w it))
        (commit (services_with listing T R P) others 1 i (clear_intent it)))
        (apply_change_of (services_with listing T R P) others now i d it w)) (\<lambda>_. True)"
    if it: "intent_for P i d it" for w it
  proof (rule evolving_bind [OF evolving_clearing [OF evolving_remote]])
    show "evolving P R (commit (services_with listing T R P) others 1 i (clear_intent it)) (\<lambda>_. True)"
      by (rule evolving_commit [OF assms]) (auto intro: lifecycle_step.clear)
  qed (rule apply_change_evolves [OF assms it])
  have begun: "evolving P R (bind_op (commit (services_with listing T R P) others 0 i (write_intent P now i d q rehydrated)) (\<lambda>w.
       case lw_intent w of
         None \<Rightarrow> raise_op (RuntimeError ''The durable approval intent was not recorded.'')
       | Some it \<Rightarrow>
           bind_op (clearing (on_remote (recover_intent_mutation T P w it))
             (commit (services_with listing T R P) others 1 i (clear_intent it)))
           (apply_change_of (services_with listing T R P) others now i d it w))) (\<lambda>_. True)" for rehydrated
  proof (rule evolving_bind [OF evolving_commit [OF assms, where Q = "\<lambda>w. lw_id w = i \<and> (\<exists>it. lw_intent w = Some it \<and> intent_for P i d it)"]])
    fix w w'
    assume "lw_id w = i" "lifecycle P R w" "write_intent P now i d q rehydrated w = Inr w'"
    then show "(w' = w \<or> lifecycle_step P R w w') \<and> lw_id w' = i \<and> (\<exists>it. lw_intent w' = Some it \<and> intent_for P i d it)"
      using write_intent_holds lifecycle_step.intent by blast
  next
    fix w
    assume "lw_id w = i \<and> (\<exists>it. lw_intent w = Some it \<and> intent_for P i d it)"
    then show "evolving P R (case lw_intent w of
         None \<Rightarrow> raise_op (RuntimeError ''The durable approval intent was not recorded.'')
       | Some it \<Rightarrow>
           bind_op (clearing (on_remote (recover_intent_mutation T P w it))
             (commit (services_with listing T R P) others 1 i (clear_intent it)))
           (apply_change_of (services_with listing T R P) others now i d it w)) (\<lambda>_. True)"
      using started by auto
  qed
  show ?thesis
    unfolding approve_decision_def Let_def services.simps
  proof (rule evolving_bind [OF evolving_record], split option.split, intro conjI impI allI)
    fix w :: live_record
    show "evolving P R (if completed_approval_matches P w d q then ret_op (from_record P w)
         else raise_op (StateConflict ''The requested Decision is not awaiting approval.'')) (\<lambda>_. True)"
      by (auto intro: evolving_ret evolving_raise)
  next
    fix w :: live_record
    have start: "evolving P R (case lw_intent w of
           None \<Rightarrow> bind_op (on_remote (ensure_context T P w)) (\<lambda>_. ret_op (Some w))
         | Some x \<Rightarrow> ret_op None) (\<lambda>_. True)"
      by (cases "lw_intent w") (auto intro!: evolving_ret evolving_bind [OF evolving_remote])
    have bound: "evolving P R (read_op (\<lambda>_. require_bound_proposal P i d q w)) (\<lambda>_. True)"
      by (rule evolving_read) simp
    show "evolving P R (bind_op (read_op (\<lambda>_. require_bound_proposal P i d q w)) (\<lambda>_.
       bind_op (case lw_intent w of
           None \<Rightarrow> bind_op (on_remote (ensure_context T P w)) (\<lambda>_. ret_op (Some w))
         | Some _ \<Rightarrow> ret_op None) (\<lambda>rehydrated.
       bind_op (commit (services_with listing T R P) others 0 i (write_intent P now i d q rehydrated)) (\<lambda>w.
       case lw_intent w of
         None \<Rightarrow> raise_op (RuntimeError ''The durable approval intent was not recorded.'')
       | Some it \<Rightarrow>
           bind_op (clearing (on_remote (recover_intent_mutation T P w it))
             (commit (services_with listing T R P) others 1 i (clear_intent it)))
           (apply_change_of (services_with listing T R P) others now i d it w))))) (\<lambda>_. True)"
      by (rule evolving_bind [OF bound evolving_bind [OF start begun]])
  qed
qed

subsection \<open>Any call, in any company\<close>

theorem call_evolves:
  assumes "steady P R others" and "parsed_call P call"
  shows "evolving P R (run_orchestrator (services_with listing T R P) others now call) (\<lambda>_. True)"
  using assms
  by (cases call) (auto simp: parsed_call_def intro: import_evolves baseline_evolves authorize_evolves propose_evolves
      cancel_evolves rejection_evolves approve_decision_evolves verify_initial_evolves update_plan_evolves
      reauthorize_evolves verify_replacement_evolves)

theorem stored_records_ok:
  assumes "sound P R (fst x)" and "steady P R others" and "parsed_call P call"
    and "run_orchestrator (services_with listing T R P) others now call x = (r, y)"
  shows "sound P R (fst y) \<and> (\<forall>j w. get (fst y) j = Inr w \<longrightarrow> record_ok P w)"
  using evolves_sound [OF evolvingD [OF call_evolves [OF assms(2,3)] assms(1,4)]] lifecycle_ok
  unfolding sound_def by blast

end

end
