(* ===== verification/Approvals.thy ===== *)
theory Approvals
  imports Intake Orchestrator_Runs
begin

text \<open>
  The path from a human confirmation to an approved change: the coordinator that every channel goes
  through and the registry of channel credentials (\<^verbatim>\<open>intake/approval.py\<close>), and the routes of
  \<^verbatim>\<open>services/agent_api.py\<close> that check a confirmation against the workspace as it is, ask for the permission,
  approve, and put every refusal on record.
\<close>

subsection \<open>Credentials\<close>

text \<open>The identities by the hash of their token.\<close>

type_synonym identity_registry = "string dict"

definition identity_error :: "string \<Rightarrow> py_error" where
  "identity_error m = Raised ''ApprovalIdentityError'' m"

definition register_identity :: "platform \<Rightarrow> string \<Rightarrow> string \<Rightarrow> (identity_registry, unit) op" where
  "register_identity P token user_id reg = (let t = strip token; u = strip user_id; k = sha256_hex P t in
     if t = [] \<or> u = [] then (Inl (identity_error ''Approval token and Hexclave user ID are required.''), reg)
     else (case dict_get reg k of
         Some previous \<Rightarrow> if previous \<noteq> u then
             (Inl (identity_error ''The approval token is already bound to another identity.''), reg)
           else (Inr (), dict_set k u reg)
       | None \<Rightarrow> (Inr (), dict_set k u reg)))"

definition resolve_user_id :: "platform \<Rightarrow> identity_registry \<Rightarrow> string \<Rightarrow> string result" where
  "resolve_user_id P reg token = (let t = strip token in
     if t = [] then Inl (identity_error ''Approval authentication is required.'')
     else (case dict_get reg (sha256_hex P t) of
       None \<Rightarrow> Inl (identity_error ''Approval authentication failed.'') | Some u \<Rightarrow> Inr u))"

text \<open>A token, once it resolves, resolves to the same user whatever is registered after.\<close>

lemma resolve_stays:
  assumes "resolve_user_id P reg token = Inr u"
  shows "resolve_user_id P (snd (register_identity P token' user reg)) token = Inr u"
proof -
  have get: "dict_get reg (sha256_hex P (strip token)) = Some u" and ne: "strip token \<noteq> []"
    using assms by (auto simp: resolve_user_id_def Let_def split: if_splits option.splits)
  show ?thesis
  proof (cases "sha256_hex P (strip token') = sha256_hex P (strip token)")
    case True
    then show ?thesis using get ne
      by (auto simp: register_identity_def resolve_user_id_def Let_def dict_get_set)
  next
    case False
    then show ?thesis using get ne
      by (auto simp: register_identity_def resolve_user_id_def Let_def dict_get_set split: option.split)
  qed
qed

lemma registered_resolves:
  assumes "register_identity P token user reg = (Inr (), reg')"
  shows "resolve_user_id P reg' token = Inr (strip user)"
  using assms by (auto simp: register_identity_def resolve_user_id_def Let_def dict_get_set split: if_splits option.splits)

subsection \<open>The coordinator\<close>

datatype approval_disposition =
    Approval_Approved
  | Approval_Already
  | Approval_Not_Authorized
  | Approval_Check_Unavailable
  | Approval_Stale
  | Approval_Missing

fun disposition_value :: "approval_disposition \<Rightarrow> string" where
  "disposition_value Approval_Approved = ''APPROVED''"
| "disposition_value Approval_Already = ''ALREADY_APPROVED''"
| "disposition_value Approval_Not_Authorized = ''IGNORED_NOT_AUTHORIZED''"
| "disposition_value Approval_Check_Unavailable = ''PERMISSION_CHECK_UNAVAILABLE''"
| "disposition_value Approval_Stale = ''STALE_CONFIRMATION''"
| "disposition_value Approval_Missing = ''MISSING_CONFIRMATION''"

record approval_outcome =
  av_disposition :: approval_disposition
  av_evidence :: "approval_evidence option"
  av_partition :: "string list \<times> string list"
  av_workspace :: "workspace_view option"

definition no_approval :: "approval_disposition \<Rightarrow> approval_outcome" where
  "no_approval d = \<lparr>av_disposition = d, av_evidence = None, av_partition = ([], []), av_workspace = None\<rparr>"

definition confirmation_evidence ::
  "pending_approval \<Rightarrow> string \<Rightarrow> approval_channel \<Rightarrow> string \<Rightarrow> datetime \<Rightarrow> approval_evidence"
where
  "confirmation_evidence p user channel ref now =
     \<lparr>ae_workspace = pa_workspace p, ae_decision = pa_decision p, ae_approver = user, ae_permission = pa_permission p,
      ae_channel = channel, ae_ref = strip ref, ae_at = now, ae_fingerprint = pa_fingerprint p, ae_instance = pa_instance p\<rparr>"

definition coordinate ::
  "'x checker \<Rightarrow> (pending_approval \<Rightarrow> approval_evidence \<Rightarrow> ('x, workspace_view) op) \<Rightarrow> ('x \<Rightarrow> datetime)
    \<Rightarrow> pending_approval \<Rightarrow> string \<Rightarrow> approval_channel \<Rightarrow> string \<Rightarrow> ('x, approval_outcome) op"
where
  "coordinate chk port clock p approver channel ref x = (let user = strip approver in
     if user = [] then (Inl (Raised ''ApprovalError'' ''An approver user ID is required.''), x)
     else if strip ref = [] then (Inl (Raised ''ApprovalError'' ''An approval evidence reference is required.''), x)
     else (case chk user (pa_permission p) x of
       (None, y) \<Rightarrow> (Inr (no_approval Approval_Check_Unavailable), y)
     | (Some False, y) \<Rightarrow> (Inr (no_approval Approval_Not_Authorized), y)
     | (Some True, y) \<Rightarrow> bind_op (read_op (\<lambda>z. make_evidence (confirmation_evidence p user channel ref (clock z)))) (\<lambda>e.
         bind_op (port p e) (\<lambda>v.
         ret_op \<lparr>av_disposition = Approval_Approved, av_evidence = Some e, av_partition = actual_partition v,
           av_workspace = Some v\<rparr>)) y))"

subsection \<open>What the routes work with\<close>

text \<open>
  The ports of the agent service: the resolver of a credential, the orchestrator's methods, the permission checker of a team (whose
  configuration may be missing), the publication of a workspace to its subscribers, and the clock.
\<close>

datatype identity_failure = Identity_Not_Configured | Identity_Refused

record 'x approval_ports =
  ap_resolve :: "string \<Rightarrow> 'x \<Rightarrow> (identity_failure + string) \<times> 'x"
  ap_get :: "string \<Rightarrow> ('x, workspace_view) op"
  ap_record :: "string \<Rightarrow> rejection \<Rightarrow> ('x, workspace_view) op"
  ap_bound :: "string \<Rightarrow> string \<Rightarrow> ('x, bool) op"
  ap_decide :: "string \<Rightarrow> string \<Rightarrow> approval_request \<Rightarrow> ('x, workspace_view) op"
  ap_baseline :: "string \<Rightarrow> approval_request \<Rightarrow> ('x, workspace_view) op"
  ap_checker :: "string \<Rightarrow> string + 'x checker"
  ap_team :: string
  ap_publish :: "string \<Rightarrow> workspace_view \<Rightarrow> 'x \<Rightarrow> 'x"
  ap_now :: "'x \<Rightarrow> datetime"

record approval_attempt =
  at_channel :: approval_channel
  at_ref :: string
  at_fingerprint :: "string option"
  at_instance :: "string option"

definition workspace_api_error :: "py_error \<Rightarrow> py_error" where
  "workspace_api_error e = (case e of
     NotFound m \<Rightarrow> ApiFailure 404 ''LIVE_WORKSPACE_NOT_FOUND'' False
   | StateConflict m \<Rightarrow> ApiFailure 409 ''LIVE_WORKSPACE_CONFLICT'' False
   | _ \<Rightarrow> ApiFailure 500 ''LIVE_WORKSPACE_FAILED'' False)"

text \<open>\<open>except LiveWorkspaceNotFound\<close>\<close>

definition unless_missing :: "('x, 'a) op \<Rightarrow> ('x, 'a) op" where
  "unless_missing m x = (case m x of (Inl (NotFound e), y) \<Rightarrow> (Inl (workspace_api_error (NotFound e)), y) | r \<Rightarrow> r)"

definition approved_attempt_matches :: "workspace_view \<Rightarrow> string \<Rightarrow> approval_attempt \<Rightarrow> bool" where
  "approved_attempt_matches v d a = (case List.find (\<lambda>c. am_evidence c \<noteq> None \<and> art_id (mut_decision (am_mutation c)) = d) (vw_approved v) of
     None \<Rightarrow> False
   | Some c \<Rightarrow> (case am_evidence c of None \<Rightarrow> False
     | Some e \<Rightarrow> Some (ae_fingerprint e) = at_fingerprint a \<and> Some (ae_instance e) = at_instance a))"

definition approved_baseline_attempt_matches :: "workspace_view \<Rightarrow> approval_attempt \<Rightarrow> bool" where
  "approved_baseline_attempt_matches v a = (case vw_baseline_evidence v of None \<Rightarrow> False
   | Some e \<Rightarrow> Some (ae_fingerprint e) = at_fingerprint a \<and> Some (ae_instance e) = at_instance a)"

definition baseline_required_permission :: "workspace_view \<Rightarrow> (string \<times> string) result" where
  "baseline_required_permission v = (let b = vw_baseline v; bad = ApiFailure 409 ''BASELINE_APPROVAL_METADATA_INVALID'' False in
     if strip (art_id b) = [] \<or> \<not> present (art_role b) \<or> art_scopes b = {} then Inl bad
     else (let S = {s \<in> strip ` art_scopes b. s \<noteq> []}; permission = the (art_role b) in
       if card S \<noteq> card (art_scopes b)
          \<or> (\<exists>s\<in>S. permission \<notin> (case dict_get (vw_policy v) s of None \<Rightarrow> {} | Some ps \<Rightarrow> ps)) then Inl bad
       else Inr (strip (art_id b), strip permission)))"

text \<open>The permission under which a proposal was put forward: of its event, or of where it is now.\<close>

definition proposal_event :: "string \<Rightarrow> string \<Rightarrow> string \<Rightarrow> workspace_event \<Rightarrow> string option" where
  "proposal_event d fp inst e =
     (if we_type e = ''decision.proposed'' \<and> string_at (we_data e) ''decision_id'' = Some d
         \<and> string_at (we_data e) ''proposal_fingerprint'' = Some fp
         \<and> string_at (we_data e) ''proposal_instance_id'' = Some inst
      then (case string_at (we_data e) ''permission_id'' of
        None \<Rightarrow> None | Some p \<Rightarrow> if strip p = [] then None else Some (strip p))
      else None)"

definition role_of :: "string \<Rightarrow> artifact \<Rightarrow> string option" where
  "role_of d b = (if art_id b = d \<and> present (art_role b) then Some (strip (the (art_role b))) else None)"

definition pending_role :: "workspace_view \<Rightarrow> string \<Rightarrow> approval_attempt \<Rightarrow> string option" where
  "pending_role v d a = (case vw_pending v of None \<Rightarrow> None
   | Some m \<Rightarrow> if at_fingerprint a = None \<or> at_instance a = None
         \<or> (vw_pending_fingerprint v = at_fingerprint a \<and> vw_pending_instance v = at_instance a)
       then role_of d (mut_decision m) else None)"

definition change_role :: "string \<Rightarrow> approval_attempt \<Rightarrow> approved_change \<Rightarrow> string option" where
  "change_role d a c = (case am_evidence c of
     Some e \<Rightarrow> if at_fingerprint a \<noteq> None \<and> at_instance a \<noteq> None
         \<and> (Some (ae_fingerprint e) \<noteq> at_fingerprint a \<or> Some (ae_instance e) \<noteq> at_instance a)
       then None else role_of d (mut_decision (am_mutation c))
   | None \<Rightarrow> role_of d (mut_decision (am_mutation c)))"

definition decision_permission_id :: "workspace_view \<Rightarrow> string \<Rightarrow> approval_attempt \<Rightarrow> string option" where
  "decision_permission_id v d a =
     first_some (\<lambda>role. role)
       ((case (at_fingerprint a, at_instance a) of
           (Some fp, Some inst) \<Rightarrow> map (proposal_event d fp inst) (rev (vw_history v)) | _ \<Rightarrow> [])
        @ [pending_role v d a, role_of d (vw_baseline v)] @ map (change_role d a) (vw_approved v))"

subsection \<open>Refusals on record\<close>

definition refusal ::
  "string \<Rightarrow> approval_disposition \<Rightarrow> string \<Rightarrow> string \<Rightarrow> approval_attempt \<Rightarrow> string \<Rightarrow> rejection"
where
  "refusal d disposition approver permission a detail =
     \<lparr>rj_decision = d, rj_disposition = disposition_value disposition, rj_approver = approver, rj_permission = permission,
      rj_channel = channel_value (at_channel a), rj_ref = at_ref a, rj_fingerprint = at_fingerprint a,
      rj_instance = at_instance a, rj_detail = detail\<rparr>"

definition publish :: "'x approval_ports \<Rightarrow> string \<Rightarrow> workspace_view \<Rightarrow> ('x, unit) op" where
  "publish A i v x = (Inr (), ap_publish A i v x)"

definition refuse :: "'x approval_ports \<Rightarrow> string \<Rightarrow> rejection \<Rightarrow> ('x, unit) op" where
  "refuse A i r = bind_op (ap_record A i r) (publish A i)"

definition refuse_known ::
  "'x approval_ports \<Rightarrow> workspace_view \<Rightarrow> string \<Rightarrow> string \<Rightarrow> string \<Rightarrow> approval_attempt \<Rightarrow> string \<Rightarrow> ('x, unit) op"
where
  "refuse_known A v i d approver a detail = (case decision_permission_id v d a of None \<Rightarrow> ret_op ()
   | Some permission \<Rightarrow> refuse A i (refusal d Approval_Stale approver permission a detail))"

definition permission_team :: "'x approval_ports \<Rightarrow> workspace_view \<Rightarrow> string" where
  "permission_team A v = (case vw_slack v of None \<Rightarrow> ap_team A | Some b \<Rightarrow> sb_hexclave_team b)"

definition require_workspace_slack_identity ::
  "'x approval_ports \<Rightarrow> workspace_view \<Rightarrow> string \<Rightarrow> string \<Rightarrow> ('x, unit) op"
where
  "require_workspace_slack_identity A v i approver = (case vw_slack v of
     None \<Rightarrow> raise_op (ApiFailure 409 ''SLACK_WORKSPACE_BINDING_MISSING'' False)
   | Some b \<Rightarrow> if sb_workspace b \<noteq> i \<or> strip (sb_hexclave_team b) = [] then
         raise_op (ApiFailure 409 ''SLACK_WORKSPACE_BINDING_MISSING'' False)
       else bind_op (ap_bound A i approver) (\<lambda>private.
         if (\<exists>x\<in>set (sb_identities b). si_hexclave x = approver) \<or> private then ret_op ()
         else raise_op (ApiFailure 403 ''SLACK_IDENTITY_BINDING_NOT_FOUND'' False)))"

definition decide_port :: "'x approval_ports \<Rightarrow> pending_approval \<Rightarrow> approval_evidence \<Rightarrow> ('x, workspace_view) op" where
  "decide_port A p e = ap_decide A (pa_workspace p) (pa_decision p)
     \<lparr>rq_role = pa_permission p, rq_fingerprint = Some (pa_fingerprint p), rq_evidence = Some e,
      rq_instance = Some (pa_instance p)\<rparr>"

definition pending_for :: "platform \<Rightarrow> workspace_view \<Rightarrow> string \<Rightarrow> pending_approval option result" where
  "pending_for P v d = bind_r (pending_from_workspace P v) (\<lambda>p.
     Inr (case p of None \<Rightarrow> None | Some q \<Rightarrow> if pa_decision q = d then Some q else None))"

definition confirms :: "approval_attempt \<Rightarrow> pending_approval \<Rightarrow> bool" where
  "confirms a p \<longleftrightarrow> at_fingerprint a = Some (pa_fingerprint p) \<and> at_instance a = Some (pa_instance p)"

subsection \<open>Approving from a trusted channel\<close>

text \<open>What the coordinator's outcome becomes when it refused.\<close>

definition coordinate_decision ::
  "'x approval_ports \<Rightarrow> 'x checker \<Rightarrow> pending_approval \<Rightarrow> string \<Rightarrow> approval_attempt \<Rightarrow> ('x, approval_outcome) op"
where
  "coordinate_decision A chk p approver a = coordinate chk (decide_port A) (ap_now A) p approver (at_channel a) (at_ref a)"

text \<open>A Slack approver must be bound to the workspace; False is a refusal on record.\<close>

definition check_identity ::
  "'x approval_ports \<Rightarrow> workspace_view \<Rightarrow> string \<Rightarrow> string \<Rightarrow> string \<Rightarrow> approval_attempt \<Rightarrow> pending_approval \<Rightarrow> ('x, bool) op"
where
  "check_identity A v i d approver a p x =
     (if at_channel a \<noteq> Slack_Reaction then (Inr True, x)
      else (case require_workspace_slack_identity A v i approver x of
        (Inl (ApiFailure s code retryable), y) \<Rightarrow>
          if s \<noteq> 403 then (Inl (ApiFailure s code retryable), y)
          else bind_op (refuse A i (refusal d Approval_Not_Authorized approver (pa_permission p) a
            ''The derived Slack approver is not bound to this Workspace.'')) (\<lambda>_. ret_op False) y
      | (Inl e, y) \<Rightarrow> (Inl e, y)
      | (Inr _, y) \<Rightarrow> (Inr True, y)))"

definition record_outcome ::
  "'x approval_ports \<Rightarrow> string \<Rightarrow> string \<Rightarrow> pending_approval \<Rightarrow> string \<Rightarrow> approval_attempt \<Rightarrow> approval_outcome
    \<Rightarrow> ('x, approval_disposition \<times> workspace_view option) op"
where
  "record_outcome A i d p approver a out =
     bind_op (if av_disposition out = Approval_Not_Authorized then
         refuse A i (refusal d Approval_Not_Authorized approver (pa_permission p) a
           ''The channel user is not authorized for this Decision.'')
       else if av_disposition out = Approval_Check_Unavailable then
         refuse A i (refusal d Approval_Check_Unavailable approver (pa_permission p) a
           ''Hexclave permission verification is unavailable.'')
       else ret_op ()) (\<lambda>_.
     bind_op (case av_workspace out of None \<Rightarrow> ret_op () | Some u \<Rightarrow> publish A i u) (\<lambda>_.
     ret_op (av_disposition out, av_workspace out)))"

definition conclude_channel ::
  "'x approval_ports \<Rightarrow> string \<Rightarrow> string \<Rightarrow> pending_approval \<Rightarrow> string \<Rightarrow> approval_attempt
    \<Rightarrow> approval_outcome result \<times> 'x \<Rightarrow> (approval_disposition \<times> workspace_view option) result \<times> 'x"
where
  "conclude_channel A i d p approver a z = (case z of
     (Inl (StateConflict m), y) \<Rightarrow>
       bind_op (refuse A i (refusal d Approval_Stale approver (pa_permission p) a m)) (\<lambda>_. ret_op (Approval_Stale, None)) y
   | (Inl e, y) \<Rightarrow> (Inl e, y)
   | (Inr out, y) \<Rightarrow> record_outcome A i d p approver a out y)"

definition approve_from_trusted_channel ::
  "platform \<Rightarrow> 'x approval_ports \<Rightarrow> string \<Rightarrow> string \<Rightarrow> string \<Rightarrow> approval_attempt
    \<Rightarrow> ('x, approval_disposition \<times> workspace_view option) op"
where
  "approve_from_trusted_channel P A i d approver a =
     bind_op (unless_missing (ap_get A i)) (\<lambda>v.
     if approved_attempt_matches v d a then ret_op (Approval_Already, Some v)
     else bind_op (read_op (\<lambda>_. pending_for P v d)) (\<lambda>pending. case pending of
       None \<Rightarrow> bind_op (refuse_known A v i d approver a ''The requested Decision is no longer awaiting approval.'')
           (\<lambda>_. ret_op (Approval_Stale, Some v))
     | Some p \<Rightarrow>
         if \<not> confirms a p then
           bind_op (refuse_known A v i d approver a
             ''The signed-channel confirmation no longer matches the pending Decision.'') (\<lambda>_. ret_op (Approval_Stale, Some v))
         else bind_op (check_identity A v i d approver a p) (\<lambda>bound.
           if \<not> bound then ret_op (Approval_Not_Authorized, None)
           else (case ap_checker A (permission_team A v) of
             Inl m \<Rightarrow> bind_op (refuse A i (refusal d Approval_Check_Unavailable approver (pa_permission p) a m))
               (\<lambda>_. ret_op (Approval_Check_Unavailable, None))
           | Inr chk \<Rightarrow> (\<lambda>x. conclude_channel A i d p approver a (coordinate_decision A chk p approver a x))))))"

subsection \<open>Approving with a credential\<close>

definition api_failure :: "nat \<Rightarrow> string \<Rightarrow> ('x, 'a) op" where
  "api_failure s code = raise_op (ApiFailure s code False)"

text \<open>The channels of these routes are the command line and the workspace page; the rest are signed.\<close>

definition with_credential ::
  "'x approval_ports \<Rightarrow> approval_attempt \<Rightarrow> string \<Rightarrow> (string \<Rightarrow> ('x, 'a) op) \<Rightarrow> ('x, 'a) op"
where
  "with_credential A a token body x =
     (if at_channel a \<notin> {Cli, Workspace_Ui} then api_failure 400 ''INVALID_APPROVAL_CHANNEL'' x
      else (case ap_resolve A token x of
        (Inl Identity_Not_Configured, y) \<Rightarrow> api_failure 503 ''HEXCLAVE_NOT_CONFIGURED'' y
      | (Inl Identity_Refused, y) \<Rightarrow> api_failure 401 ''APPROVAL_AUTHENTICATION_FAILED'' y
      | (Inr approver, y) \<Rightarrow> body approver y))"

text \<open>A refusal on record, then an error.\<close>

definition refuse_with ::
  "'x approval_ports \<Rightarrow> string \<Rightarrow> rejection \<Rightarrow> nat \<Rightarrow> string \<Rightarrow> bool \<Rightarrow> ('x, 'a) op"
where
  "refuse_with A i r s code retryable = bind_op (refuse A i r) (\<lambda>_. raise_op (ApiFailure s code retryable))"

definition workspace_response :: "'x approval_ports \<Rightarrow> string \<Rightarrow> workspace_view \<Rightarrow> ('x, workspace_view) op" where
  "workspace_response A i v = bind_op (publish A i v) (\<lambda>_. ret_op v)"

definition conclude_decision ::
  "'x approval_ports \<Rightarrow> string \<Rightarrow> string \<Rightarrow> pending_approval \<Rightarrow> string \<Rightarrow> approval_attempt
    \<Rightarrow> approval_outcome result \<times> 'x \<Rightarrow> workspace_view result \<times> 'x"
where
  "conclude_decision A i d p approver a z = (case z of
     (Inl (StateConflict m), y) \<Rightarrow>
       refuse_with A i (refusal d Approval_Stale approver (pa_permission p) a m) 409 ''LIVE_WORKSPACE_CONFLICT'' False y
   | (Inl (NotFound m), y) \<Rightarrow> (Inl (workspace_api_error (NotFound m)), y)
   | (Inl e, y) \<Rightarrow> (Inl e, y)
   | (Inr out, y) \<Rightarrow>
       if av_disposition out = Approval_Not_Authorized then
         refuse_with A i (refusal d Approval_Not_Authorized approver (pa_permission p) a
           ''The authenticated user cannot approve this Decision.'') 403 ''APPROVER_NOT_AUTHORIZED'' False y
       else if av_disposition out = Approval_Check_Unavailable then
         refuse_with A i (refusal d Approval_Check_Unavailable approver (pa_permission p) a
           ''Hexclave permission verification is unavailable.'') 503 ''PERMISSION_CHECK_UNAVAILABLE'' True y
       else (case av_workspace out of
         None \<Rightarrow> api_failure 500 ''APPROVAL_RESULT_INVALID'' y
       | Some v \<Rightarrow> workspace_response A i v y))"

definition approve_as ::
  "platform \<Rightarrow> 'x approval_ports \<Rightarrow> string \<Rightarrow> string \<Rightarrow> approval_attempt \<Rightarrow> string \<Rightarrow> ('x, workspace_view) op"
where
  "approve_as P A i d a approver =
     bind_op (unless_missing (ap_get A i)) (\<lambda>v.
     if approved_attempt_matches v d a then workspace_response A i v
     else bind_op (read_op (\<lambda>_. pending_for P v d)) (\<lambda>pending. case pending of
       None \<Rightarrow> bind_op (refuse_known A v i d approver a ''The requested Decision is no longer awaiting approval.'')
           (\<lambda>_. api_failure 409 ''PENDING_DECISION_NOT_FOUND'')
     | Some p \<Rightarrow>
         if at_fingerprint a = None \<or> at_instance a = None then
           refuse_with A i (refusal d Approval_Missing approver (pa_permission p) a
             ''Approval did not confirm the Decision fingerprint and proposal instance.'')
             409 ''MISSING_PROPOSAL_CONFIRMATION'' False
         else if \<not> confirms a p then
           bind_op (refuse_known A v i d approver a ''The confirmed proposal no longer matches the pending Decision.'')
             (\<lambda>_. api_failure 409 ''STALE_PROPOSAL_CONFIRMATION'')
         else (case ap_checker A (permission_team A v) of
           Inl m \<Rightarrow> refuse_with A i (refusal d Approval_Check_Unavailable approver (pa_permission p) a
             ''Hexclave permission verification is unavailable.'') 503 ''HEXCLAVE_NOT_CONFIGURED'' False
         | Inr chk \<Rightarrow> (\<lambda>x. conclude_decision A i d p approver a (coordinate_decision A chk p approver a x)))))"

definition approve_with_credential ::
  "platform \<Rightarrow> 'x approval_ports \<Rightarrow> string \<Rightarrow> string \<Rightarrow> approval_attempt \<Rightarrow> string \<Rightarrow> ('x, workspace_view) op"
where
  "approve_with_credential P A i d a token = with_credential A a token (approve_as P A i d a)"

subsection \<open>Approving the baseline\<close>

definition baseline_evidence ::
  "string \<Rightarrow> string \<Rightarrow> string \<Rightarrow> string \<Rightarrow> approval_attempt \<Rightarrow> datetime \<Rightarrow> string \<Rightarrow> string \<Rightarrow> approval_evidence"
where
  "baseline_evidence i d approver permission a now fp inst =
     \<lparr>ae_workspace = i, ae_decision = d, ae_approver = approver, ae_permission = permission, ae_channel = at_channel a,
      ae_ref = at_ref a, ae_at = now, ae_fingerprint = fp, ae_instance = inst\<rparr>"

definition approve_checked_baseline ::
  "'x approval_ports \<Rightarrow> string \<Rightarrow> string \<Rightarrow> string \<Rightarrow> approval_attempt \<Rightarrow> string \<Rightarrow> string \<Rightarrow> string \<Rightarrow> ('x, workspace_view) op"
where
  "approve_checked_baseline A i d permission a approver fp inst =
     bind_op (read_op (\<lambda>x. make_evidence (baseline_evidence i d approver permission a (ap_now A x) fp inst))) (\<lambda>e x.
     case ap_baseline A i \<lparr>rq_role = permission, rq_fingerprint = Some fp, rq_evidence = Some e, rq_instance = Some inst\<rparr> x of
       (Inl (StateConflict m), y) \<Rightarrow>
         refuse_with A i (refusal d Approval_Stale approver permission a m) 409 ''LIVE_WORKSPACE_CONFLICT'' False y
     | (Inl (NotFound m), y) \<Rightarrow> (Inl (workspace_api_error (NotFound m)), y)
     | (Inl e, y) \<Rightarrow> (Inl e, y)
     | (Inr v, y) \<Rightarrow> workspace_response A i v y)"

definition check_baseline ::
  "'x approval_ports \<Rightarrow> workspace_view \<Rightarrow> string \<Rightarrow> string \<Rightarrow> string \<Rightarrow> approval_attempt \<Rightarrow> string \<Rightarrow> string
    \<Rightarrow> ('x, workspace_view) op"
where
  "check_baseline A v i d permission a approver inst x = (case ap_checker A (permission_team A v) of
     Inl m \<Rightarrow> refuse_with A i (refusal d Approval_Check_Unavailable approver permission a
       ''Hexclave permission verification is unavailable.'') 503 ''HEXCLAVE_NOT_CONFIGURED'' False x
   | Inr chk \<Rightarrow> (case chk approver permission x of
       (None, y) \<Rightarrow> refuse_with A i (refusal d Approval_Check_Unavailable approver permission a
         ''Hexclave permission verification is unavailable.'') 503 ''PERMISSION_CHECK_UNAVAILABLE'' True y
     | (Some False, y) \<Rightarrow> refuse_with A i (refusal d Approval_Not_Authorized approver permission a
         ''The authenticated user cannot approve this baseline.'') 403 ''APPROVER_NOT_AUTHORIZED'' False y
     | (Some True, y) \<Rightarrow>
         approve_checked_baseline A i d permission a approver (vw_baseline_fingerprint v) inst y))"

definition approve_baseline_as ::
  "'x approval_ports \<Rightarrow> string \<Rightarrow> approval_attempt \<Rightarrow> string \<Rightarrow> ('x, workspace_view) op"
where
  "approve_baseline_as A i a approver =
     bind_op (unless_missing (ap_get A i)) (\<lambda>v.
     bind_op (read_op (\<lambda>_. baseline_required_permission v)) (\<lambda>(d, permission).
     if approved_baseline_attempt_matches v a then workspace_response A i v
     else if vw_baseline_approved v then
       refuse_with A i (refusal d Approval_Stale approver permission a
         ''The Workspace baseline is no longer awaiting approval.'') 409 ''BASELINE_NOT_AWAITING_APPROVAL'' False
     else if at_fingerprint a = None \<or> at_instance a = None then
       refuse_with A i (refusal d Approval_Missing approver permission a
         ''Approval did not confirm the baseline fingerprint and proposal instance.'')
         409 ''MISSING_BASELINE_CONFIRMATION'' False
     else (case vw_baseline_instance v of
       Some inst \<Rightarrow>
         if at_fingerprint a = Some (vw_baseline_fingerprint v) \<and> at_instance a = Some inst then
           check_baseline A v i d permission a approver inst
         else refuse_with A i (refusal d Approval_Stale approver permission a
           ''The confirmed baseline no longer matches the pending proposal.'') 409 ''STALE_BASELINE_CONFIRMATION'' False
     | None \<Rightarrow> refuse_with A i (refusal d Approval_Stale approver permission a
           ''The confirmed baseline no longer matches the pending proposal.'') 409 ''STALE_BASELINE_CONFIRMATION'' False)))"

definition approve_baseline_with_credential ::
  "'x approval_ports \<Rightarrow> string \<Rightarrow> approval_attempt \<Rightarrow> string \<Rightarrow> ('x, workspace_view) op"
where
  "approve_baseline_with_credential A i a token = with_credential A a token (approve_baseline_as A i a)"

subsection \<open>The agent service\<close>

text \<open>
  The ports as the service composes them, over its orchestrator and whatever else is outside. Another
  process may write between the reading of a workspace and the approval: \<open>meanwhile\<close>.
\<close>

definition agent_ports ::
  "('s, 'r) services \<Rightarrow> (nat \<Rightarrow> 's \<times> 'r \<Rightarrow> 's \<times> 'r) \<Rightarrow> ('s \<times> 'r \<Rightarrow> 's \<times> 'r) \<Rightarrow> datetime
    \<Rightarrow> (string \<Rightarrow> 'h \<Rightarrow> (identity_failure + string) \<times> 'h) \<Rightarrow> (string \<Rightarrow> string + 'h checker) \<Rightarrow> string
    \<Rightarrow> (string \<Rightarrow> workspace_view \<Rightarrow> 'h \<Rightarrow> 'h) \<Rightarrow> (('s \<times> 'r) \<times> 'h) approval_ports"
where
  "agent_ports E others meanwhile now resolve checker team notify =
     \<lparr>ap_resolve = (\<lambda>t x. case resolve t (snd x) of (r, h) \<Rightarrow> (r, (fst x, h))),
      ap_get = (\<lambda>i. on_store (get_workspace E i)),
      ap_record = (\<lambda>i r. on_store (record_approval_rejection E others now i r)),
      ap_bound = (\<lambda>i u. on_store (is_slack_authority_user_bound E i u)),
      ap_decide = (\<lambda>i d q x. on_store (approve_decision E others now i d q) (meanwhile (fst x), snd x)),
      ap_baseline = (\<lambda>i q x. on_store (approve_workspace_baseline E others now i q) (meanwhile (fst x), snd x)),
      ap_checker = (\<lambda>t. map_sum id (\<lambda>c u p x. case c u p (snd x) of (r, h) \<Rightarrow> (r, (fst x, h))) (checker t)),
      ap_team = team,
      ap_publish = (\<lambda>i v x. (fst x, notify i v (snd x))),
      ap_now = (\<lambda>_. now)\<rparr>"

subsection \<open>Nothing is approved that its human did not confirm\<close>

text \<open>
  That a port is not called shows in that it does not matter what it would do. The ports that a refusal
  uses are not those that approve.
\<close>

lemma other_ports:
  "ap_get (A\<lparr>ap_decide := g\<rparr>) = ap_get A" "ap_record (A\<lparr>ap_decide := g\<rparr>) = ap_record A"
  "ap_bound (A\<lparr>ap_decide := g\<rparr>) = ap_bound A" "ap_checker (A\<lparr>ap_decide := g\<rparr>) = ap_checker A"
  "ap_team (A\<lparr>ap_decide := g\<rparr>) = ap_team A" "ap_publish (A\<lparr>ap_decide := g\<rparr>) = ap_publish A"
  "ap_now (A\<lparr>ap_decide := g\<rparr>) = ap_now A"
  "ap_get (A\<lparr>ap_baseline := h\<rparr>) = ap_get A" "ap_record (A\<lparr>ap_baseline := h\<rparr>) = ap_record A"
  "ap_checker (A\<lparr>ap_baseline := h\<rparr>) = ap_checker A" "ap_team (A\<lparr>ap_baseline := h\<rparr>) = ap_team A"
  "ap_publish (A\<lparr>ap_baseline := h\<rparr>) = ap_publish A" "ap_now (A\<lparr>ap_baseline := h\<rparr>) = ap_now A"
  by simp_all

lemma approves_nothing:
  "publish (A\<lparr>ap_decide := g\<rparr>) = publish A" "refuse (A\<lparr>ap_decide := g\<rparr>) = refuse A"
  "refuse_known (A\<lparr>ap_decide := g\<rparr>) = refuse_known A" "permission_team (A\<lparr>ap_decide := g\<rparr>) = permission_team A"
  "refuse_with (A\<lparr>ap_decide := g\<rparr>) = refuse_with A" "workspace_response (A\<lparr>ap_decide := g\<rparr>) = workspace_response A"
  "require_workspace_slack_identity (A\<lparr>ap_decide := g\<rparr>) = require_workspace_slack_identity A"
  "check_identity (A\<lparr>ap_decide := g\<rparr>) = check_identity A"
  "conclude_decision (A\<lparr>ap_decide := g\<rparr>) = conclude_decision A" "conclude_channel (A\<lparr>ap_decide := g\<rparr>) = conclude_channel A"
  unfolding fun_eq_iff publish_def refuse_def refuse_known_def permission_team_def refuse_with_def workspace_response_def
    require_workspace_slack_identity_def check_identity_def conclude_decision_def conclude_channel_def record_outcome_def other_ports
  by simp_all

lemma approves_no_baseline:
  "publish (A\<lparr>ap_baseline := h\<rparr>) = publish A" "refuse (A\<lparr>ap_baseline := h\<rparr>) = refuse A"
  "permission_team (A\<lparr>ap_baseline := h\<rparr>) = permission_team A" "refuse_with (A\<lparr>ap_baseline := h\<rparr>) = refuse_with A"
  "workspace_response (A\<lparr>ap_baseline := h\<rparr>) = workspace_response A"
  unfolding fun_eq_iff publish_def refuse_def permission_team_def refuse_with_def workspace_response_def other_ports
  by simp_all

lemma coordinate_unasked:
  "coordinate chk port clock p approver channel ref x = coordinate chk port' clock p approver channel ref x
    \<or> (\<exists>y. chk (strip approver) (pa_permission p) x = (Some True, y))"
  by (auto simp: coordinate_def Let_def split: prod.split option.split bool.split)

text \<open>The permission service has just said yes to this user and this permission.\<close>

definition holds_permission :: "'x approval_ports \<Rightarrow> workspace_view \<Rightarrow> string \<Rightarrow> string \<Rightarrow> bool" where
  "holds_permission A v user permission \<longleftrightarrow> (\<exists>chk x y. ap_checker A (permission_team A v) = Inr chk
     \<and> chk user permission x = (Some True, y))"

lemma coordinate_decision_unasked:
  assumes "ap_checker A (permission_team A v) = Inr chk"
  shows "coordinate_decision (A\<lparr>ap_decide := g\<rparr>) chk p approver a x = coordinate_decision A chk p approver a x
    \<or> holds_permission A v (strip approver) (pa_permission p)"
  using coordinate_unasked [of chk "decide_port (A\<lparr>ap_decide := g\<rparr>)" "ap_now A" p approver "at_channel a" "at_ref a" x "decide_port A"] assms
  by (auto simp: coordinate_decision_def holds_permission_def)

definition human_confirmed ::
  "platform \<Rightarrow> 'x approval_ports \<Rightarrow> string \<Rightarrow> string \<Rightarrow> string \<Rightarrow> approval_attempt \<Rightarrow> workspace_view \<Rightarrow> 'x \<Rightarrow> bool"
where
  "human_confirmed P A i d approver a v y \<longleftrightarrow> (\<exists>p. pending_from_workspace P v = Inr (Some p) \<and> pa_decision p = d \<and> confirms a p
     \<and> holds_permission A v (strip approver) (pa_permission p)
     \<and> (at_channel a = Slack_Reaction \<longrightarrow> (\<exists>z. require_workspace_slack_identity A v i approver y = (Inr (), z))))"

lemma pending_forD: "pending_for P v d = Inr (Some p) \<Longrightarrow> pending_from_workspace P v = Inr (Some p) \<and> pa_decision p = d"
  by (auto simp: pending_for_def split: option.splits if_splits)

lemma check_identity_bound:
  assumes "check_identity A v i d approver a p y = (Inr True, z)" and "at_channel a = Slack_Reaction"
  shows "\<exists>z. require_workspace_slack_identity A v i approver y = (Inr (), z)"
proof -
  obtain r u where r: "require_workspace_slack_identity A v i approver y = (r, u)" by (rule prod.exhaust)
  have "r = Inr ()"
  proof (cases r)
    case (Inl e)
    then show ?thesis using assms r
      by (cases e) (auto simp: check_identity_def bind_op_def split: if_splits sum.splits prod.splits)
  qed simp
  then show ?thesis using r by blast
qed

lemma unless_missing_get:
  "get x = (Inr v, y) \<Longrightarrow> unless_missing get x = (Inr v, y)"
  "get x = (Inl e, y) \<Longrightarrow> \<exists>e'. unless_missing get x = (Inl e', y)"
  by (cases e; simp add: unless_missing_def)+

lemma channel_unconfirmed:
  "approve_from_trusted_channel P (A\<lparr>ap_decide := g\<rparr>) i d approver a x = approve_from_trusted_channel P A i d approver a x
    \<or> (\<exists>v y. ap_get A i x = (Inr v, y) \<and> human_confirmed P A i d approver a v y)"
proof (cases "\<exists>v y. ap_get A i x = (Inr v, y) \<and> human_confirmed P A i d approver a v y")
  case False
  obtain r y where get: "ap_get A i x = (r, y)" by (rule prod.exhaust)
  show ?thesis
  proof (cases r)
    case (Inl e)
    then obtain e' where "unless_missing (ap_get A i) x = (Inl e', y)"
      using unless_missing_get(2) [of "ap_get A i" x e y] get by auto
    then show ?thesis unfolding approve_from_trusted_channel_def bind_op_def other_ports by simp
  next
    case (Inr v)
    then have no: "\<not> human_confirmed P A i d approver a v y" using False get by blast
    have un: "unless_missing (ap_get A i) x = (Inr v, y)" using get Inr unless_missing_get(1) [of "ap_get A i" x v y] by simp
    have same: "coordinate_decision (A\<lparr>ap_decide := g\<rparr>) chk p approver a z = coordinate_decision A chk p approver a z"
      if "pending_for P v d = Inr (Some p)" "confirms a p" "check_identity A v i d approver a p y = (Inr True, z)"
         "ap_checker A (permission_team A v) = Inr chk" for p chk z
      using coordinate_decision_unasked [OF that(4), of g p approver a z] no pending_forD [OF that(1)] that(2)
        check_identity_bound [OF that(3)]
      by (auto simp: human_confirmed_def)
    show ?thesis
    proof (cases "\<exists>p z chk. pending_for P v d = Inr (Some p) \<and> confirms a p
        \<and> check_identity A v i d approver a p y = (Inr True, z) \<and> ap_checker A (permission_team A v) = Inr chk")
      case True
      then obtain p z chk where t: "pending_for P v d = Inr (Some p)" "confirms a p"
          "check_identity A v i d approver a p y = (Inr True, z)" "ap_checker A (permission_team A v) = Inr chk" by blast
      show ?thesis unfolding approve_from_trusted_channel_def bind_op_def other_ports approves_nothing
        by (simp add: un t same [OF t])
    next
      case False
      obtain r' where r': "pending_for P v d = r'" by simp
      show ?thesis
      proof (cases "\<exists>p. r' = Inr (Some p) \<and> confirms a p")
        case True
        then obtain p where p: "r' = Inr (Some p)" "confirms a p" by blast
        obtain q z where q: "check_identity A v i d approver a p y = (q, z)" by (rule prod.exhaust)
        consider e where "q = Inl e" | "q = Inr False" | m where "q = Inr True" "ap_checker A (permission_team A v) = Inl m"
          using False r' p q by (cases q; cases "ap_checker A (permission_team A v)") auto
        then show ?thesis unfolding approve_from_trusted_channel_def bind_op_def other_ports approves_nothing
          by cases (simp_all add: un r' p q)
      next
        case False
        then show ?thesis unfolding approve_from_trusted_channel_def bind_op_def other_ports approves_nothing
          by (cases r'; cases "projr r'") (simp_all add: un r')
      qed
    qed
  qed
qed blast

lemma credential_unconfirmed:
  "approve_as P (A\<lparr>ap_decide := g\<rparr>) i d a approver x = approve_as P A i d a approver x
    \<or> (\<exists>v y. ap_get A i x = (Inr v, y) \<and> (\<exists>p. pending_from_workspace P v = Inr (Some p) \<and> pa_decision p = d \<and> confirms a p
        \<and> holds_permission A v (strip approver) (pa_permission p)))"
  (is "_ \<or> (\<exists>v y. _ \<and> ?ok v)")
proof (cases "\<exists>v y. ap_get A i x = (Inr v, y) \<and> ?ok v")
  case False
  obtain r y where get: "ap_get A i x = (r, y)" by (rule prod.exhaust)
  show ?thesis
  proof (cases r)
    case (Inl e)
    then obtain e' where "unless_missing (ap_get A i) x = (Inl e', y)"
      using unless_missing_get(2) [of "ap_get A i" x e y] get by auto
    then show ?thesis unfolding approve_as_def bind_op_def other_ports by simp
  next
    case (Inr v)
    then have no: "\<not> ?ok v" using False get by blast
    have un: "unless_missing (ap_get A i) x = (Inr v, y)" using get Inr unless_missing_get(1) [of "ap_get A i" x v y] by simp
    have same: "coordinate_decision (A\<lparr>ap_decide := g\<rparr>) chk p approver a z = coordinate_decision A chk p approver a z"
      if "pending_for P v d = Inr (Some p)" "confirms a p" "ap_checker A (permission_team A v) = Inr chk" for p chk z
      using coordinate_decision_unasked [OF that(3), of g p approver a z] no pending_forD [OF that(1)] that(2) by blast
    obtain r' where r': "pending_for P v d = r'" by simp
    show ?thesis
    proof (cases "\<exists>p. r' = Inr (Some p) \<and> confirms a p")
      case True
      then obtain p where p: "r' = Inr (Some p)" "confirms a p" by blast
      show ?thesis unfolding approve_as_def bind_op_def other_ports approves_nothing
        by (cases "ap_checker A (permission_team A v)") (simp_all add: un r' p same [OF r' [unfolded p(1)] p(2)])
    next
      case False
      then show ?thesis unfolding approve_as_def bind_op_def other_ports approves_nothing
        by (cases r'; cases "projr r'") (simp_all add: un r')
    qed
  qed
qed blast

text \<open>The agent service, in terms of the record that its store holds.\<close>

definition confirmed_record ::
  "platform \<Rightarrow> (string \<Rightarrow> string + 'h checker) \<Rightarrow> string \<Rightarrow> string \<Rightarrow> string \<Rightarrow> approval_attempt \<Rightarrow> live_record \<Rightarrow> bool"
where
  "confirmed_record P checker team d approver a w \<longleftrightarrow> (\<exists>m inst role chk h h'. lw_pending w = Some m
     \<and> lw_pending_instance w = Some inst \<and> strip (art_id (mut_decision m)) = d
     \<and> at_fingerprint a = Some (strip (mutation_hash P m)) \<and> at_instance a = Some (strip inst)
     \<and> map_option strip (art_role (mut_decision m)) = Some role
     \<and> checker (case ir_slack (lw_definition w) of None \<Rightarrow> team | Some b \<Rightarrow> sb_hexclave_team b) = Inr chk
     \<and> chk (strip approver) role h = (Some True, h'))"

definition bound_approver :: "live_record \<Rightarrow> string \<Rightarrow> bool" where
  "bound_approver w approver \<longleftrightarrow> (\<exists>b x. ir_slack (lw_definition w) = Some b \<and> x \<in> set (sb_identities b) \<and> si_hexclave x = approver)"

lemma agent_get:
  assumes "ap_get (agent_ports E others meanwhile now resolve checker team notify) i x = (Inr v, y)"
  shows "y = x \<and> (\<exists>w. sv_get E (fst (fst x)) i = Inr w \<and> v = from_record (sv_platform E) w)"
  using assms
  by (auto simp: agent_ports_def get_workspace_def read_record_def on_store_def bind_op_def split: sum.splits prod.splits)

lemma vw_slack_from_record: "vw_slack (from_record P w) = map_option (\<lambda>b. b\<lparr>sb_identities := []\<rparr>) (ir_slack (lw_definition w))"
  by (simp add: from_record_def Let_def)

lemma agent_team:
  "permission_team (agent_ports E others meanwhile now resolve checker team notify) (from_record P w)
    = (case ir_slack (lw_definition w) of None \<Rightarrow> team | Some b \<Rightarrow> sb_hexclave_team b)"
  by (simp add: permission_team_def vw_slack_from_record agent_ports_def split: option.split)

lemma agent_holds:
  assumes "holds_permission (agent_ports E others meanwhile now resolve checker team notify) (from_record P w) user permission"
  shows "\<exists>chk h h'. checker (case ir_slack (lw_definition w) of None \<Rightarrow> team | Some b \<Rightarrow> sb_hexclave_team b) = Inr chk
    \<and> chk user permission h = (Some True, h')"
proof -
  obtain chk x y where c: "ap_checker (agent_ports E others meanwhile now resolve checker team notify)
      (case ir_slack (lw_definition w) of None \<Rightarrow> team | Some b \<Rightarrow> sb_hexclave_team b) = Inr chk"
      "chk user permission x = (Some True, y)"
    using assms unfolding holds_permission_def agent_team by blast
  then obtain chk0 where "checker (case ir_slack (lw_definition w) of None \<Rightarrow> team | Some b \<Rightarrow> sb_hexclave_team b) = Inr chk0"
      "chk = (\<lambda>u p x. case chk0 u p (snd x) of (r, h) \<Rightarrow> (r, (fst x, h)))"
    by (auto simp: agent_ports_def map_sum_def split: sum.splits)
  then show ?thesis using c(2) by (auto split: prod.splits)
qed

lemma agent_identity:
  assumes "require_workspace_slack_identity (agent_ports E others meanwhile now resolve checker team notify) (from_record P w) i
      approver x = (Inr (), z)"
    and "sv_get E (fst (fst x)) i = Inr w"
  shows "bound_approver w approver"
  using assms
  by (auto simp: require_workspace_slack_identity_def vw_slack_from_record agent_ports_def is_slack_authority_user_bound_def
    read_record_def on_store_def bind_op_def bound_approver_def split: option.splits if_splits)

lemma pending_confirmed:
  assumes "pending_from_workspace P (from_record P w) = Inr (Some p)" and "pa_decision p = d" and "confirms a p"
    and "holds_permission (agent_ports E others meanwhile now resolve checker team notify) (from_record P w) (strip approver)
      (pa_permission p)"
  shows "confirmed_record P checker team d approver a w"
proof -
  obtain m inst where "lw_pending w = Some m" "lw_pending_instance w = Some inst"
      "pa_fingerprint p = strip (mutation_hash P m)" "pa_decision p = strip (art_id (mut_decision m))"
      "pa_instance p = strip inst" "map_option strip (art_role (mut_decision m)) = Some (pa_permission p)"
    by (rule pending_from_record [OF assms(1)])
  moreover obtain chk h h' where "checker (case ir_slack (lw_definition w) of None \<Rightarrow> team | Some b \<Rightarrow> sb_hexclave_team b) = Inr chk"
      "chk (strip approver) (pa_permission p) h = (Some True, h')"
    using agent_holds [OF assms(4)] by blast
  ultimately show ?thesis using assms(2,3) unfolding confirmed_record_def confirms_def
    by (intro exI [of _ m] exI [of _ inst] exI [of _ "pa_permission p"] exI [of _ chk] exI [of _ h] exI [of _ h']) simp
qed

lemma agent_channel_confirmed:
  assumes A_def: "A = agent_ports E others meanwhile now resolve checker team notify"
  shows "approve_from_trusted_channel (sv_platform E) (A\<lparr>ap_decide := g\<rparr>) i d approver a x
      = approve_from_trusted_channel (sv_platform E) A i d approver a x
    \<or> (\<exists>w. sv_get E (fst (fst x)) i = Inr w \<and> confirmed_record (sv_platform E) checker team d approver a w
        \<and> (at_channel a = Slack_Reaction \<longrightarrow> bound_approver w approver))"
proof -
  have "\<exists>w. sv_get E (fst (fst x)) i = Inr w \<and> confirmed_record (sv_platform E) checker team d approver a w
        \<and> (at_channel a = Slack_Reaction \<longrightarrow> bound_approver w approver)"
    if get: "ap_get A i x = (Inr v, y)" and human: "human_confirmed (sv_platform E) A i d approver a v y" for v y
  proof -
    obtain w where w: "y = x" "sv_get E (fst (fst x)) i = Inr w" "v = from_record (sv_platform E) w"
      using agent_get get unfolding A_def by blast
    have "confirmed_record (sv_platform E) checker team d approver a w"
      using human w(3) pending_confirmed unfolding human_confirmed_def A_def by blast
    moreover have "at_channel a = Slack_Reaction \<Longrightarrow> bound_approver w approver"
      using human w agent_identity unfolding human_confirmed_def A_def by blast
    ultimately show ?thesis using w(2) by blast
  qed
  then show ?thesis using channel_unconfirmed [of "sv_platform E" g A i d approver a x] by blast
qed

lemma agent_credential_confirmed:
  assumes A_def: "A = agent_ports E others meanwhile now resolve checker team notify"
  shows "approve_as (sv_platform E) (A\<lparr>ap_decide := g\<rparr>) i d a approver x = approve_as (sv_platform E) A i d a approver x
    \<or> (\<exists>w. sv_get E (fst (fst x)) i = Inr w \<and> confirmed_record (sv_platform E) checker team d approver a w)"
proof -
  have "\<exists>w. sv_get E (fst (fst x)) i = Inr w \<and> confirmed_record (sv_platform E) checker team d approver a w"
    if get: "ap_get A i x = (Inr v, y)" and p: "pending_from_workspace (sv_platform E) v = Inr (Some p)" "pa_decision p = d"
      "confirms a p" "holds_permission A v (strip approver) (pa_permission p)" for v y p
  proof -
    obtain w where w: "sv_get E (fst (fst x)) i = Inr w" "v = from_record (sv_platform E) w"
      using agent_get get unfolding A_def by blast
    then show ?thesis using p pending_confirmed unfolding A_def by blast
  qed
  then show ?thesis using credential_unconfirmed [of "sv_platform E" g A i d a approver x] by blast
qed

lemma agent_token_confirmed:
  "approve_with_credential (sv_platform E) ((agent_ports E others meanwhile now resolve checker team notify)\<lparr>ap_decide := g\<rparr>) i d a token x
      = approve_with_credential (sv_platform E) (agent_ports E others meanwhile now resolve checker team notify) i d a token x
    \<or> (\<exists>approver h w. resolve token (snd x) = (Inr approver, h) \<and> at_channel a \<in> {Cli, Workspace_Ui}
        \<and> sv_get E (fst (fst x)) i = Inr w \<and> confirmed_record (sv_platform E) checker team d approver a w)"
proof (cases "at_channel a \<in> {Cli, Workspace_Ui}")
  case channel: True
  let ?A = "agent_ports E others meanwhile now resolve checker team notify"
  obtain r h where r: "resolve token (snd x) = (r, h)" by (rule prod.exhaust)
  have resolved: "ap_resolve ?A token x = (r, (fst x, h))" "ap_resolve (?A\<lparr>ap_decide := g\<rparr>) token x = (r, (fst x, h))"
    using r by (simp_all add: agent_ports_def)
  show ?thesis
  proof (cases r)
    case (Inl e)
    then show ?thesis using resolved by (cases e) (simp_all add: approve_with_credential_def with_credential_def)
  next
    case (Inr approver)
    then show ?thesis
      using agent_credential_confirmed [OF refl, of E g others meanwhile now resolve checker team notify i d a approver "(fst x, h)"]
        resolved r channel
      by (auto simp: approve_with_credential_def with_credential_def)
  qed
qed (simp add: approve_with_credential_def with_credential_def)

subsection \<open>The baseline\<close>

definition baseline_confirmed ::
  "'x approval_ports \<Rightarrow> string \<Rightarrow> approval_attempt \<Rightarrow> workspace_view \<Rightarrow> bool"
where
  "baseline_confirmed A approver a v \<longleftrightarrow> (\<exists>d permission inst. baseline_required_permission v = Inr (d, permission)
     \<and> \<not> vw_baseline_approved v \<and> vw_baseline_instance v = Some inst
     \<and> at_fingerprint a = Some (vw_baseline_fingerprint v) \<and> at_instance a = Some inst
     \<and> holds_permission A v approver permission)"

lemma check_baseline_unasked:
  "check_baseline (A\<lparr>ap_baseline := h\<rparr>) v i d permission a approver inst x = check_baseline A v i d permission a approver inst x
    \<or> holds_permission A v approver permission"
proof (cases "ap_checker A (permission_team A v)")
  case (Inl m)
  then show ?thesis unfolding check_baseline_def other_ports approves_no_baseline by simp
next
  case (Inr chk)
  obtain r y where r: "chk approver permission x = (r, y)" by (rule prod.exhaust)
  consider "r = None" | "r = Some False" | "r = Some True" by (cases r) auto
  then show ?thesis
  proof cases
    case 3
    then show ?thesis using Inr r by (auto simp: holds_permission_def)
  qed (simp_all add: check_baseline_def other_ports approves_no_baseline Inr r)
qed

lemma baseline_unconfirmed:
  "approve_baseline_as (A\<lparr>ap_baseline := h\<rparr>) i a approver x = approve_baseline_as A i a approver x
    \<or> (\<exists>v y. ap_get A i x = (Inr v, y) \<and> baseline_confirmed A approver a v)"
proof (cases "\<exists>v y. ap_get A i x = (Inr v, y) \<and> baseline_confirmed A approver a v")
  case False
  obtain r y where get: "ap_get A i x = (r, y)" by (rule prod.exhaust)
  show ?thesis
  proof (cases r)
    case (Inl e)
    then obtain e' where "unless_missing (ap_get A i) x = (Inl e', y)"
      using unless_missing_get(2) [of "ap_get A i" x e y] get by auto
    then show ?thesis unfolding approve_baseline_as_def bind_op_def other_ports by simp
  next
    case (Inr v)
    then have no: "\<not> baseline_confirmed A approver a v" using False get by blast
    have un: "unless_missing (ap_get A i) x = (Inr v, y)"
      using get Inr unless_missing_get(1) [of "ap_get A i" x v y] by simp
    show ?thesis
    proof (cases "baseline_required_permission v")
      case (Inl e)
      then show ?thesis unfolding approve_baseline_as_def bind_op_def other_ports by (simp add: un)
    next
      case (Inr dp)
      obtain d permission where dp: "dp = (d, permission)" by (rule prod.exhaust)
      have same: "check_baseline (A\<lparr>ap_baseline := h\<rparr>) v i d permission a approver inst z
          = check_baseline A v i d permission a approver inst z"
        if "\<not> vw_baseline_approved v" "vw_baseline_instance v = Some inst" "at_fingerprint a = Some (vw_baseline_fingerprint v)"
          "at_instance a = Some inst" for inst z
        using check_baseline_unasked [of h A v i d permission a approver inst z] no that Inr dp
        by (auto simp: baseline_confirmed_def)
      show ?thesis unfolding approve_baseline_as_def bind_op_def other_ports approves_no_baseline
        by (cases "vw_baseline_instance v") (auto simp: un Inr dp same)
    qed
  qed
qed blast

lemma baseline_token_confirmed:
  "approve_baseline_with_credential (A\<lparr>ap_baseline := h\<rparr>) i a token x = approve_baseline_with_credential A i a token x
    \<or> (\<exists>approver v y z. ap_resolve A token x = (Inr approver, y) \<and> ap_get A i y = (Inr v, z) \<and> baseline_confirmed A approver a v)"
proof (cases "at_channel a \<in> {Cli, Workspace_Ui}")
  case channel: True
  obtain r y where r: "ap_resolve A token x = (r, y)" by (rule prod.exhaust)
  show ?thesis
  proof (cases r)
    case (Inl e)
    then show ?thesis using r by (cases e) (simp_all add: approve_baseline_with_credential_def with_credential_def)
  next
    case (Inr approver)
    then show ?thesis
      using baseline_unconfirmed [of h A i a approver y] r channel
      by (auto simp: approve_baseline_with_credential_def with_credential_def)
  qed
qed (simp add: approve_baseline_with_credential_def with_credential_def)

end
