(* ===== verification/Preview.thy ===== *)
theory Preview
  imports Orchestrator_Runs
begin

text \<open>
  The estimate an approver sees before approving (\<open>preview_decision\<close> of
  \<^verbatim>\<open>workspaces/orchestrator.py\<close>): a breadth-first search over the imported graph decides which
  assignments the pending decision would interrupt. It is the rule of the authority engine, so
  what is shown is what the engine's report then invalidates.
\<close>

subsection \<open>The search\<close>

record preview_search =
  ps_paths :: "string list dict"
  ps_queue :: "string list"
  ps_visited :: "string set"

text \<open>The body of \<open>for edge in outgoing\<close>.\<close>

definition visit_child ::
  "artifact dict \<Rightarrow> scopes \<Rightarrow> string list \<Rightarrow> edge \<Rightarrow> preview_search \<Rightarrow> preview_search"
where
  "visit_child arts A path e s = (case dict_get arts (edge_target e) of
     None \<Rightarrow> s
   | Some child \<Rightarrow>
       if art_scopes child \<inter> A = {} then s
       else (let c = art_id child; s1 = s\<lparr>ps_paths := dict_setdefault c (path @ [c]) (ps_paths s)\<rparr>
         in if c \<in> ps_visited s then s1
            else s1\<lparr>ps_visited := insert c (ps_visited s), ps_queue := ps_queue s @ [c]\<rparr>))"

definition unseen :: "artifact dict \<Rightarrow> preview_search \<Rightarrow> nat" where
  "unseen arts s = card (art_id ` snd ` set arts - ps_visited s) + length (ps_queue s)"

lemma visit_child_unseen: "unseen arts (visit_child arts A path e s) \<le> unseen arts s"
proof (cases "dict_get arts (edge_target e)")
  case (Some child)
  let ?c = "art_id child" and ?D = "art_id ` snd ` set arts"
  have "?c \<in> ?D" using Some by (force dest: map_of_SomeD)
  then have "Suc (card (?D - insert ?c (ps_visited s))) = card (?D - ps_visited s)" if "?c \<notin> ps_visited s"
    using that by (intro card_visit) auto
  then show ?thesis using Some by (auto simp: visit_child_def unseen_def Let_def)
qed (simp add: visit_child_def)

lemma fold_visit_unseen: "unseen arts (fold (visit_child arts A path) es s) \<le> unseen arts s"
proof (induction es arbitrary: s)
  case (Cons e es)
  show ?case using order_trans [OF Cons visit_child_unseen] by simp
qed simp

function preview_loop ::
  "artifact dict \<Rightarrow> edge list dict \<Rightarrow> scopes \<Rightarrow> preview_search \<Rightarrow> string list dict result"
where
  "preview_loop arts out A s = (case ps_queue s of
     [] \<Rightarrow> Inr (ps_paths s)
   | i # rest \<Rightarrow> (case dict_get (ps_paths s) i of
       None \<Rightarrow> Inl (KeyError i)
     | Some path \<Rightarrow> preview_loop arts out A
         (fold (visit_child arts A path) (edges_of out i) (s\<lparr>ps_queue := rest\<rparr>))))"
  by pat_completeness auto
termination
proof (relation "measure (\<lambda>(arts, out, A, s). unseen arts s)")
  fix arts out A i rest path and s :: preview_search
  assume "ps_queue s = i # rest"
  then have "unseen arts (s\<lparr>ps_queue := rest\<rparr>) < unseen arts s" by (simp add: unseen_def)
  then show "((arts, out, A, fold (visit_child arts A path) (edges_of out i) (s\<lparr>ps_queue := rest\<rparr>)), arts, out, A, s)
      \<in> measure (\<lambda>(arts, out, A, s). unseen arts s)"
    using fold_visit_unseen [of arts A path "edges_of out i" "s\<lparr>ps_queue := rest\<rparr>"] by (simp add: order_le_less_trans)
qed simp

declare preview_loop.simps [simp del]

definition preview_artifacts :: "live_record \<Rightarrow> artifact dict" where
  "preview_artifacts w = by_id (graph_artifacts (lw_definition w)
     @ map (\<lambda>am. mut_decision (am_mutation am)) (lw_approved w))"

definition preview_paths :: "live_record \<Rightarrow> decision_mutation \<Rightarrow> string list dict result" where
  "preview_paths w m = (let r = mut_supersedes m in
     preview_loop (preview_artifacts w)
       (edges_by_source (filter (\<lambda>e. edge_kind e \<in> downstream_kinds) (graph_edges (lw_definition w))))
       (mut_scopes m) \<lparr>ps_paths = [(r, [art_id (mut_decision m), r])], ps_queue = [r], ps_visited = {r}\<rparr>)"

subsection \<open>The preview\<close>

definition fully_invalidated :: "artifact dict \<Rightarrow> scopes \<Rightarrow> string list dict \<Rightarrow> assignment \<Rightarrow> bool" where
  "fully_invalidated arts A paths a = (case dict_get arts (as_task a) of
     None \<Rightarrow> False
   | Some t \<Rightarrow> art_scopes t \<noteq> {} \<and> art_scopes t \<subseteq> art_invalidated t \<union> A \<and> dict_get paths (as_task a) \<noteq> None)"

definition assignment_paths :: "string list dict \<Rightarrow> assignment list \<Rightarrow> string list dict" where
  "assignment_paths paths as = dict_of (map (\<lambda>a. (as_id a, the (dict_get paths (as_task a)))) as)"

definition preview_of :: "live_record \<Rightarrow> decision_mutation \<Rightarrow> approval_preview result" where
  "preview_of w m = bind_r (preview_paths w m) (\<lambda>paths.
     let hit = fully_invalidated (preview_artifacts w) (mut_scopes m) paths;
         as = (case lw_supervisor w of None \<Rightarrow> [] | Some su \<Rightarrow> su_assignments su);
         interrupted = sort (map as_id (filter hit as));
         preserved = sort (map as_id (filter (\<lambda>a. \<not> hit a) as));
         p = \<lparr>ap_interrupted = interrupted, ap_preserved = preserved,
              ap_interrupted_count = int (length interrupted), ap_preserved_count = int (length preserved),
              ap_total = int (length interrupted) + int (length preserved),
              ap_paths = assignment_paths paths (filter hit as)\<rparr>
     in bind_r (validate_partition p) (\<lambda>_. Inr p))"

definition preview_decision ::
  "('s, 'r) services \<Rightarrow> string \<Rightarrow> string \<Rightarrow> ('s \<times> 'r, pending_approval \<times> approval_preview) op"
where
  "preview_decision E i d = bind_op (read_record E i) (\<lambda>w. read_op (\<lambda>_.
     case pending_mutation w d of
       None \<Rightarrow> conflict ''The requested Decision is not awaiting approval.''
     | Some m \<Rightarrow>
         bind_r (pending_from_workspace (sv_platform E) (from_record (sv_platform E) w)) (\<lambda>shown.
         case shown of
           None \<Rightarrow> conflict ''The requested Decision is not awaiting approval.''
         | Some pa \<Rightarrow> bind_r (preview_of w m) (\<lambda>p. Inr (pa, p)))))"

subsection \<open>The search finds what is reachable\<close>

text \<open>The graph the search runs on, as the engine would hold it.\<close>

definition imported_graph :: "live_record \<Rightarrow> graph" where
  "imported_graph w = reset (ir_version (lw_definition w)) (graph_artifacts (lw_definition w)
     @ map (\<lambda>am. mut_decision (am_mutation am)) (lw_approved w)) (graph_edges (lw_definition w)) empty_graph"

lemma imported_graph_fields [simp]:
  "g_artifacts (imported_graph w) = preview_artifacts w" "g_edges (imported_graph w) = graph_edges (lw_definition w)"
  by (simp_all add: imported_graph_def reset_def preview_artifacts_def by_id_def)

definition keyed :: "artifact dict \<Rightarrow> bool" where
  "keyed arts \<longleftrightarrow> (\<forall>i a. dict_get arts i = Some a \<longrightarrow> art_id a = i)"

lemma by_id_keyed: "keyed (by_id as)"
  by (auto simp: keyed_def by_id_def dict_simps rev_map [symmetric] dest: map_of_SomeD)

text \<open>A visited artifact is queued, or one being expanded, or its successors are visited.\<close>

definition search_ok :: "graph \<Rightarrow> scopes \<Rightarrow> string \<Rightarrow> string \<Rightarrow> string set \<Rightarrow> preview_search \<Rightarrow> bool" where
  "search_ok g A c r cur s \<longleftrightarrow> r \<in> ps_visited s \<and> set (ps_queue s) \<subseteq> ps_visited s
     \<and> (\<forall>i. dict_get (ps_paths s) i = None \<longleftrightarrow> i \<notin> ps_visited s)
     \<and> (\<forall>i ns. dict_get (ps_paths s) i = Some ns \<longrightarrow> trace g A c r ns i)
     \<and> (\<forall>x y. x \<in> ps_visited s \<longrightarrow> spread g A x y \<longrightarrow> x \<in> set (ps_queue s) \<or> x \<in> cur \<or> y \<in> ps_visited s)"

lemma search_okI:
  assumes "r \<in> ps_visited s" "set (ps_queue s) \<subseteq> ps_visited s"
    and "\<And>i. dict_get (ps_paths s) i = None \<longleftrightarrow> i \<notin> ps_visited s"
    and "\<And>i ns. dict_get (ps_paths s) i = Some ns \<Longrightarrow> trace g A c r ns i"
    and "\<And>x y. \<lbrakk>x \<in> ps_visited s; spread g A x y\<rbrakk> \<Longrightarrow> x \<in> set (ps_queue s) \<or> x \<in> cur \<or> y \<in> ps_visited s"
  shows "search_ok g A c r cur s"
  using assms unfolding search_ok_def by blast

lemma search_okD:
  assumes "search_ok g A c r cur s"
  shows "r \<in> ps_visited s" "set (ps_queue s) \<subseteq> ps_visited s"
    and "dict_get (ps_paths s) i = None \<longleftrightarrow> i \<notin> ps_visited s"
    and "dict_get (ps_paths s) i = Some ns \<Longrightarrow> trace g A c r ns i"
    and "\<lbrakk>x \<in> ps_visited s; spread g A x y\<rbrakk> \<Longrightarrow> x \<in> set (ps_queue s) \<or> x \<in> cur \<or> y \<in> ps_visited s"
  using assms unfolding search_ok_def by blast+

lemma visit_child_ok:
  assumes arts: "keyed (g_artifacts g)" and ok: "search_ok g A c r {x} s"
    and path: "trace g A c r path x" and e: "flows g downstream_kinds x (edge_target e)"
  shows "search_ok g A c r {x} (visit_child (g_artifacts g) A path e s)
    \<and> ps_visited s \<subseteq> ps_visited (visit_child (g_artifacts g) A path e s)
    \<and> (overlap g A (edge_target e) \<longrightarrow> edge_target e \<in> ps_visited (visit_child (g_artifacts g) A path e s))"
proof (cases "overlap g A (edge_target e)")
  case False
  then have "visit_child (g_artifacts g) A path e s = s"
    by (auto simp: visit_child_def overlap_def get_artifact_Inr split: option.splits)
  then show ?thesis using ok False by simp
next
  case True
  then obtain ch where ch: "dict_get (g_artifacts g) (edge_target e) = Some ch" "art_scopes ch \<inter> A \<noteq> {}"
    by (auto simp: overlap_def get_artifact_Inr)
  then have id: "art_id ch = edge_target e" using arts by (simp add: keyed_def)
  have "spread g A x (edge_target e)" using True e by (simp add: spread_def)
  then have tr: "trace g A c r (path @ [edge_target e]) (edge_target e)" by (rule trace.extend [OF path])
  show ?thesis
  proof (cases "edge_target e \<in> ps_visited s")
    case old: True
    then obtain ns where "dict_get (ps_paths s) (edge_target e) = Some ns"
      using search_okD(3) [OF ok] by (metis option.exhaust)
    then have "visit_child (g_artifacts g) A path e s = s"
      using ch id old by (simp add: visit_child_def Let_def dict_setdefault_def)
    then show ?thesis using ok old by simp
  next
    case new: False
    then have none: "dict_get (ps_paths s) (edge_target e) = None" using search_okD(3) [OF ok] by blast
    then have s': "visit_child (g_artifacts g) A path e s =
        s\<lparr>ps_paths := dict_set (edge_target e) (path @ [edge_target e]) (ps_paths s),
          ps_visited := insert (edge_target e) (ps_visited s), ps_queue := ps_queue s @ [edge_target e]\<rparr>"
      using ch id new by (simp add: visit_child_def Let_def dict_setdefault_def)
    have "search_ok g A c r {x} (visit_child (g_artifacts g) A path e s)"
    proof (rule search_okI)
      show "trace g A c r ns i" if "dict_get (ps_paths (visit_child (g_artifacts g) A path e s)) i = Some ns" for i ns
        using that tr search_okD(4) [OF ok, of i ns] by (auto simp: s' dict_simps split: if_splits)
      show "x' \<in> set (ps_queue (visit_child (g_artifacts g) A path e s)) \<or> x' \<in> {x}
          \<or> y \<in> ps_visited (visit_child (g_artifacts g) A path e s)"
        if "x' \<in> ps_visited (visit_child (g_artifacts g) A path e s)" "spread g A x' y" for x' y
        using that search_okD(5) [OF ok, of x' y] by (auto simp: s')
    qed (use search_okD(1,2,3) [OF ok] in \<open>auto simp: s' dict_simps\<close>)
    then show ?thesis by (auto simp: s')
  qed
qed

lemma fold_visit_ok:
  assumes arts: "keyed (g_artifacts g)" and path: "trace g A c r path x"
  shows "search_ok g A c r {x} s \<Longrightarrow> (\<And>e. e \<in> set es \<Longrightarrow> flows g downstream_kinds x (edge_target e)) \<Longrightarrow>
    search_ok g A c r {x} (fold (visit_child (g_artifacts g) A path) es s)
    \<and> ps_visited s \<subseteq> ps_visited (fold (visit_child (g_artifacts g) A path) es s)
    \<and> (\<forall>e\<in>set es. overlap g A (edge_target e) \<longrightarrow>
        edge_target e \<in> ps_visited (fold (visit_child (g_artifacts g) A path) es s))"
proof (induction es arbitrary: s)
  case (Cons e es)
  let ?s = "visit_child (g_artifacts g) A path e s"
  have step: "search_ok g A c r {x} ?s" "ps_visited s \<subseteq> ps_visited ?s"
      "overlap g A (edge_target e) \<longrightarrow> edge_target e \<in> ps_visited ?s"
    using visit_child_ok [OF arts Cons.prems(1) path] Cons.prems(2) [of e] by auto
  show ?case using Cons.IH [OF step(1)] Cons.prems(2) step(2,3) by auto
qed simp

lemma preview_loop_ok:
  assumes arts: "keyed (g_artifacts g)"
  shows "search_ok g A c r {} s \<Longrightarrow> \<exists>paths. preview_loop (g_artifacts g)
      (edges_by_source (filter (\<lambda>e. edge_kind e \<in> downstream_kinds) (g_edges g))) A s = Inr paths
    \<and> (\<forall>i. dict_get paths i \<noteq> None \<longleftrightarrow> (spread g A)\<^sup>*\<^sup>* r i)
    \<and> (\<forall>i ns. dict_get paths i = Some ns \<longrightarrow> trace g A c r ns i)"
proof (induction "g_artifacts g" "edges_by_source (filter (\<lambda>e. edge_kind e \<in> downstream_kinds) (g_edges g))" A s
    rule: preview_loop.induct)
  case (1 A s)
  let ?out = "edges_by_source (filter (\<lambda>e. edge_kind e \<in> downstream_kinds) (g_edges g))"
  note ok = 1(2)
  show ?case
  proof (cases "ps_queue s")
    case Nil
    have "i \<in> ps_visited s" if "(spread g A)\<^sup>*\<^sup>* r i" for i
      using that by (induction rule: rtranclp_induct) (use search_okD(1,5) [OF ok] Nil in auto)
    moreover have "(spread g A)\<^sup>*\<^sup>* r i" if "i \<in> ps_visited s" for i
      using that search_okD(3,4) [OF ok] trace_reaches by (metis option.exhaust)
    ultimately have "dict_get (ps_paths s) i \<noteq> None \<longleftrightarrow> (spread g A)\<^sup>*\<^sup>* r i" for i
      unfolding search_okD(3) [OF ok] not_not by (rule iffI [rotated])
    then show ?thesis using search_okD(4) [OF ok] Nil
      by (intro exI [of _ "ps_paths s"] conjI) (simp_all add: preview_loop.simps [of _ _ _ s])
  next
    case (Cons i rest)
    then have "i \<in> ps_visited s" using search_okD(2) [OF ok] by simp
    then obtain path where path: "dict_get (ps_paths s) i = Some path" "trace g A c r path i"
      using search_okD(3,4) [OF ok] by (metis option.exhaust)
    let ?s = "fold (visit_child (g_artifacts g) A path) (edges_of ?out i) (s\<lparr>ps_queue := rest\<rparr>)"
    have edges: "set (edges_of ?out i) = {e\<in>set (g_edges g). edge_kind e \<in> downstream_kinds \<and> edge_source e = i}"
      by (auto simp: edges_of_set)
    have pop: "search_ok g A c r {i} (s\<lparr>ps_queue := rest\<rparr>)"
    proof (rule search_okI)
      fix x y
      assume "x \<in> ps_visited (s\<lparr>ps_queue := rest\<rparr>)" "spread g A x y"
      then show "x \<in> set (ps_queue (s\<lparr>ps_queue := rest\<rparr>)) \<or> x \<in> {i} \<or> y \<in> ps_visited (s\<lparr>ps_queue := rest\<rparr>)"
        using search_okD(5) [OF ok, of x y] Cons by auto
    qed (use search_okD(1-4) [OF ok] Cons in auto)
    have all: "search_ok g A c r {i} ?s" "\<forall>e\<in>set (edges_of ?out i). overlap g A (edge_target e) \<longrightarrow> edge_target e \<in> ps_visited ?s"
      using fold_visit_ok [OF arts path(2) pop, of "edges_of ?out i"] edges unfolding flows_def by blast+
    have "y \<in> ps_visited ?s" if "spread g A i y" for y
      using that all(2) edges by (auto simp: spread_def flows_def)
    then have "search_ok g A c r {} ?s" using all(1) unfolding search_ok_def by blast
    from 1(1) [OF Cons path(1) this] show ?thesis
      by (simp only: preview_loop.simps [of _ _ _ s] Cons path(1) list.case option.case)
  qed
qed

lemma preview_paths_ok:
  "\<exists>paths. preview_paths w m = Inr paths
    \<and> (\<forall>i. dict_get paths i \<noteq> None \<longleftrightarrow> (spread (imported_graph w) (mut_scopes m))\<^sup>*\<^sup>* (mut_supersedes m) i)
    \<and> (\<forall>i ns. dict_get paths i = Some ns \<longrightarrow>
        trace (imported_graph w) (mut_scopes m) (art_id (mut_decision m)) (mut_supersedes m) ns i)"
proof -
  let ?g = "imported_graph w" and ?r = "mut_supersedes m" and ?c = "art_id (mut_decision m)"
  have "keyed (g_artifacts ?g)" by (simp add: preview_artifacts_def by_id_keyed)
  moreover have "search_ok ?g (mut_scopes m) ?c ?r {}
      \<lparr>ps_paths = [(?r, [?c, ?r])], ps_queue = [?r], ps_visited = {?r}\<rparr>"
    by (auto simp: search_ok_def intro: trace.start)
  ultimately show ?thesis
    using preview_loop_ok [of ?g] by (simp add: preview_paths_def Let_def)
qed

subsection \<open>What is shown is what the engine reports\<close>

text \<open>The assignment's task is reached by the change and loses its last valid scope.\<close>

definition would_stop :: "graph \<Rightarrow> decision_mutation \<Rightarrow> assignment \<Rightarrow> bool" where
  "would_stop g m a \<longleftrightarrow> (\<exists>t. get_artifact g (as_task a) = Inr t \<and> art_scopes t \<noteq> {}
     \<and> art_scopes t \<subseteq> art_invalidated t \<union> mut_scopes m)
     \<and> (spread g (mut_scopes m))\<^sup>*\<^sup>* (mut_supersedes m) (as_task a)"

definition assigned :: "live_record \<Rightarrow> assignment list" where
  "assigned w = (case lw_supervisor w of None \<Rightarrow> [] | Some su \<Rightarrow> su_assignments su)"

lemma preview_of_ok:
  assumes dist: "distinct (map as_id (assigned w))"
  shows "\<exists>p. preview_of w m = Inr p
    \<and> set (ap_interrupted p) = as_id ` {a\<in>set (assigned w). would_stop (imported_graph w) m a}
    \<and> set (ap_preserved p) = as_id ` {a\<in>set (assigned w). \<not> would_stop (imported_graph w) m a}
    \<and> ap_total p = int (length (assigned w)) \<and> sorted (ap_interrupted p) \<and> sorted (ap_preserved p)
    \<and> (\<forall>a\<in>set (assigned w). would_stop (imported_graph w) m a \<longrightarrow> (\<exists>ns. dict_get (ap_paths p) (as_id a) = Some ns
        \<and> trace (imported_graph w) (mut_scopes m) (art_id (mut_decision m)) (mut_supersedes m) ns (as_task a)))"
proof -
  let ?g = "imported_graph w" and ?as = "assigned w"
  obtain paths where run: "preview_paths w m = Inr paths"
    and reach: "\<And>i. dict_get paths i \<noteq> None \<longleftrightarrow> (spread ?g (mut_scopes m))\<^sup>*\<^sup>* (mut_supersedes m) i"
    and tr: "\<And>i ns. dict_get paths i = Some ns \<Longrightarrow>
      trace ?g (mut_scopes m) (art_id (mut_decision m)) (mut_supersedes m) ns i"
    using preview_paths_ok [of w m] by blast
  let ?hit = "fully_invalidated (preview_artifacts w) (mut_scopes m) paths"
  have hit: "?hit = would_stop ?g m"
    unfolding fully_invalidated_def would_stop_def reach fun_eq_iff
    by (auto simp: get_artifact_Inr split: option.splits)
  let ?int = "sort (map as_id (filter ?hit ?as))" and ?pre = "sort (map as_id (filter (\<lambda>a. \<not> ?hit a) ?as))"
  let ?paths = "assignment_paths paths (filter ?hit ?as)"
  have disj: "set ?int \<inter> set ?pre = {}"
    using dist by (auto simp: distinct_map dest: inj_onD)
  have keys: "fst ` set ?paths = set ?int"
    by (simp add: assignment_paths_def dict_of_def keys_dict_update image_image comp_def)
  have total: "length ?int + length ?pre = length ?as"
    using sum_length_filter_compl [of ?hit ?as] by simp
  have entry: "\<exists>ns. dict_get ?paths (as_id a) = Some ns
      \<and> trace ?g (mut_scopes m) (art_id (mut_decision m)) (mut_supersedes m) ns (as_task a)"
    if a: "a \<in> set ?as" "would_stop ?g m a" for a
  proof -
    obtain ns where ns: "dict_get paths (as_task a) = Some ns"
      using a(2) reach [of "as_task a"] by (auto simp: would_stop_def)
    let ?f = "\<lambda>a. (as_id a, the (dict_get paths (as_task a)))"
    have "wf_dict (map ?f (filter ?hit ?as))"
      using dist by (simp add: comp_def distinct_map_filter)
    then have "dict_get ?paths (as_id a) = Some ns" using a hit ns
      unfolding assignment_paths_def dict_get_of by (subst map_of_rev_distinct) (auto intro!: map_of_is_SomeI image_eqI [of _ ?f a])
    then show ?thesis using tr [OF ns] by blast
  qed
  show ?thesis
    using disj keys total entry
    by (simp add: preview_of_def run Let_def assigned_def [symmetric] validate_partition_def check_def bind_r_def)
      (auto simp: hit)
qed

text \<open>Two graphs that agree on what propagation looks at.\<close>

definition same_shape :: "graph \<Rightarrow> graph \<Rightarrow> bool" where
  "same_shape g h \<longleftrightarrow> g_edges h = g_edges g
     \<and> (\<forall>i. map_sum id (\<lambda>a. (art_kind a, art_scopes a, art_invalidated a)) (get_artifact h i)
          = map_sum id (\<lambda>a. (art_kind a, art_scopes a, art_invalidated a)) (get_artifact g i))"

lemma same_shape_get:
  assumes "same_shape g h" and "get_artifact g i = Inr a"
  obtains b where "get_artifact h i = Inr b" "art_kind b = art_kind a" "art_scopes b = art_scopes a"
    "art_invalidated b = art_invalidated a"
proof (cases "get_artifact h i")
  case (Inl e)
  then show ?thesis using assms by (auto simp: same_shape_def dest!: spec [of _ i])
next
  case (Inr b)
  then show ?thesis using assms that [of b] by (auto simp: same_shape_def dest!: spec [of _ i])
qed

lemma same_shape_sym: "same_shape g h \<Longrightarrow> same_shape h g"
  by (simp add: same_shape_def)

lemma same_shape_spread: "same_shape g h \<Longrightarrow> spread h A = spread g A"
proof -
  assume sh: "same_shape g h"
  have "overlap h A i = overlap g A i" for i
    unfolding overlap_def by (metis same_shape_get [OF sh] same_shape_get [OF same_shape_sym [OF sh]])
  then show ?thesis using sh by (simp add: spread_def flows_def same_shape_def fun_eq_iff)
qed

lemma reported_would_stop:
  assumes rep: "report_ok h (mut_scopes m) c (mut_supersedes m) rep" and sh: "same_shape g h"
    and task: "get_artifact g (as_task a) = Inr t" "art_kind t = Task" and r: "as_task a \<noteq> mut_supersedes m"
  shows "as_task a \<in> set (rep_invalidated_tasks rep) \<longleftrightarrow> would_stop g m a"
proof -
  let ?A = "mut_scopes m" and ?r = "mut_supersedes m" and ?i = "as_task a"
  obtain t' where t': "get_artifact h ?i = Inr t'" "art_kind t' = Task" "art_scopes t' = art_scopes t"
      "art_invalidated t' = art_invalidated t"
    using same_shape_get [OF sh task(1)] task(2) by metis
  have over: "overlap h ?A ?i" if "(spread h ?A)\<^sup>*\<^sup>* ?r ?i"
    using that r by (cases rule: rtranclp.cases) (auto simp: spread_def)
  have "?i \<in> set (rep_invalidated_tasks rep) \<longleftrightarrow> affected_by h ?A ?r ?i \<and> art_scopes t \<noteq> {}
      \<and> art_scopes t \<subseteq> art_invalidated t \<union> ?A"
    using rep t' by (auto simp: report_ok_def the_artifact_def marked_def Let_def)
  also have "\<dots> \<longleftrightarrow> would_stop g m a"
    using over task(1) same_shape_spread [OF sh, of ?A] by (auto simp: affected_by_def would_stop_def)
  finally show ?thesis .
qed

subsection \<open>From the approver's screen to the authority's answer\<close>

lemma baseline_approved_shape:
  assumes g: "wf_graph (au_graph (cx_authority c))" and b: "get_artifact (au_graph (cx_authority c)) (cx_baseline c) = Inr b"
  shows "same_shape (au_graph (cx_authority c)) (au_graph (cx_authority (baseline_approved role b c)))"
proof -
  have "art_id b = cx_baseline c" by (rule wf_graph_id [OF g b])
  then show ?thesis
    using b by (auto simp: baseline_approved_def update_artifact_def same_shape_def get_artifact_def dict_simps
        split: option.splits)
qed

lemma applied_report:
  assumes ok: "context_ok c" and new: "art_id (mut_decision (mq_mutation q)) \<notin> cx_applied c"
    and run: "approve_mutation_in P th i q c = (Inr res, c')"
  obtains rep s where "mres_report res = Some rep"
    "report_ok (au_graph (cx_authority c)) (mut_scopes (mq_mutation q)) (art_id (mut_decision (mq_mutation q)))
       (mut_supersedes (mq_mutation q)) rep"
    "get_artifact (au_graph (cx_authority c)) (mut_supersedes (mq_mutation q)) = Inr s" "art_kind s = Decision"
proof -
  let ?g = "au_graph (cx_authority c)"
  have fields: "mut_scopes (approved_mutation P q) = mut_scopes (mq_mutation q)"
    "mut_supersedes (approved_mutation P q) = mut_supersedes (mq_mutation q)"
    "art_id (mut_decision (approved_mutation P q)) = art_id (mut_decision (mq_mutation q))"
    by (simp_all add: approved_mutation_def Let_def)
  obtain s where s: "get_artifact ?g (mut_supersedes (mq_mutation q)) = Inr s" "art_kind s = Decision"
    and app: "apply_approved P q c = (Inr res, c')"
    using run new by (auto simp: approve_mutation_in_def Let_def split: if_splits sum.splits)
  have "records_change P q c res c'" using apply_approved_cases [OF ok app new] by auto
  then obtain au where au: "apply_decision_change (approved_mutation P q) (cx_authority c) = (Inr res, au)" "mres_applied res"
    by (auto simp: records_change_def Let_def)
  then have "change_ok (cx_authority c) (approved_mutation P q)"
    by (auto simp: apply_decision_change_def Let_def change_ok_def in_graph_get refused_def
        split: option.splits sum.splits if_splits)
  moreover have "wf_graph ?g" "\<not> g_in_txn ?g" using ok by (simp_all add: context_ok_def)
  ultimately obtain rep where "mres_report res = Some rep"
      "report_ok ?g (mut_scopes (mq_mutation q)) (art_id (mut_decision (mq_mutation q))) (mut_supersedes (mq_mutation q)) rep"
    using apply_decision_change_applies [of "cx_authority c" "approved_mutation P q"] au(1)
    unfolding fields by auto
  then show ?thesis using that s by blast
qed

lemma preview_foretells:
  assumes seed: "validate_graph_seed (context_request w) = Inr u" "new_context P rg (context_request w) = Inr seed"
    and first: "lw_approved w = []"
    and base: "approve_baseline_in th role seed = (Inr v, c)"
    and run: "approve_mutation_in P th i q c = (Inr res, c')"
    and dist: "distinct (map as_id (assigned w))"
    and tasks: "\<forall>a\<in>set (assigned w). \<exists>t. get_artifact (imported_graph w) (as_task a) = Inr t \<and> art_kind t = Task"
  obtains p rep where "preview_of w (mq_mutation q) = Inr p" "mres_report res = Some rep"
    "set (ap_interrupted p) = as_id ` {a\<in>set (assigned w). as_task a \<in> set (rep_invalidated_tasks rep)}"
    "set (ap_preserved p) = as_id ` {a\<in>set (assigned w). as_task a \<notin> set (rep_invalidated_tasks rep)}"
proof -
  let ?g = "imported_graph w"
  note ok = new_context_ok [OF seed]
  have g: "au_graph (cx_authority seed) = ?g"
    using seed(2) first by (auto simp: new_context_def Let_def make_authority_def context_request_def imported_graph_def
        split: if_splits)
  have applied: "cx_applied seed = {}" using ok by (simp add: context_ok_def)
  have wf: "wf_graph ?g" using ok(1) g by (simp add: context_ok_def)
  have "\<exists>b. get_artifact ?g (cx_baseline seed) = Inr b \<and> c = baseline_approved role b seed"
    using base ok(2) approve_baseline_in_cases(1) [OF ok(1) base] g run
    by (auto simp: approve_mutation_in_def Let_def)
  then obtain b where b: "get_artifact ?g (cx_baseline seed) = Inr b" "c = baseline_approved role b seed" by blast
  then have c: "context_ok c" "cx_applied c = {}" "same_shape ?g (au_graph (cx_authority c))"
    using baseline_approved_ok [OF ok(1)] baseline_approved_shape [of seed b role] wf g applied
    by (auto simp: baseline_approved_def)
  obtain rep s where rep: "mres_report res = Some rep" "report_ok (au_graph (cx_authority c)) (mut_scopes (mq_mutation q))
        (art_id (mut_decision (mq_mutation q))) (mut_supersedes (mq_mutation q)) rep"
      and s: "get_artifact (au_graph (cx_authority c)) (mut_supersedes (mq_mutation q)) = Inr s" "art_kind s = Decision"
    using applied_report [OF c(1) _ run] c(2) by (metis empty_iff)
  have "as_task a \<in> set (rep_invalidated_tasks rep) \<longleftrightarrow> would_stop ?g (mq_mutation q) a" if a: "a \<in> set (assigned w)" for a
  proof -
    obtain t where t: "get_artifact ?g (as_task a) = Inr t" "art_kind t = Task" using tasks a by blast
    have "as_task a \<noteq> mut_supersedes (mq_mutation q)"
      using same_shape_get [OF c(3) t(1)] t(2) s by (metis artifact_kind.distinct(5) sum.inject(2))
    from reported_would_stop [OF rep(2) c(3) t this] show ?thesis .
  qed
  note same = this
  obtain p where p: "preview_of w (mq_mutation q) = Inr p"
      "set (ap_interrupted p) = as_id ` {a\<in>set (assigned w). would_stop ?g (mq_mutation q) a}"
      "set (ap_preserved p) = as_id ` {a\<in>set (assigned w). \<not> would_stop ?g (mq_mutation q) a}"
    using preview_of_ok [OF dist, of "mq_mutation q"] by blast
  show ?thesis by (rule that [OF p(1) rep(1)]) (use same p(2,3) in auto)
qed

end
