(* ===== verification/Callwright.thy ===== *)
theory Callwright
  imports Workspace_Model
begin

text \<open>
  Placing a phone call for an authorized action (\<^verbatim>\<open>integrations/callwright.py\<close>). The live client
  reserves the authorization in an attempt store before it calls the provider and records the
  outcome afterwards, so that no authorization is called twice, whatever the provider answers,
  whatever fails in between and however often the call is retried. The store is an interface with
  two providers, in memory and in a file. \<open>CallwrightError\<close> and its subclasses are
  \<open>RuntimeError\<close> here, as they are in the source.
\<close>

subsection \<open>Requests and outcomes\<close>

record call_request =
  cq_auth :: string
  cq_run :: string
  cq_task :: string
  cq_snapshot :: string
  cq_plan_hash :: string
  cq_phone :: string
  cq_brief :: string
  cq_language :: string

definition request_dump :: "call_request \<Rightarrow> pyval" where
  "request_dump q = PDict [(''authorization_id'', PStr (cq_auth q)), (''run_id'', PStr (cq_run q)),
     (''task_id'', PStr (cq_task q)), (''decision_snapshot'', PStr (cq_snapshot q)),
     (''plan_hash'', PStr (cq_plan_hash q)), (''target_phone'', PStr (cq_phone q)), (''brief'', PStr (cq_brief q)),
     (''language'', PStr (cq_language q))]"

datatype attempt_state = At_Reserved | At_Submitted | At_Unknown | At_Rejected

record attempt =
  at_auth :: string
  at_hash :: string
  at_state :: attempt_state
  at_receipt :: "call_receipt option"

definition new_attempt :: "string \<Rightarrow> string \<Rightarrow> attempt" where
  "new_attempt a h = \<lparr>at_auth = a, at_hash = h, at_state = At_Reserved, at_receipt = None\<rparr>"

definition missing_reservation :: py_error where
  "missing_reservation = RuntimeError ''The Callwright attempt reservation could not be found.''"

subsection \<open>The store in memory\<close>

definition mem_reserve :: "string \<Rightarrow> string \<Rightarrow> (attempt dict, bool \<times> attempt) op" where
  "mem_reserve a h d = (case dict_get d a of
     Some old \<Rightarrow> (Inr (False, old), d)
   | None \<Rightarrow> (Inr (True, new_attempt a h), dict_set a (new_attempt a h) d))"

definition mem_transition :: "string \<Rightarrow> attempt_state \<Rightarrow> call_receipt option \<Rightarrow> (attempt dict, attempt) op" where
  "mem_transition a st receipt d = (case dict_get d a of
     None \<Rightarrow> (Inl missing_reservation, d)
   | Some old \<Rightarrow> (let new = old\<lparr>at_state := st, at_receipt := receipt\<rparr> in (Inr new, dict_set a new d)))"

subsection \<open>The store in a file\<close>

text \<open>
  The text of the file, if it exists, and which of the coming writes the operating system refuses; a
  write replaces the file as a whole or not at all.
\<close>

record 'j attempt_file =
  af_text :: "'j option"
  af_refused :: "bool list"

record 'j attempt_codec =
  ac_dump :: "attempt dict \<Rightarrow> 'j"
  ac_load :: "'j \<Rightarrow> attempt dict result"

definition attempt_codec_ok :: "'j attempt_codec \<Rightarrow> bool" where
  "attempt_codec_ok C \<longleftrightarrow> (\<forall>d. wf_dict d \<longrightarrow> ac_load C (ac_dump C d) = Inr d)"

definition file_read :: "'j attempt_codec \<Rightarrow> 'j attempt_file \<Rightarrow> attempt dict result" where
  "file_read C f = (case af_text f of None \<Rightarrow> Inr []
   | Some t \<Rightarrow> (case ac_load C t of
       Inl _ \<Rightarrow> Inl (RuntimeError ''The Callwright attempt store is unavailable or invalid.'')
     | Inr d \<Rightarrow> Inr d))"

definition file_write :: "'j attempt_codec \<Rightarrow> attempt dict \<Rightarrow> ('j attempt_file, unit) op" where
  "file_write C d f = (let g = f\<lparr>af_refused := tl (af_refused f)\<rparr> in
     if af_refused f \<noteq> [] \<and> hd (af_refused f)
     then (Inl (RuntimeError ''The Callwright attempt store could not be persisted.''), g)
     else (Inr (), g\<lparr>af_text := Some (ac_dump C (sort_key fst d))\<rparr>))"

definition file_reserve :: "'j attempt_codec \<Rightarrow> string \<Rightarrow> string \<Rightarrow> ('j attempt_file, bool \<times> attempt) op" where
  "file_reserve C a h = bind_op (read_op (file_read C)) (\<lambda>d.
     case dict_get d a of
       Some old \<Rightarrow> ret_op (False, old)
     | None \<Rightarrow> bind_op (file_write C (dict_set a (new_attempt a h) d)) (\<lambda>_. ret_op (True, new_attempt a h)))"

definition file_transition ::
  "'j attempt_codec \<Rightarrow> string \<Rightarrow> attempt_state \<Rightarrow> call_receipt option \<Rightarrow> ('j attempt_file, attempt) op"
where
  "file_transition C a st receipt = bind_op (read_op (file_read C)) (\<lambda>d.
     case dict_get d a of
       None \<Rightarrow> raise_op missing_reservation
     | Some old \<Rightarrow> (let new = old\<lparr>at_state := st, at_receipt := receipt\<rparr> in
         bind_op (file_write C (dict_set a new d)) (\<lambda>_. ret_op new)))"

subsection \<open>The live client\<close>

text \<open>
  What the provider's endpoint answers: nothing in time, nothing at all, or a status with the call id and
  the status of the call when the body is an object that has them.
\<close>

datatype provider_reply = Call_Timed_Out | Call_Unreachable | Call_Status nat "(string \<times> string) option"

record 'k caller =
  lc_store :: 'k
  lc_posts :: "call_request list"

definition is_ascii_digit :: "char \<Rightarrow> bool" where
  "is_ascii_digit c \<longleftrightarrow> (let n = of_char c :: nat in 48 \<le> n \<and> n \<le> 57)"

definition is_ascii_letter :: "char \<Rightarrow> bool" where
  "is_ascii_letter c \<longleftrightarrow> (let n = of_char c :: nat in (65 \<le> n \<and> n \<le> 90) \<or> (97 \<le> n \<and> n \<le> 122))"

definition e164 :: "string \<Rightarrow> bool" where
  "e164 s \<longleftrightarrow> starts_with ''+'' s \<and> bounded 9 16 s \<and> hd (tl s) \<noteq> CHR ''0'' \<and> (\<forall>c\<in>set (tl s). is_ascii_digit c)"

definition call_id_ok :: "string \<Rightarrow> bool" where
  "call_id_ok s \<longleftrightarrow> bounded 1 256 s \<and> (is_ascii_letter (hd s) \<or> is_ascii_digit (hd s))
     \<and> (\<forall>c\<in>set (tl s). is_ascii_letter c \<or> is_ascii_digit c \<or> c \<in> set ''._:-'')"

text \<open>\<open>quote(call_id, safe="")\<close>.\<close>

definition upper_hex :: "nat \<Rightarrow> char" where
  "upper_hex n = char_of (if n < 10 then 48 + n else 55 + n)"

definition quote_char :: "char \<Rightarrow> string" where
  "quote_char c = (if is_ascii_letter c \<or> is_ascii_digit c \<or> c \<in> set ''_.-~'' then [c]
     else let n = of_char c in [CHR ''%'', upper_hex (n div 16), upper_hex (n mod 16)])"

definition quote :: "string \<Rightarrow> string" where
  "quote s = concat (map quote_char s)"

text \<open>What an answer means: the state to record, then the error to raise or the receipt to return.\<close>

definition error_status :: "nat \<Rightarrow> string option" where
  "error_status s = (if 300 \<le> s \<and> s < 400 then Some ''Callwright returned an unexpected redirect.''
     else if s = 402 then Some ''Callwright has insufficient credits; no call was placed.''
     else if s \<in> {401, 403} then Some ''Callwright rejected the configured API key.''
     else if s = 429 then Some ''Callwright rate-limited the call request.''
     else if 400 \<le> s \<and> s \<le> 599 then Some (''Callwright rejected the call request with HTTP '' @ show_nat s @ ''.'')
     else None)"

definition live_receipt :: "string \<Rightarrow> string \<Rightarrow> call_receipt" where
  "live_receipt call_id status = \<lparr>cr_provider = ''voyagr-callwright'', cr_call = call_id, cr_status = status,
     cr_evidence = ''callwright://calls/'' @ quote call_id\<rparr>"

definition read_reply :: "provider_reply \<Rightarrow> (attempt_state \<times> string) + call_receipt" where
  "read_reply reply = (case reply of
     Call_Timed_Out \<Rightarrow> Inl (At_Unknown,
       ''Callwright timed out with an unknown submission outcome; automatic replay is disabled.'')
   | Call_Unreachable \<Rightarrow> Inl (At_Unknown,
       ''Callwright became unavailable with an unknown submission outcome; automatic replay is disabled.'')
   | Call_Status s body \<Rightarrow> (case error_status s of
       Some message \<Rightarrow> Inl (At_Rejected, message)
     | None \<Rightarrow> (case body of
         Some (call_id, status) \<Rightarrow>
           if call_id_ok call_id \<and> bounded 1 128 status then Inr (live_receipt call_id status)
           else Inl (At_Unknown, ''Callwright returned an invalid create-call response; automatic replay is disabled.'')
       | None \<Rightarrow> Inl (At_Unknown, ''Callwright returned an invalid create-call response; automatic replay is disabled.''))))"

definition on_attempts :: "('k, 'a) op \<Rightarrow> ('k caller, 'a) op" where
  "on_attempts m s = (case m (lc_store s) of (v, k) \<Rightarrow> (v, s\<lparr>lc_store := k\<rparr>))"

text \<open>The call to the provider: whatever it answers, it may have been placed.\<close>

definition post_call :: "provider_reply \<Rightarrow> call_request \<Rightarrow> ('k caller, provider_reply) op" where
  "post_call reply q s = (Inr reply, s\<lparr>lc_posts := lc_posts s @ [q]\<rparr>)"

definition create_call ::
  "platform \<Rightarrow> (string \<Rightarrow> string \<Rightarrow> ('k, bool \<times> attempt) op)
    \<Rightarrow> (string \<Rightarrow> attempt_state \<Rightarrow> call_receipt option \<Rightarrow> ('k, attempt) op)
    \<Rightarrow> provider_reply \<Rightarrow> call_request \<Rightarrow> ('k caller, call_receipt) op"
where
  "create_call P reserve transition reply q =
     (if \<not> e164 (cq_phone q) then
        raise_op (RuntimeError ''The configured live Callwright target must use E.164 format.'')
      else (let a = cq_auth q; h = stable_hash P (request_dump q) in
        bind_op (on_attempts (reserve a h)) (\<lambda>(created, old).
        if \<not> created then
          (if at_hash old \<noteq> h then
             raise_op (RuntimeError ''The authorization ID was already used for a different call request.'')
           else (case (at_state old, at_receipt old) of
             (At_Submitted, Some receipt) \<Rightarrow> ret_op receipt
           | _ \<Rightarrow> raise_op (RuntimeError (''A previous Callwright submission has no confirmed reusable receipt; ''
               @ ''refusing to place another call.''))))
        else bind_op (post_call reply q) (\<lambda>answer.
          case read_reply answer of
            Inl (st, message) \<Rightarrow>
              bind_op (on_attempts (transition a st None)) (\<lambda>_. raise_op (RuntimeError message))
          | Inr receipt \<Rightarrow>
              bind_op (on_attempts (transition a At_Submitted (Some receipt))) (\<lambda>_. ret_op receipt)))))"

subsection \<open>The fixture client\<close>

record fixture_calls =
  fx_requests :: "call_request dict"
  fx_receipts :: "call_receipt dict"

definition fixture_receipt :: "platform \<Rightarrow> string \<Rightarrow> call_receipt" where
  "fixture_receipt P a = (let i = ''CALL-FIXTURE-'' @ upper (take 12 (sha256_hex P a)) in
     \<lparr>cr_provider = ''voyagr-callwright-fixture'', cr_call = i, cr_status = ''queued'',
      cr_evidence = ''callwright://fixture/'' @ i\<rparr>)"

definition fixture_call :: "platform \<Rightarrow> call_request \<Rightarrow> (fixture_calls, call_receipt) op" where
  "fixture_call P q s = (let a = cq_auth q in
     case dict_get (fx_requests s) a of
       Some previous \<Rightarrow>
         if previous \<noteq> q then
           (Inl (RuntimeError ''The authorization ID was already used for a different call request.''), s)
         else (case dict_get (fx_receipts s) a of None \<Rightarrow> (Inl (KeyError a), s) | Some receipt \<Rightarrow> (Inr receipt, s))
     | None \<Rightarrow> (let receipt = fixture_receipt P a in
         (Inr receipt, s\<lparr>fx_requests := dict_set a q (fx_requests s), fx_receipts := dict_set a receipt (fx_receipts s)\<rparr>)))"

subsection \<open>Looking a call up\<close>

record call_status =
  kt_provider :: string
  kt_call :: string
  kt_status :: string
  kt_outcome :: "string option"
  kt_summary :: "string option"
  kt_evidence :: string

definition fixture_get_call :: "string \<Rightarrow> fixture_calls \<Rightarrow> call_status result" where
  "fixture_get_call i s = (case List.find (\<lambda>r. cr_call r = i) (map snd (fx_receipts s)) of
     None \<Rightarrow> Inl (RuntimeError ''The simulated Callwright call was not found.'')
   | Some r \<Rightarrow> Inr \<lparr>kt_provider = cr_provider r, kt_call = cr_call r, kt_status = cr_status r,
       kt_outcome = Some ''fixture'', kt_summary = Some ''Simulated Callwright submission accepted.'',
       kt_evidence = cr_evidence r\<rparr>)"

text \<open>A status lookup has a body of its own: the status, perhaps an outcome and a summary.\<close>

datatype lookup_reply = Look_Timed_Out | Look_Unreachable | Look_Status nat "(string \<times> string option \<times> string option) option"

definition lookup_fields_ok :: "string \<Rightarrow> string option \<Rightarrow> string option \<Rightarrow> bool" where
  "lookup_fields_ok status outcome summary \<longleftrightarrow> bounded 1 128 status
     \<and> (case outcome of None \<Rightarrow> True | Some t \<Rightarrow> length t \<le> 256) \<and> (case summary of None \<Rightarrow> True | Some t \<Rightarrow> length t \<le> 8000)"

definition invalid_lookup :: "'a result" where
  "invalid_lookup = Inl (RuntimeError ''Callwright returned an invalid call-status response.'')"

definition get_call :: "string \<Rightarrow> lookup_reply \<Rightarrow> call_status result" where
  "get_call i reply = (if \<not> call_id_ok i then Inl (RuntimeError ''The Callwright call ID is invalid.'')
     else (case reply of
       Look_Timed_Out \<Rightarrow> Inl (RuntimeError ''Callwright status lookup timed out.'')
     | Look_Unreachable \<Rightarrow> Inl (RuntimeError ''Callwright status lookup is unavailable.'')
     | Look_Status s body \<Rightarrow>
         if 300 \<le> s \<and> s < 400 then Inl (RuntimeError ''Callwright status lookup returned an unexpected redirect.'')
         else if s \<in> {401, 403} then Inl (RuntimeError ''Callwright rejected the configured API key.'')
         else if 400 \<le> s \<and> s \<le> 599 then
           Inl (RuntimeError (''Callwright status lookup failed with HTTP '' @ show_nat s @ ''.''))
         else (case body of None \<Rightarrow> invalid_lookup
           | Some (status, outcome, summary) \<Rightarrow>
               if lookup_fields_ok status outcome summary
               then Inr \<lparr>kt_provider = ''voyagr-callwright'', kt_call = i, kt_status = status, kt_outcome = outcome,
                 kt_summary = summary, kt_evidence = ''callwright://calls/'' @ quote i\<rparr>
               else invalid_lookup)))"

lemma fixture_call_found:
  assumes run: "fixture_call P q s = (Inr receipt, t)"
  shows "\<exists>st. fixture_get_call (cr_call receipt) t = Inr st \<and> kt_call st = cr_call receipt"
proof -
  have "dict_get (fx_receipts t) (cq_auth q) = Some receipt"
    using run by (auto simp: fixture_call_def Let_def dict_simps split: option.splits if_splits)
  then have "receipt \<in> set (map snd (fx_receipts t))" by (force dest: map_of_SomeD)
  then have "List.find (\<lambda>r. cr_call r = cr_call receipt) (map snd (fx_receipts t)) \<noteq> None"
    unfolding find_None_iff by blast
  then obtain r where "List.find (\<lambda>r. cr_call r = cr_call receipt) (map snd (fx_receipts t)) = Some r" by blast
  moreover from this have "cr_call r = cr_call receipt" by (auto simp: find_Some_iff)
  ultimately show ?thesis by (simp add: fixture_get_call_def)
qed

subsection \<open>From an action of the plan to a request\<close>

text \<open>Reading numbers out of texts, and a price with two digits, is the library's.\<close>

record number_texts =
  nt_int :: "string \<Rightarrow> int option"
  nt_float :: "string \<Rightarrow> rat option"
  nt_price :: "rat \<Rightarrow> string"

record call_attributes =
  ca_target :: string
  ca_objective :: string
  ca_time :: "string option"
  ca_party :: "int option"
  ca_deposit :: "rat option"
  ca_instructions :: "string list"
  ca_commitments :: "string list"
  ca_language :: string

fun read_text :: "pyval option \<Rightarrow> string option" where
  "read_text (Some (PStr s)) = Some (strip s)"
| "read_text _ = None"

text \<open>An optional field: absent and \<open>None\<close> are the default, anything else must parse.\<close>

definition optional :: "(pyval \<Rightarrow> 'a option) \<Rightarrow> pyval option \<Rightarrow> 'a option option" where
  "optional parse v = (case v of None \<Rightarrow> Some None | Some PNone \<Rightarrow> Some None | Some x \<Rightarrow> map_option Some (parse x))"

fun read_int :: "number_texts \<Rightarrow> pyval \<Rightarrow> int option" where
  "read_int N (PInt i) = Some i"
| "read_int N (PBool b) = Some (if b then 1 else 0)"
| "read_int N (PFloat r) = (if r = of_int \<lfloor>r\<rfloor> then Some \<lfloor>r\<rfloor> else None)"
| "read_int N (PStr s) = nt_int N s"
| "read_int N _ = None"

fun read_float :: "number_texts \<Rightarrow> pyval \<Rightarrow> rat option" where
  "read_float N (PInt i) = Some (of_int i)"
| "read_float N (PBool b) = Some (if b then 1 else 0)"
| "read_float N (PFloat r) = Some r"
| "read_float N (PStr s) = nt_float N s"
| "read_float N _ = None"

fun read_texts :: "pyval list \<Rightarrow> string list option" where
  "read_texts [] = Some []"
| "read_texts (PStr s # vs) = map_option ((#) (strip s)) (read_texts vs)"
| "read_texts (_ # vs) = None"

definition read_list :: "pyval option \<Rightarrow> string list option" where
  "read_list v = (case v of None \<Rightarrow> Some []
   | Some (PList vs) \<Rightarrow> if length vs \<le> 32 then read_texts vs else None
   | _ \<Rightarrow> None)"

text \<open>\<open>^[A-Za-z]{2,8}(?:-[A-Za-z0-9]{2,8})*$\<close>.\<close>

definition language_ok :: "string \<Rightarrow> bool" where
  "language_ok s \<longleftrightarrow> (let parts = split_on (\<lambda>c. c = CHR ''-'') s in
     bounded 2 8 (hd parts) \<and> (\<forall>c\<in>set (hd parts). is_ascii_letter c)
   \<and> (\<forall>p\<in>set (tl parts). bounded 2 8 p \<and> (\<forall>c\<in>set p. is_ascii_letter c \<or> is_ascii_digit c)))"

definition call_fields :: "string set" where
  "call_fields = {''provider'', ''phone_number_ref'', ''objective'', ''requested_time'', ''party_size'',
     ''max_deposit_usd'', ''instructions'', ''allowed_commitments'', ''language''}"

definition read_attributes :: "number_texts \<Rightarrow> attributes \<Rightarrow> call_attributes option" where
  "read_attributes N d = (let get = dict_get d in
     Option.bind (read_text (get ''phone_number_ref'')) (\<lambda>target.
     Option.bind (read_text (get ''objective'')) (\<lambda>objective.
     Option.bind (optional (\<lambda>v. read_text (Some v)) (get ''requested_time'')) (\<lambda>time.
     Option.bind (optional (read_int N) (get ''party_size'')) (\<lambda>party.
     Option.bind (optional (read_float N) (get ''max_deposit_usd'')) (\<lambda>deposit.
     Option.bind (read_list (get ''instructions'')) (\<lambda>instructions.
     Option.bind (read_list (get ''allowed_commitments'')) (\<lambda>commitments.
     Option.bind (case get ''language'' of None \<Rightarrow> Some ''en'' | v \<Rightarrow> read_text v) (\<lambda>language.
     if fst ` set d \<subseteq> call_fields \<and> get ''provider'' = Some (PStr ''voyagr-callwright'')
        \<and> bounded 1 128 target \<and> bounded 1 2000 objective
        \<and> (case time of None \<Rightarrow> True | Some t \<Rightarrow> length t \<le> 128)
        \<and> (case party of None \<Rightarrow> True | Some n \<Rightarrow> 1 \<le> n \<and> n \<le> 100)
        \<and> (case deposit of None \<Rightarrow> True | Some x \<Rightarrow> 0 \<le> x)
        \<and> bounded 2 35 language \<and> language_ok language
     then Some \<lparr>ca_target = target, ca_objective = objective, ca_time = time, ca_party = party, ca_deposit = deposit,
       ca_instructions = instructions, ca_commitments = commitments, ca_language = language\<rparr>
     else None)))))))))"

definition render_brief :: "number_texts \<Rightarrow> call_attributes \<Rightarrow> string" where
  "render_brief N c = join [CHR 0x0A] ([ca_objective c]
     @ (case ca_time c of None \<Rightarrow> [] | Some t \<Rightarrow> [''Requested time: '' @ t @ ''.''])
     @ (case ca_party c of None \<Rightarrow> [] | Some n \<Rightarrow> [''Party size: '' @ show_int n @ ''.''])
     @ (case ca_deposit c of None \<Rightarrow> []
        | Some x \<Rightarrow> [if x = 0 then ''Do not agree to any deposit or payment.''
            else ''Do not agree to a deposit above $'' @ nt_price N x @ '' USD.''])
     @ (if ca_instructions c = [] then [] else ''Instructions:'' # map (\<lambda>i. ''- '' @ i) (ca_instructions c))
     @ [if ca_commitments c \<noteq> [] then ''The only allowed commitments are: '' @ join '', '' (ca_commitments c) @ ''.''
        else ''Do not make any commitment beyond gathering information.''])"

definition select_callwright_action :: "agent_plan \<Rightarrow> plan_action option result" where
  "select_callwright_action p =
     (case filter (\<lambda>a. dict_get (act_attrs a) ''provider'' = Some (PStr ''voyagr-callwright'')) (plan_actions p) of
        [] \<Rightarrow> Inr None
      | [a] \<Rightarrow> Inr (Some a)
      | _ \<Rightarrow> Inl (RuntimeError ''A plan may contain at most one Callwright action per execution.''))"

definition build_call_request ::
  "number_texts \<Rightarrow> plan_action \<Rightarrow> grant_payload \<Rightarrow> string dict \<Rightarrow> call_request result"
where
  "build_call_request N a g targets = (case read_attributes N (act_attrs a) of
     None \<Rightarrow> Inl (RuntimeError ''The authorized Callwright action is missing or has invalid instructions.'')
   | Some c \<Rightarrow> (case dict_get targets (ca_target c) of
       None \<Rightarrow> Inl (RuntimeError ''The authorized Callwright target is not configured.'')
     | Some phone \<Rightarrow>
         if phone = [] then Inl (RuntimeError ''The authorized Callwright target is not configured.'')
         else Inr \<lparr>cq_auth = gp_auth_id g, cq_run = gp_run g, cq_task = gp_task g, cq_snapshot = gp_snapshot g,
           cq_plan_hash = gp_plan_hash g, cq_phone = phone, cq_brief = render_brief N c,
           cq_language = ca_language c\<rparr>))"

subsection \<open>The interface of the store\<close>

locale attempt_store =
  fixes ok :: "'k \<Rightarrow> bool"
    and recorded :: "'k \<Rightarrow> string \<Rightarrow> attempt option"
    and reserve :: "string \<Rightarrow> string \<Rightarrow> ('k, bool \<times> attempt) op"
    and transition :: "string \<Rightarrow> attempt_state \<Rightarrow> call_receipt option \<Rightarrow> ('k, attempt) op"
  assumes reserve_known: "\<lbrakk>ok k; recorded k a = Some en\<rbrakk> \<Longrightarrow> reserve a h k = (Inr (False, en), k)"
    and reserve_new: "\<lbrakk>ok k; recorded k a = None; reserve a h k = (r, k')\<rbrakk> \<Longrightarrow> ok k' \<and>
      (case r of Inl e \<Rightarrow> recorded k' = recorded k
       | Inr (created, en) \<Rightarrow> created \<and> en = new_attempt a h \<and> recorded k' = (recorded k)(a \<mapsto> en))"
    and transition_law: "\<lbrakk>ok k; recorded k a = Some old; transition a st receipt k = (v, k')\<rbrakk> \<Longrightarrow> ok k' \<and>
      (case v of Inl e \<Rightarrow> recorded k' = recorded k
       | Inr en \<Rightarrow> en = old\<lparr>at_state := st, at_receipt := receipt\<rparr> \<and> recorded k' = (recorded k)(a \<mapsto> en))"

interpretation mem_attempts: attempt_store wf_dict dict_get mem_reserve mem_transition
  by unfold_locales (auto simp: mem_reserve_def mem_transition_def Let_def update_conv split: sum.splits)

definition file_ok :: "'j attempt_codec \<Rightarrow> 'j attempt_file \<Rightarrow> bool" where
  "file_ok C f \<longleftrightarrow> attempt_codec_ok C \<and> (\<exists>d. file_read C f = Inr d \<and> wf_dict d)"

definition file_recorded :: "'j attempt_codec \<Rightarrow> 'j attempt_file \<Rightarrow> string \<Rightarrow> attempt option" where
  "file_recorded C f a = (case file_read C f of Inl _ \<Rightarrow> None | Inr d \<Rightarrow> dict_get d a)"

lemma sort_key_dict:
  assumes "wf_dict d"
  shows "wf_dict (sort_key fst d) \<and> dict_get (sort_key fst d) = dict_get d"
proof -
  have "mset (map fst (sort_key fst d)) = mset (map fst d)" by (simp add: mset_map)
  then have wf: "wf_dict (sort_key fst d)" using assms by (metis mset_eq_imp_distinct_iff)
  then show ?thesis using assms by (intro conjI map_of_inject_set [THEN iffD2]) auto
qed

lemma file_write_outcome:
  assumes ok: "file_ok C f" and d: "wf_dict d" and run: "file_write C d f = (r, g)"
  shows "case r of Inl e \<Rightarrow> file_ok C g \<and> file_recorded C g = file_recorded C f
    | Inr _ \<Rightarrow> file_ok C g \<and> file_recorded C g = dict_get d"
proof -
  have "ac_load C (ac_dump C (sort_key fst d)) = Inr (sort_key fst d)"
    using ok sort_key_dict [OF d] by (simp add: file_ok_def attempt_codec_ok_def)
  then show ?thesis
    using ok run sort_key_dict [OF d]
    by (auto simp: file_write_def Let_def file_ok_def file_recorded_def file_read_def fun_eq_iff split: if_splits)
qed

interpretation file_attempts: attempt_store "file_ok C" "file_recorded C" "file_reserve C" "file_transition C"
  for C :: "'j attempt_codec"
proof unfold_locales
  fix k :: "'j attempt_file" and a en h r k'
  assume ok: "file_ok C k"
  then obtain d where d: "file_read C k = Inr d" "wf_dict d" by (auto simp: file_ok_def)
  then have rec: "file_recorded C k = dict_get d" by (simp add: file_recorded_def fun_eq_iff)
  show "file_recorded C k a = Some en \<Longrightarrow> file_reserve C a h k = (Inr (False, en), k)"
    using d rec by (simp add: file_reserve_def bind_op_def)
  show "file_ok C k' \<and> (case r of Inl e \<Rightarrow> file_recorded C k' = file_recorded C k
       | Inr (created, en) \<Rightarrow> created \<and> en = new_attempt a h \<and> file_recorded C k' = (file_recorded C k)(a \<mapsto> en))"
    if none: "file_recorded C k a = None" and run: "file_reserve C a h k = (r, k')"
  proof -
    let ?d = "dict_set a (new_attempt a h) d"
    obtain v g where w: "file_write C ?d k = (v, g)" by (rule prod.exhaust)
    then have "k' = g" "r = (case v of Inl e \<Rightarrow> Inl e | Inr _ \<Rightarrow> Inr (True, new_attempt a h))"
      using run d none rec by (auto simp: file_reserve_def bind_op_def split: sum.splits)
    then show ?thesis
      using file_write_outcome [OF ok _ w] d(2) rec by (cases v) (auto simp: update_conv)
  qed
  fix old st receipt
  show "file_ok C k' \<and> (case r of Inl e \<Rightarrow> file_recorded C k' = file_recorded C k
       | Inr en \<Rightarrow> en = old\<lparr>at_state := st, at_receipt := receipt\<rparr> \<and> file_recorded C k' = (file_recorded C k)(a \<mapsto> en))"
    if some: "file_recorded C k a = Some old" and run: "file_transition C a st receipt k = (r, k')" for r k'
  proof -
    let ?new = "old\<lparr>at_state := st, at_receipt := receipt\<rparr>"
    obtain v g where w: "file_write C (dict_set a ?new d) k = (v, g)" by (rule prod.exhaust)
    then have "k' = g" "r = (case v of Inl e \<Rightarrow> Inl e | Inr _ \<Rightarrow> Inr ?new)"
      using run d some rec by (auto simp: file_transition_def bind_op_def Let_def split: sum.splits)
    then show ?thesis
      using file_write_outcome [OF ok _ w] d(2) rec by (cases v) (auto simp: update_conv)
  qed
qed

subsection \<open>At most one call for an authorization\<close>

definition calls_of :: "string \<Rightarrow> 'k caller \<Rightarrow> call_request list" where
  "calls_of a s = filter (\<lambda>q. cq_auth q = a) (lc_posts s)"

context attempt_store
begin

text \<open>Every placed call is recorded, once, under its request.\<close>

definition calls_ok :: "platform \<Rightarrow> 'k caller \<Rightarrow> bool" where
  "calls_ok P s \<longleftrightarrow> ok (lc_store s) \<and> (\<forall>a. calls_of a s = []
     \<or> (\<exists>q en. calls_of a s = [q] \<and> recorded (lc_store s) a = Some en \<and> at_hash en = stable_hash P (request_dump q)))"

abbreviation live_call where
  "live_call P \<equiv> create_call P reserve transition"

lemma call_cases:
  assumes inv: "calls_ok P s" and run: "live_call P reply q s = (r, t)"
  obtains (kept) "lc_posts t = lc_posts s" "recorded (lc_store t) = recorded (lc_store s)" "ok (lc_store t)"
      "\<And>receipt. r = Inr receipt \<Longrightarrow> \<exists>old. recorded (lc_store s) (cq_auth q) = Some old
         \<and> at_hash old = stable_hash P (request_dump q) \<and> at_state old = At_Submitted \<and> at_receipt old = Some receipt"
  | (placed) en where "lc_posts t = lc_posts s @ [q]" "recorded (lc_store s) (cq_auth q) = None" "ok (lc_store t)"
      "recorded (lc_store t) = (recorded (lc_store s))(cq_auth q \<mapsto> en)" "at_hash en = stable_hash P (request_dump q)"
      "\<And>receipt. r = Inr receipt \<Longrightarrow> at_state en = At_Submitted \<and> at_receipt en = Some receipt"
proof (cases "e164 (cq_phone q)")
  case False
  then have "t = s" "\<exists>e. r = Inl e" using run by (auto simp: create_call_def)
  then show ?thesis using inv kept by (auto simp: calls_ok_def)
next
  case phone: True
  let ?a = "cq_auth q" and ?h = "stable_hash P (request_dump q)"
  have ok: "ok (lc_store s)" using inv by (simp add: calls_ok_def)
  show ?thesis
  proof (cases "recorded (lc_store s) ?a")
    case (Some old)
    have "on_attempts (reserve ?a ?h) s = (Inr (False, old), s)"
      using reserve_known [OF ok Some] by (simp add: on_attempts_def)
    then have "t = s" "\<And>receipt. r = Inr receipt \<Longrightarrow> at_hash old = ?h \<and> at_state old = At_Submitted \<and> at_receipt old = Some receipt"
      using run phone by (auto simp: create_call_def Let_def bind_op_def split: if_splits attempt_state.splits option.splits)
    then show ?thesis using kept ok Some by blast
  next
    case None
    obtain v k where res: "reserve ?a ?h (lc_store s) = (v, k)" by (rule prod.exhaust)
    note law = reserve_new [OF ok None res]
    show ?thesis
    proof (cases v)
      case (Inl e)
      then have "t = s\<lparr>lc_store := k\<rparr>" "r = Inl e"
        using run phone res by (auto simp: create_call_def Let_def bind_op_def on_attempts_def)
      then show ?thesis using kept law Inl by auto
    next
      case (Inr ca)
      then have v: "v = Inr (True, new_attempt ?a ?h)" and k: "ok k"
          "recorded k = (recorded (lc_store s))(?a \<mapsto> new_attempt ?a ?h)"
        using law by (auto split: prod.splits)
      let ?s = "s\<lparr>lc_store := k, lc_posts := lc_posts s @ [q]\<rparr>"
      obtain st receipt out where out: "(case read_reply reply of
            Inl (st, message) \<Rightarrow> (st, None, Inl (RuntimeError message))
          | Inr receipt \<Rightarrow> (At_Submitted, Some receipt, Inr receipt)) = (st, receipt, out)" by (rule prod_cases3)
      obtain w k' where tr: "transition ?a st receipt k = (w, k')" by (rule prod.exhaust)
      have step: "on_attempts (reserve ?a ?h) s = (Inr (True, new_attempt ?a ?h), s\<lparr>lc_store := k\<rparr>)"
        using res v by (simp add: on_attempts_def)
      have mark: "on_attempts (transition ?a st receipt) ?s = (w, ?s\<lparr>lc_store := k'\<rparr>)"
        using tr by (simp add: on_attempts_def)
      have "(r, t) = (case w of Inl e \<Rightarrow> Inl e | Inr _ \<Rightarrow> out, ?s\<lparr>lc_store := k'\<rparr>)"
      proof (cases "read_reply reply")
        case (Inl b)
        then have "st = fst b" "receipt = None" "out = Inl (RuntimeError (snd b))" using out by (auto split: prod.splits)
        then show ?thesis using run [symmetric] phone step mark Inl
          by (cases b; cases w) (simp_all add: create_call_def Let_def bind_op_def post_call_def)
      next
        case (Inr rc)
        then have "st = At_Submitted" "receipt = Some rc" "out = Inr rc" using out by simp_all
        then show ?thesis using run [symmetric] phone step mark Inr
          by (cases w) (simp_all add: create_call_def Let_def bind_op_def post_call_def)
      qed
      then have t: "t = ?s\<lparr>lc_store := k'\<rparr>" and r: "r = (case w of Inl e \<Rightarrow> Inl e | Inr _ \<Rightarrow> out)" by simp_all
      have "recorded k ?a = Some (new_attempt ?a ?h)" using k by simp
      note law2 = transition_law [OF k(1) this tr]
      show ?thesis
      proof (rule placed [of "case w of Inl e \<Rightarrow> new_attempt ?a ?h | Inr en \<Rightarrow> en"])
        show "recorded (lc_store t) = (recorded (lc_store s))(?a \<mapsto> (case w of Inl e \<Rightarrow> new_attempt ?a ?h | Inr en \<Rightarrow> en))"
          using law2 k(2) t by (auto split: sum.splits)
        fix rc
        assume "r = Inr rc"
        then show "at_state (case w of Inl e \<Rightarrow> new_attempt ?a ?h | Inr en \<Rightarrow> en) = At_Submitted
            \<and> at_receipt (case w of Inl e \<Rightarrow> new_attempt ?a ?h | Inr en \<Rightarrow> en) = Some rc"
          using law2 r out by (auto split: sum.splits)
      qed (use t law2 None in \<open>auto simp: new_attempt_def split: sum.splits\<close>)
    qed
  qed
qed

lemma call_keeps_ok:
  assumes inv: "calls_ok P s" and run: "live_call P reply q s = (r, t)"
  shows "calls_ok P t"
  using inv run
proof (cases rule: call_cases)
  case kept
  then show ?thesis using inv by (simp add: calls_ok_def calls_of_def)
next
  case (placed en)
  have "calls_of (cq_auth q) s = []" using inv placed(2) unfolding calls_ok_def by (metis option.distinct(1))
  moreover have "calls_of a t = calls_of a s @ (if cq_auth q = a then [q] else [])" for a
    by (simp add: calls_of_def placed(1))
  ultimately show ?thesis using inv placed(3-5) unfolding calls_ok_def by (auto simp: all_conj_distrib)
qed

lemma at_most_one_call:
  assumes "calls_ok P s" and "t = fold (\<lambda>(reply, q) s. snd (live_call P reply q s)) calls s"
  shows "calls_ok P t \<and> length (calls_of a t) \<le> 1"
proof -
  have "calls_ok P (fold (\<lambda>(reply, q) s. snd (live_call P reply q s)) calls s)" using assms(1)
    by (induction calls arbitrary: s) (auto intro: call_keeps_ok prod.collapse [symmetric] split: prod.splits)
  then have "calls_ok P t" using assms(2) by simp
  then show ?thesis unfolding calls_ok_def by (metis One_nat_def le0 length_Cons list.size(3) order_refl)
qed

text \<open>Records of an authorization do not change once there; so a receipt, once returned, is the answer for good.\<close>

lemma calls_keep_record:
  assumes "calls_ok P s" and "recorded (lc_store s) a = Some en"
  shows "recorded (lc_store (fold (\<lambda>(reply, q) s. snd (live_call P reply q s)) calls s)) a = Some en
    \<and> calls_ok P (fold (\<lambda>(reply, q) s. snd (live_call P reply q s)) calls s)"
  using assms
proof (induction calls arbitrary: s)
  case (Cons c calls)
  obtain reply q where c: "c = (reply, q)" by (rule prod.exhaust)
  obtain r t where run: "live_call P reply q s = (r, t)" by (rule prod.exhaust)
  from Cons.prems(1) run have "recorded (lc_store t) a = Some en"
    by (cases rule: call_cases) (use Cons.prems(2) in auto)
  then show ?case using Cons.IH [OF call_keeps_ok [OF Cons.prems(1) run]] by (simp add: c run)
qed simp

lemma receipt_stands:
  assumes inv: "calls_ok P s" and run: "live_call P reply q s = (Inr receipt, t)"
    and u: "u = fold (\<lambda>(reply, q) s. snd (live_call P reply q s)) calls t"
  shows "live_call P reply' q u = (Inr receipt, u)"
proof -
  have phone: "e164 (cq_phone q)" using run by (auto simp: create_call_def split: if_splits)
  from inv run obtain en where en: "recorded (lc_store t) (cq_auth q) = Some en" "at_hash en = stable_hash P (request_dump q)"
      "at_state en = At_Submitted" "at_receipt en = Some receipt"
    by (cases rule: call_cases) auto
  have "recorded (lc_store u) (cq_auth q) = Some en" "ok (lc_store u)"
    using calls_keep_record [OF call_keeps_ok [OF inv run] en(1), of calls] by (simp_all add: u calls_ok_def)
  then have "on_attempts (reserve (cq_auth q) (stable_hash P (request_dump q))) u = (Inr (False, en), u)"
    using reserve_known by (simp add: on_attempts_def)
  then show ?thesis using phone en by (simp add: create_call_def Let_def bind_op_def)
qed

end

end
