(* ===== verification/Transport.thy ===== *)
theory Transport
  imports Preview Callwright
begin

text \<open>
  The HTTP boundary between the agent service, the authority and the executor: the mapping of replies to
  errors in \<^verbatim>\<open>workspaces/transport.py\<close> and \<^verbatim>\<open>services/support.py\<close>, the live-workspace endpoints of
  \<^verbatim>\<open>services/authority_api.py\<close>, and \<open>execute\<close> of \<^verbatim>\<open>services/executor_api.py\<close>. What the network does to a
  call is a schedule of faults: a request can be lost before it is served and a reply after.
\<close>

subsection \<open>Replies\<close>

text \<open>A reply as \<open>httpx\<close> and the model validation present it: a failure has a status and perhaps a code.\<close>

datatype 'a reply = Timed_Out | Unreachable | Failed nat "string option" | Garbled | Replied 'a

definition post_authority_model :: "'a reply \<Rightarrow> 'a result" where
  "post_authority_model reply = (case reply of
     Timed_Out \<Rightarrow> Inl (ApiFailure 504 ''AUTHORITY_TIMEOUT'' True)
   | Unreachable \<Rightarrow> Inl (ApiFailure 503 ''AUTHORITY_UNAVAILABLE'' True)
   | Failed s code \<Rightarrow>
       if s \<in> {404, 409, 422} then Inl (ApiFailure s (case code of None \<Rightarrow> ''AUTHORITY_REJECTED'' | Some c \<Rightarrow> c) False)
       else Inl (ApiFailure 502 ''AUTHORITY_ERROR'' (500 \<le> s))
   | Garbled \<Rightarrow> Inl (ApiFailure 502 ''AUTHORITY_INVALID_RESPONSE'' False)
   | Replied v \<Rightarrow> Inr v)"

definition read_context_reply :: "'a reply \<Rightarrow> 'a option result" where
  "read_context_reply reply = (case reply of
     Timed_Out \<Rightarrow> Inl (ApiFailure 504 ''AUTHORITY_TIMEOUT'' True)
   | Unreachable \<Rightarrow> Inl (ApiFailure 503 ''AUTHORITY_UNAVAILABLE'' True)
   | Failed s code \<Rightarrow> if s = 404 then Inr None else Inl (ApiFailure 502 ''AUTHORITY_ERROR'' (500 \<le> s))
   | Garbled \<Rightarrow> Inl (ApiFailure 502 ''AUTHORITY_INVALID_RESPONSE'' False)
   | Replied v \<Rightarrow> Inr (Some v))"

definition delete_reply :: "'a reply \<Rightarrow> unit result" where
  "delete_reply reply = (case reply of
     Timed_Out \<Rightarrow> Inl (ApiFailure 504 ''AUTHORITY_TIMEOUT'' True)
   | Unreachable \<Rightarrow> Inl (ApiFailure 503 ''AUTHORITY_UNAVAILABLE'' True)
   | Failed s code \<Rightarrow> if s = 404 then Inr () else Inl (ApiFailure 502 ''AUTHORITY_ERROR'' (500 \<le> s))
   | _ \<Rightarrow> Inr ())"

definition post_model :: "string \<Rightarrow> 'a reply \<Rightarrow> 'a result" where
  "post_model upstream reply = (case reply of
     Timed_Out \<Rightarrow> Inl (ApiFailure 504 (upstream @ ''_TIMEOUT'') True)
   | Unreachable \<Rightarrow> Inl (ApiFailure 503 (upstream @ ''_UNAVAILABLE'') True)
   | Failed s code \<Rightarrow> Inl (ApiFailure 502 (upstream @ ''_ERROR'') (500 \<le> s \<or> s \<in> {408, 429}))
   | Garbled \<Rightarrow> Inl (ApiFailure 502 (upstream @ ''_INVALID_RESPONSE'') False)
   | Replied v \<Rightarrow> Inr v)"

subsection \<open>Serving a call\<close>

definition internal_service_token :: "platform \<Rightarrow> string \<Rightarrow> string" where
  "internal_service_token P secret = hex_text (hmac_sha256 P secret ''writai:internal-authority-write:v1'')"

definition trusted :: "platform \<Rightarrow> string \<Rightarrow> string \<Rightarrow> bool" where
  "trusted P secret supplied \<longleftrightarrow> supplied \<noteq> [] \<and> supplied = internal_service_token P secret"

definition require_internal_service :: "platform \<Rightarrow> string \<Rightarrow> string \<Rightarrow> unit result" where
  "require_internal_service P secret supplied = (if trusted P secret supplied then Inr ()
     else Inl (ApiFailure 403 ''INTERNAL_SERVICE_AUTH_REQUIRED'' False))"

text \<open>What the error handlers and the outermost middleware make of an exception.\<close>

definition error_reply :: "py_error \<Rightarrow> 'a reply" where
  "error_reply e = (case e of
     NotFound m \<Rightarrow> Failed 404 (Some ''WORKSPACE_CONTEXT_NOT_FOUND'')
   | StateConflict m \<Rightarrow> Failed 409 (Some ''WORKSPACE_CONTEXT_CONFLICT'')
   | ApiFailure s code r \<Rightarrow> Failed s (Some code)
   | _ \<Rightarrow> Failed 500 (Some ''INTERNAL_ERROR''))"

definition reply_of :: "'a result \<Rightarrow> 'a reply" where
  "reply_of r = (case r of Inl e \<Rightarrow> error_reply e | Inr v \<Rightarrow> Replied v)"

definition serve :: "('x, 'a) op \<Rightarrow> 'x \<Rightarrow> 'a reply \<times> 'x" where
  "serve m x = (case m x of (r, y) \<Rightarrow> (reply_of r, y))"

definition guarded :: "platform \<Rightarrow> string \<Rightarrow> string \<Rightarrow> ('x, 'a) op \<Rightarrow> ('x, 'a) op" where
  "guarded P secret supplied m = bind_op (read_op (\<lambda>_. require_internal_service P secret supplied)) (\<lambda>_. m)"

text \<open>The one endpoint that anyone may read; a stranger sees neither Slack identities nor approval evidence.\<close>

definition public_state :: "context_view \<Rightarrow> context_view" where
  "public_state v = v\<lparr>cs_slack := None, cs_evidence := []\<rparr>"

definition workspace_state_endpoint ::
  "platform \<Rightarrow> string \<Rightarrow> string \<Rightarrow> string \<Rightarrow> (registry, context_view) op"
where
  "workspace_state_endpoint P secret supplied i = bind_op (read_state i) (\<lambda>v.
     ret_op (if trusted P secret supplied then v else public_state v))"

subsection \<open>The executor\<close>

datatype context_kind = Scenario_Kind | Workspace_Kind

datatype verify_route = Workspace_Context string | Scenario_Context string | Whole_Authority

definition verification_route :: "string option \<Rightarrow> context_kind \<Rightarrow> verify_route" where
  "verification_route ctx kind = (case ctx of
     Some i \<Rightarrow> if i = [] then Whole_Authority else if kind = Workspace_Kind then Workspace_Context i else Scenario_Context i
   | None \<Rightarrow> Whole_Authority)"

record executor_config =
  ec_provider :: string
  ec_live :: bool
  ec_key :: "string option"
  ec_phone :: "string option"

definition not_applied :: "verification_code \<Rightarrow> string \<Rightarrow> execution_mode option \<Rightarrow> execution_result" where
  "not_applied code reason mode = \<lparr>ex_applied = False, ex_reason = reason, ex_code = code, ex_url = None,
     ex_mode = mode, ex_receipt = None\<rparr>"

definition not_submitted :: "verification_code \<Rightarrow> py_error \<Rightarrow> execution_mode option \<Rightarrow> execution_result" where
  "not_submitted code e mode =
     not_applied code (''Grant verified, but Callwright execution was not submitted: '' @ error_text e) mode"

definition truthy :: "string option \<Rightarrow> bool" where
  "truthy v \<longleftrightarrow> (case v of None \<Rightarrow> False | Some s \<Rightarrow> s \<noteq> [])"

text \<open>What \<open>except CallwrightError\<close> catches.\<close>

definition callwright_error :: "py_error \<Rightarrow> bool" where
  "callwright_error e \<longleftrightarrow> (case e of RuntimeError m \<Rightarrow> True | _ \<Rightarrow> False)"

text \<open>Where a call goes and in which mode, or why it may not.\<close>

definition call_target :: "executor_config \<Rightarrow> (string \<times> execution_mode option) + (execution_mode \<times> string)" where
  "call_target C = (
     if ec_provider C = ''callwright'' then
       (if \<not> ec_live C then Inl (''Grant verified, but live Callwright calls are disabled by configuration.'', Some Live)
        else if \<not> truthy (ec_key C) \<or> \<not> truthy (ec_phone C) then
          Inl (''Grant verified, but live Callwright credentials and the demo target are incomplete.'', Some Live)
        else Inr (Live, the (ec_phone C)))
     else if ec_provider C = ''fixture'' then
       Inr (Simulated, if truthy (ec_phone C) then the (ec_phone C) else ''fixture://demo-venue'')
     else Inl (''Grant verified, but the execution provider is not supported.'', None))"

definition submit_call ::
  "number_texts \<Rightarrow> (call_request \<Rightarrow> ('k, call_receipt) op) \<Rightarrow> grant_payload \<Rightarrow> plan_action \<Rightarrow> string \<Rightarrow> ('k, call_receipt) op"
where
  "submit_call N client g a phone = bind_op (read_op (\<lambda>_. build_call_request N a g [(''demo-venue'', phone)])) client"

definition execute_verified ::
  "number_texts \<Rightarrow> executor_config \<Rightarrow> (call_request \<Rightarrow> ('k, call_receipt) op) \<Rightarrow> verification_code \<Rightarrow> grant_payload
    \<Rightarrow> agent_plan \<Rightarrow> ('k, execution_result) op"
where
  "execute_verified N C client code g plan k = (case select_callwright_action plan of
     Inl e \<Rightarrow> (Inr (not_submitted code e None), k)
   | Inr None \<Rightarrow> (Inr \<lparr>ex_applied = True, ex_reason = ''Grant verified; mock pull request created.'', ex_code = code,
       ex_url = Some ''https://example.invalid/writai/pull/42'', ex_mode = None, ex_receipt = None\<rparr>, k)
   | Inr (Some a) \<Rightarrow> (case call_target C of
       Inl (reason, mode) \<Rightarrow> (Inr (not_applied code reason mode), k)
     | Inr (mode, phone) \<Rightarrow> (case submit_call N client g a phone k of
         (Inl e, k') \<Rightarrow> (if callwright_error e then Inr (not_submitted code e (Some mode)) else Inl e, k')
       | (Inr receipt, k') \<Rightarrow> (Inr \<lparr>ex_applied = True, ex_reason = (if mode = Live
           then ''Grant verified; Callwright call submitted.'' else ''Grant verified; simulated Callwright call submitted.''),
           ex_code = code, ex_url = None, ex_mode = Some mode, ex_receipt = Some receipt\<rparr>, k'))))"

definition execute_verification ::
  "number_texts \<Rightarrow> executor_config \<Rightarrow> (call_request \<Rightarrow> ('k, call_receipt) op) \<Rightarrow> agent_plan \<Rightarrow> verification_result
    \<Rightarrow> ('k, execution_result) op"
where
  "execute_verification N C client plan v =
     (if \<not> vr_valid v then ret_op (not_applied (vr_code v) (vr_reason v) None)
      else (case vr_payload v of
        None \<Rightarrow> raise_op (ApiFailure 502 ''AUTHORITY_INVALID_RESPONSE'' False)
      | Some g \<Rightarrow> execute_verified N C client (vr_code v) g plan))"

subsection \<open>The two services behind the network\<close>

datatype fault = Fine | Lost_Request | No_Route | Lost_Reply | Broken_Reply

record 'k remote =
  rm_registry :: registry
  rm_client :: 'k
  rm_faults :: "fault list"

definition on_registry :: "(registry, 'a) op \<Rightarrow> ('k remote, 'a) op" where
  "on_registry m x = (case m (rm_registry x) of (r, g) \<Rightarrow> (r, x\<lparr>rm_registry := g\<rparr>))"

definition on_client :: "('k, 'a) op \<Rightarrow> ('k remote, 'a) op" where
  "on_client m x = (case m (rm_client x) of (r, k) \<Rightarrow> (r, x\<lparr>rm_client := k\<rparr>))"

definition carry :: "('k remote \<Rightarrow> 'a reply \<times> 'k remote) \<Rightarrow> 'k remote \<Rightarrow> 'a reply \<times> 'k remote" where
  "carry call x = (case rm_faults x of [] \<Rightarrow> call x
   | f # fs \<Rightarrow> (let y = x\<lparr>rm_faults := fs\<rparr> in case f of
       Fine \<Rightarrow> call y | Lost_Request \<Rightarrow> (Timed_Out, y) | No_Route \<Rightarrow> (Unreachable, y)
     | Lost_Reply \<Rightarrow> (Timed_Out, snd (call y)) | Broken_Reply \<Rightarrow> (Garbled, snd (call y))))"

definition ask :: "('a reply \<Rightarrow> 'b result) \<Rightarrow> ('k remote, 'a) op \<Rightarrow> ('k remote, 'b) op" where
  "ask meaning m x = (case carry (serve m) x of (reply, y) \<Rightarrow> (meaning reply, y))"

record site =
  st_agent :: string
  st_authority :: string
  st_executor :: string
  st_numbers :: number_texts
  st_config :: executor_config

definition to_authority :: "platform \<Rightarrow> site \<Rightarrow> string \<Rightarrow> (registry, 'a) op \<Rightarrow> ('k remote, 'a) op" where
  "to_authority P S caller m = on_registry (guarded P (st_authority S) (internal_service_token P caller) m)"

definition execute ::
  "platform \<Rightarrow> int \<Rightarrow> string \<Rightarrow> site \<Rightarrow> (call_request \<Rightarrow> ('k, call_receipt) op) \<Rightarrow> string \<Rightarrow> string
    \<Rightarrow> string \<Rightarrow> string \<Rightarrow> agent_plan \<Rightarrow> ('k remote, execution_result) op"
where
  "execute P now uid S client ctx token run task plan =
     bind_op (ask (post_model ''AUTHORITY'') (to_authority P S (st_executor S) (verify P now uid ctx token run task plan))) (\<lambda>v.
     on_client (execute_verification (st_numbers S) (st_config S) client plan v))"

definition http_transport ::
  "platform \<Rightarrow> int \<Rightarrow> string \<Rightarrow> site \<Rightarrow> (call_request \<Rightarrow> ('k, call_receipt) op) \<Rightarrow> 'k remote transport"
where
  "http_transport P now uid S client = \<lparr>
     tr_state = (\<lambda>i. ask read_context_reply
       (on_registry (workspace_state_endpoint P (st_authority S) (internal_service_token P (st_agent S)) i))),
     tr_create = (\<lambda>q. bind_op (read_op (\<lambda>_. validate_graph_seed q)) (\<lambda>_.
       ask post_authority_model (to_authority P S (st_agent S) (create_context P q)))),
     tr_delete = (\<lambda>i. ask delete_reply (to_authority P S (st_agent S) (delete_context i))),
     tr_baseline = (\<lambda>i q. ask post_authority_model (to_authority P S (st_agent S) (approve_baseline i q))),
     tr_mutation = (\<lambda>i q. ask post_authority_model (to_authority P S (st_agent S) (approve_mutation P i q))),
     tr_authorize = (\<lambda>i run task plan. ask (post_model ''AUTHORITY'')
       (to_authority P S (st_agent S) (authorize P now uid i run task plan))),
     tr_execute = (\<lambda>i token run task plan. ask (post_model ''EXECUTOR'')
       (guarded P (st_executor S) (internal_service_token P (st_agent S)) (execute P now uid S client i token run task plan)))\<rparr>"

end
