(* ===== verification/Deliveries.thy ===== *)
theory Deliveries
  imports Intake Transport
begin

text \<open>
  Deliveries that may come twice: the stores that reserve them (\<^verbatim>\<open>intake/replay.py\<close>), and the route that
  takes a signed Slack message (\<^verbatim>\<open>services/authority_api.py\<close>) from its signature to a pending proposal.
\<close>

subsection \<open>The replay stores\<close>

text \<open>
  Two stores of one shape, each a JSON document of records. They differ in one thing: what a second
  reservation of a key that was never completed gets.
\<close>

datatype delivery_status = Delivery_Reserved | Delivery_Completed

record 'k delivery_record =
  dl_key :: 'k
  dl_status :: delivery_status
  dl_at :: datetime
  dl_result :: "attributes option"

datatype 'k delivery_file = No_Store | Unreadable | Document "'k delivery_record list"

definition replay_error :: "string \<Rightarrow> string \<Rightarrow> py_error" where
  "replay_error brand m = Raised (brand @ ''DeliveryReplayError'') m"

fun read_deliveries :: "string \<Rightarrow> 'k delivery_file \<Rightarrow> 'k delivery_record list result" where
  "read_deliveries brand No_Store = Inr []"
| "read_deliveries brand Unreadable =
     Inl (replay_error brand (''The '' @ brand @ '' delivery replay store is unreadable.''))"
| "read_deliveries brand (Document ds) = Inr ds"

definition fresh_delivery :: "datetime \<Rightarrow> 'k \<Rightarrow> 'k delivery_record" where
  "fresh_delivery now k = \<lparr>dl_key = k, dl_status = Delivery_Reserved, dl_at = now, dl_result = None\<rparr>"

definition slack_reserve :: "datetime \<Rightarrow> 'k \<Rightarrow> ('k delivery_file, bool) op" where
  "slack_reserve now k f = (case read_deliveries ''Slack'' f of
     Inl e \<Rightarrow> (Inl e, f)
   | Inr ds \<Rightarrow> if \<exists>d\<in>set ds. dl_key d = k then (Inr False, f)
       else (Inr True, Document (ds @ [fresh_delivery now k])))"

definition crust_reserve :: "datetime \<Rightarrow> 'k \<Rightarrow> ('k delivery_file, bool) op" where
  "crust_reserve now k f = (case read_deliveries ''CrustData'' f of
     Inl e \<Rightarrow> (Inl e, f)
   | Inr ds \<Rightarrow> (case find_index (\<lambda>d. dl_key d = k) ds of
       None \<Rightarrow> (Inr True, Document (ds @ [fresh_delivery now k]))
     | Some i \<Rightarrow> if dl_status (ds ! i) = Delivery_Completed then (Inr False, f)
         else (Inr True, Document (ds[i := fresh_delivery now k]))))"

definition same_result :: "attributes option \<Rightarrow> attributes \<Rightarrow> bool" where
  "same_result old new = (case old of None \<Rightarrow> False | Some r \<Rightarrow> attrs_eq r new)"

definition complete_delivery :: "string \<Rightarrow> 'k \<Rightarrow> attributes \<Rightarrow> ('k delivery_file, unit) op" where
  "complete_delivery brand k result f = (case read_deliveries brand f of
     Inl e \<Rightarrow> (Inl e, f)
   | Inr ds \<Rightarrow> (case find_index (\<lambda>d. dl_key d = k) ds of
       None \<Rightarrow> (Inl (replay_error brand (''The '' @ brand @ '' delivery was not reserved before completion.'')), f)
     | Some i \<Rightarrow> if dl_status (ds ! i) = Delivery_Completed then
           (if same_result (dl_result (ds ! i)) result then (Inr (), f)
            else (Inl (replay_error brand (''A completed '' @ brand @ '' delivery result is immutable.'')), f))
         else (Inr (), Document (ds[i := (ds ! i)\<lparr>dl_status := Delivery_Completed, dl_result := Some result\<rparr>]))))"

definition get_delivery :: "string \<Rightarrow> 'k \<Rightarrow> 'k delivery_file \<Rightarrow> 'k delivery_record option result" where
  "get_delivery brand k f = bind_r (read_deliveries brand f) (\<lambda>ds. Inr (List.find (\<lambda>d. dl_key d = k) ds))"

subsection \<open>What a store promises over its whole life\<close>

datatype 'k delivery_step = Reserve datetime 'k | Complete 'k attributes

text \<open>The reservations that a history of calls has granted, with the file it leaves.\<close>

fun granted ::
  "(datetime \<Rightarrow> 'k \<Rightarrow> ('f, bool) op) \<Rightarrow> ('k \<Rightarrow> attributes \<Rightarrow> ('f, unit) op) \<Rightarrow> 'k delivery_step list \<Rightarrow> 'f \<Rightarrow> 'k list \<times> 'f"
where
  "granted R C [] f = ([], f)"
| "granted R C (Reserve t k # ss) f = (case R t k f of (r, f') \<Rightarrow>
     (case granted R C ss f' of (ks, g) \<Rightarrow> (if r = Inr True then k # ks else ks, g)))"
| "granted R C (Complete k r # ss) f = granted R C ss (snd (C k r f))"

locale replay_guard =
  fixes reserve :: "datetime \<Rightarrow> 'k \<Rightarrow> ('f, bool) op"
    and finish :: "'k \<Rightarrow> attributes \<Rightarrow> ('f, unit) op"
    and settled :: "'k \<Rightarrow> 'f \<Rightarrow> bool"
  assumes settled_refuses: "settled k f \<Longrightarrow> reserve t k f = (Inr False, f)"
    and reserve_keeps: "settled k f \<Longrightarrow> settled k (snd (reserve t j f))"
    and finish_keeps: "settled k f \<Longrightarrow> settled k (snd (finish j r f))"
begin

lemma settled_for_good:
  "settled k f \<Longrightarrow> granted reserve finish ss f = (ks, g) \<Longrightarrow> k \<notin> set ks \<and> settled k g"
proof (induction ss arbitrary: f ks g)
  case (Cons s ss)
  show ?case
  proof (cases s)
    case (Reserve t j)
    obtain r f' where r: "reserve t j f = (r, f')" by (rule prod.exhaust)
    obtain js g' where j: "granted reserve finish ss f' = (js, g')" by (rule prod.exhaust)
    have "settled k f'" using reserve_keeps [OF Cons.prems(1), of t j] r by simp
    from Cons.IH [OF this j] have "k \<notin> set js \<and> settled k g'" .
    moreover have "r \<noteq> Inr True \<or> j \<noteq> k" using settled_refuses [OF Cons.prems(1), of t] r by auto
    ultimately show ?thesis using Cons.prems(2) Reserve r j by (auto split: if_splits)
  next
    case (Complete j r)
    then show ?thesis using Cons.IH [OF finish_keeps [OF Cons.prems(1)]] Cons.prems(2) by simp
  qed
qed simp

end

locale once_guard = replay_guard +
  assumes reserve_settles: "reserve t k f = (Inr True, f') \<Longrightarrow> settled k f'"
begin

lemma granted_once: "granted reserve finish ss f = (ks, g) \<Longrightarrow> distinct ks"
proof (induction ss arbitrary: f ks g)
  case (Cons s ss)
  show ?case
  proof (cases s)
    case (Reserve t j)
    obtain r f' where r: "reserve t j f = (r, f')" by (rule prod.exhaust)
    obtain js g' where j: "granted reserve finish ss f' = (js, g')" by (rule prod.exhaust)
    have "distinct js" by (rule Cons.IH [OF j])
    moreover have "r = Inr True \<Longrightarrow> j \<notin> set js" using reserve_settles r settled_for_good [OF _ j] by blast
    ultimately show ?thesis using Cons.prems Reserve r j by (auto split: if_splits)
  next
    case (Complete j r)
    then show ?thesis using Cons by simp
  qed
qed simp

end

definition has_delivery :: "('k delivery_record \<Rightarrow> bool) \<Rightarrow> 'k \<Rightarrow> 'k delivery_file \<Rightarrow> bool" where
  "has_delivery p k f \<longleftrightarrow> (\<exists>ds i. f = Document ds \<and> find_index (\<lambda>d. dl_key d = k) ds = Some i \<and> p (ds ! i))"

definition is_completed :: "'k delivery_record \<Rightarrow> bool" where
  "is_completed d \<longleftrightarrow> dl_status d = Delivery_Completed"

lemma find_index_append: "find_index p xs = Some i \<Longrightarrow> find_index p (xs @ ys) = Some i"
  by (induction xs arbitrary: i) (auto split: if_splits)

lemma find_index_update_same: "p (xs ! j) = p x \<Longrightarrow> find_index p (xs[j := x]) = find_index p xs"
  by (induction xs arbitrary: j) (auto split: nat.splits)

lemma read_deliveries_Inr: "read_deliveries brand f = Inr ds \<Longrightarrow> f = Document ds \<or> f = No_Store \<and> ds = []"
  by (cases f) auto

lemma find_index_length: "find_index p xs = Some i \<Longrightarrow> i < length xs \<and> p (xs ! i)"
  using find_index_SomeD [of p xs i] by blast

lemma has_delivery_Document [simp]:
  "has_delivery p k (Document ds) \<longleftrightarrow> (\<exists>i. find_index (\<lambda>d. dl_key d = k) ds = Some i \<and> p (ds ! i))"
  by (simp add: has_delivery_def)

lemma has_delivery_append: "has_delivery p k (Document ds) \<Longrightarrow> has_delivery p k (Document (ds @ es))"
proof -
  assume "has_delivery p k (Document ds)"
  then obtain i where i: "find_index (\<lambda>d. dl_key d = k) ds = Some i" "p (ds ! i)" by auto
  then have "i < length ds" using find_index_length by blast
  then show ?thesis using i by (simp add: find_index_append nth_append)
qed

lemma has_delivery_update:
  assumes "has_delivery p k (Document ds)" and "dl_key d = dl_key (ds ! i)" and "dl_key (ds ! i) = k \<Longrightarrow> p (ds ! i) \<Longrightarrow> p d"
  shows "has_delivery p k (Document (ds[i := d]))"
proof -
  obtain j where j: "find_index (\<lambda>d. dl_key d = k) ds = Some j" "p (ds ! j)" using assms(1) by auto
  have "find_index (\<lambda>d. dl_key d = k) (ds[i := d]) = Some j"
    using find_index_update_same [of "\<lambda>d. dl_key d = k" ds i d] assms(2) j(1) by simp
  moreover have "p (ds[i := d] ! j)"
    using j assms(3) find_index_length [OF j(1)] by (cases "i = j") auto
  ultimately show ?thesis by auto
qed

lemma has_delivery_file: "has_delivery p k f \<Longrightarrow> \<exists>ds. f = Document ds"
  by (auto simp: has_delivery_def)

lemma complete_keeps_delivery:
  assumes "has_delivery p k f"
    and "\<And>d r. p d \<Longrightarrow> p (d\<lparr>dl_status := Delivery_Completed, dl_result := Some r\<rparr>)"
  shows "has_delivery p k (snd (complete_delivery brand j r f))"
proof -
  obtain ds where f: "f = Document ds" using has_delivery_file [OF assms(1)] by blast
  show ?thesis
    using has_delivery_update [OF assms(1) [unfolded f]] assms
    by (auto simp: complete_delivery_def f simp del: has_delivery_Document split: option.split)
qed

lemma fresh_key [simp]: "dl_key (fresh_delivery t k) = k"
  by (simp add: fresh_delivery_def)

lemma slack_reserve_keeps:
  assumes "has_delivery p k f" shows "has_delivery p k (snd (slack_reserve t j f))"
  using assms has_delivery_file [OF assms]
  by (auto simp: slack_reserve_def simp del: has_delivery_Document intro: has_delivery_append)

lemma known_key: "(\<exists>d\<in>set ds. dl_key d = k) \<longleftrightarrow> has_delivery (\<lambda>_. True) k (Document ds)"
  using find_index_None [of "\<lambda>d. dl_key d = k" ds] by auto

interpretation slack_store: once_guard slack_reserve "complete_delivery ''Slack''" "has_delivery (\<lambda>_. True)"
proof unfold_locales
  show "has_delivery (\<lambda>_. True) k f \<Longrightarrow> slack_reserve t k f = (Inr False, f)" for k and f :: "'k delivery_file" and t
    using has_delivery_file by (fastforce simp: slack_reserve_def known_key simp del: has_delivery_Document)
  show "has_delivery (\<lambda>_. True) k f \<Longrightarrow> has_delivery (\<lambda>_. True) k (snd (slack_reserve t j f))" for k j and f :: "'k delivery_file" and t
    by (rule slack_reserve_keeps)
  show "has_delivery (\<lambda>_. True) k f \<Longrightarrow> has_delivery (\<lambda>_. True) k (snd (complete_delivery ''Slack'' j r f))"
    for k j and f :: "'k delivery_file" and r
    by (rule complete_keeps_delivery)
  show "slack_reserve t k f = (Inr True, f') \<Longrightarrow> has_delivery (\<lambda>_. True) k f'" for t k and f f' :: "'k delivery_file"
    by (auto simp: slack_reserve_def known_key [symmetric] simp del: has_delivery_Document split: sum.splits if_splits)
qed

lemma crust_reserve_keeps:
  assumes "has_delivery is_completed k f" shows "has_delivery is_completed k (snd (crust_reserve t j f))"
proof -
  obtain ds where f: "f = Document ds" using has_delivery_file [OF assms] by blast
  show ?thesis
  proof (cases "find_index (\<lambda>d. dl_key d = j) ds")
    case None
    then show ?thesis using assms has_delivery_append
      by (simp add: crust_reserve_def f del: has_delivery_Document)
  next
    case (Some i)
    then have "dl_key (ds ! i) = j" using find_index_length by fastforce
    then show ?thesis using Some assms
      by (auto simp: crust_reserve_def f is_completed_def simp del: has_delivery_Document intro!: has_delivery_update)
  qed
qed

interpretation crust_store: replay_guard crust_reserve "complete_delivery ''CrustData''" "has_delivery is_completed"
proof unfold_locales
  show "has_delivery is_completed k f \<Longrightarrow> crust_reserve t k f = (Inr False, f)" for k and f :: "'k delivery_file" and t
    using has_delivery_file by (fastforce simp: crust_reserve_def is_completed_def)
  show "has_delivery is_completed k f \<Longrightarrow> has_delivery is_completed k (snd (crust_reserve t j f))" for k j and f :: "'k delivery_file" and t
    by (rule crust_reserve_keeps)
  show "has_delivery is_completed k f \<Longrightarrow> has_delivery is_completed k (snd (complete_delivery ''CrustData'' j r f))"
    for k j and f :: "'k delivery_file" and r
    by (rule complete_keeps_delivery) (auto simp: is_completed_def)
qed

text \<open>A reservation that was never completed is taken up again.\<close>

lemma crust_reclaims: "has_delivery (\<lambda>d. \<not> is_completed d) k f \<Longrightarrow> fst (crust_reserve t k f) = Inr True"
  by (auto simp: has_delivery_def crust_reserve_def is_completed_def)

text \<open>A result, once completed, is the result for good.\<close>

lemma completed_result_stays:
  assumes "has_delivery (\<lambda>d. is_completed d \<and> dl_result d = r) k f"
  shows "has_delivery (\<lambda>d. is_completed d \<and> dl_result d = r) k (snd (complete_delivery brand j r' f))"
proof -
  obtain ds where f: "f = Document ds" using has_delivery_file [OF assms] by blast
  show ?thesis
    using assms
    by (auto simp: complete_delivery_def f is_completed_def simp del: has_delivery_Document split: option.split
      intro!: has_delivery_update)
qed

subsection \<open>The route of a signed message\<close>

record delivery_key =
  dk_workspace :: string
  dk_connection :: string
  dk_trigger :: string
  dk_event :: string

definition delivery_key_for :: "string \<Rightarrow> string \<Rightarrow> string \<Rightarrow> string \<Rightarrow> delivery_key result" where
  "delivery_key_for i connection trigger event =
     (let k = \<lparr>dk_workspace = strip i, dk_connection = strip connection, dk_trigger = strip trigger, dk_event = strip event\<rparr>
      in bind_r (check (bounded 1 255 (dk_workspace k) \<and> bounded 1 255 (dk_connection k) \<and> bounded 1 255 (dk_trigger k)
          \<and> bounded 1 255 (dk_event k)) ''String should match its bounds'') (\<lambda>_. Inr k))"

text \<open>
  The authority service: its contexts, the file of deliveries, and what is outside (the permission service,
  the agent service, the message service). A service that is not configured is None.
\<close>

record 'h intake_world =
  iw_contexts :: registry
  iw_deliveries :: "delivery_key delivery_file"
  iw_rest :: 'h

record 'h intake_services =
  iv_verifier :: "slack_verifier option"
  iv_extractor :: "extractor option"
  iv_checker :: "string \<Rightarrow> 'h checker option"
  iv_threshold :: "rat option"
  iv_isoformat :: "datetime \<Rightarrow> string"
  iv_propose :: "string \<Rightarrow> proposal_request \<Rightarrow> ('h, workspace_view) op"
  iv_notify :: "intake_outcome \<Rightarrow> string \<Rightarrow> ('h, attributes) op"

definition on_contexts :: "(registry, 'a) op \<Rightarrow> ('h intake_world, 'a) op" where
  "on_contexts m w = (case m (iw_contexts w) of (r, c) \<Rightarrow> (r, w\<lparr>iw_contexts := c\<rparr>))"

definition on_deliveries :: "(delivery_key delivery_file, 'a) op \<Rightarrow> ('h intake_world, 'a) op" where
  "on_deliveries m w = (case m (iw_deliveries w) of (r, f) \<Rightarrow> (r, w\<lparr>iw_deliveries := f\<rparr>))"

definition on_rest :: "('h, 'a) op \<Rightarrow> ('h intake_world, 'a) op" where
  "on_rest m w = (case m (iw_rest w) of (r, h) \<Rightarrow> (r, w\<lparr>iw_rest := h\<rparr>))"

definition except_class :: "string \<Rightarrow> py_error \<Rightarrow> ('x, 'a) op \<Rightarrow> ('x, 'a) op" where
  "except_class cls e m x = (case m x of
     (Inl (Raised c t), y) \<Rightarrow> (Inl (if c = cls then e else Raised c t), y) | r \<Rightarrow> r)"

datatype delivery_take = Duplicate "attributes option" | Taken intake_outcome

definition has_webhook_delivery_id :: "attributes \<Rightarrow> bool" where
  "has_webhook_delivery_id headers \<longleftrightarrow> (\<exists>e\<in>set headers. delivery_header e \<noteq> None)"

text \<open>\<open>reserve\<close>, and for a key that is already there what came of it.\<close>

definition reserve_slack_delivery ::
  "datetime \<Rightarrow> delivery_key \<Rightarrow> (delivery_key delivery_file, attributes option option) op"
where
  "reserve_slack_delivery now k = bind_op (slack_reserve now k) (\<lambda>fresh.
     if fresh then ret_op None
     else bind_op (read_op (get_delivery ''Slack'' k)) (\<lambda>d.
       ret_op (Some (case d of None \<Rightarrow> None | Some d \<Rightarrow> dl_result d))))"

definition complete_slack_delivery :: "delivery_key \<Rightarrow> attributes \<Rightarrow> (delivery_key delivery_file, unit) op" where
  "complete_slack_delivery k result = bind_op (read_op (get_delivery ''Slack'' k)) (\<lambda>d.
     if d = None then ret_op () else complete_delivery ''Slack'' k result)"

definition duplicate_result :: "attributes option \<Rightarrow> attributes" where
  "duplicate_result r = (case r of
     None \<Rightarrow> [(''status'', PStr ''delivery-reserved''), (''duplicate'', PBool True), (''graph_mutated'', PBool False)]
   | Some r \<Rightarrow> dict_set ''duplicate'' (PBool True) r)"

definition bound_author :: "string \<Rightarrow> slack_message \<Rightarrow> slack_binding option \<Rightarrow> (slack_binding \<times> string) result" where
  "bound_author i m binding = (case binding of
     None \<Rightarrow> Inl (ApiFailure 403 ''SLACK_WORKSPACE_BINDING_MISMATCH'' False)
   | Some b \<Rightarrow>
       if sb_workspace b \<noteq> i \<or> sm_team m \<noteq> sb_team b \<or> sm_connection m \<noteq> sb_connection b then
         Inl (ApiFailure 403 ''SLACK_WORKSPACE_BINDING_MISMATCH'' False)
       else (case hexclave_user_for b (sm_author m) of
         None \<Rightarrow> Inl (ApiFailure 403 ''SLACK_IDENTITY_BINDING_NOT_FOUND'' False)
       | Some user \<Rightarrow> Inr (b, user)))"

text \<open>Whose message it is: signed, of a workspace that has a context, bound to it, from a bound author.\<close>

definition identify_delivery ::
  "'h intake_services \<Rightarrow> string \<Rightarrow> string \<Rightarrow> attributes
    \<Rightarrow> ('h intake_world, slack_verifier \<times> slack_message \<times> context_view \<times> slack_binding \<times> string) op"
where
  "identify_delivery S i body headers = (case iv_verifier S of
     None \<Rightarrow> raise_op (ApiFailure 503 ''SLACK_INTAKE_NOT_CONFIGURED'' False)
   | Some vf \<Rightarrow>
     bind_op (except_class ''SlackWebhookError'' (ApiFailure 401 ''INVALID_COMPOSIO_WEBHOOK'' False)
       (read_op (\<lambda>_. parse_message vf body headers))) (\<lambda>m.
     bind_op (\<lambda>w. case on_contexts (read_state (''live-'' @ i)) w of
         (Inl (NotFound _), y) \<Rightarrow> (Inl (ApiFailure 404 ''WORKSPACE_CONTEXT_NOT_FOUND'' False), y) | r \<Rightarrow> r) (\<lambda>st.
     bind_op (read_op (\<lambda>_. bound_author i m (cs_slack st))) (\<lambda>(b, user). ret_op (vf, m, st, b, user)))))"

definition extract_delivery ::
  "'h intake_services \<Rightarrow> string \<Rightarrow> slack_verifier \<Rightarrow> slack_message \<Rightarrow> context_view \<Rightarrow> slack_binding \<Rightarrow> string
    \<Rightarrow> ('h intake_world, delivery_take) op"
where
  "extract_delivery S i vf m st b user = (case iv_extractor S of
     None \<Rightarrow> raise_op (ApiFailure 503 ''EXTRACTION_NOT_CONFIGURED'' False)
   | Some extract \<Rightarrow> (case iv_checker S (sb_hexclave_team b) of
     None \<Rightarrow> raise_op (ApiFailure 503 ''HEXCLAVE_NOT_CONFIGURED'' False)
   | Some chk \<Rightarrow>
       bind_op (read_op (\<lambda>_. make_gate (fst ` set (cs_policy st)) (cs_policy st) (iv_threshold S))) (\<lambda>g.
       bind_op (except_class ''DecisionDraftError'' (ApiFailure 422 ''INVALID_DECISION_DRAFT'' False)
         (on_rest (ingest_verified \<lparr>in_verifier = vf, in_extractor = extract, in_gate = g, in_checker = chk,
            in_isoformat = iv_isoformat S\<rparr> i m (filter (\<lambda>a. art_kind a = Decision) (cs_artifacts st)) user (cs_baseline st))))
         (\<lambda>out. ret_op (Taken out)))))"

definition reserve_message ::
  "datetime \<Rightarrow> string \<Rightarrow> attributes \<Rightarrow> slack_message \<Rightarrow> ('h intake_world, attributes option option) op"
where
  "reserve_message now i headers m = (if has_webhook_delivery_id headers then
       bind_op (read_op (\<lambda>_. delivery_key_for i (sm_connection m) CHANNEL_MESSAGE_SLUG (sm_event m)))
         (\<lambda>k. on_deliveries (reserve_slack_delivery now k))
     else ret_op None)"

definition process_slack_delivery ::
  "'h intake_services \<Rightarrow> datetime \<Rightarrow> string \<Rightarrow> string \<Rightarrow> attributes \<Rightarrow> ('h intake_world, delivery_take) op"
where
  "process_slack_delivery S now i body headers =
     bind_op (identify_delivery S i body headers) (\<lambda>(vf, m, st, b, user).
     bind_op (reserve_message now i headers m) (\<lambda>taken. case taken of
       Some result \<Rightarrow> ret_op (Duplicate result)
     | None \<Rightarrow> extract_delivery S i vf m st b user))"

fun gate_reason_value :: "gate_reason \<Rightarrow> string" where
  "gate_reason_value Missing_Author = ''MISSING_AUTHOR''"
| "gate_reason_value No_Affected_Scopes = ''NO_AFFECTED_SCOPES''"
| "gate_reason_value Unknown_Scopes = ''UNKNOWN_SCOPES''"
| "gate_reason_value Invalid_Confidence = ''INVALID_CONFIDENCE''"
| "gate_reason_value Low_Confidence = ''LOW_CONFIDENCE''"
| "gate_reason_value No_Common_Permission = ''NO_COMMON_PERMISSION''"
| "gate_reason_value Author_Not_Authorized = ''AUTHOR_NOT_AUTHORIZED''"
| "gate_reason_value Permission_Check_Unavailable = ''PERMISSION_CHECK_UNAVAILABLE''"

definition parked_reply :: "string \<Rightarrow> intake_outcome \<Rightarrow> attributes" where
  "parked_reply i out = [(''status'', PStr ''parked''), (''workspace_id'', PStr i),
     (''event_id'', PStr (sm_event (io_message out))),
     (''reasons'', PList (map (\<lambda>r. PStr (gate_reason_value r)) (gt_reasons (io_gate out)))), (''graph_mutated'', PBool False)]"

definition proposed_reply :: "string \<Rightarrow> intake_outcome \<Rightarrow> proposal_request \<Rightarrow> workspace_view \<Rightarrow> attributes" where
  "proposed_reply i out p v = [(''status'', PStr ''pending-human-confirmation''), (''workspace_id'', PStr i),
     (''event_id'', PStr (sm_event (io_message out))), (''decision_id'', PStr (art_id (wp_decision p))),
     (''affected_scopes'', PList (map PStr (sorted_list_of_set (wp_scopes p)))),
     (''permission_id'', case gt_permission (io_gate out) of None \<Rightarrow> PNone | Some s \<Rightarrow> PStr s),
     (''graph_version'', PStr (vw_version v)), (''graph_mutated'', PBool False), (''human_reviewed'', PBool False)]"

text \<open>The answer is kept with the delivery, so that a copy of it gets the same.\<close>

definition conclude_delivery ::
  "attributes \<Rightarrow> delivery_key \<Rightarrow> attributes \<Rightarrow> ('h intake_world, attributes) op"
where
  "conclude_delivery headers k result =
     bind_op (if has_webhook_delivery_id headers then on_deliveries (complete_slack_delivery k result) else ret_op ())
       (\<lambda>_. ret_op result)"

definition intake_slack ::
  "'h intake_services \<Rightarrow> datetime \<Rightarrow> string \<Rightarrow> string \<Rightarrow> attributes \<Rightarrow> ('h intake_world, attributes) op"
where
  "intake_slack S now i body headers =
     bind_op (process_slack_delivery S now i body headers) (\<lambda>t. case t of
       Duplicate r \<Rightarrow> ret_op (duplicate_result r)
     | Taken out \<Rightarrow>
         bind_op (read_op (\<lambda>_. delivery_key_for i (sm_connection (io_message out)) CHANNEL_MESSAGE_SLUG (sm_event (io_message out))))
         (\<lambda>k. case io_proposal out of
           None \<Rightarrow> conclude_delivery headers k (parked_reply i out)
         | Some p \<Rightarrow>
             bind_op (on_rest (iv_propose S i p)) (\<lambda>v.
             bind_op (if vw_pending v = None then ret_op [] else on_rest (iv_notify S out body)) (\<lambda>extra.
             conclude_delivery headers k (dict_update (proposed_reply i out p v) extra)))))"

subsection \<open>A delivery acts once\<close>

lemma webhook_delivery_id_present: "webhook_delivery_id headers = Inr e \<Longrightarrow> has_webhook_delivery_id headers"
  by (auto simp: webhook_delivery_id_def has_webhook_delivery_id_def split: option.splits dest!: find_SomeD)

lemma parse_message_present:
  assumes "parse_message vf body headers = Inr m"
  shows "has_webhook_delivery_id headers \<and> webhook_delivery_id headers = Inr (sm_event m)"
  using assms webhook_delivery_id_present by (auto simp: parse_message_def Let_def dest!: parse_deliveryD)

lemma identify_frame:
  assumes "identify_delivery S i body headers w = (r, w')"
  shows "iw_rest w' = iw_rest w \<and> iw_deliveries w' = iw_deliveries w
    \<and> (\<forall>vf m st b user. r = Inr (vf, m, st, b, user) \<longrightarrow> iv_verifier S = Some vf \<and> parse_message vf body headers = Inr m)"
  using assms
  by (auto simp: identify_delivery_def bind_op_def except_class_def on_contexts_def split: option.splits sum.splits prod.splits
    py_error.splits if_splits)

lemma extract_frame:
  assumes "extract_delivery S i vf m st b user w = (r, w')"
  shows "iw_deliveries w' = iw_deliveries w \<and> (\<forall>res. r \<noteq> Inr (Duplicate res))"
  using assms
  by (auto simp: extract_delivery_def bind_op_def except_class_def on_rest_def split: option.splits sum.splits prod.splits
    py_error.splits if_splits)

definition message_key :: "string \<Rightarrow> slack_message \<Rightarrow> delivery_key result" where
  "message_key i m = delivery_key_for i (sm_connection m) CHANNEL_MESSAGE_SLUG (sm_event m)"

lemma reserve_slack_cases:
  assumes "reserve_slack_delivery now k f = (r, f')"
  shows "(r = Inr None \<longrightarrow> has_delivery (\<lambda>_. True) k f') \<and> (r \<noteq> Inr None \<longrightarrow> f' = f)"
proof -
  obtain fresh f1 where s: "slack_reserve now k f = (fresh, f1)" by (rule prod.exhaust)
  consider e where "fresh = Inl e" | "fresh = Inr True" | "fresh = Inr False" by (cases fresh) auto
  then show ?thesis
  proof cases
    case 1
    then show ?thesis using assms s
      by (auto simp: reserve_slack_delivery_def bind_op_def slack_reserve_def split: sum.splits if_splits)
  next
    case 2
    then have "has_delivery (\<lambda>_. True) k f1" using slack_store.reserve_settles [of now k f f1] s by simp
    then show ?thesis using assms s 2 by (auto simp: reserve_slack_delivery_def bind_op_def)
  next
    case 3
    then have "f1 = f" using s by (auto simp: slack_reserve_def split: sum.splits if_splits)
    then show ?thesis using assms s 3 by (auto simp: reserve_slack_delivery_def bind_op_def split: sum.splits)
  qed
qed

lemma reserve_again:
  assumes "has_delivery (\<lambda>_. True) k f"
  shows "\<exists>result. reserve_slack_delivery now k f = (Inr (Some result), f)"
  using slack_store.settled_refuses [OF assms] has_delivery_file [OF assms]
  by (auto simp: reserve_slack_delivery_def bind_op_def get_delivery_def)

lemma reserve_message_cases:
  assumes "reserve_message now i headers m w = (r, w')" and "has_webhook_delivery_id headers"
  shows "iw_rest w' = iw_rest w
    \<and> (r = Inr None \<longrightarrow> (\<exists>k. message_key i m = Inr k \<and> has_delivery (\<lambda>_. True) k (iw_deliveries w')))"
  using assms reserve_slack_cases
  by (fastforce simp: reserve_message_def message_key_def bind_op_def on_deliveries_def split: sum.splits prod.splits)

lemma reserve_message_again:
  assumes "message_key i m = Inr k" and "has_delivery (\<lambda>_. True) k (iw_deliveries w)" and "has_webhook_delivery_id headers"
  shows "\<exists>result. reserve_message now i headers m w = (Inr (Some result), w)"
proof -
  obtain result where "reserve_slack_delivery now k (iw_deliveries w) = (Inr (Some result), iw_deliveries w)"
    using reserve_again [OF assms(2)] by blast
  then show ?thesis using assms by (simp add: reserve_message_def message_key_def bind_op_def on_deliveries_def)
qed

lemma ingest_message: "ingest_verified I i m ds user root_id h = (Inr out, h') \<Longrightarrow> io_message out = m"
  by (auto simp: ingest_verified_def split: sum.splits prod.splits if_splits)

lemma extract_message:
  "extract_delivery S i vf m st b user w = (Inr (Taken out), w') \<Longrightarrow> io_message out = m"
  by (auto simp: extract_delivery_def bind_op_def except_class_def on_rest_def split: option.splits sum.splits prod.splits
    py_error.splits if_splits dest: ingest_message)

text \<open>Where a delivery came as far as its extraction, it is in the file.\<close>

lemma process_cases:
  assumes "process_slack_delivery S now i body headers w = (r, w')"
  shows "(iw_rest w' = iw_rest w \<and> (\<forall>out. r \<noteq> Inr (Taken out)))
    \<or> (\<exists>vf m k. iv_verifier S = Some vf \<and> parse_message vf body headers = Inr m \<and> message_key i m = Inr k
         \<and> has_delivery (\<lambda>_. True) k (iw_deliveries w') \<and> (\<forall>out. r = Inr (Taken out) \<longrightarrow> io_message out = m))"
proof -
  obtain r1 w1 where one: "identify_delivery S i body headers w = (r1, w1)" by (rule prod.exhaust)
  note f1 = identify_frame [OF one]
  show ?thesis
  proof (cases r1)
    case (Inl e)
    then show ?thesis using assms one f1 by (auto simp: process_slack_delivery_def bind_op_def)
  next
    case (Inr t)
    obtain vf m st b user where t: "t = (vf, m, st, b, user)" by (metis prod.exhaust)
    then have parsed: "iv_verifier S = Some vf" "parse_message vf body headers = Inr m" using f1 Inr by blast+
    note has = parse_message_present [OF parsed(2), THEN conjunct1]
    obtain r2 w2 where two: "reserve_message now i headers m w1 = (r2, w2)" by (rule prod.exhaust)
    note f2 = reserve_message_cases [OF two has]
    show ?thesis
    proof (cases "r2 = Inr None")
      case False
      then have "iw_rest w' = iw_rest w2 \<and> (\<forall>out. r \<noteq> Inr (Taken out))"
        using assms one two Inr t
        by (auto simp: process_slack_delivery_def bind_op_def split: sum.splits option.splits)
      then show ?thesis using f1 f2 by simp
    next
      case True
      then have ext: "extract_delivery S i vf m st b user w2 = (r, w')"
        using assms one two Inr t by (simp add: process_slack_delivery_def bind_op_def)
      then have "iw_deliveries w' = iw_deliveries w2" using extract_frame by blast
      then show ?thesis using True f2 parsed extract_message ext by fastforce
    qed
  qed
qed

lemma conclude_keeps:
  assumes "conclude_delivery headers k' result w = (r, w')" and "has_delivery (\<lambda>_. True) k (iw_deliveries w)"
  shows "has_delivery (\<lambda>_. True) k (iw_deliveries w')"
proof -
  have "has_delivery (\<lambda>_. True) k (snd (complete_delivery ''Slack'' k' result (iw_deliveries w)))"
    by (rule slack_store.finish_keeps [OF assms(2)])
  then show ?thesis using assms
    by (auto simp: conclude_delivery_def bind_op_def on_deliveries_def complete_slack_delivery_def split: sum.splits prod.splits if_splits)
qed

lemma on_rest_deliveries: "on_rest m w = (r, w') \<Longrightarrow> iw_deliveries w' = iw_deliveries w"
  by (auto simp: on_rest_def split: prod.splits)

lemma intake_acts:
  assumes "intake_slack S now i body headers w = (r, w')" and "iw_rest w' \<noteq> iw_rest w"
  shows "\<exists>vf m k. iv_verifier S = Some vf \<and> parse_message vf body headers = Inr m \<and> message_key i m = Inr k
    \<and> has_delivery (\<lambda>_. True) k (iw_deliveries w')"
proof -
  obtain r1 w1 where one: "process_slack_delivery S now i body headers w = (r1, w1)" by (rule prod.exhaust)
  show ?thesis
  proof (cases "\<exists>out. r1 = Inr (Taken out)")
    case False
    then have "w' = w1" using assms(1) one
      by (auto simp: intake_slack_def bind_op_def split: sum.splits delivery_take.splits)
    then show ?thesis using process_cases [OF one] assms(2) by auto
  next
    case True
    then obtain out where out: "r1 = Inr (Taken out)" by blast
    then obtain vf m k where k: "iv_verifier S = Some vf" "parse_message vf body headers = Inr m" "message_key i m = Inr k"
        "has_delivery (\<lambda>_. True) k (iw_deliveries w1)" "io_message out = m"
      using process_cases [OF one] by blast
    then have key: "delivery_key_for i (sm_connection (io_message out)) CHANNEL_MESSAGE_SLUG (sm_event (io_message out)) = Inr k"
      by (simp add: message_key_def)
    have "has_delivery (\<lambda>_. True) k (iw_deliveries w')"
    proof (cases "io_proposal out")
      case None
      then show ?thesis using assms(1) one out key conclude_keeps [OF _ k(4)]
        by (auto simp: intake_slack_def bind_op_def)
    next
      case (Some p)
      obtain r2 w2 where two: "on_rest (iv_propose S i p) w1 = (r2, w2)" by (rule prod.exhaust)
      have kept: "has_delivery (\<lambda>_. True) k (iw_deliveries w2)" using k(4) on_rest_deliveries [OF two] by simp
      show ?thesis
      proof (cases r2)
        case (Inl e)
        then show ?thesis using assms(1) one out key Some two kept by (simp add: intake_slack_def bind_op_def)
      next
        case (Inr v)
        obtain r3 w3 where three: "(if vw_pending v = None then ret_op [] else on_rest (iv_notify S out body)) w2 = (r3, w3)"
          by (rule prod.exhaust)
        then have kept: "has_delivery (\<lambda>_. True) k (iw_deliveries w3)"
          using kept on_rest_deliveries by (fastforce split: if_splits)
        show ?thesis
        proof (cases r3)
          case (Inl e)
          then show ?thesis using assms(1) one out key Some two Inr three kept by (simp add: intake_slack_def bind_op_def)
        next
          fix extra
          assume "r3 = Inr extra"
          then have "conclude_delivery headers k (dict_update (proposed_reply i out p v) extra) w3 = (r, w')"
            using assms(1) one out key Some two Inr three by (simp add: intake_slack_def bind_op_def)
          from conclude_keeps [OF this kept] show ?thesis .
        qed
      qed
    qed
    then show ?thesis using k by blast
  qed
qed

text \<open>
  Whatever the first delivery did and however it ended, a copy of it that comes later, after any reservations
  and completions, is answered from the file and touches nothing outside.
\<close>

lemma intake_again:
  assumes first: "intake_slack S now i body headers w = (r, w1)" "iw_rest w1 \<noteq> iw_rest w"
    and later: "granted slack_reserve (complete_delivery ''Slack'') history (iw_deliveries w1) = (ks, iw_deliveries w2)"
  shows "iw_rest (snd (intake_slack S now' i body headers w2)) = iw_rest w2
    \<and> iw_deliveries (snd (intake_slack S now' i body headers w2)) = iw_deliveries w2"
proof -
  obtain vf m k where k: "iv_verifier S = Some vf" "parse_message vf body headers = Inr m" "message_key i m = Inr k"
      "has_delivery (\<lambda>_. True) k (iw_deliveries w1)"
    using intake_acts [OF first] by blast
  have settled: "has_delivery (\<lambda>_. True) k (iw_deliveries w2)"
    using slack_store.settled_for_good [OF k(4) later] by blast
  obtain r1 x where one: "identify_delivery S i body headers w2 = (r1, x)" by (rule prod.exhaust)
  note f = identify_frame [OF one]
  show ?thesis
  proof (cases r1)
    case (Inl e)
    then show ?thesis using f one by (simp add: intake_slack_def process_slack_delivery_def bind_op_def)
  next
    case (Inr t)
    obtain vf' m' st b user where t: "t = (vf', m', st, b, user)" by (metis prod.exhaust)
    then have "m' = m" using f Inr k(1,2) by fastforce
    moreover have "has_delivery (\<lambda>_. True) k (iw_deliveries x)" using f settled by simp
    ultimately obtain result where "reserve_message now' i headers m' x = (Inr (Some result), x)"
      using reserve_message_again [OF k(3) _ parse_message_present [OF k(2), THEN conjunct1]] by blast
    then have "intake_slack S now' i body headers w2 = (Inr (duplicate_result result), x)"
      using one Inr t by (simp add: intake_slack_def process_slack_delivery_def bind_op_def)
    then show ?thesis using f by simp
  qed
qed

end
