(* ===== verification/Approval_Links.thy ===== *)
theory Approval_Links
  imports Approvals Deliveries
begin

text \<open>
  Signed approval links and the assertions that forward them (\<^verbatim>\<open>notify/email.py\<close>): the claims, the two
  signers, the directory of recipients, the ledgers that let a link or an assertion be used once, and the
  redemption of a link.
\<close>

subsection \<open>Claims\<close>

datatype delivery_provider = Email_Provider | Ntfy_Provider | Pushover_Provider

fun provider_value :: "delivery_provider \<Rightarrow> string" where
  "provider_value Email_Provider = ''email''"
| "provider_value Ntfy_Provider = ''ntfy''"
| "provider_value Pushover_Provider = ''pushover''"

definition provider_fits :: "approval_channel \<Rightarrow> delivery_provider \<Rightarrow> bool" where
  "provider_fits channel provider \<longleftrightarrow> (channel = Email \<and> provider = Email_Provider)
     \<or> (channel = Push \<and> provider \<in> {Ntfy_Provider, Pushover_Provider})"

definition link_error :: "string \<Rightarrow> string \<Rightarrow> py_error" where
  "link_error cls m = Raised cls m"

abbreviation invalid_link :: "string \<Rightarrow> py_error" where
  "invalid_link \<equiv> link_error ''InvalidApprovalLink''"

abbreviation expired_link :: "string \<Rightarrow> py_error" where
  "expired_link \<equiv> link_error ''ExpiredApprovalLink''"

abbreviation link_configuration :: "string \<Rightarrow> py_error" where
  "link_configuration \<equiv> link_error ''ApprovalLinkConfigurationError''"

definition token_id_ok :: "string \<Rightarrow> bool" where
  "token_id_ok t \<longleftrightarrow> bounded 16 128 t \<and> (\<forall>c\<in>set t. is_alnum c \<or> c = CHR ''_'' \<or> c = CHR ''-'')"

record link_claims =
  lk_token :: string
  lk_workspace :: string
  lk_decision :: string
  lk_approver :: string
  lk_channel :: approval_channel
  lk_provider :: delivery_provider
  lk_fingerprint :: string
  lk_instance :: string
  lk_binding :: string
  lk_issued :: datetime
  lk_expires :: datetime

text \<open>The strings are stripped when the model is built, then checked.\<close>

definition strip_link :: "link_claims \<Rightarrow> link_claims" where
  "strip_link c = c\<lparr>lk_token := strip (lk_token c), lk_workspace := strip (lk_workspace c),
     lk_decision := strip (lk_decision c), lk_approver := strip (lk_approver c),
     lk_fingerprint := strip (lk_fingerprint c), lk_instance := strip (lk_instance c),
     lk_binding := strip (lk_binding c)\<rparr>"

definition link_fields_ok :: "link_claims \<Rightarrow> bool" where
  "link_fields_ok c \<longleftrightarrow> token_id_ok (lk_token c) \<and> bounded 1 128 (lk_workspace c) \<and> bounded 1 160 (lk_decision c)
     \<and> bounded 1 255 (lk_approver c) \<and> fingerprint_ok (lk_fingerprint c) \<and> bounded 1 255 (lk_instance c)
     \<and> fingerprint_ok (lk_binding c)"

definition make_link :: "link_claims \<Rightarrow> link_claims result" where
  "make_link raw = (let c = strip_link raw in
     bind_r (check (link_fields_ok c) ''Field constraints'') (\<lambda>_.
     bind_r (check (lk_channel c \<in> {Push, Email}) ''signed approval links are only valid for push or email'') (\<lambda>_.
     bind_r (check (provider_fits (lk_channel c) (lk_provider c)) ''the approval channel and delivery provider do not match'') (\<lambda>_.
     bind_r (check (dt_aware (lk_issued c) \<and> dt_aware (lk_expires c)) ''approval-link timestamps must be timezone-aware'') (\<lambda>_.
     bind_r (check (dt_micros (lk_issued c) < dt_micros (lk_expires c)) ''approval links must expire after issuance'') (\<lambda>_.
     Inr c))))))"

definition link_dump :: "platform \<Rightarrow> link_claims \<Rightarrow> pyval" where
  "link_dump P c = PDict [(''schema_version'', PInt 1), (''token_id'', PStr (lk_token c)),
     (''workspace_id'', PStr (lk_workspace c)), (''decision_id'', PStr (lk_decision c)),
     (''approver_user_id'', PStr (lk_approver c)), (''channel'', PStr (channel_value (lk_channel c))),
     (''delivery_provider'', PStr (provider_value (lk_provider c))), (''proposal_fingerprint'', PStr (lk_fingerprint c)),
     (''proposal_instance_id'', PStr (lk_instance c)), (''recipient_binding_hash'', PStr (lk_binding c)),
     (''issued_at'', PStr (iso_format P (lk_issued c))), (''expires_at'', PStr (iso_format P (lk_expires c)))]"

subsection \<open>Signed tokens\<close>

text \<open>\<open>b64decode(value, altchars, validate=True)\<close>: the alphabet, then padding of the right length, and nothing else.\<close>

definition strict_unb64 :: "string \<Rightarrow> string result" where
  "strict_unb64 s = (let core = rstrip_char (CHR ''='') s; pads = length s - length core + nat (- int (length s) mod 4) in
     if (\<forall>c\<in>set core. b64_val c \<noteq> None) \<and> (length core + pads) mod 4 = 0 \<and> pads \<le> 2 then unb64 core
     else Inl (ValueError ''Only base64 data is allowed''))"

definition add_seconds :: "datetime \<Rightarrow> int \<Rightarrow> datetime" where
  "add_seconds t s = (case t of Aware m \<Rightarrow> Aware (m + s * 1000000) | Naive m \<Rightarrow> Naive (m + s * 1000000))"

definition clock_skew :: int where
  "clock_skew = 60"

text \<open>A signer knows its key, its lifetime, and how the fields of its claims are read from their JSON text.\<close>

record 'c token_signer =
  tk_key :: string
  tk_ttl :: int
  tk_parse :: "string \<Rightarrow> 'c result"

definition make_link_signer :: "string \<Rightarrow> int \<Rightarrow> (string \<Rightarrow> link_claims result) \<Rightarrow> link_claims token_signer result" where
  "make_link_signer secret ttl parse =
     (if length secret < 32 then
        Inl (link_configuration ''The approval-link HMAC secret must contain at least 32 bytes.'')
      else if \<not> (1 \<le> ttl \<and> ttl \<le> 86400) then
        Inl (link_configuration ''The approval-link TTL must be between 1 and 86400 seconds.'')
      else Inr \<lparr>tk_key = secret, tk_ttl = ttl, tk_parse = parse\<rparr>)"

definition aware_now :: "datetime \<Rightarrow> datetime result" where
  "aware_now now = (if dt_aware now then Inr now
     else Inl (link_configuration ''The approval-link clock must be timezone-aware.''))"

definition token_mac :: "platform \<Rightarrow> 'c token_signer \<Rightarrow> string \<Rightarrow> string" where
  "token_mac P S signed = b64 (hmac_sha256 P (tk_key S) signed)"

definition recipient_binding_hash :: "platform \<Rightarrow> approval_channel \<Rightarrow> delivery_provider \<Rightarrow> string \<Rightarrow> string result" where
  "recipient_binding_hash P channel provider recipient =
     (let r = (if provider = Email_Provider then casefold (strip recipient) else strip recipient) in
      if r = [] then Inl (link_configuration ''An approval recipient binding is required.'')
      else if \<not> provider_fits channel provider then
        Inl (link_configuration ''The approval channel and delivery provider do not match.'')
      else Inr (''sha256:'' @ sha256_hex P (channel_value channel @ [CHR 0x00] @ provider_value provider @ [CHR 0x00] @ r)))"

definition link_token :: "platform \<Rightarrow> link_claims token_signer \<Rightarrow> link_claims \<Rightarrow> string" where
  "link_token P S c = (let body = b64 (json_dumps P (link_dump P c)) in body @ ''.'' @ token_mac P S body)"

text \<open>The clock and the random token are arguments.\<close>

definition issue_claims ::
  "platform \<Rightarrow> link_claims token_signer \<Rightarrow> datetime \<Rightarrow> string \<Rightarrow> pending_approval \<Rightarrow> string \<Rightarrow> approval_channel
    \<Rightarrow> delivery_provider \<Rightarrow> string \<Rightarrow> link_claims result"
where
  "issue_claims P S now token p approver channel provider recipient =
     (if strip approver = [] \<or> strip recipient = [] then
        Inl (link_configuration ''An approver identity and recipient binding are required.'')
      else bind_r (aware_now now) (\<lambda>now. bind_r (recipient_binding_hash P channel provider (strip recipient)) (\<lambda>h.
        make_link \<lparr>lk_token = token, lk_workspace = pa_workspace p, lk_decision = pa_decision p, lk_approver = strip approver,
          lk_channel = channel, lk_provider = provider, lk_fingerprint = pa_fingerprint p, lk_instance = pa_instance p,
          lk_binding = h, lk_issued = now, lk_expires = add_seconds now (tk_ttl S)\<rparr>)))"

definition issue_link ::
  "platform \<Rightarrow> link_claims token_signer \<Rightarrow> datetime \<Rightarrow> string \<Rightarrow> pending_approval \<Rightarrow> string \<Rightarrow> approval_channel
    \<Rightarrow> delivery_provider \<Rightarrow> string \<Rightarrow> string result"
where
  "issue_link P S now token p approver channel provider recipient =
     map_sum id (link_token P S) (issue_claims P S now token p approver channel provider recipient)"

definition token_shape_ok :: "string \<Rightarrow> bool" where
  "token_shape_ok t \<longleftrightarrow> t \<noteq> [] \<and> length t \<le> 8192 \<and> is_ascii t \<and> (\<forall>c\<in>set t. \<not> is_space c)"

text \<open>Whatever the reading of the claims raises is an invalid link.\<close>

definition read_claims :: "('c \<Rightarrow> 'c result) \<Rightarrow> 'c token_signer \<Rightarrow> string \<Rightarrow> string \<Rightarrow> 'c result" where
  "read_claims validate S body m = (case bind_r (bind_r (strict_unb64 body) (tk_parse S)) validate of
     Inl e \<Rightarrow> Inl (invalid_link m) | Inr c \<Rightarrow> Inr c)"

definition in_time :: "string \<Rightarrow> datetime \<Rightarrow> datetime \<Rightarrow> datetime \<Rightarrow> unit result" where
  "in_time what now issued expires =
     (if dt_micros (add_seconds now clock_skew) < dt_micros issued then Inl (invalid_link (what @ '' was issued in the future.''))
      else if dt_micros expires \<le> dt_micros now then Inl (expired_link (what @ '' has expired.''))
      else Inr ())"

definition decode_link ::
  "platform \<Rightarrow> link_claims token_signer \<Rightarrow> datetime \<Rightarrow> string \<Rightarrow> approval_channel \<Rightarrow> link_claims result"
where
  "decode_link P S now token expected = (let t = strip token in
     if \<not> token_shape_ok t then Inl (invalid_link ''The approval link is malformed.'')
     else (case split_on (\<lambda>c. c = CHR ''.'') t of
       [body, signature] \<Rightarrow>
         if body = [] \<or> signature = [] then Inl (invalid_link ''The approval link is malformed.'')
         else if signature \<noteq> token_mac P S body then Inl (invalid_link ''The approval-link signature is invalid.'')
         else bind_r (read_claims make_link S body ''The approval-link claims are invalid.'') (\<lambda>c.
           if expected \<notin> {Push, Email} \<or> lk_channel c \<noteq> expected then
             Inl (invalid_link ''The approval link belongs to another channel.'')
           else bind_r (aware_now now) (\<lambda>now.
             bind_r (in_time ''The approval link'' now (lk_issued c) (lk_expires c)) (\<lambda>_. Inr c)))
     | _ \<Rightarrow> Inl (invalid_link ''The approval link is malformed.'')))"

subsection \<open>What a token says\<close>

lemma split_on_plain: "(\<forall>c\<in>set w. \<not> p c) \<Longrightarrow> split_on p w = [w]"
  by (induction w) auto

lemma split_on_append:
  "(\<forall>c\<in>set w. \<not> p c) \<Longrightarrow> p d \<Longrightarrow> split_on p (w @ d # rest) = w # split_on p rest"
  by (induction w) auto

lemma split_on_two:
  "split_on p t = [a, b] \<Longrightarrow> \<exists>d. p d \<and> t = a @ d # b"
proof (induction t arbitrary: a)
  case (Cons c cs)
  show ?case
  proof (cases "p c")
    case True
    then have "split_on p cs = [b]" "a = []" using Cons.prems by simp_all
    moreover have "split_on p cs = [b] \<Longrightarrow> cs = b" for b
      by (induction cs arbitrary: b) (auto split: if_splits list.splits)
    ultimately show ?thesis using True by auto
  next
    case False
    then obtain w where "split_on p cs = [w, b]" "a = c # w"
      using Cons.prems by (auto split: list.splits)
    then show ?thesis using Cons.IH [of w] by auto
  qed
qed simp

lemma b64_no_dot: "\<forall>c\<in>set (b64 s). \<not> c = CHR ''.''"
  using b64_chars by blast

lemma sextets_length: "length (sextets xs) mod 4 \<noteq> 1"
proof (induction xs rule: sextets.induct)
  case (4 a b c r)
  then show ?case by (simp add: mod_Suc split: if_splits)
qed simp_all

lemma b64_alphabet: "c \<in> set (b64 s) \<Longrightarrow> b64_val c \<noteq> None \<and> c \<noteq> CHR ''='' \<and> \<not> is_space c \<and> of_char c < (128::nat)"
proof -
  assume "c \<in> set (b64 s)"
  then obtain v where v: "v \<in> set (sextets (map of_char s))" "c = b64_char v" by (auto simp: b64_sextets)
  then have lt: "v < 64" using sextets_lt [of "map of_char s"] by simp
  then show ?thesis using b64_val_char [OF lt] of_char_b64_char [OF lt] v(2) by (auto simp: is_space_def Let_def split: if_splits)
qed

lemma rstrip_char_plain: "(\<forall>c\<in>set s. c \<noteq> d) \<Longrightarrow> rstrip_char d s = s"
proof (cases s rule: rev_cases)
  case (snoc ys y)
  assume "\<forall>c\<in>set s. c \<noteq> d"
  then show ?thesis using snoc by (simp add: rstrip_char_def)
qed (simp add: rstrip_char_def)

lemma pad_length:
  fixes n :: nat
  assumes "n mod 4 \<noteq> 1"
  shows "nat (- int n mod 4) \<le> 2 \<and> (n + nat (- int n mod 4)) mod 4 = 0"
proof -
  have "nat (- int n mod 4) = (if n mod 4 = 0 then 0 else 4 - n mod 4)"
    using zmod_zminus1_eq_if [of "int n" 4] zmod_int [of n 4] by (simp add: nat_diff_distrib nat_mod_distrib)
  moreover have "n mod 4 \<noteq> 0 \<Longrightarrow> 4 - n mod 4 \<le> 2" using assms by presburger
  moreover have "(n + (4 - n mod 4)) mod 4 = 0" by presburger
  ultimately show ?thesis by simp
qed

lemma strict_unb64_b64: "strict_unb64 (b64 s) = Inr s"
proof -
  have core: "rstrip_char (CHR ''='') (b64 s) = b64 s" using b64_alphabet by (intro rstrip_char_plain) blast
  have "length (b64 s) mod 4 \<noteq> 1" using sextets_length by (simp add: b64_sextets)
  then show ?thesis unfolding strict_unb64_def Let_def core using pad_length b64_alphabet by (simp add: unb64_b64)
qed

lemma b64_Nil: "b64 s = [] \<longleftrightarrow> s = []"
proof -
  have "b64 [] = []" by (simp add: b64_sextets)
  then show ?thesis using b64_inj [of s "[]"] by simp
qed

lemma strip_no_space: assumes "\<forall>c\<in>set t. \<not> is_space c" shows "strip t = t"
proof -
  have *: "dropWhile is_space u = u" if "set u = set t" for u
    using assms that by (cases u) auto
  show ?thesis using * [of t] * [of "rev t"] by (simp add: strip_def rstrip_def lstrip_def)
qed

text \<open>A token that decodes carries this signer's MAC of its own body, and is in its time.\<close>

lemma decode_linkD:
  assumes "decode_link P S now token ch = Inr c"
  obtains body where "strip token = body @ ''.'' @ token_mac P S body"
    and "read_claims make_link S body ''The approval-link claims are invalid.'' = Inr c" and "lk_channel c = ch" and "ch \<in> {Push, Email}"
    and "dt_micros now < dt_micros (lk_expires c)" and "dt_micros (lk_issued c) \<le> dt_micros (add_seconds now clock_skew)"
proof -
  let ?t = "strip token"
  from assms obtain body signature where sp: "split_on (\<lambda>c. c = CHR ''.'') ?t = [body, signature]"
    by (auto simp: decode_link_def Let_def split: if_splits list.splits)
  then have t: "?t = body @ ''.'' @ signature" using split_on_two by fastforce
  show thesis
  proof (rule that)
    show "?t = body @ ''.'' @ token_mac P S body"
      using assms sp t by (simp add: decode_link_def Let_def split: if_splits)
  qed (use assms sp in \<open>auto simp: decode_link_def Let_def in_time_def aware_now_def split: if_splits\<close>)
qed

lemma token_shape:
  assumes "length t \<le> 8192" and "t \<noteq> []" and "\<forall>x\<in>set t. \<not> is_space x \<and> of_char x < (128::nat)"
  shows "token_shape_ok t" "strip t = t"
  using assms strip_no_space by (auto simp: token_shape_ok_def is_ascii_def)

text \<open>A link that was issued reads back as its claims, while it lasts.\<close>

lemma decode_issued:
  assumes "tk_parse S (json_dumps P (link_dump P c)) = Inr c" and "make_link c = Inr c" and "length (link_token P S c) \<le> 8192"
    and "dt_aware now" and "dt_micros (lk_issued c) \<le> dt_micros (add_seconds now clock_skew)"
    and "dt_micros now < dt_micros (lk_expires c)"
    and "hmac_sha256 P (tk_key S) (b64 (json_dumps P (link_dump P c))) \<noteq> []"
  shows "decode_link P S now (link_token P S c) (lk_channel c) = Inr c"
proof -
  let ?body = "b64 (json_dumps P (link_dump P c))"
  have split: "split_on (\<lambda>x. x = CHR ''.'') (link_token P S c) = [?body, token_mac P S ?body]"
    using b64_no_dot by (simp add: link_token_def Let_def token_mac_def split_on_append split_on_plain)
  have "json_dumps P (link_dump P c) \<noteq> []" by (simp add: json_dumps_def link_dump_def)
  then have ne: "?body \<noteq> []" by (simp add: b64_Nil)
  have "\<forall>x\<in>set (link_token P S c). \<not> is_space x \<and> of_char x < (128::nat)"
    using b64_alphabet by (auto simp: link_token_def token_mac_def Let_def is_space_def)
  moreover have "link_token P S c \<noteq> []" by (simp add: link_token_def Let_def)
  ultimately have shape: "token_shape_ok (link_token P S c)" "strip (link_token P S c) = link_token P S c"
    using token_shape [OF assms(3)] by blast+
  have "lk_channel c \<in> {Push, Email}" using assms(2) by (auto simp: make_link_def Let_def)
  then show ?thesis
    using assms shape ne
    by (auto simp: decode_link_def Let_def split read_claims_def strict_unb64_b64 aware_now_def in_time_def not_less token_mac_def b64_Nil)
qed

lemma strip_link_idem [simp]: "strip_link (strip_link c) = strip_link c"
  by (simp add: strip_link_def)

lemma make_linkD:
  assumes "make_link raw = Inr c"
  shows "c = strip_link raw \<and> link_fields_ok c \<and> provider_fits (lk_channel c) (lk_provider c) \<and> lk_channel c \<in> {Push, Email}
    \<and> dt_aware (lk_issued c) \<and> dt_aware (lk_expires c) \<and> dt_micros (lk_issued c) < dt_micros (lk_expires c)"
  using assms by (auto simp: make_link_def Let_def)

lemma make_link_again:
  assumes "make_link raw = Inr c" shows "make_link c = Inr c"
proof -
  have "c = strip_link raw" using make_linkD [OF assms] by simp
  then show ?thesis using assms by (simp add: make_link_def Let_def)
qed

subsection \<open>Single use\<close>

text \<open>
  A ledger gives a capability, known by its id and the fingerprint of its claims, to its first user alone.
  There is one in memory, one in a JSON file and one in a table whose key is the id. A file may fail to be
  written, or be in place when its mode cannot be set; the table may be unavailable. The ids come of
  validated claims and are stripped already.
\<close>

record token_use =
  us_id :: string
  us_fingerprint :: string
  us_at :: datetime

definition store_error :: "string \<Rightarrow> py_error" where
  "store_error = link_error ''ApprovalLinkStoreError''"

definition make_use :: "string \<Rightarrow> string \<Rightarrow> datetime \<Rightarrow> token_use result" where
  "make_use i fp now =
     bind_r (check (token_id_ok i \<and> fingerprint_ok fp) ''Field constraints'') (\<lambda>_.
     bind_r (check (dt_aware now) ''approval-link consumption time must be aware'') (\<lambda>_.
     Inr \<lparr>us_id = i, us_fingerprint = fp, us_at = now\<rparr>))"

definition other_claims :: "string \<Rightarrow> py_error" where
  "other_claims what = store_error (what @ '' ID is bound to different claims.'')"

definition memory_consume :: "string \<Rightarrow> string \<Rightarrow> datetime \<Rightarrow> (token_use dict, bool) op" where
  "memory_consume i fp now d = (case dict_get d i of
     Some u \<Rightarrow> if us_fingerprint u \<noteq> fp then (Inl (other_claims ''An approval-link''), d) else (Inr False, d)
   | None \<Rightarrow> (case make_use i fp now of Inl e \<Rightarrow> (Inl e, d) | Inr u \<Rightarrow> (Inr True, dict_set i u d)))"

datatype ledger_file = No_Ledger | Unreadable_Ledger | Ledger "token_use list"

datatype ledger_write = Written | Write_Failed | Mode_Failed

fun read_ledger :: "ledger_file \<Rightarrow> token_use list result" where
  "read_ledger No_Ledger = Inr []"
| "read_ledger Unreadable_Ledger = Inl (store_error ''The approval-link use store is unreadable.'')"
| "read_ledger (Ledger us) = Inr us"

fun write_ledger :: "ledger_write \<Rightarrow> token_use list \<Rightarrow> (ledger_file, unit) op" where
  "write_ledger Written us f = (Inr (), Ledger us)"
| "write_ledger Write_Failed us f = (Inl (store_error ''The approval-link use store could not be persisted.''), f)"
| "write_ledger Mode_Failed us f = (Inl (store_error ''The approval-link use store could not be persisted.''), Ledger us)"

definition file_consume :: "ledger_write \<Rightarrow> string \<Rightarrow> string \<Rightarrow> datetime \<Rightarrow> (ledger_file, bool) op" where
  "file_consume wr i fp now = bind_op (read_op read_ledger) (\<lambda>us. case List.find (\<lambda>u. us_id u = i) us of
     Some u \<Rightarrow> if us_fingerprint u \<noteq> fp then raise_op (other_claims ''An approval-link'') else ret_op False
   | None \<Rightarrow> bind_op (read_op (\<lambda>_. make_use i fp now)) (\<lambda>u. bind_op (write_ledger wr (us @ [u])) (\<lambda>_. ret_op True)))"

definition table_consume :: "bool \<Rightarrow> string \<Rightarrow> string \<Rightarrow> datetime \<Rightarrow> (token_use list, bool) op" where
  "table_consume available i fp now rows =
     (if \<not> dt_aware now then (Inl (store_error ''Replay-ledger timestamps must be timezone-aware.''), rows)
      else if \<not> available then (Inl (store_error ''The atomic approval replay ledger is unavailable.''), rows)
      else (case List.find (\<lambda>u. us_id u = i) rows of
        None \<Rightarrow> (Inr True, rows @ [\<lparr>us_id = i, us_fingerprint = fp, us_at = now\<rparr>])
      | Some u \<Rightarrow> if us_fingerprint u \<noteq> fp then (Inl (other_claims ''A replay-ledger''), rows) else (Inr False, rows)))"

text \<open>The capabilities that a history of uses was granted, with what its environment did each time.\<close>

fun consumed :: "('e \<Rightarrow> 'c \<Rightarrow> datetime \<Rightarrow> ('f, bool) op) \<Rightarrow> ('e \<times> 'c \<times> datetime) list \<Rightarrow> 'f \<Rightarrow> 'c list \<times> 'f" where
  "consumed C [] f = ([], f)"
| "consumed C ((e, c, t) # hs) f = (case C e c t f of (r, f') \<Rightarrow>
     (case consumed C hs f' of (cs, g) \<Rightarrow> (if r = Inr True then c # cs else cs, g)))"

locale use_ledger =
  fixes consume :: "'e \<Rightarrow> 'c \<Rightarrow> datetime \<Rightarrow> ('f, bool) op"
    and ident :: "'c \<Rightarrow> string"
    and used :: "string \<Rightarrow> 'f \<Rightarrow> bool"
  assumes used_refuses: "used (ident c) f \<Longrightarrow> fst (consume e c t f) \<noteq> Inr True"
    and consume_keeps: "used i f \<Longrightarrow> used i (snd (consume e c t f))"
    and consume_uses: "consume e c t f = (Inr True, f') \<Longrightarrow> used (ident c) f'"
begin

lemma used_for_good: "used i f \<Longrightarrow> consumed consume hs f = (cs, g) \<Longrightarrow> i \<notin> ident ` set cs \<and> used i g"
proof (induction hs arbitrary: f cs g)
  case (Cons h hs)
  obtain e c t where h: "h = (e, c, t)" by (rule prod_cases3)
  obtain r f' where r: "consume e c t f = (r, f')" by (rule prod.exhaust)
  obtain ds g' where ds: "consumed consume hs f' = (ds, g')" by (rule prod.exhaust)
  have "used i f'" using consume_keeps [OF Cons.prems(1), of e c t] r by simp
  from Cons.IH [OF this ds] have "i \<notin> ident ` set ds \<and> used i g'" .
  moreover have "r = Inr True \<Longrightarrow> ident c \<noteq> i" using used_refuses [of c f e t] Cons.prems(1) r by auto
  ultimately show ?case using Cons.prems(2) h r ds by (auto split: if_splits)
qed simp

lemma consumed_once: "consumed consume hs f = (cs, g) \<Longrightarrow> distinct (map ident cs)"
proof (induction hs arbitrary: f cs g)
  case (Cons h hs)
  obtain e c t where h: "h = (e, c, t)" by (rule prod_cases3)
  obtain r f' where r: "consume e c t f = (r, f')" by (rule prod.exhaust)
  obtain ds g' where ds: "consumed consume hs f' = (ds, g')" by (rule prod.exhaust)
  have "distinct (map ident ds)" by (rule Cons.IH [OF ds])
  moreover have "r = Inr True \<Longrightarrow> ident c \<notin> ident ` set ds" using consume_uses r used_for_good [OF _ ds] by blast
  ultimately show ?case using Cons.prems h r ds by (auto split: if_splits)
qed simp

end

definition row_used :: "string \<Rightarrow> token_use list \<Rightarrow> bool" where
  "row_used i us \<longleftrightarrow> (\<exists>u\<in>set us. us_id u = i)"

definition file_used :: "string \<Rightarrow> ledger_file \<Rightarrow> bool" where
  "file_used i f \<longleftrightarrow> (\<exists>us. f = Ledger us \<and> row_used i us)"

definition link_fingerprint :: "platform \<Rightarrow> link_claims \<Rightarrow> string" where
  "link_fingerprint P c = stable_hash P (link_dump P c)"

lemma find_row_None: "List.find (\<lambda>u. us_id u = i) us = None \<longleftrightarrow> \<not> row_used i us"
  by (auto simp: find_None_iff row_used_def)

lemma find_row_used: "row_used i us \<Longrightarrow> \<exists>u. List.find (\<lambda>u. us_id u = i) us = Some u"
  using find_row_None [of i us] by auto

lemma row_used_append [simp]: "row_used i (us @ vs) \<longleftrightarrow> row_used i us \<or> row_used i vs"
  by (auto simp: row_used_def)

lemma make_use_id: "make_use i fp now = Inr u \<Longrightarrow> us_id u = i"
  by (auto simp: make_use_def)

interpretation memory_links: use_ledger "\<lambda>(_ :: unit) c. memory_consume (lk_token c) (link_fingerprint P c)" lk_token
  "\<lambda>i d. dict_get d i \<noteq> None" for P
proof unfold_locales
  show "dict_get f (lk_token c) \<noteq> None \<Longrightarrow> fst (memory_consume (lk_token c) (link_fingerprint P c) t f) \<noteq> Inr True" for c f t
    by (auto simp: memory_consume_def split: if_splits)
  show "dict_get f i \<noteq> None \<Longrightarrow> dict_get (snd (memory_consume (lk_token c) (link_fingerprint P c) t f)) i \<noteq> None" for i f c t
    by (auto simp: memory_consume_def dict_get_set split: option.split sum.split)
  show "memory_consume (lk_token c) (link_fingerprint P c) t f = (Inr True, f') \<Longrightarrow> dict_get f' (lk_token c) \<noteq> None" for c t f f'
    by (auto simp: memory_consume_def dict_get_set split: option.splits sum.splits if_splits)
qed

interpretation file_links: use_ledger "\<lambda>wr c. file_consume wr (lk_token c) (link_fingerprint P c)" lk_token file_used for P
proof unfold_locales
  show "file_used (lk_token c) f \<Longrightarrow> fst (file_consume wr (lk_token c) (link_fingerprint P c) t f) \<noteq> Inr True" for c f wr t
    using find_row_used by (fastforce simp: file_consume_def file_used_def bind_op_def split: if_splits)
  show "file_used i (snd (file_consume wr (lk_token c) (link_fingerprint P c) t f))" if "file_used i f" for i f wr c t
  proof -
    note used = that
    obtain us where f: "f = Ledger us" "row_used i us" using used by (auto simp: file_used_def)
    show ?thesis
      by (cases wr) (auto simp: file_consume_def f file_used_def bind_op_def split: option.split sum.split)
  qed
  show "file_consume wr (lk_token c) (link_fingerprint P c) t f = (Inr True, f') \<Longrightarrow> file_used (lk_token c) f'" for wr c t f f'
    by (cases wr) (auto simp: file_consume_def file_used_def row_used_def bind_op_def dest: make_use_id
      split: option.splits sum.splits if_splits)
qed

lemma table_ledger: "use_ledger (\<lambda>available c. table_consume available (ident c) (fp c)) ident row_used"
proof
  show "row_used (ident c) f \<Longrightarrow> fst (table_consume e (ident c) (fp c) t f) \<noteq> Inr True" for c f e t
    using find_row_None by (auto simp: table_consume_def split: option.split)
  show "row_used i f \<Longrightarrow> row_used i (snd (table_consume e (ident c) (fp c) t f))" for i f e c t
    by (simp add: table_consume_def split: option.split)
  show "table_consume e (ident c) (fp c) t f = (Inr True, f') \<Longrightarrow> row_used (ident c) f'" for e c t f f'
    by (auto simp: table_consume_def row_used_def split: if_splits option.splits)
qed

interpretation table_links: use_ledger "\<lambda>available c. table_consume available (lk_token c) (link_fingerprint P c)" lk_token row_used for P
  by (rule table_ledger)

subsection \<open>Recipients\<close>

text \<open>Where a team member is notified, by workspace and user. The server owns this directory; no request names an address.\<close>

record recipient =
  rb_workspace :: string
  rb_approver :: string
  rb_email :: "string option"
  rb_ntfy :: "string option"
  rb_pushover :: "string option"

record recipient_directory =
  dr_recipients :: "recipient list"
  dr_server :: string

definition is_alpha :: "char \<Rightarrow> bool" where
  "is_alpha c \<longleftrightarrow> is_alnum c \<and> \<not> is_digit c"

definition is_high_entropy_ntfy_topic :: "string \<Rightarrow> bool" where
  "is_high_entropy_ntfy_topic v = (let topic = strip v in
     24 \<le> length topic \<and> 12 \<le> card (set topic) \<and> list_ex is_alpha topic \<and> list_ex is_digit topic)"

definition email_shape :: "string \<Rightarrow> bool" where
  "email_shape s \<longleftrightarrow> \<not> list_ex is_space s \<and> (case split_on (\<lambda>c. c = CHR ''@'') s of
     [a, d] \<Rightarrow> a \<noteq> [] \<and> d \<noteq> [] \<and> CHR ''.'' \<in> set (butlast (tl d)) | _ \<Rightarrow> False)"

definition validate_recipient :: "recipient \<Rightarrow> unit result" where
  "validate_recipient r =
     bind_r (check (bounded 1 128 (rb_workspace r) \<and> bounded 1 255 (rb_approver r)
       \<and> (case rb_email r of None \<Rightarrow> True | Some e \<Rightarrow> bounded 3 320 e \<and> email_shape e)
       \<and> (case rb_ntfy r of None \<Rightarrow> True | Some t \<Rightarrow> bounded 1 256 t)) ''Field constraints'') (\<lambda>_.
     bind_r (check (truthy (rb_email r) \<or> truthy (rb_ntfy r) \<or> truthy (rb_pushover r))
       ''an approval recipient needs at least one destination'') (\<lambda>_.
     bind_r (check (case rb_ntfy r of None \<Rightarrow> True
         | Some t \<Rightarrow> CHR ''/'' \<notin> set t \<and> \<not> list_ex is_space t \<and> is_high_entropy_ntfy_topic t)
       ''the ntfy topic must be valid and high entropy'') (\<lambda>_.
     check (case rb_pushover r of None \<Rightarrow> True | Some k \<Rightarrow> strip k \<noteq> []) ''the Pushover user key must not be blank'')))"

definition validate_recipients :: "recipient list \<Rightarrow> unit result" where
  "validate_recipients rs = bind_r (map_r validate_recipient rs) (\<lambda>_.
     check (distinct (map (\<lambda>r. (rb_workspace r, rb_approver r)) rs))
       ''approval recipient identities must be unique per Workspace'')"

definition binding_error :: "string \<Rightarrow> py_error" where
  "binding_error = link_error ''ApprovalRecipientBindingError''"

text \<open>The JSON document is read by the library: None where it raises.\<close>

definition directory_from_json :: "(string \<Rightarrow> recipient list option) \<Rightarrow> string option \<Rightarrow> string \<Rightarrow> recipient_directory result" where
  "directory_from_json parse v server = (case v of
     None \<Rightarrow> Inl (binding_error ''WRITAI_APPROVAL_RECIPIENT_BINDINGS must be configured.'')
   | Some t \<Rightarrow> if strip t = [] then Inl (binding_error ''WRITAI_APPROVAL_RECIPIENT_BINDINGS must be configured.'')
       else (case parse t of
         None \<Rightarrow> Inl (binding_error ''WRITAI_APPROVAL_RECIPIENT_BINDINGS is invalid.'')
       | Some rs \<Rightarrow> (case validate_recipients rs of
           Inl _ \<Rightarrow> Inl (binding_error ''WRITAI_APPROVAL_RECIPIENT_BINDINGS is invalid.'')
         | Inr _ \<Rightarrow> Inr \<lparr>dr_recipients = rs, dr_server = rstrip_char (CHR ''/'') server\<rparr>)))"

definition recipient_address :: "recipient \<Rightarrow> delivery_provider \<Rightarrow> string option" where
  "recipient_address r provider = (case provider of
     Email_Provider \<Rightarrow> rb_email r | Ntfy_Provider \<Rightarrow> rb_ntfy r | Pushover_Provider \<Rightarrow> rb_pushover r)"

definition delivery_address :: "recipient_directory \<Rightarrow> string \<Rightarrow> string \<Rightarrow> delivery_provider \<Rightarrow> string result" where
  "delivery_address D workspace approver provider =
     (case List.find (\<lambda>r. rb_workspace r = strip workspace \<and> rb_approver r = strip approver) (rev (dr_recipients D)) of
       None \<Rightarrow> Inl (binding_error ''The approver has no configured notification destination.'')
     | Some r \<Rightarrow> (case recipient_address r provider of
         None \<Rightarrow> Inl (binding_error (''The approver has no configured '' @ provider_value provider @ '' destination.''))
       | Some a \<Rightarrow> if strip a = [] then
             Inl (binding_error (''The approver has no configured '' @ provider_value provider @ '' destination.''))
           else Inr (strip a)))"

definition destination :: "recipient_directory \<Rightarrow> string \<Rightarrow> string \<Rightarrow> delivery_provider \<Rightarrow> string result" where
  "destination D workspace approver provider = bind_r (delivery_address D workspace approver provider) (\<lambda>a.
     Inr (if provider = Ntfy_Provider then dr_server D @ ''/'' @ a else a))"

definition verify_binding ::
  "platform \<Rightarrow> recipient_directory \<Rightarrow> string \<Rightarrow> string \<Rightarrow> approval_channel \<Rightarrow> delivery_provider \<Rightarrow> string \<Rightarrow> unit result"
where
  "verify_binding P D workspace approver channel provider h = (case destination D workspace approver provider of
     Inl _ \<Rightarrow> Inl (invalid_link ''The approval recipient binding is no longer current.'')
   | Inr a \<Rightarrow> bind_r (recipient_binding_hash P channel provider a) (\<lambda>expected.
       if expected \<noteq> h then Inl (invalid_link ''The approval recipient binding is no longer current.'') else Inr ()))"

definition verify_link :: "platform \<Rightarrow> recipient_directory \<Rightarrow> link_claims \<Rightarrow> unit result" where
  "verify_link P D c = verify_binding P D (lk_workspace c) (lk_approver c) (lk_channel c) (lk_provider c) (lk_binding c)"

subsection \<open>Assertions\<close>

text \<open>What the authority tells the agent after it checked a link or a reaction: a capability of seconds.\<close>

record assertion =
  fa_id :: string
  fa_source :: string
  fa_workspace :: string
  fa_decision :: string
  fa_approver :: string
  fa_channel :: approval_channel
  fa_evidence :: string
  fa_provider :: "delivery_provider option"
  fa_fingerprint :: string
  fa_instance :: string
  fa_binding :: "string option"
  fa_issued :: datetime
  fa_expires :: datetime

definition strip_assertion :: "assertion \<Rightarrow> assertion" where
  "strip_assertion c = c\<lparr>fa_id := strip (fa_id c), fa_source := strip (fa_source c), fa_workspace := strip (fa_workspace c),
     fa_decision := strip (fa_decision c), fa_approver := strip (fa_approver c), fa_evidence := strip (fa_evidence c),
     fa_fingerprint := strip (fa_fingerprint c), fa_instance := strip (fa_instance c),
     fa_binding := map_option strip (fa_binding c)\<rparr>"

definition assertion_fields_ok :: "assertion \<Rightarrow> bool" where
  "assertion_fields_ok c \<longleftrightarrow> token_id_ok (fa_id c) \<and> token_id_ok (fa_source c) \<and> bounded 1 128 (fa_workspace c)
     \<and> bounded 1 160 (fa_decision c) \<and> bounded 1 255 (fa_approver c) \<and> bounded 1 1000 (fa_evidence c)
     \<and> fingerprint_ok (fa_fingerprint c) \<and> bounded 1 255 (fa_instance c)
     \<and> (case fa_binding c of None \<Rightarrow> True | Some h \<Rightarrow> fingerprint_ok h)"

definition notification_bound :: "assertion \<Rightarrow> bool" where
  "notification_bound c \<longleftrightarrow> fa_binding c \<noteq> None \<and> (case fa_provider c of None \<Rightarrow> False | Some p \<Rightarrow> provider_fits (fa_channel c) p)"

definition make_assertion :: "assertion \<Rightarrow> assertion result" where
  "make_assertion raw = (let c = strip_assertion raw; slack = (fa_channel c = Slack_Reaction) in
     bind_r (check (assertion_fields_ok c) ''Field constraints'') (\<lambda>_.
     bind_r (check (if slack then fa_provider c = None \<and> fa_binding c = None else notification_bound c)
       ''the channel assertion has invalid delivery binding claims'') (\<lambda>_.
     bind_r (check (dt_aware (fa_issued c) \<and> dt_aware (fa_expires c)) ''notification assertion timestamps must be timezone-aware'') (\<lambda>_.
     bind_r (check (dt_micros (fa_issued c) < dt_micros (fa_expires c)) ''notification assertions must expire after issuance'') (\<lambda>_.
     Inr c)))))"

definition assertion_dump :: "platform \<Rightarrow> assertion \<Rightarrow> pyval" where
  "assertion_dump P c = PDict [(''schema_version'', PInt 1), (''audience'', PStr ''writai-agent-channel-approval''),
     (''assertion_id'', PStr (fa_id c)), (''source_token_id'', PStr (fa_source c)), (''workspace_id'', PStr (fa_workspace c)),
     (''decision_id'', PStr (fa_decision c)), (''approver_user_id'', PStr (fa_approver c)),
     (''channel'', PStr (channel_value (fa_channel c))), (''evidence_ref'', PStr (fa_evidence c)),
     (''delivery_provider'', opt_str (map_option provider_value (fa_provider c))), (''proposal_fingerprint'', PStr (fa_fingerprint c)),
     (''proposal_instance_id'', PStr (fa_instance c)), (''recipient_binding_hash'', opt_str (fa_binding c)),
     (''issued_at'', PStr (iso_format P (fa_issued c))), (''expires_at'', PStr (iso_format P (fa_expires c)))]"

definition assertion_key :: "platform \<Rightarrow> string \<Rightarrow> string" where
  "assertion_key P secret = hmac_sha256 P secret ''writai:notification-forward:v1''"

definition make_assertion_signer ::
  "platform \<Rightarrow> string \<Rightarrow> int \<Rightarrow> (string \<Rightarrow> assertion result) \<Rightarrow> assertion token_signer result"
where
  "make_assertion_signer P secret ttl parse =
     (if length secret < 32 then
        Inl (link_configuration ''The approval assertion secret must contain at least 32 bytes.'')
      else if \<not> (1 \<le> ttl \<and> ttl \<le> 120) then
        Inl (link_configuration ''The approval assertion TTL must be between 1 and 120 seconds.'')
      else Inr \<lparr>tk_key = assertion_key P secret, tk_ttl = ttl, tk_parse = parse\<rparr>)"

definition assertion_now :: "datetime \<Rightarrow> datetime result" where
  "assertion_now now = (if dt_aware now then Inr now
     else Inl (link_configuration ''The approval assertion clock must be timezone-aware.''))"

definition PREFIX :: string where
  "PREFIX = ''daf1''"

definition assertion_token :: "platform \<Rightarrow> assertion token_signer \<Rightarrow> assertion \<Rightarrow> string" where
  "assertion_token P S c = (let signed = PREFIX @ ''.'' @ b64 (json_dumps P (assertion_dump P c)) in
     signed @ ''.'' @ token_mac P S signed)"

text \<open>\<open>min\<close> keeps the first of two that are equal.\<close>

definition earlier_time :: "datetime \<Rightarrow> datetime \<Rightarrow> datetime" where
  "earlier_time s t = (if dt_micros t < dt_micros s then t else s)"

definition approval_ref :: "link_claims \<Rightarrow> string" where
  "approval_ref c = channel_value (lk_channel c) @ ''://approval/'' @ lk_token c"

definition notification_assertion :: "int \<Rightarrow> datetime \<Rightarrow> string \<Rightarrow> link_claims \<Rightarrow> assertion" where
  "notification_assertion ttl now i c =
     \<lparr>fa_id = i, fa_source = lk_token c, fa_workspace = lk_workspace c, fa_decision = lk_decision c,
      fa_approver = lk_approver c, fa_channel = lk_channel c, fa_evidence = approval_ref c,
      fa_provider = Some (lk_provider c), fa_fingerprint = lk_fingerprint c, fa_instance = lk_instance c,
      fa_binding = Some (lk_binding c), fa_issued = now, fa_expires = earlier_time (lk_expires c) (add_seconds now ttl)\<rparr>"

definition issue_notification :: "assertion token_signer \<Rightarrow> datetime \<Rightarrow> string \<Rightarrow> link_claims \<Rightarrow> assertion result" where
  "issue_notification S now i c = bind_r (assertion_now now) (\<lambda>now. make_assertion (notification_assertion (tk_ttl S) now i c))"

definition issue_slack ::
  "assertion token_signer \<Rightarrow> datetime \<Rightarrow> string \<Rightarrow> string \<Rightarrow> pending_approval \<Rightarrow> string \<Rightarrow> string \<Rightarrow> assertion result"
where
  "issue_slack S now i source p approver ref = bind_r (assertion_now now) (\<lambda>now. make_assertion
     \<lparr>fa_id = i, fa_source = source, fa_workspace = pa_workspace p, fa_decision = pa_decision p, fa_approver = approver,
      fa_channel = Slack_Reaction, fa_evidence = ref, fa_provider = None, fa_fingerprint = pa_fingerprint p,
      fa_instance = pa_instance p, fa_binding = None, fa_issued = now, fa_expires = add_seconds now (tk_ttl S)\<rparr>)"

definition decode_assertion ::
  "platform \<Rightarrow> assertion token_signer \<Rightarrow> datetime \<Rightarrow> string \<Rightarrow> string \<Rightarrow> string \<Rightarrow> assertion result"
where
  "decode_assertion P S now token workspace decision = (let t = strip token in
     if \<not> token_shape_ok t then Inl (invalid_link ''The notification approval assertion is malformed.'')
     else (case split_on (\<lambda>c. c = CHR ''.'') t of
       [prefix, body, signature] \<Rightarrow>
         if prefix \<noteq> PREFIX \<or> body = [] \<or> signature = [] then
           Inl (invalid_link ''The notification approval assertion is malformed.'')
         else if signature \<noteq> token_mac P S (prefix @ ''.'' @ body) then
           Inl (invalid_link ''The notification approval assertion signature is invalid.'')
         else bind_r (read_claims make_assertion S body ''The notification approval assertion claims are invalid.'') (\<lambda>c.
           if fa_workspace c \<noteq> workspace \<or> fa_decision c \<noteq> decision then
             Inl (invalid_link ''The notification approval assertion targets another proposal.'')
           else bind_r (assertion_now now) (\<lambda>now.
             bind_r (in_time ''The notification approval assertion'' now (fa_issued c) (fa_expires c)) (\<lambda>_. Inr c)))
     | _ \<Rightarrow> Inl (invalid_link ''The notification approval assertion is malformed.'')))"

definition verify_assertion :: "platform \<Rightarrow> recipient_directory \<Rightarrow> assertion \<Rightarrow> unit result" where
  "verify_assertion P D c = (case (fa_provider c, fa_binding c) of
     (Some p, Some h) \<Rightarrow> verify_binding P D (fa_workspace c) (fa_approver c) (fa_channel c) p h
   | _ \<Rightarrow> Inl (invalid_link ''The channel assertion has no recipient binding.''))"

definition assertion_fingerprint :: "platform \<Rightarrow> assertion \<Rightarrow> string" where
  "assertion_fingerprint P c = stable_hash P (assertion_dump P c)"

interpretation table_assertions: use_ledger "\<lambda>available c. table_consume available (fa_id c) (assertion_fingerprint P c)" fa_id row_used for P
  by (rule table_ledger)

lemma strip_assertion_idem [simp]: "strip_assertion (strip_assertion c) = strip_assertion c"
  by (simp add: strip_assertion_def option.map_comp comp_def)

lemma make_assertionD:
  assumes "make_assertion raw = Inr c"
  shows "c = strip_assertion raw \<and> assertion_fields_ok c \<and> dt_aware (fa_issued c) \<and> dt_aware (fa_expires c)
    \<and> dt_micros (fa_issued c) < dt_micros (fa_expires c)
    \<and> (if fa_channel c = Slack_Reaction then fa_provider c = None \<and> fa_binding c = None else notification_bound c)"
  using assms by (auto simp: make_assertion_def Let_def)

lemma make_assertion_again:
  assumes "make_assertion raw = Inr c" shows "make_assertion c = Inr c"
proof -
  have "c = strip_assertion raw" using make_assertionD [OF assms] by simp
  then show ?thesis using assms by (simp add: make_assertion_def Let_def)
qed

lemma token_id_strip: "token_id_ok t \<Longrightarrow> strip t = t"
proof (rule strip_no_space)
  assume "token_id_ok t"
  then show "\<forall>c\<in>set t. \<not> is_space c" by (auto simp: token_id_ok_def is_alnum_def is_space_def Let_def)
qed

text \<open>An assertion issued on a link carries the link's claims, and does not outlive it.\<close>

lemma issued_notification:
  assumes "issue_notification S now i c = Inr f" and "make_link c = Inr c"
  shows "fa_source f = lk_token c \<and> fa_workspace f = lk_workspace c \<and> fa_decision f = lk_decision c \<and> fa_approver f = lk_approver c
    \<and> fa_channel f = lk_channel c \<and> fa_fingerprint f = lk_fingerprint c \<and> fa_instance f = lk_instance c
    \<and> fa_provider f = Some (lk_provider c) \<and> fa_binding f = Some (lk_binding c) \<and> fa_id f = strip i
    \<and> dt_micros (fa_expires f) \<le> dt_micros (lk_expires c) \<and> make_assertion f = Inr f"
proof -
  have f: "make_assertion (notification_assertion (tk_ttl S) now i c) = Inr f"
    using assms(1) by (auto simp: issue_notification_def assertion_now_def split: if_splits)
  have "strip_link c = c" using make_linkD [OF assms(2)] by simp
  then have "strip (lk_token c) = lk_token c \<and> strip (lk_workspace c) = lk_workspace c \<and> strip (lk_decision c) = lk_decision c
      \<and> strip (lk_approver c) = lk_approver c \<and> strip (lk_fingerprint c) = lk_fingerprint c
      \<and> strip (lk_instance c) = lk_instance c \<and> strip (lk_binding c) = lk_binding c"
    by (cases c) (simp add: strip_link_def)
  then show ?thesis
    using make_assertionD [OF f] make_assertion_again [OF f]
    by (simp add: strip_assertion_def notification_assertion_def earlier_time_def)
qed

lemma split_on_three:
  assumes "split_on p t = [a, b, c]" shows "\<exists>d e. p d \<and> p e \<and> t = a @ d # b @ e # c"
  using assms
proof (induction t arbitrary: a)
  case (Cons x xs)
  show ?case
  proof (cases "p x")
    case True
    then have "split_on p xs = [b, c]" "a = []" using Cons.prems by simp_all
    then show ?thesis using True split_on_two [of p xs b c] by fastforce
  next
    case False
    then obtain w where "split_on p xs = [w, b, c]" "a = x # w" using Cons.prems by (auto split: list.splits)
    then show ?thesis using Cons.IH [of w] by fastforce
  qed
qed simp

lemma assertion_token_parts:
  "split_on (\<lambda>x. x = CHR ''.'') (assertion_token P S c)
    = [PREFIX, b64 (json_dumps P (assertion_dump P c)), token_mac P S (PREFIX @ ''.'' @ b64 (json_dumps P (assertion_dump P c)))]"
proof -
  have "\<forall>x\<in>set PREFIX. \<not> x = CHR ''.''" by (simp add: PREFIX_def)
  then show ?thesis using b64_no_dot by (simp add: assertion_token_def Let_def token_mac_def split_on_append split_on_plain)
qed

lemma assertion_token_chars: "\<forall>x\<in>set (assertion_token P S c). \<not> is_space x \<and> of_char x < (128::nat)"
  using b64_alphabet by (auto simp: assertion_token_def token_mac_def Let_def is_space_def PREFIX_def)

text \<open>What the agent decodes of a token that the authority made is what the authority put into it.\<close>

lemma decode_assertion_token:
  assumes "tk_parse S (json_dumps P (assertion_dump P f)) = Inr f" and "make_assertion f = Inr f"
    and "decode_assertion P S now (assertion_token P S' f) w d = Inr f'"
  shows "f' = f \<and> fa_workspace f = w \<and> fa_decision f = d \<and> dt_micros now < dt_micros (fa_expires f)"
proof -
  have t: "strip (assertion_token P S' f) = assertion_token P S' f"
    using assertion_token_chars by (intro strip_no_space) blast
  show ?thesis
    using assms(3) unfolding decode_assertion_def Let_def t assertion_token_parts
    by (auto simp: read_claims_def strict_unb64_b64 assms(1,2) assertion_now_def in_time_def split: if_splits)
qed

subsection \<open>Redemption\<close>

text \<open>
  The signer and the redeemer each have a clock; both read the state, which the other parts move on.
\<close>

record ('x, 'r) link_redeemer =
  lr_signer :: "link_claims token_signer"
  lr_signer_now :: "'x \<Rightarrow> datetime"
  lr_now :: "'x \<Rightarrow> datetime"
  lr_verify :: "link_claims \<Rightarrow> unit result"
  lr_consume :: "link_claims \<Rightarrow> datetime \<Rightarrow> ('x, bool) op"
  lr_approve :: "link_claims \<Rightarrow> string \<Rightarrow> ('x, 'r) op"

definition inspect_link :: "platform \<Rightarrow> ('x, 'r) link_redeemer \<Rightarrow> string \<Rightarrow> approval_channel \<Rightarrow> ('x, link_claims) op" where
  "inspect_link P L token ch =
     bind_op (read_op (\<lambda>x. decode_link P (lr_signer L) (lr_signer_now L x) token ch)) (\<lambda>c.
     bind_op (read_op (\<lambda>_. lr_verify L c)) (\<lambda>_. ret_op c))"

definition redeem_link ::
  "platform \<Rightarrow> ('x, 'r) link_redeemer \<Rightarrow> string \<Rightarrow> approval_channel \<Rightarrow> ('x, link_claims \<times> 'r) op"
where
  "redeem_link P L token ch =
     bind_op (inspect_link P L token ch) (\<lambda>c.
     bind_op (read_op (\<lambda>x. aware_now (lr_now L x))) (\<lambda>now.
     bind_op (lr_consume L c now) (\<lambda>fresh.
     if \<not> fresh then raise_op (link_error ''ReplayedApprovalLink'' ''The approval link has already been used.'')
     else bind_op (lr_approve L c (approval_ref c)) (\<lambda>r. ret_op (c, r)))))"

text \<open>What goes before the approval: the claims, taken from the ledger.\<close>

definition claim_link :: "platform \<Rightarrow> ('x, 'r) link_redeemer \<Rightarrow> string \<Rightarrow> approval_channel \<Rightarrow> ('x, link_claims) op" where
  "claim_link P L token ch =
     bind_op (inspect_link P L token ch) (\<lambda>c.
     bind_op (read_op (\<lambda>x. aware_now (lr_now L x))) (\<lambda>now.
     bind_op (lr_consume L c now) (\<lambda>fresh.
     if \<not> fresh then raise_op (link_error ''ReplayedApprovalLink'' ''The approval link has already been used.'') else ret_op c)))"

lemma redeem_link_claims:
  "redeem_link P L token ch = bind_op (claim_link P L token ch)
     (\<lambda>c. bind_op (lr_approve L c (approval_ref c)) (\<lambda>r. ret_op (c, r)))"
  by (rule ext) (simp add: redeem_link_def claim_link_def bind_op_def raise_op_def ret_op_def split: sum.split prod.split)

text \<open>The redeemer of the authority: its table of uses, and whatever is behind its approving port.\<close>

definition authority_redeemer ::
  "platform \<Rightarrow> link_claims token_signer \<Rightarrow> recipient_directory \<Rightarrow> datetime \<Rightarrow> datetime \<Rightarrow> bool
    \<Rightarrow> (link_claims \<Rightarrow> string \<Rightarrow> ('h, 'r) op) \<Rightarrow> (token_use list \<times> 'h, 'r) link_redeemer"
where
  "authority_redeemer P S D t1 t2 available approve =
     \<lparr>lr_signer = S, lr_signer_now = (\<lambda>_. t1), lr_now = (\<lambda>_. t2), lr_verify = verify_link P D,
      lr_consume = (\<lambda>c now. on_store (table_consume available (lk_token c) (link_fingerprint P c) now)),
      lr_approve = (\<lambda>c r. on_remote (approve c r))\<rparr>"

text \<open>
  The links that a history of redemptions brings to the approving port; each has its own clocks, its own
  directory and its own port, and the table may be unavailable.
\<close>

record ('h, 'r) redemption =
  rm_directory :: recipient_directory
  rm_signer_now :: datetime
  rm_now :: datetime
  rm_available :: bool
  rm_approve :: "link_claims \<Rightarrow> string \<Rightarrow> ('h, 'r) op"
  rm_token :: string
  rm_channel :: approval_channel

definition redeemer_of :: "platform \<Rightarrow> link_claims token_signer \<Rightarrow> ('h, 'r) redemption \<Rightarrow> (token_use list \<times> 'h, 'r) link_redeemer" where
  "redeemer_of P S m = authority_redeemer P S (rm_directory m) (rm_signer_now m) (rm_now m) (rm_available m) (rm_approve m)"

fun claimed_links ::
  "platform \<Rightarrow> link_claims token_signer \<Rightarrow> ('h, 'r) redemption list \<Rightarrow> token_use list \<times> 'h \<Rightarrow> link_claims list"
where
  "claimed_links P S [] x = []"
| "claimed_links P S (m # ms) x = (case claim_link P (redeemer_of P S m) (rm_token m) (rm_channel m) x of
     (Inl e, y) \<Rightarrow> claimed_links P S ms y
   | (Inr c, y) \<Rightarrow> c # claimed_links P S ms (snd (lr_approve (redeemer_of P S m) c (approval_ref c) y)))"

lemma claim_link_cases:
  assumes "claim_link P (authority_redeemer P S D t1 t2 available approve) token ch x = (r, y)"
  shows "snd y = snd x \<and> (\<forall>i. row_used i (fst x) \<longrightarrow> row_used i (fst y))
    \<and> (\<forall>c. r = Inr c \<longrightarrow> decode_link P S t1 token ch = Inr c \<and> verify_link P D c = Inr ()
        \<and> \<not> row_used (lk_token c) (fst x) \<and> row_used (lk_token c) (fst y))"
proof -
  let ?L = "authority_redeemer P S D t1 t2 available approve"
  consider e where "decode_link P S t1 token ch = Inl e"
    | c e where "decode_link P S t1 token ch = Inr c" "verify_link P D c = Inl e"
    | c e where "decode_link P S t1 token ch = Inr c" "verify_link P D c = Inr ()" "aware_now t2 = Inl e"
    | c now where "decode_link P S t1 token ch = Inr c" "verify_link P D c = Inr ()" "aware_now t2 = Inr now"
    by (cases "decode_link P S t1 token ch"; cases "verify_link P D (projr (decode_link P S t1 token ch))"; cases "aware_now t2") auto
  then show ?thesis
  proof cases
    case 4
    obtain ok f where f: "table_consume available (lk_token c) (link_fingerprint P c) now (fst x) = (ok, f)" by (rule prod.exhaust)
    have "row_used (lk_token c) (fst x) \<Longrightarrow> ok \<noteq> Inr True"
      using table_links.used_refuses [of c "fst x" available P now] f by simp
    moreover have "row_used i (fst x) \<Longrightarrow> row_used i f" for i
      using table_links.consume_keeps [of i "fst x" available c P now] f by simp
    moreover have "ok = Inr True \<Longrightarrow> row_used (lk_token c) f"
      using table_links.consume_uses [of available c P now "fst x" f] f by simp
    ultimately show ?thesis using assms 4 f
      by (auto simp: claim_link_def inspect_link_def authority_redeemer_def bind_op_def on_store_def split: sum.splits if_splits)
  qed (use assms in \<open>auto simp: claim_link_def inspect_link_def authority_redeemer_def bind_op_def\<close>)
qed

lemma approve_keeps_ledger: "fst (snd (lr_approve (redeemer_of P S m) c ref y)) = fst y"
  by (simp add: redeemer_of_def authority_redeemer_def on_remote_def split: prod.split)

lemma claimed_links_once:
  "distinct (map lk_token (claimed_links P S ms x)) \<and> (\<forall>c\<in>set (claimed_links P S ms x). \<not> row_used (lk_token c) (fst x))"
proof (induction ms arbitrary: x)
  case (Cons m ms)
  obtain r y where r: "claim_link P (redeemer_of P S m) (rm_token m) (rm_channel m) x = (r, y)" by (rule prod.exhaust)
  note step = claim_link_cases [OF r [unfolded redeemer_of_def]]
  show ?case
  proof (cases r)
    case (Inl e)
    then show ?thesis using Cons.IH [of y] r step by auto
  next
    case (Inr c)
    then show ?thesis
      using Cons.IH [of "snd (lr_approve (redeemer_of P S m) c (approval_ref c) y)"] r step by (auto simp: approve_keeps_ledger)
  qed
qed simp

end
