(* ===== verification/Link_Routes.thy ===== *)
theory Link_Routes
  imports Approval_Links
begin

text \<open>
  A confirmation from another channel on its way between the services: the routes of the agent that take an
  assertion (\<^verbatim>\<open>services/agent_api.py\<close>), and the authority's side of it, which redeems a link and forwards what
  it proved (\<^verbatim>\<open>services/authority_api.py\<close>).
\<close>

subsection \<open>The agent\<close>

record channel_config =
  cc_secret :: "string option"
  cc_grant :: string
  cc_bindings :: "string option"
  cc_server :: string
  cc_recipients :: "string \<Rightarrow> recipient list option"
  cc_assertion :: "string \<Rightarrow> assertion result"
  cc_link :: "string \<Rightarrow> link_claims result"
  cc_link_ttl :: int

definition configuration_classes :: "string set" where
  "configuration_classes = {''ApprovalLinkConfigurationError'', ''ApprovalRecipientBindingError''}"

text \<open>The handlers of the routes: an error of a class they name becomes an answer.\<close>

definition assertion_api_error :: "py_error \<Rightarrow> py_error" where
  "assertion_api_error e = (case e of
     Raised cls m \<Rightarrow>
       if cls = ''ExpiredApprovalLink'' then ApiFailure 401 ''APPROVAL_ASSERTION_EXPIRED'' False
       else if cls = ''InvalidApprovalLink'' then ApiFailure 401 ''INVALID_APPROVAL_ASSERTION'' False
       else if cls \<in> configuration_classes then ApiFailure 503 ''APPROVAL_ASSERTIONS_NOT_CONFIGURED'' False
       else e
   | _ \<Rightarrow> e)"

definition decode_channel_assertion ::
  "platform \<Rightarrow> channel_config \<Rightarrow> datetime \<Rightarrow> string \<Rightarrow> string \<Rightarrow> string \<Rightarrow> assertion result"
where
  "decode_channel_assertion P C now token i d = (let secret = (case cc_secret C of None \<Rightarrow> [] | Some s \<Rightarrow> s) in
     if secret = [] \<or> secret = cc_grant C then Inl (ApiFailure 503 ''APPROVAL_ASSERTIONS_NOT_CONFIGURED'' False)
     else map_sum assertion_api_error id (bind_r (make_assertion_signer P secret 30 (cc_assertion C))
       (\<lambda>S. decode_assertion P S now token i d)))"

definition consume_channel_assertion ::
  "platform \<Rightarrow> bool \<Rightarrow> assertion \<Rightarrow> datetime \<Rightarrow> (token_use list, unit) op"
where
  "consume_channel_assertion P available c now f =
     (case table_consume available (fa_id c) (assertion_fingerprint P c) now f of
       (Inl (Raised cls m), f') \<Rightarrow>
         (Inl (if cls = ''ApprovalLinkStoreError'' then ApiFailure 503 ''APPROVAL_ASSERTION_LEDGER_UNAVAILABLE'' True
               else Raised cls m), f')
     | (Inl e, f') \<Rightarrow> (Inl e, f')
     | (Inr fresh, f') \<Rightarrow>
         if fresh then (Inr (), f') else (Inl (ApiFailure 409 ''APPROVAL_ASSERTION_ALREADY_USED'' False), f'))"

definition trusted_attempt :: "assertion \<Rightarrow> approval_attempt" where
  "trusted_attempt c = \<lparr>at_channel = fa_channel c, at_ref = fa_evidence c, at_fingerprint = Some (fa_fingerprint c),
     at_instance = Some (fa_instance c)\<rparr>"

definition other_channel :: py_error where
  "other_channel = ApiFailure 401 ''INVALID_APPROVAL_ASSERTION'' False"

text \<open>The agent's table of assertions beside the state of its ports; two readings of the clock.\<close>

record agent_call =
  ac_supplied :: string
  ac_now :: datetime
  ac_used :: datetime
  ac_available :: bool

definition take_assertion ::
  "platform \<Rightarrow> 'x approval_ports \<Rightarrow> agent_call \<Rightarrow> string \<Rightarrow> string \<Rightarrow> assertion
    \<Rightarrow> (token_use list \<times> 'x, approval_disposition \<times> workspace_view option) op"
where
  "take_assertion P A k i d c =
     bind_op (on_store (consume_channel_assertion P (ac_available k) c (ac_used k)))
       (\<lambda>_. on_remote (approve_from_trusted_channel P A i d (fa_approver c) (trusted_attempt c)))"

definition approve_from_slack ::
  "platform \<Rightarrow> channel_config \<Rightarrow> 'x approval_ports \<Rightarrow> agent_call \<Rightarrow> string \<Rightarrow> string \<Rightarrow> string
    \<Rightarrow> (token_use list \<times> 'x, approval_disposition \<times> workspace_view option) op"
where
  "approve_from_slack P C A k i d token = guarded P (cc_grant C) (ac_supplied k)
     (bind_op (read_op (\<lambda>_. decode_channel_assertion P C (ac_now k) token i d)) (\<lambda>c.
      if fa_channel c \<noteq> Slack_Reaction then raise_op other_channel else take_assertion P A k i d c))"

definition verify_recipient :: "platform \<Rightarrow> channel_config \<Rightarrow> assertion \<Rightarrow> unit result" where
  "verify_recipient P C c = map_sum
     (\<lambda>e. case e of
        Raised cls m \<Rightarrow> if cls = ''InvalidApprovalLink'' then other_channel
          else if cls \<in> configuration_classes then ApiFailure 503 ''APPROVAL_ASSERTIONS_NOT_CONFIGURED'' False else e
      | _ \<Rightarrow> e) id
     (bind_r (directory_from_json (cc_recipients C) (cc_bindings C) (cc_server C)) (\<lambda>D. verify_assertion P D c))"

definition approve_from_notification ::
  "platform \<Rightarrow> channel_config \<Rightarrow> 'x approval_ports \<Rightarrow> agent_call \<Rightarrow> string \<Rightarrow> string \<Rightarrow> string
    \<Rightarrow> (token_use list \<times> 'x, approval_disposition \<times> workspace_view option) op"
where
  "approve_from_notification P C A k i d token = guarded P (cc_grant C) (ac_supplied k)
     (bind_op (read_op (\<lambda>_. decode_channel_assertion P C (ac_now k) token i d)) (\<lambda>c.
      if fa_channel c \<notin> {Push, Email} then raise_op other_channel
      else bind_op (read_op (\<lambda>_. verify_recipient P C c)) (\<lambda>_. take_assertion P A k i d c)))"

subsection \<open>The authority\<close>

datatype approval_route = Slack_Route | Notification_Route

text \<open>The agent's answer as the client presents it; a workspace that is no object, or a disposition that is none, is garbled.\<close>

definition forward_reply :: "(approval_disposition \<times> 'w option) reply \<Rightarrow> (approval_disposition \<times> 'w option) result" where
  "forward_reply reply = (case reply of
     Timed_Out \<Rightarrow> Inl (ApiFailure 504 ''AGENT_APPROVAL_TIMEOUT'' True)
   | Unreachable \<Rightarrow> Inl (ApiFailure 503 ''AGENT_APPROVAL_UNAVAILABLE'' True)
   | Failed s code \<Rightarrow> if s = 409 then Inr (Approval_Stale, None)
       else Inl (ApiFailure 502 ''AGENT_APPROVAL_REJECTED'' (500 \<le> s))
   | Garbled \<Rightarrow> Inl (ApiFailure 502 ''AGENT_APPROVAL_INVALID_RESPONSE'' False)
   | Replied v \<Rightarrow> if fst v \<in> {Approval_Approved, Approval_Already} \<and> snd v = None then
         Inl (ApiFailure 502 ''AGENT_APPROVAL_INVALID_RESPONSE'' False)
       else Inr v)"

type_synonym ('h, 'w) agent_sender =
  "approval_route \<Rightarrow> string \<Rightarrow> string \<Rightarrow> string \<Rightarrow> 'h \<Rightarrow> (approval_disposition \<times> 'w option) reply \<times> 'h"

definition forward ::
  "('h, 'w) agent_sender \<Rightarrow> string \<Rightarrow> string \<Rightarrow> approval_channel \<Rightarrow> string \<Rightarrow> ('h, approval_disposition \<times> 'w option) op"
where
  "forward post i d channel token h =
     (case post (if channel = Slack_Reaction then Slack_Route else Notification_Route) i d token h of
       (reply, h') \<Rightarrow> (forward_reply reply, h'))"

definition approval_link_secret :: "channel_config \<Rightarrow> string result" where
  "approval_link_secret C = (let secret = (case cc_secret C of None \<Rightarrow> [] | Some s \<Rightarrow> s) in
     if secret = [] \<or> secret = cc_grant C then
       Inl (link_configuration ''WRITAI_APPROVAL_LINK_SECRET must be configured and distinct from WRITAI_GRANT_SECRET.'')
     else Inr secret)"

definition approval_link_signer :: "channel_config \<Rightarrow> link_claims token_signer result" where
  "approval_link_signer C = bind_r (approval_link_secret C) (\<lambda>s. make_link_signer s (cc_link_ttl C) (cc_link C))"

definition channel_assertion_signer :: "platform \<Rightarrow> channel_config \<Rightarrow> assertion token_signer result" where
  "channel_assertion_signer P C = bind_r (approval_link_secret C) (\<lambda>s. make_assertion_signer P s 30 (cc_assertion C))"

definition approve_reaction ::
  "platform \<Rightarrow> channel_config \<Rightarrow> ('h, 'w) agent_sender \<Rightarrow> datetime \<Rightarrow> string \<Rightarrow> string \<Rightarrow> pending_approval \<Rightarrow> string
    \<Rightarrow> approval_channel \<Rightarrow> string \<Rightarrow> ('h, approval_disposition \<times> 'w option) op"
where
  "approve_reaction P C post now new_id source p approver channel ref =
     (if channel \<noteq> Slack_Reaction then
        raise_op (Raised ''SlackNotificationError'' ''The signed Slack path accepts only Slack reaction approvals.'')
      else bind_op (read_op (\<lambda>_. bind_r (channel_assertion_signer P C) (\<lambda>S.
          map_sum id (assertion_token P S) (issue_slack S now new_id source p approver ref))))
        (forward post (pa_workspace p) (pa_decision p) channel))"

definition approve_bound ::
  "platform \<Rightarrow> channel_config \<Rightarrow> ('h, 'w) agent_sender \<Rightarrow> datetime \<Rightarrow> string \<Rightarrow> link_claims \<Rightarrow> string
    \<Rightarrow> ('h, approval_disposition \<times> 'w option) op"
where
  "approve_bound P C post now new_id c ref =
     (if lk_channel c \<notin> {Push, Email} then
        raise_op (link_error ''ApprovalLinkError'' ''The signed-link path accepts push or email approvals only.'')
      else bind_op (read_op (\<lambda>_. bind_r (channel_assertion_signer P C) (\<lambda>S.
          map_sum id (assertion_token P S) (issue_notification S now new_id c))))
        (forward post (lk_workspace c) (lk_decision c) (lk_channel c)))"

text \<open>A request to redeem a link: three readings of the clock, the random id of the assertion, and whether the table can be used.\<close>

record redeem_call =
  rc_signer_now :: datetime
  rc_now :: datetime
  rc_forward_now :: datetime
  rc_id :: string
  rc_available :: bool

definition approval_link_redeemer ::
  "platform \<Rightarrow> channel_config \<Rightarrow> ('h, 'w) agent_sender \<Rightarrow> redeem_call
    \<Rightarrow> (token_use list \<times> 'h, approval_disposition \<times> 'w option) link_redeemer result"
where
  "approval_link_redeemer P C post k =
     bind_r (approval_link_signer C) (\<lambda>S.
     bind_r (directory_from_json (cc_recipients C) (cc_bindings C) (cc_server C)) (\<lambda>D.
     Inr (authority_redeemer P S D (rc_signer_now k) (rc_now k) (rc_available k)
       (approve_bound P C post (rc_forward_now k) (rc_id k)))))"

definition redeem_api_error :: "py_error \<Rightarrow> py_error" where
  "redeem_api_error e = (case e of
     Raised cls m \<Rightarrow>
       if cls = ''ExpiredApprovalLink'' then ApiFailure 410 ''APPROVAL_LINK_EXPIRED'' False
       else if cls = ''ReplayedApprovalLink'' then ApiFailure 409 ''APPROVAL_LINK_ALREADY_USED'' False
       else if cls = ''InvalidApprovalLink'' then ApiFailure 400 ''INVALID_APPROVAL_LINK'' False
       else if cls \<in> configuration_classes then ApiFailure 503 ''APPROVAL_LINKS_NOT_CONFIGURED'' False
       else e
   | _ \<Rightarrow> e)"

definition redemption_outcome :: "approval_disposition \<Rightarrow> py_error option" where
  "redemption_outcome d = (
     if d = Approval_Stale then Some (ApiFailure 409 ''STALE_APPROVAL_LINK'' False)
     else if d = Approval_Not_Authorized then Some (ApiFailure 403 ''APPROVER_NOT_AUTHORIZED'' False)
     else if d = Approval_Check_Unavailable then Some (ApiFailure 503 ''PERMISSION_CHECK_UNAVAILABLE'' True)
     else if d \<notin> {Approval_Approved, Approval_Already} then Some (ApiFailure 409 ''APPROVAL_LINK_REJECTED'' False)
     else None)"

definition redeem_approval_link ::
  "platform \<Rightarrow> channel_config \<Rightarrow> ('h, 'w) agent_sender \<Rightarrow> redeem_call \<Rightarrow> approval_channel \<Rightarrow> string
    \<Rightarrow> (token_use list \<times> 'h, link_claims \<times> approval_disposition) op"
where
  "redeem_approval_link P C post k channel token x =
     (case bind_op (read_op (\<lambda>_. approval_link_redeemer P C post k)) (\<lambda>L. redeem_link P L token channel) x of
       (Inl e, y) \<Rightarrow> (Inl (redeem_api_error e), y)
     | (Inr (c, d, v), y) \<Rightarrow> (case redemption_outcome d of Some e \<Rightarrow> (Inl e, y) | None \<Rightarrow> (Inr (c, d), y)))"

text \<open>Where a request may carry its token: in a form or in a JSON object, never in the address. The library reads both.\<close>

record token_request =
  tq_query :: "string option"
  tq_content_type :: string
  tq_body :: string

definition token_in_body :: "(string \<Rightarrow> string list dict option) \<Rightarrow> (string \<Rightarrow> pyval option) \<Rightarrow> token_request \<Rightarrow> string option result" where
  "token_in_body parse_qs loads q = (let kind = hd (split_on (\<lambda>c. c = CHR '';'') (tq_content_type q)) in
     if tq_body q = [] then Inr None
     else if kind = ''application/x-www-form-urlencoded'' then
       (case parse_qs (tq_body q) of
         None \<Rightarrow> Inl (ApiFailure 400 ''INVALID_APPROVAL_LINK_REQUEST'' False)
       | Some values \<Rightarrow> Inr (case dict_get values ''token'' of Some [t] \<Rightarrow> Some t | _ \<Rightarrow> None))
     else if kind = ''application/json'' then
       (case loads (tq_body q) of
         None \<Rightarrow> Inl (ApiFailure 400 ''INVALID_APPROVAL_LINK_REQUEST'' False)
       | Some (PDict payload) \<Rightarrow> Inr (string_at payload ''token'')
       | Some _ \<Rightarrow> Inr None)
     else Inr None)"

definition approval_token_from_request ::
  "(string \<Rightarrow> string list dict option) \<Rightarrow> (string \<Rightarrow> pyval option) \<Rightarrow> token_request \<Rightarrow> string result"
where
  "approval_token_from_request parse_qs loads q =
     (if tq_query q \<noteq> None then Inl (ApiFailure 400 ''APPROVAL_TOKEN_QUERY_FORBIDDEN'' False)
      else if 10000 < length (tq_body q) then Inl (ApiFailure 413 ''APPROVAL_LINK_REQUEST_TOO_LARGE'' False)
      else bind_r (token_in_body parse_qs loads q) (\<lambda>t. case t of
        None \<Rightarrow> Inl (ApiFailure 400 ''APPROVAL_LINK_REQUIRED'' False)
      | Some token \<Rightarrow> if strip token = [] then Inl (ApiFailure 400 ''APPROVAL_LINK_REQUIRED'' False) else Inr token))"

subsection \<open>The two together\<close>

text \<open>
  The agent behind its address: a parameter of a path holds no slash. The network may lose a request before
  it is served, and a reply after.
\<close>

definition agent_service ::
  "platform \<Rightarrow> channel_config \<Rightarrow> 'x approval_ports \<Rightarrow> agent_call \<Rightarrow> (token_use list \<times> 'x, workspace_view) agent_sender"
where
  "agent_service P C A k route i d token x =
     (if CHR ''/'' \<in> set (i @ d) then (Failed 404 None, x)
      else serve (case route of Slack_Route \<Rightarrow> approve_from_slack P C A k i d token
        | Notification_Route \<Rightarrow> approve_from_notification P C A k i d token) x)"

definition agent_post ::
  "fault \<Rightarrow> platform \<Rightarrow> channel_config \<Rightarrow> 'x approval_ports \<Rightarrow> agent_call \<Rightarrow> (token_use list \<times> 'x, workspace_view) agent_sender"
where
  "agent_post fault P C A k route i d token x = (case fault of
     Fine \<Rightarrow> agent_service P C A k route i d token x
   | Lost_Request \<Rightarrow> (Timed_Out, x)
   | No_Route \<Rightarrow> (Unreachable, x)
   | Lost_Reply \<Rightarrow> (Timed_Out, snd (agent_service P C A k route i d token x))
   | Broken_Reply \<Rightarrow> (Garbled, snd (agent_service P C A k route i d token x)))"

subsection \<open>What the agent makes of an assertion\<close>

lemma consume_channel_assertion_fresh:
  assumes "consume_channel_assertion P available c now f = (Inr (), f')"
  shows "\<not> row_used (fa_id c) f \<and> row_used (fa_id c) f'"
proof -
  obtain r g where r: "table_consume available (fa_id c) (assertion_fingerprint P c) now f = (r, g)" by (rule prod.exhaust)
  then have "r = Inr True \<and> g = f'"
    using assms by (cases r) (auto simp: consume_channel_assertion_def split: py_error.splits if_splits)
  then show ?thesis
    using table_assertions.used_refuses [of c f available P now] table_assertions.consume_uses [of available c P now f f'] r by auto
qed

lemma confirmed_record_attempt:
  assumes "at_fingerprint a = at_fingerprint b" and "at_instance a = at_instance b"
  shows "confirmed_record P checker team d approver a w = confirmed_record P checker team d approver b w"
  using assms by (simp add: confirmed_record_def)

lemma take_assertion_confirmed:
  assumes A_def: "A = agent_ports E others meanwhile now resolve checker team notify"
  shows "take_assertion (sv_platform E) (A\<lparr>ap_decide := g\<rparr>) k i d c x = take_assertion (sv_platform E) A k i d c x
    \<or> (\<not> row_used (fa_id c) (fst x) \<and> (\<exists>w. sv_get E (fst (fst (snd x))) i = Inr w
        \<and> confirmed_record (sv_platform E) checker team d (fa_approver c) (trusted_attempt c) w
        \<and> (fa_channel c = Slack_Reaction \<longrightarrow> bound_approver w (fa_approver c))))"
proof -
  obtain r f where r: "consume_channel_assertion (sv_platform E) (ac_available k) c (ac_used k) (fst x) = (r, f)" by (rule prod.exhaust)
  show ?thesis
  proof (cases r)
    case (Inl e)
    then show ?thesis using r by (simp add: take_assertion_def bind_op_def on_store_def)
  next
    case (Inr u)
    have "at_channel (trusted_attempt c) = fa_channel c" by (simp add: trusted_attempt_def)
    then show ?thesis
      using agent_channel_confirmed [OF A_def, of g i d "fa_approver c" "trusted_attempt c" "snd x"]
        consume_channel_assertion_fresh [of "sv_platform E" "ac_available k" c "ac_used k" "fst x" f] r Inr
      by (auto simp: take_assertion_def bind_op_def on_store_def on_remote_def)
  qed
qed

lemma guarded_cases: "guarded P secret supplied m x = (if trusted P secret supplied then m x
    else (Inl (ApiFailure 403 ''INTERNAL_SERVICE_AUTH_REQUIRED'' False), x))"
  by (simp add: guarded_def bind_op_def read_op_def require_internal_service_def)

lemma notification_confirmed:
  assumes A_def: "A = agent_ports E others meanwhile now resolve checker team notify"
  shows "approve_from_notification (sv_platform E) C (A\<lparr>ap_decide := g\<rparr>) k i d token x
      = approve_from_notification (sv_platform E) C A k i d token x
    \<or> (\<exists>c w. trusted (sv_platform E) (cc_grant C) (ac_supplied k)
        \<and> decode_channel_assertion (sv_platform E) C (ac_now k) token i d = Inr c \<and> fa_channel c \<in> {Push, Email}
        \<and> verify_recipient (sv_platform E) C c = Inr () \<and> \<not> row_used (fa_id c) (fst x)
        \<and> sv_get E (fst (fst (snd x))) i = Inr w
        \<and> confirmed_record (sv_platform E) checker team d (fa_approver c) (trusted_attempt c) w)"
proof (cases "trusted (sv_platform E) (cc_grant C) (ac_supplied k) \<and> (\<exists>c. decode_channel_assertion (sv_platform E) C (ac_now k) token i d = Inr c
    \<and> fa_channel c \<in> {Push, Email} \<and> verify_recipient (sv_platform E) C c = Inr ())")
  case True
  then obtain c where c: "decode_channel_assertion (sv_platform E) C (ac_now k) token i d = Inr c" "fa_channel c \<in> {Push, Email}"
      "verify_recipient (sv_platform E) C c = Inr ()" by blast
  then show ?thesis using take_assertion_confirmed [OF A_def, of g k i d c x] True
    by (auto simp: approve_from_notification_def guarded_cases bind_op_def)
next
  case False
  then show ?thesis
    by (cases "decode_channel_assertion (sv_platform E) C (ac_now k) token i d";
        cases "verify_recipient (sv_platform E) C (projr (decode_channel_assertion (sv_platform E) C (ac_now k) token i d))")
      (auto simp: approve_from_notification_def guarded_cases bind_op_def)
qed

lemma reaction_confirmed:
  assumes A_def: "A = agent_ports E others meanwhile now resolve checker team notify"
  shows "approve_from_slack (sv_platform E) C (A\<lparr>ap_decide := g\<rparr>) k i d token x
      = approve_from_slack (sv_platform E) C A k i d token x
    \<or> (\<exists>c w. trusted (sv_platform E) (cc_grant C) (ac_supplied k)
        \<and> decode_channel_assertion (sv_platform E) C (ac_now k) token i d = Inr c \<and> fa_channel c = Slack_Reaction
        \<and> \<not> row_used (fa_id c) (fst x) \<and> sv_get E (fst (fst (snd x))) i = Inr w
        \<and> confirmed_record (sv_platform E) checker team d (fa_approver c) (trusted_attempt c) w
        \<and> bound_approver w (fa_approver c))"
proof (cases "trusted (sv_platform E) (cc_grant C) (ac_supplied k)
    \<and> (\<exists>c. decode_channel_assertion (sv_platform E) C (ac_now k) token i d = Inr c \<and> fa_channel c = Slack_Reaction)")
  case True
  then obtain c where c: "decode_channel_assertion (sv_platform E) C (ac_now k) token i d = Inr c" "fa_channel c = Slack_Reaction" by blast
  then show ?thesis using take_assertion_confirmed [OF A_def, of g k i d c x] True
    by (auto simp: approve_from_slack_def guarded_cases bind_op_def)
next
  case False
  then show ?thesis
    by (cases "decode_channel_assertion (sv_platform E) C (ac_now k) token i d")
      (auto simp: approve_from_slack_def guarded_cases bind_op_def)
qed

subsection \<open>A link approves what it was issued for\<close>

definition link_attempt :: "link_claims \<Rightarrow> approval_attempt" where
  "link_attempt c = \<lparr>at_channel = lk_channel c, at_ref = approval_ref c, at_fingerprint = Some (lk_fingerprint c),
     at_instance = Some (lk_instance c)\<rparr>"

text \<open>The link was signed by the authority, was not used before, and its approval is in the workspace's record.\<close>

definition link_confirmed ::
  "platform \<Rightarrow> (string \<Rightarrow> string + 'h checker) \<Rightarrow> string \<Rightarrow> channel_config \<Rightarrow> redeem_call \<Rightarrow> approval_channel \<Rightarrow> string
    \<Rightarrow> token_use list \<Rightarrow> (string \<Rightarrow> live_record result) \<Rightarrow> bool"
where
  "link_confirmed P checker team C k channel token ledger get \<longleftrightarrow> (\<exists>S c w. approval_link_signer C = Inr S
     \<and> decode_link P S (rc_signer_now k) token channel = Inr c \<and> \<not> row_used (lk_token c) ledger
     \<and> get (lk_workspace c) = Inr w
     \<and> confirmed_record P checker team (lk_decision c) (lk_approver c) (link_attempt c) w)"

lemma decode_link_made:
  assumes "decode_link P S now token ch = Inr c" shows "make_link c = Inr c"
proof -
  obtain body where "read_claims make_link S body ''The approval-link claims are invalid.'' = Inr c"
    using decode_linkD [OF assms] by blast
  then obtain raw where "make_link raw = Inr c"
    by (auto simp: read_claims_def split: sum.splits)
  then show ?thesis by (rule make_link_again)
qed

lemma decode_channel_assertion_issued:
  assumes "decode_channel_assertion P C now (assertion_token P S' f) i d = Inr c" and "make_assertion f = Inr f"
    and "cc_assertion C (json_dumps P (assertion_dump P f)) = Inr f"
  shows "c = f \<and> fa_workspace f = i \<and> fa_decision f = d"
proof -
  define S where "S = \<lparr>tk_key = assertion_key P (case cc_secret C of None \<Rightarrow> [] | Some s \<Rightarrow> s), tk_ttl = 30, tk_parse = cc_assertion C\<rparr>"
  have S: "tk_parse S = cc_assertion C" "decode_assertion P S now (assertion_token P S' f) i d = Inr c"
    using assms(1) by (auto simp: decode_channel_assertion_def Let_def make_assertion_signer_def bind_r_def map_sum_def S_def
      split: if_splits sum.splits)
  show ?thesis using decode_assertion_token [OF _ assms(2) S(2)] assms(3) S(1) by simp
qed

lemma service_confirmed:
  assumes A_def: "A = agent_ports E others meanwhile now resolve checker team notify"
    and "make_assertion f = Inr f" and "cc_assertion C (json_dumps (sv_platform E) (assertion_dump (sv_platform E) f)) = Inr f"
  shows "agent_post fault (sv_platform E) C (A\<lparr>ap_decide := g\<rparr>) k Notification_Route i d (assertion_token (sv_platform E) S f) x
      = agent_post fault (sv_platform E) C A k Notification_Route i d (assertion_token (sv_platform E) S f) x
    \<or> (\<exists>w. fa_workspace f = i \<and> fa_decision f = d \<and> sv_get E (fst (fst (snd x))) i = Inr w
        \<and> confirmed_record (sv_platform E) checker team d (fa_approver f) (trusted_attempt f) w)"
  using notification_confirmed [OF A_def, of C g k i d "assertion_token (sv_platform E) S f" x]
    decode_channel_assertion_issued [OF _ assms(2,3)]
  by (fastforce simp: agent_post_def agent_service_def serve_def split: fault.split)

lemma redeem_confirmed:
  assumes A_def: "A = agent_ports E others meanwhile now resolve checker team notify"
    and reads: "\<And>S S' c f. approval_link_signer C = Inr S \<Longrightarrow> channel_assertion_signer (sv_platform E) C = Inr S'
      \<Longrightarrow> decode_link (sv_platform E) S (rc_signer_now k) token channel = Inr c
      \<Longrightarrow> issue_notification S' (rc_forward_now k) (rc_id k) c = Inr f
      \<Longrightarrow> cc_assertion C' (json_dumps (sv_platform E) (assertion_dump (sv_platform E) f)) = Inr f"
  shows "redeem_approval_link (sv_platform E) C (agent_post fault (sv_platform E) C' (A\<lparr>ap_decide := g\<rparr>) k') k channel token x
      = redeem_approval_link (sv_platform E) C (agent_post fault (sv_platform E) C' A k') k channel token x
    \<or> link_confirmed (sv_platform E) checker team C k channel token (fst x) (sv_get E (fst (fst (snd (snd x)))))"
proof (cases "\<exists>S D. approval_link_signer C = Inr S \<and> directory_from_json (cc_recipients C) (cc_bindings C) (cc_server C) = Inr D")
  case False
  then show ?thesis
    by (cases "approval_link_signer C"; cases "directory_from_json (cc_recipients C) (cc_bindings C) (cc_server C)")
      (auto simp: redeem_approval_link_def approval_link_redeemer_def bind_op_def)
next
  case True
  then obtain S D where SD: "approval_link_signer C = Inr S"
      "directory_from_json (cc_recipients C) (cc_bindings C) (cc_server C) = Inr D" by blast
  let ?P = "sv_platform E"
  let ?L = "\<lambda>post. authority_redeemer ?P S D (rc_signer_now k) (rc_now k) (rc_available k)
    (approve_bound ?P C post (rc_forward_now k) (rc_id k))"
  let ?p = "agent_post fault ?P C' A k'" and ?q = "agent_post fault ?P C' (A\<lparr>ap_decide := g\<rparr>) k'"
  have run: "redeem_approval_link ?P C post k channel token x =
      (case bind_op (claim_link ?P (?L post) token channel) (\<lambda>c. bind_op (lr_approve (?L post) c (approval_ref c)) (\<lambda>r. ret_op (c, r))) x of
         (Inl e, y) \<Rightarrow> (Inl (redeem_api_error e), y)
       | (Inr (c, d, v), y) \<Rightarrow> (case redemption_outcome d of Some e \<Rightarrow> (Inl e, y) | None \<Rightarrow> (Inr (c, d), y)))" for post
    by (simp add: redeem_approval_link_def approval_link_redeemer_def SD redeem_link_claims bind_op_def)
  have claim: "claim_link ?P (?L post) token channel = claim_link ?P (?L ?p) token channel" for post
    by (simp add: claim_link_def inspect_link_def authority_redeemer_def)
  obtain r y where r: "claim_link ?P (?L ?p) token channel x = (r, y)" by (rule prod.exhaust)
  note step = claim_link_cases [OF r]
  show ?thesis
  proof (cases r)
    case (Inl e)
    then have failed: "redeem_approval_link ?P C post k channel token x = (Inl (redeem_api_error e), y)" for post
      unfolding run bind_op_def claim [of post] r by simp
    show ?thesis unfolding failed by blast
  next
    case (Inr c)
    then have c: "decode_link ?P S (rc_signer_now k) token channel = Inr c" "\<not> row_used (lk_token c) (fst x)" "snd y = snd x"
      using step by blast+
    note made = decode_link_made [OF c(1)]
    have rest: "?thesis" if "lr_approve (?L ?q) c (approval_ref c) y = lr_approve (?L ?p) c (approval_ref c) y"
      unfolding run bind_op_def claim [of ?q] r using Inr that by simp
    show ?thesis
    proof (cases "\<exists>S' f. channel_assertion_signer ?P C = Inr S' \<and> issue_notification S' (rc_forward_now k) (rc_id k) c = Inr f")
      case False
      then have "lr_approve (?L ?q) c (approval_ref c) y = lr_approve (?L ?p) c (approval_ref c) y"
        by (cases "channel_assertion_signer ?P C"; cases "issue_notification (projr (channel_assertion_signer ?P C)) (rc_forward_now k) (rc_id k) c")
          (auto simp: authority_redeemer_def approve_bound_def bind_op_def on_remote_def)
      then show ?thesis by (rule rest)
    next
      case True
      then obtain S' f where f: "channel_assertion_signer ?P C = Inr S'" "issue_notification S' (rc_forward_now k) (rc_id k) c = Inr f"
        by blast
      note issued = issued_notification [OF f(2) made]
      have ch: "lk_channel c \<noteq> Slack_Reaction" using made by (auto simp: make_link_def Let_def)
      have "?q Notification_Route (lk_workspace c) (lk_decision c) (assertion_token ?P S' f) (snd y)
          = ?p Notification_Route (lk_workspace c) (lk_decision c) (assertion_token ?P S' f) (snd y)
        \<or> (\<exists>w. sv_get E (fst (fst (snd (snd y)))) (lk_workspace c) = Inr w
          \<and> confirmed_record ?P checker team (lk_decision c) (fa_approver f) (trusted_attempt f) w)"
        using service_confirmed [OF A_def, of f C' fault g k' "lk_workspace c" "lk_decision c" S' "snd y"] issued
          reads [OF SD(1) f(1) c(1) f(2)] by blast
      then show ?thesis
      proof
        assume "?q Notification_Route (lk_workspace c) (lk_decision c) (assertion_token ?P S' f) (snd y)
          = ?p Notification_Route (lk_workspace c) (lk_decision c) (assertion_token ?P S' f) (snd y)"
        then have "lr_approve (?L ?q) c (approval_ref c) y = lr_approve (?L ?p) c (approval_ref c) y"
          using ch by (simp add: authority_redeemer_def approve_bound_def bind_op_def on_remote_def f forward_def)
        then show ?thesis by (rule rest)
      next
        assume "\<exists>w. sv_get E (fst (fst (snd (snd y)))) (lk_workspace c) = Inr w
          \<and> confirmed_record ?P checker team (lk_decision c) (fa_approver f) (trusted_attempt f) w"
        then obtain w where w: "sv_get E (fst (fst (snd (snd x)))) (lk_workspace c) = Inr w"
            "confirmed_record ?P checker team (lk_decision c) (fa_approver f) (trusted_attempt f) w"
          using c(3) by auto
        have "confirmed_record ?P checker team (lk_decision c) (lk_approver c) (link_attempt c) w"
          using w(2) issued confirmed_record_attempt [of "trusted_attempt f" "link_attempt c" ?P checker team "lk_decision c" "lk_approver c" w]
          by (simp add: trusted_attempt_def link_attempt_def)
        then show ?thesis using SD(1) c w(1) unfolding link_confirmed_def by blast
      qed
    qed
  qed
qed

end
