(* ===== verification/Slack_Threads.thy ===== *)
theory Slack_Threads
  imports Link_Routes
begin

text \<open>
  Approval in a Slack thread (\<^verbatim>\<open>notify/slack.py\<close>): the preview that is posted, the stores that bind a posted
  message to one pending decision and one event, the handler of a reaction, and the route that takes a
  signed one (\<^verbatim>\<open>services/authority_api.py\<close>).
\<close>

subsection \<open>Text for Slack\<close>

definition replace_char :: "char \<Rightarrow> string \<Rightarrow> string \<Rightarrow> string" where
  "replace_char c r s = concat (map (\<lambda>x. if x = c then r else [x]) s)"

definition escape_user_text :: "string \<Rightarrow> string" where
  "escape_user_text v = replace_char (CHR ''>'') ''&gt;'' (replace_char (CHR ''<'') ''&lt;''
     (replace_char (CHR ''&'') ''&amp;'' (normalize_ws v)))"

definition escape_char :: "char \<Rightarrow> string" where
  "escape_char c = (if c = CHR ''&'' then ''&amp;'' else if c = CHR ''<'' then ''&lt;''
     else if c = CHR ''>'' then ''&gt;'' else [c])"

lemma replace_char_append [simp]: "replace_char c r (s @ t) = replace_char c r s @ replace_char c r t"
  by (simp add: replace_char_def)

lemma escape_user_text_chars: "escape_user_text v = concat (map escape_char (normalize_ws v))"
proof -
  have "replace_char (CHR ''>'') ''&gt;'' (replace_char (CHR ''<'') ''&lt;'' (replace_char (CHR ''&'') ''&amp;'' s))
      = concat (map escape_char s)" for s
  proof (induction s)
    case (Cons x s)
    have "replace_char c r (x # s) = (if x = c then r else [x]) @ replace_char c r s" for c r
      by (simp add: replace_char_def)
    then show ?case using Cons by (auto simp: escape_char_def) (simp_all add: replace_char_def)
  qed (simp add: replace_char_def)
  then show ?thesis by (simp add: escape_user_text_def)
qed

text \<open>No user can open or close Slack's special syntax.\<close>

lemma escape_user_text_plain: "CHR ''<'' \<notin> set (escape_user_text v) \<and> CHR ''>'' \<notin> set (escape_user_text v)"
  by (auto simp: escape_user_text_chars escape_char_def split: if_splits)

text \<open>And what was written can be read back.\<close>

fun read_escaped :: "string \<Rightarrow> string" where
  "read_escaped [] = []"
| "read_escaped (c # t) = (if c \<noteq> CHR ''&'' then c # read_escaped t
     else if starts_with ''amp;'' t then CHR ''&'' # read_escaped (drop 4 t)
     else if starts_with ''lt;'' t then CHR ''<'' # read_escaped (drop 3 t)
     else if starts_with ''gt;'' t then CHR ''>'' # read_escaped (drop 3 t)
     else c # read_escaped t)"

lemma read_escaped_char: "read_escaped (escape_char c @ s) = c # read_escaped s"
  by (auto simp: escape_char_def starts_with_iff)

lemma read_escaped_text: "read_escaped (escape_user_text v) = normalize_ws v"
proof -
  have "read_escaped (concat (map escape_char s)) = s" for s
    by (induction s) (simp_all add: read_escaped_char)
  then show ?thesis by (simp add: escape_user_text_chars)
qed

subsection \<open>Threads\<close>

type_synonym thread_key = "string \<times> string \<times> string"

definition notification_error :: "string \<Rightarrow> py_error" where
  "notification_error = Raised ''SlackNotificationError''"

definition thread_key_of :: "string \<Rightarrow> string \<Rightarrow> string \<Rightarrow> thread_key" where
  "thread_key_of team channel ts = (strip team, strip channel, strip ts)"

definition blank_key :: "thread_key \<Rightarrow> bool" where
  "blank_key k \<longleftrightarrow> fst k = [] \<or> fst (snd k) = [] \<or> snd (snd k) = []"

definition pending_same :: "pending_approval \<Rightarrow> pending_approval \<Rightarrow> bool" where
  "pending_same p q \<longleftrightarrow> p\<lparr>pa_requirements := []\<rparr> = q\<lparr>pa_requirements := []\<rparr>
     \<and> attrs_eq (map (\<lambda>(s, r). (s, PDict r)) (pa_requirements p)) (map (\<lambda>(s, r). (s, PDict r)) (pa_requirements q))"

record memory_threads =
  mt_items :: "thread_key \<rightharpoonup> pending_approval"
  mt_consumed :: "thread_key \<rightharpoonup> string"

definition memory_register :: "thread_key \<Rightarrow> pending_approval \<Rightarrow> (memory_threads, unit) op" where
  "memory_register k p m =
     (if blank_key k then (Inl (notification_error ''Slack approval thread identifiers must not be blank.''), m)
      else if mt_consumed m k \<noteq> None then (Inl (notification_error ''The Slack approval thread has already been consumed.''), m)
      else if (case mt_items m k of None \<Rightarrow> False | Some q \<Rightarrow> \<not> pending_same q p) then
        (Inl (notification_error ''The Slack thread is already bound to another Decision.''), m)
      else (Inr (), m\<lparr>mt_items := (mt_items m)(k \<mapsto> p)\<rparr>))"

definition memory_resolve :: "thread_key \<Rightarrow> (memory_threads, pending_approval option) op" where
  "memory_resolve k m = (Inr (if mt_consumed m k \<noteq> None then None else mt_items m k), m)"

definition memory_thread_consume :: "thread_key \<Rightarrow> string \<Rightarrow> pending_approval \<Rightarrow> (memory_threads, bool) op" where
  "memory_thread_consume k event p m = (let e = strip event in
     if blank_key k \<or> e = [] then (Inl (notification_error ''Slack reaction identifiers must not be blank.''), m)
     else (case mt_consumed m k of
       Some by \<Rightarrow> (Inr (by = e), m)
     | None \<Rightarrow> (case mt_items m k of
         None \<Rightarrow> (Inr False, m)
       | Some q \<Rightarrow> if \<not> pending_same q p then (Inr False, m)
           else (Inr True, m\<lparr>mt_consumed := (mt_consumed m)(k \<mapsto> e)\<rparr>))))"

record thread_record =
  th_key :: thread_key
  th_pending :: pending_approval
  th_consumed :: "string option"

datatype thread_file = No_Threads | Unreadable_Threads | Threads "thread_record list"

fun read_threads :: "thread_file \<Rightarrow> thread_record list result" where
  "read_threads No_Threads = Inr []"
| "read_threads Unreadable_Threads = Inl (notification_error ''The Slack approval thread store is unreadable.'')"
| "read_threads (Threads ts) = Inr ts"

definition json_key :: "thread_key \<Rightarrow> unit result" where
  "json_key k = (if blank_key k then Inl (notification_error ''Slack approval thread identifiers must not be blank.'') else Inr ())"

definition thread_record_ok :: "thread_record \<Rightarrow> bool" where
  "thread_record_ok t \<longleftrightarrow> bounded 1 255 (fst (th_key t)) \<and> bounded 1 255 (fst (snd (th_key t))) \<and> bounded 1 64 (snd (snd (th_key t)))
     \<and> (case th_consumed t of None \<Rightarrow> True | Some e \<Rightarrow> bounded 1 255 e)"

definition json_register :: "thread_key \<Rightarrow> pending_approval \<Rightarrow> (thread_file, unit) op" where
  "json_register k p = bind_op (read_op (\<lambda>_. json_key k)) (\<lambda>_. bind_op (read_op read_threads) (\<lambda>ts.
     case List.find (\<lambda>t. th_key t = k) ts of
       Some t \<Rightarrow> if pending_same (th_pending t) p \<and> th_consumed t = None then ret_op ()
         else raise_op (notification_error ''The Slack thread is already bound or consumed.'')
     | None \<Rightarrow> (let t = \<lparr>th_key = k, th_pending = p, th_consumed = None\<rparr> in
         bind_op (read_op (\<lambda>_. check (thread_record_ok t) ''String should match its bounds''))
           (\<lambda>_ f. (Inr (), Threads (ts @ [t]))))))"

definition json_resolve :: "thread_key \<Rightarrow> (thread_file, pending_approval option) op" where
  "json_resolve k = bind_op (read_op (\<lambda>_. json_key k)) (\<lambda>_. bind_op (read_op read_threads) (\<lambda>ts.
     ret_op (map_option th_pending (List.find (\<lambda>t. th_key t = k \<and> th_consumed t = None) ts))))"

definition json_thread_consume :: "thread_key \<Rightarrow> string \<Rightarrow> pending_approval \<Rightarrow> (thread_file, bool) op" where
  "json_thread_consume k event p = bind_op (read_op (\<lambda>_. json_key k)) (\<lambda>_. (let e = strip event in
     if e = [] then raise_op (notification_error ''The signed Slack reaction event ID must not be blank.'')
     else bind_op (read_op read_threads) (\<lambda>ts. case find_index (\<lambda>t. th_key t = k) ts of
       None \<Rightarrow> ret_op False
     | Some i \<Rightarrow> (case th_consumed (ts ! i) of
         Some by \<Rightarrow> ret_op (by = e)
       | None \<Rightarrow> if \<not> pending_same (th_pending (ts ! i)) p then ret_op False
           else (\<lambda>f. (Inr True, Threads (ts[i := (ts ! i)\<lparr>th_consumed := Some e\<rparr>])))))))"

subsection \<open>What both stores promise\<close>

text \<open>A thread is bound to a decision and, in the end, settled by one event.\<close>

definition settled_by ::
  "('s \<Rightarrow> thread_key \<Rightarrow> (pending_approval \<times> string option) option) \<Rightarrow> thread_key \<Rightarrow> string \<Rightarrow> 's \<Rightarrow> bool"
where
  "settled_by thread k e s \<longleftrightarrow> (\<exists>q. thread s k = Some (q, Some e))"

datatype thread_call = Bind thread_key pending_approval | Settle thread_key string pending_approval

fun settlements ::
  "(thread_key \<Rightarrow> pending_approval \<Rightarrow> ('s, unit) op) \<Rightarrow> (thread_key \<Rightarrow> string \<Rightarrow> pending_approval \<Rightarrow> ('s, bool) op)
    \<Rightarrow> thread_call list \<Rightarrow> 's \<Rightarrow> (thread_key \<times> string) list \<times> 's"
where
  "settlements R S [] s = ([], s)"
| "settlements R S (Bind k p # hs) s = settlements R S hs (snd (R k p s))"
| "settlements R S (Settle k e p # hs) s = (case S k e p s of (b, t) \<Rightarrow>
     (case settlements R S hs t of (es, s') \<Rightarrow> (if b = Inr True then (k, strip e) # es else es, s')))"

locale thread_store =
  fixes register :: "thread_key \<Rightarrow> pending_approval \<Rightarrow> ('s, unit) op"
    and resolve :: "thread_key \<Rightarrow> ('s, pending_approval option) op"
    and settle :: "thread_key \<Rightarrow> string \<Rightarrow> pending_approval \<Rightarrow> ('s, bool) op"
    and thread :: "'s \<Rightarrow> thread_key \<Rightarrow> (pending_approval \<times> string option) option"
    and ok :: "'s \<Rightarrow> bool"
  assumes resolve_thread: "ok s \<Longrightarrow> resolve k s = (Inr found, s') \<Longrightarrow>
      s' = s \<and> found = (case thread s k of Some (p, None) \<Rightarrow> Some p | _ \<Rightarrow> None)"
    and register_thread: "ok s \<Longrightarrow> register k p s = (r, s') \<Longrightarrow> thread s' = thread s
      \<or> (r = Inr () \<and> thread s' = (thread s)(k \<mapsto> (p, None))
          \<and> (case thread s k of None \<Rightarrow> True | Some (q, e) \<Rightarrow> e = None \<and> pending_same q p))"
    and settle_thread: "ok s \<Longrightarrow> settle k event p s = (b, s') \<Longrightarrow> (thread s' = thread s
        \<and> (b = Inr True \<longrightarrow> (\<exists>q. thread s k = Some (q, Some (strip event)))))
      \<or> (b = Inr True \<and> (\<exists>q. thread s k = Some (q, None) \<and> pending_same q p
          \<and> thread s' = (thread s)(k \<mapsto> (q, Some (strip event)))))"
    and register_ok: "ok s \<Longrightarrow> ok (snd (register k p s))"
    and settle_ok: "ok s \<Longrightarrow> ok (snd (settle k event p s))"
begin

lemma register_settled: "ok s \<Longrightarrow> settled_by thread j e s \<Longrightarrow> settled_by thread j e (snd (register k p s))"
proof -
  assume j: "ok s" "settled_by thread j e s"
  obtain r s' where r: "register k p s = (r, s')" by (rule prod.exhaust)
  then show ?thesis using register_thread [OF j(1) r] j(2) by (auto simp: settled_by_def split: option.splits)
qed

lemma settle_settled: "ok s \<Longrightarrow> settled_by thread j e s \<Longrightarrow> settled_by thread j e (snd (settle k f p s))"
proof -
  assume j: "ok s" "settled_by thread j e s"
  obtain r s' where r: "settle k f p s = (r, s')" by (rule prod.exhaust)
  then show ?thesis using settle_thread [OF j(1) r] j(2) by (auto simp: settled_by_def)
qed

lemma settle_settles: "ok s \<Longrightarrow> settle k e p s = (Inr True, s') \<Longrightarrow> settled_by thread k (strip e) s'"
  using settle_thread by (fastforce simp: settled_by_def)

lemma settled_unresolved: "ok s \<Longrightarrow> settled_by thread k e s \<Longrightarrow> resolve k s = (Inr found, s') \<Longrightarrow> found = None"
  using resolve_thread by (fastforce simp: settled_by_def)

lemma settled_once: "settled_by thread k e s \<Longrightarrow> settled_by thread k f s \<Longrightarrow> e = f"
  by (auto simp: settled_by_def)

text \<open>Over any history, the events that settle a thread are one event.\<close>

lemma settled_for_good:
  "ok s \<Longrightarrow> settled_by thread k e s \<Longrightarrow> settlements register settle hs s = (es, s') \<Longrightarrow>
    ok s' \<and> settled_by thread k e s' \<and> (\<forall>f. (k, f) \<in> set es \<longrightarrow> f = e)"
proof (induction hs arbitrary: s es s')
  case (Cons h hs)
  show ?case
  proof (cases h)
    case (Bind j p)
    then show ?thesis using Cons.IH [OF register_ok [OF Cons.prems(1)] register_settled [OF Cons.prems(1,2)]] Cons.prems(3) by simp
  next
    case (Settle j f p)
    obtain b t where b: "settle j f p s = (b, t)" by (rule prod.exhaust)
    obtain fs s'' where fs: "settlements register settle hs t = (fs, s'')" by (rule prod.exhaust)
    have t: "ok t" "settled_by thread k e t"
      using settle_ok [OF Cons.prems(1), of j f p] settle_settled [OF Cons.prems(1,2), of j f p] b by simp_all
    have "b = Inr True \<Longrightarrow> j = k \<Longrightarrow> strip f = e"
      using settle_settles [OF Cons.prems(1), of j f p t] b settled_once t(2) by blast
    then show ?thesis using Cons.IH [OF t fs] Cons.prems(3) Settle b fs by (auto split: if_splits)
  qed
qed simp

lemma settled_by_one_event:
  "ok s \<Longrightarrow> settlements register settle hs s = (es, s') \<Longrightarrow> (k, e) \<in> set es \<Longrightarrow> (k, f) \<in> set es \<Longrightarrow> e = f"
proof (induction hs arbitrary: s es s')
  case (Cons h hs)
  show ?case
  proof (cases h)
    case (Bind j p)
    then show ?thesis using Cons.IH [OF register_ok [OF Cons.prems(1)], of j p] Cons.prems(2-) by simp
  next
    case (Settle j g p)
    obtain b t where b: "settle j g p s = (b, t)" by (rule prod.exhaust)
    obtain fs s'' where fs: "settlements register settle hs t = (fs, s'')" by (rule prod.exhaust)
    have t: "ok t" using settle_ok [OF Cons.prems(1), of j g p] b by simp
    show ?thesis
    proof (cases "b = Inr True")
      case False
      then show ?thesis using Cons.IH [OF t fs] Cons.prems(2-) Settle b fs by simp
    next
      case True
      then have es: "es = (j, strip g) # fs" using Cons.prems(2) Settle b fs by simp
      have "settled_by thread j (strip g) t" using settle_settles Cons.prems(1) b True by blast
      then have one: "(j, f) \<in> set fs \<Longrightarrow> f = strip g" for f using settled_for_good [OF t _ fs] by blast
      then show ?thesis using Cons.IH [OF t fs] Cons.prems(3,4) es one by auto
    qed
  qed
qed simp

end

definition memory_thread :: "memory_threads \<Rightarrow> thread_key \<Rightarrow> (pending_approval \<times> string option) option" where
  "memory_thread m k = map_option (\<lambda>p. (p, mt_consumed m k)) (mt_items m k)"

text \<open>In memory, a thread is consumed only where it is bound; the threads of an object are built by its methods.\<close>

definition memory_threads_ok :: "memory_threads \<Rightarrow> bool" where
  "memory_threads_ok m \<longleftrightarrow> dom (mt_consumed m) \<subseteq> dom (mt_items m)"

definition json_thread :: "thread_file \<Rightarrow> thread_key \<Rightarrow> (pending_approval \<times> string option) option" where
  "json_thread f k = (case f of Threads ts \<Rightarrow> map_option (\<lambda>t. (th_pending t, th_consumed t)) (List.find (\<lambda>t. th_key t = k) ts)
     | _ \<Rightarrow> None)"

definition thread_file_ok :: "thread_file \<Rightarrow> bool" where
  "thread_file_ok f \<longleftrightarrow> (case f of Threads ts \<Rightarrow> distinct (map th_key ts) | _ \<Rightarrow> True)"

interpretation memory_store: thread_store memory_register memory_resolve memory_thread_consume memory_thread memory_threads_ok
proof unfold_locales
  fix m m' :: memory_threads and k p e
  show "memory_resolve k m = (Inr found, m') \<Longrightarrow> m' = m \<and> found = (case memory_thread m k of Some (p, None) \<Rightarrow> Some p | _ \<Rightarrow> None)" for found
    by (auto simp: memory_resolve_def memory_thread_def split: option.splits)
  show "memory_register k p m = (r, m') \<Longrightarrow> memory_thread m' = memory_thread m
      \<or> (r = Inr () \<and> memory_thread m' = (memory_thread m)(k \<mapsto> (p, None))
          \<and> (case memory_thread m k of None \<Rightarrow> True | Some (q, e) \<Rightarrow> e = None \<and> pending_same q p))" for r
    by (auto simp: memory_register_def memory_thread_def fun_eq_iff split: if_splits option.splits)
  show "(memory_thread m' = memory_thread m \<and> (b = Inr True \<longrightarrow> (\<exists>q. memory_thread m k = Some (q, Some (strip e)))))
      \<or> (b = Inr True \<and> (\<exists>q. memory_thread m k = Some (q, None) \<and> pending_same q p
          \<and> memory_thread m' = (memory_thread m)(k \<mapsto> (q, Some (strip e)))))"
    if "memory_threads_ok m" "memory_thread_consume k e p m = (b, m')" for b
  proof (cases "mt_consumed m k")
    case None
    then show ?thesis using that(2)
      by (auto simp: memory_thread_consume_def memory_thread_def Let_def fun_eq_iff split: if_splits option.splits)
  next
    case (Some y)
    then have "mt_items m k \<noteq> None" using that(1) by (auto simp: memory_threads_ok_def dom_def)
    then show ?thesis using that(2) Some
      by (auto simp: memory_thread_consume_def memory_thread_def Let_def split: if_splits)
  qed
  show "memory_threads_ok m \<Longrightarrow> memory_threads_ok (snd (memory_register k p m))"
    by (auto simp: memory_register_def memory_threads_ok_def dom_def)
  show "memory_threads_ok m \<Longrightarrow> memory_threads_ok (snd (memory_thread_consume k e p m))"
    by (auto simp: memory_thread_consume_def memory_threads_ok_def dom_def Let_def split: option.split)
qed

lemma find_key_update:
  assumes "find_index (\<lambda>t. th_key t = k) ts = Some i"
  shows "List.find (\<lambda>t. th_key t = j) (ts[i := (ts ! i)\<lparr>th_consumed := e\<rparr>])
    = (if j = k then Some ((ts ! i)\<lparr>th_consumed := e\<rparr>) else List.find (\<lambda>t. th_key t = j) ts)"
  using assms
proof (induction ts arbitrary: i)
  case (Cons t ts)
  then show ?case by (cases "th_key t = k") (auto split: if_splits)
qed simp

lemma find_index_find: "find_index p ts = Some i \<Longrightarrow> List.find p ts = Some (ts ! i)"
  by (induction ts arbitrary: i) (auto split: if_splits)

lemma find_index_find_None: "find_index p ts = None \<Longrightarrow> List.find p ts = None"
  by (auto simp: find_index_None find_None_iff)

lemma find_open:
  "distinct (map th_key ts) \<Longrightarrow> List.find (\<lambda>t. th_key t = k \<and> th_consumed t = None) ts
    = (case List.find (\<lambda>t. th_key t = k) ts of Some t \<Rightarrow> if th_consumed t = None then Some t else None | None \<Rightarrow> None)"
proof (induction ts)
  case (Cons t ts)
  have "th_key t = k \<Longrightarrow> List.find (\<lambda>t. th_key t = k) ts = None"
    using Cons.prems by (auto simp: find_None_iff) (metis image_eqI)
  then show ?case using Cons by (auto split: option.splits)
qed simp

lemma json_key_Inr: "json_key k = Inr u \<longleftrightarrow> \<not> blank_key k"
  by (simp add: json_key_def)

lemma json_register_cases:
  assumes run: "json_register k p f = (r, f')"
  shows "(json_thread f' = json_thread f \<and> (thread_file_ok f \<longrightarrow> thread_file_ok f'))
      \<or> (r = Inr () \<and> json_thread f k = None \<and> json_thread f' = (json_thread f)(k \<mapsto> (p, None)) \<and> (thread_file_ok f \<longrightarrow> thread_file_ok f'))"
proof -
  define t where "t = \<lparr>th_key = k, th_pending = p, th_consumed = None\<rparr>"
  consider "f' = f" | ts where "read_threads f = Inr ts" "List.find (\<lambda>t. th_key t = k) ts = None" "f' = Threads (ts @ [t])" "r = Inr ()"
    using run by (auto simp: json_register_def bind_op_def Let_def t_def split: sum.splits option.splits if_splits)
  then show ?thesis
  proof cases
    case 2
    have th: "json_thread f j = map_option (\<lambda>t. (th_pending t, th_consumed t)) (List.find (\<lambda>t. th_key t = j) ts)" for j
      using 2(1) by (cases f) (auto simp: json_thread_def)
    have app: "List.find (\<lambda>t. th_key t = j) (ts @ [t]) = (case List.find (\<lambda>t. th_key t = j) ts of Some u \<Rightarrow> Some u
        | None \<Rightarrow> if j = k then Some t else None)" for j
      by (induction ts) (auto simp: t_def)
    have "json_thread f' j = ((json_thread f)(k \<mapsto> (p, None))) j" for j
    proof -
      have "json_thread f' j = map_option (\<lambda>t. (th_pending t, th_consumed t)) (List.find (\<lambda>t. th_key t = j) (ts @ [t]))"
        by (simp add: 2(3) json_thread_def)
      moreover have "th_pending t = p" "th_consumed t = None" by (simp_all add: t_def)
      ultimately show ?thesis using 2(2) th by (cases "j = k") (simp_all add: app split: option.split)
    qed
    then have "json_thread f' = (json_thread f)(k \<mapsto> (p, None))" by blast
    moreover have "thread_file_ok f \<Longrightarrow> thread_file_ok f'"
      using 2 by (cases f) (auto simp: thread_file_ok_def t_def find_None_iff)
    ultimately show ?thesis using 2(2,4) th by simp
  qed simp
qed

lemma json_consume_cases:
  assumes run: "json_thread_consume k e p f = (b, f')"
  shows "(json_thread f' = json_thread f \<and> f' = f \<and> (b = Inr True \<longrightarrow> (\<exists>q. json_thread f k = Some (q, Some (strip e)))))
      \<or> (b = Inr True \<and> (\<exists>q. json_thread f k = Some (q, None) \<and> pending_same q p
          \<and> json_thread f' = (json_thread f)(k \<mapsto> (q, Some (strip e))) \<and> (thread_file_ok f \<longrightarrow> thread_file_ok f')))"
proof -
  have th: "json_thread f j = map_option (\<lambda>t. (th_pending t, th_consumed t)) (List.find (\<lambda>t. th_key t = j) ts)"
    if "read_threads f = Inr ts" for j ts
    using that by (cases f) (auto simp: json_thread_def)
  consider "f' = f" "b \<noteq> Inr True"
    | ts i y where "read_threads f = Inr ts" "find_index (\<lambda>t. th_key t = k) ts = Some i" "th_consumed (ts ! i) = Some y" "f' = f"
        "b = Inr (y = strip e)"
    | ts i where "read_threads f = Inr ts" "find_index (\<lambda>t. th_key t = k) ts = Some i" "th_consumed (ts ! i) = None"
        "pending_same (th_pending (ts ! i)) p" "b = Inr True" "f' = Threads (ts[i := (ts ! i)\<lparr>th_consumed := Some (strip e)\<rparr>])"
  proof (cases "blank_key k \<or> strip e = []")
    case True
    then show thesis using run that(1)
      by (cases "blank_key k") (auto simp: json_thread_consume_def json_key_def bind_op_def Let_def)
  next
    case usable: False
    show thesis
    proof (cases "read_threads f")
      case (Inl x)
      then show thesis using run usable that(1) by (auto simp: json_thread_consume_def json_key_def bind_op_def Let_def)
    next
      case (Inr ts)
      show thesis
      proof (cases "find_index (\<lambda>t. th_key t = k) ts")
        case None
        then show thesis using run usable Inr that(1) by (auto simp: json_thread_consume_def json_key_def bind_op_def Let_def)
      next
        case (Some i)
        then show thesis using run usable Inr that
          by (cases "th_consumed (ts ! i)"; cases "pending_same (th_pending (ts ! i)) p")
            (auto simp: json_thread_consume_def json_key_def bind_op_def Let_def)
      qed
    qed
  qed
  then show ?thesis
  proof cases
    case 2
    then show ?thesis using th [OF 2(1)] find_index_find [OF 2(2)] by auto
  next
    case 3
    have "json_thread f' j = ((json_thread f)(k \<mapsto> (th_pending (ts ! i), Some (strip e)))) j" for j
      using th [OF 3(1)] find_key_update [OF 3(2), of j "Some (strip e)"] by (simp add: 3(6) json_thread_def)
    then have "json_thread f' = (json_thread f)(k \<mapsto> (th_pending (ts ! i), Some (strip e)))" by blast
    moreover have "map th_key (ts[i := (ts ! i)\<lparr>th_consumed := Some (strip e)\<rparr>]) = map th_key ts"
      by (simp add: map_update list_update_same_conv find_index_length [OF 3(2)])
    then have "thread_file_ok f \<Longrightarrow> thread_file_ok f'"
      using 3(1) by (cases f) (auto simp: thread_file_ok_def 3(6))
    ultimately show ?thesis using 3 th [OF 3(1)] find_index_find [OF 3(2)] by auto
  qed simp
qed

interpretation json_store: thread_store json_register json_resolve json_thread_consume json_thread thread_file_ok
proof unfold_locales
  fix f f' :: thread_file and k p e
  show "f' = f \<and> found = (case json_thread f k of Some (p, None) \<Rightarrow> Some p | _ \<Rightarrow> None)"
    if "thread_file_ok f" "json_resolve k f = (Inr found, f')" for found
  proof (cases f)
    case (Threads ts)
    then have "distinct (map th_key ts)" using that(1) by (simp add: thread_file_ok_def)
    then show ?thesis using that(2) Threads
      by (auto simp: json_resolve_def json_thread_def bind_op_def find_open json_key_Inr split: sum.splits option.splits)
  qed (use that(2) in \<open>auto simp: json_resolve_def json_thread_def bind_op_def split: sum.splits\<close>)
  show "json_thread f' = json_thread f
      \<or> (r = Inr () \<and> json_thread f' = (json_thread f)(k \<mapsto> (p, None))
          \<and> (case json_thread f k of None \<Rightarrow> True | Some (q, e) \<Rightarrow> e = None \<and> pending_same q p))"
    if "json_register k p f = (r, f')" for r
    using json_register_cases [OF that] by auto
  show "thread_file_ok f \<Longrightarrow> thread_file_ok (snd (json_register k p f))"
    using json_register_cases [of k p f "fst (json_register k p f)" "snd (json_register k p f)"] by auto
  show "(json_thread f' = json_thread f \<and> (b = Inr True \<longrightarrow> (\<exists>q. json_thread f k = Some (q, Some (strip e)))))
      \<or> (b = Inr True \<and> (\<exists>q. json_thread f k = Some (q, None) \<and> pending_same q p
          \<and> json_thread f' = (json_thread f)(k \<mapsto> (q, Some (strip e)))))"
    if "json_thread_consume k e p f = (b, f')" for b
    using json_consume_cases [OF that] by blast
  show "thread_file_ok f \<Longrightarrow> thread_file_ok (snd (json_thread_consume k e p f))"
    using json_consume_cases [of k e p f "fst (json_thread_consume k e p f)" "snd (json_thread_consume k e p f)"] by auto
qed

subsection \<open>The handler of a reaction\<close>

definition APPROVE_REACTION :: string where
  "APPROVE_REACTION = ''white_check_mark''"

definition resolve_hexclave_user_id :: "slack_binding \<Rightarrow> pending_approval \<Rightarrow> slack_reaction \<Rightarrow> string option" where
  "resolve_hexclave_user_id b p r =
     (if pa_workspace p \<noteq> sb_workspace b \<or> sr_team r \<noteq> sb_team b \<or> sr_connection r \<noteq> sb_connection b then None
      else hexclave_user_for b (sr_user r))"

definition reaction_key :: "slack_reaction \<Rightarrow> thread_key" where
  "reaction_key r = thread_key_of (sr_team r) (sr_channel r) (sr_ts r)"

datatype 'w reaction_result = Unhandled | Unmapped | Handled approval_disposition "'w option"

type_synonym ('h, 'w) coordinator =
  "pending_approval \<Rightarrow> string \<Rightarrow> approval_channel \<Rightarrow> string \<Rightarrow> ('h, approval_disposition \<times> 'w option) op"

definition handle_reaction ::
  "slack_binding \<Rightarrow> ('h, 'w) coordinator \<Rightarrow> slack_reaction \<Rightarrow> (thread_file \<times> 'h, 'w reaction_result) op"
where
  "handle_reaction b coord r =
     (if sr_reaction r \<noteq> APPROVE_REACTION then ret_op Unhandled
      else bind_op (on_store (json_resolve (reaction_key r))) (\<lambda>found. case found of
        None \<Rightarrow> ret_op Unhandled
      | Some p \<Rightarrow> (case resolve_hexclave_user_id b p r of
          None \<Rightarrow> ret_op Unmapped
        | Some user \<Rightarrow> bind_op (on_remote (coord p user Slack_Reaction (sr_evidence r))) (\<lambda>(d, v).
            if d \<in> {Approval_Approved, Approval_Already} then
              bind_op (on_store (json_thread_consume (reaction_key r) (sr_event r) p)) (\<lambda>kept.
                if kept then ret_op (Handled d v)
                else raise_op (notification_error ''The approved Slack reaction lost its thread binding.''))
            else ret_op (Handled d v)))))"

text \<open>The coordinator is asked for the decision of the reaction's own thread, by the user bound to who reacted.\<close>

lemma handle_asks:
  assumes "\<And>p user. json_resolve (reaction_key r) (fst x) = (Inr (Some p), fst x) \<Longrightarrow> sr_reaction r = APPROVE_REACTION
      \<Longrightarrow> resolve_hexclave_user_id b p r = Some user
      \<Longrightarrow> coord p user Slack_Reaction (sr_evidence r) (snd x) = coord' p user Slack_Reaction (sr_evidence r) (snd x)"
  shows "handle_reaction b coord r x = handle_reaction b coord' r x"
proof (cases "sr_reaction r = APPROVE_REACTION")
  case True
  have keeps: "snd (json_resolve k f) = f" for k f
    by (auto simp: json_resolve_def bind_op_def split: sum.split)
  obtain found f where f: "json_resolve (reaction_key r) (fst x) = (found, f)" by (rule prod.exhaust)
  then have "f = fst x" using keeps [of "reaction_key r" "fst x"] by simp
  consider e where "found = Inl e" | "found = Inr None" | p where "found = Inr (Some p)" "resolve_hexclave_user_id b p r = None"
    | p user where "found = Inr (Some p)" "resolve_hexclave_user_id b p r = Some user"
    by (cases found; cases "projr found"; cases "resolve_hexclave_user_id b (the (projr found)) r") auto
  then show ?thesis
  proof cases
    case 4
    then have "coord p user Slack_Reaction (sr_evidence r) (snd x) = coord' p user Slack_Reaction (sr_evidence r) (snd x)"
      using assms True f \<open>f = fst x\<close> by blast
    then show ?thesis using 4 f True \<open>f = fst x\<close> by (simp add: handle_reaction_def bind_op_def on_store_def on_remote_def)
  qed (simp_all add: handle_reaction_def True f bind_op_def on_store_def)
qed (simp add: handle_reaction_def)

lemma issue_slack_claims:
  assumes "issue_slack S now i source p user ref = Inr f"
  shows "fa_channel f = Slack_Reaction \<and> fa_approver f = strip user \<and> fa_fingerprint f = strip (pa_fingerprint p)
    \<and> fa_instance f = strip (pa_instance p) \<and> fa_workspace f = strip (pa_workspace p) \<and> fa_decision f = strip (pa_decision p)
    \<and> make_assertion f = Inr f"
proof -
  have "\<exists>raw. make_assertion raw = Inr f \<and> fa_channel raw = Slack_Reaction \<and> fa_approver raw = user \<and> fa_fingerprint raw = pa_fingerprint p
      \<and> fa_instance raw = pa_instance p \<and> fa_workspace raw = pa_workspace p \<and> fa_decision raw = pa_decision p"
    using assms by (auto simp: issue_slack_def assertion_now_def split: if_splits)
  then obtain raw where raw: "make_assertion raw = Inr f" "fa_channel raw = Slack_Reaction" "fa_approver raw = user"
      "fa_fingerprint raw = pa_fingerprint p" "fa_instance raw = pa_instance p" "fa_workspace raw = pa_workspace p"
      "fa_decision raw = pa_decision p" by blast
  then show ?thesis using make_assertionD [OF raw(1)] make_assertion_again [OF raw(1)] by (simp add: strip_assertion_def)
qed

text \<open>What a reaction confirms: the decision that its thread is bound to, as the record of the workspace has it.\<close>

definition reaction_attempt :: "pending_approval \<Rightarrow> slack_reaction \<Rightarrow> approval_attempt" where
  "reaction_attempt p r = \<lparr>at_channel = Slack_Reaction, at_ref = sr_evidence r, at_fingerprint = Some (strip (pa_fingerprint p)),
     at_instance = Some (strip (pa_instance p))\<rparr>"

definition reaction_confirms ::
  "platform \<Rightarrow> (string \<Rightarrow> string + 'h checker) \<Rightarrow> string \<Rightarrow> slack_binding \<Rightarrow> slack_reaction \<Rightarrow> thread_file
    \<Rightarrow> (string \<Rightarrow> live_record result) \<Rightarrow> bool"
where
  "reaction_confirms P checker team b r f get \<longleftrightarrow> sr_reaction r = APPROVE_REACTION \<and> (\<exists>p user w.
     json_resolve (reaction_key r) f = (Inr (Some p), f) \<and> resolve_hexclave_user_id b p r = Some user
     \<and> get (pa_workspace p) = Inr w \<and> bound_approver w (strip user)
     \<and> confirmed_record P checker team (pa_decision p) (strip user) (reaction_attempt p r) w)"

lemma reaction_confirmed_by_thread:
  assumes A_def: "A = agent_ports E others meanwhile now resolve checker team notify"
    and reads: "\<And>S p user f. channel_assertion_signer (sv_platform E) C = Inr S
      \<Longrightarrow> json_resolve (reaction_key r) (fst x) = (Inr (Some p), fst x) \<Longrightarrow> resolve_hexclave_user_id b p r = Some user
      \<Longrightarrow> issue_slack S t new_id source p user (sr_evidence r) = Inr f
      \<Longrightarrow> cc_assertion C' (json_dumps (sv_platform E) (assertion_dump (sv_platform E) f)) = Inr f"
  shows "handle_reaction b (approve_reaction (sv_platform E) C (agent_post fault (sv_platform E) C' (A\<lparr>ap_decide := g\<rparr>) k) t new_id source) r x
      = handle_reaction b (approve_reaction (sv_platform E) C (agent_post fault (sv_platform E) C' A k) t new_id source) r x
    \<or> reaction_confirms (sv_platform E) checker team b r (fst x) (sv_get E (fst (fst (snd (snd x)))))"
proof -
  let ?P = "sv_platform E"
  let ?p = "agent_post fault ?P C' A k" and ?q = "agent_post fault ?P C' (A\<lparr>ap_decide := g\<rparr>) k"
  show ?thesis
  proof (cases "reaction_confirms ?P checker team b r (fst x) (sv_get E (fst (fst (snd (snd x)))))")
    case no: False
    have "approve_reaction ?P C ?q t new_id source p user Slack_Reaction (sr_evidence r) (snd x)
        = approve_reaction ?P C ?p t new_id source p user Slack_Reaction (sr_evidence r) (snd x)"
      if thread: "json_resolve (reaction_key r) (fst x) = (Inr (Some p), fst x)" "sr_reaction r = APPROVE_REACTION"
        "resolve_hexclave_user_id b p r = Some user" for p user
    proof (cases "\<exists>S f. channel_assertion_signer ?P C = Inr S \<and> issue_slack S t new_id source p user (sr_evidence r) = Inr f")
      case False
      then show ?thesis
        by (cases "channel_assertion_signer ?P C"; cases "issue_slack (projr (channel_assertion_signer ?P C)) t new_id source p user (sr_evidence r)")
          (auto simp: approve_reaction_def bind_op_def)
    next
      case True
      then obtain S f where f: "channel_assertion_signer ?P C = Inr S" "issue_slack S t new_id source p user (sr_evidence r) = Inr f"
        by blast
      note claims = issue_slack_claims [OF f(2)]
      note read = reads [OF f(1) thread(1) thread(3) f(2)]
      have "?q Slack_Route (pa_workspace p) (pa_decision p) (assertion_token ?P S f) (snd x)
          = ?p Slack_Route (pa_workspace p) (pa_decision p) (assertion_token ?P S f) (snd x)"
      proof (rule ccontr)
        assume "\<not> ?thesis"
        then have "approve_from_slack ?P C' (A\<lparr>ap_decide := g\<rparr>) k (pa_workspace p) (pa_decision p) (assertion_token ?P S f) (snd x)
            \<noteq> approve_from_slack ?P C' A k (pa_workspace p) (pa_decision p) (assertion_token ?P S f) (snd x)"
          by (auto simp: agent_post_def agent_service_def serve_def split: fault.splits if_splits)
        then obtain c w where c: "decode_channel_assertion ?P C' (ac_now k) (assertion_token ?P S f) (pa_workspace p) (pa_decision p) = Inr c"
            "sv_get E (fst (fst (snd (snd x)))) (pa_workspace p) = Inr w"
            "confirmed_record ?P checker team (pa_decision p) (fa_approver c) (trusted_attempt c) w" "bound_approver w (fa_approver c)"
          using reaction_confirmed [OF A_def, of C' g k "pa_workspace p" "pa_decision p" "assertion_token ?P S f" "snd x"] by blast
        have "c = f" using decode_channel_assertion_issued [OF c(1) _ read] claims by simp
        moreover have "confirmed_record ?P checker team (pa_decision p) (strip user) (reaction_attempt p r) w"
          using c(3) \<open>c = f\<close> claims confirmed_record_attempt [of "trusted_attempt f" "reaction_attempt p r" ?P checker team "pa_decision p" "strip user" w]
          by (simp add: trusted_attempt_def reaction_attempt_def)
        ultimately show False using no thread c(2,4) claims unfolding reaction_confirms_def by auto
      qed
      then show ?thesis by (simp add: approve_reaction_def bind_op_def f forward_def)
    qed
    then have "handle_reaction b (approve_reaction ?P C ?q t new_id source) r x = handle_reaction b (approve_reaction ?P C ?p t new_id source) r x"
      by (rule handle_asks)
    then show ?thesis ..
  qed simp
qed

subsection \<open>The route of a reaction\<close>

definition bound_reaction :: "string \<Rightarrow> slack_reaction \<Rightarrow> slack_binding option \<Rightarrow> slack_binding result" where
  "bound_reaction i r binding = (case binding of
     None \<Rightarrow> Inl (ApiFailure 403 ''SLACK_WORKSPACE_BINDING_MISMATCH'' False)
   | Some b \<Rightarrow>
       if sb_workspace b \<noteq> i \<or> sr_team r \<noteq> sb_team b \<or> sr_connection r \<noteq> sb_connection b then
         Inl (ApiFailure 403 ''SLACK_WORKSPACE_BINDING_MISMATCH'' False)
       else Inr b)"

definition identify_reaction ::
  "slack_verifier option \<Rightarrow> string \<Rightarrow> string \<Rightarrow> attributes \<Rightarrow> ('h intake_world, slack_reaction \<times> slack_binding) op"
where
  "identify_reaction V i body headers = (case V of
     None \<Rightarrow> raise_op (ApiFailure 503 ''SLACK_INTAKE_NOT_CONFIGURED'' False)
   | Some vf \<Rightarrow>
     bind_op (except_class ''SlackWebhookError'' (ApiFailure 401 ''INVALID_COMPOSIO_WEBHOOK'' False)
       (read_op (\<lambda>_. parse_reaction vf body headers))) (\<lambda>r.
     bind_op (\<lambda>w. case on_contexts (read_state (''live-'' @ i)) w of
         (Inl (NotFound _), y) \<Rightarrow> (Inl (ApiFailure 404 ''WORKSPACE_CONTEXT_NOT_FOUND'' False), y) | z \<Rightarrow> z) (\<lambda>st.
     bind_op (read_op (\<lambda>_. bound_reaction i r (cs_slack st))) (\<lambda>b. ret_op (r, b)))))"

datatype reaction_take = Reaction_Duplicate "attributes option" | Reaction_Taken slack_reaction slack_binding delivery_key

definition process_slack_reaction ::
  "slack_verifier option \<Rightarrow> datetime \<Rightarrow> string \<Rightarrow> string \<Rightarrow> attributes \<Rightarrow> ('h intake_world, reaction_take) op"
where
  "process_slack_reaction V now i body headers =
     bind_op (identify_reaction V i body headers) (\<lambda>(r, b).
     bind_op (read_op (\<lambda>_. delivery_key_for i (sr_connection r) REACTION_ADDED_SLUG (sr_event r))) (\<lambda>k.
     bind_op (if has_webhook_delivery_id headers then on_deliveries (reserve_slack_delivery now k) else ret_op None) (\<lambda>taken.
     ret_op (case taken of Some result \<Rightarrow> Reaction_Duplicate result | None \<Rightarrow> Reaction_Taken r b k))))"

text \<open>The answer of the agent carries no evidence, so the reply of the route names no decision.\<close>

definition reaction_reply :: "string \<Rightarrow> slack_reaction \<Rightarrow> 'w reaction_result \<Rightarrow> attributes" where
  "reaction_reply i r res = (case res of
     Unhandled \<Rightarrow> [(''status'', PStr ''ignored''), (''reason'', PStr ''no-qualifying-pending-approval''),
       (''workspace_id'', PStr i), (''event_id'', PStr (sr_event r)), (''graph_mutated'', PBool False)]
   | Unmapped \<Rightarrow> [(''status'', PStr ''ignored''), (''reason'', PStr ''unmapped-slack-identity''),
       (''workspace_id'', PStr i), (''event_id'', PStr (sr_event r)), (''graph_mutated'', PBool False)]
   | Handled d v \<Rightarrow> [(''status'', PStr (if d \<in> {Approval_Approved, Approval_Already} then ''approved'' else ''ignored'')),
       (''reason'', PStr (disposition_value d)), (''workspace_id'', PStr i), (''event_id'', PStr (sr_event r)),
       (''decision_id'', PNone), (''graph_mutated'', PBool (d = Approval_Approved))])"

definition intake_slack_reaction ::
  "slack_verifier option \<Rightarrow> ('h, 'w) coordinator \<Rightarrow> datetime \<Rightarrow> string \<Rightarrow> string \<Rightarrow> attributes
    \<Rightarrow> ((thread_file \<times> 'h) intake_world, attributes) op"
where
  "intake_slack_reaction V coord now i body headers =
     bind_op (process_slack_reaction V now i body headers) (\<lambda>t. case t of
       Reaction_Duplicate result \<Rightarrow> ret_op (duplicate_result result)
     | Reaction_Taken r b k \<Rightarrow> bind_op (on_rest (handle_reaction b coord r)) (\<lambda>res.
         conclude_delivery headers k (reaction_reply i r res)))"

lemma parse_reaction_present: "parse_reaction vf body headers = Inr r \<Longrightarrow> has_webhook_delivery_id headers"
  using webhook_delivery_id_present by (auto simp: parse_reaction_def Let_def dest!: parse_deliveryD)

lemma identify_reaction_frame:
  assumes "identify_reaction V i body headers w = (t, w')"
  shows "iw_rest w' = iw_rest w \<and> iw_deliveries w' = iw_deliveries w
    \<and> (\<forall>r b. t = Inr (r, b) \<longrightarrow> (\<exists>vf. V = Some vf \<and> parse_reaction vf body headers = Inr r))"
  using assms
  by (auto simp: identify_reaction_def bind_op_def except_class_def on_contexts_def split: option.splits sum.splits prod.splits
    py_error.splits if_splits)

definition reaction_delivery :: "string \<Rightarrow> slack_reaction \<Rightarrow> delivery_key result" where
  "reaction_delivery i r = delivery_key_for i (sr_connection r) REACTION_ADDED_SLUG (sr_event r)"

lemma reaction_acts:
  assumes run: "intake_slack_reaction V coord now i body headers w = (t, w')" and acted: "iw_rest w' \<noteq> iw_rest w"
  shows "\<exists>vf r k. V = Some vf \<and> parse_reaction vf body headers = Inr r \<and> reaction_delivery i r = Inr k
    \<and> has_delivery (\<lambda>_. True) k (iw_deliveries w')"
proof -
  obtain t1 w1 where one: "identify_reaction V i body headers w = (t1, w1)" by (rule prod.exhaust)
  note f1 = identify_reaction_frame [OF one]
  show ?thesis
  proof (cases t1)
    case (Inl e)
    then show ?thesis using run acted one f1 by (simp add: intake_slack_reaction_def process_slack_reaction_def bind_op_def)
  next
    case (Inr rb)
    obtain r b where rb: "rb = (r, b)" by (rule prod.exhaust)
    then obtain vf where vf: "V = Some vf" "parse_reaction vf body headers = Inr r" using f1 Inr by blast
    note has = parse_reaction_present [OF vf(2)]
    show ?thesis
    proof (cases "reaction_delivery i r")
      case (Inl e)
      then show ?thesis using run acted one f1 \<open>t1 = Inr rb\<close> rb
        by (simp add: intake_slack_reaction_def process_slack_reaction_def bind_op_def reaction_delivery_def)
    next
      case k: (Inr k)
      obtain taken f where res: "reserve_slack_delivery now k (iw_deliveries w1) = (taken, f)" by (rule prod.exhaust)
      show ?thesis
      proof (cases "taken = Inr None")
        case False
        then have "iw_rest w' = iw_rest w1"
          using run one \<open>t1 = Inr rb\<close> rb k has res
          by (cases taken) (auto simp: intake_slack_reaction_def process_slack_reaction_def bind_op_def reaction_delivery_def
            on_deliveries_def split: option.splits)
        then show ?thesis using acted f1 by simp
      next
        case True
        have kept: "has_delivery (\<lambda>_. True) k f" using reserve_slack_cases [OF res] True by simp
        obtain t2 w2 where two: "on_rest (handle_reaction b coord r) (w1\<lparr>iw_deliveries := f\<rparr>) = (t2, w2)" by (rule prod.exhaust)
        then have kept: "has_delivery (\<lambda>_. True) k (iw_deliveries w2)" using kept on_rest_deliveries [OF two] by simp
        have step: "intake_slack_reaction V coord now i body headers w = (case t2 of Inl e \<Rightarrow> (Inl e, w2)
            | Inr v \<Rightarrow> conclude_delivery headers k (reaction_reply i r v) w2)"
          using one \<open>t1 = Inr rb\<close> rb k has res True two
          by (simp add: intake_slack_reaction_def process_slack_reaction_def bind_op_def reaction_delivery_def on_deliveries_def)
        have "has_delivery (\<lambda>_. True) k (iw_deliveries w')"
        proof (cases t2)
          case (Inl e)
          then show ?thesis using step run kept by simp
        next
          case (Inr v)
          then have "conclude_delivery headers k (reaction_reply i r v) w2 = (t, w')" using step run by simp
          from conclude_keeps [OF this kept] show ?thesis .
        qed
        then show ?thesis using vf k by blast
      qed
    qed
  qed
qed

lemma reaction_again:
  assumes first: "intake_slack_reaction V coord now i body headers w = (t, w1)" "iw_rest w1 \<noteq> iw_rest w"
    and later: "granted slack_reserve (complete_delivery ''Slack'') history (iw_deliveries w1) = (ks, iw_deliveries w2)"
  shows "iw_rest (snd (intake_slack_reaction V coord now' i body headers w2)) = iw_rest w2
    \<and> iw_deliveries (snd (intake_slack_reaction V coord now' i body headers w2)) = iw_deliveries w2"
proof -
  obtain vf r k where k: "V = Some vf" "parse_reaction vf body headers = Inr r" "reaction_delivery i r = Inr k"
      "has_delivery (\<lambda>_. True) k (iw_deliveries w1)"
    using reaction_acts [OF first] by blast
  have settled: "has_delivery (\<lambda>_. True) k (iw_deliveries w2)"
    using slack_store.settled_for_good [OF k(4) later] by blast
  obtain t1 x where one: "identify_reaction V i body headers w2 = (t1, x)" by (rule prod.exhaust)
  note f = identify_reaction_frame [OF one]
  show ?thesis
  proof (cases t1)
    case (Inl e)
    then show ?thesis using f one by (simp add: intake_slack_reaction_def process_slack_reaction_def bind_op_def)
  next
    case (Inr rb)
    obtain r' b where rb: "rb = (r', b)" by (rule prod.exhaust)
    then have "r' = r" using f Inr k(1,2) by fastforce
    moreover obtain result where "reserve_slack_delivery now' k (iw_deliveries x) = (Inr (Some result), iw_deliveries x)"
      using reserve_again [of k "iw_deliveries x" now'] f settled by auto
    ultimately have "intake_slack_reaction V coord now' i body headers w2 = (Inr (duplicate_result result), x)"
      using one Inr rb k(3) parse_reaction_present [OF k(2)]
      by (simp add: intake_slack_reaction_def process_slack_reaction_def bind_op_def reaction_delivery_def on_deliveries_def)
    then show ?thesis using f by simp
  qed
qed

subsection \<open>The preview in a thread\<close>

record requirement_delta =
  rq_scope :: string
  rq_previous :: "string option"
  rq_proposed :: string

record slack_notification =
  sn_team :: string
  sn_channel :: string
  sn_parent :: string
  sn_pending :: pending_approval
  sn_request :: interrupt_request
  sn_author :: string
  sn_excerpt :: string
  sn_effective :: datetime
  sn_deltas :: "requirement_delta list"
  sn_labels :: "string dict"
  sn_refs :: "string list"

definition delta_ok :: "requirement_delta \<Rightarrow> bool" where
  "delta_ok d \<longleftrightarrow> bounded 1 255 (rq_scope d) \<and> (case rq_previous d of None \<Rightarrow> True | Some v \<Rightarrow> length v \<le> 500)
     \<and> bounded 1 500 (rq_proposed d)"

text \<open>The strings are the stripped ones that the model configuration leaves.\<close>

definition validate_notification :: "slack_notification \<Rightarrow> unit result" where
  "validate_notification n = (let q = sn_request n; p = sn_pending n; scopes = map rq_scope (sn_deltas n) in
     bind_r (check (bounded 1 255 (sn_team n) \<and> bounded 1 255 (sn_channel n) \<and> bounded 1 255 (sn_parent n)
       \<and> bounded 1 255 (sn_author n) \<and> bounded 1 2000 (sn_excerpt n) \<and> sn_deltas n \<noteq> [] \<and> length (sn_deltas n) \<le> 20
       \<and> list_all delta_ok (sn_deltas n) \<and> length (sn_labels n) \<le> 100 \<and> length (sn_refs n) \<le> 20) ''Field constraints'') (\<lambda>_.
     bind_r (check (dt_aware (sn_effective n)) ''effective_at must be timezone-aware'') (\<lambda>_.
     bind_r (check (iq_scopes q \<noteq> {}) ''the interrupt preview must carry an affected scope'') (\<lambda>_.
     bind_r (check (pa_workspace p = iq_workspace q \<and> pa_decision p = iq_decision q \<and> pa_scopes p = iq_scopes q
       \<and> pa_effective p = sn_effective n) ''the notification must match one immutable pending approval'') (\<lambda>_.
     bind_r (check (distinct scopes) ''requirement_deltas must contain each scope once'') (\<lambda>_.
     bind_r (check (set scopes = iq_scopes q) ''requirement delta scopes must exactly match affected scopes'') (\<lambda>_.
     bind_r (check (list_all (\<lambda>r. strip r \<noteq> []) (sn_refs n)) ''evidence references must not be blank'') (\<lambda>_.
     check (list_all (\<lambda>(i, l). strip i \<noteq> [] \<and> strip l \<noteq> []) (sn_labels n)) ''assignment labels must not be blank''))))))))"

record blast_radius =
  br_interrupted :: "string list"
  br_preserved :: "string list"

definition blast_from_result :: "interrupt_result \<Rightarrow> blast_radius result" where
  "blast_from_result x = (let i = sort (ix_interrupted x); p = sort (ix_preserved x); overlap = set i \<inter> set p in
     bind_r (check (distinct i) ''interrupt preview returned duplicate interrupted IDs'') (\<lambda>_.
     bind_r (check (distinct p) ''interrupt preview returned duplicate preserved IDs'') (\<lambda>_.
     bind_r (check (overlap = {}) (''interrupt preview returned assignments in both partitions: ''
       @ join '', '' (sorted_list_of_set overlap))) (\<lambda>_.
     Inr \<lparr>br_interrupted = i, br_preserved = p\<rparr>))))"

definition format_delta :: "requirement_delta \<Rightarrow> string" where
  "format_delta d = ''- '' @ escape_user_text (rq_scope d) @ '': ''
     @ (case rq_previous d of None \<Rightarrow> ''(not supplied)'' | Some v \<Rightarrow> escape_user_text v)
     @ '' => '' @ escape_user_text (rq_proposed d)"

definition format_assignment :: "string dict \<Rightarrow> string \<Rightarrow> string" where
  "format_assignment labels i = (case dict_get labels i of
     Some l \<Rightarrow> escape_user_text l @ '' ('' @ escape_user_text i @ '')'' | None \<Rightarrow> escape_user_text i)"

definition format_partition :: "string \<Rightarrow> string list \<Rightarrow> string dict \<Rightarrow> string list" where
  "format_partition label ids labels = (if ids = [] then [label @ '': (none)''] else
     [label @ '' ('' @ show_nat (length ids) @ ''): '' @ join '', '' (map (format_assignment labels) (take 20 ids))]
     @ (if 20 < length ids then [''... and '' @ show_nat (length ids - 20) @ '' more''] else []))"

datatype slack_mode = Simulated_Slack | Live_Slack

text \<open>The dash in these two is the one character of the text that is not ASCII; 0x97 stands for it.\<close>

fun mode_description :: "slack_mode \<Rightarrow> string" where
  "mode_description Simulated_Slack = ''SIMULATED '' @ [CHR 0x97] @ '' no external Slack post''"
| "mode_description Live_Slack = ''LIVE '' @ [CHR 0x97] @ '' external Slack thread''"

definition lines_or :: "string \<Rightarrow> string list \<Rightarrow> string list" where
  "lines_or none ls = (if ls = [] then [none] else ls)"

definition message_lines :: "(datetime \<Rightarrow> string) \<Rightarrow> slack_notification \<Rightarrow> blast_radius \<Rightarrow> slack_mode \<Rightarrow> string list" where
  "message_lines stamp n b mode = (let q = sn_request n in
     [''writ.ai decision approval preview'', ''Delivery mode: '' @ mode_description mode,
      ''Workspace: '' @ escape_user_text (iq_workspace q), ''Decision: '' @ escape_user_text (iq_decision q),
      ''Source author: '' @ escape_user_text (sn_author n), ''Source message: '' @ escape_user_text (sn_excerpt n),
      ''Effective at: '' @ stamp (sn_effective n), [], ''Affected scopes:'']
     @ map (\<lambda>s. ''- '' @ escape_user_text s) (sorted_list_of_set (iq_scopes q))
     @ [[], ''Extracted requirement changes:''] @ map format_delta (sort_key rq_scope (sn_deltas n))
     @ [[], ''Blast radius: '' @ show_nat (length (br_interrupted b)) @ '' of ''
          @ show_nat (length (br_interrupted b) + length (br_preserved b)) @ '' active assignments would be interrupted.'']
     @ format_partition ''Would interrupt'' (br_interrupted b) (sn_labels n)
     @ format_partition ''Would preserve'' (br_preserved b) (sn_labels n)
     @ [''Interrupt reason: '' @ escape_user_text (iq_reason q), ''Redirect instruction: '' @ escape_user_text (iq_instruction q),
        ''Provenance path: '' @ (if iq_path q = [] then ''(none supplied)'' else join '' -> '' (map escape_user_text (iq_path q))),
        [], ''Evidence references:'']
     @ lines_or ''- (none supplied)'' (map (\<lambda>r. ''- '' @ escape_user_text r) (sn_refs n))
     @ [[], ''This is a read-only blast-radius preview. No assignment was interrupted and no decision was approved.'',
        ''A reaction is only an approval request. writ.ai must resolve the reacting user and verify permission at reaction time.''])"

record thread_message =
  tm_channel :: string
  tm_parent :: string
  tm_decision :: string
  tm_mode :: slack_mode
  tm_text :: string

definition compose_slack_thread_message ::
  "(datetime \<Rightarrow> string) \<Rightarrow> slack_notification \<Rightarrow> blast_radius \<Rightarrow> slack_mode \<Rightarrow> thread_message result"
where
  "compose_slack_thread_message stamp n b mode = (let t = join [CHR 0x0A] (message_lines stamp n b mode) in
     if 10000 < length t then
       Inl (notification_error ''The Slack approval-preview message exceeds 10,000 characters.'')
     else Inr \<lparr>tm_channel = sn_channel n, tm_parent = sn_parent n, tm_decision = iq_decision (sn_request n), tm_mode = mode,
       tm_text = t\<rparr>)"

record delivery_receipt =
  sp_channel :: string
  sp_parent :: string
  sp_message :: string
  sp_mode :: slack_mode

text \<open>The notifier has the preview of the supervisor's port and the sender; it never interrupts.\<close>

definition notify_thread ::
  "(interrupt_request \<Rightarrow> ('h, interrupt_result) op) \<Rightarrow> slack_mode \<Rightarrow> (thread_message \<Rightarrow> ('h, delivery_receipt) op)
    \<Rightarrow> (datetime \<Rightarrow> string) \<Rightarrow> slack_notification \<Rightarrow> (thread_file \<times> 'h, blast_radius \<times> thread_message \<times> delivery_receipt) op"
where
  "notify_thread preview mode send stamp n =
     bind_op (on_remote (preview (sn_request n))) (\<lambda>x.
     bind_op (read_op (\<lambda>_. blast_from_result x)) (\<lambda>b.
     bind_op (read_op (\<lambda>_. compose_slack_thread_message stamp n b mode)) (\<lambda>m.
     bind_op (on_remote (send m)) (\<lambda>rc.
     if sp_mode rc \<noteq> tm_mode m then
       raise_op (notification_error ''The Slack sender receipt reported a different delivery mode.'')
     else if sp_channel rc \<noteq> tm_channel m \<or> sp_parent rc \<noteq> tm_parent m then
       raise_op (notification_error ''The Slack sender receipt reported a different thread.'')
     else bind_op (on_store (json_register (thread_key_of (sn_team n) (sp_channel rc) (sp_message rc)) (sn_pending n)))
       (\<lambda>_. ret_op (b, m, rc))))))"

text \<open>A line of the message, whatever users wrote, holds no markup and no line break.\<close>

definition plain_line :: "string \<Rightarrow> bool" where
  "plain_line l \<longleftrightarrow> CHR ''<'' \<notin> set l \<and> CHR 0x0A \<notin> set l"

lemma plain_line_append [simp]: "plain_line (s @ t) \<longleftrightarrow> plain_line s \<and> plain_line t"
  by (auto simp: plain_line_def)

lemma plain_line_Cons [simp]: "plain_line (c # t) \<longleftrightarrow> c \<noteq> CHR ''<'' \<and> c \<noteq> CHR 0x0A \<and> plain_line t"
  by (auto simp: plain_line_def)

lemma plain_line_Nil [simp]: "plain_line []"
  by (simp add: plain_line_def)

lemma plain_escape [simp]: "plain_line (escape_user_text v)"
proof -
  have "CHR 0x0A \<notin> set (normalize_ws v)"
  proof
    assume "CHR 0x0A \<in> set (normalize_ws v)"
    then have "CHR 0x0A \<in> set (join '' '' (split_ws (remove_nul v)))" by (simp add: normalize_ws_def)
    then obtain w where "w \<in> set (split_ws (remove_nul v))" "CHR 0x0A \<in> set w" using set_join by fastforce
    moreover have "is_space (CHR 0x0A)" by (simp add: is_space_def)
    ultimately show False using split_ws_words [of w "remove_nul v"] by (auto simp: is_word_def)
  qed
  then have "CHR 0x0A \<notin> set (escape_user_text v)"
    by (auto simp: escape_user_text_chars escape_char_def split: if_splits)
  then show ?thesis using escape_user_text_plain by (simp add: plain_line_def)
qed

lemma plain_show_nat [simp]: "plain_line (show_nat n)"
proof -
  have "digit d \<noteq> CHR ''<'' \<and> digit d \<noteq> CHR 0x0A" if "d < 10" for d
    using of_char_digit [OF that] that by auto
  then show ?thesis using show_nat_digits unfolding plain_line_def by metis
qed

lemma plain_join [simp]: "plain_line sep \<Longrightarrow> \<forall>w\<in>set ws. plain_line w \<Longrightarrow> plain_line (join sep ws)"
  by (induction sep ws rule: join.induct) simp_all

lemma plain_format_delta: "plain_line (format_delta d)"
  by (simp add: format_delta_def split: option.split)

lemma plain_format_partition: "plain_line label \<Longrightarrow> l \<in> set (format_partition label ids labels) \<Longrightarrow> plain_line l"
  by (auto simp: format_partition_def format_assignment_def split: if_splits option.splits)

lemma message_lines_plain:
  assumes "plain_line (stamp (sn_effective n))" and "l \<in> set (message_lines stamp n b mode)"
  shows "plain_line l"
proof -
  have "plain_line (mode_description mode)" by (cases mode) simp_all
  then show ?thesis using assms
    by (auto simp: message_lines_def Let_def lines_or_def plain_format_delta dest: plain_format_partition [rotated] split: if_splits)
qed

lemma split_on_join_lines:
  "ws \<noteq> [] \<Longrightarrow> \<forall>w\<in>set ws. CHR 0x0A \<notin> set w \<Longrightarrow> split_on (\<lambda>c. c = CHR 0x0A) (join [CHR 0x0A] ws) = ws"
proof (induction "[CHR 0x0A]" ws rule: join.induct)
  case (2 w)
  then have "\<forall>c\<in>set w. \<not> c = CHR 0x0A" by auto
  then show ?case by (simp add: split_on_plain)
next
  case (3 w v ws)
  then have "\<forall>c\<in>set w. \<not> c = CHR 0x0A" by auto
  then show ?case using 3 by (simp add: split_on_append)
qed simp

text \<open>The message is the lines that the program composes, no more, and none of them holds markup.\<close>

lemma composed_lines:
  assumes "compose_slack_thread_message stamp n b mode = Inr m" and "plain_line (stamp (sn_effective n))"
  shows "split_on (\<lambda>c. c = CHR 0x0A) (tm_text m) = message_lines stamp n b mode \<and> CHR ''<'' \<notin> set (tm_text m)
    \<and> length (tm_text m) \<le> 10000"
proof -
  have t: "tm_text m = join [CHR 0x0A] (message_lines stamp n b mode)" "length (tm_text m) \<le> 10000"
    using assms(1) by (auto simp: compose_slack_thread_message_def Let_def split: if_splits)
  have plain: "\<forall>l\<in>set (message_lines stamp n b mode). plain_line l" using message_lines_plain [of stamp n _ b mode] assms(2) by blast
  then have "\<forall>l\<in>set (message_lines stamp n b mode). CHR 0x0A \<notin> set l" by (simp add: plain_line_def)
  moreover have "message_lines stamp n b mode \<noteq> []" by (simp add: message_lines_def Let_def)
  ultimately have "split_on (\<lambda>c. c = CHR 0x0A) (tm_text m) = message_lines stamp n b mode"
    unfolding t(1) by (intro split_on_join_lines)
  moreover have "CHR ''<'' \<notin> set (tm_text m)"
    using set_join [of "[CHR 0x0A]" "message_lines stamp n b mode"] plain unfolding t(1) by (fastforce simp: plain_line_def)
  ultimately show ?thesis using t(2) by blast
qed

text \<open>A preview that was posted is bound to the decision it shows.\<close>

lemma notified_thread:
  assumes "notify_thread preview mode send stamp n x = (Inr (b, m, rc), y)"
  shows "\<exists>q. json_thread (fst y) (thread_key_of (sn_team n) (sn_channel n) (sp_message rc)) = Some (q, None)
    \<and> (q = sn_pending n \<or> pending_same q (sn_pending n))"
proof -
  let ?k = "thread_key_of (sn_team n) (sp_channel rc) (sp_message rc)"
  obtain f where f: "json_register ?k (sn_pending n) f = (Inr (), fst y)" "sp_channel rc = tm_channel m" "tm_channel m = sn_channel n"
    using assms by (auto simp: notify_thread_def bind_op_def on_remote_def on_store_def compose_slack_thread_message_def Let_def
      split: sum.splits prod.splits if_splits)
  show ?thesis
  proof (cases "read_threads f")
    case (Inl e)
    then show ?thesis using f(1) by (auto simp: json_register_def bind_op_def split: sum.splits)
  next
    case (Inr ts)
    show ?thesis
    proof (cases "List.find (\<lambda>t. th_key t = ?k) ts")
      case None
      have "List.find (\<lambda>t. th_key t = ?k) (ts @ [t]) = Some t" if "th_key t = ?k" for t
        using None that by (induction ts) (auto split: if_splits)
      moreover have "fst y = Threads (ts @ [\<lparr>th_key = ?k, th_pending = sn_pending n, th_consumed = None\<rparr>])"
        using f(1) Inr None by (auto simp: json_register_def bind_op_def Let_def split: sum.splits if_splits)
      ultimately show ?thesis using f(2,3) by (simp add: json_thread_def)
    next
      case (Some t)
      then have "fst y = f" "pending_same (th_pending t) (sn_pending n)" "th_consumed t = None"
        using f(1) Inr by (auto simp: json_register_def bind_op_def split: sum.splits if_splits)
      then show ?thesis using Inr Some f(2,3) by (cases f) (auto simp: json_thread_def)
    qed
  qed
qed

end
