(* ===== verification/Recovery.thy ===== *)
theory Recovery
  imports Transport
begin

text \<open>
  The authority context of a workspace is what the record's approvals make, so that the agent can
  rebuild one that the authority evicted or lost, exactly.
\<close>

subsection \<open>Comparing dictionaries by what they hold\<close>

lemma option_eqI: "(\<And>a. x = Some a \<longleftrightarrow> y = Some a) \<Longrightarrow> x = y"
  by (metis option.exhaust)

lemma case_option_ex: "(case x of None \<Rightarrow> False | Some u \<Rightarrow> p u) \<longleftrightarrow> (\<exists>u. x = Some u \<and> p u)"
  by (cases x) auto

lemma dict_same_iff: "dict_same a b \<longleftrightarrow> dict_get a = dict_get b"
proof
  assume same: "dict_same a b"
  show "dict_get a = dict_get b"
  proof
    fix k
    show "dict_get a k = dict_get b k"
    proof (cases "k \<in> fst ` set a")
      case False
      then have "k \<notin> fst ` set b" using same by (simp add: dict_same_def)
      then show ?thesis using False dict_get_None by metis
    next
      case True
      show ?thesis by (rule bspec [OF same [unfolded dict_same_def, THEN conjunct2] True])
    qed
  qed
next
  assume eq: "dict_get a = dict_get b"
  then have "k \<in> fst ` set a \<longleftrightarrow> k \<in> fst ` set b" for k by (metis dict_get_None)
  then have "fst ` set a = fst ` set b" by (rule set_eqI)
  then show "dict_same a b" unfolding dict_same_def eq by simp
qed

lemma same_keys_iff: "same_keys a b \<longleftrightarrow> (\<forall>k. dict_get a k = None \<longleftrightarrow> dict_get b k = None)"
  by (auto simp: same_keys_def dict_get_None set_eq_iff)

lemma agree_iff:
  assumes "wf_dict e"
  shows "agree f a e \<longleftrightarrow> (\<forall>k. rel_option f (dict_get a k) (dict_get e k))"
proof -
  have mem: "(k, v) \<in> set e \<longleftrightarrow> dict_get e k = Some v" for k v using assms by simp
  have "agree f a e \<longleftrightarrow> (\<forall>k. dict_get a k = None \<longleftrightarrow> dict_get e k = None)
      \<and> (\<forall>k v. dict_get e k = Some v \<longrightarrow> (\<exists>u. dict_get a k = Some u \<and> f u v))"
    unfolding agree_def same_keys_iff Ball_def split_paired_All prod.case mem case_option_ex ..
  also have "\<dots> \<longleftrightarrow> (\<forall>k. rel_option f (dict_get a k) (dict_get e k))"
    (is "?left \<longleftrightarrow> ?right")
  proof
    assume ?left
    then show ?right by (intro allI) (case_tac "dict_get e k"; fastforce)
  next
    assume ?right
    then have "rel_option f (dict_get a k) (dict_get e k)" for k by blast
    note rel = this
    have "dict_get a k = None \<longleftrightarrow> dict_get e k = None" for k
      using rel [of k] by (cases "dict_get a k"; cases "dict_get e k") simp_all
    moreover have "\<exists>u. dict_get a k = Some u \<and> f u v" if "dict_get e k = Some v" for k v
      using rel [of k] that by (auto simp: option_rel_Some2)
    ultimately show ?left by blast
  qed
  finally show ?thesis .
qed

lemma by_id_wf [simp]: "wf_dict (by_id as)"
  by (simp add: by_id_def wf_dict_of)

lemma by_id_append: "by_id (as @ [a]) = dict_set (art_id a) a (by_id as)"
proof -
  have "dict_update d (xs @ [(k, v)]) = dict_set k v (dict_update d xs)" for d xs k and v :: artifact
    by (induction d xs rule: dict_update.induct) auto
  then show ?thesis by (simp add: by_id_def dict_of_def)
qed

lemma by_id_get:
  assumes "distinct (map art_id as)"
  shows "dict_get (by_id as) i = Some a \<longleftrightarrow> a \<in> set as \<and> art_id a = i"
proof -
  have "wf_dict (map (\<lambda>a. (art_id a, a)) as)" using assms by (simp add: comp_def)
  then have "dict_get (by_id as) = map_of (map (\<lambda>a. (art_id a, a)) as)"
    by (simp add: by_id_def dict_get_of map_of_rev_distinct fun_eq_iff)
  then show ?thesis using \<open>wf_dict (map (\<lambda>a. (art_id a, a)) as)\<close> by auto
qed

lemma by_id_mem:
  assumes "distinct (map art_id as)"
  shows "(i, a) \<in> set (by_id as) \<longleftrightarrow> a \<in> set as \<and> art_id a = i"
  using by_id_get [OF assms, of i a] dict_get_set_mem [OF by_id_wf [of as], of i a] by simp

lemma by_id_stored: "wf_graph g \<Longrightarrow> dict_get (by_id (list_artifacts g)) i = dict_get (g_artifacts g) i"
proof -
  assume g: "wf_graph g"
  have ids: "distinct (map art_id (list_artifacts g))" using list_artifacts_ids [OF g] by blast
  show ?thesis
    using list_artifacts_get [OF g] wf_graph_id [OF g]
    by (intro option_eqI) (auto simp: by_id_get [OF ids] get_artifact_Inr)
qed

lemma by_id_decisions:
  assumes g: "wf_graph g"
  shows "dict_get (by_id (filter (\<lambda>a. art_kind a = Decision) (list_artifacts g))) i =
    Option.bind (dict_get (g_artifacts g) i) (\<lambda>a. if art_kind a = Decision then Some a else None)"
proof -
  have "distinct (map art_id (filter (\<lambda>a. art_kind a = Decision) (list_artifacts g)))"
    using list_artifacts_ids [OF g] by (simp add: distinct_map_filter)
  from by_id_get [OF this] show ?thesis
    using list_artifacts_get [OF g] wf_graph_id [OF g]
    by (intro option_eqI) (auto simp: get_artifact_Inr bind_eq_Some_conv)
qed

subsection \<open>When a context matches a record\<close>

abbreviation stored :: "authority_context \<Rightarrow> string \<Rightarrow> artifact option" where
  "stored c \<equiv> dict_get (g_artifacts (au_graph (cx_authority c)))"

definition as_decision :: "artifact option \<Rightarrow> artifact option" where
  "as_decision v = Option.bind v (\<lambda>a. if art_kind a = Decision then Some a else None)"

definition supersessions :: "edge list \<Rightarrow> (string \<times> string) set" where
  "supersessions es = set (map (\<lambda>e. (edge_source e, edge_target e)) (filter (\<lambda>e. edge_kind e = SUPERSEDES) es))"

lemma context_matches_iff:
  assumes g: "wf_graph (au_graph (cx_authority c))"
  shows "context_matches P w (context_state c) \<longleftrightarrow>
     version_label (au_graph (cx_authority c)) = lw_version w \<and> cx_baseline c = art_id (ir_baseline (lw_definition w))
   \<and> cx_approved c = lw_baseline_approved w \<and> dict_get (cx_policy c) = dict_get (ir_policy (lw_definition w))
   \<and> cx_slack c = ir_slack (lw_definition w)
   \<and> dict_get (map (\<lambda>(i, q). (i, mq_evidence q)) (cx_mutations c)) = dict_get (expected_evidence w)
   \<and> (\<forall>i. rel_option same_governance (stored c i) (dict_get (expected_artifacts P w) i))
   \<and> (\<forall>i. rel_option (\<lambda>a e. art_approval a = art_approval e) (as_decision (stored c i)) (dict_get (expected_decisions P w) i))
   \<and> supersessions (g_edges (au_graph (cx_authority c))) = expected_supersessions w"
proof -
  have wf: "wf_dict (expected_artifacts P w)" "wf_dict (expected_decisions P w)"
    by (simp_all add: expected_artifacts_def expected_decisions_def Let_def)
  show ?thesis
    unfolding context_matches_def Let_def dict_same_iff agree_iff [OF wf(1)] agree_iff [OF wf(2)]
    by (simp add: context_state_def Let_def by_id_stored [OF g] by_id_decisions [OF g] as_decision_def supersessions_def)
qed

text \<open>Governance is what a change of other artifacts leaves alone.\<close>

lemma same_governance_marked: "same_governance (marked A a) b \<longleftrightarrow> same_governance a b"
  by (simp add: same_governance_def marked_def Let_def)

lemma as_decision_simps [simp]:
  "as_decision None = None" "as_decision (Some a) = (if art_kind a = Decision then Some a else None)"
  by (simp_all add: as_decision_def)

lemma same_governance_refl: "wf_pyval (PDict (art_attrs a)) \<Longrightarrow> same_governance a a"
  by (simp add: same_governance_def attrs_eq_refl)

lemma stored_get: "get_artifact g i = Inr a \<longleftrightarrow> dict_get (g_artifacts g) i = Some a"
  by (rule get_artifact_Inr)

lemma records_change_graph:
  assumes ok: "context_ok c" and rec: "records_change P q c res c'"
  obtains g' where "au_graph (cx_authority c') = g'" "mres_version res = version_label g'"
    "stored c (art_id (mut_decision (mq_mutation q))) = None"
    "g_edges g' = g_edges (au_graph (cx_authority c)) @ [supersedes_edge (approved_mutation P q)]"
    "\<And>i. dict_get (g_artifacts g') i = (if i = art_id (mut_decision (mq_mutation q)) then Some (mut_decision (approved_mutation P q))
      else map_option (if affected_by (au_graph (cx_authority c)) (mut_scopes (mq_mutation q)) (mut_supersedes (mq_mutation q)) i
        then marked (mut_scopes (mq_mutation q)) else id) (stored c i))"
proof -
  let ?m = "approved_mutation P q" and ?au = "cx_authority c"
  have fields: "mut_scopes ?m = mut_scopes (mq_mutation q)" "mut_supersedes ?m = mut_supersedes (mq_mutation q)"
    "art_id (mut_decision ?m) = art_id (mut_decision (mq_mutation q))"
    by (simp_all add: approved_mutation_def Let_def)
  from rec obtain au where au: "apply_decision_change ?m ?au = (Inr res, au)" "mres_applied res" "cx_authority c' = au"
    by (auto simp: records_change_def Let_def)
  then have change: "change_ok ?au ?m"
    by (auto simp: apply_decision_change_def Let_def change_ok_def in_graph_get refused_def
        split: option.splits sum.splits if_splits)
  have "wf_graph (au_graph ?au)" "\<not> g_in_txn (au_graph ?au)" using ok by (simp_all add: context_ok_def)
  from apply_decision_change_applies [OF this change] au
  obtain g' where g': "au_graph (cx_authority c') = g'" "mres_version res = version_label g'"
      "g_edges g' = g_edges (au_graph ?au) @ [supersedes_edge ?m]"
      "\<forall>i. get_artifact g' i = (if i = art_id (mut_decision ?m) then Inr (mut_decision ?m)
         else map_sum id (if affected_by (au_graph ?au) (mut_scopes ?m) (mut_supersedes ?m) i
                          then marked (mut_scopes ?m) else id) (get_artifact (au_graph ?au) i))"
    by auto
  have "dict_get (g_artifacts g') i = (if i = art_id (mut_decision ?m) then Some (mut_decision ?m)
      else map_option (if affected_by (au_graph ?au) (mut_scopes ?m) (mut_supersedes ?m) i
        then marked (mut_scopes ?m) else id) (stored c i))" for i
    using g'(4) [rule_format, of i] by (auto simp: get_artifact_def split: option.splits if_splits)
  moreover have "stored c (art_id (mut_decision ?m)) = None"
    using change by (simp add: change_ok_def in_graph_def)
  ultimately show ?thesis using that [of g'] g'(1-3) fields by simp
qed

lemma approved_decision_of_request:
  assumes "am_evidence am = Some e" and "ae_fingerprint e = stable_hash P (mutation_dump P (am_mutation am))"
  shows "mut_decision (approved_mutation P (change_request am e)) = approved_decision P am"
  using assms by (simp add: approved_mutation_def approved_decision_def change_request_def Let_def)

lemma approve_mutation_in_new:
  assumes ok: "context_ok c" and new: "art_id (mut_decision (mq_mutation q)) \<notin> cx_applied c"
    and run: "approve_mutation_in P th i q c = (Inr res, c')"
  shows "records_change P q c res c' \<and> evidence_bound P i q \<and> art_kind (mut_decision (mq_mutation q)) = Decision"
proof -
  have "apply_approved P q c = (Inr res, c')" "evidence_bound P i q"
      "validate_approval th c (mut_decision (mq_mutation q)) (mq_role q) = Inr ()"
    using run new by (auto simp: approve_mutation_in_def Let_def split: if_splits sum.splits)
  then show ?thesis
    using apply_approved_cases [OF ok _ new] by (auto simp: validate_approval_def split: if_splits)
qed

lemma dict_set_all: "\<forall>p\<in>set d. Q (snd p) \<Longrightarrow> Q v \<Longrightarrow> \<forall>p\<in>set (dict_set k v d). Q (snd p)"
  by (induction d) auto

lemma wf_pyval_set:
  assumes "wf_pyval (PDict d)" "wf_pyval v"
  shows "wf_pyval (PDict (dict_set k v d))"
  using assms dict_set_all [of d wf_pyval v k] by simp

lemma review_extraction_wf:
  assumes "wf_pyval (PDict d)"
  shows "wf_pyval (PDict (review_extraction P fp e d))"
proof (cases "\<exists>x. dict_get d ''extraction'' = Some (PDict x)")
  case True
  then obtain x where x: "dict_get d ''extraction'' = Some (PDict x)" ..
  then have "(''extraction'', PDict x) \<in> set d" using assms by simp
  then have "wf_pyval (PDict x)" using assms by fastforce
  with assms show ?thesis unfolding review_extraction_def x
    by (simp add: wf_pyval_set del: wf_pyval.simps(3))
next
  case False
  then show ?thesis using assms by (auto simp: review_extraction_def split: option.splits pyval.splits)
qed

lemma change_matches:
  assumes ok: "context_ok c" and m: "context_matches P w (context_state c)" and ev: "am_evidence am = Some e"
    and new: "art_id (mut_decision (am_mutation am)) \<notin> cx_applied c"
    and attrs: "wf_pyval (PDict (art_attrs (mut_decision (am_mutation am))))"
    and run: "approve_mutation_in P th i (change_request am e) c = (Inr res, c')"
  shows "context_matches P (w\<lparr>lw_approved := lw_approved w @ [am], lw_version := mres_version res\<rparr>) (context_state c')"
proof -
  let ?q = "change_request am e" and ?d = "approved_decision P am" and ?k = "art_id (mut_decision (am_mutation am))"
  let ?w = "w\<lparr>lw_approved := lw_approved w @ [am], lw_version := mres_version res\<rparr>"
  have q: "mq_mutation ?q = am_mutation am" "mq_evidence ?q = e" by (simp_all add: change_request_def)
  have rec: "records_change P ?q c res c'" and bound: "evidence_bound P i ?q" and kind: "art_kind (mut_decision (am_mutation am)) = Decision"
    using approve_mutation_in_new [OF ok _ run] new by (simp_all add: q)
  have d: "mut_decision (approved_mutation P ?q) = ?d" "art_id ?d = ?k" "art_kind ?d = Decision" "art_approval ?d = Some Approved"
    using approved_decision_of_request [OF ev, of P] bound kind
    by (simp_all add: evidence_bound_def Let_def change_request_def approved_decision_def)
  obtain g' where g': "au_graph (cx_authority c') = g'" "mres_version res = version_label g'" "stored c ?k = None"
    "g_edges g' = g_edges (au_graph (cx_authority c)) @ [supersedes_edge (approved_mutation P ?q)]"
    "\<And>i. dict_get (g_artifacts g') i = (if i = ?k then Some ?d
      else map_option (if affected_by (au_graph (cx_authority c)) (mut_scopes (am_mutation am)) (mut_supersedes (am_mutation am)) i
        then marked (mut_scopes (am_mutation am)) else id) (stored c i))"
    using records_change_graph [OF ok rec] unfolding q d(1) by metis
  note m' = m [unfolded context_matches_iff [OF ok [unfolded context_ok_def, THEN conjunct1]]]
  have same: "cx_baseline c' = cx_baseline c" "cx_policy c' = cx_policy c" "cx_slack c' = cx_slack c" "cx_approved c' = cx_approved c"
      "cx_mutations c' = cx_mutations c @ [(?k, ?q)]"
    using rec records_change_ok(2) [OF ok rec] by (auto simp: records_change_def Let_def q)
  have arts: "expected_artifacts P ?w = dict_set ?k ?d (expected_artifacts P w)"
    "expected_decisions P ?w = dict_set ?k ?d (expected_decisions P w)"
    using by_id_append [of _ ?d] d(2)
    by (simp_all add: expected_artifacts_def expected_decisions_def Let_def flip: append_assoc append_Cons)
  have "same_governance ?d ?d" using attrs review_extraction_wf [OF attrs]
    by (intro same_governance_refl) (simp add: approved_decision_def Let_def ev del: wf_pyval.simps(3))
  have fresh: "?k \<notin> fst ` set (cx_mutations c)" using new ok by (simp add: context_ok_def)
  have "dict_get (map (\<lambda>(i, q). (i, mq_evidence q)) (cx_mutations c')) = (dict_get (expected_evidence w))(?k \<mapsto> e)"
  proof -
    have "?k \<notin> fst ` set (map (\<lambda>(i, q). (i, mq_evidence q)) (cx_mutations c))" using fresh by force
    then have "dict_get (map (\<lambda>(i, q). (i, mq_evidence q)) (cx_mutations c)) ?k = None"
      by (rule dict_get_None [THEN iffD2])
    then show ?thesis using m' same(5) q by (auto simp: map_add_def fun_eq_iff split: option.splits)
  qed
  moreover have "dict_get (expected_evidence ?w) = (dict_get (expected_evidence w))(?k \<mapsto> e)"
    using ev by (auto simp: expected_evidence_def dict_get_of fun_eq_iff)
  ultimately have evidence: "dict_get (map (\<lambda>(i, q). (i, mq_evidence q)) (cx_mutations c')) = dict_get (expected_evidence ?w)"
    by simp
  have governed: "rel_option same_governance (dict_get (g_artifacts g') i) (dict_get (expected_artifacts P ?w) i)" for i
    using m' [THEN conjunct2, THEN conjunct2, THEN conjunct2, THEN conjunct2, THEN conjunct2, THEN conjunct2, THEN conjunct1, rule_format, of i]
    by (auto simp: g'(5) arts dict_get_set option.rel_map same_governance_marked \<open>same_governance ?d ?d\<close> elim: option.rel_mono_strong)
  have decided: "rel_option (\<lambda>a e. art_approval a = art_approval e) (as_decision (dict_get (g_artifacts g') i)) (dict_get (expected_decisions P ?w) i)" for i
    using m' [THEN conjunct2, THEN conjunct2, THEN conjunct2, THEN conjunct2, THEN conjunct2, THEN conjunct2, THEN conjunct2, THEN conjunct1, rule_format, of i]
    by (cases "stored c i") (auto simp: g'(5) arts(2) dict_get_set d split: if_splits elim: option.rel_cases)
  have "supersessions (g_edges g') = insert (?k, mut_supersedes (am_mutation am)) (supersessions (g_edges (au_graph (cx_authority c))))"
    by (auto simp: supersessions_def g'(4) supersedes_edge_def approved_mutation_def change_request_def Let_def)
  moreover have "expected_supersessions ?w = insert (?k, mut_supersedes (am_mutation am)) (expected_supersessions w)"
    by (simp add: expected_supersessions_def)
  ultimately have super: "supersessions (g_edges g') = expected_supersessions ?w" using m' by simp
  have "wf_graph (au_graph (cx_authority c'))" using records_change_ok(1) [OF ok rec] by (simp add: context_ok_def)
  then show ?thesis
    unfolding context_matches_iff [OF \<open>wf_graph (au_graph (cx_authority c'))\<close>] g'(1)
    using m' same(1-4) g'(2) evidence governed decided super by simp
qed


subsection \<open>A new context, and its baseline approved\<close>

lemma seeded_decision:
  assumes v: "validate_graph_seed (context_request w) = Inr u"
  shows "filter (\<lambda>a. art_kind a = Decision) (graph_artifacts (lw_definition w)) = [ir_baseline (lw_definition w)]"
    and "distinct (map art_id (graph_artifacts (lw_definition w)))"
proof -
  let ?r = "lw_definition w" and ?as = "graph_artifacts (lw_definition w)"
  let ?ds = "filter (\<lambda>a. art_kind a = Decision) ?as"
  have parts: "distinct (map art_id ?as)" "length ?ds = 1" "art_id (hd ?ds) = art_id (ir_baseline ?r)"
    using v by (simp_all add: validate_graph_seed_def context_request_def Let_def split: sum.splits)
  then show "distinct (map art_id ?as)" by blast
  obtain d where d: "?ds = [d]" using parts(2) by (auto simp: length_Suc_conv)
  have "d \<in> set ?as" using d by (metis filter_is_subset list.set_intros(1) subsetD)
  moreover have "ir_baseline ?r \<in> set ?as" by (simp add: graph_artifacts_def)
  moreover have "art_id d = art_id (ir_baseline ?r)" using parts(3) d by simp
  ultimately have "d = ir_baseline ?r" using parts(1) by (meson distinct_map inj_on_eq_iff)
  then show "?ds = [ir_baseline ?r]" using d by simp
qed

lemma new_context_graph:
  assumes "new_context P r q = Inr c"
  shows "au_graph (cx_authority c) = reset (xc_version q) (xc_artifacts q) (xc_edges q) empty_graph"
    and "cx_policy c = xc_policy q \<and> cx_slack c = xc_slack q \<and> cx_baseline c = xc_baseline q \<and> \<not> cx_approved c
      \<and> cx_mutations c = [] \<and> cx_applied c = {} \<and> cx_id c = xc_id q"
  using assms by (auto simp: new_context_def Let_def make_authority_def split: if_splits)

lemma seed_matches:
  assumes v: "validate_graph_seed (context_request w) = Inr u" and c: "new_context P r (context_request w) = Inr c"
    and draft: "lw_approved w = []" "\<not> lw_baseline_approved w" "lw_version w = version_label (au_graph (cx_authority c))"
    and edges: "\<forall>e\<in>set (graph_edges (lw_definition w)). edge_kind e \<noteq> SUPERSEDES"
    and attrs: "\<forall>a\<in>set (graph_artifacts (lw_definition w)). wf_pyval (PDict (art_attrs a))"
  shows "context_matches P w (context_state c)"
proof -
  let ?as = "graph_artifacts (lw_definition w)"
  have "wf_graph (au_graph (cx_authority c))" using new_context_ok(1) [OF v c] by (simp add: context_ok_def)
  have arts: "stored c = dict_get (by_id ?as)"
    by (simp add: new_context_graph(1) [OF c] reset_def context_request_def by_id_def Let_def)
  have known: "same_governance a a" if "dict_get (by_id ?as) i = Some a" for i a
    using that attrs by (auto simp: by_id_get [OF seeded_decision(2) [OF v]] intro: same_governance_refl)
  have "rel_option same_governance (stored c i) (dict_get (expected_artifacts P w) i)" for i
    using known by (cases "dict_get (by_id ?as) i") (simp_all add: arts expected_artifacts_def draft)
  moreover have "as_decision (stored c i) = dict_get (expected_decisions P w) i" for i
  proof -
    have "as_decision (stored c i) = dict_get (by_id (filter (\<lambda>a. art_kind a = Decision) ?as)) i"
      using seeded_decision(2) [OF v]
      by (intro option_eqI) (auto simp: arts as_decision_def by_id_mem distinct_map_filter bind_eq_Some_conv)
    then show ?thesis by (simp add: seeded_decision(1) [OF v] expected_decisions_def draft)
  qed
  moreover have "rel_option (\<lambda>a e. art_approval a = art_approval e) x x" for x :: "artifact option" by (cases x) simp_all
  moreover have "supersessions (g_edges (au_graph (cx_authority c))) = expected_supersessions w"
    using edges by (simp add: supersessions_def expected_supersessions_def draft new_context_graph(1) [OF c]
        reset_def context_request_def Let_def)
  ultimately show ?thesis
    unfolding context_matches_iff [OF \<open>wf_graph (au_graph (cx_authority c))\<close>]
    using new_context_graph(2) [OF c] draft
    by (simp add: context_request_def Let_def expected_evidence_def dict_of_def)
qed

definition with_baseline :: "string \<Rightarrow> string \<Rightarrow> live_record \<Rightarrow> live_record" where
  "with_baseline role version w =
     w\<lparr>lw_baseline_approved := True, lw_baseline_role := Some role, lw_version := version\<rparr>"

lemma baseline_matches:
  assumes ok: "context_ok c" and m: "context_matches P w (context_state c)" and none: "lw_approved w = []"
    and fresh: "\<not> cx_approved c" and run: "approve_baseline_in th role c = (Inr st, c')"
  shows "context_matches P (with_baseline role (cs_version st) w) (context_state c') \<and> context_ok c'
    \<and> cx_approved c' \<and> cx_applied c' = cx_applied c \<and> cx_id c' = cx_id c"
proof -
  let ?g = "au_graph (cx_authority c)" and ?b = "ir_baseline (lw_definition w)"
  have wf: "wf_graph ?g" using ok by (simp add: context_ok_def)
  have st: "st = context_state c'" "cx_approved c'"
    using run fresh by (auto simp: approve_baseline_in_def Let_def split: sum.splits prod.splits)
  then have "c' \<noteq> c" using fresh by blast
  with st obtain b where b: "get_artifact ?g (cx_baseline c) = Inr b" "c' = baseline_approved role b c"
      "art_kind b = Decision"
    using approve_baseline_in_cases(1) [OF ok run] by (auto simp: validate_approval_def split: if_splits)
  note m' = m [unfolded context_matches_iff [OF wf]]
  let ?k = "art_id b"
  have k: "?k = art_id ?b" "stored c ?k = Some b" using b(1) m' wf_graph_id [OF wf b(1)] by (simp_all add: get_artifact_Inr)
  have g': "au_graph (cx_authority c') = ?g\<lparr>g_artifacts := dict_set ?k (b\<lparr>art_approval := Some Approved\<rparr>) (g_artifacts ?g)\<rparr>"
    using k(2) by (simp add: b(2) baseline_approved_def update_artifact_def)
  have ok': "context_ok c'" unfolding b(2) by (rule baseline_approved_ok [OF ok])
  let ?w = "with_baseline role (cs_version st) w"
  have same: "expected_artifacts P ?w = expected_artifacts P w" "expected_evidence ?w = expected_evidence w"
      "expected_supersessions ?w = expected_supersessions w"
    by (simp_all add: with_baseline_def expected_artifacts_def expected_evidence_def expected_supersessions_def)
  have rel: "rel_option same_governance (stored c i) (dict_get (expected_artifacts P w) i)"
      "rel_option (\<lambda>a e. art_approval a = art_approval e) (as_decision (stored c i)) (dict_get (expected_decisions P w) i)" for i
    using m' by simp_all
  have "rel_option same_governance (stored c' i) (dict_get (expected_artifacts P ?w) i)" for i
    using rel(1) [of i] k(2) by (auto simp: g' same dict_get_set same_governance_def elim: option.rel_cases)
  moreover have "rel_option (\<lambda>a e. art_approval a = art_approval e) (as_decision (stored c' i)) (dict_get (expected_decisions P ?w) i)" for i
    using rel(2) [of i] by (auto simp: g' b(3) k(1) expected_decisions_def with_baseline_def none by_id_def dict_of_def Let_def dict_get_set split: if_splits)
  moreover have "wf_graph (au_graph (cx_authority c'))" using ok' by (simp add: context_ok_def)
  moreover have "cx_policy c' = cx_policy c \<and> cx_slack c' = cx_slack c \<and> cx_baseline c' = cx_baseline c
      \<and> cx_mutations c' = cx_mutations c \<and> cx_applied c' = cx_applied c \<and> cx_id c' = cx_id c"
    by (simp add: b(2) baseline_approved_def)
  moreover have "g_edges (au_graph (cx_authority c')) = g_edges ?g" "version_label (au_graph (cx_authority c')) = cs_version st"
    unfolding st(1) by (simp_all add: g' context_state_def Let_def)
  moreover have "lw_baseline_approved ?w" "lw_version ?w = cs_version st" "lw_definition ?w = lw_definition w"
    by (simp_all add: with_baseline_def)
  ultimately show ?thesis
    unfolding context_matches_iff [OF \<open>wf_graph (au_graph (cx_authority c'))\<close>]
    using m' ok' same(2,3) st(2) by simp
qed


lemma change_after_baseline: "approve_mutation_in P th i q c = (Inr res, c') \<Longrightarrow> cx_approved c"
  by (auto simp: approve_mutation_in_def Let_def split: if_splits)

subsection \<open>What a record's approvals make of a context\<close>

definition with_change :: "approved_change \<Rightarrow> string \<Rightarrow> live_record \<Rightarrow> live_record" where
  "with_change am version w = w\<lparr>lw_approved := lw_approved w @ [am], lw_version := version\<rparr>"

definition json_change :: "approved_change \<Rightarrow> bool" where
  "json_change am \<longleftrightarrow> wf_pyval (PDict (art_attrs (mut_decision (am_mutation am))))"

definition json_import :: "import_request \<Rightarrow> bool" where
  "json_import r \<longleftrightarrow> (\<forall>a\<in>set (graph_artifacts r). wf_pyval (PDict (art_attrs a)))"

text \<open>
  The record and the context of the authority go through the same approvals: the context is created from
  the definition, its baseline is approved, and changes are applied; other fields of the record are free.
\<close>

inductive tracks :: "platform \<Rightarrow> registry \<Rightarrow> live_record \<Rightarrow> authority_context \<Rightarrow> bool" for P rg where
  seed: "tracks P rg w c"
    if "validate_graph_seed (context_request w) = Inr u" "new_context P rg (context_request w) = Inr c"
      "lw_approved w = []" "\<not> lw_baseline_approved w" "lw_version w = version_label (au_graph (cx_authority c))"
      "\<forall>e\<in>set (graph_edges (lw_definition w)). edge_kind e \<noteq> SUPERSEDES" "json_import (lw_definition w)"
| baseline: "tracks P rg (with_baseline role (cs_version st) w) c'"
    if "tracks P rg w c" "\<not> lw_baseline_approved w"
      "approve_baseline_in (rg_threshold rg) role c = (Inr st, c')"
| change: "tracks P rg (with_change am (mres_version res) w) c'"
    if "tracks P rg w c" "am_evidence am = Some e" "json_change am"
      "art_id (mut_decision (am_mutation am)) \<notin> cx_applied c"
      "approve_mutation_in P (rg_threshold rg) (lw_context w) (change_request am e) c = (Inr res, c')"
| other: "tracks P rg w' c"
    if "tracks P rg w c" "lw_definition w' = lw_definition w" "lw_context w' = lw_context w" "lw_version w' = lw_version w"
      "lw_baseline_approved w' = lw_baseline_approved w" "lw_baseline_role w' = lw_baseline_role w"
      "lw_approved w' = lw_approved w"

lemma matches_lineage:
  assumes "lw_definition w' = lw_definition w" "lw_version w' = lw_version w"
    "lw_baseline_approved w' = lw_baseline_approved w" "lw_approved w' = lw_approved w"
  shows "context_matches P w' st = context_matches P w st"
  using assms by (simp add: context_matches_def expected_evidence_def expected_artifacts_def expected_decisions_def
      expected_supersessions_def Let_def)

lemma matches_approved: "context_matches P w (context_state c) \<Longrightarrow> cx_approved c = lw_baseline_approved w"
  by (simp add: context_matches_def context_state_def Let_def)

theorem tracked_context_matches:
  assumes "tracks P rg w c"
  shows "context_matches P w (context_state c) \<and> context_ok c \<and> cx_id c = lw_context w
    \<and> (\<not> lw_baseline_approved w \<longrightarrow> lw_approved w = [])"
  using assms
proof (induction rule: tracks.induct)
  case (seed w u c)
  then show ?case
    using seed_matches [of w u P rg c] new_context_ok(1) [of "context_request w" u P rg c]
      new_context_graph(2) [of P rg "context_request w" c]
    by (simp add: json_import_def context_request_def Let_def)
next
  case (baseline w c role st c')
  have "\<not> cx_approved c" using matches_approved baseline by blast
  then show ?case using baseline_matches [of c P w "rg_threshold rg" role st c'] baseline
    by (simp add: with_baseline_def)
next
  case (change w c am e res c')
  note in_c = change.IH
  have ok: "context_ok c" using in_c by blast
  have rec: "records_change P (change_request am e) c res c'"
    using approve_mutation_in_new [OF ok _ change(5)] change(4) by (simp add: change_request_def)
  have "cx_approved c" using change(5) by (rule change_after_baseline)
  then have "lw_baseline_approved w" using in_c matches_approved by blast
  then show ?case
    using change_matches [OF ok _ change(2,4) _ change(5)] in_c records_change_ok(1,3) [OF ok rec] change(3)
    by (simp add: with_change_def json_change_def)
next
  case (other w c w')
  then show ?case using matches_lineage [of w' w P] by simp
qed

text \<open>The same approvals again, from the record alone.\<close>

fun approved_again ::
  "platform \<Rightarrow> rat \<Rightarrow> string \<Rightarrow> approved_change list \<Rightarrow> authority_context \<Rightarrow> string \<Rightarrow> (authority_context \<times> string) option"
where
  "approved_again P th i [] c version = Some (c, version)"
| "approved_again P th i (am # ams) c version = (case am_evidence am of None \<Rightarrow> None
   | Some e \<Rightarrow> (case approve_mutation_in P th i (change_request am e) c of
       (Inl _, _) \<Rightarrow> None | (Inr res, c') \<Rightarrow> approved_again P th i ams c' (mres_version res)))"

definition rebuilt :: "platform \<Rightarrow> registry \<Rightarrow> live_record \<Rightarrow> (authority_context \<times> string) option" where
  "rebuilt P rg w = (case new_context P rg (context_request w) of Inl _ \<Rightarrow> None
   | Inr c \<Rightarrow> (if lw_baseline_approved w
       then (case lw_baseline_role w of None \<Rightarrow> None
         | Some role \<Rightarrow> (case approve_baseline_in (rg_threshold rg) role c of (Inl _, _) \<Rightarrow> None
           | (Inr st, c') \<Rightarrow> approved_again P (rg_threshold rg) (lw_context w) (lw_approved w) c' (cs_version st)))
       else approved_again P (rg_threshold rg) (lw_context w) (lw_approved w) c (cs_version (context_state c))))"

lemma approved_again_append:
  assumes "approved_again P th i ams c version = Some (c1, v1)" and "am_evidence am = Some e"
    and "approve_mutation_in P th i (change_request am e) c1 = (Inr res, c2)"
  shows "approved_again P th i (ams @ [am]) c version = Some (c2, mres_version res)"
  using assms by (induction ams arbitrary: c version) (auto split: option.splits prod.splits sum.splits)

lemma rebuilt_lineage:
  assumes "lw_definition w' = lw_definition w" "lw_context w' = lw_context w"
    "lw_baseline_approved w' = lw_baseline_approved w" "lw_baseline_role w' = lw_baseline_role w"
    "lw_approved w' = lw_approved w"
  shows "rebuilt P rg w' = rebuilt P rg w"
  unfolding rebuilt_def context_request_def assms ..

theorem tracked_context_rebuilt:
  assumes "tracks P rg w c"
  shows "rebuilt P rg w = Some (c, lw_version w) \<and> validate_graph_seed (context_request w) = Inr ()"
  using assms
proof (induction rule: tracks.induct)
  case (seed w u c)
  then show ?case by (simp add: rebuilt_def context_state_def Let_def)
next
  case (baseline w c role st c')
  have "lw_approved w = []" using tracked_context_matches baseline by blast
  moreover from this baseline.IH have "new_context P rg (context_request w) = Inr c"
    using baseline(2) by (auto simp: rebuilt_def split: sum.splits)
  ultimately show ?case using baseline
    by (simp add: rebuilt_def with_baseline_def context_request_def Let_def)
next
  case (change w c am e res c')
  have "cx_approved c" using change(5) by (rule change_after_baseline)
  then have "lw_baseline_approved w" using tracked_context_matches [OF change(1)] matches_approved by blast
  then show ?case using change
    by (auto simp: rebuilt_def with_change_def context_request_def Let_def approved_again_append
        split: sum.splits option.splits prod.splits)
next
  case (other w c w')
  then show ?case using rebuilt_lineage [of w' w P rg] by (simp add: context_request_def Let_def)
qed


subsection \<open>The agent rebuilds an evicted context\<close>

text \<open>With no fault on the way and the secret known, a call is the authority's operation.\<close>

definition answered :: "('a reply \<Rightarrow> 'b result) \<Rightarrow> (registry, 'a) op \<Rightarrow> 'k remote \<Rightarrow> 'b result \<times> 'k remote" where
  "answered meaning m x = (case m (rm_registry x) of (v, r) \<Rightarrow> (meaning (reply_of v), x\<lparr>rm_registry := r\<rparr>))"

lemma ask_fine: "rm_faults x = [] \<Longrightarrow> ask meaning (on_registry m) x = answered meaning m x"
  by (simp add: ask_def carry_def serve_def on_registry_def answered_def split: prod.splits)

lemma trusted_passes:
  assumes "internal_service_token P secret \<noteq> []"
  shows "guarded P secret (internal_service_token P secret) m = m"
  using assms by (simp add: guarded_def require_internal_service_def trusted_def bind_op_def read_op_def fun_eq_iff)

definition reached :: "platform \<Rightarrow> site \<Rightarrow> 'k remote \<Rightarrow> bool" where
  "reached P S x \<longleftrightarrow> rm_faults x = [] \<and> st_agent S = st_authority S \<and> internal_service_token P (st_authority S) \<noteq> []
     \<and> registry_ok (rm_registry x)"

lemma http_calls:
  assumes "reached P S x"
  shows "tr_state (http_transport P now uid S client) i x = answered read_context_reply (read_state i) x"
    and "tr_delete (http_transport P now uid S client) i x = answered delete_reply (delete_context i) x"
    and "tr_baseline (http_transport P now uid S client) i q x = answered post_authority_model (approve_baseline i q) x"
    and "tr_mutation (http_transport P now uid S client) i m x = answered post_authority_model (approve_mutation P i m) x"
    and "validate_graph_seed c = Inr () \<Longrightarrow>
      tr_create (http_transport P now uid S client) c x = answered post_authority_model (create_context P c) x"
  using assms
  by (simp_all add: http_transport_def trusted_passes reached_def to_authority_def ask_fine bind_op_def read_op_def
      workspace_state_endpoint_def trusted_def answered_def ret_op_def split: prod.splits sum.splits)

text \<open>What holds between the calls of a rebuild.\<close>

definition holding :: "platform \<Rightarrow> site \<Rightarrow> registry \<Rightarrow> string \<Rightarrow> 'k remote \<Rightarrow> authority_context option \<Rightarrow> 'k remote \<Rightarrow> bool" where
  "holding P S rg i x c y \<longleftrightarrow> reached P S y \<and> rm_client y = rm_client x \<and> dict_get (rg_contexts (rm_registry y)) i = c
     \<and> rg_secret (rm_registry y) = rg_secret rg \<and> rg_ttl (rm_registry y) = rg_ttl rg
     \<and> rg_threshold (rm_registry y) = rg_threshold rg"

lemma holding_access:
  assumes h: "holding P S rg i x (Some c) y" and body: "body c = (v, c')" and same: "cx_id c' = cx_id c"
  shows "\<exists>y'. answered meaning (access i body) y = (meaning (reply_of v), y') \<and> holding P S rg i x (Some c') y'"
proof -
  have c: "dict_get (rg_contexts (rm_registry y)) i = Some c" using h by (simp add: holding_def)
  obtain r where run: "access i body (rm_registry y) = (v, r)" using c body by (simp add: access_def)
  have "registry_ok r"
    using access_isolates [OF _ run c] h body same by (simp add: holding_def reached_def)
  then show ?thesis
    using h access_get(2) [OF run c] access_get(3) [OF run] body
    by (intro exI [of _ "y\<lparr>rm_registry := r\<rparr>"]) (simp add: answered_def run holding_def reached_def)
qed

lemma holding_missing:
  assumes h: "holding P S rg i x None y"
  shows "answered meaning (access i body) y = (meaning (reply_of (Inl (unknown_context i))), y)"
  using h by (simp add: answered_def access_def holding_def)

lemma holding_create:
  assumes h: "holding P S rg (xc_id q) x None y" and c: "new_context P rg q = Inr c"
  shows "\<exists>y'. answered meaning (create_context P q) y = (meaning (reply_of (Inr (context_state c))), y')
    \<and> holding P S rg (xc_id q) x (Some c) y'"
proof -
  let ?r = "rm_registry y"
  have "new_context P ?r q = Inr c"
    using c h by (simp add: new_context_def signing_secret_def holding_def)
  then obtain r where run: "create_context P q ?r = (Inr (context_state c), r)"
      "r = ?r\<lparr>rg_contexts := evict_beyond_limit (rg_max ?r) (rg_contexts ?r @ [(xc_id q, c)])\<rparr>"
    using h by (simp add: create_context_def holding_def)
  have ok: "registry_ok ?r" using h by (simp add: holding_def reached_def)
  note kept = create_context_evicts [OF ok run(1)]
  have "(xc_id q, c) \<in> set (rg_contexts r)"
    using kept(2) \<open>new_context P ?r q = Inr c\<close> by auto
  then have "dict_get (rg_contexts r) (xc_id q) = Some c"
    using kept(1) by (simp add: registry_ok_def)
  then show ?thesis using h kept(1) run(2)
    by (intro exI [of _ "y\<lparr>rm_registry := r\<rparr>"]) (simp add: answered_def run(1) holding_def reached_def)
qed

lemma holding_delete:
  assumes h: "holding P S rg i x (Some c) y"
  shows "\<exists>y'. answered delete_reply (delete_context i) y = (Inr (), y') \<and> holding P S rg i x None y'"
proof -
  let ?r = "rm_registry y"
  have run: "delete_context i ?r = (Inr (), ?r\<lparr>rg_contexts := filter (\<lambda>(j, _). j \<noteq> i) (rg_contexts ?r)\<rparr>)"
    using h by (simp add: delete_context_def holding_def)
  then show ?thesis
    using h delete_context_ok [of ?r i]
    by (intro exI [of _ "y\<lparr>rm_registry := snd (delete_context i ?r)\<rparr>"])
       (simp add: answered_def run holding_def reached_def dict_get_filter delete_reply_def reply_of_def)
qed

lemma meanings [simp]:
  "post_authority_model (reply_of (Inr v)) = Inr v" "read_context_reply (reply_of (Inr v)) = Inr (Some v)"
  "read_context_reply (reply_of (Inl (unknown_context i))) = Inr None"
  by (simp_all add: post_authority_model_def read_context_reply_def reply_of_def error_reply_def unknown_context_def)

lemma approve_baseline_id: "approve_baseline_in th role c = (v, c') \<Longrightarrow> cx_id c' = cx_id c"
  using contexts_keep_policy [OF context_step.baseline [where c = c and th = th and role = role]] by simp

lemma approve_mutation_id: "approve_mutation_in P th i q c = (v, c') \<Longrightarrow> cx_id c' = cx_id c"
  using contexts_keep_policy [OF context_step.change [where c = c and th = th and P = P and i = i and q = q]] by simp

lemma replay_over_http:
  assumes "holding P S rg i x (Some c) y" and "approved_again P (rg_threshold rg) i ams c version = Some (c', v')"
  shows "\<exists>y'. replay_changes (http_transport P now uid S client) i ams version y = (Inr v', y') \<and> holding P S rg i x (Some c') y'"
  using assms
proof (induction ams arbitrary: c version y)
  case Nil
  then show ?case by (auto simp: ret_op_def)
next
  case (Cons am ams)
  from Cons.prems(2) obtain e res c1 where e: "am_evidence am = Some e"
      "approve_mutation_in P (rg_threshold rg) i (change_request am e) c = (Inr res, c1)"
      "approved_again P (rg_threshold rg) i ams c1 (mres_version res) = Some (c', v')"
    by (auto split: option.splits prod.splits sum.splits)
  have "rg_threshold (rm_registry y) = rg_threshold rg" "reached P S y" using Cons.prems(1) by (simp_all add: holding_def)
  moreover obtain y1 where y1: "answered post_authority_model
        (access i (approve_mutation_in P (rg_threshold rg) i (change_request am e))) y = (Inr res, y1)"
      "holding P S rg i x (Some c1) y1"
    using holding_access [where body = "approve_mutation_in P (rg_threshold rg) i (change_request am e)",
        OF Cons.prems(1) e(2) approve_mutation_id [OF e(2)], where meaning = post_authority_model] by auto
  ultimately have "tr_mutation (http_transport P now uid S client) i (change_request am e) y = (Inr res, y1)"
    by (simp add: http_calls answered_def approve_mutation_def)
  then show ?case using Cons.IH [OF y1(2) e(3)] e(1) by (simp add: bind_op_def)
qed


lemma rebuild_over_http:
  assumes h: "holding P S rg (lw_context w) x None y"
    and built: "rebuilt P rg w = Some (c, lw_version w)" and v: "validate_graph_seed (context_request w) = Inr ()"
    and match: "context_matches P w (context_state c)"
  shows "\<exists>y'. rebuild_context (http_transport P now uid S client) P w y = (Inr (), y') \<and> holding P S rg (lw_context w) x (Some c) y'"
proof -
  let ?T = "http_transport P now uid S client" and ?i = "lw_context w"
  have id: "xc_id (context_request w) = ?i" by (simp add: context_request_def Let_def)
  obtain c0 where c0: "new_context P rg (context_request w) = Inr c0"
    using built by (auto simp: rebuilt_def split: sum.splits)
  obtain y0 where y0: "tr_create ?T (context_request w) y = (Inr (context_state c0), y0)" "holding P S rg ?i x (Some c0) y0"
    using holding_create [of P S rg "context_request w" x y c0 post_authority_model] h c0
    by (auto simp: id http_calls(5) [OF _ v] holding_def)
  obtain st c1 y1 where y1: "approve_again ?T w (context_state c0) y0 = (Inr st, y1)" "holding P S rg ?i x (Some c1) y1"
    and rest: "approved_again P (rg_threshold rg) ?i (lw_approved w) c1 (cs_version st) = Some (c, lw_version w)"
  proof (cases "lw_baseline_approved w")
    case False
    then show ?thesis using that [of "context_state c0" y0 c0] y0(2) built c0
      by (simp add: approve_again_def rebuilt_def ret_op_def)
  next
    case True
    then obtain role st c1 where b: "lw_baseline_role w = Some role"
        "approve_baseline_in (rg_threshold rg) role c0 = (Inr st, c1)"
        "approved_again P (rg_threshold rg) ?i (lw_approved w) c1 (cs_version st) = Some (c, lw_version w)"
      using built c0 by (auto simp: rebuilt_def split: option.splits prod.splits sum.splits)
    obtain y1 where run: "answered post_authority_model (access ?i (approve_baseline_in (rg_threshold rg) role)) y0 = (Inr st, y1)"
        "holding P S rg ?i x (Some c1) y1"
      using holding_access [where body = "approve_baseline_in (rg_threshold rg) role",
          OF y0(2) b(2) approve_baseline_id [OF b(2)], where meaning = post_authority_model] by auto
    have "tr_baseline ?T ?i \<lparr>rq_role = role, rq_fingerprint = None, rq_evidence = None, rq_instance = None\<rparr> y0 = (Inr st, y1)"
      using y0(2) run(1) by (simp add: http_calls holding_def answered_def approve_baseline_def)
    then show ?thesis using that [OF _ run(2) b(3)] True b(1) by (simp add: approve_again_def)
  qed
  obtain y2 where y2: "replay_changes ?T ?i (lw_approved w) (cs_version st) y1 = (Inr (lw_version w), y2)"
      "holding P S rg ?i x (Some c) y2"
    using replay_over_http [OF y1(2) rest] by blast
  obtain y3 where y3: "tr_state ?T ?i y2 = (Inr (Some (context_state c)), y3)" "holding P S rg ?i x (Some c) y3"
    using holding_access [where body = "\<lambda>c. (Inr (context_state c), c)", OF y2(2) refl refl, where meaning = read_context_reply]
      y2(2) by (auto simp: http_calls holding_def read_state_def)
  show ?thesis using y0(1) y1(1) y2(1) y3 match
    by (simp add: rebuild_context_def bind_op_def state_matches_def ret_op_def)
qed

theorem evicted_context_restored:
  fixes x :: "'k remote"
  assumes tracked: "tracks P rg w c" and reach: "reached P S x"
    and settings: "rg_secret (rm_registry x) = rg_secret rg" "rg_ttl (rm_registry x) = rg_ttl rg"
      "rg_threshold (rm_registry x) = rg_threshold rg"
  shows "\<exists>x' c'. ensure_context (http_transport P now uid S client) P w x = (Inr (), x') \<and> reached P S x'
    \<and> rm_client x' = rm_client x \<and> dict_get (rg_contexts (rm_registry x')) (lw_context w) = Some c'
    \<and> context_matches P w (context_state c')
    \<and> (c' = c \<or> dict_get (rg_contexts (rm_registry x)) (lw_context w) = Some c')"
proof -
  let ?T = "http_transport P now uid S client" and ?i = "lw_context w"
  note built = tracked_context_rebuilt [OF tracked, THEN conjunct1] tracked_context_rebuilt [OF tracked, THEN conjunct2]
    tracked_context_matches [OF tracked, THEN conjunct1]
  have h: "holding P S rg ?i x (dict_get (rg_contexts (rm_registry x)) ?i) x"
    using reach settings by (simp add: holding_def)
  show ?thesis
  proof (cases "dict_get (rg_contexts (rm_registry x)) ?i")
    case None
    then have "tr_state ?T ?i x = (Inr None, x)"
      using h reach by (simp add: http_calls read_state_def holding_missing [of P S rg ?i x])
    moreover obtain y where "rebuild_context ?T P w x = (Inr (), y)" "holding P S rg ?i x (Some c) y"
      using rebuild_over_http [OF _ built] h None by metis
    ultimately show ?thesis using built(3)
      by (auto simp: ensure_context_def bind_op_def state_matches_def holding_def)
  next
    case (Some d)
    then have hd: "holding P S rg ?i x (Some d) x" using h by simp
    obtain y where y: "tr_state ?T ?i x = (Inr (Some (context_state d)), y)" "holding P S rg ?i x (Some d) y"
      using holding_access [where body = "\<lambda>c. (Inr (context_state c), c)", OF hd refl refl, where meaning = read_context_reply]
        reach by (auto simp: http_calls read_state_def)
    show ?thesis
    proof (cases "context_matches P w (context_state d)")
      case True
      then show ?thesis using y Some by (auto simp: ensure_context_def bind_op_def state_matches_def holding_def ret_op_def)
    next
      case False
      obtain z where z: "tr_delete ?T ?i y = (Inr (), z)" "holding P S rg ?i x None z"
        using holding_delete [OF y(2)] y(2) by (auto simp: http_calls holding_def)
      obtain y' where "rebuild_context ?T P w z = (Inr (), y')" "holding P S rg ?i x (Some c) y'"
        using rebuild_over_http [OF z(2) built] by blast
      then show ?thesis using y(1) z(1) False built(3)
        by (auto simp: ensure_context_def bind_op_def state_matches_def holding_def)
    qed
  qed
qed

end
