(* ===== verification/Boundary.thy ===== *)
theory Boundary
  imports Recovery
begin

text \<open>
  What crosses the HTTP boundary: which grants lead to a call, what a stranger may read, how a lost reply
  is made good, and when the check of a context against its record can never succeed.
\<close>

subsection \<open>Versions of a context\<close>

lemma context_step_version:
  assumes ok: "context_ok c" and step: "context_step P th i c c'"
  shows "context_ok c' \<and> au_signer (cx_authority c') = au_signer (cx_authority c)
    \<and> g_version (au_graph (cx_authority c')) - int (length (cx_mutations c'))
      = g_version (au_graph (cx_authority c)) - int (length (cx_mutations c))
    \<and> length (cx_mutations c) \<le> length (cx_mutations c')
    \<and> set (g_edges (au_graph (cx_authority c))) \<subseteq> set (g_edges (au_graph (cx_authority c')))"
  using step
proof cases
  case (baseline role)
  obtain v where run: "approve_baseline_in th role c = (v, c')" using baseline by (metis prod.collapse)
  from approve_baseline_in_cases(1) [OF ok run] show ?thesis
  proof (elim disjE conjE exE)
    fix b assume "c' = baseline_approved role b c"
    then show ?thesis using baseline_approved_ok [OF ok]
      by (auto simp: baseline_approved_def update_artifact_def)
  qed (use ok in auto)
next
  case (change q)
  obtain v where run: "approve_mutation_in P th i q c = (v, c')" using change by (metis prod.collapse)
  from approve_mutation_in_cases(1) [OF ok run] show ?thesis
  proof (elim disjE conjE exE)
    fix res assume rec: "records_change P q c res c'"
    have "set (g_edges (au_graph (cx_authority c))) \<subseteq> set (g_edges (au_graph (cx_authority c')))"
      by (rule records_change_graph [OF ok rec]) auto
    moreover have "au_signer (cx_authority c') = au_signer (cx_authority c)"
    proof -
      from rec obtain au where au: "apply_decision_change (approved_mutation P q) (cx_authority c) = (Inr res, au)"
          "cx_authority c' = au" by (auto simp: records_change_def Let_def)
      have "decision_step (cx_authority c) au" unfolding decision_step_def using au(1) by (metis snd_conv)
      from decision_step_cases [OF _ _ this] ok show ?thesis using au(2) by (auto simp: context_ok_def)
    qed
    ultimately show ?thesis using records_change_ok [OF ok rec] by simp
  qed (use ok in auto)
qed (use ok in simp_all)

lemma context_steps_version:
  assumes "context_ok c" and "(context_step P th i)\<^sup>*\<^sup>* c c'"
  shows "context_ok c' \<and> au_signer (cx_authority c') = au_signer (cx_authority c)
    \<and> g_version (au_graph (cx_authority c')) - int (length (cx_mutations c'))
      = g_version (au_graph (cx_authority c)) - int (length (cx_mutations c))
    \<and> length (cx_mutations c) \<le> length (cx_mutations c')
    \<and> set (g_edges (au_graph (cx_authority c))) \<subseteq> set (g_edges (au_graph (cx_authority c')))"
  using assms(2)
proof (induction rule: rtranclp_induct)
  case base
  then show ?case using assms(1) by simp
next
  case (step c' c'')
  then show ?case using context_step_version [of c' P th i c''] by auto
qed

lemma stale_grant_invalid:
  assumes "context_ok c" and "(context_step P th i)\<^sup>*\<^sup>* c c'" and "length (cx_mutations c) < length (cx_mutations c')"
    and "decode P (au_signer (cx_authority c)) token = Inr p" and "gp_snapshot p = version_label (au_graph (cx_authority c))"
    and "verify_in P now uid token run task plan c' = (Inr v, c'')"
  shows "\<not> vr_valid v"
proof
  assume "vr_valid v"
  then obtain p' where "decode P (au_signer (cx_authority c')) token = Inr p'" "gp_snapshot p' = version_label (au_graph (cx_authority c'))"
    using assms(6) verify_grant_valid_iff unfolding verify_in_def by (metis prod.inject)
  moreover note context_steps_version [OF assms(1,2)]
  ultimately have "g_version (au_graph (cx_authority c')) = g_version (au_graph (cx_authority c))"
    using assms(4,5) by (simp add: version_label_def)
  then show False using context_steps_version [OF assms(1,2)] assms(3) by linarith
qed

subsection \<open>No call without a valid grant\<close>

lemma carry_cases:
  assumes "carry call x = (reply, y)"
  obtains (unserved) "reply = Timed_Out \<or> reply = Unreachable" "rm_client y = rm_client x" "rm_registry y = rm_registry x"
  | (served) x' where "rm_registry x' = rm_registry x" "rm_client x' = rm_client x" "y = snd (call x')"
      "reply = fst (call x') \<or> reply = Timed_Out \<or> reply = Garbled"
proof (cases "rm_faults x")
  case Nil
  then have "reply = fst (call x)" "y = snd (call x)" using assms by (simp_all add: carry_def)
  then show ?thesis by (intro served [of x]) simp_all
next
  case (Cons f fs)
  then show ?thesis using assms unserved served [of "x\<lparr>rm_faults := fs\<rparr>"]
    by (auto simp: carry_def Let_def split: fault.splits)
qed

lemma registry_call_keeps_client: "ask meaning (on_registry m) x = (v, y) \<Longrightarrow> rm_client y = rm_client x"
  by (auto simp: ask_def serve_def on_registry_def split: prod.splits elim!: carry_cases)


lemma ask_served:
  assumes "ask (post_model up) (on_registry m) x = (Inr v, y)"
  shows "\<exists>r. m (rm_registry x) = (Inr v, r) \<and> rm_client y = rm_client x \<and> rm_registry y = r"
proof -
  obtain reply where reply: "carry (serve (on_registry m)) x = (reply, y)" "post_model up reply = Inr v"
    using assms by (auto simp: ask_def split: prod.splits)
  then have "reply = Replied v" by (auto simp: post_model_def split: reply.splits)
  with reply(1) show ?thesis
    by (cases rule: carry_cases)
       (auto simp: serve_def on_registry_def reply_of_def error_reply_def split: prod.splits sum.splits py_error.splits)
qed

lemma invalid_verification_keeps_client:
  assumes "\<not> vr_valid v" and "execute_verification N C client plan v k = (res, k')"
  shows "k' = k \<and> (\<forall>e. res = Inr e \<longrightarrow> \<not> ex_applied e)"
  using assms by (auto simp: execute_verification_def ret_op_def not_applied_def)

theorem no_call_for_superseded_grant:
  fixes x :: "'k remote"
  assumes ok: "context_ok c" and steps: "(context_step P th i)\<^sup>*\<^sup>* c c'"
    and newer: "length (cx_mutations c) < length (cx_mutations c')"
    and grant: "decode P (au_signer (cx_authority c)) token = Inr p" "gp_snapshot p = version_label (au_graph (cx_authority c))"
    and held: "dict_get (rg_contexts (rm_registry x)) i = Some c'"
    and run: "execute P now uid S client i token run task plan x = (res, x')"
  shows "rm_client x' = rm_client x \<and> (\<forall>e. res = Inr e \<longrightarrow> \<not> ex_applied e)"
proof -
  let ?m = "guarded P (st_authority S) (internal_service_token P (st_executor S)) (verify P now uid i token run task plan)"
  obtain r y where asked: "ask (post_model ''AUTHORITY'') (on_registry ?m) x = (r, y)" by fastforce
  have client: "rm_client y = rm_client x" by (rule registry_call_keeps_client [OF asked])
  show ?thesis
  proof (cases r)
    case (Inl e)
    then show ?thesis using run asked client by (auto simp: execute_def to_authority_def bind_op_def)
  next
    case (Inr v)
    from ask_served [OF asked [unfolded Inr]] obtain r' where "?m (rm_registry x) = (Inr v, r')" by blast
    then have "verify P now uid i token run task plan (rm_registry x) = (Inr v, r')"
      by (auto simp: guarded_def bind_op_def read_op_def require_internal_service_def split: if_splits)
    then obtain c'' where "verify_in P now uid token run task plan c' = (Inr v, c'')"
      using held by (auto simp: verify_def access_def split: prod.splits)
    from stale_grant_invalid [OF ok steps newer grant this] have "\<not> vr_valid v" .
    moreover obtain k where k: "execute_verification (st_numbers S) (st_config S) client plan v (rm_client y) = (res, k)" "x' = y\<lparr>rm_client := k\<rparr>"
      using run asked Inr by (auto simp: execute_def to_authority_def bind_op_def on_client_def split: prod.splits)
    ultimately show ?thesis using invalid_verification_keeps_client client by fastforce
  qed
qed

subsection \<open>A lost reply\<close>

text \<open>
  The authority applied the change and the reply was lost: the agent sees a retryable failure, and the
  same request again gives the result of the first without a second change.
\<close>

theorem lost_reply_made_good:
  assumes ok: "context_ok c" and held: "dict_get (rg_contexts (rm_registry x)) i = Some c" "wf_dict (rg_contexts (rm_registry x))"
    and net: "rm_faults x = [Lost_Reply]" "st_agent S = st_authority S" "internal_service_token P (st_authority S) \<noteq> []"
    and run: "approve_mutation_in P (rg_threshold (rm_registry x)) i q c = (Inr res, c')"
    and new: "art_id (mut_decision (mq_mutation q)) \<notin> cx_applied c"
    and wf: "wf_pyval (PDict (art_attrs (mut_decision (mq_mutation q))))"
  shows "\<exists>y. tr_mutation (http_transport P now uid S client) i q x = (Inl (ApiFailure 504 ''AUTHORITY_TIMEOUT'' True), y)
    \<and> dict_get (rg_contexts (rm_registry y)) i = Some c'
    \<and> (\<exists>z. tr_mutation (http_transport P now uid S client) i q y = (Inr res, z)
        \<and> dict_get (rg_contexts (rm_registry z)) i = Some c' \<and> rm_client z = rm_client x)"
proof -
  let ?r = "rm_registry x" and ?m = "approve_mutation P i q"
  obtain r1 where r1: "?m ?r = (Inr res, r1)" using held run by (simp add: approve_mutation_def access_def)
  note got = access_get(2,3) [OF r1 [unfolded approve_mutation_def]]
  have c1: "dict_get (rg_contexts r1) i = Some c'" "rg_threshold r1 = rg_threshold ?r"
    using got(1) [OF held(1)] got(2) run by simp_all
  have again: "approve_mutation_in P (rg_threshold r1) i q c' = (Inr res, c')"
    using approval_is_idempotent [OF ok run new wf] c1(2) by simp
  obtain r2 where r2: "?m r1 = (Inr res, r2)" using c1(1) again by (simp add: approve_mutation_def access_def)
  have c2: "dict_get (rg_contexts r2) i = Some c'"
    using access_get(2) [OF r2 [unfolded approve_mutation_def] c1(1)] again by simp
  let ?y = "x\<lparr>rm_faults := [], rm_registry := r1\<rparr>"
  have "tr_mutation (http_transport P now uid S client) i q x = (Inl (ApiFailure 504 ''AUTHORITY_TIMEOUT'' True), ?y)"
    using net by (simp add: http_transport_def ask_def carry_def to_authority_def trusted_passes serve_def on_registry_def
        r1 post_authority_model_def)
  moreover have "tr_mutation (http_transport P now uid S client) i q ?y = (Inr res, ?y\<lparr>rm_registry := r2\<rparr>)"
    using net by (simp add: http_transport_def ask_def carry_def to_authority_def trusted_passes serve_def on_registry_def r2)
  ultimately show ?thesis using c1(1) c2 by (intro exI [of _ ?y] conjI exI [of _ "?y\<lparr>rm_registry := r2\<rparr>"]) simp_all
qed

subsection \<open>What a stranger may read\<close>

theorem stranger_reads_no_identities:
  assumes "supplied \<noteq> internal_service_token P secret" and "workspace_state_endpoint P secret supplied i r = (Inr v, r')"
  shows "cs_slack v = None \<and> cs_evidence v = [] \<and> (\<exists>c. dict_get (rg_contexts r) i = Some c \<and> v = public_state (context_state c)
    \<and> dict_get (rg_contexts r') i = Some c)"
proof -
  obtain c where c: "dict_get (rg_contexts r) i = Some c" "v = public_state (context_state c)"
      "access i (\<lambda>c. (Inr (context_state c), c)) r = (Inr (context_state c), r')"
    using assms by (auto simp: workspace_state_endpoint_def trusted_def bind_op_Inr ret_op_def read_state_def access_def
        split: option.splits prod.splits)
  then show ?thesis using access_get(2) [OF c(3) c(1)] by (simp add: public_state_def)
qed

subsection \<open>A supersession among the imported edges\<close>

text \<open>
  The check of a context compares every \<open>SUPERSEDES\<close> edge of the graph with the approved changes, so an
  edge of that kind that came with the import, which nothing refuses, makes it fail for ever.
\<close>

theorem never_matches_imported_supersession:
  assumes v: "validate_graph_seed (context_request w) = Inr u" and c: "new_context P rg (context_request w) = Inr c"
    and steps: "(context_step P th i)\<^sup>*\<^sup>* c c'"
    and e: "e \<in> set (graph_edges (lw_definition w))" "edge_kind e = SUPERSEDES"
    and other: "edge_source e \<notin> (\<lambda>am. art_id (mut_decision (am_mutation am))) ` set (lw_approved w)"
  shows "\<not> context_matches P w (context_state c')"
proof
  assume m: "context_matches P w (context_state c')"
  have "context_ok c" by (rule new_context_ok(1) [OF v c])
  note after = context_steps_version [OF this steps]
  have "wf_graph (au_graph (cx_authority c'))" using after by (simp add: context_ok_def)
  then have "supersessions (g_edges (au_graph (cx_authority c'))) = expected_supersessions w"
    using m by (simp add: context_matches_iff)
  moreover have "e \<in> set (g_edges (au_graph (cx_authority c)))"
    using e(1) by (simp add: new_context_graph(1) [OF c] reset_def context_request_def Let_def)
  ultimately have "(edge_source e, edge_target e) \<in> expected_supersessions w"
    using after e(2) by (auto simp: supersessions_def)
  then show False using other by (auto simp: expected_supersessions_def)
qed

end
