(* ===== verification/Orchestrator_Samples.thy ===== *)
theory Orchestrator_Samples
  imports Samples Boundary
begin

text \<open>
  An imported workspace with one Claude session assignment, stored and unstored; its context, tracked by
  the record through an approved baseline and a change; remotes that lost the context or lose a reply.
\<close>

definition sample_claude :: runtime where
  "sample_claude = \<lparr>rt_create = claude_create, rt_transition = claude_transition\<rparr>"

definition sample_crew :: supervisor where
  "sample_crew = projr (claude_create ''wsp'' ''run'' (ir_tasks sample_import) (ir_plan sample_import) ''graph-v1'')"

definition sample_imported :: live_record where
  "sample_imported = imported_record (Aware 0) ''u'' sample_import sample_crew"

lemma sample_crew_created:
  "claude_create ''wsp'' ''run'' (ir_tasks sample_import) (ir_plan sample_import) ''graph-v1'' = Inr sample_crew"
proof -
  have "\<not> isl (claude_create ''wsp'' ''run'' (ir_tasks sample_import) (ir_plan sample_import) ''graph-v1'')" by code_simp
  then show ?thesis unfolding sample_crew_def by (cases "claude_create ''wsp'' ''run'' (ir_tasks sample_import) (ir_plan sample_import) ''graph-v1''") auto
qed

lemma sample_imported_lives: "lifecycle sample_platform sample_claude sample_imported"
  unfolding sample_imported_def
  by (rule lifecycle.imported [OF sample_import_valid, where run = "''run''" and version = "''graph-v1''"])
     (use sample_crew_created in \<open>simp add: sample_claude_def sample_import_def\<close>)

lemma sample_imported_id [simp]: "lw_id sample_imported = ''wsp''"
  by (simp add: sample_imported_def imported_record_def add_event_def sample_import_def)

definition sample_workspaces :: "live_record list table" where
  "sample_workspaces = [\<lparr>row_id = ''wsp'', row_updated = [], row_revision = 1, row_json = [sample_imported]\<rparr>]"

lemma sample_workspaces_get: "sql_get sample_texts sample_workspaces j = (if j = ''wsp'' then Inr sample_imported else Inl (NotFound j))"
  by (simp add: sql_get_def sql_select_def sql_decode_def sample_workspaces_def sample_texts_def)

lemma sample_workspaces_sound:
  "store_sound (sql_ok sample_texts) (sql_get sample_texts) sample_platform sample_claude sample_workspaces"
  using sample_texts_ok sample_imported_lives
  by (simp add: store_sound_def sample_workspaces_get sql_ok_def) (simp add: sample_workspaces_def sample_texts_def)

lemma sample_alone: "store_steady (sql_ok c) (sql_get c) P R (\<lambda>_. id)"
  by (rule sql_repo.steady_alone)

definition sample_rejection :: rejection where
  "sample_rejection = \<lparr>rj_decision = ''D0'', rj_disposition = ''rejected'', rj_approver = ''alice'', rj_permission = ''r'',
     rj_channel = ''cli'', rj_ref = ''cli'', rj_fingerprint = None, rj_instance = None, rj_detail = ''no''\<rparr>"


lemma sample_rejection_step:
  obtains w' where "lifecycle_step sample_platform sample_claude sample_imported w'"
proof -
  have d: "lw_definition sample_imported = sample_import" "lw_pending sample_imported = None"
    by (simp_all add: sample_imported_def imported_record_def add_event_def)
  have "expected_permission sample_platform sample_rejection sample_imported = Some ''r''"
    by (simp add: expected_permission_def rejected_proposal_def d sample_rejection_def sample_import_def sample_decision_def
        sample_artifact_def Let_def)
  moreover obtain fp inst role where "rejected_proposal sample_platform sample_rejection sample_imported = (fp, inst, role)"
    by (rule prod_cases3)
  moreover have "rj_permission sample_rejection = ''r''" by (simp add: sample_rejection_def)
  ultimately obtain w' where "write_rejection sample_platform (Aware 1) sample_rejection sample_imported = Inr w'"
    by (simp add: write_rejection_def)
  then show ?thesis using that lifecycle_step.rejection by blast
qed

definition sample_documents :: "live_record list option" where
  "sample_documents = Some [sample_imported]"

lemma sample_documents_get: "json_get sample_texts sample_documents j = (if j = ''wsp'' then Inr sample_imported else Inl (NotFound j))"
  by (simp add: json_get_def json_read_def sample_documents_def sample_texts_def)

lemma sample_documents_sound:
  "store_sound (json_ok sample_texts) (json_get sample_texts) sample_platform sample_claude sample_documents"
proof -
  have "json_ok sample_texts sample_documents"
    using sample_texts_ok by (simp add: json_ok_def json_read_def sample_documents_def) (simp add: sample_texts_def)
  then show ?thesis using sample_imported_lives by (simp add: store_sound_def sample_documents_get)
qed

lemma sample_assigned:
  "distinct (map as_id (assigned sample_imported))"
  "\<forall>a\<in>set (assigned sample_imported). \<exists>t. get_artifact (imported_graph sample_imported) (as_task a) = Inr t \<and> art_kind t = Task"
proof -
  obtain su where su: "lw_supervisor sample_imported = Some su" "distinct (map as_id (su_assignments su))"
      "map as_task (su_assignments su) = map art_id (ir_tasks (lw_definition sample_imported))"
    using claude_rt.supervisor_stays sample_imported_lives unfolding sample_claude_def by blast
  then show "distinct (map as_id (assigned sample_imported))" by (simp add: assigned_def)
  have d: "lw_definition sample_imported = sample_import" "lw_approved sample_imported = []"
    by (simp_all add: sample_imported_def imported_record_def add_event_def)
  have "as_task a = ''W''" if "a \<in> set (assigned sample_imported)" for a
  proof -
    have "as_task a \<in> set (map as_task (su_assignments su))" using that su(1) by (simp add: assigned_def)
    then show ?thesis unfolding su(3) d by (simp add: sample_import_def sample_artifact_def)
  qed
  moreover have "get_artifact (imported_graph sample_imported) ''W'' = Inr (sample_artifact ''W'' Task)"
    by (simp add: imported_graph_def d reset_def empty_graph_def get_artifact_def dict_of_def graph_artifacts_def
        sample_import_def sample_artifact_def sample_decision_def sample_plan_def)
  moreover have "art_kind (sample_artifact ''W'' Task) = Task" by (simp add: sample_artifact_def)
  ultimately show "\<forall>a\<in>set (assigned sample_imported). \<exists>t. get_artifact (imported_graph sample_imported) (as_task a) = Inr t \<and> art_kind t = Task"
    by metis
qed

text \<open>With a proposal that has a source, as the models demand.\<close>

definition sample_proposed :: live_record where
  "sample_proposed = sample_imported\<lparr>lw_pending_instance := Some ''i1'', lw_pending := Some (sample_proposal
     \<lparr>mut_decision := (sample_decision ''D1'' 2 Proposal)\<lparr>art_source := Some ''doc''\<rparr>\<rparr>)\<rparr>"

definition sample_hex :: platform where
  "sample_hex = sample_platform\<lparr>sha256_hex := (\<lambda>_. replicate 64 (CHR ''0''))\<rparr>"

lemma sample_proposed_shown:
  obtains p where "pending_from_workspace sample_hex (from_record sample_hex sample_proposed) = Inr (Some p)"
proof -
  have "case pending_from_workspace sample_hex (from_record sample_hex sample_proposed) of
      Inr (Some p) \<Rightarrow> True | _ \<Rightarrow> False" by code_simp
  then show ?thesis using that by (auto split: sum.splits option.splits)
qed

lemma sample_proposed_id: "strip ''D1'' = ''D1''"
  by code_simp

subsection \<open>Its context\<close>

lemma sample_codec_parts [simp]:
  "signing_secret sample_codec r i = signing_secret sample_platform r i"
  "mutation_dump sample_codec m = mutation_dump sample_platform m"
  by (simp_all add: signing_secret_def mutation_dump_def artifact_dump_def sample_codec_def)

definition sample_bound_evidence :: approval_evidence where
  "sample_bound_evidence = sample_evidence\<lparr>ae_workspace := ''wsp''\<rparr>"

definition sample_bound :: approved_change where
  "sample_bound = \<lparr>am_mutation = sample_proposal, am_role = ''r'', am_evidence = Some sample_bound_evidence\<rparr>"

definition sample_seeded :: authority_context where
  "sample_seeded = \<lparr>cx_id = ''live-wsp'', cx_baseline = ''D0'',
     cx_authority = make_authority (reset 1 (graph_artifacts sample_import) (graph_edges sample_import) empty_graph)
       \<lparr>sig_secret = signing_secret sample_platform sample_registry ''live-wsp'', sig_ttl = 300\<rparr> (3 / 4) (Some sample_policy),
     cx_policy = sample_policy, cx_slack = None, cx_approved = False, cx_role = None, cx_applied = {},
     cx_mutations = [], cx_results = []\<rparr>"

definition sample_ready :: authority_context where
  "sample_ready = snd (approve_baseline_in (3 / 4) ''r'' sample_seeded)"

definition sample_ready_graph :: graph where
  "sample_ready_graph = reset 1 (sample_decision ''D0'' 1 Approved # tl (graph_artifacts sample_import))
     (graph_edges sample_import) empty_graph"

lemma sample_seed_request:
  "context_request sample_imported = \<lparr>xc_id = ''live-wsp'', xc_version = 1, xc_artifacts = graph_artifacts sample_import,
     xc_edges = graph_edges sample_import, xc_policy = sample_policy, xc_baseline = ''D0'', xc_slack = None\<rparr>"
  by (simp add: context_request_def sample_imported_def imported_record_def add_event_def sample_import_def
      sample_decision_def sample_artifact_def Let_def)

lemma sample_seeds: "validate_graph_seed (context_request sample_imported) = Inr ()"
  by code_simp

lemma sample_seeded_new: "new_context sample_codec sample_registry (context_request sample_imported) = Inr sample_seeded"
proof -
  have "signing_secret sample_platform sample_registry i \<noteq> []" for i
    by (simp add: signing_secret_def hex_text_def sample_platform_def sample_registry_def Let_def)
  moreover have "get_artifact (reset 1 (graph_artifacts sample_import) (graph_edges sample_import) empty_graph) ''D0''
      = Inr (sample_decision ''D0'' 1 Proposal)"
    by (simp add: reset_def empty_graph_def get_artifact_def dict_of_def graph_artifacts_def sample_import_def sample_artifact_def
        sample_decision_def sample_plan_def)
  ultimately show ?thesis
    by (simp add: new_context_def make_signer_def sample_seed_request Let_def sample_seeded_def sample_registry_def)
       (simp add: sample_decision_def sample_artifact_def)
qed

lemma sample_ready_is: "sample_ready = baseline_approved ''r'' (sample_decision ''D0'' 1 Proposal) sample_seeded"
  and sample_ready_runs: "approve_baseline_in (3 / 4) ''r'' sample_seeded = (Inr (context_state sample_ready), sample_ready)"
proof -
  have b: "get_artifact (au_graph (cx_authority sample_seeded)) (cx_baseline sample_seeded) = Inr (sample_decision ''D0'' 1 Proposal)"
    by (simp add: sample_seeded_def make_authority_def reset_def empty_graph_def get_artifact_def dict_of_def graph_artifacts_def
      sample_import_def sample_artifact_def sample_decision_def sample_plan_def)
  have v: "validate_approval (3 / 4) sample_seeded (sample_decision ''D0'' 1 Proposal) ''r'' = Inr ()"
    by (simp add: validate_approval_def sample_seeded_def sample_defs Let_def)
  obtain g where "update_artifact ((sample_decision ''D0'' 1 Proposal)\<lparr>art_approval := Some Approved\<rparr>)
      (au_graph (cx_authority sample_seeded)) = (Inr (), g)"
    using b by (auto simp: update_artifact_def get_artifact_def sample_decision_def sample_artifact_def sample_seeded_def
        split: option.splits)
  then show *: "sample_ready = baseline_approved ''r'' (sample_decision ''D0'' 1 Proposal) sample_seeded"
    using b v by (simp add: sample_ready_def approve_baseline_in_def Let_def baseline_approved_def sample_seeded_def)
  then show "approve_baseline_in (3 / 4) ''r'' sample_seeded = (Inr (context_state sample_ready), sample_ready)"
    using b v \<open>update_artifact _ _ = _\<close> by (simp add: approve_baseline_in_def Let_def baseline_approved_def) (simp add: sample_seeded_def)
qed

lemma sample_seeded_ok: "context_ok sample_seeded" "\<not> cx_approved sample_seeded" "cx_mutations sample_seeded = []"
  using new_context_ok [OF sample_seeds sample_seeded_new] by simp_all

lemma sample_ready_ok: "context_ok sample_ready" "cx_approved sample_ready" "cx_applied sample_ready = {}"
  using baseline_approved_ok [OF sample_seeded_ok(1)] by (simp_all add: sample_ready_is baseline_approved_def sample_seeded_def)

lemma sample_ready_authority_graph: "au_graph (cx_authority sample_ready) = sample_ready_graph"
  by (simp add: sample_ready_is baseline_approved_def sample_seeded_def make_authority_def reset_def empty_graph_def
      update_artifact_def dict_of_def graph_artifacts_def sample_import_def sample_artifact_def sample_decision_def
      sample_plan_def sample_ready_graph_def)

lemma sample_ready_idle: "wf_graph sample_ready_graph" "\<not> g_in_txn sample_ready_graph"
  using sample_ready_ok(1) by (simp_all add: context_ok_def sample_ready_authority_graph)

definition sample_ready_authority :: authority where
  "sample_ready_authority = make_authority sample_ready_graph
     \<lparr>sig_secret = signing_secret sample_platform sample_registry ''live-wsp'', sig_ttl = 300\<rparr> (3 / 4) (Some sample_policy)"

lemma sample_ready_authority_is: "cx_authority sample_ready = sample_ready_authority"
  using sample_ready_authority_graph
  by (simp add: sample_ready_is baseline_approved_def sample_seeded_def sample_ready_authority_def make_authority_def)

lemma sample_ready_change: "change_ok sample_ready_authority sample_change"
proof -
  have "change_ok (make_authority sample_ready_graph sample_signer (3 / 4) (Some sample_policy)) sample_change" by code_simp
  moreover have "change_ok (au\<lparr>au_signer := sg\<rparr>) m = change_ok au m" for au sg m
  proof -
    have "role_allowed (au\<lparr>au_signer := sg\<rparr>) = role_allowed au" by (simp add: role_allowed_def policy_roles_def fun_eq_iff split: option.split)
    moreover have "au_threshold (au\<lparr>au_signer := sg\<rparr>) = au_threshold au" "au_graph (au\<lparr>au_signer := sg\<rparr>) = au_graph au"
      by simp_all
    ultimately show ?thesis unfolding change_ok_def decision_refusal_def by presburger
  qed
  moreover have "make_authority g sg th p = (make_authority g sample_signer th p)\<lparr>au_signer := sg\<rparr>" for g sg th p
    by (simp add: make_authority_def)
  ultimately show ?thesis unfolding sample_ready_authority_def by metis
qed

lemma sample_bound_new: "art_id (mut_decision (am_mutation sample_bound)) \<notin> cx_applied sample_ready"
  by (simp add: sample_ready_ok)

lemma sample_bound_fields:
  "am_evidence sample_bound = Some sample_bound_evidence" "am_mutation sample_bound = sample_proposal"
  "json_change sample_bound"
  by (simp_all add: sample_bound_def json_change_def sample_proposal_def sample_change_def sample_decision_def sample_attrs_def)

lemma sample_bound_runs:
  obtains res c where
    "approve_mutation_in sample_codec (3 / 4) ''live-wsp'' (change_request sample_bound sample_bound_evidence) sample_ready = (Inr res, c)"
proof -
  let ?q = "change_request sample_bound sample_bound_evidence" and ?d = "mut_decision sample_proposal"
  have q: "mq_mutation ?q = sample_proposal" "mq_role ?q = ''r''" "mq_evidence ?q = sample_bound_evidence"
      "mq_fingerprint ?q = stable_hash sample_codec (mutation_dump sample_codec sample_proposal)"
    by (simp_all add: change_request_def sample_bound_def sample_bound_evidence_def sample_evidence_def stable_hash_codec)
  have bound: "evidence_bound sample_codec ''live-wsp'' ?q"
    unfolding evidence_bound_def Let_def q
    by (simp add: sample_bound_evidence_def sample_evidence_def stable_hash_codec removeprefix_def sample_proposal_def sample_decision_def sample_artifact_def)
  have valid: "validate_approval (3 / 4) sample_ready ?d ''r'' = Inr ()"
    by (simp add: validate_approval_def sample_proposal_def sample_ready_is baseline_approved_def
        sample_seeded_def sample_policy_def sample_decision_def sample_artifact_def sample_attrs_def Let_def)
  have same: "approved_mutation sample_codec ?q = sample_change"
    unfolding approved_mutation_def Let_def q
    by (simp add: sample_proposal_def sample_change_def sample_decision_def sample_attrs_def review_extraction_def)
  obtain res au where app: "apply_decision_change sample_change sample_ready_authority = (Inr res, au)" "mres_applied res"
    using apply_decision_change_applies [of sample_ready_authority sample_change] sample_ready_change sample_ready_idle
    by (auto simp: sample_ready_authority_is [symmetric] sample_ready_authority_graph)
  have g: "au_graph sample_ready_authority = sample_ready_graph"
    using sample_ready_authority_graph by (simp add: sample_ready_authority_is)
  obtain s where s: "get_artifact sample_ready_graph (mut_supersedes sample_proposal) = Inr s" "art_kind s = Decision"
    using sample_ready_change by (auto simp: change_ok_def sample_proposal_def g)
  show ?thesis
    using that bound valid app s sample_ready_ok(2,3)
    by (simp add: approve_mutation_in_def Let_def sample_ready_authority_is apply_approved_def same q g)
qed

definition sample_result :: mutation_result where
  "sample_result = projr (fst (approve_mutation_in sample_codec (3 / 4) ''live-wsp''
     (change_request sample_bound sample_bound_evidence) sample_ready))"

definition sample_after :: authority_context where
  "sample_after = snd (approve_mutation_in sample_codec (3 / 4) ''live-wsp''
     (change_request sample_bound sample_bound_evidence) sample_ready)"

lemma sample_after_runs:
  "approve_mutation_in sample_codec (3 / 4) ''live-wsp'' (change_request sample_bound sample_bound_evidence) sample_ready
     = (Inr sample_result, sample_after)"
  by (rule sample_bound_runs) (simp add: sample_result_def sample_after_def)

text \<open>The record that goes along.\<close>

definition sample_tracked :: live_record where
  "sample_tracked = with_change sample_bound (mres_version sample_result)
     (with_baseline ''r'' (cs_version (context_state sample_ready)) sample_imported)"

lemma sample_import_plain: "\<forall>e\<in>set (graph_edges sample_import). edge_kind e \<noteq> SUPERSEDES" "json_import sample_import"
proof -
  show "\<forall>e\<in>set (graph_edges sample_import). edge_kind e \<noteq> SUPERSEDES" by code_simp
  show "json_import sample_import"
    by (simp add: json_import_def graph_artifacts_def sample_import_def sample_decision_def sample_artifact_def sample_attrs_def)
qed

lemma sample_imported_fields:
  "lw_definition sample_imported = sample_import" "lw_context sample_imported = ''live-wsp''" "lw_approved sample_imported = []"
  "\<not> lw_baseline_approved sample_imported" "lw_version sample_imported = ''graph-v1''" "lw_supervisor sample_imported = Some sample_crew"
  by (simp_all add: sample_imported_def imported_record_def add_event_def sample_import_def) code_simp

lemma sample_seed_version: "version_label (au_graph (cx_authority sample_seeded)) = ''graph-v1''"
proof -
  have "version_label (reset 1 [] [] empty_graph) = ''graph-v1''" by code_simp
  then show ?thesis by (simp add: sample_seeded_def make_authority_def version_label_def reset_def)
qed

lemma sample_tracks: "tracks sample_codec sample_registry sample_tracked sample_after"
proof -
  have th: "rg_threshold sample_registry = 3 / 4" by (simp add: sample_registry_def)
  have "tracks sample_codec sample_registry sample_imported sample_seeded"
    by (rule tracks.seed [OF sample_seeds sample_seeded_new])
       (simp_all add: sample_imported_fields sample_import_plain sample_seed_version)
  then have "tracks sample_codec sample_registry (with_baseline ''r'' (cs_version (context_state sample_ready)) sample_imported) sample_ready"
    by (rule tracks.baseline) (simp_all add: sample_imported_fields sample_ready_runs th)
  then show ?thesis unfolding sample_tracked_def
    by (rule tracks.change [OF _ sample_bound_fields(1,3) sample_bound_new])
       (simp add: th with_baseline_def sample_imported_fields sample_after_runs)
qed

subsection \<open>Remotes\<close>

definition sample_site :: site where
  "sample_site = \<lparr>st_agent = ''k'', st_authority = ''k'', st_executor = ''k'',
     st_numbers = \<lparr>nt_int = (\<lambda>_. None), nt_float = (\<lambda>_. None), nt_price = (\<lambda>_. [])\<rparr>,
     st_config = \<lparr>ec_provider = ''fixture'', ec_live = False, ec_key = None, ec_phone = None\<rparr>\<rparr>"

text \<open>One that has evicted the context, and one that holds it and loses a reply.\<close>

definition sample_evicted :: "unit remote" where
  "sample_evicted = \<lparr>rm_registry = sample_registry, rm_client = (), rm_faults = []\<rparr>"

definition sample_holding :: "authority_context \<Rightarrow> fault list \<Rightarrow> unit remote" where
  "sample_holding c fs = \<lparr>rm_registry = sample_registry\<lparr>rg_contexts := [(''live-wsp'', c)]\<rparr>, rm_client = (), rm_faults = fs\<rparr>"

lemma sample_token_known: "internal_service_token sample_codec ''k'' \<noteq> []"
  by (simp add: internal_service_token_def sample_codec_def sample_platform_def hex_text_def Let_def)

lemma sample_reached: "reached sample_codec sample_site sample_evicted"
  using sample_token_known
  by (simp add: reached_def sample_site_def sample_evicted_def sample_registry_def registry_ok_def)

lemma sample_holding_fields:
  "dict_get (rg_contexts (rm_registry (sample_holding c fs))) ''live-wsp'' = Some c"
  "wf_dict (rg_contexts (rm_registry (sample_holding c fs)))"
  "rm_faults (sample_holding c fs) = fs" "rg_threshold (rm_registry (sample_holding c fs)) = rg_threshold sample_registry"
  by (simp_all add: sample_holding_def sample_registry_def)

subsection \<open>A grant of the context before the change\<close>

definition sample_ready_grant :: signed_grant where
  "sample_ready_grant = issued_grant sample_codec 0 [] sample_ready_authority ''R'' ''T'' (sample_plan 1)"

lemma sample_ready_version: "version_label sample_ready_graph = version_label sample_graph"
  by (simp add: version_label_def sample_ready_graph_def sample_graph_def reset_def)

lemma sample_ready_graph_is: "au_graph sample_ready_authority = sample_ready_graph"
  by (simp add: sample_ready_authority_def make_authority_def)

lemma sample_ready_payload: "sg_payload sample_ready_grant = sg_payload sample_grant"
  by (simp add: sample_ready_grant_def sample_grant_def issued_grant_payload sample_ready_graph_is sample_ready_version
      stable_hash_codec) (simp add: sample_ready_authority_def make_authority_def sample_signer_def)

lemma sample_ready_decodes:
  "decode sample_codec (au_signer (cx_authority sample_ready)) (sg_token sample_ready_grant) = Inr (sg_payload sample_ready_grant)"
  "gp_snapshot (sg_payload sample_ready_grant) = version_label (au_graph (cx_authority sample_ready))"
proof -
  show "decode sample_codec (au_signer (cx_authority sample_ready)) (sg_token sample_ready_grant) = Inr (sg_payload sample_ready_grant)"
    using decode_issued_grant [of sample_codec 0 "[]" sample_ready_authority "''R''" "''T''" "sample_plan 1" sample_ready_authority]
      sample_codec_ok sample_ready_payload
    by (simp add: sample_ready_authority_is sample_ready_grant_def [symmetric])
  show "gp_snapshot (sg_payload sample_ready_grant) = version_label (au_graph (cx_authority sample_ready))"
    by (simp add: sample_ready_authority_is sample_ready_grant_def issued_grant_payload)
qed

lemma sample_after_step: "(context_step sample_codec (3 / 4) ''live-wsp'')\<^sup>*\<^sup>* sample_ready sample_after"
  using context_step.change [of sample_codec "3 / 4" "''live-wsp''" sample_ready "change_request sample_bound sample_bound_evidence"]
  by (simp add: sample_after_def r_into_rtranclp)

lemma sample_after_newer: "length (cx_mutations sample_ready) < length (cx_mutations sample_after)"
proof -
  have "records_change sample_codec (change_request sample_bound sample_bound_evidence) sample_ready sample_result sample_after"
    using approve_mutation_in_new [OF sample_ready_ok(1) _ sample_after_runs] sample_bound_new
    by (simp add: change_request_def)
  from records_change_ok(2) [OF sample_ready_ok(1) this] show ?thesis by simp
qed


subsection \<open>Calls\<close>

definition sample_attempt_texts :: "attempt dict attempt_codec" where
  "sample_attempt_texts = \<lparr>ac_dump = (\<lambda>d. d), ac_load = Inr\<rparr>"

definition sample_caller :: "attempt dict attempt_file caller" where
  "sample_caller = \<lparr>lc_store = \<lparr>af_text = None, af_refused = []\<rparr>, lc_posts = []\<rparr>"

lemma sample_caller_ok: "file_ok sample_attempt_texts (lc_store sample_caller)" "lc_posts sample_caller = []"
  by (simp_all add: file_ok_def attempt_codec_ok_def sample_attempt_texts_def sample_caller_def file_read_def)

definition sample_dial :: call_request where
  "sample_dial = \<lparr>cq_auth = ''AUTH-1'', cq_run = ''R'', cq_task = ''T'', cq_snapshot = ''graph-v1'', cq_plan_hash = ''h'',
     cq_phone = ''+12345678901'', cq_brief = ''b'', cq_language = ''en''\<rparr>"

definition sample_answer :: provider_reply where
  "sample_answer = Call_Status 200 (Some (''C1'', ''queued''))"

lemma sample_dial_phone: "e164 (cq_phone sample_dial)"
  by code_simp

lemma sample_answer_read: "read_reply sample_answer = Inr (live_receipt ''C1'' ''queued'')"
proof -
  have "call_id_ok ''C1''" "bounded 1 128 ''queued''" by code_simp+
  then show ?thesis by (simp add: read_reply_def sample_answer_def error_status_def)
qed

lemma sample_dial_placed:
  obtains t where "create_call sample_platform (file_reserve sample_attempt_texts) (file_transition sample_attempt_texts)
     sample_answer sample_dial sample_caller = (Inr (live_receipt ''C1'' ''queued''), t)" "lc_posts t = [sample_dial]"
proof -
  let ?run = "create_call sample_platform (file_reserve sample_attempt_texts) (file_transition sample_attempt_texts)
     sample_answer sample_dial sample_caller"
  have "fst ?run = Inr (live_receipt ''C1'' ''queued'') \<and> lc_posts (snd ?run) = [sample_dial]"
    by (simp add: create_call_def sample_dial_phone Let_def bind_op_def on_attempts_def file_reserve_def
        file_transition_def file_read_def file_write_def sample_caller_def sample_attempt_texts_def read_op_def ret_op_def
        post_call_def sample_answer_read sort_key_def)
  then show ?thesis using that [of "snd ?run"] by (metis prod.collapse)
qed

subsection \<open>An edge that does not belong\<close>

definition sample_stray :: edge where
  "sample_stray = \<lparr>edge_source = ''W'', edge_target = ''D0'', edge_kind = SUPERSEDES, edge_scopes = {''s''}, edge_evidence = None\<rparr>"

definition sample_stray_import :: import_request where
  "sample_stray_import = sample_import\<lparr>ir_edges := Some (sample_stray # graph_edges sample_import)\<rparr>"

lemma sample_stray_valid: "validate_import sample_platform sample_stray_import = Inr ()"
  by code_simp


definition sample_stray_record :: live_record where
  "sample_stray_record = sample_imported\<lparr>lw_definition := sample_stray_import\<rparr>"

lemma sample_stray_seeds: "validate_graph_seed (context_request sample_stray_record) = Inr ()"
  by code_simp

lemma sample_stray_edge: "sample_stray \<in> set (graph_edges (lw_definition sample_stray_record))"
  by (simp add: sample_stray_record_def sample_stray_import_def graph_edges_def Let_def)

lemma sample_stray_context:
  obtains c where "new_context sample_platform sample_registry (context_request sample_stray_record) = Inr c"
proof -
  have "signing_secret sample_platform sample_registry i \<noteq> []" for i
    by (simp add: signing_secret_def hex_text_def sample_platform_def sample_registry_def Let_def)
  moreover have "graph_artifacts sample_stray_import = graph_artifacts sample_import"
    by (simp add: sample_stray_import_def graph_artifacts_def plan_ref_def)
  moreover have "get_artifact (reset 1 (graph_artifacts sample_import) es empty_graph) ''D0'' = Inr (sample_decision ''D0'' 1 Proposal)" for es
    by (simp add: reset_def empty_graph_def get_artifact_def dict_of_def graph_artifacts_def sample_import_def sample_artifact_def
        sample_decision_def sample_plan_def)
  moreover have "ir_version sample_stray_import = 1" "art_id (ir_baseline sample_stray_import) = ''D0''"
    by (simp_all add: sample_stray_import_def sample_import_def sample_decision_def sample_artifact_def)
  ultimately have "\<exists>c. new_context sample_platform sample_registry (context_request sample_stray_record) = Inr c"
    by (simp add: new_context_def make_signer_def context_request_def sample_stray_record_def Let_def)
       (simp add: sample_registry_def sample_decision_def sample_artifact_def)
  then show ?thesis using that by blast
qed

end
