(* ===== verification/Intake_Samples.thy ===== *)
theory Intake_Samples
  imports Deliveries Approvals Orchestrator_Samples
begin

text \<open>
  A signed message to the concrete workspace of \<^verbatim>\<open>Samples\<close>, from the trigger service's envelope to the proposal
  that comes of it, for the theorems about deliveries to be instantiated on.
\<close>

definition sample_envelope :: attributes where
  "sample_envelope = [(''version'', PStr ''V3''), (''payload'', PDict [(''trigger_slug'', PStr CHANNEL_MESSAGE_SLUG),
     (''toolkit_slug'', PStr ''slack''), (''user_id'', PStr ''C''),
     (''payload'', PDict [(''channel'', PStr ''ch''), (''team_id'', PStr ''tm''), (''text'', PStr ''ship''), (''ts'', PStr ''1''),
        (''user'', PStr ''U'')])])]"

definition sample_verifier :: slack_verifier where
  "sample_verifier = \<lparr>vf_triggers = \<lparr>tg_schema = \<lambda>_. Inr [],
     tg_parse = \<lambda>body headers secret. if body = ''signed'' then Some sample_envelope else None,
     tg_decimal = \<lambda>_. Some (Some 1), tg_fromtimestamp = \<lambda>_. Inr (Aware 1)\<rparr>, vf_secret = ''secret''\<rparr>"

definition sample_headers :: attributes where
  "sample_headers = [(''webhook-id'', PStr ''e1'')]"

definition sample_message :: slack_message where
  "sample_message = \<lparr>sm_event = ''e1'', sm_connection = ''C'', sm_author = ''U'', sm_team = ''tm'', sm_channel = ''ch'',
     sm_ts = ''1'', sm_delivered = Aware 1, sm_text = ''ship'', sm_source = ''slack://tm/ch/1''\<rparr>"

lemma sample_delivery_parsed:
  "\<exists>event payload. parse_delivery sample_verifier ''signed'' sample_headers CHANNEL_MESSAGE_SLUG = Inr (event, payload, ''e1'')
    \<and> event = [(''trigger_slug'', PStr CHANNEL_MESSAGE_SLUG), (''toolkit_slug'', PStr ''slack''), (''user_id'', PStr ''C''),
        (''payload'', PDict payload)]
    \<and> payload = [(''channel'', PStr ''ch''), (''team_id'', PStr ''tm''), (''text'', PStr ''ship''), (''ts'', PStr ''1''), (''user'', PStr ''U'')]"
proof -
  have "casefold ''slack'' = ''slack''" "webhook_delivery_id sample_headers = Inr ''e1''" by code_simp+
  then show ?thesis
    by (simp add: parse_delivery_def sample_verifier_def sample_envelope_def mapping_at_def string_at_def)
qed

lemma sample_message_parsed: "parse_message sample_verifier ''signed'' sample_headers = Inr sample_message"
proof -
  obtain event payload where parsed: "parse_delivery sample_verifier ''signed'' sample_headers CHANNEL_MESSAGE_SLUG = Inr (event, payload, ''e1'')"
      "event = [(''trigger_slug'', PStr CHANNEL_MESSAGE_SLUG), (''toolkit_slug'', PStr ''slack''), (''user_id'', PStr ''C''),
        (''payload'', PDict payload)]"
      "payload = [(''channel'', PStr ''ch''), (''team_id'', PStr ''tm''), (''text'', PStr ''ship''), (''ts'', PStr ''1''), (''user'', PStr ''U'')]"
    using sample_delivery_parsed by blast
  have "require_strings payload message_fields =
      Inr [(''channel'', ''ch''), (''team_id'', ''tm''), (''text'', ''ship''), (''ts'', ''1''), (''user'', ''U'')]"
    unfolding parsed(3) by code_simp
  moreover have "connection_user_id event = Inr ''C''" unfolding parsed(2,3) by code_simp
  moreover have "slack_message_ok sample_message" by (simp add: slack_message_ok_def sample_message_def bounded_def)
  moreover have "slack_timestamp (vf_triggers sample_verifier) ts = Inr (Aware 1)" for ts
    by (simp add: slack_timestamp_def sample_verifier_def)
  ultimately show ?thesis
    by (simp add: parse_message_def parsed(1) field_of_def sample_message_def check_def)
qed

definition sample_candidate :: extraction where
  "sample_candidate = \<lparr>xt_mutation = sample_change, xt_spans = [\<lparr>sp_start = 1, sp_end = 5, sp_text = ''ship''\<rparr>]\<rparr>"

definition sample_found :: extraction where
  "sample_found = \<lparr>xt_mutation = sample_change, xt_spans = [\<lparr>sp_start = 0, sp_end = 4, sp_text = ''ship''\<rparr>]\<rparr>"

lemma sample_repaired: "repair_evidence_offsets ''ship'' sample_candidate = sample_found"
  by code_simp

text \<open>The permission service counts how often it was asked.\<close>

definition sample_asked :: "nat checker" where
  "sample_asked user permission n = (Some (user = ''alice'' \<and> permission = ''r''), Suc n)"

definition sample_gate :: intake_gate where
  "sample_gate = \<lparr>ig_known = {''s''}, ig_policy = sample_policy, ig_threshold = 3 / 4\<rparr>"

lemma sample_gate_made: "make_gate (fst ` set sample_policy) sample_policy (Some (3 / 4)) = Inr sample_gate"
  by code_simp

definition sample_slack_intake :: "nat slack_intake" where
  "sample_slack_intake = \<lparr>in_verifier = sample_verifier, in_extractor = \<lambda>raw _. Inr (repair_evidence_offsets raw sample_candidate),
     in_gate = sample_gate, in_checker = sample_asked, in_isoformat = \<lambda>_. ''t''\<rparr>"

definition sample_passed :: gate_result where
  "sample_passed = \<lparr>gt_disposition = Gate_Pending, gt_reasons = [], gt_scopes = {''s''}, gt_permission = Some ''r'', gt_checked = [''r'']\<rparr>"

lemma sample_passed_fields: "gt_disposition sample_passed = Gate_Pending" "gt_permission sample_passed = Some ''r''"
  by (simp_all add: sample_passed_def)

lemma sample_gate_passes: "gate_evaluate sample_gate sample_asked ''alice'' {''s''} (Some 1) n = (sample_passed, Suc n)"
proof -
  have "gate_scopes {''s''} = {''s''}" "strip ''alice'' = ''alice''" by code_simp+
  moreover have "common_permissions sample_policy {''s''} = {''r''}"
    by (simp add: common_permissions_def permitted_def sample_policy_def)
  ultimately show ?thesis
    by (simp add: gate_evaluate_def Let_def gate_reasons_def sample_gate_def sample_asked_def sample_passed_def)
qed

definition sample_proposed_change :: proposal_request where
  "sample_proposed_change = \<lparr>wp_decision = proposed_decision (\<lambda>_. ''t'') sample_found [(''s'', PDict [(''k'', PInt 2)])]
     ''slack://tm/ch/1'' ''U'' ''alice'' (Aware 1) ''r'', wp_supersedes = ''D0'', wp_scopes = {''s''}\<rparr>"

definition sample_superseded :: artifact where
  "sample_superseded = sample_decision ''D0'' 1 Approved"

lemma sample_built: "build_workspace_proposal (\<lambda>_. ''t'') sample_found ''ship'' ''slack://tm/ch/1'' ''U'' ''alice'' (Aware 1)
    sample_superseded ''r'' = Inr sample_proposed_change"
  by code_simp

definition sample_taken :: intake_outcome where
  "sample_taken = \<lparr>io_workspace = ''ws'', io_message = sample_message, io_gate = sample_passed,
     io_proposal = Some sample_proposed_change\<rparr>"

lemma sample_ingested:
  "ingest_verified sample_slack_intake ''ws'' sample_message [sample_superseded] ''alice'' ''D0'' n = (Inr sample_taken, Suc n)"
proof -
  have target: "select_seeded_supersession_root [sample_superseded] {''s''} ''D0'' = Inr sample_superseded" by code_simp
  have fields: "mut_scopes (xt_mutation sample_found) = {''s''}" "art_confidence (mut_decision (xt_mutation sample_found)) = 1"
    by (simp_all add: sample_found_def sample_defs)
  show ?thesis
    by (simp add: ingest_verified_def intake_proposal_def given_def sample_slack_intake_def sample_message_def sample_repaired fields
      sample_gate_passes sample_passed_fields target sample_built sample_taken_def)
qed

subsection \<open>The route on it\<close>

definition sample_slack_binding :: slack_binding where
  "sample_slack_binding = \<lparr>sb_workspace = ''ws'', sb_team = ''tm'', sb_connection = ''C'', sb_hexclave_team = ''team'',
     sb_identities = [\<lparr>si_slack = ''U'', si_hexclave = ''alice'', si_evidence = ''e''\<rparr>]\<rparr>"

definition sample_listening :: authority_context where
  "sample_listening = sample_approved\<lparr>cx_slack := Some sample_slack_binding\<rparr>"

definition sample_intake_world :: "nat intake_world" where
  "sample_intake_world = \<lparr>iw_contexts = sample_registry\<lparr>rg_contexts := [(''live-ws'', sample_listening)]\<rparr>,
     iw_deliveries = No_Store, iw_rest = 0\<rparr>"

text \<open>The agent service is down.\<close>

definition sample_intake_services :: "nat intake_services" where
  "sample_intake_services = \<lparr>iv_verifier = Some sample_verifier,
     iv_extractor = Some (\<lambda>raw _. Inr (repair_evidence_offsets raw sample_candidate)), iv_checker = \<lambda>_. Some sample_asked,
     iv_threshold = Some (3 / 4), iv_isoformat = \<lambda>_. ''t'', iv_propose = \<lambda>_ _. raise_op (NotFound []),
     iv_notify = \<lambda>_ _. ret_op []\<rparr>"

lemma sample_intake_acts:
  assumes "intake_slack sample_intake_services now ''ws'' ''signed'' sample_headers sample_intake_world = (r, w)"
  shows "r = Inl (NotFound []) \<and> iw_rest w = 1"
proof -
  let ?S = sample_intake_services and ?w = sample_intake_world
  let ?st = "context_state sample_listening"
  have "cs_artifacts ?st = list_artifacts sample_graph"
    by (simp add: context_state_def Let_def sample_listening_def sample_approved_authority)
  moreover have "filter (\<lambda>a. art_kind a = Decision) (list_artifacts sample_graph) = [sample_superseded]"
    by code_simp
  ultimately have decisions: "filter (\<lambda>a. art_kind a = Decision) (cs_artifacts ?st) = [sample_superseded]" by simp
  have fields: "cs_slack ?st = Some sample_slack_binding" "cs_policy ?st = sample_policy" "cs_baseline ?st = ''D0''"
    by (simp_all add: context_state_def Let_def sample_listening_def sample_approved_is baseline_approved_def sample_context_def)
  have "bound_author ''ws'' sample_message (Some sample_slack_binding) = Inr (sample_slack_binding, ''alice'')"
    by (simp add: bound_author_def sample_slack_binding_def sample_message_def hexclave_user_for_def)
  note author = this
  have there: "on_contexts (read_state ''live-ws'') ?w = (Inr ?st, ?w)"
    by (simp add: on_contexts_def read_state_def access_def sample_intake_world_def)
  have "iv_verifier ?S = Some sample_verifier" by (simp add: sample_intake_services_def)
  then have one: "identify_delivery ?S ''ws'' ''signed'' sample_headers ?w =
      (Inr (sample_verifier, sample_message, ?st, sample_slack_binding, ''alice''), ?w)"
    by (simp add: identify_delivery_def sample_message_parsed bind_op_def except_class_def there fields author)
  define k where "k = \<lparr>dk_workspace = ''ws'', dk_connection = ''C'', dk_trigger = CHANNEL_MESSAGE_SLUG, dk_event = ''e1''\<rparr>"
  define w1 where "w1 = ?w\<lparr>iw_deliveries := Document [fresh_delivery now k]\<rparr>"
  have "strip ''ws'' = ''ws''" "strip ''C'' = ''C''" "strip CHANNEL_MESSAGE_SLUG = CHANNEL_MESSAGE_SLUG" "strip ''e1'' = ''e1''"
    by code_simp+
  then have key: "delivery_key_for ''ws'' (sm_connection sample_message) CHANNEL_MESSAGE_SLUG (sm_event sample_message) = Inr k"
    by (simp add: delivery_key_for_def Let_def sample_message_def k_def bounded_def check_def CHANNEL_MESSAGE_SLUG_def)
  have "has_webhook_delivery_id sample_headers" using parse_message_present [OF sample_message_parsed] by simp
  then have two: "reserve_message now ''ws'' sample_headers sample_message ?w = (Inr None, w1)"
    by (simp add: reserve_message_def key bind_op_def on_deliveries_def reserve_slack_delivery_def slack_reserve_def w1_def
      sample_intake_world_def)
  have three: "extract_delivery ?S ''ws'' sample_verifier sample_message ?st sample_slack_binding ''alice'' w1
      = (Inr (Taken sample_taken), w1\<lparr>iw_rest := 1\<rparr>)"
  proof -
    have "iv_extractor ?S = Some (in_extractor sample_slack_intake)" "iv_checker ?S t = Some sample_asked"
        "iv_threshold ?S = Some (3 / 4)" "iv_isoformat ?S = (\<lambda>_. ''t'')" for t
      by (simp_all add: sample_intake_services_def sample_slack_intake_def)
    moreover have "\<lparr>in_verifier = sample_verifier, in_extractor = in_extractor sample_slack_intake, in_gate = sample_gate,
        in_checker = sample_asked, in_isoformat = \<lambda>_. ''t''\<rparr> = sample_slack_intake"
      by (simp add: sample_slack_intake_def)
    moreover have "iw_rest w1 = 0" by (simp add: w1_def sample_intake_world_def)
    ultimately show ?thesis
      using sample_ingested [of 0]
      by (simp add: extract_delivery_def fields sample_gate_made decisions bind_op_def except_class_def on_rest_def)
  qed
  have "io_message sample_taken = sample_message" "io_proposal sample_taken = Some sample_proposed_change"
    by (simp_all add: sample_taken_def)
  then have "intake_slack ?S now ''ws'' ''signed'' sample_headers ?w = (Inl (NotFound []), w1\<lparr>iw_rest := 1\<rparr>)"
    using one two three
    by (simp add: intake_slack_def process_slack_delivery_def bind_op_def key on_rest_def sample_intake_services_def [THEN arg_cong, of iv_propose])
  then show ?thesis using assms by simp
qed

subsection \<open>A trusted context\<close>

definition sample_trusted :: trusted_context where
  "sample_trusted = \<lparr>tc_source = ''doc'', tc_approval = Approved, tc_role = ''r'', tc_confidence = 1,
     tc_effective = Some (Aware 2), tc_supersedes = ''D0'', tc_scopes = {''s''}\<rparr>"

lemma sample_trusted_applies:
  "\<exists>res au'. apply_extracted_decision ''ship'' sample_trusted sample_found sample_authority = (Inr res, au') \<and> au' \<noteq> sample_authority"
proof -
  have quoted: "evidence_span_error ''ship'' (xt_spans sample_found) = None" by code_simp
  have "change_ok sample_authority (governed sample_trusted sample_found)" by code_simp
  then obtain g' rep res where "apply_decision_change (governed sample_trusted sample_found) sample_authority =
      (Inr res, sample_authority\<lparr>au_graph := g', au_report := Some rep\<rparr>)"
    using apply_decision_change_applies [of sample_authority "governed sample_trusted sample_found"] sample_graph_wf sample_graph_idle
    by auto
  moreover have "sample_authority\<lparr>au_graph := g', au_report := Some rep\<rparr> \<noteq> sample_authority"
  proof
    assume "sample_authority\<lparr>au_graph := g', au_report := Some rep\<rparr> = sample_authority"
    from arg_cong [OF this, of au_report] show False by simp
  qed
  ultimately show ?thesis using quoted by (simp add: apply_extracted_decision_def)
qed

end
