(* ===== verification/Channel_Samples.thy ===== *)
theory Channel_Samples
  imports Slack_Threads Intake_Samples
begin

text \<open>
  A signed link, an assertion and a Slack thread to the concrete workspace of \<^verbatim>\<open>Orchestrator_Samples\<close>, for the
  theorems about the channels to be instantiated on.
\<close>

subsection \<open>A link\<close>

definition sample_digest :: string where
  "sample_digest = ''sha256:'' @ replicate 64 (CHR ''0'')"

definition sample_link :: link_claims where
  "sample_link = \<lparr>lk_token = replicate 16 (CHR ''a''), lk_workspace = ''wsp'', lk_decision = ''D1'', lk_approver = ''alice'',
     lk_channel = Email, lk_provider = Email_Provider, lk_fingerprint = sample_digest, lk_instance = ''i1'',
     lk_binding = sample_digest, lk_issued = Aware 1, lk_expires = Aware 60\<rparr>"

lemma sample_link_made: "make_link sample_link = Inr sample_link"
  by code_simp

definition sample_link_assertion :: assertion where
  "sample_link_assertion = notification_assertion 30 (Aware 7) (replicate 16 (CHR ''b'')) sample_link"

definition sample_link_signer :: "link_claims token_signer" where
  "sample_link_signer = \<lparr>tk_key = replicate 32 (CHR ''k''), tk_ttl = 900, tk_parse = \<lambda>_. Inr sample_link\<rparr>"

definition sample_channel :: channel_config where
  "sample_channel = \<lparr>cc_secret = Some (replicate 32 (CHR ''k'')), cc_grant = ''grant'', cc_bindings = Some ''bindings'',
     cc_server = ''https://n'', cc_recipients = \<lambda>_. Some [\<lparr>rb_workspace = ''wsp'', rb_approver = ''alice'', rb_email = Some ''a@b.c'',
       rb_ntfy = None, rb_pushover = None\<rparr>],
     cc_assertion = \<lambda>_. Inr sample_link_assertion, cc_link = \<lambda>_. Inr sample_link, cc_link_ttl = 900\<rparr>"

definition sample_redemption :: redeem_call where
  "sample_redemption = \<lparr>rc_signer_now = Aware 5, rc_now = Aware 6, rc_forward_now = Aware 7, rc_id = replicate 16 (CHR ''b''),
     rc_available = True\<rparr>"

definition sample_link_token :: string where
  "sample_link_token = link_token sample_platform sample_link_signer sample_link"

lemma sample_channel_signers:
  "approval_link_signer sample_channel = Inr sample_link_signer"
  "channel_assertion_signer P sample_channel =
     Inr \<lparr>tk_key = assertion_key P (replicate 32 (CHR ''k'')), tk_ttl = 30, tk_parse = cc_assertion sample_channel\<rparr>"
proof -
  have secret: "approval_link_secret sample_channel = Inr (replicate 32 (CHR ''k''))"
  proof -
    have "replicate 32 (CHR ''k'') \<noteq> ''grant''" by code_simp
    then show ?thesis by (simp add: approval_link_secret_def sample_channel_def)
  qed
  show "approval_link_signer sample_channel = Inr sample_link_signer"
    unfolding approval_link_signer_def secret by (simp add: make_link_signer_def sample_channel_def sample_link_signer_def)
  show "channel_assertion_signer P sample_channel =
     Inr \<lparr>tk_key = assertion_key P (replicate 32 (CHR ''k'')), tk_ttl = 30, tk_parse = cc_assertion sample_channel\<rparr>"
    by (simp add: channel_assertion_signer_def secret make_assertion_signer_def)
qed

lemma b64_short: "length (b64 s) \<le> 2 * length s"
proof -
  have "length (sextets xs) \<le> 2 * length xs" for xs
    by (induction xs rule: sextets.induct) auto
  from this [of "map of_char s"] show ?thesis by (simp add: b64_sextets)
qed

lemma sample_token_short: "length sample_link_token \<le> 8192"
proof -
  let ?text = "json_dumps sample_platform (link_dump sample_platform sample_link)"
  have "drop 1000 ?text = []" by code_simp
  then have "length ?text \<le> 1000" by simp
  moreover have "length (hmac_sha256 sample_platform (tk_key sample_link_signer) m) = 32 + length m" for m
    by (simp add: sample_platform_def sample_link_signer_def)
  ultimately show ?thesis
    using b64_short [of ?text] b64_short [of "hmac_sha256 sample_platform (tk_key sample_link_signer) (b64 ?text)"]
    by (simp add: sample_link_token_def link_token_def Let_def token_mac_def)
qed

lemma sample_link_decodes: "decode_link sample_platform sample_link_signer (Aware 5) sample_link_token Email = Inr sample_link"
proof -
  have "dt_micros (lk_issued sample_link) \<le> dt_micros (add_seconds (Aware 5) clock_skew)"
      "dt_micros (Aware 5) < dt_micros (lk_expires sample_link)"
    by (simp_all add: sample_link_def add_seconds_def clock_skew_def)
  moreover have "hmac_sha256 sample_platform (tk_key sample_link_signer) m \<noteq> []" for m
    by (simp add: sample_platform_def sample_link_signer_def)
  moreover have "tk_parse sample_link_signer t = Inr sample_link" for t by (simp add: sample_link_signer_def)
  moreover have "lk_channel sample_link = Email" by (simp add: sample_link_def)
  ultimately show ?thesis
    using decode_issued [of sample_link_signer sample_platform sample_link "Aware 5"] sample_link_made sample_token_short
    unfolding sample_link_token_def by simp
qed

lemma sample_link_only:
  assumes "decode_link P sample_link_signer now token ch = Inr c" shows "c = sample_link"
proof -
  obtain body where "read_claims make_link sample_link_signer body ''The approval-link claims are invalid.'' = Inr c"
    using decode_linkD [OF assms] by blast
  then show ?thesis
    by (auto simp: read_claims_def sample_link_signer_def sample_link_made split: sum.splits)
qed

lemma sample_link_issues:
  assumes "issue_notification S (Aware 7) (replicate 16 (CHR ''b'')) sample_link = Inr f" and "tk_ttl S = 30"
  shows "f = sample_link_assertion"
proof -
  have "make_assertion sample_link_assertion = Inr sample_link_assertion" by code_simp
  then show ?thesis using assms by (simp add: issue_notification_def assertion_now_def sample_link_assertion_def)
qed

text \<open>So the agent reads of the assertion what the authority put into it.\<close>

lemma sample_channel_reads:
  assumes "approval_link_signer sample_channel = Inr S" and "channel_assertion_signer P sample_channel = Inr S'"
    and "decode_link P S now token ch = Inr c" and "issue_notification S' (rc_forward_now sample_redemption) (rc_id sample_redemption) c = Inr f"
  shows "cc_assertion sample_channel text = Inr f"
proof -
  have "S = sample_link_signer" "tk_ttl S' = 30" using assms(1,2) by (auto simp: sample_channel_signers)
  then have "f = sample_link_assertion"
    using sample_link_only [of P now token ch c] assms(3,4) sample_link_issues [of S' f]
    by (simp add: sample_redemption_def)
  then show ?thesis by (simp add: sample_channel_def)
qed

subsection \<open>A thread and a reaction in it\<close>

definition sample_shown :: pending_approval where
  "sample_shown = \<lparr>pa_workspace = ''ws'', pa_decision = ''D1'', pa_supersedes = ''D0'', pa_scopes = {''s''}, pa_permission = ''r'',
     pa_source = ''slack://tm/ch/1'', pa_title = ''D1'', pa_text = ''ship'', pa_effective = Aware 1, pa_requirements = [],
     pa_fingerprint = sample_digest, pa_instance = ''i1'', pa_refs = []\<rparr>"

definition sample_thread :: thread_key where
  "sample_thread = (''tm'', ''ch'', ''1'')"

definition sample_threads :: thread_file where
  "sample_threads = Threads [\<lparr>th_key = sample_thread, th_pending = sample_shown, th_consumed = None\<rparr>]"

definition sample_reaction :: slack_reaction where
  "sample_reaction = \<lparr>sr_event = ''e1'', sr_connection = ''C'', sr_user = ''U'', sr_team = ''tm'', sr_channel = ''ch'', sr_ts = ''1'',
     sr_reaction = APPROVE_REACTION, sr_delivered = Aware 1, sr_evidence = ''slack://tm/ch/1#reaction-2''\<rparr>"

lemma sample_shown_same: "pending_same sample_shown sample_shown"
  by (simp add: pending_same_def sample_shown_def attrs_eq_def)

lemma sample_thread_found:
  "reaction_key sample_reaction = sample_thread"
  "json_resolve sample_thread sample_threads = (Inr (Some sample_shown), sample_threads)"
  "resolve_hexclave_user_id sample_slack_binding sample_shown sample_reaction = Some ''alice''"
proof -
  have "strip ''tm'' = ''tm''" "strip ''ch'' = ''ch''" "strip ''1'' = ''1''" by code_simp+
  then show "reaction_key sample_reaction = sample_thread"
    by (simp add: reaction_key_def thread_key_of_def sample_reaction_def sample_thread_def)
  show "json_resolve sample_thread sample_threads = (Inr (Some sample_shown), sample_threads)"
    by (simp add: json_resolve_def json_key_def blank_key_def bind_op_def sample_threads_def sample_thread_def)
  show "resolve_hexclave_user_id sample_slack_binding sample_shown sample_reaction = Some ''alice''"
    by (simp add: resolve_hexclave_user_id_def sample_slack_binding_def sample_shown_def sample_reaction_def hexclave_user_for_def)
qed

definition sample_thread_assertion :: assertion where
  "sample_thread_assertion = \<lparr>fa_id = replicate 16 (CHR ''b''), fa_source = replicate 16 (CHR ''c''), fa_workspace = ''ws'',
     fa_decision = ''D1'', fa_approver = ''alice'', fa_channel = Slack_Reaction, fa_evidence = ''slack://tm/ch/1#reaction-2'',
     fa_provider = None, fa_fingerprint = sample_digest, fa_instance = ''i1'', fa_binding = None, fa_issued = Aware 7,
     fa_expires = Aware 30000007\<rparr>"

definition sample_thread_channel :: channel_config where
  "sample_thread_channel = sample_channel\<lparr>cc_assertion := \<lambda>_. Inr sample_thread_assertion\<rparr>"

lemma sample_thread_issues:
  assumes "issue_slack S (Aware 7) (replicate 16 (CHR ''b'')) (replicate 16 (CHR ''c'')) sample_shown ''alice'' (sr_evidence sample_reaction)
      = Inr f" and "tk_ttl S = 30"
  shows "f = sample_thread_assertion"
proof -
  have "fingerprint_ok sample_digest" "token_id_ok (replicate 16 (CHR ''b''))" "token_id_ok (replicate 16 (CHR ''c''))"
      "strip sample_digest = sample_digest" "strip (replicate 16 (CHR ''b'')) = replicate 16 (CHR ''b'')"
      "strip (replicate 16 (CHR ''c'')) = replicate 16 (CHR ''c'')" "strip ''ws'' = ''ws''" "strip ''D1'' = ''D1''"
      "strip ''alice'' = ''alice''" "strip ''i1'' = ''i1''" "strip ''slack://tm/ch/1#reaction-2'' = ''slack://tm/ch/1#reaction-2''"
    by code_simp+
  then have "strip_assertion sample_thread_assertion = sample_thread_assertion" "assertion_fields_ok sample_thread_assertion"
    by (simp_all add: strip_assertion_def assertion_fields_ok_def sample_thread_assertion_def bounded_def)
  then have "make_assertion sample_thread_assertion = Inr sample_thread_assertion"
    by (simp add: make_assertion_def Let_def) (simp add: sample_thread_assertion_def check_def)
  then show ?thesis using assms
    by (simp add: issue_slack_def assertion_now_def sample_shown_def sample_reaction_def add_seconds_def sample_thread_assertion_def)
qed

lemma sample_thread_reads:
  assumes "channel_assertion_signer P sample_channel = Inr S" and "json_resolve sample_thread sample_threads = (Inr (Some p), f0)"
    and "resolve_hexclave_user_id sample_slack_binding p sample_reaction = Some user"
    and "issue_slack S (Aware 7) (replicate 16 (CHR ''b'')) (replicate 16 (CHR ''c'')) p user (sr_evidence sample_reaction) = Inr f"
  shows "cc_assertion sample_thread_channel text = Inr f"
proof -
  have "tk_ttl S = 30" "p = sample_shown" using assms(1,2) sample_thread_found(2) by (auto simp: sample_channel_signers)
  moreover have "user = ''alice''" using assms(3) sample_thread_found(3) \<open>p = sample_shown\<close> by simp
  ultimately show ?thesis using assms(4) sample_thread_issues [of S f] by (simp add: sample_thread_channel_def)
qed

text \<open>Two events race for the thread, and the first comes again.\<close>

definition sample_events :: "thread_call list" where
  "sample_events = [Settle sample_thread ''e1'' sample_shown, Settle sample_thread ''e2'' sample_shown,
     Settle sample_thread ''e1'' sample_shown]"

lemma sample_events_settle:
  "(sample_thread, ''e1'') \<in> set (fst (settlements json_register json_thread_consume sample_events sample_threads))"
proof -
  have "strip ''e1'' = ''e1''" "strip ''e2'' = ''e2''" by code_simp+
  moreover have "\<not> blank_key sample_thread" by (simp add: blank_key_def sample_thread_def)
  ultimately show ?thesis
    by (simp add: sample_events_def sample_threads_def json_thread_consume_def bind_op_def json_key_def sample_shown_same Let_def)
qed

subsection \<open>The delivery of a reaction\<close>

definition sample_reaction_envelope :: attributes where
  "sample_reaction_envelope = [(''version'', PStr ''V3''), (''payload'', PDict [(''trigger_slug'', PStr REACTION_ADDED_SLUG),
     (''toolkit_slug'', PStr ''slack''), (''user_id'', PStr ''C''),
     (''payload'', PDict [(''event_ts'', PStr ''2''), (''message_channel'', PStr ''ch''), (''message_ts'', PStr ''1''),
        (''reaction'', PStr APPROVE_REACTION), (''team_id'', PStr ''tm''), (''user'', PStr ''U'')])])]"

definition sample_reaction_verifier :: slack_verifier where
  "sample_reaction_verifier = sample_verifier\<lparr>vf_triggers := (vf_triggers sample_verifier)\<lparr>tg_parse :=
     \<lambda>body headers secret. if body = ''signed'' then Some sample_reaction_envelope else None\<rparr>\<rparr>"

lemma sample_reaction_parsed: "parse_reaction sample_reaction_verifier ''signed'' sample_headers = Inr sample_reaction"
proof -
  define payload where "payload = [(''event_ts'', PStr ''2''), (''message_channel'', PStr ''ch''), (''message_ts'', PStr ''1''),
    (''reaction'', PStr APPROVE_REACTION), (''team_id'', PStr ''tm''), (''user'', PStr ''U'')]"
  define event where "event = [(''trigger_slug'', PStr REACTION_ADDED_SLUG), (''toolkit_slug'', PStr ''slack''), (''user_id'', PStr ''C''),
    (''payload'', PDict payload)]"
  have "casefold ''slack'' = ''slack''" "webhook_delivery_id sample_headers = Inr ''e1''" by code_simp+
  then have parsed: "parse_delivery sample_reaction_verifier ''signed'' sample_headers REACTION_ADDED_SLUG = Inr (event, payload, ''e1'')"
    by (simp add: parse_delivery_def sample_reaction_verifier_def sample_verifier_def sample_reaction_envelope_def mapping_at_def
      string_at_def event_def payload_def)
  have strings: "require_strings payload reaction_fields = Inr [(''event_ts'', ''2''), (''message_channel'', ''ch''), (''message_ts'', ''1''),
      (''reaction'', APPROVE_REACTION), (''team_id'', ''tm''), (''user'', ''U'')]"
    unfolding payload_def by code_simp
  have "connection_user_id event = Inr ''C''" unfolding event_def payload_def by code_simp
  moreover have "slack_reaction_ok sample_reaction"
    by (simp add: slack_reaction_ok_def sample_reaction_def bounded_def APPROVE_REACTION_def)
  moreover have "slack_timestamp (vf_triggers sample_reaction_verifier) ts = Inr (Aware 1)" for ts
    by (simp add: slack_timestamp_def sample_reaction_verifier_def sample_verifier_def)
  ultimately show ?thesis
    by (simp add: parse_reaction_def parsed strings field_of_def sample_reaction_def check_def)
qed

text \<open>The coordinator counts its calls and is down.\<close>

definition sample_coordinator :: "(nat, unit) coordinator" where
  "sample_coordinator p user channel ref n = (Inl (NotFound []), Suc n)"

definition sample_reaction_world :: "(thread_file \<times> nat) intake_world" where
  "sample_reaction_world = \<lparr>iw_contexts = sample_registry\<lparr>rg_contexts := [(''live-ws'', sample_listening)]\<rparr>,
     iw_deliveries = No_Store, iw_rest = (sample_threads, 0)\<rparr>"

lemma sample_reaction_acts:
  assumes "intake_slack_reaction (Some sample_reaction_verifier) sample_coordinator now ''ws'' ''signed'' sample_headers
      sample_reaction_world = (r, w)"
  shows "r = Inl (NotFound []) \<and> iw_rest w = (sample_threads, 1)"
proof -
  let ?w = sample_reaction_world
  let ?st = "context_state sample_listening"
  have "cs_slack ?st = Some sample_slack_binding"
    by (simp add: context_state_def Let_def sample_listening_def)
  moreover have "bound_reaction ''ws'' sample_reaction (Some sample_slack_binding) = Inr sample_slack_binding"
    by (simp add: bound_reaction_def sample_slack_binding_def sample_reaction_def)
  moreover have "on_contexts (read_state ''live-ws'') ?w = (Inr ?st, ?w)"
    by (simp add: on_contexts_def read_state_def access_def sample_reaction_world_def)
  ultimately have one: "identify_reaction (Some sample_reaction_verifier) ''ws'' ''signed'' sample_headers ?w
      = (Inr (sample_reaction, sample_slack_binding), ?w)"
    by (simp add: identify_reaction_def sample_reaction_parsed bind_op_def except_class_def)
  define k where "k = \<lparr>dk_workspace = ''ws'', dk_connection = ''C'', dk_trigger = REACTION_ADDED_SLUG, dk_event = ''e1''\<rparr>"
  define w1 where "w1 = ?w\<lparr>iw_deliveries := Document [fresh_delivery now k]\<rparr>"
  have "strip ''ws'' = ''ws''" "strip ''C'' = ''C''" "strip REACTION_ADDED_SLUG = REACTION_ADDED_SLUG" "strip ''e1'' = ''e1''"
    by code_simp+
  then have key: "delivery_key_for ''ws'' (sr_connection sample_reaction) REACTION_ADDED_SLUG (sr_event sample_reaction) = Inr k"
    by (simp add: delivery_key_for_def Let_def sample_reaction_def k_def bounded_def check_def REACTION_ADDED_SLUG_def)
  have "has_webhook_delivery_id sample_headers" using parse_reaction_present [OF sample_reaction_parsed] by simp
  moreover have "iw_deliveries ?w = No_Store" by (simp add: sample_reaction_world_def)
  ultimately have two: "process_slack_reaction (Some sample_reaction_verifier) now ''ws'' ''signed'' sample_headers ?w
      = (Inr (Reaction_Taken sample_reaction sample_slack_binding k), w1)"
    by (simp add: process_slack_reaction_def one key bind_op_def on_deliveries_def reserve_slack_delivery_def slack_reserve_def w1_def)
  have "handle_reaction sample_slack_binding sample_coordinator sample_reaction (sample_threads, 0) = (Inl (NotFound []), (sample_threads, 1))"
    using sample_thread_found
    by (simp add: handle_reaction_def bind_op_def on_store_def on_remote_def sample_coordinator_def) (simp add: sample_reaction_def)
  moreover have "iw_rest w1 = (sample_threads, 0)" by (simp add: w1_def sample_reaction_world_def)
  ultimately have "intake_slack_reaction (Some sample_reaction_verifier) sample_coordinator now ''ws'' ''signed'' sample_headers ?w
      = (Inl (NotFound []), w1\<lparr>iw_rest := (sample_threads, 1)\<rparr>)"
    using two by (simp add: intake_slack_reaction_def bind_op_def on_rest_def)
  then show ?thesis using assms by simp
qed

subsection \<open>A preview\<close>

definition sample_notice :: slack_notification where
  "sample_notice = \<lparr>sn_team = ''tm'', sn_channel = ''ch'', sn_parent = ''0'', sn_pending = sample_shown,
     sn_request = \<lparr>iq_workspace = ''ws'', iq_decision = ''D1'', iq_scopes = {''s''}, iq_path = [], iq_reason = ''changed'',
       iq_instruction = ''stop''\<rparr>, sn_author = ''<!channel>'', sn_excerpt = ''ship'', sn_effective = Aware 1,
     sn_deltas = [\<lparr>rq_scope = ''s'', rq_previous = None, rq_proposed = ''2''\<rparr>], sn_labels = [], sn_refs = []\<rparr>"

definition sample_radius :: blast_radius where
  "sample_radius = \<lparr>br_interrupted = [''A1''], br_preserved = []\<rparr>"

definition sample_post :: thread_message where
  "sample_post = \<lparr>tm_channel = ''ch'', tm_parent = ''0'', tm_decision = ''D1'', tm_mode = Simulated_Slack,
     tm_text = join [CHR 0x0A] (message_lines (\<lambda>_. ''1970'') sample_notice sample_radius Simulated_Slack)\<rparr>"

lemma sample_composed: "compose_slack_thread_message (\<lambda>_. ''1970'') sample_notice sample_radius Simulated_Slack = Inr sample_post"
proof -
  have "drop 1500 (tm_text sample_post) = []" by code_simp
  then have "length (tm_text sample_post) \<le> 1500" by simp
  then show ?thesis
    by (simp add: compose_slack_thread_message_def Let_def sample_post_def) (simp add: sample_notice_def)
qed

definition sample_preview :: "interrupt_request \<Rightarrow> (unit, interrupt_result) op" where
  "sample_preview q = ret_op \<lparr>ix_interrupted = [''A1''], ix_preserved = []\<rparr>"

definition sample_receipt :: delivery_receipt where
  "sample_receipt = \<lparr>sp_channel = ''ch'', sp_parent = ''0'', sp_message = ''9'', sp_mode = Simulated_Slack\<rparr>"

definition sample_sender :: "thread_message \<Rightarrow> (unit, delivery_receipt) op" where
  "sample_sender m = ret_op sample_receipt"

lemma sample_notified:
  "notify_thread sample_preview Simulated_Slack sample_sender (\<lambda>_. ''1970'') sample_notice (No_Threads, ())
    = (Inr (sample_radius, sample_post, sample_receipt), (Threads [\<lparr>th_key = (''tm'', ''ch'', ''9''), th_pending = sample_shown, th_consumed = None\<rparr>], ()))"
proof -
  have "strip ''tm'' = ''tm''" "strip ''ch'' = ''ch''" "strip ''9'' = ''9''" by code_simp+
  then have key: "thread_key_of ''tm'' ''ch'' ''9'' = (''tm'', ''ch'', ''9'')" by (simp add: thread_key_of_def)
  have "json_register (''tm'', ''ch'', ''9'') sample_shown No_Threads
      = (Inr (), Threads [\<lparr>th_key = (''tm'', ''ch'', ''9''), th_pending = sample_shown, th_consumed = None\<rparr>])"
    by (simp add: json_register_def json_key_def blank_key_def thread_record_ok_def bounded_def check_def Let_def bind_op_def)
  moreover have "blast_from_result \<lparr>ix_interrupted = [''A1''], ix_preserved = []\<rparr> = Inr sample_radius"
    by (simp add: blast_from_result_def Let_def sample_radius_def check_def)
  moreover have "sn_pending sample_notice = sample_shown" "sn_team sample_notice = ''tm''" by (simp_all add: sample_notice_def)
  moreover have "tm_mode sample_post = Simulated_Slack" "tm_channel sample_post = ''ch''" "tm_parent sample_post = ''0''"
    by (simp_all add: sample_post_def)
  moreover have "sp_mode sample_receipt = Simulated_Slack" "sp_channel sample_receipt = ''ch''" "sp_parent sample_receipt = ''0''"
      "sp_message sample_receipt = ''9''"
    by (simp_all add: sample_receipt_def)
  ultimately show ?thesis
    by (simp add: notify_thread_def bind_op_def on_remote_def on_store_def sample_preview_def sample_composed sample_sender_def key)
qed

subsection \<open>The two services\<close>

definition sample_desk :: "(live_record list table, unit remote) services" where
  "sample_desk = \<lparr>sv_get = sql_get sample_texts, sv_list = \<lambda>_. Inr [], sv_create = sql_create sample_texts,
     sv_mutate = sql_mutate sample_texts, sv_transport = http_transport sample_codec 0 [] sample_site (\<lambda>_. raise_op (NotFound [])),
     sv_runtime = sample_claude, sv_platform = sample_platform\<rparr>"

definition sample_ports :: "((live_record list table \<times> unit remote) \<times> nat) approval_ports" where
  "sample_ports = agent_ports sample_desk (\<lambda>_. id) id (Aware 9) (\<lambda>t h. (Inr ''alice'', h)) (\<lambda>_. Inr sample_asked) ''team'' (\<lambda>_ _ h. h)"

definition sample_agent_call :: agent_call where
  "sample_agent_call = \<lparr>ac_supplied = internal_service_token sample_platform ''grant'', ac_now = Aware 8, ac_used = Aware 9,
     ac_available = True\<rparr>"

end
