(* ===== verification/Permissions.thy ===== *)
theory Permissions
  imports Approval_Links
begin

text \<open>
  What the identity service says (\<^verbatim>\<open>auth/hexclave.py\<close>): the reading of a permission and of an identity, the
  checker with its cache, and the webhook that empties the caches of both services when an authority changed
  (\<^verbatim>\<open>auth/hexclave_webhooks.py\<close>, \<^verbatim>\<open>services/authority_api.py\<close>, \<^verbatim>\<open>services/agent_api.py\<close>).
\<close>

subsection \<open>Answers of the service\<close>

record permission_request =
  tp_project :: string
  tp_team :: string
  tp_user :: string
  tp_permission :: string
  tp_recursive :: bool

definition permission_error :: "string \<Rightarrow> py_error" where
  "permission_error = Raised ''HexclavePermissionError''"

definition permission_configuration :: "string \<Rightarrow> py_error" where
  "permission_configuration = Raised ''HexclaveConfigurationError''"

definition required_value :: "string \<Rightarrow> string option \<Rightarrow> string result" where
  "required_value label v = (case v of
     None \<Rightarrow> Inl (permission_configuration (''The Hexclave '' @ label @ '' is missing.''))
   | Some s \<Rightarrow> if strip s = [] then Inl (permission_configuration (''The Hexclave '' @ label @ '' is missing.''))
       else Inr (strip s))"

text \<open>One page that says it is the last, and says nothing else.\<close>

definition single_page :: "attributes \<Rightarrow> bool" where
  "single_page d \<longleftrightarrow> fst ` set d \<subseteq> {''items'', ''pagination'', ''is_paginated''}
     \<and> (case dict_get d ''is_paginated'' of None \<Rightarrow> True | Some v \<Rightarrow> v = PBool False)
     \<and> (case dict_get d ''pagination'' of
          None \<Rightarrow> True
        | Some PNone \<Rightarrow> True
        | Some (PDict p) \<Rightarrow> fst ` set p \<subseteq> {''next_cursor''} \<and> (case dict_get p ''next_cursor'' of None \<Rightarrow> True | Some v \<Rightarrow> v = PNone)
        | Some _ \<Rightarrow> False)"

definition names_request :: "permission_request \<Rightarrow> pyval \<Rightarrow> bool" where
  "names_request r item \<longleftrightarrow> (case item of
     PDict d \<Rightarrow> string_at d ''id'' = Some (tp_permission r) \<and> string_at d ''user_id'' = Some (tp_user r)
       \<and> string_at d ''team_id'' = Some (tp_team r)
   | _ \<Rightarrow> False)"

definition permission_value :: "pyval \<Rightarrow> permission_request \<Rightarrow> bool option" where
  "permission_value payload r = (case payload of
     PDict d \<Rightarrow> if \<not> single_page d then None else (case dict_get d ''items'' of
         Some (PList []) \<Rightarrow> Some False
       | Some (PList [item]) \<Rightarrow> if names_request r item then Some True else None
       | _ \<Rightarrow> None)
   | _ \<Rightarrow> None)"

text \<open>The HTTP client is a parameter: what it makes of a request, or None where it raises.\<close>

type_synonym ('q, 'h) client = "'q \<Rightarrow> 'h \<Rightarrow> pyval option \<times> 'h"

definition get_team_permission :: "(permission_request, 'h) client \<Rightarrow> permission_request \<Rightarrow> ('h, bool) op" where
  "get_team_permission http r h = (case http r h of
     (None, h') \<Rightarrow> (Inl (permission_error ''Hexclave permission lookup failed.''), h')
   | (Some payload, h') \<Rightarrow> (case permission_value payload r of
       None \<Rightarrow> (Inl (permission_error ''Hexclave returned an invalid permission response.''), h')
     | Some allowed \<Rightarrow> (Inr allowed, h')))"

lemma permission_value_True:
  "permission_value payload r = Some True \<longleftrightarrow> (\<exists>d item. payload = PDict d \<and> single_page d
     \<and> dict_get d ''items'' = Some (PList [item]) \<and> names_request r item)"
  by (auto simp: permission_value_def split: pyval.splits option.splits list.splits if_splits)

lemma permission_value_False:
  "permission_value payload r = Some False \<longleftrightarrow> (\<exists>d. payload = PDict d \<and> single_page d \<and> dict_get d ''items'' = Some (PList []))"
  by (auto simp: permission_value_def split: pyval.splits option.splits list.splits if_splits)

subsection \<open>Who somebody is\<close>

definition invalid_identity :: py_error where
  "invalid_identity = permission_error ''Hexclave returned an invalid approval identity.''"

definition api_key_identity :: "pyval \<Rightarrow> string result" where
  "api_key_identity payload = (case payload of
     PDict d \<Rightarrow> (case string_at d ''user_id'' of
         None \<Rightarrow> Inl invalid_identity
       | Some u \<Rightarrow> if strip u = [] \<or> string_at d ''type'' \<noteq> Some ''user'' \<or> dict_get d ''is_public'' \<noteq> Some (PBool False)
           then Inl invalid_identity else Inr (strip u))
   | _ \<Rightarrow> Inl invalid_identity)"

text \<open>\<open>a or b\<close> takes \<open>b\<close> where \<open>a\<close> is empty, zero, false or not there.\<close>

definition py_false :: "pyval option \<Rightarrow> bool" where
  "py_false v \<longleftrightarrow> (case v of
     None \<Rightarrow> True
   | Some PNone \<Rightarrow> True
   | Some (PBool b) \<Rightarrow> \<not> b
   | Some (PInt i) \<Rightarrow> i = 0
   | Some (PFloat q) \<Rightarrow> q = 0
   | Some (PStr s) \<Rightarrow> s = []
   | Some (PList l) \<Rightarrow> l = []
   | Some (PSet l) \<Rightarrow> l = []
   | Some (PDict d) \<Rightarrow> d = [])"

definition access_token_identity :: "pyval \<Rightarrow> string result" where
  "access_token_identity payload = (case payload of
     PDict d \<Rightarrow> (case (if py_false (dict_get d ''id'') then dict_get d ''user_id'' else dict_get d ''id'') of
         Some (PStr u) \<Rightarrow> if strip u = [] then Inl invalid_identity
           else if dict_get d ''is_anonymous'' = Some (PBool True) then
             Inl (permission_error ''An anonymous Hexclave session cannot approve.'')
           else Inr (strip u)
       | _ \<Rightarrow> Inl invalid_identity)
   | _ \<Rightarrow> Inl invalid_identity)"

type_synonym 'h identity_resolver = "string \<Rightarrow> ('h, string) op"

definition resolve_identity ::
  "string \<Rightarrow> (pyval \<Rightarrow> string result) \<Rightarrow> (string, 'h) client \<Rightarrow> 'h identity_resolver"
where
  "resolve_identity label identity http token =
     bind_op (read_op (\<lambda>_. required_value label (Some token))) (\<lambda>t h. case http t h of
       (None, h') \<Rightarrow> (Inl (permission_error ''Hexclave approval authentication failed.''), h')
     | (Some payload, h') \<Rightarrow> (identity payload, h'))"

definition resolve_api_key :: "(string, 'h) client \<Rightarrow> 'h identity_resolver" where
  "resolve_api_key = resolve_identity ''user API key'' api_key_identity"

definition resolve_access_token :: "(string, 'h) client \<Rightarrow> 'h identity_resolver" where
  "resolve_access_token = resolve_identity ''access token'' access_token_identity"

text \<open>Both classes of error are permission errors; any other ends the search.\<close>

definition refused_identity :: "py_error \<Rightarrow> bool" where
  "refused_identity e \<longleftrightarrow> (case e of Raised cls m \<Rightarrow> cls \<in> {''HexclavePermissionError'', ''HexclaveConfigurationError''} | _ \<Rightarrow> False)"

fun resolve_chained :: "'h identity_resolver list \<Rightarrow> 'h identity_resolver" where
  "resolve_chained [] token h = (Inl (permission_error ''Hexclave approval authentication failed.''), h)"
| "resolve_chained (R # Rs) token h = (case R token h of
     (Inr user, h') \<Rightarrow> (Inr user, h')
   | (Inl e, h') \<Rightarrow> if refused_identity e then resolve_chained Rs token h' else (Inl e, h'))"

lemma resolve_chained_Inr:
  "resolve_chained Rs token h = (Inr user, h') \<Longrightarrow> \<exists>R\<in>set Rs. \<exists>h0. R token h0 = (Inr user, h')"
  by (induction Rs arbitrary: h) (auto split: prod.splits sum.splits if_splits)

text \<open>A resolved user is the one the service named for this credential, and no anonymous or public one.\<close>

definition identified :: "(pyval \<Rightarrow> string result) \<Rightarrow> (string, 'h) client \<Rightarrow> string \<Rightarrow> string \<Rightarrow> 'h \<Rightarrow> bool" where
  "identified identity http token user h' \<longleftrightarrow> (\<exists>h payload. http (strip token) h = (Some payload, h') \<and> identity payload = Inr user
     \<and> strip token \<noteq> [])"

lemma resolve_identity_Inr:
  assumes "resolve_identity label identity http token h = (Inr user, h')" shows "identified identity http token user h'"
  using assms by (auto simp: resolve_identity_def bind_op_def required_value_def identified_def split: if_splits prod.splits option.splits)

lemma api_key_identity_Inr:
  "api_key_identity payload = Inr user \<longleftrightarrow> (\<exists>d u. payload = PDict d \<and> dict_get d ''user_id'' = Some (PStr u) \<and> user = strip u \<and> user \<noteq> []
     \<and> dict_get d ''type'' = Some (PStr ''user'') \<and> dict_get d ''is_public'' = Some (PBool False))"
  by (auto simp: api_key_identity_def string_at_def split: pyval.splits option.splits if_splits)

lemma access_token_identity_Inr:
  "access_token_identity payload = Inr user \<Longrightarrow> \<exists>d u. payload = PDict d \<and> user = strip u \<and> user \<noteq> []
     \<and> (dict_get d ''id'' = Some (PStr u) \<or> py_false (dict_get d ''id'') \<and> dict_get d ''user_id'' = Some (PStr u))
     \<and> dict_get d ''is_anonymous'' \<noteq> Some (PBool True)"
  by (auto simp: access_token_identity_def split: pyval.splits option.splits if_splits)

lemma chained_identity:
  assumes "resolve_chained [resolve_access_token h1, resolve_api_key h2] token h = (Inr user, h')"
  shows "identified access_token_identity h1 token user h' \<or> identified api_key_identity h2 token user h'"
  using resolve_chained_Inr [OF assms] resolve_identity_Inr
  by (fastforce simp: resolve_access_token_def resolve_api_key_def)

subsection \<open>The checker and its cache\<close>

record checker_config =
  pc_project :: string
  pc_secret :: string
  pc_team :: string
  pc_ttl :: rat
  pc_timeout :: rat

text \<open>A number that is not finite is None.\<close>

definition positive_value :: "string \<Rightarrow> rat option \<Rightarrow> rat result" where
  "positive_value label v = (case v of
     None \<Rightarrow> Inl (permission_configuration (''The Hexclave '' @ label @ '' must be greater than zero.''))
   | Some q \<Rightarrow> if q \<le> 0 then Inl (permission_configuration (''The Hexclave '' @ label @ '' must be greater than zero.'')) else Inr q)"

definition make_checker ::
  "string option \<Rightarrow> string option \<Rightarrow> string option \<Rightarrow> rat option \<Rightarrow> rat option \<Rightarrow> checker_config result"
where
  "make_checker project secret team ttl timeout =
     bind_r (required_value ''project ID'' project) (\<lambda>p.
     bind_r (required_value ''secret server key'' secret) (\<lambda>s.
     bind_r (required_value ''team ID'' team) (\<lambda>t.
     bind_r (positive_value ''permission cache TTL'' ttl) (\<lambda>c.
     bind_r (positive_value ''request timeout'' timeout) (\<lambda>r.
     Inr \<lparr>pc_project = p, pc_secret = s, pc_team = t, pc_ttl = c, pc_timeout = r\<rparr>)))))"

record cache_entry =
  ce_allowed :: bool
  ce_expires :: rat

type_synonym permission_cache = "string \<times> string \<rightharpoonup> cache_entry"

definition request_of :: "checker_config \<Rightarrow> string \<Rightarrow> string \<Rightarrow> permission_request" where
  "request_of K user permission = \<lparr>tp_project = pc_project K, tp_team = pc_team K, tp_user = user, tp_permission = permission,
     tp_recursive = True\<rparr>"

text \<open>The checker holds its lock over the request, so that a question is one step. The clock is an argument.\<close>

definition cached_answer :: "permission_cache \<Rightarrow> rat \<Rightarrow> string \<times> string \<Rightarrow> bool option" where
  "cached_answer c now k = (case c k of None \<Rightarrow> None | Some e \<Rightarrow> if now < ce_expires e then Some (ce_allowed e) else None)"

definition has_permission ::
  "checker_config \<Rightarrow> (permission_request, 'h) client \<Rightarrow> rat \<Rightarrow> string \<Rightarrow> string \<Rightarrow> (permission_cache \<times> 'h, bool) op"
where
  "has_permission K http now user permission =
     bind_op (read_op (\<lambda>_. required_value ''user ID'' (Some user))) (\<lambda>u.
     bind_op (read_op (\<lambda>_. required_value ''permission ID'' (Some permission))) (\<lambda>p (c, h).
       case cached_answer c now (u, p) of
         Some allowed \<Rightarrow> (Inr allowed, c, h)
       | None \<Rightarrow> (case get_team_permission http (request_of K u p) h of
           (Inl e, h') \<Rightarrow> (Inl e, c, h')
         | (Inr allowed, h') \<Rightarrow> (Inr allowed, c((u, p) \<mapsto> \<lparr>ce_allowed = allowed, ce_expires = now + pc_ttl K\<rparr>), h'))))"

text \<open>A process keeps a checker for each team (and each setting, which a process does not change).\<close>

record hexclave_settings =
  hx_api_url :: string
  hx_project :: string
  hx_secret :: string
  hx_ttl :: "rat option"

record checker_key =
  ck_api_url :: string
  ck_project :: string
  ck_secret :: string
  ck_ttl :: "rat option"
  ck_team :: string

type_synonym checkers = "(checker_key \<times> checker_config \<times> permission_cache) list"

definition key_of :: "platform \<Rightarrow> hexclave_settings \<Rightarrow> string \<Rightarrow> checker_key" where
  "key_of P X team = \<lparr>ck_api_url = hx_api_url X, ck_project = hx_project X, ck_secret = sha256_hex P (hx_secret X), ck_ttl = hx_ttl X,
     ck_team = team\<rparr>"

definition checker_for ::
  "platform \<Rightarrow> hexclave_settings \<Rightarrow> string \<Rightarrow> checkers \<Rightarrow> (checker_config \<times> permission_cache) result"
where
  "checker_for P X team cs = (case map_of cs (key_of P X team) of
     Some kc \<Rightarrow> Inr kc
   | None \<Rightarrow> map_sum id (\<lambda>K. (K, Map.empty))
       (make_checker (Some (hx_project X)) (Some (hx_secret X)) (Some team) (hx_ttl X) (Some 5)))"

definition put_checker :: "checker_key \<Rightarrow> checker_config \<times> permission_cache \<Rightarrow> checkers \<Rightarrow> checkers" where
  "put_checker k v cs = (if map_of cs k = None then cs @ [(k, v)] else map (\<lambda>(j, u). if j = k then (j, v) else (j, u)) cs)"

definition team_permission ::
  "platform \<Rightarrow> hexclave_settings \<Rightarrow> (permission_request, 'h) client \<Rightarrow> rat \<Rightarrow> string \<Rightarrow> string \<Rightarrow> string \<Rightarrow> (checkers \<times> 'h, bool) op"
where
  "team_permission P X http now team user permission = (\<lambda>(cs, h).
     case checker_for P X team cs of
       Inl e \<Rightarrow> (Inl e, cs, h)
     | Inr (K, c) \<Rightarrow> (case has_permission K http now user permission (c, h) of
         (r, c', h') \<Rightarrow> (r, put_checker (key_of P X team) (K, c') cs, h')))"

definition clear_permission_caches :: "checkers \<Rightarrow> nat \<times> checkers" where
  "clear_permission_caches cs = (length cs, map (\<lambda>(k, K, c). (k, K, Map.empty)) cs)"

text \<open>As the coordinators use it: an error of the checker is no answer.\<close>

definition live_checker ::
  "platform \<Rightarrow> hexclave_settings \<Rightarrow> (permission_request, 'h) client \<Rightarrow> rat \<Rightarrow> string \<Rightarrow> (checkers \<times> 'h) checker"
where
  "live_checker P X http now team user permission x = (case team_permission P X http now team user permission x of
     (Inr allowed, y) \<Rightarrow> (Some allowed, y) | (Inl e, y) \<Rightarrow> (None, y))"

subsection \<open>A cached answer is a recent one\<close>

text \<open>A log of what was asked, newest first: what the service said to a question, if it was put to it, and what was told.\<close>

record permission_line =
  pl_at :: rat
  pl_team :: string
  pl_user :: string
  pl_permission :: string
  pl_said :: "bool option"
  pl_told :: "bool option"

datatype permission_event = Ask rat string string string | Clear_All

datatype permission_entry = Line permission_line | Cleared

definition service_said ::
  "platform \<Rightarrow> hexclave_settings \<Rightarrow> (permission_request, 'h) client \<Rightarrow> rat \<Rightarrow> string \<Rightarrow> string \<Rightarrow> string \<Rightarrow> checkers \<times> 'h \<Rightarrow> bool option"
where
  "service_said P X http now team user permission x = (case checker_for P X team (fst x) of
     Inl e \<Rightarrow> None
   | Inr (K, c) \<Rightarrow> if strip user = [] \<or> strip permission = [] \<or> cached_answer c now (strip user, strip permission) \<noteq> None then None
       else (case fst (get_team_permission http (request_of K (strip user) (strip permission)) (snd x)) of
         Inl e \<Rightarrow> None | Inr allowed \<Rightarrow> Some allowed))"

definition told :: "bool result \<Rightarrow> bool option" where
  "told r = (case r of Inl e \<Rightarrow> None | Inr b \<Rightarrow> Some b)"

fun permission_log ::
  "platform \<Rightarrow> hexclave_settings \<Rightarrow> (permission_request, 'h) client \<Rightarrow> permission_event list \<Rightarrow> permission_entry list \<Rightarrow> checkers \<times> 'h
    \<Rightarrow> permission_entry list \<times> (checkers \<times> 'h)"
where
  "permission_log P X http [] past x = (past, x)"
| "permission_log P X http (Clear_All # es) past x =
     permission_log P X http es (Cleared # past) (snd (clear_permission_caches (fst x)), snd x)"
| "permission_log P X http (Ask now team user permission # es) past x =
     (case team_permission P X http now team user permission x of (r, y) \<Rightarrow>
       permission_log P X http es (Line \<lparr>pl_at = now, pl_team = team, pl_user = strip user, pl_permission = strip permission,
         pl_said = service_said P X http now team user permission x, pl_told = told r\<rparr> # past) y)"

fun since_clear :: "permission_entry list \<Rightarrow> permission_line list" where
  "since_clear [] = []"
| "since_clear (Cleared # es) = []"
| "since_clear (Line l # es) = l # since_clear es"

text \<open>The service said it, to this very question, less than the lifetime ago and after the caches were last cleared.\<close>

definition vouched :: "rat \<Rightarrow> permission_line list \<Rightarrow> rat \<Rightarrow> string \<Rightarrow> string \<Rightarrow> string \<Rightarrow> bool \<Rightarrow> bool" where
  "vouched ttl ls now team user permission allowed \<longleftrightarrow> (\<exists>l\<in>set ls. pl_team l = team \<and> pl_user l = user \<and> pl_permission l = permission
     \<and> pl_said l = Some allowed \<and> now < pl_at l + ttl)"

fun log_vouched :: "rat \<Rightarrow> permission_entry list \<Rightarrow> bool" where
  "log_vouched ttl [] \<longleftrightarrow> True"
| "log_vouched ttl (Cleared # es) \<longleftrightarrow> log_vouched ttl es"
| "log_vouched ttl (Line l # es) \<longleftrightarrow> log_vouched ttl es \<and> (case pl_told l of None \<Rightarrow> True | Some allowed \<Rightarrow>
     pl_said l = Some allowed \<or> vouched ttl (since_clear es) (pl_at l) (pl_team l) (pl_user l) (pl_permission l) allowed)"

definition lifetime :: "hexclave_settings \<Rightarrow> rat" where
  "lifetime X = (case hx_ttl X of None \<Rightarrow> 0 | Some q \<Rightarrow> q)"

definition entry_vouched :: "rat \<Rightarrow> permission_line list \<Rightarrow> string \<Rightarrow> string \<times> string \<Rightarrow> cache_entry \<Rightarrow> bool" where
  "entry_vouched ttl ls team k e \<longleftrightarrow> (\<exists>l\<in>set ls. pl_team l = team \<and> pl_user l = fst k \<and> pl_permission l = snd k
     \<and> pl_said l = Some (ce_allowed e) \<and> ce_expires e = pl_at l + ttl)"

definition caches_vouched :: "platform \<Rightarrow> hexclave_settings \<Rightarrow> permission_line list \<Rightarrow> checkers \<Rightarrow> bool" where
  "caches_vouched P X ls cs \<longleftrightarrow> (\<forall>team K c. map_of cs (key_of P X team) = Some (K, c) \<longrightarrow>
     pc_ttl K = lifetime X \<and> (\<forall>k e. c k = Some e \<longrightarrow> entry_vouched (lifetime X) ls team k e))"

lemma entry_vouched_more: "entry_vouched ttl ls team k e \<Longrightarrow> entry_vouched ttl (l # ls) team k e"
  by (auto simp: entry_vouched_def)

lemma key_of_team: "key_of P X team = key_of P X team' \<longleftrightarrow> team = team'"
  by (simp add: key_of_def)

lemma map_of_put: "map_of (put_checker k v cs) j = (if j = k then Some v else map_of cs j)"
proof (cases "map_of cs k")
  case None
  then show ?thesis by (auto simp: put_checker_def map_add_def split: option.split)
next
  case (Some u)
  have "map_of (map (\<lambda>(j, u). if j = k then (j, v) else (j, u)) cs) j = (if j = k \<and> map_of cs k \<noteq> None then Some v else map_of cs j)"
    by (induction cs) auto
  then show ?thesis using Some by (simp add: put_checker_def)
qed

lemma make_checker_ttl: "make_checker project secret team ttl timeout = Inr K \<Longrightarrow> ttl = Some (pc_ttl K)"
  by (cases ttl) (auto simp: make_checker_def positive_value_def split: if_splits)

lemma checker_for_cases:
  assumes "checker_for P X team cs = Inr (K, c)"
  shows "map_of cs (key_of P X team) = Some (K, c) \<or> (c = Map.empty
    \<and> make_checker (Some (hx_project X)) (Some (hx_secret X)) (Some team) (hx_ttl X) (Some 5) = Inr K)"
  using assms by (cases "make_checker (Some (hx_project X)) (Some (hx_secret X)) (Some team) (hx_ttl X) (Some 5)")
    (auto simp: checker_for_def split: option.splits)

lemma checker_for_ttl:
  assumes "caches_vouched P X ls cs" and "checker_for P X team cs = Inr (K, c)"
  shows "pc_ttl K = lifetime X \<and> (\<forall>k e. c k = Some e \<longrightarrow> entry_vouched (lifetime X) ls team k e)"
  using checker_for_cases [OF assms(2)]
proof
  assume "map_of cs (key_of P X team) = Some (K, c)"
  then show ?thesis using assms(1) by (simp add: caches_vouched_def)
next
  assume new: "c = Map.empty \<and> make_checker (Some (hx_project X)) (Some (hx_secret X)) (Some team) (hx_ttl X) (Some 5) = Inr K"
  then have "hx_ttl X = Some (pc_ttl K)" using make_checker_ttl by blast
  then show ?thesis using new by (simp add: lifetime_def)
qed

lemma has_permission_vouched:
  assumes run: "has_permission K http now user permission (c, h) = (r, c', h')"
    and c: "\<forall>k e. c k = Some e \<longrightarrow> entry_vouched (pc_ttl K) ls team k e"
    and l: "l = \<lparr>pl_at = now, pl_team = team, pl_user = strip user, pl_permission = strip permission, pl_said = said, pl_told = told r\<rparr>"
    and said: "said = (if strip user = [] \<or> strip permission = [] \<or> cached_answer c now (strip user, strip permission) \<noteq> None then None
       else told (fst (get_team_permission http (request_of K (strip user) (strip permission)) h)))"
  shows "(\<forall>k e. c' k = Some e \<longrightarrow> entry_vouched (pc_ttl K) (l # ls) team k e)
    \<and> (\<forall>allowed. told r = Some allowed \<longrightarrow> said = Some allowed \<or> vouched (pc_ttl K) ls now team (strip user) (strip permission) allowed)"
proof (cases "strip user = [] \<or> strip permission = []")
  case True
  then have "c' = c \<and> told r = None" using run
    by (cases "strip user = []") (auto simp: has_permission_def bind_op_def required_value_def told_def)
  then show ?thesis using c entry_vouched_more by auto
next
  case False
  show ?thesis
  proof (cases "cached_answer c now (strip user, strip permission)")
    case (Some allowed)
    then obtain e where e: "c (strip user, strip permission) = Some e" "now < ce_expires e" "allowed = ce_allowed e"
      by (auto simp: cached_answer_def split: option.splits if_splits)
    then have "vouched (pc_ttl K) ls now team (strip user) (strip permission) allowed"
      using c by (fastforce simp: entry_vouched_def vouched_def)
    moreover have "c' = c \<and> told r = Some allowed"
      using run False Some by (auto simp: has_permission_def bind_op_def required_value_def told_def)
    ultimately show ?thesis using c entry_vouched_more by auto
  next
    case None
    obtain a h1 where a: "get_team_permission http (request_of K (strip user) (strip permission)) h = (a, h1)" by (rule prod.exhaust)
    show ?thesis
    proof (cases a)
      case (Inl e)
      then have "c' = c \<and> told r = None"
        using run False None a by (auto simp: has_permission_def bind_op_def required_value_def told_def)
      then show ?thesis using c entry_vouched_more by auto
    next
      case (Inr b)
      then have "c' = c((strip user, strip permission) \<mapsto> \<lparr>ce_allowed = b, ce_expires = now + pc_ttl K\<rparr>)" "r = Inr b" "said = Some b"
        using run False None a said by (auto simp: has_permission_def bind_op_def required_value_def told_def)
      then show ?thesis using c l by (auto simp: entry_vouched_def told_def)
    qed
  qed
qed

lemma map_of_cleared:
  "map_of (snd (clear_permission_caches cs)) k = map_option (\<lambda>(K, c). (K, Map.empty)) (map_of cs k)"
  by (induction cs) (auto simp: clear_permission_caches_def)

lemma clear_vouched: "caches_vouched P X ls cs \<Longrightarrow> caches_vouched P X [] (snd (clear_permission_caches cs))"
  by (auto simp: caches_vouched_def map_of_cleared)

lemma ask_vouched:
  assumes run: "team_permission P X http now team user permission x = (r, y)" and cs: "caches_vouched P X ls (fst x)"
    and l: "l = \<lparr>pl_at = now, pl_team = team, pl_user = strip user, pl_permission = strip permission,
        pl_said = service_said P X http now team user permission x, pl_told = told r\<rparr>"
  shows "caches_vouched P X (l # ls) (fst y)
    \<and> (\<forall>allowed. told r = Some allowed \<longrightarrow> pl_said l = Some allowed \<or> vouched (lifetime X) ls now team (strip user) (strip permission) allowed)"
proof -
  obtain c0 h where x: "x = (c0, h)" by (rule prod.exhaust)
  show ?thesis
  proof (cases "checker_for P X team c0")
    case (Inl e)
    then have "y = x" "told r = None" using run x by (auto simp: team_permission_def told_def)
    then show ?thesis using cs entry_vouched_more by (fastforce simp: caches_vouched_def)
  next
    case (Inr kc)
    obtain K c where kc: "kc = (K, c)" by (rule prod.exhaust)
    obtain r' c' h' where perm: "has_permission K http now user permission (c, h) = (r', c', h')" by (rule prod_cases3)
    have y: "r' = r" "fst y = put_checker (key_of P X team) (K, c') c0"
      using run x Inr kc perm by (auto simp: team_permission_def)
    have K: "pc_ttl K = lifetime X" "\<forall>k e. c k = Some e \<longrightarrow> entry_vouched (pc_ttl K) ls team k e"
      using checker_for_ttl [of P X ls c0 team K c] cs x Inr kc by auto
    have said: "service_said P X http now team user permission x
        = (if strip user = [] \<or> strip permission = [] \<or> cached_answer c now (strip user, strip permission) \<noteq> None then None
           else told (fst (get_team_permission http (request_of K (strip user) (strip permission)) h)))"
      by (simp add: service_said_def x Inr kc told_def)
    note step = has_permission_vouched [OF perm K(2) _ said, of l]
    have "caches_vouched P X (l # ls) (fst y)"
      using step cs K(1) entry_vouched_more l y
      by (fastforce simp: caches_vouched_def map_of_put key_of_team x split: if_splits)
    then show ?thesis using step l y K(1) by simp
  qed
qed

lemma permission_log_vouched:
  "log_vouched (lifetime X) past \<Longrightarrow> caches_vouched P X (since_clear past) (fst x) \<Longrightarrow>
     log_vouched (lifetime X) (fst (permission_log P X http es past x))"
proof (induction es arbitrary: past x)
  case (Cons e es)
  show ?case
  proof (cases e)
    case Clear_All
    then show ?thesis using Cons.IH [of "Cleared # past"] Cons.prems clear_vouched by (cases x) simp
  next
    case (Ask now team user permission)
    obtain r y where run: "team_permission P X http now team user permission x = (r, y)" by (rule prod.exhaust)
    let ?l = "\<lparr>pl_at = now, pl_team = team, pl_user = strip user, pl_permission = strip permission,
        pl_said = service_said P X http now team user permission x, pl_told = told r\<rparr>"
    note step = ask_vouched [OF run Cons.prems(2), of ?l]
    have "log_vouched (lifetime X) (Line ?l # past)" using step Cons.prems(1) by (simp split: option.split)
    then show ?thesis using Cons.IH [of "Line ?l # past" y] step run Ask by simp
  qed
qed simp

lemma cached_answers_recent: "log_vouched (lifetime X) (fst (permission_log P X http es [] ([], h)))"
  by (rule permission_log_vouched) (simp_all add: caches_vouched_def)

subsection \<open>Webhooks\<close>

text \<open>The signature library and the reading of a timestamp are parameters; None is where they raise.\<close>

record webhook_verifier =
  wv_verify :: "string \<Rightarrow> string dict \<Rightarrow> pyval option"
  wv_time :: "string \<Rightarrow> datetime option"

definition webhook_unverified :: py_error where
  "webhook_unverified = Raised ''HexclaveWebhookVerificationError'' ''Hexclave webhook signature verification failed.''"

definition webhook_payload :: "string \<Rightarrow> py_error" where
  "webhook_payload = Raised ''HexclaveWebhookPayloadError''"

definition SUPPORTED_EVENTS :: "string list" where
  "SUPPORTED_EVENTS = [''team_permission.created'', ''team_permission.deleted'', ''team_membership.created'',
     ''team_membership.deleted'']"

definition header_value :: "string \<Rightarrow> string \<Rightarrow> string \<times> pyval \<Rightarrow> string option" where
  "header_value canonical legacy e = (case e of
     (k, PStr v) \<Rightarrow> if casefold k \<in> {casefold canonical, casefold legacy} \<and> strip v \<noteq> [] then Some (strip v) else None
   | _ \<Rightarrow> None)"

definition one_header :: "attributes \<Rightarrow> string \<Rightarrow> string \<Rightarrow> string result" where
  "one_header headers canonical legacy = (case List.map_filter (header_value canonical legacy) headers of
     [] \<Rightarrow> Inl webhook_unverified
   | v # vs \<Rightarrow> if list_all (\<lambda>u. u = v) vs then Inr v else Inl webhook_unverified)"

definition verification_headers :: "attributes \<Rightarrow> string dict" where
  "verification_headers headers = dict_of (List.map_filter (\<lambda>(k, v). case v of PStr s \<Rightarrow> Some (k, s) | _ \<Rightarrow> None) headers)"

definition webhook_envelope :: "pyval \<Rightarrow> (string \<times> attributes) result" where
  "webhook_envelope payload = (case payload of
     PDict d \<Rightarrow> (case (dict_get d ''type'', dict_get d ''data'') of
         (Some (PStr t), Some (PDict data)) \<Rightarrow> if fst ` set d \<subseteq> {''type'', ''data''} \<and> bounded 1 255 t then Inr (t, data)
           else Inl (webhook_payload ''Hexclave returned an invalid webhook payload.'')
       | _ \<Rightarrow> Inl (webhook_payload ''Hexclave returned an invalid webhook payload.''))
   | _ \<Rightarrow> Inl (webhook_payload ''Hexclave returned an invalid webhook payload.''))"

definition required_identifier :: "attributes \<Rightarrow> string \<Rightarrow> string result" where
  "required_identifier data name = (case string_at data name of
     None \<Rightarrow> Inl (webhook_payload ''Hexclave returned an invalid authority-change payload.'')
   | Some v \<Rightarrow> if strip v = [] then Inl (webhook_payload ''Hexclave returned an invalid authority-change payload.'') else Inr (strip v))"

record authority_event =
  he_delivery :: string
  he_type :: string
  he_at :: datetime
  he_sha :: string
  he_team :: string
  he_user :: string
  he_permission :: "string option"

definition evidence_ref :: "authority_event \<Rightarrow> string" where
  "evidence_ref e = ''hexclave-webhook://'' @ he_delivery e"

definition authority_event_ok :: "authority_event \<Rightarrow> bool" where
  "authority_event_ok e \<longleftrightarrow> bounded 1 255 (he_delivery e) \<and> he_type e \<in> set SUPPORTED_EVENTS \<and> length (he_sha e) = 64
     \<and> list_all is_hex (he_sha e) \<and> bounded 1 255 (he_team e) \<and> bounded 1 255 (he_user e)
     \<and> (case he_permission e of None \<Rightarrow> True | Some p \<Rightarrow> bounded 1 255 p)"

definition make_event :: "authority_event \<Rightarrow> authority_event result" where
  "make_event e = (if authority_event_ok e then Inr e
     else Inl (webhook_payload ''Hexclave returned an invalid authority-change payload.''))"

record webhook_verification =
  vw_delivery :: string
  vw_type :: string
  vw_event :: "authority_event option"

definition verify_webhook :: "platform \<Rightarrow> webhook_verifier \<Rightarrow> string \<Rightarrow> attributes \<Rightarrow> webhook_verification result" where
  "verify_webhook P V body headers =
     (if 65536 < length body then Inl (webhook_payload ''The Hexclave webhook payload is too large.'')
      else bind_r (one_header headers ''svix-id'' ''webhook-id'') (\<lambda>delivery.
      bind_r (one_header headers ''svix-timestamp'' ''webhook-timestamp'') (\<lambda>ts.
      bind_r (one_header headers ''svix-signature'' ''webhook-signature'') (\<lambda>_.
      case wv_verify V body (verification_headers headers) of
        None \<Rightarrow> Inl webhook_unverified
      | Some payload \<Rightarrow> bind_r (webhook_envelope payload) (\<lambda>(t, data).
          if t \<notin> set SUPPORTED_EVENTS then
            bind_r (check (bounded 1 255 delivery) ''String should match its bounds'') (\<lambda>_.
              Inr \<lparr>vw_delivery = delivery, vw_type = t, vw_event = None\<rparr>)
          else (case wv_time V ts of
            None \<Rightarrow> Inl webhook_unverified
          | Some t0 \<Rightarrow>
              bind_r (if starts_with ''team_permission.'' t then map_sum id Some (required_identifier data ''id'') else Inr None) (\<lambda>permission.
              bind_r (required_identifier data ''team_id'') (\<lambda>team.
              bind_r (required_identifier data ''user_id'') (\<lambda>user.
              bind_r (make_event \<lparr>he_delivery = delivery, he_type = t, he_at = t0, he_sha = sha256_hex P body, he_team = team,
                  he_user = user, he_permission = permission\<rparr>) (\<lambda>e.
              Inr \<lparr>vw_delivery = delivery, vw_type = t, vw_event = Some e\<rparr>))))))))))"

subsection \<open>Evidence of handled events\<close>

record evidence_record =
  ev_event :: authority_event
  ev_ref :: string
  ev_received :: datetime
  ev_completed :: bool
  ev_authority :: "nat option"
  ev_agent :: "nat option"

datatype evidence_file = No_Evidence | Unreadable_Evidence | Evidence "evidence_record list"

definition evidence_error :: "string \<Rightarrow> py_error" where
  "evidence_error = Raised ''HexclaveWebhookEvidenceStoreError''"

fun read_evidence :: "evidence_file \<Rightarrow> evidence_record list result" where
  "read_evidence No_Evidence = Inr []"
| "read_evidence Unreadable_Evidence = Inl (evidence_error ''The Hexclave webhook evidence store is unreadable.'')"
| "read_evidence (Evidence rs) = Inr rs"

fun write_evidence :: "ledger_write \<Rightarrow> evidence_record list \<Rightarrow> (evidence_file, unit) op" where
  "write_evidence Written rs f = (Inr (), Evidence rs)"
| "write_evidence Write_Failed rs f = (Inl (evidence_error ''The Hexclave webhook evidence store is unavailable.''), f)"
| "write_evidence Mode_Failed rs f = (Inl (evidence_error ''The Hexclave webhook evidence store is unavailable.''), Evidence rs)"

definition fresh_evidence :: "datetime \<Rightarrow> authority_event \<Rightarrow> evidence_record" where
  "fresh_evidence now e = \<lparr>ev_event = e, ev_ref = evidence_ref e, ev_received = now, ev_completed = False, ev_authority = None,
     ev_agent = None\<rparr>"

text \<open>The answer: whether the event was completed before.\<close>

definition evidence_reserve :: "ledger_write \<Rightarrow> datetime \<Rightarrow> authority_event \<Rightarrow> (evidence_file, bool) op" where
  "evidence_reserve wr now e = bind_op (read_op read_evidence) (\<lambda>rs.
     case List.find (\<lambda>r. he_delivery (ev_event r) = he_delivery e) rs of
       Some r \<Rightarrow> if ev_event r \<noteq> e \<or> ev_ref r \<noteq> evidence_ref e then
           raise_op (evidence_error ''A Hexclave webhook delivery ID was reused.'')
         else ret_op (ev_completed r)
     | None \<Rightarrow> bind_op (write_evidence wr (rs @ [fresh_evidence now e])) (\<lambda>_. ret_op False))"

definition completed_evidence :: "nat \<Rightarrow> nat \<Rightarrow> evidence_record \<Rightarrow> evidence_record" where
  "completed_evidence a b r = r\<lparr>ev_completed := True, ev_authority := Some a, ev_agent := Some b\<rparr>"

definition evidence_complete :: "ledger_write \<Rightarrow> string \<Rightarrow> nat \<Rightarrow> nat \<Rightarrow> (evidence_file, evidence_record) op" where
  "evidence_complete wr delivery a b = bind_op (read_op read_evidence) (\<lambda>rs.
     case find_index (\<lambda>r. he_delivery (ev_event r) = delivery) rs of
       None \<Rightarrow> raise_op (evidence_error ''The Hexclave webhook was not reserved before completion.'')
     | Some i \<Rightarrow> (let r = rs ! i; c = completed_evidence a b r in
         if ev_completed r \<and> r \<noteq> c then raise_op (evidence_error ''Completed Hexclave webhook evidence is immutable.'')
         else bind_op (write_evidence wr (rs[i := c])) (\<lambda>_. ret_op c)))"

definition evidence_get :: "string \<Rightarrow> (evidence_file, evidence_record option) op" where
  "evidence_get delivery = bind_op (read_op read_evidence) (\<lambda>rs.
     ret_op (List.find (\<lambda>r. he_delivery (ev_event r) = delivery) rs))"

subsection \<open>The route of an event\<close>

record webhook_world =
  ww_evidence :: evidence_file
  ww_authority :: checkers
  ww_agent :: checkers

record webhook_call =
  wc_received :: datetime
  wc_reserve :: ledger_write
  wc_fault :: fault
  wc_complete :: ledger_write

definition on_evidence :: "(evidence_file, 'a) op \<Rightarrow> (webhook_world, 'a) op" where
  "on_evidence m w = (case m (ww_evidence w) of (r, f) \<Rightarrow> (r, w\<lparr>ww_evidence := f\<rparr>))"

fun read_chunks :: "string \<Rightarrow> string list \<Rightarrow> string result" where
  "read_chunks body [] = Inr body"
| "read_chunks body (c # cs) = (if 65536 < length body + length c then
     Inl (webhook_payload ''The Hexclave webhook payload is too large.'') else read_chunks (body @ c) cs)"

definition read_webhook_body :: "(string \<Rightarrow> int option) \<Rightarrow> string option \<Rightarrow> string list \<Rightarrow> string result" where
  "read_webhook_body parse_int declared chunks = (case declared of
     None \<Rightarrow> read_chunks [] chunks
   | Some d \<Rightarrow> (case parse_int d of
       None \<Rightarrow> Inl (webhook_payload ''The Hexclave webhook payload length is invalid.'')
     | Some n \<Rightarrow> if n < 0 \<or> 65536 < n then Inl (webhook_payload ''The Hexclave webhook payload is too large.'')
         else read_chunks [] chunks))"

definition clear_authority_caches :: "(webhook_world, nat) op" where
  "clear_authority_caches w = (case clear_permission_caches (ww_authority w) of (n, cs) \<Rightarrow> (Inr n, w\<lparr>ww_authority := cs\<rparr>))"

definition invalidate_endpoint :: "platform \<Rightarrow> string \<Rightarrow> string \<Rightarrow> (webhook_world, nat) op" where
  "invalidate_endpoint P grant supplied = guarded P grant supplied
     (\<lambda>w. case clear_permission_caches (ww_agent w) of (n, cs) \<Rightarrow> (Inr n, w\<lparr>ww_agent := cs\<rparr>))"

definition invalidation_reply :: "nat reply \<Rightarrow> nat result" where
  "invalidation_reply reply = (case reply of Replied n \<Rightarrow> Inr n
     | _ \<Rightarrow> Inl (ApiFailure 503 ''AGENT_PERMISSION_CACHE_UNAVAILABLE'' True))"

text \<open>The authority shows the token of its own secret; the agent asks for the token of its own.\<close>

definition invalidate_agent :: "platform \<Rightarrow> string \<Rightarrow> string \<Rightarrow> fault \<Rightarrow> (webhook_world, nat) op" where
  "invalidate_agent P grant agent_grant fault w = (let m = invalidate_endpoint P agent_grant (internal_service_token P grant) in
     case (case fault of
         Fine \<Rightarrow> serve m w
       | Lost_Request \<Rightarrow> (Timed_Out, w)
       | No_Route \<Rightarrow> (Unreachable, w)
       | Lost_Reply \<Rightarrow> (Timed_Out, snd (serve m w))
       | Broken_Reply \<Rightarrow> (Garbled, snd (serve m w))) of
       (reply, w') \<Rightarrow> (invalidation_reply reply, w'))"

definition evidence_unavailable :: "(webhook_world, 'a) op \<Rightarrow> (webhook_world, 'a) op" where
  "evidence_unavailable = except_class ''HexclaveWebhookEvidenceStoreError''
     (ApiFailure 503 ''HEXCLAVE_WEBHOOK_EVIDENCE_UNAVAILABLE'' True)"

definition verified_webhook ::
  "platform \<Rightarrow> webhook_verifier option \<Rightarrow> (string \<Rightarrow> int option) \<Rightarrow> string option \<Rightarrow> string list \<Rightarrow> attributes
    \<Rightarrow> (webhook_world, webhook_verification) op"
where
  "verified_webhook P V parse_int declared chunks headers =
     except_class ''HexclaveWebhookVerificationError'' (ApiFailure 401 ''INVALID_HEXCLAVE_WEBHOOK'' False)
     (except_class ''HexclaveWebhookPayloadError'' (ApiFailure 400 ''INVALID_HEXCLAVE_WEBHOOK_PAYLOAD'' False)
     (read_op (\<lambda>_. bind_r (read_webhook_body parse_int declared chunks) (\<lambda>body. case V of
         None \<Rightarrow> Inl (ApiFailure 503 ''HEXCLAVE_WEBHOOK_NOT_CONFIGURED'' True)
       | Some v \<Rightarrow> verify_webhook P v body headers))))"

definition receive_hexclave_webhook ::
  "platform \<Rightarrow> string \<Rightarrow> string \<Rightarrow> webhook_verifier option \<Rightarrow> (string \<Rightarrow> int option) \<Rightarrow> webhook_call
    \<Rightarrow> string option \<Rightarrow> string list \<Rightarrow> attributes \<Rightarrow> (webhook_world, attributes) op"
where
  "receive_hexclave_webhook P grant agent_grant V parse_int k declared chunks headers =
     bind_op (verified_webhook P V parse_int declared chunks headers) (\<lambda>v. case vw_event v of
       None \<Rightarrow> ret_op [(''status'', PStr ''ignored''), (''event_type'', PStr (vw_type v)), (''graph_mutated'', PBool False)]
     | Some e \<Rightarrow>
         bind_op (evidence_unavailable (on_evidence (evidence_reserve (wc_reserve k) (wc_received k) e))) (\<lambda>done.
         if done then ret_op [(''status'', PStr ''permission-cache-invalidated''), (''delivery_id'', PStr (he_delivery e)),
             (''event_type'', PStr (he_type e)), (''evidence_ref'', PStr (evidence_ref e)), (''duplicate'', PBool True),
             (''graph_mutated'', PBool False)]
         else bind_op clear_authority_caches (\<lambda>a. bind_op (invalidate_agent P grant agent_grant (wc_fault k)) (\<lambda>b.
           bind_op (evidence_unavailable (on_evidence (evidence_complete (wc_complete k) (he_delivery e) a b))) (\<lambda>_.
           ret_op [(''status'', PStr ''permission-cache-invalidated''), (''delivery_id'', PStr (he_delivery e)),
             (''event_type'', PStr (he_type e)), (''evidence_ref'', PStr (evidence_ref e)),
             (''authority_caches_cleared'', PInt (int a)), (''agent_caches_cleared'', PInt (int b)),
             (''duplicate'', PBool False), (''graph_mutated'', PBool False)])))))"

subsection \<open>A revocation takes effect\<close>

definition completed_in :: "string \<Rightarrow> evidence_file \<Rightarrow> bool" where
  "completed_in d f \<longleftrightarrow> (\<exists>rs r. f = Evidence rs \<and> r \<in> set rs \<and> he_delivery (ev_event r) = d \<and> ev_completed r)"

definition all_cleared :: "checkers \<Rightarrow> bool" where
  "all_cleared cs \<longleftrightarrow> (\<forall>(k, K, c) \<in> set cs. c = Map.empty)"

lemma cleared: "all_cleared (snd (clear_permission_caches cs))"
  by (auto simp: all_cleared_def clear_permission_caches_def)

lemma evidence_reserve_cases:
  assumes "evidence_reserve wr now e f = (r, f')"
  shows "(completed_in d f' \<longleftrightarrow> completed_in d f) \<and> (r = Inr True \<longrightarrow> f' = f \<and> completed_in (he_delivery e) f)"
proof (cases "read_evidence f")
  case (Inl x)
  then show ?thesis using assms by (auto simp: evidence_reserve_def bind_op_def)
next
  case (Inr rs)
  have f: "completed_in d f \<longleftrightarrow> (\<exists>r\<in>set rs. he_delivery (ev_event r) = d \<and> ev_completed r)" for d
    using Inr by (cases f) (auto simp: completed_in_def)
  show ?thesis
  proof (cases "List.find (\<lambda>r. he_delivery (ev_event r) = he_delivery e) rs")
    case None
    then have "(f' = f \<or> f' = Evidence (rs @ [fresh_evidence now e])) \<and> r \<noteq> Inr True" using assms Inr
      by (cases wr) (auto simp: evidence_reserve_def bind_op_def)
    then show ?thesis using f by (auto simp: completed_in_def fresh_evidence_def)
  next
    case (Some x)
    then have "x \<in> set rs" "he_delivery (ev_event x) = he_delivery e" by (auto simp: find_Some_iff)
    then show ?thesis using assms Inr Some f by (auto simp: evidence_reserve_def bind_op_def split: if_splits)
  qed
qed

lemma evidence_complete_cases:
  assumes "evidence_complete wr d a b f = (r, f')"
  shows "(completed_in d' f \<longrightarrow> completed_in d' f') \<and> (d' \<noteq> d \<longrightarrow> completed_in d' f' \<longrightarrow> completed_in d' f)
    \<and> (\<forall>x. r = Inr x \<longrightarrow> completed_in d f')"
proof (cases "read_evidence f")
  case (Inl x)
  then show ?thesis using assms by (auto simp: evidence_complete_def bind_op_def)
next
  case (Inr rs)
  have f: "completed_in d' f \<longleftrightarrow> (\<exists>r\<in>set rs. he_delivery (ev_event r) = d' \<and> ev_completed r)" for d'
    using Inr by (cases f) (auto simp: completed_in_def)
  show ?thesis
  proof (cases "find_index (\<lambda>r. he_delivery (ev_event r) = d) rs")
    case None
    then show ?thesis using assms Inr by (auto simp: evidence_complete_def bind_op_def)
  next
    case (Some i)
    have i: "i < length rs" "he_delivery (ev_event (rs ! i)) = d"
      using find_index_length [OF Some] by auto
    let ?new = "Evidence (rs[i := completed_evidence a b (rs ! i)])"
    have new: "completed_in d' ?new \<longleftrightarrow> completed_in d' f \<or> d' = d" for d'
    proof -
      have "completed_evidence a b (rs ! i) \<in> set (rs[i := completed_evidence a b (rs ! i)])"
        using i(1) by (rule set_update_memI)
      moreover have "r \<in> set rs \<Longrightarrow> r \<noteq> rs ! i \<Longrightarrow> r \<in> set (rs[i := completed_evidence a b (rs ! i)])" for r
        by (metis in_set_conv_nth length_list_update nth_list_update_neq)
      ultimately show ?thesis
        using i set_update_subset_insert [of rs i "completed_evidence a b (rs ! i)"]
        unfolding f by (fastforce simp: completed_in_def completed_evidence_def)
    qed
    have "f' = f \<and> (\<forall>x. r \<noteq> Inr x) \<or> f' = ?new" using assms Inr Some
      by (cases wr) (auto simp: evidence_complete_def bind_op_def Let_def split: if_splits)
    then show ?thesis using new by blast
  qed
qed

lemma verified_webhook_frame: "verified_webhook P V parse_int declared chunks headers w = (r, w') \<Longrightarrow> w' = w"
  by (auto simp: verified_webhook_def except_class_def split: prod.splits sum.splits py_error.splits if_splits)

lemma evidence_unavailable_run:
  assumes "evidence_unavailable (on_evidence m) w = (r, w')"
  shows "\<exists>x f. m (ww_evidence w) = (x, f) \<and> w' = w\<lparr>ww_evidence := f\<rparr> \<and> (\<forall>v. r = Inr v \<longleftrightarrow> x = Inr v)"
proof -
  obtain x f where x: "m (ww_evidence w) = (x, f)" by (rule prod.exhaust)
  then show ?thesis using assms
    by (cases x) (auto simp: evidence_unavailable_def except_class_def on_evidence_def split: py_error.splits if_splits)
qed

lemma invalidate_agent_run:
  assumes "invalidate_agent P grant agent_grant fault w = (r, w')"
  shows "ww_evidence w' = ww_evidence w \<and> ww_authority w' = ww_authority w \<and> (\<forall>n. r = Inr n \<longrightarrow> all_cleared (ww_agent w'))
    \<and> (ww_agent w' = ww_agent w \<or> all_cleared (ww_agent w'))"
proof -
  let ?m = "invalidate_endpoint P agent_grant (internal_service_token P grant)"
  have run: "?m w = (if trusted P agent_grant (internal_service_token P grant)
      then (Inr (fst (clear_permission_caches (ww_agent w))), w\<lparr>ww_agent := snd (clear_permission_caches (ww_agent w))\<rparr>)
      else (Inl (ApiFailure 403 ''INTERNAL_SERVICE_AUTH_REQUIRED'' False), w))"
    by (simp add: invalidate_endpoint_def guarded_def bind_op_def read_op_def require_internal_service_def split: prod.split)
  show ?thesis
    using assms cleared [of "ww_agent w"]
    by (cases fault) (auto simp: invalidate_agent_def Let_def serve_def run reply_of_def error_reply_def invalidation_reply_def
      split: if_splits reply.splits py_error.splits)
qed

lemma webhook_clears:
  assumes run: "receive_hexclave_webhook P grant agent_grant V parse_int k declared chunks headers w = (r, w')"
    and new: "completed_in d (ww_evidence w')" "\<not> completed_in d (ww_evidence w)"
  shows "all_cleared (ww_authority w') \<and> all_cleared (ww_agent w')"
proof -
  obtain v w0 where v: "verified_webhook P V parse_int declared chunks headers w = (v, w0)" by (rule prod.exhaust)
  then have w0: "w0 = w" by (rule verified_webhook_frame)
  obtain c where c: "v = Inr c"
    using run v w0 new by (cases v) (auto simp: receive_hexclave_webhook_def bind_op_def)
  obtain e where e: "vw_event c = Some e"
    using run v w0 c new by (cases "vw_event c") (auto simp: receive_hexclave_webhook_def bind_op_def)
  obtain was w1 where was: "evidence_unavailable (on_evidence (evidence_reserve (wc_reserve k) (wc_received k) e)) w = (was, w1)"
    by (rule prod.exhaust)
  obtain x f where x: "evidence_reserve (wc_reserve k) (wc_received k) e (ww_evidence w) = (x, f)" "w1 = w\<lparr>ww_evidence := f\<rparr>"
      "\<And>b. was = Inr b \<longleftrightarrow> x = Inr b"
    using evidence_unavailable_run [OF was] by blast
  have f: "\<not> completed_in d f" using evidence_reserve_cases [OF x(1), of d] new(2) by simp
  show ?thesis
  proof (cases "was = Inr False")
    case False
    then have "w' = w1"
      using run v w0 c e was by (cases was) (auto simp: receive_hexclave_webhook_def bind_op_def)
    then show ?thesis using new(1) f x(2) by simp
  next
    case True
    obtain a w2 where a: "clear_authority_caches w1 = (Inr a, w2)" "w2 = w1\<lparr>ww_authority := snd (clear_permission_caches (ww_authority w1))\<rparr>"
      by (simp add: clear_authority_caches_def clear_permission_caches_def)
    obtain b w3 where b: "invalidate_agent P grant agent_grant (wc_fault k) w2 = (b, w3)" by (rule prod.exhaust)
    note agent = invalidate_agent_run [OF b]
    show ?thesis
    proof (cases b)
      case (Inl y)
      then have "w' = w3" using run v w0 c e was True a b by (simp add: receive_hexclave_webhook_def bind_op_def)
      then show ?thesis using new(1) f x(2) a(2) agent by simp
    next
      case (Inr n)
      obtain z w4 where z: "evidence_unavailable (on_evidence (evidence_complete (wc_complete k) (he_delivery e) a n)) w3 = (z, w4)"
        by (rule prod.exhaust)
      then have "w' = w4"
        using run v w0 c e was True a b Inr by (cases z) (simp_all add: receive_hexclave_webhook_def bind_op_def)
      moreover have "ww_authority w4 = ww_authority w3 \<and> ww_agent w4 = ww_agent w3"
        using evidence_unavailable_run [OF z] by auto
      ultimately show ?thesis using agent a(2) cleared Inr by simp
    qed
  qed
qed

text \<open>An answer that says so is backed by the record.\<close>

lemma webhook_answer_recorded:
  assumes run: "receive_hexclave_webhook P grant agent_grant V parse_int k declared chunks headers w = (Inr answer, w')"
    and status: "dict_get answer ''status'' = Some (PStr ''permission-cache-invalidated'')"
  shows "\<exists>d. dict_get answer ''delivery_id'' = Some (PStr d) \<and> completed_in d (ww_evidence w')
    \<and> (dict_get answer ''duplicate'' = Some (PBool True) \<longrightarrow> w' = w)
    \<and> (dict_get answer ''duplicate'' = Some (PBool False) \<longrightarrow> all_cleared (ww_authority w') \<and> all_cleared (ww_agent w'))"
proof -
  obtain v w0 where v: "verified_webhook P V parse_int declared chunks headers w = (v, w0)" by (rule prod.exhaust)
  then have w0: "w0 = w" by (rule verified_webhook_frame)
  obtain c where c: "v = Inr c"
    using run v w0 by (cases v) (auto simp: receive_hexclave_webhook_def bind_op_def)
  obtain e where e: "vw_event c = Some e"
    using run v w0 c status by (cases "vw_event c") (auto simp: receive_hexclave_webhook_def bind_op_def)
  obtain was w1 where was: "evidence_unavailable (on_evidence (evidence_reserve (wc_reserve k) (wc_received k) e)) w = (was, w1)"
    by (rule prod.exhaust)
  obtain x f where x: "evidence_reserve (wc_reserve k) (wc_received k) e (ww_evidence w) = (x, f)" "w1 = w\<lparr>ww_evidence := f\<rparr>"
      "\<And>b. was = Inr b \<longleftrightarrow> x = Inr b"
    using evidence_unavailable_run [OF was] by blast
  obtain b where d: "was = Inr b"
    using run v w0 c e was by (cases was) (auto simp: receive_hexclave_webhook_def bind_op_def)
  show ?thesis
  proof (cases b)
    case True
    then have "f = ww_evidence w \<and> completed_in (he_delivery e) (ww_evidence w)"
      using evidence_reserve_cases [OF x(1)] x(3) d by simp
    then show ?thesis using run v w0 c e was d True x(2) by (auto simp: receive_hexclave_webhook_def bind_op_def)
  next
    case False
    obtain a w2 where a: "clear_authority_caches w1 = (Inr a, w2)" "w2 = w1\<lparr>ww_authority := snd (clear_permission_caches (ww_authority w1))\<rparr>"
      by (simp add: clear_authority_caches_def clear_permission_caches_def)
    obtain bb w3 where b: "invalidate_agent P grant agent_grant (wc_fault k) w2 = (bb, w3)" by (rule prod.exhaust)
    note agent = invalidate_agent_run [OF b]
    obtain n where n: "bb = Inr n"
      using run v w0 c e was d False a b by (cases bb) (auto simp: receive_hexclave_webhook_def bind_op_def)
    obtain z w4 where z: "evidence_unavailable (on_evidence (evidence_complete (wc_complete k) (he_delivery e) a n)) w3 = (z, w4)"
      by (rule prod.exhaust)
    obtain y g where y: "evidence_complete (wc_complete k) (he_delivery e) a n (ww_evidence w3) = (y, g)" "w4 = w3\<lparr>ww_evidence := g\<rparr>"
        "\<And>q. z = Inr q \<longleftrightarrow> y = Inr q"
      using evidence_unavailable_run [OF z] by blast
    obtain q where q: "z = Inr q"
      using run v w0 c e was d False a b n z by (cases z) (auto simp: receive_hexclave_webhook_def bind_op_def)
    have "completed_in (he_delivery e) (ww_evidence w4)"
      using evidence_complete_cases [OF y(1), of "he_delivery e"] y(2,3) q by auto
    moreover have "all_cleared (ww_authority w4) \<and> all_cleared (ww_agent w4)"
      using agent n a(2) cleared y(2) by simp
    ultimately show ?thesis
      using run v w0 c e was d False a b n z q by (auto simp: receive_hexclave_webhook_def bind_op_def)
  qed
qed

text \<open>After that, an answer is the service's answer to this question.\<close>

lemma asked_after_clear:
  assumes cs: "all_cleared cs" and run: "team_permission P X http now team user permission (cs, h) = (Inr allowed, y)"
  shows "\<exists>r payload h'. tp_user r = strip user \<and> tp_permission r = strip permission \<and> http r h = (Some payload, h')
    \<and> permission_value payload r = Some allowed"
proof -
  obtain K c where K: "checker_for P X team cs = Inr (K, c)"
    using run by (cases "checker_for P X team cs") (auto simp: team_permission_def)
  then have c: "c = Map.empty"
    using checker_for_cases [OF K] cs by (auto simp: all_cleared_def dest: map_of_SomeD)
  obtain r' c' h' where perm: "has_permission K http now user permission (c, h) = (r', c', h')" by (rule prod_cases3)
  then have "r' = Inr allowed" using run K by (simp add: team_permission_def)
  then have "strip user \<noteq> []" "strip permission \<noteq> []"
      "\<exists>x. get_team_permission http (request_of K (strip user) (strip permission)) h = (Inr allowed, x)"
    using perm c by (auto simp: has_permission_def bind_op_def required_value_def cached_answer_def split: if_splits prod.splits sum.splits)
  then obtain x where "get_team_permission http (request_of K (strip user) (strip permission)) h = (Inr allowed, x)" by blast
  then have "\<exists>payload h'. http (request_of K (strip user) (strip permission)) h = (Some payload, h')
      \<and> permission_value payload (request_of K (strip user) (strip permission)) = Some allowed"
    by (auto simp: get_team_permission_def split: prod.splits option.splits)
  then show ?thesis by (intro exI [of _ "request_of K (strip user) (strip permission)"]) (simp add: request_of_def)
qed

end
