(* ===== verification/Permission_Samples.thy ===== *)
theory Permission_Samples
  imports Permissions
begin

text \<open>
  A settled process, a service that grants one permission and one identity, and a signed event, for the theorems of
  \<^verbatim>\<open>Permissions\<close> to be instantiated on.
\<close>

definition sample_hexclave :: hexclave_settings where
  "sample_hexclave = \<lparr>hx_api_url = ''https://h'', hx_project = ''p'', hx_secret = ''s'', hx_ttl = Some 60\<rparr>"

definition sample_checker :: "bool \<Rightarrow> checkers" where
  "sample_checker allowed = [(key_of sample_platform sample_hexclave ''t'',
     \<lparr>pc_project = ''p'', pc_secret = ''s'', pc_team = ''t'', pc_ttl = 60, pc_timeout = 5\<rparr>,
     [(''u'', ''approve'') \<mapsto> \<lparr>ce_allowed = allowed, ce_expires = 100\<rparr>])]"

text \<open>The service grants nothing now, and counts the questions.\<close>

definition sample_service :: "(permission_request, nat) client" where
  "sample_service r n = (Some (PDict [(''items'', PList [])]), n + 1)"

definition sample_api_key :: "(string, nat) client" where
  "sample_api_key t n = (Some (PDict [(''user_id'', PStr '' u ''), (''type'', PStr ''user''), (''is_public'', PBool False)]), n + 1)"

definition sample_token :: "(string, nat) client" where
  "sample_token t n = (None, n + 1)"

definition sample_webhook_body :: string where
  "sample_webhook_body = replicate 64 (CHR ''0'')"

definition sample_webhook_verifier :: webhook_verifier where
  "sample_webhook_verifier = \<lparr>wv_verify = \<lambda>body hs. if body = sample_webhook_body then Some (PDict
       [(''type'', PStr ''team_permission.deleted''), (''data'', PDict [(''id'', PStr ''approve''), (''team_id'', PStr ''t''), (''user_id'', PStr ''u'')])])
     else None, wv_time = \<lambda>_. Some (Aware 1)\<rparr>"

definition sample_webhook_headers :: attributes where
  "sample_webhook_headers = [(''Svix-Id'', PStr ''d''), (''svix-timestamp'', PStr ''1''), (''svix-signature'', PStr ''v1'')]"

definition sample_webhook_call :: webhook_call where
  "sample_webhook_call = \<lparr>wc_received = Aware 2, wc_reserve = Written, wc_fault = Fine, wc_complete = Written\<rparr>"

definition sample_webhook_world :: webhook_world where
  "sample_webhook_world = \<lparr>ww_evidence = No_Evidence, ww_authority = sample_checker True, ww_agent = sample_checker True\<rparr>"

definition sample_webhook_event :: authority_event where
  "sample_webhook_event = \<lparr>he_delivery = ''d'', he_type = ''team_permission.deleted'', he_at = Aware 1, he_sha = sample_webhook_body,
     he_team = ''t'', he_user = ''u'', he_permission = Some ''approve''\<rparr>"

definition sample_webhook_done :: webhook_world where
  "sample_webhook_done = \<lparr>ww_evidence = Evidence [completed_evidence 1 1 (fresh_evidence (Aware 2) sample_webhook_event)],
     ww_authority = snd (clear_permission_caches (sample_checker True)), ww_agent = snd (clear_permission_caches (sample_checker True))\<rparr>"

lemma sample_webhook_sent:
  "read_webhook_body (\<lambda>_. None) None [sample_webhook_body] = Inr sample_webhook_body"
  "make_event sample_webhook_event = Inr sample_webhook_event"
  "one_header sample_webhook_headers ''svix-id'' ''webhook-id'' = Inr ''d''"
  "one_header sample_webhook_headers ''svix-timestamp'' ''webhook-timestamp'' = Inr ''1''"
  "one_header sample_webhook_headers ''svix-signature'' ''webhook-signature'' = Inr ''v1''"
  by (simp add: read_webhook_body_def sample_webhook_body_def, code_simp+)

lemma sample_webhook_parsed:
  "webhook_envelope (PDict [(''type'', PStr ''team_permission.deleted''), (''data'', PDict [(''id'', PStr ''approve''),
     (''team_id'', PStr ''t''), (''user_id'', PStr ''u'')])])
   = Inr (''team_permission.deleted'', [(''id'', PStr ''approve''), (''team_id'', PStr ''t''), (''user_id'', PStr ''u'')])"
  "''team_permission.deleted'' \<in> set SUPPORTED_EVENTS" "starts_with ''team_permission.'' ''team_permission.deleted''"
  "required_identifier [(''id'', PStr ''approve''), (''team_id'', PStr ''t''), (''user_id'', PStr ''u'')] ''id'' = Inr ''approve''"
  "required_identifier [(''id'', PStr ''approve''), (''team_id'', PStr ''t''), (''user_id'', PStr ''u'')] ''team_id'' = Inr ''t''"
  "required_identifier [(''id'', PStr ''approve''), (''team_id'', PStr ''t''), (''user_id'', PStr ''u'')] ''user_id'' = Inr ''u''"
  by code_simp+

lemma sample_webhook_verified:
  "verified_webhook sample_platform (Some sample_webhook_verifier) (\<lambda>_. None) None [sample_webhook_body] sample_webhook_headers w
   = (Inr \<lparr>vw_delivery = ''d'', vw_type = ''team_permission.deleted'', vw_event = Some sample_webhook_event\<rparr>, w)"
proof -
  have "length sample_webhook_body = 64" by (simp add: sample_webhook_body_def)
  moreover have "sha256_hex sample_platform sample_webhook_body = sample_webhook_body" by (simp add: sample_platform_def)
  ultimately have "verify_webhook sample_platform sample_webhook_verifier sample_webhook_body sample_webhook_headers
      = Inr \<lparr>vw_delivery = ''d'', vw_type = ''team_permission.deleted'', vw_event = Some sample_webhook_event\<rparr>"
    using sample_webhook_sent(2)
    by (simp add: verify_webhook_def sample_webhook_sent(3-5) sample_webhook_verifier_def sample_webhook_parsed sample_webhook_event_def)
  then show ?thesis
    by (simp add: verified_webhook_def sample_webhook_sent(1) except_class_def read_op_def)
qed

lemma sample_webhook_clears:
  "\<exists>answer. receive_hexclave_webhook sample_platform ''g'' ''g'' (Some sample_webhook_verifier) (\<lambda>_. None) sample_webhook_call None
     [sample_webhook_body] sample_webhook_headers sample_webhook_world = (Inr answer, sample_webhook_done)
   \<and> dict_get answer ''status'' = Some (PStr ''permission-cache-invalidated'')"
proof -
  let ?e = sample_webhook_event
  let ?w = "sample_webhook_world\<lparr>ww_evidence := Evidence [fresh_evidence (Aware 2) ?e]\<rparr>"
  have was: "evidence_unavailable (on_evidence (evidence_reserve Written (Aware 2) ?e)) sample_webhook_world = (Inr False, ?w)"
    by (simp add: evidence_unavailable_def except_class_def on_evidence_def evidence_reserve_def bind_op_def read_op_def
        sample_webhook_world_def ret_op_def)
  have token: "internal_service_token sample_platform ''g'' \<noteq> []"
    by (simp add: internal_service_token_def sample_platform_def hex_text_def Let_def)
  have agent: "invalidate_agent sample_platform ''g'' ''g'' Fine w
      = (Inr (length (ww_agent w)), w\<lparr>ww_agent := snd (clear_permission_caches (ww_agent w))\<rparr>)" for w
    using token by (simp add: invalidate_agent_def serve_def invalidate_endpoint_def guarded_def require_internal_service_def trusted_def
        bind_op_def read_op_def clear_permission_caches_def invalidation_reply_def reply_of_def)
  have clear: "clear_authority_caches w = (Inr (length (ww_authority w)), w\<lparr>ww_authority := snd (clear_permission_caches (ww_authority w))\<rparr>)" for w
    by (simp add: clear_authority_caches_def clear_permission_caches_def)
  have index: "find_index (\<lambda>r. he_delivery (ev_event r) = he_delivery ?e) [fresh_evidence (Aware 2) ?e] = Some 0"
    by code_simp
  have complete: "evidence_unavailable (on_evidence (evidence_complete Written (he_delivery ?e) 1 1))
      (w\<lparr>ww_evidence := Evidence [fresh_evidence (Aware 2) ?e]\<rparr>)
      = (Inr (completed_evidence 1 1 (fresh_evidence (Aware 2) ?e)),
         w\<lparr>ww_evidence := Evidence [completed_evidence 1 1 (fresh_evidence (Aware 2) ?e)]\<rparr>)" for w
    by (simp add: evidence_unavailable_def except_class_def on_evidence_def evidence_complete_def bind_op_def read_op_def index Let_def
        fresh_evidence_def ret_op_def)
  have event: "he_delivery ?e = ''d''" "he_type ?e = ''team_permission.deleted''" by (simp_all add: sample_webhook_event_def)
  show ?thesis
    using was complete [of "?w\<lparr>ww_authority := snd (clear_permission_caches (sample_checker True)),
        ww_agent := snd (clear_permission_caches (sample_checker True))\<rparr>"]
    by (simp add: receive_hexclave_webhook_def bind_op_def sample_webhook_verified sample_webhook_call_def agent clear ret_op_def
        sample_webhook_world_def sample_webhook_done_def sample_checker_def)
qed

lemma sample_webhook_completed:
  "completed_in ''d'' (ww_evidence sample_webhook_done)" "\<not> completed_in ''d'' (ww_evidence sample_webhook_world)"
  by (simp_all add: completed_in_def sample_webhook_done_def sample_webhook_world_def completed_evidence_def fresh_evidence_def
      sample_webhook_event_def)

text \<open>The cache said yes; the service says no.\<close>

lemma sample_revoked:
  "\<exists>y. team_permission sample_platform sample_hexclave sample_service 0 ''t'' ''u'' ''approve'' (ww_agent sample_webhook_done, 0) = (Inr False, y)"
proof -
  have strips: "strip ''u'' = ''u''" "strip ''approve'' = ''approve''" by code_simp+
  have no: "permission_value (PDict [(''items'', PList [])]) q = Some False" for q
    by (simp add: permission_value_def single_page_def)
  show ?thesis
    by (simp add: team_permission_def checker_for_def sample_webhook_done_def clear_permission_caches_def sample_checker_def
        has_permission_def bind_op_def read_op_def required_value_def strips cached_answer_def get_team_permission_def sample_service_def no)
qed

end
