(* ===== verification/Further_Results.thy ===== *)
theory Further_Results
  imports Session_Samples Channel_Samples Permission_Samples
begin

text \<open>
  Theorems on the components of the development beside the properties of the root theory, each on its instance.
\<close>

text \<open>
  A decision change that is refused, or that raises, leaves the whole authority (graph, version
  and last report) as it was, and happens only when a guard fails: an unknown supersession
  target raises KeyError, every other failing guard returns an unapplied result with the current
  version.
\<close>

theorem refused_change_changes_nothing:
  assumes "wf_graph (au_graph au)" and "\<not> g_in_txn (au_graph au)"
    and "apply_decision_change m au = (r, au')" and "\<not> (\<exists>res. r = Inr res \<and> mres_applied res)"
  shows "au' = au \<and> \<not> change_ok au m \<and> (r = Inl (KeyError (''Unknown artifact: '' @ mut_supersedes m))
      \<or> (\<exists>reason. r = Inr (refused reason (au_graph au))))"
  using apply_decision_change_unchanged [OF assms] by blast

theorem refused_change_changes_nothing_witness:
  "\<not> change_ok sample_authority (sample_change\<lparr>mut_scopes := {}\<rparr>)"
proof -
  obtain r au' where run: "apply_decision_change (sample_change\<lparr>mut_scopes := {}\<rparr>) sample_authority = (r, au')"
    by (metis prod.collapse)
  have "decision_refusal sample_authority (sample_change\<lparr>mut_scopes := {}\<rparr>) \<noteq> None"
    by (simp add: decision_refusal_def Let_def split: option.split)
  then have "\<not> (\<exists>res. r = Inr res \<and> mres_applied res)"
    using run by (auto simp: apply_decision_change_def Let_def refused_def)
  from refused_change_changes_nothing [OF _ _ run this] show ?thesis
    using sample_graph_wf sample_graph_idle by simp
qed

text \<open>
  A scope is governed exactly when some approved decision still declares it (it has not lost
  that scope), and the requirement in force is one that a decision of the latest effective time
  declares.
\<close>

theorem latest_requirement_governs:
  assumes "current_requirements g = Inr reqs"
  shows "(dict_get reqs scope = None \<longleftrightarrow> (\<nexists>a req. declares g a scope req)) \<and>
    (\<forall>req. dict_get reqs scope = Some req \<longrightarrow> (\<exists>a. declares g a scope req \<and>
      (\<forall>b r. declares g b scope r \<longrightarrow> dt_micros (effective b) \<le> dt_micros (effective a))))"
  using current_requirement_latest [OF assms] by blast

theorem latest_requirement_governs_witness:
  "\<exists>a. declares sample_graph a ''s'' (PDict [(''k'', PInt 1)])"
  using latest_requirement_governs [OF sample_requirements, of "''s''"] by auto

text \<open>
  The invariant of an authority: its graph is well formed and outside a transaction, and every
  approved decision declares readable requirements at a timezone-aware time. Every call of
  apply_decision_change keeps it, applied, refused or raising, when the submitted decision's own
  time is aware.
\<close>

theorem changes_keep_authority_readable:
  assumes "authority_ok au" and "apply_decision_change m au = (r, au')"
    and "dt_aware (effective (mut_decision m))" and "wf_pyval (PDict (art_attrs (mut_decision m)))"
  shows "authority_ok au'"
  by (rule apply_decision_change_keeps_ok [OF assms])

theorem changes_keep_authority_readable_witness:
  "authority_ok (snd (apply_decision_change sample_change sample_authority))"
proof -
  have "authority_ok sample_authority"
    using sample_graph_wf sample_graph_idle sample_requirements_ok by (simp add: authority_ok_def)
  moreover have "dt_aware (effective (mut_decision sample_change))" "wf_pyval (PDict (art_attrs (mut_decision sample_change)))"
    by (simp_all add: sample_change_def sample_decision_def effective_def sample_attrs_def)
  ultimately show ?thesis by (intro changes_keep_authority_readable [OF _ prod.collapse [symmetric]])
qed

text \<open>
  The grant of an ALLOW verdict verifies at once, with the payload it was issued with, as long
  as the graph and the signer are unchanged and its lifetime is not over.
\<close>

theorem grant_round_trips:
  assumes "requirements_ok (au_graph au)" and "set_order_ok P"
    and "\<forall>a\<in>set (plan_actions plan). finite (act_scopes a)"
    and "evaluate_plan P now uid au run task_id plan report = Inr res" and "ar_verdict res = ALLOW"
    and "ar_grant res = Some G" and "codec_ok P (sg_payload G)"
    and "au_graph au' = au_graph au" and "au_signer au' = au_signer au"
    and "now' < now + sig_ttl (au_signer au) * 1000000"
  shows "verify_grant P now' uid' au' (sg_token G) run task_id plan =
    Inr \<lparr>vr_valid = True, vr_code = VC_VALID, vr_reason = ''Grant is valid.'', vr_payload = Some (sg_payload G)\<rparr>"
  by (rule grant_round_trip [OF assms])

theorem grant_round_trips_witness:
  "\<exists>res. verify_grant sample_codec 5 [] sample_authority (sg_token sample_grant) ''R'' ''T'' (sample_plan 1) = Inr res
    \<and> vr_valid res"
proof -
  obtain res where res: "evaluate_plan sample_codec 0 [] sample_authority ''R'' ''T'' (sample_plan 1) None = Inr res"
      "ar_verdict res = ALLOW" "ar_grant res = Some sample_grant"
    using sample_evaluates by blast
  show ?thesis
    using grant_round_trips [OF _ _ _ res sample_codec_ok refl refl, of 5 "[]"] sample_requirements_ok
    by (simp add: sample_platform_codec sample_signer_def) (simp add: sample_plan_def sample_action_def)
qed

text \<open>
  Whatever calls a context has seen since it was created from a validated seed, its whole state
  is the one that replaying its baseline role and its recorded mutation requests, in order, on a
  fresh seed gives. So an evicted context can be rebuilt from durable records without loss.
\<close>

theorem context_is_its_replay:
  assumes "validate_graph_seed q = Inr u" and "new_context P r q = Inr seed"
    and "(context_step P th (xc_id q))\<^sup>*\<^sup>* seed c"
  shows "context_ok c \<and> (if cx_approved c
     then \<exists>role. cx_role c = Some role \<and> c = replay P th (xc_id q) role (map snd (cx_mutations c)) seed
     else c = seed)"
  using contexts_replay [OF new_context_ok [OF assms(1,2)] assms(3)] by (simp add: replayed_def)

theorem context_is_its_replay_witness:
  "\<exists>c. new_context sample_platform sample_registry (sample_create ''live-ws'') = Inr c \<and> context_ok c"
proof -
  obtain c where c: "new_context sample_platform sample_registry (sample_create ''live-ws'') = Inr c"
    using sample_new_context by blast
  from context_is_its_replay [OF sample_seed_valid c rtranclp.rtrancl_refl] c show ?thesis by blast
qed

text \<open>
  Repeating an approval request that was applied returns the stored result and changes nothing,
  however often a webhook delivers it.
\<close>

theorem approval_repeats:
  assumes "context_ok c" and "approve_mutation_in P th i q c = (Inr res, c')"
    and "art_id (mut_decision (mq_mutation q)) \<notin> cx_applied c"
    and "wf_pyval (PDict (art_attrs (mut_decision (mq_mutation q))))"
  shows "approve_mutation_in P th i q c' = (Inr res, c')"
  by (rule approval_is_idempotent [OF assms])

theorem approval_repeats_witness:
  "\<exists>res c'. approve_mutation_in sample_platform (3 / 4) ''live-ws'' sample_request sample_approved = (Inr res, c')
    \<and> approve_mutation_in sample_platform (3 / 4) ''live-ws'' sample_request c' = (Inr res, c')"
proof -
  obtain res c' where run: "approve_mutation_in sample_platform (3 / 4) ''live-ws'' sample_request sample_approved = (Inr res, c')"
    using sample_request_runs by blast
  have "art_id (mut_decision (mq_mutation sample_request)) \<notin> cx_applied sample_approved"
    by (simp add: sample_approved_is baseline_approved_def sample_context_def)
  moreover have "wf_pyval (PDict (art_attrs (mut_decision (mq_mutation sample_request))))"
    by (simp add: sample_request_def sample_proposal_def sample_decision_def sample_attrs_def)
  ultimately show ?thesis using run approval_repeats [OF sample_approved_ok(1) run] by blast
qed

text \<open>
  An access to one context (a read, an approval, an authorization or a verification) leaves
  every other context exactly as it was, keeps the registry's invariant, and moves the context
  it used to the most recently used end.
\<close>

theorem contexts_are_isolated:
  assumes "registry_ok r" and "access i body r = (v, r')" and "dict_get (rg_contexts r) i = Some c"
    and "cx_id (snd (body c)) = cx_id c"
  shows "registry_ok r' \<and> (\<forall>j. j \<noteq> i \<longrightarrow> dict_get (rg_contexts r') j = dict_get (rg_contexts r) j)
    \<and> last (rg_contexts r') = (i, snd (body c))"
  using access_isolates [OF assms] .

theorem contexts_are_isolated_witness:
  "last (rg_contexts (snd (access ''live-ws'' (\<lambda>c. (Inr (), c))
      (sample_registry\<lparr>rg_contexts := [(''live-ws'', sample_context)]\<rparr>)))) = (''live-ws'', sample_context)"
  using contexts_are_isolated [of "sample_registry\<lparr>rg_contexts := [(''live-ws'', sample_context)]\<rparr>"
      "''live-ws''" "\<lambda>c. (Inr (), c)" "Inr ()" _ sample_context]
  by (simp add: registry_ok_def sample_registry_def sample_context_def access_def)

text \<open>
  Opening the SQLite store where only a readable JSON store exists creates a database from which
  every workspace reads exactly as it read from the JSON document, and leaves the document in
  place.
\<close>

theorem migration_loses_nothing:
  assumes "sd_file d = No_File" and "sd_legacy d = Some raw" and "codec_round_trip c"
    and "cd_load_all c raw = Inr ws" and "distinct (map lw_id ws)"
    and "\<forall>w\<in>set ws. dt_aware (lw_updated w)"
  shows "\<exists>t. sql_open c d = (Inr (), d\<lparr>sd_file := Database t\<rparr>) \<and> sql_ok c t
    \<and> (\<forall>i. sql_get c t i = json_get c (sd_legacy d) i)"
  by (rule migration_keeps_workspaces [OF assms])

theorem migration_loses_nothing_witness:
  "\<exists>t. sql_open sample_texts \<lparr>sd_file = No_File, sd_legacy = Some [sample_record ''a'']\<rparr> =
      (Inr (), \<lparr>sd_file = Database t, sd_legacy = Some [sample_record ''a'']\<rparr>)"
  using migration_loses_nothing [of "\<lparr>sd_file = No_File, sd_legacy = Some [sample_record ''a'']\<rparr>"
      "[sample_record ''a'']" sample_texts "[sample_record ''a'']"] sample_texts_ok
  by (auto simp: sample_texts_def sample_record_def)

text \<open>
  When opening the SQLite store fails (a foreign file under its name, an unreadable or
  inconsistent JSON document), nothing is left behind: both files are as before, so the next
  start tries the migration again.
\<close>

theorem failed_open_leaves_files:
  assumes "sql_open c d = (Inl e, d')"
  shows "d' = d"
  by (rule failed_open_unchanged [OF assms])

theorem failed_open_leaves_files_witness:
  "snd (sql_open sample_texts \<lparr>sd_file = Foreign, sd_legacy = None\<rparr>) = \<lparr>sd_file = Foreign, sd_legacy = None\<rparr>"
  by (rule failed_open_leaves_files [of sample_texts _ not_a_database])
     (simp add: sql_open_def sql_initialize_def)

text \<open>
  The graph seeded from an import request that passed validation is well formed: distinct ids
  that name their artifacts, and every edge, declared or generated, between stored artifacts.
\<close>

theorem imported_graph_well_formed:
  assumes "validate_import P r = Inr u"
  shows "wf_graph (reset ver (graph_artifacts r) (graph_edges r) g)"
  by (rule validated_graph_wf [OF assms])

theorem imported_graph_well_formed_witness:
  "wf_graph (reset 1 (graph_artifacts sample_import) (graph_edges sample_import) empty_graph)"
  by (rule imported_graph_well_formed [OF sample_import_valid])

text \<open>
  In a validated import every scope of the baseline decision reaches the agent plan: superseding
  the baseline in any of its scopes always affects the plan, so no governed scope is out of the
  authority's reach.
\<close>

theorem imported_baseline_reaches_plan:
  assumes "validate_import P r = Inr u" and "set_order_ok P" and "s \<in> art_scopes (ir_baseline r)"
    and "g' = reset ver (graph_artifacts r) (graph_edges r) g"
  shows "affected_by g' {s} (art_id (ir_baseline r)) (plan_id (ir_plan r))"
  by (rule validated_baseline_reaches_plan [OF assms])

theorem imported_baseline_reaches_plan_witness:
  "affected_by (reset 1 (graph_artifacts sample_import) (graph_edges sample_import) empty_graph) {''s''} ''D0'' ''P''"
  using imported_baseline_reaches_plan [OF sample_import_valid sample_platform_ok(2) _ refl, of "''s''"]
  by (simp add: sample_import_def sample_decision_def sample_artifact_def sample_plan_def)

text \<open>
  The validator's depth-first search answers True exactly when the target is reachable from the
  source over the downstream edges, cycles included; its loop always ends.
\<close>

theorem search_is_reachability:
  "reachable es x t \<longleftrightarrow>
   (\<lambda>x y. \<exists>e\<in>set es. edge_kind e \<in> downstream_kinds \<and> edge_source e = x \<and> edge_target e = y)\<^sup>*\<^sup>* x t"
  by (rule reachable_iff)

text \<open>
  downstream_subgraph returns, for a stored root, exactly the artifacts reachable over edges of
  the given kinds, each once and ordered by id, and exactly the edges of those kinds that leave
  them, in order.
\<close>

theorem downstream_subgraph_exact:
  assumes "wf_graph g" and "in_graph g r"
  shows "\<exists>as es. downstream_subgraph g r K = Inr (as, es)
    \<and> set as = {a. \<exists>x. (flows g K)\<^sup>*\<^sup>* r x \<and> get_artifact g x = Inr a}
    \<and> sorted (map art_id as) \<and> distinct (map art_id as)
    \<and> set es = {e\<in>set (g_edges g). edge_kind e \<in> K \<and> (flows g K)\<^sup>*\<^sup>* r (edge_source e)}
    \<and> sorted (map edge_order es)"
  by (rule downstream_subgraph_spec [OF assms])

theorem downstream_subgraph_exact_witness:
  "\<exists>as es. downstream_subgraph sample_graph ''T'' downstream_kinds = Inr (as, es) \<and> sample_artifact ''T'' Ticket \<in> set as"
  using downstream_subgraph_exact [OF sample_graph_wf, of "''T''" downstream_kinds] sample_ticket
  by (auto simp: in_graph_get)

text \<open>
  The unpadded url-safe base64 text of any bytes decodes to the same bytes.
\<close>

theorem base64_round_trips:
  "unb64 (b64 data) = Inr data"
  by (rule unb64_b64)

text \<open>
  Two plans with the same stable hash are equal as Python compares the models, for plans whose
  attributes hold no sets, when SHA-256 does not collide on their canonical texts: the canonical
  JSON is injective on them.
\<close>

theorem plan_hash_identifies_plan:
  assumes "float_repr_ok P" and "wf_plan p" and "wf_plan q"
    and "no_collision P (canonical_json P (plan_dump p)) (canonical_json P (plan_dump q))"
    and "stable_hash P (plan_dump p) = stable_hash P (plan_dump q)"
  shows "plan_eq p q"
  by (rule stable_hash_plan_eq [OF assms])

theorem plan_hash_identifies_plan_witness:
  "plan_eq (sample_plan 3) (sample_plan 3)"
  by (rule plan_hash_identifies_plan [OF sample_platform_ok(1) sample_plan_wf sample_plan_wf _ refl])
     (simp add: no_collision_def)

text \<open>
  Resolving a plan gives each task, in plan order, exactly the actions that name it or, naming
  none, share a scope with it alone; it raises exactly when an unbound action shares scopes with
  several tasks.
\<close>

theorem actions_go_to_their_task:
  "if \<exists>a\<in>set (plan_actions plan). ambiguous (dict_of tasks) a
   then \<exists>e. resolve_plan_actions tasks plan = Inl (ValueError e)
   else \<exists>out. resolve_plan_actions tasks plan = Inr out
     \<and> (\<forall>t. dict_get out t = (if t \<in> fst ` set tasks
          then Some (filter (\<lambda>a. owner (dict_of tasks) a = Some t) (plan_actions plan)) else None))"
  by (rule resolve_plan_actions_spec)

text \<open>
  The authorized actions of an assignment are at most twenty, none blank and none longer than a
  thousand characters, whatever the plan says.
\<close>

theorem authorized_actions_bounded:
  "length (authorized_actions acts) \<le> 20
    \<and> set (authorized_actions acts) \<subseteq> {v. v \<noteq> [] \<and> length v \<le> 1000}"
  using authorized_actions_bounds by blast

text \<open>
  When the plan covers the governed scopes, its references are valid and no two requirements on
  one action conflict, one replan corrects it: the next verdict is ALLOW, the run enters ACT and
  holds the grant of the corrected plan.
\<close>

theorem replanning_reaches_act:
  assumes "set_order_ok P" and "requirements_ok (au_graph (ct_authority c))"
    and "correctable (au_graph (ct_authority c)) (ct_run c)"
  shows "\<exists>res c'. replan P now uid c = (Inr res, c') \<and> ar_verdict res = ALLOW
    \<and> run_state (ct_run c') = L_ACT
    \<and> run_grant (ct_run c') = Some (sg_token (issued_grant P now uid (ct_authority c) (run_id (ct_run c))
        (run_ticket (ct_run c)) (run_plan (ct_run c'))))"
  by (rule replan_reaches_act [OF assms])

theorem replanning_reaches_act_witness:
  "\<exists>res c'. replan sample_platform 0 [] (make_controller sample_authority (sample_run (sample_plan 2))) = (Inr res, c')
    \<and> run_state (ct_run c') = L_ACT"
  using replanning_reaches_act [of sample_platform "make_controller sample_authority (sample_run (sample_plan 2))" 0 "[]"]
    sample_requirements_ok sample_correctable by (auto simp: make_controller_def)

text \<open>
  When the plan does not cover a governed scope of its ticket, the graph workflow never decides:
  replanning adds no action, so verify and replan alternate until the recursion limit, whatever
  the limit is.
\<close>

theorem uncovered_scope_loops:
  assumes "set_order_ok P" and "requirements_ok (au_graph au)" and "uncovered au s"
  shows "run_workflow n P now uid au s = Inl (RuntimeError ''Recursion limit reached'')"
  by (rule workflow_never_ends [OF assms])

theorem uncovered_scope_loops_witness:
  "run_workflow 25 sample_platform 0 [] sample_authority
      \<lparr>ws_run = sample_run ((sample_plan 1)\<lparr>plan_actions := []\<rparr>), ws_authorization = None\<rparr> =
    Inl (RuntimeError ''Recursion limit reached'')"
  by (rule uncovered_scope_loops [OF sample_platform_ok(2)])
     (use sample_requirements_ok sample_uncovered in auto)

text \<open>
  An outermost transaction whose body raises restores version, artifacts and edges; the store is
  then exactly what it was before.
\<close>

theorem transaction_rolls_back:
  assumes "\<not> g_in_txn g" and "transaction body g = (Inl e, g')"
  shows "g' = g"
  using assms transaction_Inl by blast

theorem transaction_rolls_back_witness:
  "snd (transaction (\<lambda>h. (Inl (ValueError []) :: unit result, h\<lparr>g_version := 9\<rparr>)) sample_graph) = sample_graph"
proof -
  obtain g' where "transaction (\<lambda>h. (Inl (ValueError []) :: unit result, h\<lparr>g_version := 9\<rparr>)) sample_graph = (Inl (ValueError []), g')"
    using sample_graph_idle by (simp add: transaction_def)
  note run = this
  from transaction_rolls_back [OF sample_graph_idle run] run show ?thesis by simp
qed

text \<open>
  The replacement of run n of a numbered series is run n+1 of the same series, for every decimal
  width.
\<close>

theorem replacement_runs_are_numbered:
  assumes "p \<noteq> []" and "CHR 0x0A \<notin> set p" and "0 < n"
  shows "replacement_run_id (p @ ''-RUN-'' @ show_nat n) = p @ ''-RUN-'' @ show_nat (n + 1)"
  by (rule replacement_run_id_numbered [OF assms])

theorem replacement_runs_are_numbered_witness:
  "replacement_run_id (''A'' @ ''-RUN-'' @ show_nat 9) = ''A'' @ ''-RUN-'' @ show_nat 10"
  using replacement_runs_are_numbered [of "''A''" 9] by simp

text \<open>
  A pass of transitions of the Claude Code runtime over any of the assignments keeps the
  supervisor well formed: task ids and assignment ids stay distinct and the authorized actions
  bounded.
\<close>

theorem runtime_pass_keeps_supervisor:
  assumes "supervisor_ok s"
  shows "supervisor_ok (s\<lparr>su_assignments :=
     map (\<lambda>a. if p a then claude_transition (f a) a else a) (su_assignments s)\<rparr>)"
  by (rule claude_rt.pass_ok [OF assms])

theorem runtime_pass_keeps_supervisor_witness:
  "supervisor_ok ((\<lparr>su_id = [], su_name = [], su_state = LS_Running, su_adapter = Claude_Hook_Runtime, su_mode = Live,
      su_assignments = [], su_interrupts = []\<rparr> :: supervisor)\<lparr>su_assignments := []\<rparr>)"
  using runtime_pass_keeps_supervisor [of "\<lparr>su_id = [], su_name = [], su_state = LS_Running,
      su_adapter = Claude_Hook_Runtime, su_mode = Live, su_assignments = [], su_interrupts = []\<rparr>"]
  by (simp add: supervisor_ok_def)

text \<open>
  An interrupt of the live port is answered once: after any later interrupt calls, for any
  decisions and workspaces and at any times, a retry of the request gets the first answer again
  and changes nothing that can be read.
\<close>

theorem interrupt_answer_stands:
  assumes "sql_ok c s" and "finite (iq_scopes q)"
    and "live_interrupt P now (sql_get c) (sql_save c) q s = (Inr r, t)"
    and "u = fold (\<lambda>(now, q) s. snd (live_interrupt P now (sql_get c) (sql_save c) q s)) calls t"
  shows "\<exists>v. live_interrupt P now' (sql_get c) (sql_save c) q u = (Inr r, v) \<and> (\<forall>j. sql_get c v j = sql_get c u j)"
  using sql_live.retry_gets_first_answer [OF assms(1,2), of P now r t now' calls] assms(3,4)
  by (simp add: live_interrupt_step)

theorem interrupt_answer_stands_witness:
  "\<exists>r v t. live_interrupt sample_platform (Aware 1) (sql_get sample_texts) (sql_save sample_texts) sample_interrupt sample_live_table = (Inr r, t)
      \<and> live_interrupt sample_platform (Aware 9) (sql_get sample_texts) (sql_save sample_texts) sample_interrupt t = (Inr r, v)"
proof -
  obtain r t where run: "live_interrupt sample_platform (Aware 1) (sql_get sample_texts) (sql_save sample_texts)
      sample_interrupt sample_live_table = (Inr r, t)" using sample_interrupt_runs by blast
  have "finite (iq_scopes sample_interrupt)" by (simp add: sample_interrupt_def)
  from interrupt_answer_stands [OF sample_live_table_ok this run, of t "[]" "Aware 9"] run show ?thesis by auto
qed

text \<open>
  A recorded interrupt of the live port reports as interrupted exactly the live, not completed
  assignments that share a scope with the change and as preserved the other live ones, disjoint;
  it interrupts the former, lets the running ones of the latter continue and leaves every other
  assignment as it was.
\<close>

theorem live_interrupt_hits_overlap:
  assumes "distinct (map as_id (su_assignments su))" and "live_recorded P now q w su = (r, w')"
  shows "set (ix_interrupted r) = as_id ` {a\<in>set (su_assignments su). live_target q a}
    \<and> set (ix_preserved r) = as_id ` {a\<in>set (su_assignments su). live_spared q a}
    \<and> set (ix_interrupted r) \<inter> set (ix_preserved r) = {}
    \<and> (\<exists>su'. lw_supervisor w' = Some su' \<and> su_assignments su' =
        map (\<lambda>a. if live_target q a then claude_transition (interrupt_args q (iq_path q)) a
             else if live_spared q a \<and> as_state a = AS_Running then claude_transition (to_state AS_Continuing) a
             else a) (su_assignments su))"
proof -
  note r = live_recorded_fields(3) [OF assms(2)]
  obtain su' where su': "lw_supervisor w' = Some su'" "su_assignments su' = map (live_change q r) (su_assignments su)"
    using live_recorded_fields(4) [OF assms(2)] by blast
  have "set (ix_interrupted r) \<inter> set (ix_preserved r) = {}"
    unfolding r by (rule live_partition_disjoint(1) [OF assms(1)])
  then show ?thesis using su' live_change_map [OF assms(1), of q, folded r]
    by (intro conjI exI [of _ su']) (simp_all only: r live_partition_sets)
qed

theorem live_interrupt_hits_overlap_witness:
  "set (ix_interrupted (fst (live_recorded sample_platform (Aware 1) sample_interrupt sample_live_record sample_supervisor))) = {''A1''}"
proof -
  have d: "distinct (map as_id (su_assignments sample_supervisor))" by (simp add: sample_supervisor_def)
  have "{a\<in>set (su_assignments sample_supervisor). live_target sample_interrupt a} = {sample_assignment}"
    by (auto simp: sample_supervisor_def sample_assignment_def live_target_def sample_interrupt_def)
  moreover have "as_id sample_assignment = ''A1''" by (simp add: sample_assignment_def)
  ultimately show ?thesis
    using live_interrupt_hits_overlap [OF d prod.collapse [symmetric], THEN conjunct1] by (metis image_insert image_empty)
qed

text \<open>
  Before approval the workspace port estimates which work a change stops; after it, it reads the
  engine's report. For an assignment whose task lost exactly the earlier scopes, and is reached
  whenever it shares a changed scope, the two agree exactly on the changes that touch one of its
  scopes: the estimate also counts work that earlier changes had already invalidated altogether,
  which the report of this change does not list.
\<close>

theorem estimate_is_engine_rule:
  assumes "report_ok g A c r rep" and "follows_task g earlier a"
    and "as_scopes a \<inter> A \<noteq> {} \<Longrightarrow> affected_by g A r (as_task a)"
  shows "stops_work a A (Some rep) e \<longleftrightarrow> stops_work a A None earlier \<and> as_scopes a \<inter> A \<noteq> {}"
  by (rule report_stops [OF assms])

theorem estimate_is_engine_rule_witness:
  "\<exists>rep. stops_work sample_assignment {''s''} (Some rep) {}"
proof -
  obtain rep g' where "propagate_invalidation (sample_decision ''D1'' 2 Approved) ''T'' {''s''} sample_graph = (Inr rep, g')"
      "report_ok sample_graph {''s''} (art_id (sample_decision ''D1'' 2 Approved)) ''T'' rep"
    using propagate_invalidation_spec [OF sample_graph_wf sample_ticket] by blast
  from estimate_is_engine_rule [OF this(2) sample_follows_task sample_task_reached, of "{}"] show ?thesis
    by (auto simp: stops_work_def sample_assignment_def)
qed

text \<open>
  An interrupt of the workspace port returns what the preview showed, or raises and leaves the
  store as it was; either way no other workspace changes.
\<close>

theorem port_interrupt_is_contained:
  assumes "json_ok c s" and "port_interrupt R (json_get c) (json_save c) q s = (r, t)"
  shows "json_ok c t \<and> (\<forall>j. j \<noteq> iq_workspace q \<longrightarrow> json_get c t j = json_get c s j)
    \<and> (case r of Inl e \<Rightarrow> t = s | Inr res \<Rightarrow> port_preview (json_get c) q s = Inr res)"
  using json_port.interrupt_ok [OF assms(1) assms(2) [unfolded port_interrupt_step]]
    json_port.interrupt_other [OF assms(1) assms(2) [unfolded port_interrupt_step]]
    json_port.interrupt_fails_clean [OF assms(1), where e = "()" and q = q and R = R and t = t]
    port_preview_matches [of R "json_get c" "json_save c" q s _ t] assms(2)
  by (auto simp: port_interrupt_step split: sum.split)

theorem port_interrupt_is_contained_witness:
  "snd (port_interrupt \<lparr>pr_transition = fixture_transition, pr_adapter = Fixture_Runtime, pr_mode = Simulated\<rparr>
      (json_get sample_texts) (json_save sample_texts) (sample_interrupt\<lparr>iq_workspace := ''zz''\<rparr>) (Some [sample_record ''a''])) = Some [sample_record ''a'']"
  using port_interrupt_is_contained [OF sample_json_ok, of "\<lparr>pr_transition = fixture_transition, pr_adapter = Fixture_Runtime, pr_mode = Simulated\<rparr>"
      "sample_interrupt\<lparr>iq_workspace := ''zz''\<rparr>" "Inl (NotFound ''zz'')" "Some [sample_record ''a'']"]
  by (simp add: port_interrupt_def bind_op_def json_get_def json_read_def sample_texts_def)

text \<open>
  A session with an attachment, installed in memory or read from its marker file, is bound to
  the assignment it names or marked unresolved, which the check denies; it never ends as an
  unbound session, which is allowed everything.
\<close>

theorem attachment_is_no_off_switch:
  assumes "resolve_binding F w cands att file = Inr b"
    and "att \<noteq> None \<or> (af_present file \<and> af_assignment file \<noteq> None)"
  shows "(sb_source b = Explicit \<and> sb_assignment b \<noteq> None)
    \<or> (sb_source b = Unresolved_Attachment \<and> sb_assignment b = None)"
  by (rule attachment_never_unbound [OF assms])

theorem attachment_is_no_off_switch_witness:
  "\<exists>b. resolve_binding sample_files sample_origin [] (Some \<lparr>at_ws = ''w'', at_assignment = ''A''\<rparr>) (read_attach_file sample_files ''/d'') = Inr b
    \<and> sb_source b = Unresolved_Attachment"
proof -
  obtain b where b: "resolve_binding sample_files sample_origin [] (Some \<lparr>at_ws = ''w'', at_assignment = ''A''\<rparr>)
      (read_attach_file sample_files ''/d'') = Inr b" "sb_assignment b = None" using sample_unresolved by blast
  from attachment_is_no_off_switch [OF b(1)] b show ?thesis by auto
qed

text \<open>
  Registering a session gives the same binding and the same registry whatever order the catalog
  lists its assignments in, and however often it repeats one.
\<close>

theorem binding_ignores_catalog_order:
  assumes "set cands = set cands'" and "unique_targets cands = Inr targets"
  shows "register F now sid cwd branch cands owner_id r = register F now sid cwd branch cands' owner_id r"
  using unique_targets_perm [OF assms] assms(2) by (simp add: register_def)

theorem binding_ignores_catalog_order_witness:
  "register sample_files (Aware 0) ''S'' ''/d'' [] [sample_target, sample_second, sample_target] ''dev'' empty_sessions
    = register sample_files (Aware 0) ''S'' ''/d'' [] [sample_second, sample_target] ''dev'' empty_sessions"
proof -
  obtain targets where "unique_targets [sample_target, sample_second, sample_target] = Inr targets"
    using sample_targets by blast
  then show ?thesis by (intro binding_ignores_catalog_order) auto
qed

text \<open>
  A tool call is permitted only for a registered session of that developer whose attachment is
  not unresolved; if the session is bound, its assignment exists, and either a person
  acknowledged exactly this interrupt, or an interrupted assignment's redirect was echoed by the
  hook, or a not interrupted one continues or is at the current version.
\<close>

theorem check_permits_only:
  assumes "check_session P others get mutate reg q owner_id s = (Inr v, t)" and "hv_decision v = Permit"
  shows "\<exists>b. session_get reg (tq_session q) = Some b \<and> sb_owner b = owner_id \<and> sb_source b \<noteq> Unresolved_Attachment
    \<and> (\<forall>loc. sb_assignment b = Some loc \<longrightarrow>
        (\<exists>snap. gateway_get get loc s = Inr (Some snap) \<and> may_proceed P reg q snap))"
  by (rule check_permits [OF assms])

theorem check_permits_only_witness:
  "\<exists>v. check_session sample_platform (\<lambda>_. id) (sql_get sample_texts) (sql_mutate sample_texts) sample_unbound_sessions sample_call
      ''default'' sample_live_table = (Inr v, sample_live_table)
    \<and> (\<exists>b. session_get sample_unbound_sessions (tq_session sample_call) = Some b \<and> sb_owner b = ''default'')"
proof -
  obtain v where v: "check_session sample_platform (\<lambda>_. id) (sql_get sample_texts) (sql_mutate sample_texts) sample_unbound_sessions
      sample_call ''default'' sample_live_table = (Inr v, sample_live_table)" "hv_decision v = Permit"
    using sample_unbound_check by blast
  from check_permits_only [OF v] v show ?thesis by blast
qed

text \<open>
  Whatever another writer does between the read and the write of a redirect delivery, the
  delivery leaves its state as it is or replaces, in the workspace as that writer left it, only
  the assignment it read, and only if that assignment and the graph version are still the ones
  it read.
\<close>

theorem delivery_never_overwrites:
  assumes "sql_ok c s" and "sql_ok c (other s)"
    and "deliver_redirect_once other (sql_get c) (sql_mutate c) loc run s = (v, t)" and "t \<noteq> s"
  shows "(\<forall>j. sql_get c t j = sql_get c (other s) j) \<or>
    (\<exists>w u su k. sql_get c s (lo_workspace loc) = Inr w \<and> sql_get c (other s) (lo_workspace loc) = Inr u
       \<and> lw_supervisor u = Some su \<and> live_assignment_index u loc = Some k \<and> awaits_redirect (su_assignments su ! k) run
       \<and> lw_version u = lw_version w
       \<and> (\<forall>j. sql_get c t j = (if j = lo_workspace loc
             then Inr (u\<lparr>lw_supervisor := Some (su\<lparr>su_assignments := (su_assignments su)[k := redirected (su_assignments su ! k) (lw_version w)],
                            su_state := LS_Redirecting\<rparr>)\<rparr>)
             else sql_get c (other s) j)))"
  by (rule sql_repo.delivery_outcome [OF assms])

theorem delivery_never_overwrites_witness:
  "\<exists>v t. deliver_redirect_once id (sql_get sample_texts) (sql_mutate sample_texts) sample_locator ''R1'' sample_live_table = (v, t)
    \<and> ((\<forall>j. sql_get sample_texts t j = sql_get sample_texts sample_live_table j) \<or> t \<noteq> sample_live_table)"
proof -
  obtain v t where run: "deliver_redirect_once id (sql_get sample_texts) (sql_mutate sample_texts) sample_locator ''R1'' sample_live_table = (v, t)"
    by fastforce
  show ?thesis
  proof (cases "t = sample_live_table")
    case False
    from delivery_never_overwrites [OF sample_live_table_ok _ run False] sample_live_table_ok run False show ?thesis by auto
  qed (use run in auto)
qed

text \<open>
  When the hook echoes the redirect of the present interrupt, and no other writer interferes,
  the check moves the assignment on to REDIRECTED at the current graph version, changes no other
  workspace, and does not deny.
\<close>

theorem confirmed_redirect_advances:
  assumes "json_ok c s" and "session_get reg (tq_session q) = Some b" and "sb_owner b = owner_id"
    and "sb_source b \<noteq> Unresolved_Attachment" and "sb_assignment b = Some loc"
    and "json_get c s (lo_workspace loc) = Inr w" and "live_assignment_index w loc = Some k"
    and "a = record_assignments w ! k" and "as_state a = AS_Interrupted" and "as_provider a \<noteq> Codex"
    and "clean_optional (as_instruction a) \<noteq> None"
    and "bounded 1 255 (lw_version w)" and "strip (lw_version w) = lw_version w"
    and "\<forall>snap. snapshot_in w loc = Inr (Some snap) \<longrightarrow> tq_ack q = Some (interrupt_key P snap)"
    and "others 2 = id"
  shows "\<exists>r t. check_session P others (json_get c) (json_mutate c) reg q owner_id s = (r, t) \<and> json_ok c t
    \<and> keeps_others (json_get c) s (lo_workspace loc)
        (apply_redirect_delivery loc a (lw_version w) (redirected a (lw_version w)) w) t
    \<and> (\<forall>v. r = Inr v \<longrightarrow> hv_decision v = Permit)"
  by (rule json_repo.check_confirms) (fact assms)+

theorem confirmed_redirect_advances_witness:
  "\<exists>r t. check_session sample_platform (\<lambda>_. id) (json_get sample_texts) (json_mutate sample_texts) sample_bound_sessions
      sample_echo ''default'' (Some [sample_interrupted_record]) = (r, t) \<and> json_ok sample_texts t"
  using confirmed_redirect_advances [where others = "\<lambda>_. id" and P = sample_platform,
      OF sample_interrupted_ok sample_interrupted_facts(1-7) _ _ _ sample_interrupted_facts(10-12) refl] sample_interrupted_facts(8,9)
  by auto

text \<open>
  Starting a session registers it for the developer who calls, also when another developer had
  registered the same session id: the binding is replaced and the first owner's checks are
  refused from then on.
\<close>

theorem registration_takes_sessions_over:
  assumes "start_session F now records sid cwd branch owner_id s r = (Inr b, r')" and "strip owner_id = owner_id"
    and "first \<noteq> owner_id" and "tq_session q = sid"
  shows "session_get r' sid = Some b \<and> sb_owner b = owner_id
    \<and> check_session P others get mutate r' q first t = (Inl (ApiFailure 403 ''HOOK_SESSION_NOT_OWNED'' False), t)"
  using start_takes_over [OF assms(1,2)] check_foreign [of r' q b first] assms(3,4) by auto

theorem registration_takes_sessions_over_witness:
  "\<exists>b r'. start_session sample_files (Aware 0) (\<lambda>_. Inr []) ''S'' ''/d'' [] ''eve'' () sample_unbound_sessions = (Inr b, r')
    \<and> sb_owner b = ''eve''"
proof -
  obtain b r' where run: "start_session sample_files (Aware 0) (\<lambda>_. Inr []) ''S'' ''/d'' [] ''eve'' () sample_unbound_sessions = (Inr b, r')"
    using sample_takeover by blast
  have "strip ''eve'' = ''eve''" by code_simp
  from registration_takes_sessions_over [OF run this, of "''default''" sample_call sample_platform "\<lambda>_. id"
      "sql_get sample_texts" "sql_mutate sample_texts" sample_live_table]
  have "sb_owner b = ''eve''" by (simp add: sample_call_def)
  with run show ?thesis by blast
qed

text \<open>
  The registry keeps its sessions under their own stripped ids and an acknowledgement only while
  its session is registered; registering, releasing and acknowledging keep this, and a released
  session has no acknowledgement left, also when it registers again.
\<close>

theorem session_registry_invariant:
  assumes "sessions_ok r"
  shows "sessions_ok (snd (register F now sid cwd branch cands owner_id r))
    \<and> sessions_ok (snd (registry_acknowledge i key r))
    \<and> sessions_ok (snd (release sid r))
    \<and> session_get (snd (release sid r)) sid = None \<and> \<not> is_acknowledged (snd (release sid r)) (strip sid) key"
  using register_ok [OF assms prod.collapse [symmetric]] registry_acknowledge_ok [OF assms prod.collapse [symmetric]]
    release_ok [OF assms prod.collapse [symmetric]] release_forgets [OF assms prod.collapse [symmetric]] by blast

theorem session_registry_invariant_witness:
  "sessions_ok (snd (release ''S'' sample_unbound_sessions))"
  using session_registry_invariant [OF sample_sessions_ok] by blast

text \<open>
  A receipt, once returned, is what the same request gets for good: after any further requests,
  failed writes included, the call is answered with the stored receipt, whatever the provider
  would answer, and nothing is posted.
\<close>

theorem receipt_is_the_answer_for_good:
  assumes "file_ok C (lc_store s)" and "lc_posts s = []"
    and "create_call P (file_reserve C) (file_transition C) reply q
      (fold (\<lambda>(reply, q) s. snd (create_call P (file_reserve C) (file_transition C) reply q s)) before s) = (Inr receipt, t)"
    and "u = fold (\<lambda>(reply, q) s. snd (create_call P (file_reserve C) (file_transition C) reply q s)) after t"
  shows "create_call P (file_reserve C) (file_transition C) reply' q u = (Inr receipt, u)"
proof -
  have "file_attempts.calls_ok C P s" using assms(1,2) by (simp add: file_attempts.calls_ok_def calls_of_def)
  from file_attempts.at_most_one_call [OF this refl, THEN conjunct1]
  show ?thesis by (rule file_attempts.receipt_stands [OF _ assms(3,4)])
qed

theorem receipt_is_the_answer_for_good_witness:
  "\<exists>t. create_call sample_platform (file_reserve sample_attempt_texts) (file_transition sample_attempt_texts)
      sample_answer sample_dial sample_caller = (Inr (live_receipt ''C1'' ''queued''), t)
    \<and> create_call sample_platform (file_reserve sample_attempt_texts) (file_transition sample_attempt_texts)
      Call_Unreachable sample_dial t = (Inr (live_receipt ''C1'' ''queued''), t)"
proof -
  obtain t where run: "create_call sample_platform (file_reserve sample_attempt_texts) (file_transition sample_attempt_texts)
      sample_answer sample_dial sample_caller = (Inr (live_receipt ''C1'' ''queued''), t)" by (rule sample_dial_placed)
  from receipt_is_the_answer_for_good [OF sample_caller_ok, of sample_platform sample_answer sample_dial "[]" _ t t "[]" Call_Unreachable]
    run show ?thesis by auto
qed

text \<open>
  The one endpoint of the authority that answers without the internal token shows a caller who
  does not have it neither Slack identities nor approval evidence, only the public part of the
  context, and leaves the context as it is.
\<close>

theorem strangers_see_no_identities:
  assumes "supplied \<noteq> internal_service_token P secret" and "workspace_state_endpoint P secret supplied i r = (Inr v, r')"
  shows "cs_slack v = None \<and> cs_evidence v = [] \<and> (\<exists>c. dict_get (rg_contexts r) i = Some c
    \<and> v = public_state (context_state c) \<and> dict_get (rg_contexts r') i = Some c)"
  by (rule stranger_reads_no_identities [OF assms])

theorem strangers_see_no_identities_witness:
  "\<exists>v r'. workspace_state_endpoint sample_codec ''k'' [] ''live-wsp'' (rm_registry (sample_holding sample_after [])) = (Inr v, r')
    \<and> cs_evidence v = []"
proof -
  obtain v r' where run: "workspace_state_endpoint sample_codec ''k'' [] ''live-wsp'' (rm_registry (sample_holding sample_after [])) = (Inr v, r')"
    using sample_holding_fields(1) [of sample_after "[]"]
    by (auto simp: workspace_state_endpoint_def bind_op_def read_state_def access_def ret_op_def)
  from strangers_see_no_identities [OF _ run] sample_token_known run show ?thesis by auto
qed

text \<open>
  An edge of kind SUPERSEDES among the imported edges, which the import validator accepts, makes
  the check of the context against the record fail in every state the context can reach, so that
  no operation that ensures the context can succeed.
\<close>

theorem imported_supersession_never_matches:
  assumes "validate_graph_seed (context_request w) = Inr u" and "new_context P rg (context_request w) = Inr c"
    and "(context_step P th i)\<^sup>*\<^sup>* c c'"
    and "e \<in> set (graph_edges (lw_definition w))" and "edge_kind e = SUPERSEDES"
    and "edge_source e \<notin> (\<lambda>am. art_id (mut_decision (am_mutation am))) ` set (lw_approved w)"
  shows "\<not> context_matches P w (context_state c')"
  by (rule never_matches_imported_supersession [OF assms])

theorem imported_supersession_never_matches_witness:
  "validate_import sample_platform (lw_definition sample_stray_record) = Inr ()
    \<and> (\<exists>c. new_context sample_platform sample_registry (context_request sample_stray_record) = Inr c
      \<and> \<not> context_matches sample_platform sample_stray_record (context_state c))"
proof -
  obtain c where new: "new_context sample_platform sample_registry (context_request sample_stray_record) = Inr c"
    by (rule sample_stray_context)
  have "lw_approved sample_stray_record = []" by (simp add: sample_stray_record_def sample_imported_fields)
  then have "\<not> context_matches sample_platform sample_stray_record (context_state c)"
    using imported_supersession_never_matches [OF sample_stray_seeds new rtranclp.rtrancl_refl sample_stray_edge]
    by (simp add: sample_stray_def)
  with new sample_stray_valid show ?thesis by (auto simp: sample_stray_record_def)
qed

text \<open>
  What is shown to an approver is the pending proposal of the record: its own fingerprint,
  instance, decision, role and scopes, with requirements for exactly those scopes.
\<close>

theorem pending_approval_is_the_stored_one:
  assumes "pending_from_workspace P (from_record P w) = Inr (Some p)"
  shows "\<exists>m i. lw_pending w = Some m \<and> lw_pending_instance w = Some i
    \<and> pa_fingerprint p = strip (mutation_hash P m) \<and> pa_decision p = strip (art_id (mut_decision m))
    \<and> pa_instance p = strip i \<and> pa_workspace p = strip (lw_id w) \<and> pa_scopes p = strip ` mut_scopes m
    \<and> map_option strip (art_role (mut_decision m)) = Some (pa_permission p) \<and> fst ` set (pa_requirements p) = pa_scopes p"
  by (rule pending_from_record [OF assms]) blast

theorem pending_approval_is_the_stored_one_witness:
  "\<exists>p. pending_from_workspace sample_hex (from_record sample_hex sample_proposed) = Inr (Some p)
    \<and> pa_decision p = ''D1''"
proof -
  obtain p where p: "pending_from_workspace sample_hex (from_record sample_hex sample_proposed) = Inr (Some p)"
    by (rule sample_proposed_shown)
  from pending_approval_is_the_stored_one [OF p] p sample_proposed_id show ?thesis
    by (auto simp: sample_proposed_def sample_decision_def sample_artifact_def)
qed

text \<open>
  After the repair of its offsets, an extraction passes the check of its evidence exactly when
  every quote occurs in the source, but for one case: a span whose slice is its text already and
  whose end lies beyond the source is left alone and refused.
\<close>

theorem repair_finds_every_quote:
  assumes "extraction_fields_ok x"
  shows "evidence_span_error raw (xt_spans (repair_evidence_offsets raw x)) = None
    \<longleftrightarrow> (\<forall>s\<in>set (xt_spans x). str_in (sp_text s) raw \<and> \<not> overlong raw s)"
  by (rule repair_accepts_quotes [OF assms])

theorem repair_finds_every_quote_witness:
  "evidence_span_error ''ship'' (xt_spans (repair_evidence_offsets ''ship'' sample_candidate)) = None"
proof -
  have "extraction_fields_ok sample_candidate"
    "\<forall>s\<in>set (xt_spans sample_candidate). str_in (sp_text s) ''ship'' \<and> \<not> overlong ''ship'' s"
    by code_simp+
  then show ?thesis using repair_finds_every_quote [of sample_candidate "''ship''"] by blast
qed

text \<open>
  When the notifier returns, the message that it posted is bound, in the file of threads, to the
  pending decision it shows (or was bound to the same one already), and is open for one
  reaction.
\<close>

theorem posted_preview_is_bound:
  assumes "notify_thread preview mode send stamp n x = (Inr (b, m, rc), y)"
  shows "\<exists>q. json_thread (fst y) (thread_key_of (sn_team n) (sn_channel n) (sp_message rc)) = Some (q, None)
    \<and> (q = sn_pending n \<or> pending_same q (sn_pending n))"
  by (rule notified_thread [OF assms])

theorem posted_preview_is_bound_witness:
  "\<exists>q. json_thread (Threads [\<lparr>th_key = (''tm'', ''ch'', ''9''), th_pending = sample_shown, th_consumed = None\<rparr>])
      (thread_key_of (sn_team sample_notice) (sn_channel sample_notice) (sp_message sample_receipt)) = Some (q, None)
    \<and> (q = sn_pending sample_notice \<or> pending_same q (sn_pending sample_notice))"
  using posted_preview_is_bound [OF sample_notified] by simp

text \<open>
  What a user wrote can be read back from its escaped form, up to the white space that the
  preview normalizes: the three replacements, done one after the other, never confuse what was
  written with what was escaped.
\<close>

theorem escaped_text_reads_back:
  "read_escaped (escape_user_text v) = normalize_ws v"
  by (rule read_escaped_text)

text \<open>
  An answer that says the caches are invalidated is backed by the evidence file: the event it
  names is completed there. The answer to a delivery that was completed before changes nothing;
  the answer to a new one has cleared the caches of both services.
\<close>

theorem webhook_answer_is_recorded:
  assumes "receive_hexclave_webhook P grant agent_grant V parse_int k declared chunks headers w = (Inr answer, w')"
    and "dict_get answer ''status'' = Some (PStr ''permission-cache-invalidated'')"
  shows "\<exists>d. dict_get answer ''delivery_id'' = Some (PStr d) \<and> completed_in d (ww_evidence w')
    \<and> (dict_get answer ''duplicate'' = Some (PBool True) \<longrightarrow> w' = w)
    \<and> (dict_get answer ''duplicate'' = Some (PBool False) \<longrightarrow> all_cleared (ww_authority w') \<and> all_cleared (ww_agent w'))"
  by (rule webhook_answer_recorded [OF assms])

theorem webhook_answer_is_recorded_witness:
  "\<exists>answer d. receive_hexclave_webhook sample_platform ''g'' ''g'' (Some sample_webhook_verifier) (\<lambda>_. None) sample_webhook_call None
      [sample_webhook_body] sample_webhook_headers sample_webhook_world = (Inr answer, sample_webhook_done)
    \<and> dict_get answer ''delivery_id'' = Some (PStr d) \<and> completed_in d (ww_evidence sample_webhook_done)"
proof -
  obtain answer where run: "receive_hexclave_webhook sample_platform ''g'' ''g'' (Some sample_webhook_verifier) (\<lambda>_. None) sample_webhook_call
      None [sample_webhook_body] sample_webhook_headers sample_webhook_world = (Inr answer, sample_webhook_done)"
    and status: "dict_get answer ''status'' = Some (PStr ''permission-cache-invalidated'')"
    using sample_webhook_clears by blast
  show ?thesis using run webhook_answer_is_recorded [OF run status] by blast
qed

end
