(* ===== verification/Spec2Isabelle.thy ===== *)
theory Spec2Isabelle
  imports Session_Samples Channel_Samples Permission_Samples Further_Results
begin

text \<open>
  writ.ai keeps the work of coding agents in step with the decisions a team has approved. A
  graph of artifacts (decisions, specifications, tickets, tasks, plans) records what each one
  rests on. An agent submits a plan and gets a verdict; a plan that meets the current
  requirements gets a signed grant bound to the graph's version. When a decision replaces
  another, the authority marks the work it reaches, the version moves on, and the grants issued
  before it no longer verify; the supervisor of the workspace redirects the assignments that the
  change hit.

  The theories follow the program, each one importing what its code calls (paths are under
  \<^verbatim>\<open>src/backend/writai/\<close>):

    \<^item> \<^verbatim>\<open>Prelude\<close>, \<^verbatim>\<open>Py_Strings\<close>: Python exceptions as values, operations on a state, insertion
      ordered dicts as association lists, and the string methods the code calls.
    \<^item> \<^verbatim>\<open>Domain\<close> (\<^verbatim>\<open>domain.py\<close>): enums and models. \<^verbatim>\<open>Hashing\<close> (\<^verbatim>\<open>hashing.py\<close>): canonical JSON and
      its injectivity. \<^verbatim>\<open>Grants\<close> (\<^verbatim>\<open>grants.py\<close>): base64 and the signed token.
    \<^item> \<^verbatim>\<open>Graph\<close> (\<^verbatim>\<open>graph/memory.py\<close>, \<^verbatim>\<open>provenance.py\<close>): the store, with the locale \<^verbatim>\<open>graph_store\<close> for
      the protocol of \<^verbatim>\<open>graph/base.py\<close>, interpreted on the in-memory store.
    \<^item> \<^verbatim>\<open>Authority\<close>, \<^verbatim>\<open>Invalidation\<close>, \<^verbatim>\<open>Decision_Change\<close>, \<^verbatim>\<open>Evaluation\<close>, \<^verbatim>\<open>Authorization\<close>
      (\<^verbatim>\<open>authority/engine.py\<close>): a decision change and its breadth-first invalidation, the
      specification by reachability that it is proved to meet, the verdict on a plan, the
      verification of a grant, and what holds of a grant over a history of changes.
    \<^item> \<^verbatim>\<open>Loop\<close> (\<^verbatim>\<open>loop/workflow.py\<close>): the agent's controller and the workflow graph.
    \<^item> \<^verbatim>\<open>Supervisor\<close> (\<^verbatim>\<open>workspaces/supervisor.py\<close>, \<^verbatim>\<open>workspaces/runtimes/claude_code.py\<close>): assignments,
      action resolution, and the two runtimes behind the locale \<^verbatim>\<open>supervisor_runtime\<close>.
    \<^item> \<^verbatim>\<open>Workspace_Model\<close> (\<^verbatim>\<open>workspaces/models.py\<close>): the validator of an import and the graph it
      seeds. \<^verbatim>\<open>Repository\<close> (\<^verbatim>\<open>workspaces/repository.py\<close>): the two stores behind the locale
      \<^verbatim>\<open>live_repository\<close>, and the migration between them.
    \<^item> \<^verbatim>\<open>Authority_Contexts\<close> (\<^verbatim>\<open>workspaces/authority_contexts.py\<close>): the registry of contexts, their
      approvals, and the replay that rebuilds one.
    \<^item> \<^verbatim>\<open>Interrupt\<close> (\<^verbatim>\<open>supervisor_contract.py\<close>, \<^verbatim>\<open>workspaces/live_interrupt.py\<close>,
      \<^verbatim>\<open>workspaces/interrupt_port.py\<close>): what an approved change interrupts, its preview and its record,
      over either repository; a request is answered once.
    \<^item> \<^verbatim>\<open>Session_Binding\<close> (\<^verbatim>\<open>workspaces/session_binding.py\<close>): which assignment a coding session works on,
      and the registry of sessions. \<^verbatim>\<open>Session_Enforcement\<close> (\<^verbatim>\<open>workspaces/session_enforcement.py\<close>): the
      answer to a tool call, and the delivery of a redirect while others write.
    \<^item> \<^verbatim>\<open>Views\<close> (\<^verbatim>\<open>workspaces/models.py\<close>, \<^verbatim>\<open>intake/approval.py\<close>): the public view of a record, which
      shows no secret, and the pending approval read from it.
    \<^item> \<^verbatim>\<open>Orchestrator_Writes\<close> and \<^verbatim>\<open>Orchestrator\<close> (\<^verbatim>\<open>workspaces/orchestrator.py\<close>): the functions that each
      method passes to the repository, and the methods as sequences of repository and authority
      calls, other writers between them. \<^verbatim>\<open>Lifecycle\<close>: the writes as the steps of a record's life, its
      invariant and what an assignment goes through. \<^verbatim>\<open>Orchestrator_Runs\<close>: the methods refine that
      life, proved once for the locale \<^verbatim>\<open>live_repository\<close> and so for both stores.
    \<^item> \<^verbatim>\<open>Preview\<close> (\<^verbatim>\<open>workspaces/orchestrator.py\<close>): the preview of a change, which foretells what the
      engine invalidates.
    \<^item> \<^verbatim>\<open>Callwright\<close> (\<^verbatim>\<open>integrations/callwright.py\<close>): placing a call, with the locale \<^verbatim>\<open>attempt_store\<close>
      interpreted on the store in memory and on the one in a file.
    \<^item> \<^verbatim>\<open>Transport\<close> (\<^verbatim>\<open>workspaces/transport.py\<close>, \<^verbatim>\<open>services/support.py\<close>, \<^verbatim>\<open>services/authority_api.py\<close>,
      \<^verbatim>\<open>services/executor_api.py\<close>): the network between the services, as a schedule of faults, the
      endpoints of the authority and the executor. \<^verbatim>\<open>Recovery\<close>: a record and its context that went
      through the same approvals, and the rebuild of a lost context over that network. \<^verbatim>\<open>Boundary\<close>:
      what crosses it, stale grants, lost replies and strangers.
    \<^item> \<^verbatim>\<open>Extractor\<close> (\<^verbatim>\<open>llm/extractor.py\<close>): the checks of what a language model extracted, the repair
      of its quotes, and the change that it becomes under a trusted context. \<^verbatim>\<open>Intake\<close>
      (\<^verbatim>\<open>intake/gate.py\<close>, \<^verbatim>\<open>intake/decisions.py\<close>, \<^verbatim>\<open>intake/slack.py\<close>): the gate, the proposal built of a
      candidate, and the parsing of a signed delivery; what intake lets pass, the authority accepts.
      \<^verbatim>\<open>Deliveries\<close> (\<^verbatim>\<open>intake/replay.py\<close>, \<^verbatim>\<open>services/authority_api.py\<close>): the two replay stores, behind the
      locales \<^verbatim>\<open>replay_guard\<close> and \<^verbatim>\<open>once_guard\<close>, and the route of a signed message, which acts once.
    \<^item> \<^verbatim>\<open>Approvals\<close> (\<^verbatim>\<open>intake/approval.py\<close>, \<^verbatim>\<open>services/agent_api.py\<close>): the coordinator of approvals, the
      credentials, and the routes that approve; nothing is approved that its human did not confirm,
      stated as the irrelevance of the approving port on every other input.
    \<^item> \<^verbatim>\<open>Approval_Links\<close> (\<^verbatim>\<open>notify/email.py\<close>): signed links and the assertions that forward them, the
      directory of recipients, the ledgers that let each be used once (in memory, in a file and in a
      table, the locale \<^verbatim>\<open>use_ledger\<close>), and the redeemer. \<^verbatim>\<open>Link_Routes\<close> (\<^verbatim>\<open>services/authority_api.py\<close>,
      \<^verbatim>\<open>services/agent_api.py\<close>): a link on its way through both services and the network between them.
      \<^verbatim>\<open>Slack_Threads\<close> (\<^verbatim>\<open>notify/slack.py\<close>, \<^verbatim>\<open>services/authority_api.py\<close>): the preview posted to a thread, the
      two stores of threads behind the locale \<^verbatim>\<open>thread_store\<close>, and the reaction that approves, from its
      signed delivery to the agent.
    \<^item> \<^verbatim>\<open>Permissions\<close> (\<^verbatim>\<open>auth/hexclave.py\<close>, \<^verbatim>\<open>auth/hexclave_webhooks.py\<close>,
      \<^verbatim>\<open>services/authority_api.py\<close>, \<^verbatim>\<open>services/agent_api.py\<close>): the permission checker with its
      cache, the resolvers of an identity, and the webhook that empties the caches of both services; what a log of
      questions shows about the age of an answer. \<^verbatim>\<open>Permission_Samples\<close> holds the inputs of their witnesses.
    \<^item> \<^verbatim>\<open>Samples\<close>, \<^verbatim>\<open>Session_Samples\<close>, \<^verbatim>\<open>Orchestrator_Samples\<close>,
      \<^verbatim>\<open>Intake_Samples\<close>, \<^verbatim>\<open>Channel_Samples\<close>: a small workspace and its sessions,
      contexts, remotes and channels, on which the theorems are instantiated.
    \<^item> \<^verbatim>\<open>Further_Results\<close>: theorems on these components beside the properties below.

  Conventions. A Python exception is the left side of \<^verbatim>\<open>result\<close>; an operation maps a state to a
  result and the state after it, so that what a raise leaves behind is visible. Objects that the
  code mutates through an alias are written back to every place that holds them. A dict is an
  association list in insertion order; a set is a HOL set, and where the code iterates over one
  the order is the field \<^verbatim>\<open>set_order\<close> of the platform. SHA-256, HMAC, the text of a float and of a
  datetime, and the JSON parser that reads a stored text back are fields of a platform or of a
  codec; the facts used of them (\<^verbatim>\<open>float_repr_ok\<close>, \<^verbatim>\<open>set_order_ok\<close>, \<^verbatim>\<open>codec_ok\<close>, \<^verbatim>\<open>codec_round_trip\<close>)
  are hypotheses of the theorems, and \<^verbatim>\<open>no_collision\<close> is used only on the two texts compared.
  Times are integers, microseconds since the epoch; confidences and thresholds are rationals.

  Bounds and fuel. Every loop of the engine and of the validators ends by a measure (unvisited
  artifacts plus the queue), with no fuel. The workflow graph takes the number of node executions
  that its scheduler allows: four are enough for a plan that one correction repairs
  (\<^verbatim>\<open>workflow_corrects_plan\<close>), and none are enough when a scope is not covered
  (\<^verbatim>\<open>uncovered_scope_loops\<close>).

  Not modelled: the routes of the HTTP services beyond those named above, the command line, hooks
  and scripts, the Neo4j store, the language model adapters, the rendering and sending of email and push
  notifications, escalation calls and the scenario lab, which are input and output around these components or fixed demonstration data; the locks,
  whose effect (one call at a time) is the model's sequence of calls; and the Pydantic parsing of
  request bodies, so that records start as parsed values.
\<close>

text \<open>
  C1. A decision change that passes every guard is applied: the stored graph gains exactly the
  new decision and its SUPERSEDES edge, the version goes up by one, the artifacts that the
  superseded decision reaches through artifacts sharing a changed scope are marked by their own
  scopes, every other artifact is as before, and the report lists exactly the affected and the
  spared ones.
\<close>

theorem applied_change_effect:
  assumes "wf_graph (au_graph au)" and "\<not> g_in_txn (au_graph au)" and "change_ok au m"
  shows "\<exists>rep g'. apply_decision_change m au =
      (Inr \<lparr>mres_applied = True,
            mres_reason = ''Approved decision applied and affected work re-evaluated.'',
            mres_version = version_label g', mres_verdict = None, mres_report = Some rep\<rparr>,
       au\<lparr>au_graph := g', au_report := Some rep\<rparr>)
    \<and> report_ok (au_graph au) (mut_scopes m) (art_id (mut_decision m)) (mut_supersedes m) rep
    \<and> rep_version rep = version_label g'
    \<and> wf_graph g' \<and> \<not> g_in_txn g' \<and> g_version g' = g_version (au_graph au) + 1
    \<and> g_edges g' = g_edges (au_graph au) @ [supersedes_edge m]
    \<and> (\<forall>i. get_artifact g' i = (if i = art_id (mut_decision m) then Inr (mut_decision m)
         else map_sum id (if affected_by (au_graph au) (mut_scopes m) (mut_supersedes m) i
                          then marked (mut_scopes m) else id) (get_artifact (au_graph au) i)))"
  by (rule apply_decision_change_applies [OF assms])

theorem applied_change_effect_witness:
  "\<exists>g'. au_graph (snd (apply_decision_change sample_change sample_authority)) = g' \<and> g_version g' = 2"
  using applied_change_effect [of sample_authority sample_change] sample_graph_wf sample_graph_idle sample_change_ok
  by (auto simp: sample_graph_def reset_def)

text \<open>
  C2. Propagation from the superseded decision always returns, marks exactly the artifacts
  reached through downstream edges between artifacts that share a changed scope, and writes a
  report whose lists (affected, preserved, stopped, invalidated tasks, needing review,
  provenance paths) are the ones the graph determines; version and edges stay.
\<close>

theorem invalidation_reaches_exactly:
  assumes "wf_graph g" and "get_artifact g r = Inr a"
  shows "\<exists>rep g'. propagate_invalidation c r A g = (Inr rep, g')
    \<and> report_ok g A (art_id c) r rep \<and> rep_version rep = version_label g
    \<and> wf_graph g' \<and> g_version g' = g_version g \<and> g_edges g' = g_edges g
    \<and> (\<forall>i. get_artifact g' i = map_sum id (if affected_by g A r i then marked A else id) (get_artifact g i))"
  by (rule propagate_invalidation_spec [OF assms])

theorem invalidation_reaches_exactly_witness:
  "\<exists>rep g'. propagate_invalidation (sample_decision ''D1'' 2 Approved) ''T'' {''s''} sample_graph = (Inr rep, g')
    \<and> rep_version rep = ''graph-v1''"
  using invalidation_reaches_exactly [OF sample_graph_wf sample_ticket,
      of "sample_decision ''D1'' 2 Approved" "{''s''}"]
  unfolding sample_version by blast

text \<open>
  C3. After any sequence of decision changes that changed the authority at all, no token bound
  to the earlier graph version verifies any more, for any run, task, plan or time.
\<close>

theorem grant_dies_with_the_decision:
  assumes "wf_graph (au_graph au)" and "\<not> g_in_txn (au_graph au)"
    and "decision_step\<^sup>*\<^sup>* au au'" and "au' \<noteq> au"
    and "decode P (au_signer au) token = Inr p" and "gp_snapshot p = version_label (au_graph au)"
  shows "\<not> (\<exists>res. verify_grant P now uid au' token run task_id plan = Inr res \<and> vr_valid res)"
  by (rule grant_stale_after_changes [OF assms])

theorem grant_dies_with_the_decision_witness:
  "\<not> (\<exists>res. verify_grant sample_codec 5 [] (snd (apply_decision_change sample_change sample_authority))
      (sg_token sample_grant) ''R'' ''T'' (sample_plan 1) = Inr res \<and> vr_valid res)"
  by (rule grant_dies_with_the_decision [of sample_authority])
     (use sample_graph_wf sample_graph_idle sample_step sample_decodes sample_snapshot in
       \<open>auto simp: sample_changed_def\<close>)

text \<open>
  C4. Whatever method of the orchestrator runs, whatever the authority service answers and
  whatever lifecycle writes other writers make between its steps, every record in the SQLite
  store stays valid: history numbered without gaps, a proposal pending exactly in its status, an
  intent bound to it, approvals with evidence bound to them, a correction only after a grant
  found stale, completion only with a granted replacement.
\<close>

theorem stored_records_stay_valid:
  assumes "store_sound (sql_ok c) (sql_get c) P R (fst x)" and "store_steady (sql_ok c) (sql_get c) P R others"
    and "parsed_call P call"
    and "run_orchestrator \<lparr>sv_get = sql_get c, sv_list = listing, sv_create = sql_create c, sv_mutate = sql_mutate c,
       sv_transport = T, sv_runtime = R, sv_platform = P\<rparr>
      others now call x = (r, y)"
  shows "store_sound (sql_ok c) (sql_get c) P R (fst y) \<and> (\<forall>j w. sql_get c (fst y) j = Inr w \<longrightarrow> record_ok P w)"
  by (rule sql_repo.stored_records_ok [OF assms])

theorem stored_records_stay_valid_witness:
  "\<exists>r y. run_orchestrator \<lparr>sv_get = sql_get sample_texts, sv_list = \<lambda>_. Inr [], sv_create = sql_create sample_texts,
       sv_mutate = sql_mutate sample_texts, sv_transport = http_transport sample_codec 0 [] sample_site (\<lambda>_. raise_op (NotFound [])),
       sv_runtime = sample_claude, sv_platform = sample_platform\<rparr>
      (\<lambda>_. id) (Aware 1) (Record_Rejection ''wsp'' sample_rejection) (sample_workspaces, sample_evicted) = (r, y)
    \<and> (\<forall>w. sql_get sample_texts (fst y) ''wsp'' = Inr w \<longrightarrow> record_ok sample_platform w)"
proof -
  obtain r y where run: "run_orchestrator \<lparr>sv_get = sql_get sample_texts, sv_list = \<lambda>_. Inr [], sv_create = sql_create sample_texts,
       sv_mutate = sql_mutate sample_texts, sv_transport = http_transport sample_codec 0 [] sample_site (\<lambda>_. raise_op (NotFound [])),
       sv_runtime = sample_claude, sv_platform = sample_platform\<rparr>
      (\<lambda>_. id) (Aware 1) (Record_Rejection ''wsp'' sample_rejection) (sample_workspaces, sample_evicted) = (r, y)" by (rule prod.exhaust)
  have "store_sound (sql_ok sample_texts) (sql_get sample_texts) sample_platform sample_claude (fst (sample_workspaces, sample_evicted))"
    using sample_workspaces_sound by simp
  from stored_records_stay_valid [OF this sample_alone _ run] run show ?thesis by (auto simp: parsed_call_def)
qed

text \<open>
  C5. Every method of the orchestrator refines the life of a record: over the JSON store, in the
  company of other writers and of any authority service, each stored record is still there and
  has only taken steps of its lifecycle, and records that appear are imported ones on their
  lifecycle.
\<close>

theorem orchestrator_refines_lifecycle:
  assumes "store_sound (json_ok c) (json_get c) P R (fst x)" and "store_steady (json_ok c) (json_get c) P R others"
    and "parsed_call P call"
    and "run_orchestrator \<lparr>sv_get = json_get c, sv_list = listing, sv_create = json_create c, sv_mutate = json_mutate c,
       sv_transport = T, sv_runtime = R, sv_platform = P\<rparr>
      others now call x = (r, y)"
  shows "(\<forall>j w'. json_get c (fst y) j = Inr w' \<longrightarrow> lifecycle P R w')
    \<and> (\<forall>j w. json_get c (fst x) j = Inr w \<longrightarrow>
      (\<exists>w'. json_get c (fst y) j = Inr w' \<and> (lifecycle_step P R)\<^sup>*\<^sup>* w w'))"
  using json_repo.evolvingD [OF json_repo.call_evolves [OF assms(2,3)] assms(1,4)]
  by (simp_all add: store_evolves_def store_sound_def)

theorem orchestrator_refines_lifecycle_witness:
  "\<exists>r y. run_orchestrator \<lparr>sv_get = json_get sample_texts, sv_list = \<lambda>_. Inr [], sv_create = json_create sample_texts,
       sv_mutate = json_mutate sample_texts, sv_transport = http_transport sample_codec 0 [] sample_site (\<lambda>_. raise_op (NotFound [])),
       sv_runtime = sample_claude, sv_platform = sample_platform\<rparr>
      (\<lambda>_. id) (Aware 1) (Cancel_Pending ''wsp'') (sample_documents, sample_evicted) = (r, y)
    \<and> (\<exists>w'. json_get sample_texts (fst y) ''wsp'' = Inr w' \<and> (lifecycle_step sample_platform sample_claude)\<^sup>*\<^sup>* sample_imported w')"
proof -
  obtain r y where run: "run_orchestrator \<lparr>sv_get = json_get sample_texts, sv_list = \<lambda>_. Inr [], sv_create = json_create sample_texts,
       sv_mutate = json_mutate sample_texts, sv_transport = http_transport sample_codec 0 [] sample_site (\<lambda>_. raise_op (NotFound [])),
       sv_runtime = sample_claude, sv_platform = sample_platform\<rparr>
      (\<lambda>_. id) (Aware 1) (Cancel_Pending ''wsp'') (sample_documents, sample_evicted) = (r, y)" by (rule prod.exhaust)
  have "store_sound (json_ok sample_texts) (json_get sample_texts) sample_platform sample_claude (fst (sample_documents, sample_evicted))"
    using sample_documents_sound by simp
  from orchestrator_refines_lifecycle [OF this json_repo.steady_alone _ run] run sample_documents_get
  show ?thesis by (auto simp: parsed_call_def)
qed

text \<open>
  C6. From the executor to the authority and back: once a change has been approved in a context,
  a token of a grant issued before it leads to no call, whatever the network does to the
  verification; the client of the call provider is not touched and no execution is reported as
  applied.
\<close>

theorem superseded_grant_places_no_call:
  fixes x :: "'k remote"
  assumes "context_ok c" and "(context_step P th i)\<^sup>*\<^sup>* c c'" and "length (cx_mutations c) < length (cx_mutations c')"
    and "decode P (au_signer (cx_authority c)) token = Inr p" and "gp_snapshot p = version_label (au_graph (cx_authority c))"
    and "dict_get (rg_contexts (rm_registry x)) i = Some c'"
    and "execute P now uid S client i token run task plan x = (res, x')"
  shows "rm_client x' = rm_client x \<and> (\<forall>e. res = Inr e \<longrightarrow> \<not> ex_applied e)"
  by (rule no_call_for_superseded_grant [OF assms])

theorem superseded_grant_places_no_call_witness:
  "\<exists>res x'. execute sample_codec 5 [] sample_site (\<lambda>_. raise_op (NotFound [])) ''live-wsp'' (sg_token sample_ready_grant) ''R'' ''T''
      (sample_plan 1) (sample_holding sample_after [Fine]) = (res, x')
    \<and> (\<forall>e. res = Inr e \<longrightarrow> \<not> ex_applied e)"
proof -
  obtain res x' where run: "execute sample_codec 5 [] sample_site (\<lambda>_. raise_op (NotFound [])) ''live-wsp'' (sg_token sample_ready_grant)
      ''R'' ''T'' (sample_plan 1) (sample_holding sample_after [Fine]) = (res, x')" by (rule prod.exhaust)
  from superseded_grant_places_no_call [OF sample_ready_ok(1) sample_after_step sample_after_newer sample_ready_decodes
      sample_holding_fields(1) run] run show ?thesis by blast
qed

text \<open>
  C7. From the request of a signed link to the approval in the agent, through both services and
  over a network that may lose the request or the reply: a link approves nothing but what it was
  issued for. Either the approving port of the agent is not reached (whatever it would do, the
  outcome is the same), or the link carries the authority's own signature and its time has not
  run out, it was not used before, the record of its workspace has its decision pending under
  its fingerprint and instance, and the permission service said yes to its approver. The
  hypothesis says that the agent's JSON reader returns what the authority wrote.
\<close>

theorem link_approves_what_it_was_issued_for:
  assumes "\<forall>S S' c f. approval_link_signer C = Inr S \<longrightarrow> channel_assertion_signer (sv_platform E) C = Inr S'
      \<longrightarrow> decode_link (sv_platform E) S (rc_signer_now k) token channel = Inr c
      \<longrightarrow> issue_notification S' (rc_forward_now k) (rc_id k) c = Inr f
      \<longrightarrow> cc_assertion C' (json_dumps (sv_platform E) (assertion_dump (sv_platform E) f)) = Inr f"
  shows "redeem_approval_link (sv_platform E) C
        (agent_post fault (sv_platform E) C' ((agent_ports E others meanwhile now resolve checker team notify)\<lparr>ap_decide := g\<rparr>) k') k channel token x
      = redeem_approval_link (sv_platform E) C
        (agent_post fault (sv_platform E) C' (agent_ports E others meanwhile now resolve checker team notify) k') k channel token x
    \<or> link_confirmed (sv_platform E) checker team C k channel token (fst x) (sv_get E (fst (fst (snd (snd x)))))"
  using assms by (intro redeem_confirmed [OF refl]) blast

theorem link_approves_what_it_was_issued_for_witness:
  "decode_link sample_platform sample_link_signer (rc_signer_now sample_redemption) sample_link_token Email = Inr sample_link
    \<and> (redeem_approval_link sample_platform sample_channel (agent_post Fine sample_platform sample_channel
          (sample_ports\<lparr>ap_decide := \<lambda>i d q. raise_op (NotFound [])\<rparr>) sample_agent_call) sample_redemption Email sample_link_token
          ([], [], (sample_workspaces, sample_evicted), 0)
        = redeem_approval_link sample_platform sample_channel (agent_post Fine sample_platform sample_channel sample_ports
          sample_agent_call) sample_redemption Email sample_link_token ([], [], (sample_workspaces, sample_evicted), 0)
      \<or> link_confirmed sample_platform (\<lambda>_. Inr sample_asked) ''team'' sample_channel sample_redemption Email sample_link_token []
          (sql_get sample_texts sample_workspaces))"
proof -
  have desk: "sv_platform sample_desk = sample_platform" "sv_get sample_desk = sql_get sample_texts" by (simp_all add: sample_desk_def)
  have "\<forall>S S' c f. approval_link_signer sample_channel = Inr S \<longrightarrow> channel_assertion_signer sample_platform sample_channel = Inr S'
      \<longrightarrow> decode_link sample_platform S (rc_signer_now sample_redemption) sample_link_token Email = Inr c
      \<longrightarrow> issue_notification S' (rc_forward_now sample_redemption) (rc_id sample_redemption) c = Inr f
      \<longrightarrow> cc_assertion sample_channel (json_dumps sample_platform (assertion_dump sample_platform f)) = Inr f"
    using sample_channel_reads by blast
  note approves = link_approves_what_it_was_issued_for [where E = sample_desk and C = sample_channel and k = sample_redemption
    and token = sample_link_token and channel = Email and C' = sample_channel, unfolded desk, OF this, where fault = Fine and others = "\<lambda>_. id"
    and meanwhile = id and now = "Aware 9" and resolve = "\<lambda>t h. (Inr ''alice'', h)" and checker = "\<lambda>_. Inr sample_asked"
    and team = "''team''" and notify = "\<lambda>_ _ h. h" and g = "\<lambda>i d q. raise_op (NotFound [])" and k' = sample_agent_call
    and x = "([], [], (sample_workspaces, sample_evicted), 0)"]
  have "rc_signer_now sample_redemption = Aware 5" by (simp add: sample_redemption_def)
  then show ?thesis using approves sample_link_decodes by (simp add: sample_ports_def)
qed

text \<open>
  C8. A reaction approves nothing but the decision of its own thread, through both services and
  any fault of the network: where the agent's approving port is reached at all, the reaction is
  the check mark, its thread is bound to a pending decision and not settled, the Slack user is
  bound to a user of that workspace, and the workspace's record has that decision pending under
  the fingerprint and instance the thread was bound to, with the permission service's yes to
  that user.
\<close>

theorem reaction_approves_its_thread:
  assumes "\<forall>S p user f. channel_assertion_signer (sv_platform E) C = Inr S
      \<longrightarrow> json_resolve (reaction_key r) (fst x) = (Inr (Some p), fst x) \<longrightarrow> resolve_hexclave_user_id b p r = Some user
      \<longrightarrow> issue_slack S t new_id source p user (sr_evidence r) = Inr f
      \<longrightarrow> cc_assertion C' (json_dumps (sv_platform E) (assertion_dump (sv_platform E) f)) = Inr f"
  shows "handle_reaction b (approve_reaction (sv_platform E) C (agent_post fault (sv_platform E) C'
        ((agent_ports E others meanwhile now resolve checker team notify)\<lparr>ap_decide := g\<rparr>) k) t new_id source) r x
      = handle_reaction b (approve_reaction (sv_platform E) C (agent_post fault (sv_platform E) C'
        (agent_ports E others meanwhile now resolve checker team notify) k) t new_id source) r x
    \<or> reaction_confirms (sv_platform E) checker team b r (fst x) (sv_get E (fst (fst (snd (snd x)))))"
  using assms by (intro reaction_confirmed_by_thread [OF refl]) blast

theorem reaction_approves_its_thread_witness:
  "json_resolve (reaction_key sample_reaction) sample_threads = (Inr (Some sample_shown), sample_threads)
    \<and> (handle_reaction sample_slack_binding (approve_reaction sample_platform sample_channel (agent_post Fine sample_platform
          sample_thread_channel (sample_ports\<lparr>ap_decide := \<lambda>i d q. raise_op (NotFound [])\<rparr>) sample_agent_call) (Aware 7)
          (replicate 16 (CHR ''b'')) (replicate 16 (CHR ''c''))) sample_reaction
          (sample_threads, [], (sample_workspaces, sample_evicted), 0)
        = handle_reaction sample_slack_binding (approve_reaction sample_platform sample_channel (agent_post Fine sample_platform
          sample_thread_channel sample_ports sample_agent_call) (Aware 7) (replicate 16 (CHR ''b'')) (replicate 16 (CHR ''c'')))
          sample_reaction (sample_threads, [], (sample_workspaces, sample_evicted), 0)
      \<or> reaction_confirms sample_platform (\<lambda>_. Inr sample_asked) ''team'' sample_slack_binding sample_reaction sample_threads
          (sql_get sample_texts sample_workspaces))"
proof -
  have desk: "sv_platform sample_desk = sample_platform" "sv_get sample_desk = sql_get sample_texts" by (simp_all add: sample_desk_def)
  let ?x = "(sample_threads, [], (sample_workspaces, sample_evicted), 0)"
  have "\<forall>S p user f. channel_assertion_signer sample_platform sample_channel = Inr S
      \<longrightarrow> json_resolve (reaction_key sample_reaction) (fst ?x) = (Inr (Some p), fst ?x)
      \<longrightarrow> resolve_hexclave_user_id sample_slack_binding p sample_reaction = Some user
      \<longrightarrow> issue_slack S (Aware 7) (replicate 16 (CHR ''b'')) (replicate 16 (CHR ''c'')) p user (sr_evidence sample_reaction) = Inr f
      \<longrightarrow> cc_assertion sample_thread_channel (json_dumps sample_platform (assertion_dump sample_platform f)) = Inr f"
    unfolding sample_thread_found(1) fst_conv using sample_thread_reads by blast
  note approves = reaction_approves_its_thread [where E = sample_desk and C = sample_channel and r = sample_reaction and x = ?x and b = sample_slack_binding
    and t = "Aware 7" and new_id = "replicate 16 (CHR ''b'')" and source = "replicate 16 (CHR ''c'')" and C' = sample_thread_channel,
    unfolded desk, OF this, where fault = Fine and others = "\<lambda>_. id" and meanwhile = id and now = "Aware 9"
    and resolve = "\<lambda>t h. (Inr ''alice'', h)" and checker = "\<lambda>_. Inr sample_asked" and team = "''team''" and notify = "\<lambda>_ _ h. h"
    and g = "\<lambda>i d q. raise_op (NotFound [])" and k = sample_agent_call]
  show ?thesis using approves sample_thread_found(1,2) by (simp add: sample_ports_def)
qed

text \<open>
  C9. A confirmation from a signed channel approves nothing but what its human confirmed: either
  the route never reaches the approval (whatever that would do, the result is the same), or the
  stored record of the workspace has this decision pending under the fingerprint and the
  instance that the confirmation names, the permission service of the workspace's team said yes
  to this user and the decision's own role, and a Slack user is bound to the workspace.
\<close>

theorem channel_approval_was_confirmed:
  "approve_from_trusted_channel (sv_platform E) ((agent_ports E others meanwhile now resolve checker team notify)\<lparr>ap_decide := g\<rparr>) i d approver a x
      = approve_from_trusted_channel (sv_platform E) (agent_ports E others meanwhile now resolve checker team notify) i d approver a x
    \<or> (\<exists>w. sv_get E (fst (fst x)) i = Inr w \<and> confirmed_record (sv_platform E) checker team d approver a w
        \<and> (if at_channel a = Slack_Reaction then bound_approver w approver else True))"
  using agent_channel_confirmed [OF refl, of E g others meanwhile now resolve checker team notify i d approver a x] by auto





text \<open>
  C12. The preview of a proposed change, a separate search over the imported graph in the agent
  service, foretells the engine: when the authority then applies the change to a fresh context
  of the workspace, the assignments shown as interrupted are exactly those whose task the report
  of the engine lists as invalidated, and the others are shown as preserved.
\<close>

theorem preview_foretells_the_change:
  assumes "validate_graph_seed (context_request w) = Inr u" and "new_context P rg (context_request w) = Inr seed"
    and "lw_approved w = []" and "approve_baseline_in th role seed = (Inr v, c)"
    and "approve_mutation_in P th i q c = (Inr res, c')" and "distinct (map as_id (assigned w))"
    and "\<forall>a\<in>set (assigned w). \<exists>t. get_artifact (imported_graph w) (as_task a) = Inr t \<and> art_kind t = Task"
  shows "\<exists>p rep. preview_of w (mq_mutation q) = Inr p \<and> mres_report res = Some rep
    \<and> set (ap_interrupted p) = as_id ` {a\<in>set (assigned w). as_task a \<in> set (rep_invalidated_tasks rep)}
    \<and> set (ap_preserved p) = as_id ` {a\<in>set (assigned w). as_task a \<notin> set (rep_invalidated_tasks rep)}"
  by (rule preview_foretells [OF assms]) blast

theorem preview_foretells_the_change_witness:
  "\<exists>p rep. preview_of sample_imported sample_proposal = Inr p \<and> mres_report sample_result = Some rep
    \<and> set (ap_interrupted p) = as_id ` {a\<in>set (assigned sample_imported). as_task a \<in> set (rep_invalidated_tasks rep)}"
proof -
  have "mq_mutation (change_request sample_bound sample_bound_evidence) = sample_proposal"
    by (simp add: change_request_def sample_bound_def)
  with preview_foretells_the_change [OF sample_seeds sample_seeded_new sample_imported_fields(3) sample_ready_runs sample_after_runs
      sample_assigned] show ?thesis by auto
qed

text \<open>
  C13. The live call client posts at most one call for an authorization, over any sequence of
  requests and retries, whatever the provider answers to each and whichever writes of the
  attempt file the operating system refuses.
\<close>

theorem one_call_per_authorization:
  assumes "file_ok C (lc_store s)" and "lc_posts s = []"
    and "t = fold (\<lambda>(reply, q) s. snd (create_call P (file_reserve C) (file_transition C) reply q s)) calls s"
  shows "length (filter (\<lambda>q. cq_auth q = a) (lc_posts t)) \<le> 1"
proof -
  have "file_attempts.calls_ok C P s" using assms(1,2) by (simp add: file_attempts.calls_ok_def calls_of_def)
  from file_attempts.at_most_one_call [OF this assms(3), of a] show ?thesis by (simp add: calls_of_def)
qed

theorem one_call_per_authorization_witness:
  "length (filter (\<lambda>q. cq_auth q = ''AUTH-1'') (lc_posts
      (fold (\<lambda>(reply, q) s. snd (create_call sample_platform (file_reserve sample_attempt_texts)
        (file_transition sample_attempt_texts) reply q s))
        [(Call_Timed_Out, sample_dial), (sample_answer, sample_dial)] sample_caller))) \<le> 1"
  by (rule one_call_per_authorization [OF sample_caller_ok refl])

text \<open>
  C14. Through every write of the orchestrator, of the two interrupt ports and of the delivery
  of redirects, the assignments of a Claude runtime stay the same assignments in the same order,
  and each keeps its state or takes one step of: queued, running, continuing; interrupted at any
  time before completion; then redirected, resumed, completed.
\<close>

theorem assignments_take_their_course:
  assumes "lifecycle P \<lparr>rt_create = claude_create, rt_transition = claude_transition\<rparr> w"
    and "lifecycle_step P \<lparr>rt_create = claude_create, rt_transition = claude_transition\<rparr> w w'"
  shows "\<exists>su su'. lw_supervisor w = Some su \<and> lw_supervisor w' = Some su'
    \<and> map as_task (su_assignments su') = map art_id (ir_tasks (lw_definition w'))
    \<and> list_all2 (\<lambda>a b. as_id b = as_id a \<and> (as_state b = as_state a
        \<or> (as_state b = AS_Interrupted \<and> as_state a \<noteq> AS_Completed)
        \<or> (as_state a, as_state b) \<in> {(AS_Queued, AS_Running), (AS_Running, AS_Continuing),
             (AS_Interrupted, AS_Redirected), (AS_Redirected, AS_Resumed), (AS_Resumed, AS_Completed)}))
      (su_assignments su) (su_assignments su')"
proof -
  obtain su where su: "lw_supervisor w = Some su" "distinct (map as_id (su_assignments su))"
    using claude_rt.supervisor_stays [OF assms(1)] by blast
  obtain su' where su': "lw_supervisor w' = Some su'" "map as_task (su_assignments su') = map art_id (ir_tasks (lw_definition w'))"
    using claude_rt.supervisor_stays [OF lifecycle.step [OF assms]] by blast
  have "supervisor_follows (lw_supervisor w) (lw_supervisor w')"
    by (rule claude_rt.assignments_follow [OF assms(2)]) (simp add: su)
  then have "list_all2 follows (su_assignments su) (su_assignments su')" by (simp add: su su' supervisor_follows_def)
  then show ?thesis using su(1) su'
    by (auto simp: follows_def state_moves_def same_assignment_def elim: list.rel_mono_strong)
qed

theorem assignments_take_their_course_witness:
  "\<exists>w' su'. lifecycle_step sample_platform sample_claude sample_imported w' \<and> lw_supervisor w' = Some su'
    \<and> map as_task (su_assignments su') = [''W'']"
proof -
  obtain w' where step: "lifecycle_step sample_platform sample_claude sample_imported w'" by (rule sample_rejection_step)
  have "lw_definition w' = sample_import" using write_extends [OF step] sample_imported_fields by (simp add: extends_def)
  moreover have "map art_id (ir_tasks sample_import) = [''W'']" by (simp add: sample_import_def sample_artifact_def)
  ultimately show ?thesis
    using assignments_take_their_course [OF sample_imported_lives [unfolded sample_claude_def] step [unfolded sample_claude_def]] step
    by auto
qed

text \<open>
  C15. No write takes a record back: its status rank does not fall, but for the cancellation of
  a proposal that nobody has begun to approve, which leaves version and approvals as they were;
  approved changes are only added; and the history grows by at most one event, numbered next,
  behind the present ones.
\<close>

theorem status_moves_on_and_history_grows:
  assumes "lifecycle P R w" and "lifecycle_step P R w w'"
  shows "(status_rank (lw_status w) \<le> status_rank (lw_status w')
      \<or> (lw_status w = WS_Change_Proposed \<and> lw_status w' = WS_Authorized \<and> lw_intent w = None
        \<and> lw_pending w' = None \<and> lw_version w' = lw_version w \<and> lw_approved w' = lw_approved w))
    \<and> (\<exists>xs. lw_approved w' = lw_approved w @ xs) \<and> lw_definition w' = lw_definition w
    \<and> (lw_history w' = lw_history w
      \<or> (\<exists>ev. lw_history w' = lw_history w @ [ev] \<and> we_sequence ev = int (length (lw_history w)) + 1))"
  using status_moves_on [OF assms(2) lifecycle_ok [OF assms(1)]] write_extends [OF assms(2)]
  by (auto simp: moves_on_def extends_def)

theorem status_moves_on_and_history_grows_witness:
  "\<exists>w'. lifecycle_step sample_platform sample_claude sample_imported w'
    \<and> (\<exists>ev. lw_history w' = lw_history sample_imported @ [ev] \<or> lw_history w' = lw_history sample_imported)"
proof -
  obtain w' where step: "lifecycle_step sample_platform sample_claude sample_imported w'" by (rule sample_rejection_step)
  with status_moves_on_and_history_grows [OF sample_imported_lives step] show ?thesis by auto
qed

text \<open>
  C16. A token of a grant that the authority issued for a plan verifies only for the same run,
  the same task, a plan equal to the authorized one (as Python compares the models), the same
  graph version and before its expiry, when SHA-256 does not collide on the two canonical plan
  texts.
\<close>

theorem verified_plan_was_authorized:
  assumes "float_repr_ok P" and "wf_plan plan0" and "wf_plan plan"
    and "no_collision P (canonical_json P (plan_dump plan0)) (canonical_json P (plan_dump plan))"
    and "G = issued_grant P now uid au run0 task0 plan0" and "codec_ok P (sg_payload G)"
    and "au_signer au' = au_signer au"
    and "verify_grant P now' uid' au' (sg_token G) run task_id plan = Inr res" and "vr_valid res"
  shows "run = run0 \<and> task_id = task0 \<and> plan_eq plan0 plan
    \<and> g_version (au_graph au') = g_version (au_graph au) \<and> now' < now + sig_ttl (au_signer au) * 1000000"
  by (rule verified_plan_is_issued_plan [OF assms])

theorem verified_plan_was_authorized_witness:
  "plan_eq (sample_plan 1) (sample_plan 1)"
proof -
  have "no_collision sample_codec t t" for t by (simp add: no_collision_def)
  moreover have "sample_grant = issued_grant sample_codec 0 [] sample_authority ''R'' ''T'' (sample_plan 1)"
    by (simp add: issued_codec sample_grant_def)
  ultimately show ?thesis
    using verified_plan_was_authorized [OF sample_platform_codec(1) sample_plan_wf sample_plan_wf _ _
        sample_codec_ok refl sample_verifies] by simp
qed

text \<open>
  C17. Over any history of redemptions, each with its own clock, directory, approving port and a
  table of uses that may be out of reach, and starting from any table, no two links that come as
  far as the approving port have one token, and none of them is in the table before.
\<close>

theorem links_are_used_once:
  "distinct (map lk_token (claimed_links P S ms x)) \<and> lk_token ` set (claimed_links P S ms x) \<inter> us_id ` set (fst x) = {}"
  using claimed_links_once [of P S ms x] by (fastforce simp: row_used_def)



text \<open>
  C19. The agent's route of a forwarded notification trusts nobody but the holder of the secret:
  where its approving port is reached, the caller knew the internal token, the assertion decodes
  under the agent's secret for exactly this workspace and decision, its recipient binding is
  still the directory's, it was never used before, and the workspace's record has the decision
  pending as the assertion says, with the permission service's yes to its approver.
\<close>

theorem notification_approval_was_confirmed:
  "approve_from_notification (sv_platform E) C ((agent_ports E others meanwhile now resolve checker team notify)\<lparr>ap_decide := g\<rparr>) k i d token x
      = approve_from_notification (sv_platform E) C (agent_ports E others meanwhile now resolve checker team notify) k i d token x
    \<or> (\<exists>c w. trusted (sv_platform E) (cc_grant C) (ac_supplied k)
        \<and> decode_channel_assertion (sv_platform E) C (ac_now k) token i d = Inr c \<and> fa_channel c \<in> {Push, Email}
        \<and> verify_recipient (sv_platform E) C c = Inr () \<and> \<not> row_used (fa_id c) (fst x)
        \<and> sv_get E (fst (fst (snd x))) i = Inr w
        \<and> confirmed_record (sv_platform E) checker team d (fa_approver c) (trusted_attempt c) w)"
  by (rule notification_confirmed [OF refl])



text \<open>
  C21. A signed reaction acts once: after it changed the threads or anything outside, however it
  ended, and after any reservations and completions of others, the same delivery changes neither
  the file of deliveries, nor a thread, nor anything outside.
\<close>

theorem reaction_delivery_acts_once:
  assumes "intake_slack_reaction V coord now i body headers w = (t, w1)" and "iw_rest w1 \<noteq> iw_rest w"
    and "granted slack_reserve (complete_delivery ''Slack'') history (iw_deliveries w1) = (ks, iw_deliveries w2)"
  shows "iw_rest (snd (intake_slack_reaction V coord now' i body headers w2)) = iw_rest w2
    \<and> iw_deliveries (snd (intake_slack_reaction V coord now' i body headers w2)) = iw_deliveries w2"
  by (rule reaction_again [OF assms])

theorem reaction_delivery_acts_once_witness:
  "\<exists>w1. intake_slack_reaction (Some sample_reaction_verifier) sample_coordinator (Aware 1) ''ws'' ''signed'' sample_headers
        sample_reaction_world = (Inl (NotFound []), w1) \<and> iw_rest w1 = (sample_threads, 1)
    \<and> iw_rest (snd (intake_slack_reaction (Some sample_reaction_verifier) sample_coordinator (Aware 2) ''ws'' ''signed'' sample_headers w1))
      = (sample_threads, 1)"
proof -
  obtain w1 where run: "intake_slack_reaction (Some sample_reaction_verifier) sample_coordinator (Aware 1) ''ws'' ''signed'' sample_headers
      sample_reaction_world = (Inl (NotFound []), w1)" "iw_rest w1 = (sample_threads, 1)"
    using sample_reaction_acts by (metis prod.exhaust)
  have "iw_rest w1 \<noteq> iw_rest sample_reaction_world" using run(2) by (simp add: sample_reaction_world_def)
  then show ?thesis using run reaction_delivery_acts_once [OF run(1), of "[]" "[]" w1 "Aware 2"] by simp
qed

text \<open>
  C22. A link that was issued for validated claims decodes to these claims, for its own channel
  and under the key that signed it, at any time from its issue (a minute of clock skew allowed)
  to before its expiry, as long as it is no longer than 8192 characters and the JSON reader
  reads what was written.
\<close>

theorem issued_link_decodes:
  assumes "tk_parse S (json_dumps P (link_dump P c)) = Inr c" and "make_link c = Inr c" and "length (link_token P S c) \<le> 8192"
    and "dt_aware now" and "dt_micros (lk_issued c) \<le> dt_micros (add_seconds now clock_skew)"
    and "dt_micros now < dt_micros (lk_expires c)"
    and "hmac_sha256 P (tk_key S) (b64 (json_dumps P (link_dump P c))) \<noteq> []"
  shows "decode_link P S now (link_token P S c) (lk_channel c) = Inr c"
  by (rule decode_issued [OF assms])

theorem issued_link_decodes_witness:
  "decode_link sample_platform sample_link_signer (Aware 5) sample_link_token (lk_channel sample_link) = Inr sample_link"
  unfolding sample_link_token_def
  by (rule issued_link_decodes)
    (use sample_link_made sample_token_short in \<open>simp_all add: sample_link_token_def sample_link_signer_def sample_link_def
      sample_platform_def add_seconds_def clock_skew_def\<close>)

text \<open>
  C23. Once the evidence of an authority event is newly completed, whatever the network did on
  the way, neither service answers from what it knew before: the next question to a checker of
  the authority or of the agent goes to the permission service, and the answer is what the
  service says to this user and permission then.
\<close>

theorem revocation_takes_effect:
  assumes "receive_hexclave_webhook P grant agent_grant V parse_int k declared chunks headers w = (r, w')"
    and "completed_in d (ww_evidence w')" and "\<not> completed_in d (ww_evidence w)"
    and "cs = ww_authority w' \<or> cs = ww_agent w'"
    and "team_permission P X http now team user permission (cs, h) = (Inr allowed, y)"
  shows "\<exists>q payload h'. tp_user q = strip user \<and> tp_permission q = strip permission \<and> http q h = (Some payload, h')
    \<and> permission_value payload q = Some allowed"
  using webhook_clears [OF assms(1-3)] assms(4) asked_after_clear [OF _ assms(5)] by blast

theorem revocation_takes_effect_witness:
  "completed_in ''d'' (ww_evidence sample_webhook_done) \<and> \<not> completed_in ''d'' (ww_evidence sample_webhook_world)
    \<and> (\<exists>q payload h'. tp_user q = strip ''u'' \<and> tp_permission q = strip ''approve'' \<and> sample_service q 0 = (Some payload, h')
      \<and> permission_value payload q = Some False)"
proof -
  obtain answer where run: "receive_hexclave_webhook sample_platform ''g'' ''g'' (Some sample_webhook_verifier) (\<lambda>_. None) sample_webhook_call
      None [sample_webhook_body] sample_webhook_headers sample_webhook_world = (Inr answer, sample_webhook_done)"
    using sample_webhook_clears by blast
  obtain y where no: "team_permission sample_platform sample_hexclave sample_service 0 ''t'' ''u'' ''approve'' (ww_agent sample_webhook_done, 0)
      = (Inr False, y)"
    using sample_revoked by blast
  show ?thesis
    using sample_webhook_completed revocation_takes_effect [OF run sample_webhook_completed disjI2 [OF refl] no] by blast
qed

text \<open>
  C24. Whatever is asked of the permission checkers of a process, about any teams, users and
  permissions, at any clock readings and with caches cleared at any time, an answer that is
  given is either what the service says to that very question now, or what it said to the same
  question in a call made since the caches were last cleared and less than the lifetime of an
  entry ago. The log records each question with what the service said to it, if it was asked,
  and what the caller was told.
\<close>

theorem cached_answer_is_recent:
  "log_vouched (lifetime X) (fst (permission_log P X http es [] ([], h)))"
  by (rule cached_answers_recent)

text \<open>
  C25. The chain of resolvers that the agent uses names nobody the identity service did not name
  for this credential: a resolved user is the non-empty id of a response to this token, either
  of a session that is not anonymous or of a user key that is not public.
\<close>

theorem resolved_identity_is_the_services:
  assumes "resolve_chained [resolve_access_token h1, resolve_api_key h2] token h = (Inr user, h')"
  shows "user \<noteq> [] \<and> (\<exists>h0 d u. user = strip u \<and>
      (h1 (strip token) h0 = (Some (PDict d), h') \<and> dict_get d ''is_anonymous'' \<noteq> Some (PBool True)
         \<and> (dict_get d ''id'' = Some (PStr u) \<or> py_false (dict_get d ''id'') \<and> dict_get d ''user_id'' = Some (PStr u))
       \<or> h2 (strip token) h0 = (Some (PDict d), h') \<and> dict_get d ''user_id'' = Some (PStr u)
         \<and> dict_get d ''type'' = Some (PStr ''user'') \<and> dict_get d ''is_public'' = Some (PBool False)))"
  using chained_identity [OF assms]
  by (fastforce simp: identified_def api_key_identity_Inr dest: access_token_identity_Inr)

theorem resolved_identity_is_the_services_witness:
  "resolve_chained [resolve_access_token sample_token, resolve_api_key sample_api_key] ''c'' 0 = (Inr ''u'', 2)
    \<and> (\<exists>h0 d u. ''u'' = strip u \<and> (sample_token (strip ''c'') h0 = (Some (PDict d), 2) \<or> sample_api_key (strip ''c'') h0 = (Some (PDict d), 2)))"
proof -
  have run: "resolve_chained [resolve_access_token sample_token, resolve_api_key sample_api_key] ''c'' 0 = (Inr ''u'', 2)"
    by code_simp
  show ?thesis using run resolved_identity_is_the_services [OF run] by blast
qed



text \<open>
  C27. The route of the command line and of the workspace page approves nothing but for the user
  whose credential resolved, on one of these two channels, and only the decision that is pending
  in the stored record under the fingerprint and the instance that the request names, with the
  permission service's yes to this user and the decision's role.
\<close>

theorem credential_approval_was_confirmed:
  "approve_with_credential (sv_platform E) ((agent_ports E others meanwhile now resolve checker team notify)\<lparr>ap_decide := g\<rparr>) i d a token x
      = approve_with_credential (sv_platform E) (agent_ports E others meanwhile now resolve checker team notify) i d a token x
    \<or> (\<exists>approver h w. resolve token (snd x) = (Inr approver, h) \<and> at_channel a \<in> {Cli, Workspace_Ui}
        \<and> sv_get E (fst (fst x)) i = Inr w \<and> confirmed_record (sv_platform E) checker team d approver a w)"
  by (rule agent_token_confirmed)



text \<open>
  C29. A proposal of intake is a Decision awaiting approval whose governance is the delivery's
  and the gate's, whatever the language model extracted: its role is the permission that the
  gate found, its source and its time are the signed message's, it supersedes the seeded root,
  and its scopes are those of the change, all of them within an approved decision.
\<close>

theorem intake_proposal_is_governed:
  assumes "ingest_verified I w m ds user root_id h = (Inr out, h')" and "io_proposal out = Some p"
  shows "art_kind (wp_decision p) = Decision \<and> art_approval (wp_decision p) = Some Proposal
    \<and> art_role (wp_decision p) = gt_permission (io_gate out) \<and> art_source (wp_decision p) = Some (sm_source m)
    \<and> art_effective (wp_decision p) = Some (sm_delivered m) \<and> wp_supersedes p = strip root_id
    \<and> art_scopes (wp_decision p) = wp_scopes p
    \<and> (\<exists>target\<in>set ds. art_id target = strip root_id \<and> art_approval target = Some Approved \<and> wp_scopes p \<subseteq> art_scopes target)"
  by (rule intake_governs [OF assms])

theorem intake_proposal_is_governed_witness:
  "art_role (wp_decision sample_proposed_change) = Some ''r'' \<and> wp_supersedes sample_proposed_change = strip ''D0''"
  using intake_proposal_is_governed [of sample_slack_intake "''ws''" sample_message "[sample_superseded]" "''alice''" "''D0''" 0 sample_taken 1
      sample_proposed_change] sample_ingested [of 0]
  by (simp add: sample_taken_def sample_passed_def)

text \<open>
  C30. Over any ports, the baseline route reaches the approval of the baseline only for a
  resolved credential and on a workspace whose baseline awaits approval, is confirmed by
  fingerprint and instance, and asks for a permission that all its scopes admit and the
  permission service grants this user.
\<close>

theorem baseline_approval_was_confirmed:
  "approve_baseline_with_credential (A\<lparr>ap_baseline := h\<rparr>) i a token x = approve_baseline_with_credential A i a token x
    \<or> (\<exists>approver v y z. ap_resolve A token x = (Inr approver, y) \<and> ap_get A i y = (Inr v, z)
        \<and> baseline_confirmed A approver a v)"
  by (rule baseline_token_confirmed)

text \<open>
  C31. On a graph whose decisions are readable, evaluate_plan returns, its verdict is the
  reference verdict (BLOCK for an unknown task or a foreign ticket, ALLOW when the plan covers
  the required scopes, its references are valid tasks and its actions meet every requirement,
  REPLAN otherwise), and it carries a grant exactly when it says ALLOW.
\<close>

theorem verdict_is_conformance:
  assumes "requirements_ok (au_graph au)" and "set_order_ok P"
    and "\<forall>a\<in>set (plan_actions plan). finite (act_scopes a)" and "current_requirements (au_graph au) = Inr reqs"
  shows "\<exists>res. evaluate_plan P now uid au run task_id plan report = Inr res
    \<and> ar_verdict res = plan_verdict (au_graph au) reqs task_id plan
    \<and> ar_grant res = (if ar_verdict res = ALLOW then Some (issued_grant P now uid au run task_id plan) else None)
    \<and> ar_version res = version_label (au_graph au) \<and> ar_task res = task_id
    \<and> (ar_mismatches res = [] \<longleftrightarrow> ar_verdict res \<noteq> REPLAN)"
  by (rule evaluate_plan_verdict [OF assms])

theorem verdict_is_conformance_witness:
  "\<exists>res. evaluate_plan sample_platform 0 [] sample_authority ''R'' ''T'' (sample_plan 2) None = Inr res
    \<and> ar_verdict res = REPLAN"
  using verdict_is_conformance [of sample_authority sample_platform "sample_plan 2" "[(''s'', PDict [(''k'', PInt 1)])]"
      0 "[]" "''R''" "''T''" None] sample_requirements_ok sample_requirements sample_refused
  by (auto simp: sample_plan_def sample_action_def)

text \<open>
  C32. The JSON document store and the SQLite store are observationally the same: started with
  the same contents, any sequence of create, save, mutate and get calls returns the same values
  and the same errors from both.
\<close>

theorem stores_are_interchangeable:
  assumes "json_ok c s" and "sql_ok c t" and "same_contents (json_get c) s (sql_get c) t"
  shows "fst (run_calls (run_call (json_get c) (json_create c) (json_save c) (json_mutate c)) cs s) =
    fst (run_calls (run_call (sql_get c) (sql_create c) (sql_save c) (sql_mutate c)) cs t)"
  by (rule stores_agree [OF assms])

theorem stores_are_interchangeable_witness:
  "fst (run_calls (run_call (json_get sample_texts) (json_create sample_texts) (json_save sample_texts)
        (json_mutate sample_texts)) [Get ''a'', Create (sample_record ''b''), Get ''b''] (Some [sample_record ''a''])) =
    fst (run_calls (run_call (sql_get sample_texts) (sql_create sample_texts) (sql_save sample_texts)
        (sql_mutate sample_texts)) [Get ''a'', Create (sample_record ''b''), Get ''b''] sample_table)"
  by (rule stores_are_interchangeable [OF sample_json_ok sample_table_ok])
     (auto simp: same_contents_def json_get_def json_read_def sql_get_def sql_select_def sql_decode_def
       sample_table_def sample_texts_def)

text \<open>
  C33. A SQLite mutate either returns the record it wrote, which is what the caller's function
  made of the stored one, keeps its id and touches no other row, or raises and leaves the table
  exactly as it was.
\<close>

theorem mutation_is_atomic:
  assumes "sql_ok c t" and "sql_mutate c i f t = (r, t')"
  shows "case r of
      Inl e \<Rightarrow> t' = t
    | Inr w \<Rightarrow> (\<exists>v. sql_get c t i = Inr v \<and> f v = Inr w) \<and> lw_id w = i \<and> sql_ok c t' \<and> keeps_others (sql_get c) t i w t'"
  by (rule sql_repo.mutate_outcome [OF assms])

theorem mutation_is_atomic_witness:
  "snd (sql_mutate sample_texts ''a'' (\<lambda>_. Inl (ValueError ''x'')) sample_table) = sample_table"
  using mutation_is_atomic [OF sample_table_ok, of "''a''" "\<lambda>_. Inl (ValueError ''x'')"
      "fst (sql_mutate sample_texts ''a'' (\<lambda>_. Inl (ValueError ''x'')) sample_table)"
      "snd (sql_mutate sample_texts ''a'' (\<lambda>_. Inl (ValueError ''x'')) sample_table)"]
  by (simp add: sql_mutate_def write_transaction_def sql_get_def sql_select_def sql_decode_def sample_table_def
      sample_texts_def bind_op_def)

text \<open>
  C34. A mutation request changes a context only if the baseline is approved, the confirmed
  fingerprint is the hash of this very mutation, the evidence names this workspace, decision and
  permission, the acting role is the decision's own and the policy grants it every scope; then
  the graph version goes up by one and the request is recorded last.
\<close>

theorem change_needs_bound_evidence:
  assumes "context_ok c" and "approve_mutation_in P th i q c = (v, c')" and "c' \<noteq> c"
  shows "cx_approved c \<and> evidence_bound P i q
    \<and> mq_fingerprint q = stable_hash P (mutation_dump P (mq_mutation q))
    \<and> art_role (mut_decision (mq_mutation q)) = Some (mq_role q)
    \<and> (\<forall>s\<in>art_scopes (mut_decision (mq_mutation q)).
         \<exists>roles. dict_get (cx_policy c) s = Some roles \<and> mq_role q \<in> roles)
    \<and> g_version (au_graph (cx_authority c')) = g_version (au_graph (cx_authority c)) + 1
    \<and> cx_mutations c' = cx_mutations c @ [(art_id (mut_decision (mq_mutation q)), q)]"
  by (rule change_needs_authority [OF assms])

theorem change_needs_bound_evidence_witness:
  "\<exists>res c'. approve_mutation_in sample_platform (3 / 4) ''live-ws'' sample_request sample_approved = (Inr res, c')
    \<and> g_version (au_graph (cx_authority c')) = g_version (au_graph (cx_authority sample_approved)) + 1"
  using sample_request_runs change_needs_bound_evidence [OF sample_approved_ok(1)] by blast

text \<open>
  C35. An approval whose reply is lost: the agent gets a retryable timeout although the change
  is applied, and sending the same request again gives the result of the first and applies
  nothing twice.
\<close>

theorem lost_reply_is_made_good:
  assumes "context_ok c" and "dict_get (rg_contexts (rm_registry x)) i = Some c" and "wf_dict (rg_contexts (rm_registry x))"
    and "rm_faults x = [Lost_Reply]" and "st_agent S = st_authority S" and "internal_service_token P (st_authority S) \<noteq> []"
    and "approve_mutation_in P (rg_threshold (rm_registry x)) i q c = (Inr res, c')"
    and "art_id (mut_decision (mq_mutation q)) \<notin> cx_applied c"
    and "wf_pyval (PDict (art_attrs (mut_decision (mq_mutation q))))"
  shows "\<exists>y. tr_mutation (http_transport P now uid S client) i q x = (Inl (ApiFailure 504 ''AUTHORITY_TIMEOUT'' True), y)
    \<and> dict_get (rg_contexts (rm_registry y)) i = Some c'
    \<and> (\<exists>z. tr_mutation (http_transport P now uid S client) i q y = (Inr res, z)
        \<and> dict_get (rg_contexts (rm_registry z)) i = Some c' \<and> rm_client z = rm_client x)"
  by (rule lost_reply_made_good [OF assms])

theorem lost_reply_is_made_good_witness:
  "\<exists>y. tr_mutation (http_transport sample_codec 0 [] sample_site (\<lambda>_. raise_op (NotFound []))) ''live-wsp''
      (change_request sample_bound sample_bound_evidence) (sample_holding sample_ready [Lost_Reply])
        = (Inl (ApiFailure 504 ''AUTHORITY_TIMEOUT'' True), y)
    \<and> dict_get (rg_contexts (rm_registry y)) ''live-wsp'' = Some sample_after"
proof -
  let ?q = "change_request sample_bound sample_bound_evidence" and ?x = "sample_holding sample_ready [Lost_Reply]"
  have q: "art_id (mut_decision (mq_mutation ?q)) \<notin> cx_applied sample_ready"
      "wf_pyval (PDict (art_attrs (mut_decision (mq_mutation ?q))))"
    using sample_bound_new sample_bound_fields(3) by (simp_all add: change_request_def json_change_def)
  have site: "st_agent sample_site = st_authority sample_site" "internal_service_token sample_codec (st_authority sample_site) \<noteq> []"
    using sample_token_known by (simp_all add: sample_site_def)
  have run: "approve_mutation_in sample_codec (rg_threshold (rm_registry ?x)) ''live-wsp'' ?q sample_ready = (Inr sample_result, sample_after)"
    using sample_after_runs unfolding sample_holding_fields(4) by (simp add: sample_registry_def)
  from lost_reply_is_made_good [OF sample_ready_ok(1) sample_holding_fields(1,2,3) site run q,
      of 0 "[]" "\<lambda>_. raise_op (NotFound [])"] show ?thesis by auto
qed

text \<open>
  C36. What the agent shows of a record depends on neither the grant tokens, the approval
  intent, the id of the authority context nor the Slack identities: two records that differ only
  in them have the same view.
\<close>

theorem view_shows_no_secrets:
  assumes "redact w = redact w'"
  shows "from_record P w = from_record P w'"
  by (rule from_record_confined [OF assms])

theorem view_shows_no_secrets_witness:
  "from_record sample_platform (sample_imported\<lparr>lw_context := ''other''\<rparr>) = from_record sample_platform sample_imported"
  by (rule view_shows_no_secrets) (simp add: redact_def)

text \<open>
  C37. Over any history of reservations and completions, from any file, the store of Slack
  deliveries grants each key at most one reservation.
\<close>

theorem reservations_are_granted_once:
  "distinct (fst (granted slack_reserve (complete_delivery ''Slack'') history f))"
  by (cases "granted slack_reserve (complete_delivery ''Slack'') history f") (simp add: slack_store.granted_once)

text \<open>
  C38. Creating a context keeps the registry within its limit: the new context is the most
  recently used one, and exactly the oldest ones beyond the limit are dropped; ids stay
  distinct.
\<close>

theorem registry_evicts_oldest:
  assumes "registry_ok r" and "create_context P q r = (Inr st, r')"
  shows "registry_ok r' \<and> (\<exists>c. new_context P r q = Inr c \<and> st = context_state c
      \<and> rg_contexts r' = drop (Suc (length (rg_contexts r)) - nat (rg_max r)) (rg_contexts r) @ [(xc_id q, c)])"
  using create_context_evicts [OF assms] by blast

theorem registry_evicts_oldest_witness:
  "registry_ok (snd (create_context sample_platform (sample_create ''live-ws'') sample_registry))"
proof -
  obtain c where "new_context sample_platform sample_registry (sample_create ''live-ws'') = Inr c"
    using sample_new_context by blast
  then obtain st r' where run: "create_context sample_platform (sample_create ''live-ws'') sample_registry = (Inr st, r')"
    by (auto simp: create_context_def sample_registry_def sample_create_def)
  have "registry_ok sample_registry" by (simp add: registry_ok_def sample_registry_def)
  from registry_evicts_oldest [OF this run] run show ?thesis by simp
qed




end
